(* ===== verification/Prelude.thy ===== *)
theory Prelude
  imports Main "HOL-Library.Word"
begin

text \<open>
  Shared vocabulary of the development: the fixed-width integers of the C sources, the Linux
  error numbers the drivers return, byte buffers whose out-of-range accesses are \<open>None\<close>, the
  little-endian 16-bit encoding of USB descriptors, and the generic list, word and option lemmas
  the components share. The collection \<open>mem_simps\<close> holds the buffer lemmas.
\<close>

unbundle bit_operations_syntax

section \<open>Machine integers and error numbers\<close>

type_synonym u8 = "8 word"
type_synonym u16 = "16 word"
type_synonym u32 = "32 word"
type_synonym u64 = "64 word"
type_synonym bytes = "8 word list"

text \<open>The Linux error numbers, positive as in \<^verbatim>\<open>errno.h\<close>; a function returns their negation.\<close>

abbreviation (input) ENOENT :: int where "ENOENT \<equiv> 2"
abbreviation (input) EIO :: int where "EIO \<equiv> 5"
abbreviation (input) EAGAIN :: int where "EAGAIN \<equiv> 11"
abbreviation (input) ENOMEM :: int where "ENOMEM \<equiv> 12"
abbreviation (input) EFAULT :: int where "EFAULT \<equiv> 14"
abbreviation (input) EBUSY :: int where "EBUSY \<equiv> 16"
abbreviation (input) ENODEV :: int where "ENODEV \<equiv> 19"
abbreviation (input) EINVAL :: int where "EINVAL \<equiv> 22"
abbreviation (input) ENOTTY :: int where "ENOTTY \<equiv> 25"
abbreviation (input) EOVERFLOW :: int where "EOVERFLOW \<equiv> 75"
abbreviation (input) EOPNOTSUPP :: int where "EOPNOTSUPP \<equiv> 95"
abbreviation (input) ECONNABORTED :: int where "ECONNABORTED \<equiv> 103"
abbreviation (input) ECONNRESET :: int where "ECONNRESET \<equiv> 104"
abbreviation (input) ESHUTDOWN :: int where "ESHUTDOWN \<equiv> 108"
abbreviation (input) ETIMEDOUT :: int where "ETIMEDOUT \<equiv> 110"
abbreviation (input) ERESTARTSYS :: int where "ERESTARTSYS \<equiv> 512"

section \<open>Byte buffers\<close>

named_theorems mem_simps \<open>reads and writes of byte buffers\<close>

text \<open>
  \<open>mem_write m i bs\<close> stores the bytes \<open>bs\<close> at offset \<open>i\<close>; \<open>mem_read m i n\<close> fetches \<open>n\<close> bytes.
  An access that leaves the object is undefined behaviour in C and \<open>None\<close> here.
\<close>

definition mem_write :: "'a list \<Rightarrow> nat \<Rightarrow> 'a list \<Rightarrow> 'a list option" where
  "mem_write m i bs =
     (if i + length bs \<le> length m then Some (take i m @ bs @ drop (i + length bs) m) else None)"

definition mem_read :: "'a list \<Rightarrow> nat \<Rightarrow> nat \<Rightarrow> 'a list option" where
  "mem_read m i n = (if i + n \<le> length m then Some (take n (drop i m)) else None)"

lemma mem_write_Some [mem_simps]:
  "i + length bs \<le> length m \<Longrightarrow> mem_write m i bs = Some (take i m @ bs @ drop (i + length bs) m)"
  by (simp add: mem_write_def)

lemma mem_write_None_iff [mem_simps]: "mem_write m i bs = None \<longleftrightarrow> length m < i + length bs"
  by (auto simp: mem_write_def)

lemma mem_write_length: "mem_write m i bs = Some m' \<Longrightarrow> length m' = length m"
  by (auto simp: mem_write_def split: if_splits)

lemma mem_write_take: "mem_write m i bs = Some m' \<Longrightarrow> take i m' = take i m"
  by (auto simp: mem_write_def split: if_splits)

lemma mem_write_take_end:
  "mem_write m i bs = Some m' \<Longrightarrow> take (i + length bs) m' = take i m @ bs"
  by (auto simp: mem_write_def split: if_splits)

lemma mem_write_drop:
  "mem_write m i bs = Some m' \<Longrightarrow> drop (i + length bs) m' = drop (i + length bs) m"
  by (auto simp: mem_write_def split: if_splits)

lemma mem_read_Some [mem_simps]: "i + n \<le> length m \<Longrightarrow> mem_read m i n = Some (take n (drop i m))"
  by (simp add: mem_read_def)

lemma mem_read_write_same:
  assumes "mem_write m i bs = Some m'"
  shows "mem_read m' i (length bs) = Some bs"
proof -
  have len: "i + length bs \<le> length m" and m': "m' = take i m @ bs @ drop (i + length bs) m"
    using assms by (auto simp: mem_write_def split: if_splits)
  have "drop i m' = bs @ drop (i + length bs) m"
    using len m' by simp
  then show ?thesis using len mem_write_length [OF assms] by (simp add: mem_read_def)
qed

section \<open>Little-endian 16-bit values\<close>

definition le16_bytes :: "u16 \<Rightarrow> bytes" where
  "le16_bytes w = [ucast w, ucast (drop_bit 8 w)]"

definition le16_of :: "u8 \<Rightarrow> u8 \<Rightarrow> u16" where
  "le16_of lo hi = ucast lo OR push_bit 8 (ucast hi)"

lemma length_le16_bytes [simp]: "length (le16_bytes w) = 2"
  by (simp add: le16_bytes_def)

lemma le16_round_trip [simp]: "le16_of (ucast w) (ucast (drop_bit 8 w)) = w"
  unfolding le16_of_def by (rule bit_word_eqI) (auto simp: bit_simps)

section \<open>Kernel pointers and decimal output\<close>

text \<open>A kernel pointer is null, an encoded error number (\<^verbatim>\<open>ERR_PTR\<close>) or the address of an object.\<close>

datatype 'a kptr = NULL | ERR int | PTR 'a

fun IS_ERR :: "'a kptr \<Rightarrow> bool" where
  "IS_ERR (ERR e) = True"
| "IS_ERR _ = False"

text \<open>\<^verbatim>\<open>PTR_ERR\<close> of a null pointer is 0; it is only used on the other two kinds.\<close>

fun PTR_ERR :: "'a kptr \<Rightarrow> int" where
  "PTR_ERR (ERR e) = e"
| "PTR_ERR _ = 0"

text \<open>The \<^verbatim>\<open>%d\<close> conversion.\<close>

fun nat_dec :: "nat \<Rightarrow> string" where
  "nat_dec n = (if n < 10 then [char_of (48 + n)] else nat_dec (n div 10) @ [char_of (48 + n mod 10)])"

declare nat_dec.simps [simp del]

definition c_dec :: "int \<Rightarrow> string" where
  "c_dec v = (if v < 0 then CHR ''-'' # nat_dec (nat (- v)) else nat_dec (nat v))"

text \<open>A character of the decimal digits.\<close>

definition isdigit :: "char \<Rightarrow> bool" where
  "isdigit c \<longleftrightarrow> 48 \<le> (of_char c :: nat) \<and> (of_char c :: nat) \<le> 57"

text \<open>Division and remainder of C, which truncate towards zero.\<close>

definition cdiv :: "int \<Rightarrow> int \<Rightarrow> int" where
  "cdiv a b = sgn a * sgn b * (\<bar>a\<bar> div \<bar>b\<bar>)"

definition cmod :: "int \<Rightarrow> int \<Rightarrow> int" where
  "cmod a b = a - cdiv a b * b"

section \<open>Counting loops over buffers\<close>

text \<open>
  \<open>fetch\<close> and \<open>store\<close> are the accesses \<^verbatim>\<open>b[i]\<close> and \<^verbatim>\<open>b[i] = v\<close>. \<open>c_for n s body\<close> is the loop
  \<^verbatim>\<open>for (i = 0; i < n; i += s)\<close>, whose body may fail.
\<close>

definition fetch :: "'a list \<Rightarrow> nat \<Rightarrow> 'a option" where
  "fetch b i = (if i < length b then Some (b ! i) else None)"

definition store :: "nat \<Rightarrow> 'a \<Rightarrow> 'a list \<Rightarrow> 'a list option" where
  "store i v b = (if i < length b then Some (b[i := v]) else None)"

fun rounds :: "nat \<Rightarrow> (nat \<Rightarrow> 's \<Rightarrow> 's option) \<Rightarrow> nat \<Rightarrow> nat \<Rightarrow> 's \<Rightarrow> 's option" where
  "rounds s body i 0 st = Some st"
| "rounds s body i (Suc k) st = Option.bind (body i st) (rounds s body (i + s) k)"

definition c_for :: "nat \<Rightarrow> nat \<Rightarrow> (nat \<Rightarrow> 's \<Rightarrow> 's option) \<Rightarrow> 's \<Rightarrow> 's option" where
  "c_for n s body st = rounds s body 0 ((n + s - 1) div s) st"

section \<open>Generic lemmas\<close>

text \<open>Bitwise equations on bytes and half-words are proved bit by bit with these rules.\<close>

lemma bit_high_False:
  fixes x :: "'a::len word"
  assumes "unat x < 2 ^ k" and "k \<le> n"
  shows "\<not> bit x n"
proof -
  have "(2::nat) ^ k \<le> 2 ^ n" using assms(2) by (rule power_increasing) simp
  with assms(1) have "unat x < 2 ^ n" by linarith
  then have "\<not> bit (unat x) n" by (simp add: bit_iff_odd)
  then show ?thesis by (simp add: bit_unsigned_iff)
qed

lemma all_less_8:
  "(\<forall>n<8. P n) = (P 0 \<and> P 1 \<and> P 2 \<and> P 3 \<and> P 4 \<and> P 5 \<and> P 6 \<and> P (7::nat))"
  by (simp add: numeral_eq_Suc All_less_Suc conj_commute conj_left_commute)

lemma all_less_16:
  "(\<forall>n<16. P n) = ((\<forall>n<8. P n) \<and> P 8 \<and> P 9 \<and> P 10 \<and> P 11 \<and> P 12 \<and> P 13 \<and> P 14 \<and> P (15::nat))"
  by (simp add: numeral_eq_Suc All_less_Suc conj_commute conj_left_commute)

lemma u8_eqI: "(\<forall>n<8. bit x n = bit y n) \<Longrightarrow> x = (y::u8)"
  by (rule bit_word_eqI) auto

lemma u16_eqI: "(\<forall>n<16. bit x n = bit y n) \<Longrightarrow> x = (y::u16)"
  by (rule bit_word_eqI) auto

lemma bit_nonzero: "bit x n \<Longrightarrow> x \<noteq> (0 :: 'a::len word)"
  by auto

lemma bit_beyond_u8: "8 \<le> n \<Longrightarrow> \<not> bit (x::u8) n"
  using bit_imp_le_length [of x n] by auto

lemma bit_beyond_u16: "16 \<le> n \<Longrightarrow> \<not> bit (x::u16) n"
  using bit_imp_le_length [of x n] by auto

lemmas bitwise = all_less_8 all_less_16 bit_simps bit_beyond_u8 bit_beyond_u16

lemma unat_and_mask_less:
  fixes x :: "'a::len word"
  shows "unat (x AND m) \<le> unat m"
  by (metis word_and_le1 word_le_nat_alt)

lemma bind_Some_iff [simp]: "Option.bind x f = Some y \<longleftrightarrow> (\<exists>z. x = Some z \<and> f z = Some y)"
  by (rule Option.bind_eq_Some_conv)

lemma find_eq_self: "x \<in> set xs \<Longrightarrow> find (\<lambda>y. y = x) xs = Some x"
  by (induction xs) auto

lemma unat_ucast_u8_u16 [simp]: "unat (ucast (b::u8) :: u16) = unat b"
  by transfer (simp add: take_bit_take_bit)

lemma ex_bool [simp]: "\<exists>b. b" "\<exists>b. \<not> b" "Ex Not"
  by (auto intro: exI [of _ True] exI [of _ False])

lemma nth_butlast_append_snoc: "i < length xs \<Longrightarrow> (xs @ [x]) ! i = xs ! i"
  by (simp add: nth_append)

lemma fold_remove1_rev: "fold remove1 (rev xs) ys = fold remove1 xs ys"
  by (rule fun_cong [OF fold_rev]) (auto simp: fun_eq_iff remove1_commute)

text \<open>The loop rule: an invariant of the number of rounds.\<close>

lemma rounds_inv:
  assumes "I j st" and "\<And>k st. j \<le> k \<Longrightarrow> k < j + n \<Longrightarrow> I k st \<Longrightarrow> \<exists>st'. body (s * k) st = Some st' \<and> I (Suc k) st'"
  shows "\<exists>st'. rounds s body (s * j) n st = Some st' \<and> I (j + n) st'"
  using assms
proof (induction n arbitrary: j st)
  case (Suc n)
  obtain st1 where st1: "body (s * j) st = Some st1" "I (Suc j) st1" using Suc.prems(1) Suc.prems(2) [of j st] by auto
  have "\<exists>st'. rounds s body (s * Suc j) n st1 = Some st' \<and> I (Suc j + n) st'"
    by (rule Suc.IH [OF st1(2)]) (use Suc.prems(2) in auto)
  then show ?case using st1(1) by (simp add: add.commute)
qed simp

lemma c_for_inv:
  assumes "I 0 st" and "\<And>k st. k < (n + s - 1) div s \<Longrightarrow> I k st \<Longrightarrow> \<exists>st'. body (s * k) st = Some st' \<and> I (Suc k) st'"
  shows "\<exists>st'. c_for n s body st = Some st' \<and> I ((n + s - 1) div s) st'"
  using rounds_inv [of I 0 st "(n + s - 1) div s" body s] assms by (simp add: c_for_def)

lemma rounds_fail:
  assumes "body i st = None" and "0 < n"
  shows "rounds s body i n st = None"
  using assms by (cases n) simp_all

end
