(* ===== verification/ScaleIo.thy ===== *)
theory ScaleIo
  imports Prelude "HOL-Library.Multiset"
begin

text \<open>
  The data path of the scale gadget, \<^verbatim>\<open>test_gadget/scale_usb.c\<close>: the pools of requests that move
  between the driver and the controller, the completion handlers, and the file operations of the
  character device. Requests are numbered objects. Each place where a file operation runs with
  interrupts on (it sleeps or copies user memory) is a window in which the interrupt handlers given
  by the caller run; a file operation therefore takes a list of windows, and after the last one no
  interrupt arrives and no copy fails. \<open>None\<close> is an operation that does not return: it waits for a mutex
  its own caller holds, or divides by a packet size of zero.
\<close>

section \<open>State\<close>

abbreviation (input) USB_BUFSIZE :: nat where "USB_BUFSIZE \<equiv> 512"
abbreviation (input) SCALE_USB_NOT_ERROR :: u8 where "SCALE_USB_NOT_ERROR \<equiv> 0x08"
abbreviation (input) SCALE_USB_SELECTED :: u8 where "SCALE_USB_SELECTED \<equiv> 0x10"

record usb_request =
  rq_buf :: bytes
  rq_length :: nat
  rq_actual :: nat
  rq_zero :: bool

datatype submit = SubmitRx nat | SubmitTx nat bytes bool

text \<open>
  The variables \<^verbatim>\<open>current_rx_req\<close>, \<^verbatim>\<open>current_rx_bytes\<close> and \<^verbatim>\<open>current_rx_buf\<close> are always set together:
  the request that is being read, the number of bytes left in it, and their offset in its buffer.
\<close>

record scale_dev =
  reqs :: "nat \<Rightarrow> usb_request"
  rx_reqs :: "nat list"
  rx_reqs_active :: "nat list"
  rx_buffers :: "nat list"
  tx_reqs :: "nat list"
  tx_reqs_active :: "nat list"
  current_rx :: "(nat \<times> nat \<times> nat) option"
  scale_status :: u8
  interface :: int
  reset_scale :: bool
  scale_cdev_open :: bool
  io_locked :: bool
  submitted :: "submit list"
  rx_total :: bytes

text \<open>
  The controller: the result of queueing a request, from the requests queued so far, and the packet
  size of the endpoint to the host. The fields \<open>submitted\<close> and \<open>rx_total\<close> record what was queued and
  which bytes arrived.
\<close>

record scale_env =
  ep_queue :: "submit \<Rightarrow> submit list \<Rightarrow> int"
  in_maxpacket :: nat

section \<open>Completion handlers\<close>

definition upd_req :: "nat \<Rightarrow> (usb_request \<Rightarrow> usb_request) \<Rightarrow> scale_dev \<Rightarrow> scale_dev" where
  "upd_req r u s = s\<lparr>reqs := (reqs s)(r := u (reqs s r))\<rparr>"

text \<open>
  A request that is done: the controller has stored the bytes it received, then \<^verbatim>\<open>rx_complete\<close> moves
  the request from the active list to the buffers with data or back to the free list. It is one step here:
  an interrupt comes between the sections in which the file operations hold \<^verbatim>\<open>dev->lock\<close> with
  interrupts off, as on one processor. The source has its own \<^verbatim>\<open>spin_lock\<close> of \<^verbatim>\<open>rx_complete\<close>
  commented out, so on several processors its list operations can meet those of a reader; such
  overlaps are not part of this model.
\<close>

definition rx_complete :: "nat \<Rightarrow> int \<Rightarrow> bytes \<Rightarrow> scale_dev \<Rightarrow> scale_dev" where
  "rx_complete r status data s =
     (let s1 = upd_req r (\<lambda>q. q\<lparr>rq_buf := data, rq_actual := length data\<rparr>) s;
          s2 = s1\<lparr>rx_reqs_active := remove1 r (rx_reqs_active s1)\<rparr>
      in if status = 0 \<and> rq_actual (reqs s2 r) > 0
         then s2\<lparr>rx_buffers := rx_buffers s2 @ [r], rx_total := rx_total s2 @ data\<rparr>
         else s2\<lparr>rx_reqs := r # rx_reqs s2\<rparr>)"

definition tx_complete :: "nat \<Rightarrow> int \<Rightarrow> scale_dev \<Rightarrow> scale_dev" where
  "tx_complete r status s = s\<lparr>tx_reqs_active := remove1 r (tx_reqs_active s), tx_reqs := r # tx_reqs s\<rparr>"

text \<open>
  What may happen in a window. The controller completes a request only if it has it, and stores no
  more bytes than the buffer holds. \<open>Reset\<close> is the part of a reset of the device that concerns readers and
  writers: the request that is being read goes back to the free list and the flag is set.
\<close>

datatype irq = RxDone nat int bytes | TxDone nat int | Reset

definition reset_io :: "scale_dev \<Rightarrow> scale_dev" where
  "reset_io s =
     (case current_rx s of
        None \<Rightarrow> s
      | Some (r, _, _) \<Rightarrow> s\<lparr>rx_reqs := r # rx_reqs s\<rparr>)\<lparr>current_rx := None, reset_scale := True\<rparr>"

fun do_irq :: "irq \<Rightarrow> scale_dev \<Rightarrow> scale_dev" where
  "do_irq (RxDone r st data) s =
     (if r \<in> set (rx_reqs_active s) \<and> length data \<le> USB_BUFSIZE then rx_complete r st data s else s)"
| "do_irq (TxDone r st) s = (if r \<in> set (tx_reqs_active s) then tx_complete r st s else s)"
| "do_irq Reset s = reset_io s"

text \<open>A window: how many bytes of a user copy fail, and the interrupts that arrive.\<close>

type_synonym win = "nat \<times> irq list"

definition irqs_of :: "win list \<Rightarrow> irq list" where
  "irqs_of ws = (case ws of [] \<Rightarrow> [] | (_, is) # _ \<Rightarrow> is)"

definition uncopied :: "win list \<Rightarrow> nat" where
  "uncopied ws = (case ws of [] \<Rightarrow> 0 | (u, _) # _ \<Rightarrow> u)"

section \<open>Opening and closing\<close>

definition scale_open :: "scale_dev \<Rightarrow> int \<times> scale_dev" where
  "scale_open s =
     (if \<not> scale_cdev_open s
      then (0, s\<lparr>scale_cdev_open := True, scale_status := scale_status s OR SCALE_USB_SELECTED\<rparr>)
      else (- EBUSY, s))"

definition scale_close :: "scale_dev \<Rightarrow> int \<times> scale_dev" where
  "scale_close s =
     (0, s\<lparr>scale_cdev_open := False, scale_status := scale_status s AND NOT SCALE_USB_SELECTED\<rparr>)"

section \<open>Reading\<close>

fun setup_rx_from :: "scale_env \<Rightarrow> nat list \<Rightarrow> scale_dev \<Rightarrow> scale_dev" where
  "setup_rx_from e [] s = s"
| "setup_rx_from e (r # rs) s =
     (let s1 = upd_req r (\<lambda>q. q\<lparr>rq_length := USB_BUFSIZE\<rparr>) (s\<lparr>rx_reqs := rs\<rparr>);
          error = ep_queue e (SubmitRx r) (submitted s1);
          s2 = s1\<lparr>submitted := submitted s1 @ [SubmitRx r]\<rparr>
      in if error \<noteq> 0 then s2\<lparr>rx_reqs := r # rx_reqs s2\<rparr>
         else setup_rx_from e rs (s2\<lparr>rx_reqs_active := r # rx_reqs_active s2\<rparr>))"

definition setup_rx_reqs :: "scale_env \<Rightarrow> scale_dev \<Rightarrow> scale_dev" where
  "setup_rx_reqs e s = setup_rx_from e (rx_reqs s) s"

datatype read_end = ReadDone "(nat \<times> nat \<times> nat) option" | ReadReset

text \<open>
  The copy of one piece: \<open>n\<close> bytes are left in request \<open>r\<close> at offset \<open>off\<close>. The result is what the
  variables \<^verbatim>\<open>current_rx_*\<close> are afterwards, or that the device was reset.
\<close>

definition read_piece ::
    "win list \<Rightarrow> nat \<Rightarrow> nat \<Rightarrow> nat \<Rightarrow> nat \<Rightarrow> scale_dev \<Rightarrow> nat \<times> bytes \<times> read_end \<times> scale_dev" where
  "read_piece ws len r n off s =
     (let size0 = (if len > n then n else len);
          sz = size0 - uncopied ws;
          out = take sz (drop off (rq_buf (reqs s r)));
          s1 = fold do_irq (irqs_of ws) s
      in if reset_scale s1 then (sz, out, ReadReset, s1\<lparr>rx_reqs := r # rx_reqs s1\<rparr>)
         else if sz < n then (sz, out, ReadDone (Some (r, n - sz, off + sz)), s1)
         else (sz, out, ReadDone None, s1\<lparr>rx_reqs := r # rx_reqs s1\<rparr>))"

text \<open>The bytes left in the current request, and taking the next buffer when there are none.\<close>

definition rx_left :: "(nat \<times> nat \<times> nat) option \<Rightarrow> nat" where
  "rx_left cur = (case cur of None \<Rightarrow> 0 | Some (_, n, _) \<Rightarrow> n)"

definition next_rx :: "(nat \<times> nat \<times> nat) option \<Rightarrow> scale_dev \<Rightarrow> (nat \<times> nat \<times> nat) option \<times> scale_dev" where
  "next_rx cur s =
     (if rx_left cur = 0 then
        let r = hd (rx_buffers s); s1 = s\<lparr>rx_buffers := tl (rx_buffers s)\<rparr>
        in if rq_actual (reqs s1 r) \<noteq> 0 then (Some (r, rq_actual (reqs s1 r), 0), s1)
           else (None, s1\<lparr>rx_reqs := r # rx_reqs s1\<rparr>)
      else (cur, s))"

lemma next_rx_pos: "next_rx cur s = (Some (r, n, off), s1) \<Longrightarrow> 0 < n"
  by (auto simp: next_rx_def Let_def rx_left_def split: if_splits option.splits)

lemma next_rx_drop:
  "next_rx cur s = (None, s1) \<Longrightarrow> rx_left cur = 0 \<and> rx_buffers s1 = tl (rx_buffers s)"
  by (auto simp: next_rx_def Let_def rx_left_def split: if_splits)

lemma read_piece_size: "read_piece ws len r n off s = (sz, p) \<Longrightarrow> sz = min len n - uncopied ws"
  by (auto simp: read_piece_def Let_def split: if_splits)

text \<open>
  The loop over the pieces. Each copy uses up one window of \<open>ws\<close>, which holds the interrupts that come
  during the copy and the bytes that could not be copied; with no window left nothing interrupts and every
  copy succeeds. The list is finite, so the recursion ends by construction. The loop of the source has
  no such bound: as long as the copy to the user copies nothing it goes round again, and with a buffer that
  stays unwritable it never ends. A statement about \<open>read_loop\<close> is therefore about calls in which the copy fails
  finitely often, any number of times (\<open>scale_read_retries_faults\<close> of \<open>ScaleOps\<close>).
\<close>

function read_loop ::
    "win list \<Rightarrow> nat \<Rightarrow> (nat \<times> nat \<times> nat) option \<Rightarrow> bytes \<Rightarrow> scale_dev \<Rightarrow> bytes \<times> read_end \<times> scale_dev \<times> win list" where
  "read_loop ws len cur acc s =
     (if rx_left cur = 0 \<and> rx_buffers s = [] \<or> len = 0 then (acc, ReadDone cur, s, ws)
      else case next_rx cur s of
        (None, s1) \<Rightarrow> read_loop ws len cur acc s1
      | (Some (r, n, off), s1) \<Rightarrow>
          (case read_piece ws len r n off s1 of
             (sz, out, ReadReset, s2) \<Rightarrow> (acc @ out, ReadReset, s2, tl ws)
           | (sz, out, ReadDone cur', s2) \<Rightarrow> read_loop (tl ws) (len - sz) cur' (acc @ out) s2))"
  by pat_completeness auto

termination
proof (relation "measures [\<lambda>(ws, len, cur, acc, s). length ws, \<lambda>(ws, len, cur, acc, s). len,
    \<lambda>(ws, len, cur, acc, s). length (rx_buffers s)]", goal_cases)
  case 1
  show ?case by simp
next
  case 2
  then show ?case by (auto dest!: next_rx_drop [OF sym])
next
  case (3 ws len cur acc s x s1 a r x2 n off sz)
  have "0 < n" using 3 by (auto dest!: next_rx_pos [OF sym])
  moreover have "sz = min len n - uncopied ws" using 3 by (auto dest!: read_piece_size [OF sym])
  ultimately show ?case using 3 by (cases ws) (auto simp: uncopied_def)
qed

declare read_loop.simps [simp del]

text \<open>
  \<^verbatim>\<open>scale_read\<close>: the result is the return value, the bytes in the user's buffer and the windows left.
\<close>

definition scale_read ::
    "scale_env \<Rightarrow> bool \<Rightarrow> nat \<Rightarrow> win list \<Rightarrow> scale_dev \<Rightarrow> (int \<times> bytes \<times> scale_dev \<times> win list) option" where
  "scale_read e nonblock len ws s =
     (if len = 0 then Some (- EINVAL, [], s, ws)
      else if io_locked s then None
      else
        let s1 = setup_rx_reqs e (s\<lparr>io_locked := True, reset_scale := False\<rparr>);
            cur = current_rx s1;
            s2 = s1\<lparr>current_rx := None\<rparr>
        in if rx_left cur = 0 \<and> rx_buffers s2 = [] \<and> nonblock
           then Some (- EAGAIN, [], s2\<lparr>io_locked := False\<rparr>, ws)
           else
             let sleeps = (rx_left cur = 0 \<and> rx_buffers s2 = []);
                 s3 = (if sleeps then fold do_irq (irqs_of ws) s2 else s2)
             in case read_loop (if sleeps then tl ws else ws) len cur [] s3 of
                  (out, ReadReset, s4, ws') \<Rightarrow> Some (- EAGAIN, out, s4\<lparr>io_locked := False\<rparr>, ws')
                | (out, ReadDone cur', s4, ws') \<Rightarrow>
                    Some (if out \<noteq> [] then int (length out) else - EAGAIN, out,
                          s4\<lparr>current_rx := cur', io_locked := False\<rparr>, ws'))"

section \<open>Writing\<close>

text \<open>
  One round of the loop per free request. In a window the user copy fails when \<open>uncopied\<close> is not zero.
  The result is the return value and whether the loop ran to its end.
\<close>

function write_loop :: "scale_env \<Rightarrow> win list \<Rightarrow> bytes \<Rightarrow> nat \<Rightarrow> scale_dev \<Rightarrow> (int \<times> scale_dev) option" where
  "write_loop e ws data copied s =
     (if tx_reqs s = [] \<or> data = []
      then Some (if copied \<noteq> 0 then int copied else - EAGAIN, s)
      else
        let sz = (if length data > USB_BUFSIZE then USB_BUFSIZE else length data);
            r = hd (tx_reqs s);
            s1 = s\<lparr>tx_reqs := tl (tx_reqs s)\<rparr>
        in if length data \<le> sz \<and> in_maxpacket e = 0 then None
           else
             let zero = (if length data > sz then False else length data mod in_maxpacket e = 0);
                 s2 = upd_req r (\<lambda>q. q\<lparr>rq_length := sz, rq_zero := zero\<rparr>) s1
             in if uncopied ws \<noteq> 0
                then Some (int copied, (fold do_irq (irqs_of ws) s2)\<lparr>tx_reqs := r # tx_reqs (fold do_irq (irqs_of ws) s2)\<rparr>)
                else
                  let s3 = fold do_irq (irqs_of ws) (upd_req r (\<lambda>q. q\<lparr>rq_buf := take sz data\<rparr>) s2)
                  in if reset_scale s3 then Some (- EAGAIN, s3\<lparr>tx_reqs := r # tx_reqs s3\<rparr>)
                     else
                       let sub = SubmitTx r (take sz data) zero;
                           error = ep_queue e sub (submitted s3);
                           s4 = s3\<lparr>submitted := submitted s3 @ [sub]\<rparr>
                       in if error \<noteq> 0 then Some (- EAGAIN, s4\<lparr>tx_reqs := r # tx_reqs s4\<rparr>)
                          else write_loop e (tl ws) (drop sz data) (copied + sz)
                                 (s4\<lparr>tx_reqs_active := r # tx_reqs_active s4\<rparr>))"
  by pat_completeness auto
termination by (relation "measure (\<lambda>(e, ws, data, copied, s). length data)") auto

declare write_loop.simps [simp del]

text \<open>
  \<^verbatim>\<open>scale_write\<close>. A caller that does not want to block and finds no free request takes the mutex again
  instead of releasing it, and waits for itself.
\<close>

definition scale_write ::
    "scale_env \<Rightarrow> bool \<Rightarrow> bytes \<Rightarrow> win list \<Rightarrow> scale_dev \<Rightarrow> (int \<times> scale_dev) option" where
  "scale_write e nonblock data ws s =
     (if interface s < 0 then Some (- EINVAL, s)
      else if data = [] then Some (- EINVAL, s)
      else if io_locked s then None
      else
        let s1 = s\<lparr>io_locked := True, reset_scale := False\<rparr>
        in if tx_reqs s1 = [] \<and> nonblock then (if io_locked s1 then None else Some (- EAGAIN, s1\<lparr>io_locked := True\<rparr>))
           else
             let sleeps = (tx_reqs s1 = []);
                 s2 = (if sleeps then fold do_irq (irqs_of ws) s1 else s1)
             in map_option (\<lambda>(v, s'). (v, s'\<lparr>io_locked := False\<rparr>))
                  (write_loop e (if sleeps then tl ws else ws) data 0 s2))"

section \<open>The other file operations\<close>

text \<open>Flushing sleeps in a window when there is a free request.\<close>

definition scale_fsync :: "win list \<Rightarrow> scale_dev \<Rightarrow> int \<times> scale_dev \<times> win list" where
  "scale_fsync ws s =
     (if tx_reqs s \<noteq> [] \<and> tx_reqs_active s \<noteq> [] then (0, fold do_irq (irqs_of ws) s, tl ws) else (0, s, ws))"

datatype poll_flag = POLLOUT | POLLWRNORM | POLLIN | POLLRDNORM

definition scale_poll :: "scale_env \<Rightarrow> win list \<Rightarrow> scale_dev \<Rightarrow> (poll_flag set \<times> scale_dev) option" where
  "scale_poll e ws s =
     (if io_locked s then None
      else
        let s1 = fold do_irq (irqs_of ws) (setup_rx_reqs e s)
        in Some ((if tx_reqs s1 \<noteq> [] then {POLLOUT, POLLWRNORM} else {}) \<union>
                 (if rx_left (current_rx s1) \<noteq> 0 \<or> rx_buffers s1 \<noteq> [] then {POLLIN, POLLRDNORM} else {}), s1))"

text \<open>
  The two commands are numbered by the header; the arguments are the byte the user passes, and the
  result of \<^verbatim>\<open>GET_SCALE_USB_STATUS\<close> is both returned and stored.
\<close>

datatype scale_cmd = GET_SCALE_USB_STATUS | SET_SCALE_USB_STATUS u8 | OTHER_CMD

definition scale_ioctl :: "scale_cmd \<Rightarrow> scale_dev \<Rightarrow> int \<times> scale_dev" where
  "scale_ioctl cmd s =
     (case cmd of
        GET_SCALE_USB_STATUS \<Rightarrow> (uint (scale_status s) + 256 * (if interface s \<ge> 0 then 1 else 0), s)
      | SET_SCALE_USB_STATUS v \<Rightarrow> (0, s\<lparr>scale_status := v\<rparr>)
      | OTHER_CMD \<Rightarrow> (- ENOTTY, s))"

end
