(* ===== verification/UsbString.thy ===== *)
theory UsbString
  imports Prelude
begin

text \<open>
  The string-descriptor helper of \<^verbatim>\<open>test_gadget/usbstring.c\<close>: conversion of a UTF-8 C string to
  UTF-16LE and the construction of a USB string descriptor from a string table.
  A C string is the list of the bytes of its object, terminator included; a read past the end of
  that list is undefined behaviour and yields \<open>None\<close>.
\<close>

section \<open>Model\<close>

abbreviation (input) USB_DT_STRING :: u8 where "USB_DT_STRING \<equiv> 3"

text \<open>
  One pass of the loop body: the code unit decoded at the head of \<open>s\<close> and the rest of the
  string. \<open>None\<close> is a read out of bounds, \<open>Some None\<close> the jump to \<^verbatim>\<open>fail\<close>.
\<close>

fun utf8_step :: "bytes \<Rightarrow> (u16 \<times> bytes) option option" where
  "utf8_step [] = None"
| "utf8_step (c # s) =
     (if c AND 0x80 \<noteq> 0 then
        if c AND 0xe0 = 0xc0 then
          (case s of [] \<Rightarrow> None
           | c1 # s1 \<Rightarrow>
             if c1 AND 0xc0 \<noteq> 0x80 then Some None
             else Some (Some (push_bit 6 (ucast (c AND 0x1f)) OR ucast (c1 AND 0x3f), s1)))
        else if c AND 0xf0 = 0xe0 then
          (case s of [] \<Rightarrow> None
           | c1 # s1 \<Rightarrow>
             if c1 AND 0xc0 \<noteq> 0x80 then Some None
             else (case s1 of [] \<Rightarrow> None
                   | c2 # s2 \<Rightarrow>
                     if c2 AND 0xc0 \<noteq> 0x80 then Some None
                     else let uchar = (push_bit 12 (ucast (c AND 0x0f))
                                       OR push_bit 6 (ucast (c1 AND 0x3f)))
                                      OR ucast (c2 AND 0x3f)
                          in if 0xd800 \<le> uchar \<and> uchar \<le> 0xdfff then Some None
                             else Some (Some (uchar, s2))))
        else Some None
      else Some (Some (ucast c, s)))"

text \<open>
  The loop: \<open>len\<close> bounds the code units, a zero byte ends the string. The result is the return
  value (the count, or \<open>-1\<close>) with the code units stored so far, which are in the caller's buffer
  also when the conversion fails.
\<close>

primrec utf8_to_utf16le_loop :: "nat \<Rightarrow> bytes \<Rightarrow> u16 list \<Rightarrow> (int \<times> u16 list) option" where
  "utf8_to_utf16le_loop 0 s out = Some (int (length out), out)"
| "utf8_to_utf16le_loop (Suc len) s out =
     (case s of [] \<Rightarrow> None
      | c # s' \<Rightarrow>
        if c = 0 then Some (int (length out), out)
        else (case utf8_step s of
                None \<Rightarrow> None
              | Some None \<Rightarrow> Some (- 1, out)
              | Some (Some (uchar, rest)) \<Rightarrow> utf8_to_utf16le_loop len rest (out @ [uchar])))"

definition utf8_to_utf16le :: "bytes \<Rightarrow> nat \<Rightarrow> (int \<times> u16 list) option" where
  "utf8_to_utf16le s len = utf8_to_utf16le_loop len s []"

text \<open>\<^verbatim>\<open>strlen\<close>: the distance to the terminator, \<open>None\<close> when there is none in the object.\<close>

primrec c_strlen :: "bytes \<Rightarrow> nat option" where
  "c_strlen [] = None"
| "c_strlen (c # s) = (if c = 0 then Some 0 else map_option Suc (c_strlen s))"

record usb_string =
  str_id :: u8
  str_s :: bytes

text \<open>
  The table's array of strings ends at an entry with a null string; the list holds the entries
  before it. \<open>None\<close> is a null array.
\<close>

record usb_gadget_strings =
  language :: u16
  tab_strings :: "usb_string list option"

fun find_string :: "usb_string list \<Rightarrow> int \<Rightarrow> usb_string option" where
  "find_string [] i = None"
| "find_string (s # ss) i = (if uint (str_id s) = i then Some s else find_string ss i)"

definition usb_gadget_get_string ::
    "usb_gadget_strings \<Rightarrow> int \<Rightarrow> bytes \<Rightarrow> (int \<times> bytes) option" where
  "usb_gadget_get_string table i buf =
     (if i = 0 then
        map_option (Pair 4)
          (mem_write buf 0 [4, USB_DT_STRING, ucast (language table),
                            ucast (drop_bit 8 (language table))])
      else
        case Option.bind (tab_strings table) (\<lambda>ss. find_string ss i) of
          None \<Rightarrow> Some (- EINVAL, buf)
        | Some s \<Rightarrow>
            Option.bind (c_strlen (str_s s)) (\<lambda>slen.
            let len = min 126 slen in
            Option.bind (mem_write buf 2 (replicate (2 * len) 0)) (\<lambda>buf1.
            Option.bind (utf8_to_utf16le (str_s s) len) (\<lambda>(n, units).
            Option.bind (mem_write buf1 2 (concat (map le16_bytes units))) (\<lambda>buf2.
            if n < 0 then Some (- EINVAL, buf2)
            else let b0 = word_of_int ((n + 1) * 2) :: u8
                 in map_option (Pair (uint b0)) (mem_write buf2 0 [b0, USB_DT_STRING]))))))"

section \<open>Decoding one character\<close>

lemma cont_byte_nonzero: "c AND 0xc0 = (0x80::u8) \<Longrightarrow> c \<noteq> 0"
  by auto

text \<open>A terminated string stays terminated behind each character, so no read leaves the object.\<close>

lemma c_strlen_Cons: "c_strlen (c # s) \<noteq> None \<longleftrightarrow> c = 0 \<or> c_strlen s \<noteq> None"
  by auto

lemma utf8_step_terminated:
  assumes "c_strlen (c # s) \<noteq> None" and "c \<noteq> 0"
  shows "utf8_step (c # s) \<noteq> None"
    and "utf8_step (c # s) = Some (Some (u, r)) \<Longrightarrow> c_strlen r \<noteq> None"
  using assms
  by (auto simp: Let_def split: if_splits list.splits dest: cont_byte_nonzero)

lemma utf8_step_no_surrogate:
  assumes "utf8_step s = Some (Some (u, r))"
  shows "\<not> (0xd800 \<le> u \<and> u \<le> 0xdfff)"
proof -
  have two: "\<not> (0xd800 \<le> (push_bit 6 (ucast (c AND 0x1f)) OR ucast (c1 AND 0x3f) :: u16))"
    for c c1 :: u8
  proof -
    let ?u = "push_bit 6 (ucast (c AND 0x1f)) OR ucast (c1 AND 0x3f) :: u16"
    have "?u = ?u AND 0x7ff" by (rule u16_eqI) (simp add: bitwise)
    then have "unat ?u \<le> 0x7ff" using unat_and_mask_less [of ?u "0x7ff"] by simp
    then show ?thesis by (simp add: word_le_nat_alt)
  qed
  have one: "\<not> (0xd800 \<le> (ucast c :: u16))" for c :: u8
  proof -
    have "(ucast c :: u16) = ucast c AND 0xff" by (rule u16_eqI) (simp add: bitwise)
    then have "unat (ucast c :: u16) \<le> 0xff"
      using unat_and_mask_less [of "ucast c :: u16" "0xff"] by simp
    then show ?thesis by (simp add: word_le_nat_alt)
  qed
  show ?thesis
    using assms by (cases s) (auto simp: Let_def two one split: if_splits list.splits)
qed

lemma utf8_to_utf16le_loop_total:
  "c_strlen s \<noteq> None \<Longrightarrow> utf8_to_utf16le_loop len s out \<noteq> None"
proof (induction len arbitrary: s out)
  case 0
  then show ?case by simp
next
  case (Suc len)
  then obtain c s' where s: "s = c # s'" by (cases s) auto
  show ?case
  proof (cases "c = 0")
    case True
    then show ?thesis by (simp add: s)
  next
    case False
    then show ?thesis
      using Suc utf8_step_terminated [of c s'] unfolding s
      by (auto simp del: utf8_step.simps split: option.split)
  qed
qed

lemma utf8_to_utf16le_loop_bounds_aux:
  "\<lbrakk>utf8_to_utf16le_loop len s out = Some (n, units);
    \<forall>u\<in>set out. \<not> (0xd800 \<le> u \<and> u \<le> 0xdfff)\<rbrakk> \<Longrightarrow>
   length units \<le> length out + len \<and> (n = - 1 \<or> n = int (length units)) \<and>
   (\<forall>u\<in>set units. \<not> (0xd800 \<le> u \<and> u \<le> 0xdfff))"
proof (induction len arbitrary: s out)
  case 0
  then show ?case by auto
next
  case (Suc len)
  from Suc.prems(1) obtain c s' where s: "s = c # s'" by (cases s) auto
  show ?case
  proof (cases "c = 0 \<or> utf8_step s = Some None")
    case True
    with Suc.prems show ?thesis unfolding s by (auto simp del: utf8_step.simps split: if_splits)
  next
    case False
    then obtain u r where 3: "utf8_step s = Some (Some (u, r))"
        "utf8_to_utf16le_loop len r (out @ [u]) = Some (n, units)"
      using Suc.prems(1) unfolding s
      by (cases "utf8_step (c # s')") (auto simp del: utf8_step.simps)
    have "\<forall>v\<in>set (out @ [u]). \<not> (0xd800 \<le> v \<and> v \<le> 0xdfff)"
      using utf8_step_no_surrogate [OF 3(1)] Suc.prems(2) by auto
    from Suc.IH [OF 3(2) this] show ?thesis by simp
  qed
qed

lemma utf8_to_utf16le_bounds:
  assumes "utf8_to_utf16le s len = Some (n, units)"
  shows "length units \<le> len" and "n = - 1 \<or> n = int (length units)"
    and "\<forall>u\<in>set units. \<not> (0xd800 \<le> u \<and> u \<le> 0xdfff)"
  using utf8_to_utf16le_loop_bounds_aux [of len s "[]" n units] assms
  by (auto simp: utf8_to_utf16le_def)

section \<open>The reference encoder\<close>

text \<open>The shortest UTF-8 encoding of a code point of the basic multilingual plane (RFC 3629).\<close>

definition utf8_encode :: "u16 \<Rightarrow> bytes" where
  "utf8_encode cp =
     (if cp < 0x80 then [ucast cp]
      else if cp < 0x800 then
        [0xc0 OR ucast (drop_bit 6 cp), 0x80 OR (ucast cp AND 0x3f)]
      else
        [0xe0 OR ucast (drop_bit 12 cp), 0x80 OR (ucast (drop_bit 6 cp) AND 0x3f),
         0x80 OR (ucast cp AND 0x3f)])"

definition bmp_char :: "u16 \<Rightarrow> bool" where
  "bmp_char cp \<longleftrightarrow> cp \<noteq> 0 \<and> \<not> (0xd800 \<le> cp \<and> cp \<le> 0xdfff)"

lemma utf8_step_encode1:
  assumes "cp < (0x80::u16)"
  shows "utf8_step (ucast cp # rest) = Some (Some (cp, rest))"
proof -
  have hi: "\<not> bit cp n" if "7 \<le> n" for n
    using assms bit_high_False [of cp 7 n] that by (simp add: word_less_nat_alt)
  have "(ucast cp :: u8) AND 0x80 = 0" by (rule u8_eqI) (simp add: bitwise hi)
  moreover have "ucast (ucast cp :: u8) = cp" by (rule u16_eqI) (simp add: bitwise hi)
  ultimately show ?thesis by simp
qed

lemma utf8_step_encode2:
  assumes "cp < (0x800::u16)"
  shows "utf8_step ((0xc0 OR ucast (drop_bit 6 cp)) # (0x80 OR (ucast cp AND 0x3f)) # rest)
         = Some (Some (cp, rest))"
proof -
  let ?c = "0xc0 OR ucast (drop_bit 6 cp) :: u8" and ?c1 = "0x80 OR (ucast cp AND 0x3f) :: u8"
  have hi: "\<not> bit cp n" if "11 \<le> n" for n
    using assms bit_high_False [of cp 11 n] that by (simp add: word_less_nat_alt)
  have "?c AND 0x80 = 0x80" by (rule u8_eqI) (simp add: bitwise)
  moreover have "?c AND 0xe0 = 0xc0" by (rule u8_eqI) (simp add: bitwise hi)
  moreover have "?c1 AND 0xc0 = 0x80" by (rule u8_eqI) (simp add: bitwise)
  moreover have "push_bit 6 (ucast (?c AND 0x1f)) OR ucast (?c1 AND 0x3f) = cp"
    by (rule u16_eqI) (simp add: bitwise hi)
  ultimately show ?thesis by simp
qed

lemma utf8_step_encode3:
  assumes "\<not> (0xd800 \<le> cp \<and> cp \<le> (0xdfff::u16))"
  shows "utf8_step ((0xe0 OR ucast (drop_bit 12 cp)) # (0x80 OR (ucast (drop_bit 6 cp) AND 0x3f))
           # (0x80 OR (ucast cp AND 0x3f)) # rest) = Some (Some (cp, rest))"
proof -
  let ?c = "0xe0 OR ucast (drop_bit 12 cp) :: u8"
    and ?c1 = "0x80 OR (ucast (drop_bit 6 cp) AND 0x3f) :: u8"
    and ?c2 = "0x80 OR (ucast cp AND 0x3f) :: u8"
  have "?c AND 0x80 = 0x80" by (rule u8_eqI) (simp add: bitwise)
  moreover have "?c AND 0xe0 = 0xe0" by (rule u8_eqI) (simp add: bitwise)
  moreover have "?c AND 0xf0 = 0xe0" by (rule u8_eqI) (simp add: bitwise)
  moreover have "?c1 AND 0xc0 = 0x80" "?c2 AND 0xc0 = 0x80"
    by (rule u8_eqI, simp add: bitwise)+
  moreover have "(push_bit 12 (ucast (?c AND 0x0f)) OR push_bit 6 (ucast (?c1 AND 0x3f)))
                 OR ucast (?c2 AND 0x3f) = cp"
    by (rule u16_eqI) (simp add: bitwise)
  ultimately show ?thesis using assms by (simp add: Let_def)
qed

lemma utf8_step_encode:
  "bmp_char cp \<Longrightarrow> utf8_step (utf8_encode cp @ rest) = Some (Some (cp, rest))"
  unfolding utf8_encode_def bmp_char_def
  by (simp add: utf8_step_encode1 utf8_step_encode2 utf8_step_encode3 del: utf8_step.simps)

lemma utf8_encode_head:
  assumes "bmp_char cp"
  obtains c s where "utf8_encode cp = c # s" and "c \<noteq> 0"
proof -
  have hd: "(0xc0 OR x :: u8) \<noteq> 0" "(0xe0 OR x :: u8) \<noteq> 0" for x
    by (rule bit_nonzero [of _ 7], simp add: bit_simps)+
  have "(ucast cp :: u8) \<noteq> 0" if "cp < 0x80"
  proof
    assume "(ucast cp :: u8) = 0"
    then have "utf8_step (0 # []) = Some (Some (cp, []))"
      using utf8_step_encode1 [OF that, of "[]"] by (simp del: utf8_step.simps)
    then show False using assms by (simp add: bmp_char_def)
  qed
  then have "hd (utf8_encode cp) \<noteq> 0" "utf8_encode cp \<noteq> []"
    by (simp_all add: utf8_encode_def hd)
  then show ?thesis using that by (cases "utf8_encode cp") auto
qed

lemma utf8_to_utf16le_loop_encode:
  "\<lbrakk>\<forall>cp\<in>set cps. bmp_char cp; length cps \<le> len\<rbrakk> \<Longrightarrow>
   utf8_to_utf16le_loop len (concat (map utf8_encode cps) @ 0 # rest) out
   = Some (int (length out + length cps), out @ cps)"
proof (induction cps arbitrary: len out)
  case Nil
  then show ?case by (cases len) auto
next
  case (Cons cp cps)
  then obtain len' where len: "len = Suc len'" by (cases len) auto
  from Cons.prems have cp: "bmp_char cp" by simp
  obtain c s where enc: "utf8_encode cp = c # s" and c: "c \<noteq> 0"
    by (rule utf8_encode_head [OF cp])
  have step: "utf8_step (c # s @ concat (map utf8_encode cps) @ 0 # rest)
      = Some (Some (cp, concat (map utf8_encode cps) @ 0 # rest))"
    using utf8_step_encode [OF cp] by (simp add: enc del: utf8_step.simps)
  show ?case
    using Cons.IH [of len' "out @ [cp]"] Cons.prems c
    by (simp add: len enc step del: utf8_step.simps)
qed

section \<open>Properties of the conversion\<close>

text \<open>
  C8: every string of characters of the basic multilingual plane, encoded in UTF-8, is converted
  by \<open>utf8_to_utf16le\<close> to exactly its UTF-16 code units, whatever follows the terminator.
\<close>

theorem utf8_to_utf16le_round_trip:
  assumes "\<forall>cp\<in>set cps. bmp_char cp" and "length cps \<le> len"
  shows "utf8_to_utf16le (concat (map utf8_encode cps) @ 0 # rest) len
         = Some (int (length cps), cps)"
  using utf8_to_utf16le_loop_encode [OF assms, of rest "[]"] by (simp add: utf8_to_utf16le_def)

theorem utf8_to_utf16le_round_trip_witness:
  "utf8_to_utf16le (concat (map utf8_encode [0x41, 0xe9, 0x6c49]) @ 0 # [0x80]) 126
   = Some (3, [0x41, 0xe9, 0x6c49])"
  using utf8_to_utf16le_round_trip [of "[0x41, 0xe9, 0x6c49]" 126 "[0x80]"]
  by (simp add: bmp_char_def)

text \<open>
  the conversion of a terminated string never reads past the terminator, stores at most
  \<open>len\<close> code units, none of them a surrogate, and returns their number or \<open>-1\<close>.
\<close>

theorem utf8_to_utf16le_safe:
  assumes "c_strlen s \<noteq> None"
  shows "\<exists>n units. utf8_to_utf16le s len = Some (n, units) \<and> length units \<le> len \<and>
           (n = - 1 \<or> n = int (length units)) \<and>
           (\<forall>u\<in>set units. \<not> (0xd800 \<le> u \<and> u \<le> 0xdfff))"
proof -
  obtain n units where r: "utf8_to_utf16le s len = Some (n, units)"
    using utf8_to_utf16le_loop_total [OF assms, of len "[]"] by (auto simp: utf8_to_utf16le_def)
  from utf8_to_utf16le_bounds [OF r] r show ?thesis by blast
qed

theorem utf8_to_utf16le_safe_witness:
  "\<exists>n units. utf8_to_utf16le [0x41, 0xc3, 0, 0xff] 126 = Some (n, units) \<and> length units \<le> 126 \<and>
     (n = - 1 \<or> n = int (length units)) \<and> (\<forall>u\<in>set units. \<not> (0xd800 \<le> u \<and> u \<le> 0xdfff))"
  by (rule utf8_to_utf16le_safe) simp

section \<open>Properties of the string descriptor\<close>

lemma length_concat_le16 [simp]: "length (concat (map le16_bytes us)) = 2 * length us"
  by (induction us) auto

lemma find_string_in: "find_string ss i = Some s \<Longrightarrow> s \<in> set ss \<and> uint (str_id s) = i"
  by (induction ss) (auto split: if_splits)

definition terminated_table :: "usb_gadget_strings \<Rightarrow> bool" where
  "terminated_table t \<longleftrightarrow>
     (\<forall>ss. tab_strings t = Some ss \<longrightarrow> (\<forall>s\<in>set ss. c_strlen (str_s s) \<noteq> None))"

lemma descriptor_length_byte:
  assumes "0 \<le> n" and "n \<le> 126"
  shows "uint (word_of_int ((n + 1) * 2) :: u8) = 2 * n + 2"
proof -
  have "uint (word_of_int ((n + 1) * 2) :: u8) = ((n + 1) * 2) mod 256"
    by (simp only: uint_word_of_int) simp
  also have "\<dots> = (n + 1) * 2" using assms by (intro mod_pos_pos_trivial) auto
  finally show ?thesis by simp
qed

text \<open>The descriptor that a found string with the converted code units \<open>units\<close> yields.\<close>

lemma usb_gadget_get_string_found:
  assumes i: "i \<noteq> 0" and tab: "tab_strings table = Some ss" "find_string ss i = Some s"
    and len: "c_strlen (str_s s) = Some slen" and buf: "256 \<le> length buf"
    and conv: "utf8_to_utf16le (str_s s) (min 126 slen) = Some (n, units)"
  shows "\<exists>buf'. usb_gadget_get_string table i buf
           = Some (if n < 0 then - EINVAL else 2 * n + 2, buf') \<and> length buf' = length buf \<and>
         (0 \<le> n \<longrightarrow> take (2 + 2 * length units) buf'
            = word_of_int (2 * n + 2) # USB_DT_STRING # concat (map le16_bytes units))"
proof -
  have units: "length units \<le> min 126 slen" "n = - 1 \<or> n = int (length units)"
    using utf8_to_utf16le_bounds [OF conv] by simp_all
  define len where "len = min 126 slen"
  have "len \<le> 126" by (simp add: len_def)
  with buf obtain buf1 where b1: "mem_write buf 2 (replicate (2 * len) 0) = Some buf1"
    by (simp add: mem_simps)
  then have l1: "length buf1 = length buf" by (rule mem_write_length)
  have "2 + length (concat (map le16_bytes units)) \<le> length buf1"
    using units(1) buf l1 by simp
  then obtain buf2 where b2: "mem_write buf1 2 (concat (map le16_bytes units)) = Some buf2"
    by (simp add: mem_simps)
  then have l2: "length buf2 = length buf" using l1 by (simp add: mem_write_length)
  have t2: "take (2 + 2 * length units) buf2 = take 2 buf1 @ concat (map le16_bytes units)"
    using mem_write_take_end [OF b2] by simp
  have eval: "usb_gadget_get_string table i buf =
      (if n < 0 then Some (- EINVAL, buf2)
       else let b0 = word_of_int ((n + 1) * 2) :: u8
            in map_option (Pair (uint b0)) (mem_write buf2 0 [b0, USB_DT_STRING]))"
    using i tab len b1 b2 conv
    by (simp add: usb_gadget_get_string_def Let_def len_def [symmetric])
  show ?thesis
  proof (cases "n < 0")
    case True
    then show ?thesis using eval l2 by simp
  next
    case False
    then have n: "n = int (length units)" using units(2) by auto
    let ?b0 = "word_of_int ((n + 1) * 2) :: u8"
    have w: "mem_write buf2 0 [?b0, USB_DT_STRING] = Some ([?b0, USB_DT_STRING] @ drop 2 buf2)"
      using buf l2 by (simp add: mem_write_def numeral_2_eq_2)
    have "take (2 * length units) (drop 2 buf2) = concat (map le16_bytes units)"
      using arg_cong [OF t2, of "drop 2"] buf l1 by (simp add: take_drop add.commute)
    moreover have "uint ?b0 = 2 * n + 2"
      using n units(1) by (intro descriptor_length_byte) auto
    moreover have "(n + 1) * 2 = 2 * n + 2" by simp
    ultimately show ?thesis using eval False w buf l2 by (simp add: Let_def)
  qed
qed

lemma usb_gadget_get_string_ok:
  assumes "256 \<le> length buf" and "terminated_table table"
  shows "\<exists>r buf'. usb_gadget_get_string table i buf = Some (r, buf') \<and>
           length buf' = length buf \<and> (r = - EINVAL \<or> 2 \<le> r \<and> r \<le> 254 \<and> even r)"
proof (cases "i = 0 \<or> Option.bind (tab_strings table) (\<lambda>ss. find_string ss i) = None")
  case True
  show ?thesis
  proof (cases "i = 0")
    case True
    then show ?thesis using assms(1) by (simp add: usb_gadget_get_string_def mem_simps)
  next
    case False
    then show ?thesis using True by (simp add: usb_gadget_get_string_def)
  qed
next
  case False
  then obtain ss s where tab: "tab_strings table = Some ss" "find_string ss i = Some s"
    by (auto simp: bind_eq_None_conv)
  then have "c_strlen (str_s s) \<noteq> None"
    using assms(2) find_string_in by (auto simp: terminated_table_def)
  then obtain slen where len: "c_strlen (str_s s) = Some slen" by auto
  then obtain n units where conv: "utf8_to_utf16le (str_s s) (min 126 slen) = Some (n, units)"
    using utf8_to_utf16le_loop_total [of "str_s s" "min 126 slen" "[]"]
    by (auto simp: utf8_to_utf16le_def)
  have "n = - 1 \<or> n = int (length units)" "length units \<le> min 126 slen"
    using utf8_to_utf16le_bounds [OF conv] by simp_all
  then show ?thesis
    using usb_gadget_get_string_found [OF _ tab len assms(1) conv] False by auto
qed

text \<open>
  with a response buffer of the documented 256 bytes and terminated strings, every request
  to \<open>usb_gadget_get_string\<close> stays inside its objects; it either stalls or returns an even
  descriptor length between 2 and 254, and never changes the buffer's size.
\<close>

theorem usb_gadget_get_string_safe:
  assumes "256 \<le> length buf" and "terminated_table table"
  shows "\<exists>r buf'. usb_gadget_get_string table i buf = Some (r, buf') \<and>
           length buf' = length buf \<and> (r = - EINVAL \<or> 2 \<le> r \<and> r \<le> 254 \<and> even r)"
  by (rule usb_gadget_get_string_ok [OF assms])

theorem usb_gadget_get_string_safe_witness:
  "\<exists>r buf'. usb_gadget_get_string
        \<lparr>language = 0x0409, tab_strings = Some [\<lparr>str_id = 3, str_s = [0x31, 0x36, 0xff, 0]\<rparr>]\<rparr>
        3 (replicate 256 0) = Some (r, buf') \<and>
     length buf' = length (replicate 256 (0::u8)) \<and>
     (r = - EINVAL \<or> 2 \<le> r \<and> r \<le> 254 \<and> even r)"
  by (rule usb_gadget_get_string_safe) (simp_all add: terminated_table_def)

text \<open>The host's view of a string descriptor: the code units behind the two header bytes.\<close>

fun decode_units :: "bytes \<Rightarrow> u16 list" where
  "decode_units (lo # hi # bs) = le16_of lo hi # decode_units bs"
| "decode_units _ = []"

definition decode_string_desc :: "bytes \<Rightarrow> u16 list option" where
  "decode_string_desc d =
     (case d of bl # ty # rest \<Rightarrow>
        if ty = USB_DT_STRING \<and> unat bl \<le> length d \<and> 2 \<le> unat bl
        then Some (decode_units (take (unat bl - 2) rest)) else None
      | _ \<Rightarrow> None)"

lemma decode_units_le16 [simp]: "decode_units (concat (map le16_bytes us)) = us"
  by (induction us) (simp_all add: le16_bytes_def)

lemma c_strlen_encode:
  "\<forall>cp\<in>set cps. bmp_char cp \<Longrightarrow>
   \<exists>n. c_strlen (concat (map utf8_encode cps) @ 0 # rest) = Some n \<and> length cps \<le> n"
proof (induction cps)
  case Nil
  then show ?case by simp
next
  case (Cons cp cps)
  have app: "0 \<notin> set xs \<Longrightarrow> c_strlen (xs @ ys) = map_option ((+) (length xs)) (c_strlen ys)"
    for xs ys :: bytes
    by (induction xs) (cases "c_strlen ys"; simp)+
  have nz: "(0x80 OR x :: u8) \<noteq> 0" for x
    by (rule bit_nonzero [of _ 7]) (simp add: bit_simps)
  obtain c s where enc: "utf8_encode cp = c # s" and c: "c \<noteq> 0"
    using Cons.prems by (auto intro: utf8_encode_head)
  have "0 \<notin> set (utf8_encode cp)"
    using c enc nz by (auto simp: utf8_encode_def split: if_splits)
  then show ?case using Cons app enc by force
qed

text \<open>
  C19: the descriptor built for a string of at most 126 characters decodes, on the host's side,
  to exactly that string, and its length byte is the returned length.
\<close>

theorem usb_gadget_get_string_decodes:
  assumes tab: "tab_strings table = Some ss" and i: "i \<noteq> 0" "find_string ss i = Some s"
    and str: "str_s s = concat (map utf8_encode cps) @ 0 # rest"
    and cps: "\<forall>cp\<in>set cps. bmp_char cp" "length cps \<le> 126" and buf: "256 \<le> length buf"
  shows "\<exists>buf'. usb_gadget_get_string table i buf = Some (2 * int (length cps) + 2, buf') \<and>
           decode_string_desc (take (2 + 2 * length cps) buf') = Some cps"
proof -
  obtain slen where len: "c_strlen (str_s s) = Some slen" "length cps \<le> slen"
    using c_strlen_encode [OF cps(1)] str by auto
  have conv: "utf8_to_utf16le (str_s s) (min 126 slen) = Some (int (length cps), cps)"
    using utf8_to_utf16le_loop_encode [OF cps(1), of "min 126 slen" rest "[]"] len cps(2) str
    by (simp add: utf8_to_utf16le_def)
  obtain buf' where b: "usb_gadget_get_string table i buf = Some (2 * int (length cps) + 2, buf')"
    and d: "take (2 + 2 * length cps) buf'
        = word_of_int (2 * int (length cps) + 2) # USB_DT_STRING # concat (map le16_bytes cps)"
    using usb_gadget_get_string_found [OF i(1) tab i(2) len(1) buf conv] by auto
  have "unat (word_of_int (2 * int (length cps) + 2) :: u8) = 2 * length cps + 2"
    using descriptor_length_byte [of "int (length cps)"] cps(2)
    by (simp only: unat_eq_nat_uint distrib_right mult.commute [of 2]) simp
  then show ?thesis using b d by (simp add: decode_string_desc_def)
qed

theorem usb_gadget_get_string_decodes_witness:
  "\<exists>buf'. usb_gadget_get_string
      \<lparr>language = 0x0409, tab_strings = Some [\<lparr>str_id = 1, str_s = [0x6a, 0xc3, 0xa9, 0]\<rparr>]\<rparr>
      1 (replicate 256 0) = Some (2 * int (length [0x6a, 0xe9 :: u16]) + 2, buf') \<and>
     decode_string_desc (take (2 + 2 * length [0x6a, 0xe9 :: u16]) buf') = Some [0x6a, 0xe9]"
  by (rule usb_gadget_get_string_decodes [where rest = "[]" and ss = "[\<lparr>str_id = 1, str_s = [0x6a, 0xc3, 0xa9, 0]\<rparr>]"
        and s = "\<lparr>str_id = 1, str_s = [0x6a, 0xc3, 0xa9, 0]\<rparr>"])
     (simp_all add: bmp_char_def utf8_encode_def)

end
