(* ===== verification/UsbConfig.thy ===== *)
theory UsbConfig
  imports Prelude
begin

text \<open>
  The descriptor-marshalling helpers of \<^verbatim>\<open>test_gadget/config.c\<close>. A descriptor is the list of the
  bytes of its object, its first byte being \<^verbatim>\<open>bLength\<close>; a null-terminated descriptor vector is the
  list of its entries, a null vector \<open>None\<close>. The buffer is a byte list written at an offset, and
  \<open>None\<close> is an access outside an object.
\<close>

section \<open>Model\<close>

abbreviation (input) USB_DT_CONFIG :: u8 where "USB_DT_CONFIG \<equiv> 2"
abbreviation (input) USB_DT_CONFIG_SIZE :: u32 where "USB_DT_CONFIG_SIZE \<equiv> 9"
abbreviation (input) USB_CONFIG_ATT_ONE :: u8 where "USB_CONFIG_ATT_ONE \<equiv> 0x80"

fun fillbuf_loop :: "bytes \<Rightarrow> nat \<Rightarrow> u32 \<Rightarrow> bytes list \<Rightarrow> ((int + nat) \<times> bytes) option" where
  "fillbuf_loop mem dest buflen [] = Some (Inr dest, mem)"
| "fillbuf_loop mem dest buflen ([] # src) = None"
| "fillbuf_loop mem dest buflen ((bl # d) # src) =
     (let len = ucast bl :: u32 in
      if len > buflen then Some (Inl (- EINVAL), mem)
      else Option.bind (mem_read (bl # d) 0 (unat len)) (\<lambda>bs.
           Option.bind (mem_write mem dest bs) (\<lambda>mem'.
           fillbuf_loop mem' (dest + unat len) (buflen - len) src)))"

definition usb_descriptor_fillbuf ::
    "bytes \<Rightarrow> nat \<Rightarrow> u32 \<Rightarrow> bytes list option \<Rightarrow> (int \<times> bytes) option" where
  "usb_descriptor_fillbuf mem buf buflen src =
     (case src of
        None \<Rightarrow> Some (- EINVAL, mem)
      | Some ds \<Rightarrow>
          map_option (\<lambda>(r, mem'). (case r of Inl e \<Rightarrow> e | Inr dest \<Rightarrow> int dest - int buf, mem'))
            (fillbuf_loop mem buf buflen ds))"

record usb_config_descriptor =
  cfg_bLength :: u8
  cfg_bDescriptorType :: u8
  cfg_wTotalLength :: u16
  cfg_bNumInterfaces :: u8
  cfg_bConfigurationValue :: u8
  cfg_iConfiguration :: u8
  cfg_bmAttributes :: u8
  cfg_bMaxPower :: u8

definition config_bytes :: "usb_config_descriptor \<Rightarrow> bytes" where
  "config_bytes c =
     [cfg_bLength c, cfg_bDescriptorType c] @ le16_bytes (cfg_wTotalLength c) @
     [cfg_bNumInterfaces c, cfg_bConfigurationValue c, cfg_iConfiguration c,
      cfg_bmAttributes c, cfg_bMaxPower c]"

definition usb_gadget_config_buf ::
    "usb_config_descriptor \<Rightarrow> bytes \<Rightarrow> u32 \<Rightarrow> bytes list option \<Rightarrow> (int \<times> bytes) option" where
  "usb_gadget_config_buf config buf len desc =
     (if len < USB_DT_CONFIG_SIZE \<or> desc = None then Some (- EINVAL, buf)
      else Option.bind (mem_write buf 0 (config_bytes config)) (\<lambda>buf1.
           Option.bind (usb_descriptor_fillbuf buf1 9 (len - USB_DT_CONFIG_SIZE) desc) (\<lambda>(n, buf2).
           if n < 0 then Some (n, buf2)
           else let n' = n + 9 in
             if n' > 0xffff then Some (- EINVAL, buf2)
             else Option.bind (mem_write buf2 0 ([9, USB_DT_CONFIG] @ le16_bytes (word_of_int n'))) (\<lambda>buf3.
                  Option.bind (mem_read buf3 7 1) (\<lambda>att.
                  map_option (Pair n') (mem_write buf3 7 [hd att OR USB_CONFIG_ATT_ONE]))))))"

text \<open>
  \<^verbatim>\<open>usb_copy_descriptors\<close> allocates one block: a vector of \<open>n + 1\<close> pointers followed by the
  copied descriptors. \<open>kmalloc\<close> gives the block's address for a size in bytes, or \<open>None\<close>;
  \<open>psize\<close> is the size of a pointer. The source vector is a list of addresses with the bytes there.
\<close>

record desc_block =
  blk_addr :: nat
  blk_size :: nat
  blk_vec :: "nat list"
  blk_data :: bytes

fun count_descriptors :: "(nat \<times> bytes) list \<Rightarrow> u32 \<Rightarrow> nat \<Rightarrow> (u32 \<times> nat) option" where
  "count_descriptors [] bytes n = Some (bytes, n)"
| "count_descriptors ((p, []) # src) bytes n = None"
| "count_descriptors ((p, bl # d) # src) bytes n = count_descriptors src (bytes + ucast bl) (Suc n)"

text \<open>
  The copying loop: \<open>data\<close> is the part of the block behind the pointer vector, \<open>off\<close> the write
  offset in it, \<open>base\<close> the address of its first byte, \<open>vec\<close> the pointers stored so far.
\<close>

fun copy_loop ::
    "nat \<Rightarrow> bytes \<Rightarrow> nat \<Rightarrow> nat list \<Rightarrow> (nat \<times> bytes) list \<Rightarrow> (nat list \<times> bytes) option" where
  "copy_loop base data off vec [] = Some (vec, data)"
| "copy_loop base data off vec ((p, []) # src) = None"
| "copy_loop base data off vec ((p, bl # d) # src) =
     Option.bind (mem_read (bl # d) 0 (unat bl)) (\<lambda>bs.
     Option.bind (mem_write data off bs) (\<lambda>data'.
     copy_loop base data' (off + unat bl) (vec @ [base + off]) src))"

definition usb_copy_descriptors ::
    "nat \<Rightarrow> (u32 \<Rightarrow> nat option) \<Rightarrow> (nat \<times> bytes) list \<Rightarrow> desc_block option option" where
  "usb_copy_descriptors psize kmalloc src =
     Option.bind (count_descriptors src 0 0) (\<lambda>(b, n).
     let bytes = b + of_nat ((n + 1) * psize) in
     case kmalloc bytes of
       None \<Rightarrow> Some None
     | Some mem \<Rightarrow>
         map_option (\<lambda>(vec, data).
             Some \<lparr>blk_addr = mem, blk_size = unat bytes, blk_vec = vec, blk_data = data\<rparr>)
           (copy_loop (mem + (n + 1) * psize) (replicate (unat bytes - (n + 1) * psize) 0) 0 [] src))"

text \<open>Pointers are addresses; the outer \<open>None\<close> is a read behind the end of \<open>copy\<close>.\<close>

fun usb_find_endpoint :: "nat list \<Rightarrow> nat list \<Rightarrow> nat \<Rightarrow> nat option option" where
  "usb_find_endpoint [] copy match = Some None"
| "usb_find_endpoint (s # src) [] match = None"
| "usb_find_endpoint (s # src) (c # copy) match =
     (if s = match then Some (Some c) else usb_find_endpoint src copy match)"

section \<open>Filling a buffer\<close>

definition wf_desc :: "bytes \<Rightarrow> bool" where
  "wf_desc d \<longleftrightarrow> d \<noteq> [] \<and> unat (hd d) \<le> length d"

definition desc_copy :: "bytes \<Rightarrow> bytes" where
  "desc_copy d = take (unat (hd d)) d"

definition descs_total :: "bytes list \<Rightarrow> nat" where
  "descs_total ds = (\<Sum>d\<leftarrow>ds. unat (hd d))"

lemma descs_total_simps [simp]:
  "descs_total [] = 0" "descs_total (d # ds) = unat (hd d) + descs_total ds"
  by (simp_all add: descs_total_def)

lemma length_desc_copy: "wf_desc d \<Longrightarrow> length (desc_copy d) = unat (hd d)"
  by (simp add: desc_copy_def wf_desc_def)

lemma length_concat_desc_copy:
  "\<forall>d\<in>set ds. wf_desc d \<Longrightarrow> length (concat (map desc_copy ds)) = descs_total ds"
  by (induction ds) (auto simp: length_desc_copy)

lemma unat_ucast_u8_u32 [simp]: "unat (ucast (b::u8) :: u32) = unat b"
  by transfer (simp add: take_bit_take_bit)

text \<open>One step of the loop on a well-formed descriptor that fits.\<close>

lemma fillbuf_loop_step:
  assumes "wf_desc d" and "unat (hd d) \<le> unat buflen" and "dest + unat buflen \<le> length mem"
  shows "fillbuf_loop mem dest buflen (d # ds) =
    fillbuf_loop (take dest mem @ desc_copy d @ drop (dest + unat (hd d)) mem)
      (dest + unat (hd d)) (buflen - ucast (hd d)) ds"
    and "unat (buflen - ucast (hd d) :: u32) = unat buflen - unat (hd d)"
proof -
  obtain b t where d: "d = b # t" using assms(1) by (cases d) (auto simp: wf_desc_def)
  have "\<not> (ucast b :: u32) > buflen" using assms(2) d by (simp add: word_less_nat_alt)
  moreover have "mem_read (b # t) 0 (unat b) = Some (desc_copy d)"
    using assms(1) d by (simp add: mem_read_def wf_desc_def desc_copy_def)
  moreover have "mem_write mem dest (desc_copy d)
      = Some (take dest mem @ desc_copy d @ drop (dest + unat (hd d)) mem)"
    using assms length_desc_copy [OF assms(1)] by (simp add: mem_write_def)
  ultimately show "fillbuf_loop mem dest buflen (d # ds) =
      fillbuf_loop (take dest mem @ desc_copy d @ drop (dest + unat (hd d)) mem)
        (dest + unat (hd d)) (buflen - ucast (hd d)) ds"
    by (simp add: d Let_def)
  show "unat (buflen - ucast (hd d) :: u32) = unat buflen - unat (hd d)"
    using assms(2) by (simp add: unat_sub word_le_nat_alt)
qed

lemma fillbuf_loop_spec:
  assumes "\<forall>d\<in>set ds. wf_desc d" and "dest + unat buflen \<le> length mem"
  shows "if descs_total ds \<le> unat buflen
    then fillbuf_loop mem dest buflen ds = Some (Inr (dest + descs_total ds),
           take dest mem @ concat (map desc_copy ds) @ drop (dest + descs_total ds) mem)
    else \<exists>mem'. fillbuf_loop mem dest buflen ds = Some (Inl (- EINVAL), mem') \<and>
           length mem' = length mem \<and> take dest mem' = take dest mem \<and>
           drop (dest + unat buflen) mem' = drop (dest + unat buflen) mem"
  using assms
proof (induction ds arbitrary: dest buflen mem)
  case Nil
  then show ?case by simp
next
  case (Cons d ds)
  then have d: "wf_desc d" and ds: "\<forall>d\<in>set ds. wf_desc d" by auto
  show ?case
  proof (cases "unat (hd d) \<le> unat buflen")
    case False
    then have "fillbuf_loop mem dest buflen (d # ds) = Some (Inl (- EINVAL), mem)"
      using d by (cases d) (auto simp: wf_desc_def Let_def word_less_nat_alt)
    then show ?thesis using False by auto
  next
    case True
    let ?mem = "take dest mem @ desc_copy d @ drop (dest + unat (hd d)) mem"
    note step = fillbuf_loop_step [OF d True Cons.prems(2)]
    have len: "length ?mem = length mem"
      using length_desc_copy [OF d] True Cons.prems(2) by simp
    have b: "(dest + unat (hd d)) + unat (buflen - ucast (hd d) :: u32) \<le> length ?mem"
      using Cons.prems(2) True len step(2) by simp
    note IH = Cons.IH [OF ds b]
    show ?thesis
    proof (cases "descs_total (d # ds) \<le> unat buflen")
      case fits: True
      then show ?thesis
        using IH step True Cons.prems(2) length_desc_copy [OF d]
        by (simp add: drop_drop ac_simps)
    next
      case False
      then obtain mem' where mem': "fillbuf_loop ?mem (dest + unat (hd d))
          (buflen - ucast (hd d)) ds = Some (Inl (- EINVAL), mem')" "length mem' = length ?mem"
          "take (dest + unat (hd d)) mem' = take (dest + unat (hd d)) ?mem"
          "drop (dest + unat (hd d) + unat (buflen - ucast (hd d) :: u32)) mem'
           = drop (dest + unat (hd d) + unat (buflen - ucast (hd d) :: u32)) ?mem"
        using IH step(2) True by (auto split: if_splits)
      have "take dest mem' = take dest ?mem"
        using arg_cong [OF mem'(3), of "take dest"] by (simp add: min_def)
      moreover have e: "dest + unat (hd d) + unat (buflen - ucast (hd d) :: u32) = dest + unat buflen"
        using step(2) True by simp
      have "drop (dest + unat buflen) mem' = drop (dest + unat buflen) mem"
        using mem'(4) [unfolded e] True Cons.prems(2) length_desc_copy [OF d] by (simp add: add.commute)
      ultimately show ?thesis
        using False mem' step(1) Cons.prems(2) len by simp
    qed
  qed
qed

text \<open>
  with well-formed descriptors and a buffer of at least \<open>buflen\<close> bytes behind the
  destination, \<open>usb_descriptor_fillbuf\<close> stores their concatenation and returns its length exactly
  when they all fit; otherwise it reports \<open>-EINVAL\<close> and nothing outside the \<open>buflen\<close> bytes changed.
\<close>

theorem usb_descriptor_fillbuf_spec:
  assumes "\<forall>d\<in>set ds. wf_desc d" and "buf + unat buflen \<le> length mem"
  shows "if descs_total ds \<le> unat buflen
    then usb_descriptor_fillbuf mem buf buflen (Some ds) = Some (int (descs_total ds),
           take buf mem @ concat (map desc_copy ds) @ drop (buf + descs_total ds) mem)
    else \<exists>mem'. usb_descriptor_fillbuf mem buf buflen (Some ds) = Some (- EINVAL, mem') \<and>
           length mem' = length mem \<and> take buf mem' = take buf mem \<and>
           drop (buf + unat buflen) mem' = drop (buf + unat buflen) mem"
  using fillbuf_loop_spec [OF assms] by (auto simp: usb_descriptor_fillbuf_def split: if_splits)

theorem usb_descriptor_fillbuf_spec_witness:
  "if descs_total [[2, 7], [3, 8, 9, 1]] \<le> unat (6::u32)
    then usb_descriptor_fillbuf (replicate 8 0) 1 6 (Some [[2, 7], [3, 8, 9, 1]])
         = Some (int (descs_total [[2, 7], [3, 8, 9, 1]]), take 1 (replicate 8 0) @
             concat (map desc_copy [[2, 7], [3, 8, 9, 1]]) @
             drop (1 + descs_total [[2, 7], [3, 8, 9, 1]]) (replicate 8 0))
    else \<exists>mem'. usb_descriptor_fillbuf (replicate 8 0) 1 6 (Some [[2, 7], [3, 8, 9, 1]])
           = Some (- EINVAL, mem') \<and> length mem' = length (replicate 8 (0::u8)) \<and>
           take 1 mem' = take 1 (replicate 8 0) \<and>
           drop (1 + unat (6::u32)) mem' = drop (1 + unat (6::u32)) (replicate 8 0)"
  by (rule usb_descriptor_fillbuf_spec) (simp_all add: wf_desc_def)

section \<open>The configuration descriptor\<close>

text \<open>
  The host's parser: a configuration blob is walked by the length byte of each descriptor
  (USB 2.0, section 9.5); a length below 2 or past the end is malformed.
\<close>

function parse_descs :: "bytes \<Rightarrow> bytes list option" where
  "parse_descs bs =
     (case bs of [] \<Rightarrow> Some []
      | bl # _ \<Rightarrow>
        if unat bl < 2 \<or> length bs < unat bl then None
        else map_option ((#) (take (unat bl) bs)) (parse_descs (drop (unat bl) bs)))"
  by pat_completeness auto
termination
  by (relation "measure length") auto

declare parse_descs.simps [simp del]

definition exact_desc :: "bytes \<Rightarrow> bool" where
  "exact_desc d \<longleftrightarrow> 2 \<le> length d \<and> unat (hd d) = length d"

lemma exact_desc_wf: "exact_desc d \<Longrightarrow> wf_desc d \<and> desc_copy d = d"
  by (auto simp: exact_desc_def wf_desc_def desc_copy_def)

lemma parse_descs_concat:
  "\<forall>d\<in>set ds. exact_desc d \<Longrightarrow> parse_descs (concat ds) = Some ds"
proof (induction ds)
  case Nil
  show ?case by (simp add: parse_descs.simps)
next
  case (Cons d ds)
  then obtain bl t where d: "d = bl # t" by (cases d) (auto simp: exact_desc_def)
  from Cons.prems have "unat bl = Suc (length t)" "t \<noteq> []" by (auto simp: exact_desc_def d)
  then show ?case
    using Cons by (subst parse_descs.simps) (simp add: d)
qed

definition patched_config :: "usb_config_descriptor \<Rightarrow> nat \<Rightarrow> usb_config_descriptor" where
  "patched_config c n = c\<lparr>cfg_bLength := 9, cfg_bDescriptorType := USB_DT_CONFIG,
     cfg_wTotalLength := of_nat n, cfg_bmAttributes := cfg_bmAttributes c OR USB_CONFIG_ATT_ONE\<rparr>"

lemma length_config_bytes [simp]: "length (config_bytes c) = 9"
  by (simp add: config_bytes_def)

text \<open>The patching of the header in place yields the bytes of the patched record.\<close>

lemma patch_config_bytes:
  "Option.bind (mem_write (config_bytes c @ rest) 0 ([9, USB_DT_CONFIG] @ le16_bytes w)) (\<lambda>m.
   Option.bind (mem_read m 7 1) (\<lambda>att. mem_write m 7 [hd att OR USB_CONFIG_ATT_ONE]))
   = Some (config_bytes (c\<lparr>cfg_bLength := 9, cfg_bDescriptorType := USB_DT_CONFIG,
       cfg_wTotalLength := w, cfg_bmAttributes := cfg_bmAttributes c OR USB_CONFIG_ATT_ONE\<rparr>) @ rest)"
  by (simp add: config_bytes_def le16_bytes_def mem_write_def mem_read_def)

lemma usb_gadget_config_buf_fits:
  assumes ds: "\<forall>d\<in>set ds. wf_desc d" and len: "9 + descs_total ds \<le> unat len"
    and buf: "unat len \<le> length buf" and max: "9 + descs_total ds \<le> 0xffff"
  shows "usb_gadget_config_buf config buf len (Some ds) = Some (int (9 + descs_total ds),
     config_bytes (patched_config config (9 + descs_total ds)) @ concat (map desc_copy ds) @
     drop (9 + descs_total ds) buf)"
proof -
  have l9: "\<not> len < 9" using len by (simp add: word_less_nat_alt)
  then have sub: "unat (len - 9) = unat len - 9"
    using unat_sub [of 9 len] by (simp add: not_less)
  have w: "mem_write buf 0 (config_bytes config) = Some (config_bytes config @ drop 9 buf)"
    using len buf by (simp add: mem_write_def)
  have b: "9 + unat (len - 9) \<le> length (config_bytes config @ drop 9 buf)"
    using len buf sub by simp
  have fill: "usb_descriptor_fillbuf (config_bytes config @ drop 9 buf) 9 (len - 9) (Some ds)
    = Some (int (descs_total ds), config_bytes config @ concat (map desc_copy ds) @
        drop (9 + descs_total ds) buf)"
    using fillbuf_loop_spec [OF ds b] len sub
    by (simp add: usb_descriptor_fillbuf_def drop_drop add.commute)
  show ?thesis
    using l9 w fill max patch_config_bytes
      [of config "concat (map desc_copy ds) @ drop (9 + descs_total ds) buf"
        "of_nat (9 + descs_total ds)"]
    by (simp add: usb_gadget_config_buf_def patched_config_def Let_def bind_map_option
        map_option_bind comp_def add.commute)
qed

text \<open>
  C9: the buffer built by \<open>usb_gadget_config_buf\<close> parses, on the host's side, into the patched
  configuration header followed by exactly the given descriptors, and the returned length, the
  bytes parsed and the header's \<^verbatim>\<open>wTotalLength\<close> agree.
\<close>

theorem usb_gadget_config_buf_parses:
  assumes ds: "\<forall>d\<in>set ds. exact_desc d" and len: "9 + descs_total ds \<le> unat len"
    and buf: "unat len \<le> length buf" and max: "9 + descs_total ds \<le> 0xffff"
  shows "\<exists>buf'. usb_gadget_config_buf config buf len (Some ds)
           = Some (int (9 + descs_total ds), buf') \<and>
         parse_descs (take (9 + descs_total ds) buf')
           = Some (config_bytes (patched_config config (9 + descs_total ds)) # ds) \<and>
         unat (cfg_wTotalLength (patched_config config (9 + descs_total ds))) = 9 + descs_total ds"
proof -
  have wf: "\<forall>d\<in>set ds. wf_desc d" and cp: "map desc_copy ds = ds"
    using ds exact_desc_wf by (auto intro!: map_idI)
  let ?h = "config_bytes (patched_config config (9 + descs_total ds))"
  have "length (concat ds) = descs_total ds"
    using length_concat_desc_copy [OF wf] cp by simp
  then have "take (9 + descs_total ds) (?h @ concat ds @ drop (9 + descs_total ds) buf)
      = concat (?h # ds)"
    by simp
  moreover have "exact_desc ?h"
    by (simp add: exact_desc_def) (simp add: config_bytes_def patched_config_def)
  ultimately have "parse_descs (take (9 + descs_total ds)
      (?h @ concat ds @ drop (9 + descs_total ds) buf)) = Some (?h # ds)"
    using parse_descs_concat [of "?h # ds"] ds by simp
  moreover have "unat (of_nat (9 + descs_total ds) :: u16) = 9 + descs_total ds"
    using max by (simp add: unat_of_nat del: of_nat_add)
  ultimately show ?thesis
    using usb_gadget_config_buf_fits [OF wf len buf max, of config] cp
    by (simp add: patched_config_def)
qed

theorem usb_gadget_config_buf_parses_witness:
  "\<exists>buf'. usb_gadget_config_buf
      \<lparr>cfg_bLength = 9, cfg_bDescriptorType = 2, cfg_wTotalLength = 9, cfg_bNumInterfaces = 1,
       cfg_bConfigurationValue = 1, cfg_iConfiguration = 0, cfg_bmAttributes = 0x80,
       cfg_bMaxPower = 50\<rparr> (replicate 256 0) 256 (Some [[9, 4, 0, 0, 1, 0xff, 0, 0, 0]])
      = Some (int (9 + descs_total [[9, 4, 0, 0, 1, 0xff, 0, 0, 0]]), buf') \<and>
     parse_descs (take (9 + descs_total [[9, 4, 0, 0, 1, 0xff, 0, 0, 0]]) buf')
      = Some (config_bytes (patched_config
      \<lparr>cfg_bLength = 9, cfg_bDescriptorType = 2, cfg_wTotalLength = 9, cfg_bNumInterfaces = 1,
       cfg_bConfigurationValue = 1, cfg_iConfiguration = 0, cfg_bmAttributes = 0x80,
       cfg_bMaxPower = 50\<rparr> (9 + descs_total [[9, 4, 0, 0, 1, 0xff, 0, 0, 0]]))
         # [[9, 4, 0, 0, 1, 0xff, 0, 0, 0]]) \<and>
     unat (cfg_wTotalLength (patched_config
      \<lparr>cfg_bLength = 9, cfg_bDescriptorType = 2, cfg_wTotalLength = 9, cfg_bNumInterfaces = 1,
       cfg_bConfigurationValue = 1, cfg_iConfiguration = 0, cfg_bmAttributes = 0x80,
       cfg_bMaxPower = 50\<rparr> (9 + descs_total [[9, 4, 0, 0, 1, 0xff, 0, 0, 0]])))
      = 9 + descs_total [[9, 4, 0, 0, 1, 0xff, 0, 0, 0]]"
  by (rule usb_gadget_config_buf_parses) (simp_all add: exact_desc_def)

section \<open>Copies of a descriptor vector\<close>

text \<open>The object of \<open>n\<close> bytes at address \<open>p\<close> of a copied block.\<close>

definition blk_read :: "nat \<Rightarrow> desc_block \<Rightarrow> nat \<Rightarrow> nat \<Rightarrow> bytes option" where
  "blk_read psize blk p n = mem_read (blk_data blk) (p - (blk_addr blk + (length (blk_vec blk) + 1) * psize)) n"

lemma count_descriptors_spec:
  "\<forall>d\<in>set src. wf_desc (snd d) \<Longrightarrow> count_descriptors src b n
   = Some (b + of_nat (descs_total (map snd src)), n + length src)"
proof (induction src arbitrary: b n)
  case Nil
  then show ?case by simp
next
  case (Cons e src)
  then obtain p bl t where e: "e = (p, bl # t)"
    by (cases e; cases "snd e") (auto simp: wf_desc_def)
  have "of_nat (unat bl) = (ucast bl :: u32)"
    by simp
  then show ?case using Cons by (simp add: e add.assoc)
qed

lemma copy_loop_spec:
  assumes "\<forall>d\<in>set src. wf_desc (snd d)" and "off + descs_total (map snd src) \<le> length data"
  shows "\<exists>vec' data'. copy_loop base data off vec src = Some (vec @ vec', data') \<and>
     length vec' = length src \<and> length data' = length data \<and> take off data' = take off data \<and>
     (\<forall>i<length src. base + off \<le> vec' ! i \<and>
        vec' ! i + unat (hd (snd (src ! i))) \<le> base + off + descs_total (map snd src) \<and>
        mem_read data' (vec' ! i - base) (unat (hd (snd (src ! i))))
          = Some (desc_copy (snd (src ! i)))) \<and>
     (\<forall>j<length src. \<forall>i<j. vec' ! i + unat (hd (snd (src ! i))) \<le> vec' ! j)"
  using assms
proof (induction src arbitrary: off vec data)
  case Nil
  then show ?case by simp
next
  case (Cons e src)
  obtain p bl t where e: "e = (p, bl # t)"
    using Cons.prems(1) by (cases e; cases "snd e") (auto simp: wf_desc_def)
  have wf: "wf_desc (bl # t)" using Cons.prems(1) e by simp
  have rd: "mem_read (bl # t) 0 (unat bl) = Some (desc_copy (bl # t))"
    using wf by (simp add: wf_desc_def desc_copy_def mem_read_def)
  have lc: "length (desc_copy (bl # t)) = unat bl" using length_desc_copy [OF wf] by simp
  obtain d1 where d1: "mem_write data off (desc_copy (bl # t)) = Some d1"
    using Cons.prems(2) lc e by (simp add: mem_simps)
  then have l1: "length d1 = length data" by (rule mem_write_length)
  have pre: "\<forall>d\<in>set src. wf_desc (snd d)" "off + unat bl + descs_total (map snd src) \<le> length d1"
    using Cons.prems e l1 by simp_all
  obtain vec' data' where IH: "copy_loop base d1 (off + unat bl) (vec @ [base + off]) src
        = Some ((vec @ [base + off]) @ vec', data')"
    "length vec' = length src" "length data' = length d1"
    "take (off + unat bl) data' = take (off + unat bl) d1"
    "\<forall>i<length src. base + (off + unat bl) \<le> vec' ! i \<and>
        vec' ! i + unat (hd (snd (src ! i))) \<le> base + (off + unat bl) + descs_total (map snd src) \<and>
        mem_read data' (vec' ! i - base) (unat (hd (snd (src ! i))))
          = Some (desc_copy (snd (src ! i)))"
    "\<forall>j<length src. \<forall>i<j. vec' ! i + unat (hd (snd (src ! i))) \<le> vec' ! j"
    using Cons.IH [OF pre, of "vec @ [base + off]"] by blast
  have head: "mem_read data' off (unat bl) = Some (desc_copy (bl # t))"
  proof -
    have "take (off + unat bl) data' = take off data @ desc_copy (bl # t)"
      using IH(4) mem_write_take_end [OF d1] lc by simp
    then have "drop off (take (off + unat bl) data') = desc_copy (bl # t)"
      using Cons.prems(2) e by simp
    then show ?thesis
      using IH(3) l1 Cons.prems(2) e by (simp add: mem_read_def take_drop add.commute)
  qed
  have tk: "take off data' = take off data"
    using arg_cong [OF IH(4), of "take off"] mem_write_take [OF d1] by (simp add: min_def)
  show ?case
  proof (intro exI conjI)
    show "copy_loop base data off vec (e # src) = Some (vec @ ((base + off) # vec'), data')"
      using IH(1) rd d1 by (simp add: e)
    show "\<forall>i<length (e # src). base + off \<le> ((base + off) # vec') ! i \<and>
        ((base + off) # vec') ! i + unat (hd (snd ((e # src) ! i)))
          \<le> base + off + descs_total (map snd (e # src)) \<and>
        mem_read data' (((base + off) # vec') ! i - base) (unat (hd (snd ((e # src) ! i))))
          = Some (desc_copy (snd ((e # src) ! i)))"
    proof (intro allI impI)
      fix i assume "i < length (e # src)"
      then show "base + off \<le> ((base + off) # vec') ! i \<and>
        ((base + off) # vec') ! i + unat (hd (snd ((e # src) ! i)))
          \<le> base + off + descs_total (map snd (e # src)) \<and>
        mem_read data' (((base + off) # vec') ! i - base) (unat (hd (snd ((e # src) ! i))))
          = Some (desc_copy (snd ((e # src) ! i)))"
        using IH(5) head by (cases i) (auto simp: e)
    qed
    show "\<forall>j<length (e # src). \<forall>i<j. ((base + off) # vec') ! i
            + unat (hd (snd ((e # src) ! i))) \<le> ((base + off) # vec') ! j"
    proof (intro allI impI)
      fix j i assume "j < length (e # src)" "i < j"
      then show "((base + off) # vec') ! i + unat (hd (snd ((e # src) ! i)))
          \<le> ((base + off) # vec') ! j"
        using IH(5,6) by (cases i; cases j) (auto simp: e)
    qed
  qed (use IH l1 tk in simp_all)
qed

lemma usb_copy_descriptors_spec:
  assumes wf: "\<forall>d\<in>set src. wf_desc (snd d)"
    and no_wrap: "descs_total (map snd src) + (length src + 1) * psize < 2 ^ 32"
    and alloc: "kmalloc (of_nat (descs_total (map snd src) + (length src + 1) * psize)) = Some mem"
  shows "\<exists>blk. usb_copy_descriptors psize kmalloc src = Some (Some blk) \<and> blk_addr blk = mem \<and>
     blk_size blk = descs_total (map snd src) + (length src + 1) * psize \<and>
     length (blk_vec blk) = length src \<and>
     (\<forall>i<length src. mem + (length src + 1) * psize \<le> blk_vec blk ! i \<and>
        blk_vec blk ! i + unat (hd (snd (src ! i))) \<le> mem + blk_size blk \<and>
        blk_read psize blk (blk_vec blk ! i) (unat (hd (snd (src ! i))))
          = Some (desc_copy (snd (src ! i)))) \<and>
     (\<forall>j<length src. \<forall>i<j. blk_vec blk ! i + unat (hd (snd (src ! i))) \<le> blk_vec blk ! j)"
proof -
  let ?n = "length src" and ?tot = "descs_total (map snd src)"
  define b where "b = (of_nat (?tot + (?n + 1) * psize) :: u32)"
  have size: "unat b = ?tot + (?n + 1) * psize"
    unfolding b_def using no_wrap by (simp only: unat_of_nat) simp
  have cnt: "count_descriptors src 0 0 = Some (of_nat ?tot, ?n)"
    using count_descriptors_spec [OF wf, of 0 0] by simp
  have b: "of_nat ?tot + of_nat ((?n + 1) * psize) = b" by (simp add: b_def)
  have bound: "0 + ?tot \<le> length (replicate (unat b - (?n + 1) * psize) (0::u8))"
    by (simp add: size)
  obtain vec data where c:
      "copy_loop (mem + (?n + 1) * psize) (replicate (unat b - (?n + 1) * psize) 0) 0 [] src
         = Some (vec, data)"
    and len: "length vec = ?n" "length data = ?tot"
    and at: "\<forall>i<?n. mem + (?n + 1) * psize \<le> vec ! i \<and>
        vec ! i + unat (hd (snd (src ! i))) \<le> mem + (?n + 1) * psize + ?tot \<and>
        mem_read data (vec ! i - (mem + (?n + 1) * psize)) (unat (hd (snd (src ! i))))
          = Some (desc_copy (snd (src ! i)))"
    and ord: "\<forall>j<?n. \<forall>i<j. vec ! i + unat (hd (snd (src ! i))) \<le> vec ! j"
    using copy_loop_spec [OF wf bound, of "mem + (?n + 1) * psize" "[]"]
    by (auto simp add: size)
  let ?blk = "\<lparr>blk_addr = mem, blk_size = unat b, blk_vec = vec, blk_data = data\<rparr>"
  have "usb_copy_descriptors psize kmalloc src = Some (Some ?blk)"
    unfolding usb_copy_descriptors_def cnt
    by (simp only: Option.bind.simps case_prod_conv Let_def b alloc [folded b_def] option.case c option.map)
  then show ?thesis
    using len at ord size by (intro exI [of _ ?blk]) (simp add: blk_read_def ac_simps)
qed

lemma usb_find_endpoint_nth:
  "\<lbrakk>length copy = length src; i < length src; distinct src\<rbrakk> \<Longrightarrow>
   usb_find_endpoint src copy (src ! i) = Some (Some (copy ! i))"
proof (induction src copy "src ! i" arbitrary: i rule: usb_find_endpoint.induct)
  case (3 s src c copy)
  then show ?case by (cases i) auto
qed auto

lemma usb_find_endpoint_absent:
  "\<lbrakk>length copy = length src; p \<notin> set src\<rbrakk> \<Longrightarrow> usb_find_endpoint src copy p = Some None"
  by (induction src copy p rule: usb_find_endpoint.induct) auto

text \<open>
  \<open>usb_copy_descriptors\<close> copies a vector into disjoint places inside the one allocated block,
  and \<open>usb_find_endpoint\<close> then maps each original descriptor to a faithful copy of it (and a
  pointer that is not in the vector to null).
\<close>

theorem usb_copy_find_endpoint:
  assumes wf: "\<forall>d\<in>set src. wf_desc (snd d)" and dist: "distinct (map fst src)"
    and no_wrap: "descs_total (map snd src) + (length src + 1) * psize < 2 ^ 32"
    and alloc: "kmalloc (of_nat (descs_total (map snd src) + (length src + 1) * psize)) = Some mem"
  shows "\<exists>blk. usb_copy_descriptors psize kmalloc src = Some (Some blk) \<and>
     (\<forall>i<length src. \<exists>p. usb_find_endpoint (map fst src) (blk_vec blk) (fst (src ! i)) = Some (Some p) \<and>
        blk_read psize blk p (unat (hd (snd (src ! i)))) = Some (desc_copy (snd (src ! i))) \<and>
        mem + (length src + 1) * psize \<le> p \<and>
        p + unat (hd (snd (src ! i))) \<le> mem + blk_size blk) \<and>
     (\<forall>j<length src. \<forall>i<j. blk_vec blk ! i + unat (hd (snd (src ! i))) \<le> blk_vec blk ! j) \<and>
     (\<forall>q. q \<notin> fst ` set src \<longrightarrow> usb_find_endpoint (map fst src) (blk_vec blk) q = Some None)"
proof -
  obtain blk where blk: "usb_copy_descriptors psize kmalloc src = Some (Some blk)"
      "length (blk_vec blk) = length src"
      "\<forall>i<length src. mem + (length src + 1) * psize \<le> blk_vec blk ! i \<and>
        blk_vec blk ! i + unat (hd (snd (src ! i))) \<le> mem + blk_size blk \<and>
        blk_read psize blk (blk_vec blk ! i) (unat (hd (snd (src ! i))))
          = Some (desc_copy (snd (src ! i)))"
      "\<forall>j<length src. \<forall>i<j. blk_vec blk ! i + unat (hd (snd (src ! i))) \<le> blk_vec blk ! j"
    using usb_copy_descriptors_spec [where kmalloc = kmalloc, OF wf no_wrap alloc] by blast
  have "usb_find_endpoint (map fst src) (blk_vec blk) (fst (src ! i)) = Some (Some (blk_vec blk ! i))"
    if "i < length src" for i
    using usb_find_endpoint_nth [of "blk_vec blk" "map fst src" i] that dist blk(2) by simp
  then show ?thesis
    using blk usb_find_endpoint_absent [of "blk_vec blk" "map fst src"] by force
qed

theorem usb_copy_find_endpoint_witness:
  "\<exists>blk. usb_copy_descriptors 8 (\<lambda>_. Some 4096) [(16, [2, 5]), (32, [3, 5, 7])] = Some (Some blk) \<and>
     (\<forall>i<length [(16::nat, [2, 5::u8]), (32, [3, 5, 7])]. \<exists>p.
        usb_find_endpoint (map fst [(16, [2, 5::u8]), (32, [3, 5, 7])]) (blk_vec blk)
          (fst ([(16, [2, 5::u8]), (32, [3, 5, 7])] ! i)) = Some (Some p) \<and>
        blk_read 8 blk p (unat (hd (snd ([(16::nat, [2, 5::u8]), (32, [3, 5, 7])] ! i))))
          = Some (desc_copy (snd ([(16::nat, [2, 5]), (32, [3, 5, 7])] ! i))) \<and>
        4096 + (length [(16::nat, [2, 5::u8]), (32, [3, 5, 7])] + 1) * 8 \<le> p \<and>
        p + unat (hd (snd ([(16::nat, [2, 5::u8]), (32, [3, 5, 7])] ! i))) \<le> 4096 + blk_size blk) \<and>
     (\<forall>j<length [(16::nat, [2, 5::u8]), (32, [3, 5, 7])]. \<forall>i<j.
        blk_vec blk ! i + unat (hd (snd ([(16::nat, [2, 5::u8]), (32, [3, 5, 7])] ! i)))
          \<le> blk_vec blk ! j) \<and>
     (\<forall>q. q \<notin> fst ` set [(16::nat, [2, 5::u8]), (32, [3, 5, 7])] \<longrightarrow>
        usb_find_endpoint (map fst [(16, [2, 5::u8]), (32, [3, 5, 7])]) (blk_vec blk) q = Some None)"
  by (rule usb_copy_find_endpoint) (simp_all add: wf_desc_def)

end
