(* ===== verification/EpAutoconf.thy ===== *)
theory EpAutoconf
  imports Prelude
begin

text \<open>
  Endpoint autoconfiguration, \<^verbatim>\<open>test_gadget/epautoconf.c\<close>, and the controller predicates of
  \<^verbatim>\<open>test_gadget/gadget_chips.h\<close> it uses. The kernel configuration is a parameter: the predicate that
  holds of the symbols that are defined. \<^verbatim>\<open>MANY_ENDPOINTS\<close> is not defined in the source.
\<close>

section \<open>Controllers\<close>

record usb_ep =
  ep_name :: string
  maxpacket :: u16
  driver_data :: bool

record usb_gadget =
  g_name :: string
  is_dualspeed :: bool
  ep_list :: "usb_ep list"

type_synonym kconfig = "string \<Rightarrow> bool"

text \<open>A \<^verbatim>\<open>gadget_is_*\<close> macro: a name comparison when its driver is configured, otherwise 0.\<close>

definition gadget_is :: "kconfig \<Rightarrow> string \<Rightarrow> string \<Rightarrow> usb_gadget \<Rightarrow> bool" where
  "gadget_is cfg symbol nm g \<longleftrightarrow> cfg symbol \<and> g_name g = nm"

text \<open>The macros of the header in the order of \<^verbatim>\<open>usb_gadget_controller_number\<close>, with their numbers.\<close>

definition gadget_chips :: "(string \<times> string \<times> int) list" where
  "gadget_chips =
    [(''CONFIG_USB_GADGET_NET2280'', ''net2280'', 0x01),
     (''CONFIG_USB_GADGET_DUMMY_HCD'', ''dummy_udc'', 0x02),
     (''CONFIG_USB_GADGET_PXA25X'', ''pxa25x_udc'', 0x03),
     (''CONFIG_USB_GADGET_GOKU'', ''goku_udc'', 0x06),
     (''CONFIG_USB_GADGET_OMAP'', ''omap_udc'', 0x08),
     (''CONFIG_USB_GADGET_PXA27X'', ''pxa27x_udc'', 0x11),
     (''CONFIG_USB_GADGET_S3C2410'', ''s3c2410_udc'', 0x12),
     (''CONFIG_USB_GADGET_AT91'', ''at91_udc'', 0x13),
     (''CONFIG_USB_GADGET_IMX'', ''imx_udc'', 0x14),
     (''CONFIG_USB_GADGET_MUSB_HDRC'', ''musb-hdrc'', 0x16),
     (''CONFIG_USB_GADGET_ATMEL_USBA'', ''atmel_usba_udc'', 0x18),
     (''CONFIG_USB_GADGET_FSL_USB2'', ''fsl-usb2-udc'', 0x19),
     (''CONFIG_USB_GADGET_AMD5536UDC'', ''amd5536udc'', 0x20),
     (''CONFIG_USB_GADGET_M66592'', ''m66592_udc'', 0x21),
     (''CONFIG_USB_GADGET_FSL_QE'', ''fsl_qe_udc'', 0x22),
     (''CONFIG_USB_GADGET_CI13XXX_PCI'', ''ci13xxx_pci'', 0x23),
     (''CONFIG_USB_GADGET_LANGWELL'', ''langwell_udc'', 0x24),
     (''CONFIG_USB_GADGET_R8A66597'', ''r8a66597_udc'', 0x25),
     (''CONFIG_USB_S3C_HSOTG'', ''s3c-hsotg'', 0x26),
     (''CONFIG_USB_GADGET_EG20T'', ''pch_udc'', 0x27),
     (''CONFIG_USB_GADGET_CI13XXX_MSM'', ''ci13xxx_msm'', 0x28),
     (''CONFIG_USB_GADGET_RENESAS_USBHS'', ''renesas_usbhs_udc'', 0x29),
     (''CONFIG_USB_S3C_HSUDC'', ''s3c-hsudc'', 0x30)]"

definition gadget_is_net2280 :: "kconfig \<Rightarrow> usb_gadget \<Rightarrow> bool" where
  "gadget_is_net2280 cfg = gadget_is cfg ''CONFIG_USB_GADGET_NET2280'' ''net2280''"

definition gadget_is_pxa :: "kconfig \<Rightarrow> usb_gadget \<Rightarrow> bool" where
  "gadget_is_pxa cfg = gadget_is cfg ''CONFIG_USB_GADGET_PXA25X'' ''pxa25x_udc''"

definition gadget_is_goku :: "kconfig \<Rightarrow> usb_gadget \<Rightarrow> bool" where
  "gadget_is_goku cfg = gadget_is cfg ''CONFIG_USB_GADGET_GOKU'' ''goku_udc''"

definition gadget_is_pxa27x :: "kconfig \<Rightarrow> usb_gadget \<Rightarrow> bool" where
  "gadget_is_pxa27x cfg = gadget_is cfg ''CONFIG_USB_GADGET_PXA27X'' ''pxa27x_udc''"

definition gadget_is_musbhdrc :: "kconfig \<Rightarrow> usb_gadget \<Rightarrow> bool" where
  "gadget_is_musbhdrc cfg = gadget_is cfg ''CONFIG_USB_GADGET_MUSB_HDRC'' ''musb-hdrc''"

fun controller_number :: "kconfig \<Rightarrow> (string \<times> string \<times> int) list \<Rightarrow> usb_gadget \<Rightarrow> int" where
  "controller_number cfg [] g = - ENOENT"
| "controller_number cfg ((symbol, nm, n) # cs) g =
     (if gadget_is cfg symbol nm g then n else controller_number cfg cs g)"

definition usb_gadget_controller_number :: "kconfig \<Rightarrow> usb_gadget \<Rightarrow> int" where
  "usb_gadget_controller_number cfg = controller_number cfg gadget_chips"

definition gadget_supports_altsettings :: "kconfig \<Rightarrow> usb_gadget \<Rightarrow> bool" where
  "gadget_supports_altsettings cfg g =
     (if gadget_is_pxa cfg g then False else if gadget_is_pxa27x cfg g then False else True)"

section \<open>Matching an endpoint with a descriptor\<close>

record usb_endpoint_descriptor =
  bEndpointAddress :: u8
  bmAttributes :: u8
  wMaxPacketSize :: u16

abbreviation (input) USB_DIR_IN :: u8 where "USB_DIR_IN \<equiv> 0x80"
abbreviation (input) USB_ENDPOINT_XFERTYPE_MASK :: u8 where "USB_ENDPOINT_XFERTYPE_MASK \<equiv> 3"
abbreviation (input) XFER_CONTROL :: u8 where "XFER_CONTROL \<equiv> 0"
abbreviation (input) XFER_ISOC :: u8 where "XFER_ISOC \<equiv> 1"
abbreviation (input) XFER_BULK :: u8 where "XFER_BULK \<equiv> 2"
abbreviation (input) XFER_INT :: u8 where "XFER_INT \<equiv> 3"

definition xfer_type :: "usb_endpoint_descriptor \<Rightarrow> u8" where
  "xfer_type desc = bmAttributes desc AND USB_ENDPOINT_XFERTYPE_MASK"

text \<open>Character \<open>i\<close> of a C string; the terminator is readable, anything beyond it is \<open>None\<close>.\<close>

definition char_at :: "string \<Rightarrow> nat \<Rightarrow> char option" where
  "char_at s i = (if i < length s then Some (s ! i) else if i = length s then Some (CHR 0x00) else None)"

fun strrchr :: "string \<Rightarrow> char \<Rightarrow> nat option" where
  "strrchr [] c = None"
| "strrchr (x # xs) c =
     (case strrchr xs c of Some i \<Rightarrow> Some (Suc i) | None \<Rightarrow> if x = c then Some 0 else None)"

definition simple_strtoul :: "string \<Rightarrow> nat" where
  "simple_strtoul s = foldl (\<lambda>n c. 10 * n + (of_char c - 48)) 0 (takeWhile isdigit s)"

text \<open>The restrictions a name with a type suffix at index \<open>j\<close> puts on the transfer type.\<close>

definition suffix_rejects :: "kconfig \<Rightarrow> usb_gadget \<Rightarrow> string \<Rightarrow> nat \<Rightarrow> u8 \<Rightarrow> bool option" where
  "suffix_rejects cfg g nm j type =
     (if type = XFER_INT then
        Option.bind (char_at nm (j + 2)) (\<lambda>c2.
          if c2 = CHR ''s'' then Some True
          else if gadget_is_pxa cfg g
               then Option.bind (char_at nm (j + 1)) (\<lambda>c1. Some (c1 = CHR ''i''))
               else Some False)
      else if type = XFER_BULK then Option.bind (char_at nm (j + 1)) (\<lambda>c1. Some (c1 \<noteq> CHR ''b''))
      else if type = XFER_ISOC then Option.bind (char_at nm (j + 2)) (\<lambda>c2. Some (c2 \<noteq> CHR ''s''))
      else Some False)"

text \<open>The restriction on the direction by the character before the suffix or the end.\<close>

definition direction_rejects :: "string \<Rightarrow> nat \<Rightarrow> usb_endpoint_descriptor \<Rightarrow> bool option" where
  "direction_rejects nm j desc =
     (if j = 0 then None
      else Option.bind (char_at nm (j - 1)) (\<lambda>c.
        Some (\<not> isdigit c \<and>
              (if bEndpointAddress desc AND USB_DIR_IN \<noteq> 0 then c \<noteq> CHR ''n'' else c \<noteq> CHR ''t''))))"

definition name_rejects :: "kconfig \<Rightarrow> usb_gadget \<Rightarrow> string \<Rightarrow> usb_endpoint_descriptor \<Rightarrow> bool option" where
  "name_rejects cfg g nm desc =
     Option.bind (char_at nm 0) (\<lambda>c0.
       if c0 \<noteq> CHR ''e'' then Some True
       else Option.bind (char_at nm 2) (\<lambda>c2.
         if c2 = CHR ''-'' then Some False
         else case strrchr nm (CHR ''-'') of
                Some j \<Rightarrow> Option.bind (suffix_rejects cfg g nm j (xfer_type desc)) (\<lambda>rej.
                            if rej then Some True else direction_rejects nm j desc)
              | None \<Rightarrow> direction_rejects nm (length nm) desc))"

text \<open>The limits on the packet size; \<open>max\<close> holds the low 11 bits.\<close>

definition size_rejects :: "usb_gadget \<Rightarrow> usb_ep \<Rightarrow> usb_endpoint_descriptor \<Rightarrow> bool" where
  "size_rejects g ep desc =
     (let type = xfer_type desc; max = 0x7ff AND wMaxPacketSize desc
      in (type = XFER_INT \<and> \<not> is_dualspeed g \<and> max > 64) \<or>
         ((type = XFER_INT \<or> type = XFER_ISOC) \<and>
            (maxpacket ep < max \<or> (\<not> is_dualspeed g \<and> max > 1023) \<or>
             (wMaxPacketSize desc AND push_bit 11 3 \<noteq> 0 \<and> \<not> is_dualspeed g))))"

text \<open>
  The state of a search: the descriptor, which is modified in place, and the counter of assigned
  addresses. The result is \<open>None\<close> for a read outside the endpoint's name.
\<close>

type_synonym ep_search = "usb_endpoint_descriptor \<times> u32"

definition report_bulk :: "usb_ep \<Rightarrow> usb_endpoint_descriptor \<Rightarrow> usb_endpoint_descriptor" where
  "report_bulk ep desc =
     (if xfer_type desc = XFER_BULK
      then desc\<lparr>wMaxPacketSize := (if maxpacket ep > 64 then 64 else maxpacket ep)\<rparr> else desc)"

definition ep_matches :: "kconfig \<Rightarrow> usb_gadget \<Rightarrow> usb_ep \<Rightarrow> ep_search \<Rightarrow> (bool \<times> ep_search) option" where
  "ep_matches cfg g ep st =
     (case st of (desc, epnum) \<Rightarrow>
        if driver_data ep then Some (False, st)
        else if xfer_type desc = XFER_CONTROL then Some (False, st)
        else Option.bind (name_rejects cfg g (ep_name ep) desc) (\<lambda>rej.
          if rej then Some (False, st)
          else
            let desc1 = (if wMaxPacketSize desc = 0 then desc\<lparr>wMaxPacketSize := maxpacket ep\<rparr> else desc)
            in if size_rejects g ep desc1 then Some (False, (desc1, epnum))
               else
                 let desc2 = desc1\<lparr>bEndpointAddress := bEndpointAddress desc1 AND USB_DIR_IN\<rparr>
                 in Option.bind (char_at (ep_name ep) 2) (\<lambda>c.
                      if isdigit c then
                        Some (True, (report_bulk ep (desc2\<lparr>bEndpointAddress :=
                          bEndpointAddress desc2 OR of_nat (simple_strtoul (drop 2 (ep_name ep)))\<rparr>), epnum))
                      else if epnum + 1 > 15 then Some (False, (desc2, epnum + 1))
                      else Some (True, (report_bulk ep (desc2\<lparr>bEndpointAddress :=
                             bEndpointAddress desc2 OR ucast (epnum + 1)\<rparr>), epnum + 1)))))"

section \<open>Choosing an endpoint\<close>

text \<open>Endpoints are identified by their position in \<^verbatim>\<open>gadget->ep_list\<close>.\<close>

fun find_ep_from :: "usb_ep list \<Rightarrow> nat \<Rightarrow> string \<Rightarrow> nat option" where
  "find_ep_from [] i nm = None"
| "find_ep_from (ep # eps) i nm = (if ep_name ep = nm then Some i else find_ep_from eps (Suc i) nm)"

definition find_ep :: "usb_gadget \<Rightarrow> string \<Rightarrow> nat option" where
  "find_ep g nm = find_ep_from (ep_list g) 0 nm"

text \<open>The idiom \<^verbatim>\<open>if (ep && ep_matches (gadget, ep, desc)) return ep;\<close> for a list of candidates.\<close>

fun try_eps :: "kconfig \<Rightarrow> usb_gadget \<Rightarrow> nat option list \<Rightarrow> ep_search \<Rightarrow> (nat option \<times> ep_search) option" where
  "try_eps cfg g [] st = Some (None, st)"
| "try_eps cfg g (None # is) st = try_eps cfg g is st"
| "try_eps cfg g (Some i # is) st =
     Option.bind (ep_matches cfg g (ep_list g ! i) st) (\<lambda>(ok, st').
       if ok then Some (Some i, st') else try_eps cfg g is st')"

text \<open>The chip-specific preferences.\<close>

definition preferred :: "kconfig \<Rightarrow> usb_gadget \<Rightarrow> usb_endpoint_descriptor \<Rightarrow> nat option list" where
  "preferred cfg g desc =
     (let type = xfer_type desc; is_in = (USB_DIR_IN AND bEndpointAddress desc \<noteq> 0)
      in if gadget_is_net2280 cfg g \<and> type = XFER_INT
         then [find_ep g ''ep-e'', find_ep g ''ep-f'']
         else if gadget_is_goku cfg g
         then (if type = XFER_INT then [find_ep g ''ep3-bulk'']
               else if type = XFER_BULK \<and> is_in then [find_ep g ''ep2-bulk''] else [])
         else if cfg ''CONFIG_BLACKFIN'' \<and> gadget_is_musbhdrc cfg g
         then (if type = XFER_BULK \<or> type = XFER_ISOC
               then [find_ep g (if is_in then ''ep5in'' else ''ep6out'')]
               else if type = XFER_INT then [find_ep g (if is_in then ''ep1in'' else ''ep2out'')]
               else [])
         else [])"

definition usb_ep_autoconfig :: "kconfig \<Rightarrow> usb_gadget \<Rightarrow> ep_search \<Rightarrow> (nat option \<times> ep_search) option" where
  "usb_ep_autoconfig cfg g st =
     Option.bind (try_eps cfg g (preferred cfg g (fst st)) st) (\<lambda>(r, st').
       case r of
         Some i \<Rightarrow> Some (Some i, st')
       | None \<Rightarrow> try_eps cfg g (map Some [0..<length (ep_list g)]) st')"

definition usb_ep_autoconfig_reset :: "usb_gadget \<Rightarrow> usb_gadget \<times> u32" where
  "usb_ep_autoconfig_reset g =
     (g\<lparr>ep_list := map (\<lambda>ep. ep\<lparr>driver_data := False\<rparr>) (ep_list g)\<rparr>, 0)"

section \<open>What a match means\<close>

text \<open>The search keeps the transfer type and the direction that were asked for.\<close>

definition same_request :: "usb_endpoint_descriptor \<Rightarrow> usb_endpoint_descriptor \<Rightarrow> bool" where
  "same_request d d' \<longleftrightarrow> bmAttributes d' = bmAttributes d \<and>
     bEndpointAddress d' AND USB_DIR_IN = bEndpointAddress d AND USB_DIR_IN \<and>
     (wMaxPacketSize d \<noteq> 0 \<longrightarrow> wMaxPacketSize d' = wMaxPacketSize d)"

text \<open>
  The naming convention of the comment before \<^verbatim>\<open>ep_matches\<close>, stated on the parts of a name and not on
  the pointers of the code: the part before the last hyphen ends in a digit, or in the last letter of
  \<^verbatim>\<open>in\<close> or \<^verbatim>\<open>out\<close>; the part behind it, if there is one, names the transfer type. A name with a hyphen
  right after \<^verbatim>\<open>ep\<close> restricts nothing.
\<close>

definition name_stem :: "string \<Rightarrow> string" where
  "name_stem nm = (if CHR ''-'' \<in> set nm then rev (tl (dropWhile (\<lambda>c. c \<noteq> CHR ''-'') (rev nm))) else nm)"

definition name_suffix :: "string \<Rightarrow> string option" where
  "name_suffix nm = (if CHR ''-'' \<in> set nm then Some (rev (takeWhile (\<lambda>c. c \<noteq> CHR ''-'') (rev nm))) else None)"

definition carries_direction :: "string \<Rightarrow> bool \<Rightarrow> bool" where
  "carries_direction nm is_in \<longleftrightarrow> name_stem nm \<noteq> [] \<and>
     (isdigit (last (name_stem nm)) \<or> last (name_stem nm) = (if is_in then CHR ''n'' else CHR ''t''))"

definition carries_type :: "bool \<Rightarrow> string \<Rightarrow> u8 \<Rightarrow> bool" where
  "carries_type pxa nm type \<longleftrightarrow>
     (case name_suffix nm of
        None \<Rightarrow> True
      | Some suf \<Rightarrow>
          (type = XFER_BULK \<longrightarrow> take 1 suf = ''b'') \<and>
          (type = XFER_ISOC \<longrightarrow> take 1 (drop 1 suf) = ''s'') \<and>
          (type = XFER_INT \<longrightarrow> take 1 (drop 1 suf) \<noteq> ''s'' \<and> \<not> (pxa \<and> take 1 suf = ''i'')))"

definition name_carries :: "bool \<Rightarrow> string \<Rightarrow> usb_endpoint_descriptor \<Rightarrow> bool" where
  "name_carries pxa nm d \<longleftrightarrow> take 1 nm = ''e'' \<and>
     (take 1 (drop 2 nm) = ''-'' \<or>
      carries_type pxa nm (xfer_type d) \<and> carries_direction nm (bit (bEndpointAddress d) 7))"

text \<open>The packet sizes of a periodic endpoint that is limited to full speed.\<close>

definition full_speed_ok :: "usb_endpoint_descriptor \<Rightarrow> bool" where
  "full_speed_ok d \<longleftrightarrow> 0x7ff AND wMaxPacketSize d \<le> (if xfer_type d = XFER_INT then 64 else 1023) \<and>
     \<not> bit (wMaxPacketSize d) 11 \<and> \<not> bit (wMaxPacketSize d) 12"

text \<open>
  The endpoint \<open>ep\<close> of the gadget \<open>g\<close> fits the request \<open>d\<close>, and \<open>d'\<close> and \<open>n'\<close> report how: nobody has
  claimed it, its name carries the direction and the transfer type that were asked for, it can take the
  packets, and the descriptor is given its number.
\<close>

definition ep_fits :: "kconfig \<Rightarrow> usb_gadget \<Rightarrow> usb_endpoint_descriptor \<Rightarrow> u32 \<Rightarrow> usb_ep \<Rightarrow>
    usb_endpoint_descriptor \<Rightarrow> u32 \<Rightarrow> bool" where
  "ep_fits cfg g d n ep d' n' \<longleftrightarrow>
     \<not> driver_data ep \<and> xfer_type d \<noteq> XFER_CONTROL \<and> bmAttributes d' = bmAttributes d \<and>
     name_carries (gadget_is_pxa cfg g) (ep_name ep) d \<and>
     (\<exists>c. char_at (ep_name ep) 2 = Some c \<and>
        (if isdigit c
         then bEndpointAddress d' = (bEndpointAddress d AND USB_DIR_IN) OR of_nat (simple_strtoul (drop 2 (ep_name ep)))
         else n' \<le> 15 \<and> (n < 15 \<longrightarrow> n' = n + 1) \<and>
              bEndpointAddress d' = (bEndpointAddress d AND USB_DIR_IN) OR ucast n')) \<and>
     (if xfer_type d = XFER_BULK then wMaxPacketSize d' = min 64 (maxpacket ep)
      else 0x7ff AND wMaxPacketSize d' \<le> maxpacket ep \<and> (is_dualspeed g \<or> full_speed_ok d') \<and>
           (wMaxPacketSize d \<noteq> 0 \<longrightarrow> wMaxPacketSize d' = wMaxPacketSize d))"

text \<open>The pointer \<^verbatim>\<open>strrchr\<close> returns splits the name into these parts.\<close>

lemma strrchr_split:
  "strrchr nm c = Some j \<Longrightarrow> j < length nm \<and> nm = take j nm @ c # drop (Suc j) nm \<and> c \<notin> set (drop (Suc j) nm)"
  "strrchr nm c = None \<longleftrightarrow> c \<notin> set nm"
proof -
  show none: "strrchr nm c = None \<longleftrightarrow> c \<notin> set nm" for nm
    by (induction nm) (auto split: option.splits)
  show "strrchr nm c = Some j \<Longrightarrow> j < length nm \<and> nm = take j nm @ c # drop (Suc j) nm \<and> c \<notin> set (drop (Suc j) nm)"
    by (induction nm arbitrary: j) (auto simp: none split: option.splits if_splits)
qed

lemma name_parts:
  "strrchr nm (CHR ''-'') = None \<Longrightarrow> name_stem nm = nm \<and> name_suffix nm = None"
  "strrchr nm (CHR ''-'') = Some j \<Longrightarrow> name_stem nm = take j nm \<and> name_suffix nm = Some (drop (Suc j) nm)"
proof -
  show "strrchr nm (CHR ''-'') = None \<Longrightarrow> name_stem nm = nm \<and> name_suffix nm = None"
    by (simp add: strrchr_split name_stem_def name_suffix_def)
next
  assume j: "strrchr nm (CHR ''-'') = Some j"
  define a b where "a = take j nm" and "b = drop (Suc j) nm"
  have "nm = a @ CHR ''-'' # b" and "CHR ''-'' \<notin> set b"
    using strrchr_split(1) [OF j] by (simp_all add: a_def b_def)
  moreover from this(2) have "\<forall>x\<in>set (rev b). x \<noteq> CHR ''-''" by auto
  then have "takeWhile (\<lambda>c. c \<noteq> CHR ''-'') (rev b @ CHR ''-'' # rev a) = rev b"
      "dropWhile (\<lambda>c. c \<noteq> CHR ''-'') (rev b @ CHR ''-'' # rev a) = CHR ''-'' # rev a"
    by (subst takeWhile_append2 dropWhile_append2; auto)+
  ultimately show "name_stem nm = a \<and> name_suffix nm = Some b"
    by (simp add: name_stem_def name_suffix_def)
qed

lemma char_at_eq:
  assumes "char_at s i = Some c" and "x \<noteq> CHR 0x00"
  shows "take (Suc 0) (drop i s) = [x] \<longleftrightarrow> c = x"
  using assms by (auto simp: char_at_def take_Suc_conv_app_nth hd_drop_conv_nth take_Suc split: if_splits)

lemmas char_at_hd = char_at_eq [of _ 0, simplified]

lemma dir_in_bit: "a AND USB_DIR_IN = 0 \<longleftrightarrow> \<not> bit a 7" for a :: u8
  using and_exp_eq_0_iff_not_bit [of a 7] by simp

lemma high_bandwidth_bits: "w AND push_bit 11 3 = 0 \<longleftrightarrow> \<not> bit w 11 \<and> \<not> bit w 12" for w :: u16
proof -
  have "push_bit 11 (3::u16) = 2 ^ 11 OR 2 ^ 12" by simp
  then show ?thesis
    using and_exp_eq_0_iff_not_bit [of w 11] and_exp_eq_0_iff_not_bit [of w 12]
    by (simp only: bit.conj_disj_distrib or_eq_0_iff)
qed

lemma name_rejects_spec:
  assumes "name_rejects cfg g nm d = Some r"
  shows "r \<longleftrightarrow> \<not> name_carries (gadget_is_pxa cfg g) nm d"
proof (cases "\<exists>c0 c2. char_at nm 0 = Some c0 \<and> c0 = CHR ''e'' \<and> char_at nm 2 = Some c2 \<and> c2 \<noteq> CHR ''-''")
  case False
  with assms show ?thesis
    by (auto simp: name_rejects_def name_carries_def char_at_hd char_at_eq [of nm 2] split: if_splits)
next
  case True
  then have "take 1 nm = ''e''" and "take 1 (drop 2 nm) \<noteq> ''-''"
    by (auto simp: char_at_hd char_at_eq [of nm 2])
  then have carries: "name_carries (gadget_is_pxa cfg g) nm d \<longleftrightarrow>
      carries_type (gadget_is_pxa cfg g) nm (xfer_type d) \<and> carries_direction nm (bit (bEndpointAddress d) 7)"
    by (simp add: name_carries_def)
  have dir: "x \<longleftrightarrow> \<not> (isdigit (last s) \<or> last s = (if bit (bEndpointAddress d) 7 then CHR ''n'' else CHR ''t'')) \<and> s \<noteq> []"
    if "direction_rejects nm j d = Some x" and "s = take j nm" and "j \<le> length nm" for x j s
  proof -
    have "last s = nm ! (j - Suc 0)" if "0 < j"
      using that \<open>s = take j nm\<close> \<open>j \<le> length nm\<close> by (subst last_conv_nth) (auto simp: min_def)
    then show ?thesis
      using that by (auto simp: direction_rejects_def char_at_def dir_in_bit split: if_splits)
  qed
  show ?thesis
  proof (cases "strrchr nm (CHR ''-'')")
    case None
    then show ?thesis
      using assms True dir [of "length nm" r nm] name_parts(1) [OF None]
      by (auto simp: name_rejects_def carries carries_type_def carries_direction_def direction_rejects_def)
  next
    case (Some j)
    have j: "j < length nm" using strrchr_split(1) [OF Some] by simp
    have one: "take (Suc 0) (drop (Suc j) nm) = [x] \<longleftrightarrow> c = x" if "char_at nm (Suc j) = Some c" "x \<noteq> CHR 0x00" for c x
      using char_at_eq [OF that] .
    have two: "take (Suc 0) (drop (Suc 0) (drop (Suc j) nm)) = [x] \<longleftrightarrow> c = x" if "char_at nm (Suc (Suc j)) = Some c" "x \<noteq> CHR 0x00" for c x
      using char_at_eq [OF that] by simp
    obtain rt where rt: "suffix_rejects cfg g nm j (xfer_type d) = Some rt"
        and r: "if rt then r else direction_rejects nm j d = Some r"
      using assms True Some by (auto simp: name_rejects_def split: if_splits)
    have "rt \<longleftrightarrow> \<not> carries_type (gadget_is_pxa cfg g) nm (xfer_type d)"
      using rt name_parts(2) [OF Some]
      by (auto simp: suffix_rejects_def carries_type_def one two simp del: drop_drop split: if_splits)
    moreover have "r \<longleftrightarrow> \<not> carries_direction nm (bit (bEndpointAddress d) 7)" if "\<not> rt"
      using r that dir [of j r "take j nm"] j name_parts(2) [OF Some]
      by (auto simp: carries_direction_def direction_rejects_def)
    ultimately show ?thesis using r by (auto simp: carries split: if_splits)
  qed
qed

lemma xfer_type_values: "xfer_type d \<in> {XFER_CONTROL, XFER_ISOC, XFER_BULK, XFER_INT}"
proof -
  have "unat (xfer_type d) \<le> unat (3::u8)" unfolding xfer_type_def by (rule unat_and_mask_less)
  then have "unat (xfer_type d) \<in> {0, 1, 2, 3}" by auto
  then show ?thesis by (auto simp: unat_eq_zero dest!: arg_cong [of _ _ "of_nat :: nat \<Rightarrow> u8"])
qed

lemma same_request_xfer: "same_request d d' \<Longrightarrow> xfer_type d' = xfer_type d"
  by (simp add: same_request_def xfer_type_def)

lemma same_request_refl [simp]: "same_request d d"
  by (simp add: same_request_def)

lemma same_request_trans: "same_request d d' \<Longrightarrow> same_request d' d'' \<Longrightarrow> same_request d d''"
  by (auto simp: same_request_def)

lemma epnum_inc [simp]: "n < 15 \<Longrightarrow> \<not> 15 < n + (1::u32)"
  by (metis inc_le not_less)

lemma ep_matches_False:
  assumes "ep_matches cfg g ep (d, n) = Some (False, (d', n'))"
  shows "same_request d d' \<and> (n < 15 \<longrightarrow> n' = n) \<and> (n < 15 \<and> wMaxPacketSize d \<noteq> 0 \<longrightarrow> d' = d)"
  using assms
  by (auto simp: ep_matches_def same_request_def Let_def and.assoc split: if_splits)

lemma size_ok:
  assumes "\<not> size_rejects g ep d" and "xfer_type d \<noteq> XFER_CONTROL" and "xfer_type d \<noteq> XFER_BULK"
  shows "0x7ff AND wMaxPacketSize d \<le> maxpacket ep \<and> (is_dualspeed g \<or> full_speed_ok d)"
proof -
  have "xfer_type d = XFER_INT \<or> xfer_type d = XFER_ISOC" using assms xfer_type_values [of d] by auto
  then show ?thesis
    using assms(1) by (auto simp: size_rejects_def Let_def not_less full_speed_ok_def high_bandwidth_bits [simplified])
qed

lemma ep_matches_True:
  assumes "ep_matches cfg g ep (d, n) = Some (True, (d', n'))"
  shows "ep_fits cfg g d n ep d' n'"
proof -
  define d1 where "d1 = (if wMaxPacketSize d = 0 then d\<lparr>wMaxPacketSize := maxpacket ep\<rparr> else d)"
  have d1: "xfer_type d1 = xfer_type d" "bmAttributes d1 = bmAttributes d"
      "bEndpointAddress d1 = bEndpointAddress d" "wMaxPacketSize d \<noteq> 0 \<longrightarrow> wMaxPacketSize d1 = wMaxPacketSize d"
    by (simp_all add: d1_def xfer_type_def)
  obtain c where free: "\<not> driver_data ep" "xfer_type d \<noteq> XFER_CONTROL" "\<not> size_rejects g ep d1"
      and nm: "name_rejects cfg g (ep_name ep) d = Some False" and c: "char_at (ep_name ep) 2 = Some c"
      and r: "(if isdigit c then n' = n \<and> d' = report_bulk ep (d1\<lparr>bEndpointAddress := (bEndpointAddress d1 AND USB_DIR_IN)
                OR of_nat (simple_strtoul (drop 2 (ep_name ep)))\<rparr>)
               else n' = n + 1 \<and> \<not> 15 < n + 1 \<and> d' = report_bulk ep (d1\<lparr>bEndpointAddress := (bEndpointAddress d1 AND USB_DIR_IN)
                OR ucast (n + 1)\<rparr>))"
    using assms unfolding ep_matches_def prod.case Let_def d1_def [symmetric] by (auto split: if_splits)
  have x: "xfer_type (d1\<lparr>bEndpointAddress := a\<rparr>) = xfer_type d"
      "full_speed_ok (d1\<lparr>bEndpointAddress := a\<rparr>) = full_speed_ok d1" for a
    using d1 by (simp_all add: xfer_type_def full_speed_ok_def)
  have "name_carries (gadget_is_pxa cfg g) (ep_name ep) d" using name_rejects_spec [OF nm] by simp
  then show ?thesis
    unfolding ep_fits_def using free c r d1 size_ok [OF free(3)]
    by (auto simp: report_bulk_def x min_def not_less split: if_splits)
qed

section \<open>The whole search\<close>

lemma try_eps_sound:
  assumes "try_eps cfg g is (d, n) = Some (r, (d', n'))"
    and "\<And>i. Some i \<in> set is \<Longrightarrow> i < length (ep_list g)"
  shows "case r of
           None \<Rightarrow> same_request d d' \<and> (n < 15 \<longrightarrow> n' = n) \<and>
             (n < 15 \<and> wMaxPacketSize d \<noteq> 0 \<longrightarrow> d' = d \<and>
                (\<forall>i. Some i \<in> set is \<longrightarrow> ep_matches cfg g (ep_list g ! i) (d, n) = Some (False, (d, n))))
         | Some i \<Rightarrow> i < length (ep_list g) \<and> (\<exists>d0 n0. same_request d d0 \<and> (n < 15 \<longrightarrow> n0 = n) \<and>
             ep_matches cfg g (ep_list g ! i) (d0, n0) = Some (True, (d', n')))"
  using assms
proof (induction "is" arbitrary: d n)
  case (Cons o' "is")
  show ?case
  proof (cases o')
    case None
    with Cons show ?thesis by (auto split: option.splits)
  next
    case (Some i)
    obtain ok d1 n1 where m: "ep_matches cfg g (ep_list g ! i) (d, n) = Some (ok, (d1, n1))"
      using Cons.prems(1) Some by auto
    show ?thesis
    proof (cases ok)
      case True
      with m Cons.prems Some show ?thesis by (auto intro!: exI [of _ d] exI [of _ n])
    next
      case False
      have step: "try_eps cfg g is (d1, n1) = Some (r, (d', n'))"
        using Cons.prems(1) m Some False by simp
      have first: "same_request d d1" "n < 15 \<longrightarrow> n1 = n" "n < 15 \<and> wMaxPacketSize d \<noteq> 0 \<longrightarrow> d1 = d"
        using ep_matches_False [of cfg g "ep_list g ! i" d n d1 n1] m False by simp_all
      show ?thesis
        using Cons.IH [OF step] Cons.prems(2) first m Some False
        by (cases r) (auto intro: same_request_trans)
    qed
  qed
qed auto

lemma find_ep_from_bound: "find_ep_from eps k nm = Some i \<Longrightarrow> k \<le> i \<and> i < k + length eps"
  by (induction eps arbitrary: k) (fastforce split: if_splits)+

lemma find_ep_bound: "Some i = find_ep g nm \<Longrightarrow> i < length (ep_list g)"
  using find_ep_from_bound [of "ep_list g" 0 nm i] by (simp add: find_ep_def)

lemma preferred_bound: "Some i \<in> set (preferred cfg g d) \<Longrightarrow> i < length (ep_list g)"
  by (auto simp: preferred_def Let_def split: if_splits dest: find_ep_bound)

lemma try_preferred_sound:
  assumes "try_eps cfg g (preferred cfg g d) (d, n) = Some (r, (d', n'))"
  shows "case r of
           None \<Rightarrow> same_request d d' \<and> (n < 15 \<longrightarrow> n' = n) \<and> (n < 15 \<and> wMaxPacketSize d \<noteq> 0 \<longrightarrow> d' = d)
         | Some i \<Rightarrow> i < length (ep_list g) \<and> (\<exists>d0 n0. same_request d d0 \<and> (n < 15 \<longrightarrow> n0 = n) \<and>
             ep_matches cfg g (ep_list g ! i) (d0, n0) = Some (True, (d', n')))"
  using try_eps_sound [OF assms] preferred_bound [of _ cfg g d] by (cases r) simp_all

lemma try_all_sound:
  assumes "try_eps cfg g (map Some [0..<length (ep_list g)]) (d, n) = Some (r, (d', n'))"
  shows "case r of
           None \<Rightarrow> n < 15 \<and> wMaxPacketSize d \<noteq> 0 \<longrightarrow> n' = n \<and> d' = d \<and>
             (\<forall>i<length (ep_list g). ep_matches cfg g (ep_list g ! i) (d, n) = Some (False, (d, n)))
         | Some i \<Rightarrow> i < length (ep_list g) \<and> (\<exists>d0 n0. same_request d d0 \<and> (n < 15 \<longrightarrow> n0 = n) \<and>
             ep_matches cfg g (ep_list g ! i) (d0, n0) = Some (True, (d', n')))"
proof -
  have s: "Some i \<in> set (map Some [0..<length (ep_list g)]) \<longleftrightarrow> i < length (ep_list g)" for i by auto
  show ?thesis using try_eps_sound [OF assms] unfolding s by (cases r) simp_all
qed

lemma name_carries_request: "same_request d d0 \<Longrightarrow> name_carries pxa nm d0 = name_carries pxa nm d"
  using dir_in_bit [of "bEndpointAddress d"] dir_in_bit [of "bEndpointAddress d0"]
  by (auto simp: name_carries_def same_request_def xfer_type_def)

lemma ep_fits_request:
  assumes "ep_fits cfg g d0 n0 ep d' n'" and "same_request d d0" and "n < 15 \<longrightarrow> n0 = n"
  shows "ep_fits cfg g d n ep d' n'"
  using assms same_request_xfer [OF assms(2)] name_carries_request [OF assms(2)]
  by (auto simp: ep_fits_def same_request_def split: if_splits)

lemma usb_ep_autoconfig_found:
  assumes "usb_ep_autoconfig cfg g (d, n) = Some (Some i, (d', n'))"
  shows "i < length (ep_list g) \<and> ep_fits cfg g d n (ep_list g ! i) d' n'"
proof -
  obtain r d1 n1 where p: "try_eps cfg g (preferred cfg g d) (d, n) = Some (r, (d1, n1))"
    using assms by (auto simp: usb_ep_autoconfig_def)
  note pref = try_preferred_sound [OF p]
  show ?thesis
  proof (cases r)
    case (Some j)
    then have "j = i" "d1 = d'" "n1 = n'" using assms p by (auto simp: usb_ep_autoconfig_def)
    with pref Some obtain d0 n0 where "i < length (ep_list g)" "same_request d d0" "n < 15 \<longrightarrow> n0 = n"
        "ep_matches cfg g (ep_list g ! i) (d0, n0) = Some (True, (d', n'))" by auto
    then show ?thesis using ep_matches_True ep_fits_request by blast
  next
    case None
    then have "try_eps cfg g (map Some [0..<length (ep_list g)]) (d1, n1) = Some (Some i, (d', n'))"
      using assms p by (simp add: usb_ep_autoconfig_def)
    from try_all_sound [OF this] obtain d0 n0 where d0: "i < length (ep_list g)" "same_request d1 d0" "n1 < 15 \<longrightarrow> n0 = n1"
        and m: "ep_matches cfg g (ep_list g ! i) (d0, n0) = Some (True, (d', n'))" by auto
    moreover have "same_request d d1" "n < 15 \<longrightarrow> n1 = n" using pref None by simp_all
    ultimately have "same_request d d0" "n < 15 \<longrightarrow> n0 = n" using same_request_trans by blast+
    with ep_fits_request [OF ep_matches_True [OF m]] d0(1) show ?thesis by simp
  qed
qed

text \<open>
  C10: A successful search returns an endpoint of the gadget that nobody has claimed and that fits
  the request: the name's own restrictions allow the transfer type and the direction that were asked
  for (bulk only on a name with a bulk suffix or none, isochronous only on an iso suffix or none,
  interrupt never on an iso suffix and, on PXA25x, never on a suffix with \<^verbatim>\<open>i\<close>; the letter before the
  suffix is the \<^verbatim>\<open>n\<close> of \<^verbatim>\<open>in\<close> or the \<^verbatim>\<open>t\<close> of \<^verbatim>\<open>out\<close> as asked, or a digit; a name \<^verbatim>\<open>ep-..\<close> is free of
  restrictions). The descriptor keeps type and direction and is given the endpoint's own number or
  the next free one up to 15. Its packet size is one the endpoint can handle: for bulk the
  endpoint's size up to 64, for periodic transfers within the endpoint's maximum and, on a gadget
  without high speed, within the full speed limits of 64 and 1023 bytes with no high bandwidth bits.
\<close>

theorem usb_ep_autoconfig_sound:
  assumes "usb_ep_autoconfig cfg g (d, n) = Some (Some i, (d', n'))"
  shows "i < length (ep_list g) \<and> ep_fits cfg g d n (ep_list g ! i) d' n'"
  by (rule usb_ep_autoconfig_found [OF assms])

text \<open>A controller with a bulk-in endpoint and two endpoints whose number is free.\<close>

definition demo_gadget :: usb_gadget where
  "demo_gadget = \<lparr>g_name = ''net2280'', is_dualspeed = False,
     ep_list = [\<lparr>ep_name = ''ep1in-bulk'', maxpacket = 512, driver_data = True\<rparr>,
                \<lparr>ep_name = ''ep-a'', maxpacket = 512, driver_data = False\<rparr>,
                \<lparr>ep_name = ''ep-b'', maxpacket = 64, driver_data = False\<rparr>]\<rparr>"

definition demo_bulk_in :: usb_endpoint_descriptor where
  "demo_bulk_in = \<lparr>bEndpointAddress = 0x80, bmAttributes = 2, wMaxPacketSize = 64\<rparr>"

text \<open>A full-speed controller with fixed endpoints: claimed, in the wrong direction, of the wrong type, and one that fits.\<close>

definition named_gadget :: usb_gadget where
  "named_gadget = \<lparr>g_name = ''goku_udc'', is_dualspeed = False,
     ep_list = [\<lparr>ep_name = ''ep1in-bulk'', maxpacket = 512, driver_data = True\<rparr>,
                \<lparr>ep_name = ''ep2out-bulk'', maxpacket = 512, driver_data = False\<rparr>,
                \<lparr>ep_name = ''ep3in-iso'', maxpacket = 512, driver_data = False\<rparr>,
                \<lparr>ep_name = ''ep4in-bulk'', maxpacket = 512, driver_data = False\<rparr>]\<rparr>"

theorem usb_ep_autoconfig_sound_witness:
  "usb_ep_autoconfig (\<lambda>_. True) named_gadget (demo_bulk_in, 0) =
     Some (Some 3, (\<lparr>bEndpointAddress = 0x84, bmAttributes = 2, wMaxPacketSize = 64\<rparr>, 0)) \<and>
   ep_fits (\<lambda>_. True) named_gadget demo_bulk_in 0 (ep_list named_gadget ! 3)
     \<lparr>bEndpointAddress = 0x84, bmAttributes = 2, wMaxPacketSize = 64\<rparr> 0"
proof -
  have run: "usb_ep_autoconfig (\<lambda>_. True) named_gadget (demo_bulk_in, 0) =
     Some (Some 3, (\<lparr>bEndpointAddress = 0x84, bmAttributes = 2, wMaxPacketSize = 64\<rparr>, 0))"
    by code_simp
  with usb_ep_autoconfig_sound [OF run] show ?thesis by blast
qed

text \<open>C24: A search that asks for a definite packet size, while addresses are left, fails only if no
  endpoint of the gadget matches, and then changes neither the descriptor nor the counter.
\<close>

theorem usb_ep_autoconfig_complete:
  assumes "usb_ep_autoconfig cfg g (d, n) = Some (None, (d', n'))"
    and "n < 15" and "wMaxPacketSize d \<noteq> 0"
  shows "d' = d \<and> n' = n \<and> (\<forall>i<length (ep_list g). ep_matches cfg g (ep_list g ! i) (d, n) = Some (False, (d, n)))"
proof -
  obtain d1 n1 where p: "try_eps cfg g (preferred cfg g d) (d, n) = Some (None, (d1, n1))"
      and l: "try_eps cfg g (map Some [0..<length (ep_list g)]) (d1, n1) = Some (None, (d', n'))"
    using assms(1) by (auto simp: usb_ep_autoconfig_def split: option.splits)
  have "d1 = d" "n1 = n" using try_preferred_sound [OF p] assms(2,3) by simp_all
  with try_all_sound [OF l] assms(2,3) show ?thesis by simp
qed

theorem usb_ep_autoconfig_complete_witness:
  "usb_ep_autoconfig (\<lambda>_. False) demo_gadget
     (\<lparr>bEndpointAddress = 0x80, bmAttributes = 3, wMaxPacketSize = 128\<rparr>, 3) =
     Some (None, (\<lparr>bEndpointAddress = 0x80, bmAttributes = 3, wMaxPacketSize = 128\<rparr>, 3)) \<and>
   ep_matches (\<lambda>_. False) demo_gadget (ep_list demo_gadget ! 2)
     (\<lparr>bEndpointAddress = 0x80, bmAttributes = 3, wMaxPacketSize = 128\<rparr>, 3) =
     Some (False, (\<lparr>bEndpointAddress = 0x80, bmAttributes = 3, wMaxPacketSize = 128\<rparr>, 3))"
proof -
  let ?d = "\<lparr>bEndpointAddress = 0x80, bmAttributes = 3, wMaxPacketSize = 128\<rparr>"
  have run: "usb_ep_autoconfig (\<lambda>_. False) demo_gadget (?d, 3) = Some (None, (?d, 3))"
    by code_simp
  moreover have "2 < length (ep_list demo_gadget)" by (simp add: demo_gadget_def)
  ultimately show ?thesis using usb_ep_autoconfig_complete [OF run] by simp
qed

text \<open>
  When the packet size is left open, a failing search may change the descriptor, and an
  endpoint that does match is missed: the packet size of the first candidate is stored before the
  candidate is rejected for it. The comment on the function says that the descriptor is modified on
  success.
\<close>

theorem usb_ep_autoconfig_open_size_miss:
  "let g = \<lparr>g_name = ''x'', is_dualspeed = False,
            ep_list = [\<lparr>ep_name = ''ep1'', maxpacket = 512, driver_data = False\<rparr>,
                       \<lparr>ep_name = ''ep2'', maxpacket = 64, driver_data = False\<rparr>]\<rparr>;
       d = \<lparr>bEndpointAddress = 0x80, bmAttributes = 3, wMaxPacketSize = 0\<rparr>
   in usb_ep_autoconfig (\<lambda>_. False) g (d, 0) = Some (None, (d\<lparr>wMaxPacketSize := 512\<rparr>, 0)) \<and>
      ep_matches (\<lambda>_. False) g (ep_list g ! 1) (d, 0) =
        Some (True, (\<lparr>bEndpointAddress = 0x82, bmAttributes = 3, wMaxPacketSize = 64\<rparr>, 0))"
  by code_simp

section \<open>Endpoint names\<close>

text \<open>Names long enough for the characters the search looks at.\<close>

definition ep_name_ok :: "string \<Rightarrow> bool" where
  "ep_name_ok nm \<longleftrightarrow> 2 \<le> length nm \<and>
     (case strrchr nm (CHR ''-'') of Some j \<Rightarrow> 0 < j \<and> j + 2 \<le> length nm | None \<Rightarrow> True)"

lemma char_at_Some: "i \<le> length s \<Longrightarrow> \<exists>c. char_at s i = Some c"
  by (auto simp: char_at_def)

lemma direction_rejects_total:
  assumes "0 < j" and "j \<le> length nm"
  shows "\<exists>r. direction_rejects nm j d = Some r"
proof -
  obtain c where "char_at nm (j - 1) = Some c" using char_at_Some [of "j - 1" nm] assms by fastforce
  then show ?thesis using assms by (simp add: direction_rejects_def)
qed

lemma suffix_rejects_total:
  assumes "j + 2 \<le> length nm"
  shows "\<exists>r. suffix_rejects cfg g nm j ty = Some r"
proof -
  obtain c1 c2 where "char_at nm (j + 1) = Some c1" "char_at nm (j + 2) = Some c2"
    using char_at_Some [of "j + 1" nm] char_at_Some [of "j + 2" nm] assms by auto
  then show ?thesis by (simp add: suffix_rejects_def)
qed

lemma name_rejects_total:
  assumes "ep_name_ok nm"
  shows "\<exists>r. name_rejects cfg g nm d = Some r"
proof -
  obtain c0 c2 where c: "char_at nm 0 = Some c0" "char_at nm 2 = Some c2"
    using assms char_at_Some [of 0 nm] char_at_Some [of 2 nm] unfolding ep_name_ok_def by blast
  show ?thesis
  proof (cases "strrchr nm (CHR ''-'')")
    case None
    obtain r where "direction_rejects nm (length nm) d = Some r"
      using direction_rejects_total [of "length nm" nm d] assms by (fastforce simp: ep_name_ok_def)
    with c None show ?thesis by (simp add: name_rejects_def)
  next
    case (Some j)
    with assms have j: "0 < j" "j + 2 \<le> length nm" by (auto simp: ep_name_ok_def)
    obtain r1 where "suffix_rejects cfg g nm j (xfer_type d) = Some r1"
      using suffix_rejects_total [OF j(2)] by blast
    moreover obtain r2 where "direction_rejects nm j d = Some r2"
      using direction_rejects_total [of j nm d] j by auto
    ultimately show ?thesis using c Some by (simp add: name_rejects_def)
  qed
qed

lemma ep_matches_total:
  assumes "ep_name_ok (ep_name ep)"
  shows "\<exists>r. ep_matches cfg g ep (d, n) = Some r"
proof -
  obtain rej where "name_rejects cfg g (ep_name ep) d = Some rej"
    using name_rejects_total [OF assms] by blast
  moreover obtain c where "char_at (ep_name ep) 2 = Some c"
    using assms char_at_Some [of 2 "ep_name ep"] unfolding ep_name_ok_def by blast
  ultimately show ?thesis by (simp add: ep_matches_def Let_def)
qed

lemma try_eps_total:
  assumes "\<And>i. Some i \<in> set is \<Longrightarrow> ep_name_ok (ep_name (ep_list g ! i))"
  shows "\<exists>r. try_eps cfg g is (d, n) = Some r"
  using assms
proof (induction "is" arbitrary: d n)
  case (Cons o' "is")
  show ?case
  proof (cases o')
    case (Some i)
    then obtain ok d' n' where "ep_matches cfg g (ep_list g ! i) (d, n) = Some (ok, (d', n'))"
      using ep_matches_total [OF Cons.prems [of i], of cfg g d n] by auto
    with Some Cons show ?thesis by simp
  qed (use Cons in simp)
qed simp

text \<open>
  On endpoints whose names follow the naming convention the search never reads outside a name,
  whatever the descriptor, and ends with an endpoint or a failure.
\<close>

theorem usb_ep_autoconfig_total:
  assumes "\<And>ep. ep \<in> set (ep_list g) \<Longrightarrow> ep_name_ok (ep_name ep)"
  shows "\<exists>r d' n'. usb_ep_autoconfig cfg g (d, n) = Some (r, (d', n'))"
proof -
  have ok: "ep_name_ok (ep_name (ep_list g ! i))" if "i < length (ep_list g)" for i
    using assms that by simp
  obtain r1 d1 n1 where p: "try_eps cfg g (preferred cfg g d) (d, n) = Some (r1, (d1, n1))"
    using try_eps_total [of "preferred cfg g d" g cfg d n] ok preferred_bound by (metis prod_cases3)
  moreover obtain r2 where "try_eps cfg g (map Some [0..<length (ep_list g)]) (d1, n1) = Some r2"
    using try_eps_total [of "map Some [0..<length (ep_list g)]" g cfg d1 n1] ok by fastforce
  ultimately show ?thesis
    by (cases r1; cases r2) (auto simp: usb_ep_autoconfig_def)
qed

theorem usb_ep_autoconfig_total_witness:
  "\<exists>r d' n'. usb_ep_autoconfig (\<lambda>_. True) demo_gadget (demo_bulk_in, 7) = Some (r, (d', n'))"
  by (rule usb_ep_autoconfig_total) (auto simp: demo_gadget_def ep_name_ok_def)

text \<open>
  Resetting the search makes every endpoint available again and restarts the numbering, so that
  the first endpoint without a number of its own gets the number 1.
\<close>

theorem usb_ep_autoconfig_reset_spec:
  assumes "usb_ep_autoconfig_reset g = (g', n)" and "usb_ep_autoconfig cfg g' (d, n) = Some (Some i, (d', n'))"
    and "char_at (ep_name (ep_list g ! i)) 2 = Some c" and "\<not> isdigit c"
  shows "bEndpointAddress d' = (bEndpointAddress d AND USB_DIR_IN) OR 1 \<and> list_all (\<lambda>ep. \<not> driver_data ep) (ep_list g')"
proof -
  have g': "ep_list g' = map (\<lambda>ep. ep\<lparr>driver_data := False\<rparr>) (ep_list g)" and n: "n = 0"
    using assms(1) by (auto simp: usb_ep_autoconfig_reset_def)
  have "i < length (ep_list g')" and fits: "ep_fits cfg g' d n (ep_list g' ! i) d' n'"
    using usb_ep_autoconfig_found [OF assms(2)] by simp_all
  then have "char_at (ep_name (ep_list g' ! i)) 2 = Some c" using assms(3) g' by simp
  with fits assms(4) n show ?thesis by (auto simp: ep_fits_def g' list_all_iff)
qed

theorem usb_ep_autoconfig_reset_spec_witness:
  "bEndpointAddress (fst (snd (the (usb_ep_autoconfig (\<lambda>_. False)
      (fst (usb_ep_autoconfig_reset (demo_gadget\<lparr>ep_list := drop 1 (ep_list demo_gadget)\<rparr>))) (demo_bulk_in, 0))))) = 0x81"
proof -
  let ?g = "demo_gadget\<lparr>ep_list := drop 1 (ep_list demo_gadget)\<rparr>"
  have r: "usb_ep_autoconfig_reset ?g = (fst (usb_ep_autoconfig_reset ?g), 0)"
    by (simp add: usb_ep_autoconfig_reset_def)
  have run: "usb_ep_autoconfig (\<lambda>_. False) (fst (usb_ep_autoconfig_reset ?g)) (demo_bulk_in, 0) =
      Some (Some 0, (\<lparr>bEndpointAddress = 0x81, bmAttributes = 2, wMaxPacketSize = 64\<rparr>, 1))"
    by code_simp
  have "char_at (ep_name (ep_list ?g ! 0)) 2 = Some (CHR ''-'')" "\<not> isdigit (CHR ''-'')"
    by code_simp+
  with usb_ep_autoconfig_reset_spec [OF r run] run show ?thesis by (simp add: demo_bulk_in_def)
qed

end
