(* ===== verification/Composite.thy ===== *)
theory Composite
  imports UsbString UsbConfig EpAutoconf
begin

text \<open>
  The composite gadget framework, \<^verbatim>\<open>test_gadget/composite.c\<close>: configurations made of functions,
  allocation of interface and string identifiers, descriptors, selection of a configuration, and
  the dispatch of control requests. Functions and configurations are numbered objects in two
  stores, so that the pointers between them (a function's configuration, the interface table, the
  list of functions) are numbers. Calls that leave the file (callbacks of function drivers, of the
  gadget driver and of the controller) go through \<open>ext\<close>, which gives their result from the call
  and the calls before it, and are recorded in \<open>calls\<close>. \<open>None\<close> is a null-pointer or out-of-range
  access. Locks have no counterpart: an operation runs to its end.
\<close>

section \<open>State\<close>

datatype usb_speed = SPEED_UNKNOWN | SPEED_LOW | SPEED_FULL | SPEED_HIGH

record usb_function =
  f_strings :: "usb_gadget_strings list option"
  f_descriptors :: "bytes list option"
  f_hs_descriptors :: "bytes list option"
  f_config :: "nat option"
  f_endpoints :: u32
  f_has_bind :: bool
  f_has_unbind :: bool
  f_has_set_alt :: bool
  f_has_get_alt :: bool
  f_has_disable :: bool
  f_has_setup :: bool
  f_has_suspend :: bool
  f_has_resume :: bool

record usb_configuration =
  c_value :: u8
  c_iConfiguration :: u8
  c_bmAttributes :: u8
  c_bMaxPower :: u8
  c_descriptors :: "bytes list option"
  c_strings :: "usb_gadget_strings list option"
  c_functions :: "nat list"
  c_interface :: "nat option list"
  c_next_interface_id :: u8
  c_attached :: bool
  c_fullspeed :: bool
  c_highspeed :: bool
  c_has_unbind :: bool
  c_has_setup :: bool

record usb_device_descriptor =
  d_bcdUSB :: u16
  d_class :: u8
  d_subclass :: u8
  d_protocol :: u8
  d_maxpacket0 :: u8
  d_idVendor :: u16
  d_idProduct :: u16
  d_bcdDevice :: u16
  d_iManufacturer :: u8
  d_iProduct :: u8
  d_iSerialNumber :: u8
  d_numConfigurations :: u8

record usb_ctrlrequest =
  bRequestType :: u8
  bRequest :: u8
  wValue :: u16
  wIndex :: u16
  wLength :: u16

datatype call =
    FDisable nat | FSetAlt nat nat nat | FGetAlt nat nat | FSetup nat usb_ctrlrequest
  | FUnbind nat nat | FSuspend nat | FResume nat
  | CUnbind nat | CSetup nat usb_ctrlrequest
  | DrvDisconnect | DrvUnbind | DrvSuspend | DrvResume
  | GadgetConnect | GadgetDisconnect | VbusDraw nat | SetSelfpowered
  | EpQueue bytes bool

record usb_composite_dev =
  funcs :: "nat \<Rightarrow> usb_function"
  confs :: "nat \<Rightarrow> usb_configuration"
  configs :: "nat list"
  cur_config :: "nat option"
  gadget :: usb_gadget
  epnum :: u32
  gspeed :: usb_speed
  next_string_id :: u8
  deactivations :: u32
  delayed_status :: int
  is_suspended :: bool
  desc :: usb_device_descriptor
  req_buf :: bytes
  req_length :: int
  req_zero :: bool
  manufacturer_override :: u8
  product_override :: u8
  serial_override :: u8
  composite_manufacturer :: bytes
  calls :: "call list"

text \<open>
  The driver of the gadget, the module parameters, and the environment. \<^verbatim>\<open>MAX_CONFIG_INTERFACES\<close>,
  \<^verbatim>\<open>USB_GADGET_DELAYED_STATUS\<close> and \<^verbatim>\<open>CONFIG_USB_GADGET_VBUS_DRAW\<close> are defined outside the file, and so
  are the controller's properties \<^verbatim>\<open>gadget_is_dualspeed\<close> and \<^verbatim>\<open>gadget_is_otg\<close>. The \<^verbatim>\<open>bind\<close> callbacks
  change the device through the operations of this file, so they are state transformers.
\<close>

record usb_composite_driver =
  drv_dev :: usb_device_descriptor
  drv_strings :: "usb_gadget_strings list option"
  drv_iManufacturer :: "bytes option"
  drv_iProduct :: "bytes option"
  drv_has_unbind :: bool
  drv_has_disconnect :: bool
  drv_has_suspend :: bool
  drv_has_resume :: bool

record comp_params =
  p_idVendor :: u16
  p_idProduct :: u16
  p_bcdDevice :: u16
  p_iManufacturer :: "bytes option"
  p_iProduct :: "bytes option"
  p_iSerialNumber :: "bytes option"

record comp_env =
  ext :: "call \<Rightarrow> call list \<Rightarrow> int"
  fbind :: "nat \<Rightarrow> nat \<Rightarrow> usb_composite_dev \<Rightarrow> int \<times> usb_composite_dev"
  cbind :: "nat \<Rightarrow> usb_composite_dev \<Rightarrow> int \<times> usb_composite_dev"
  composite :: usb_composite_driver
  params :: comp_params
  MAX_CONFIG_INTERFACES :: nat
  DELAYED_STATUS :: int
  VBUS_DRAW :: nat
  is_dual :: bool
  is_otg :: bool

definition do_ext :: "comp_env \<Rightarrow> call \<Rightarrow> usb_composite_dev \<Rightarrow> int \<times> usb_composite_dev" where
  "do_ext e c s = (ext e c (calls s), s\<lparr>calls := calls s @ [c]\<rparr>)"

definition upd_func :: "nat \<Rightarrow> (usb_function \<Rightarrow> usb_function) \<Rightarrow> usb_composite_dev \<Rightarrow> usb_composite_dev" where
  "upd_func f u s = s\<lparr>funcs := (funcs s)(f := u (funcs s f))\<rparr>"

definition upd_conf :: "nat \<Rightarrow> (usb_configuration \<Rightarrow> usb_configuration) \<Rightarrow> usb_composite_dev \<Rightarrow> usb_composite_dev" where
  "upd_conf c u s = s\<lparr>confs := (confs s)(c := u (confs s c))\<rparr>"

section \<open>Functions and interfaces\<close>

definition usb_add_function :: "comp_env \<Rightarrow> nat \<Rightarrow> nat \<Rightarrow> usb_composite_dev \<Rightarrow> int \<times> usb_composite_dev" where
  "usb_add_function e c f s =
     (if \<not> f_has_set_alt (funcs s f) \<or> \<not> f_has_disable (funcs s f) then (- EINVAL, s)
      else
        let s1 = upd_conf c (\<lambda>cc. cc\<lparr>c_functions := c_functions cc @ [f]\<rparr>)
                   (upd_func f (\<lambda>ff. ff\<lparr>f_config := Some c\<rparr>) s);
            (value, s2) =
              (if f_has_bind (funcs s1 f) then
                 let (v, s') = fbind e c f s1
                 in if v < 0
                    then (v, upd_func f (\<lambda>ff. ff\<lparr>f_config := None\<rparr>)
                               (upd_conf c (\<lambda>cc. cc\<lparr>c_functions := remove1 f (c_functions cc)\<rparr>) s'))
                    else (v, s')
               else (0, s1));
            s3 = upd_conf c (\<lambda>cc. cc\<lparr>c_fullspeed := c_fullspeed cc \<or> f_descriptors (funcs s2 f) \<noteq> None,
                                     c_highspeed := c_highspeed cc \<or> f_hs_descriptors (funcs s2 f) \<noteq> None\<rparr>) s2
        in (value, s3))"

text \<open>The device of a function; a function that is not part of an attached configuration has none.\<close>

definition func_attached :: "usb_composite_dev \<Rightarrow> nat \<Rightarrow> bool" where
  "func_attached s f = (case f_config (funcs s f) of None \<Rightarrow> False | Some c \<Rightarrow> c_attached (confs s c))"

definition usb_function_deactivate :: "comp_env \<Rightarrow> nat \<Rightarrow> usb_composite_dev \<Rightarrow> (int \<times> usb_composite_dev) option" where
  "usb_function_deactivate e f s =
     (if \<not> func_attached s f then None
      else
        let (status, s1) = (if deactivations s = 0 then do_ext e GadgetDisconnect s else (0, s))
        in Some (status, if status = 0 then s1\<lparr>deactivations := deactivations s1 + 1\<rparr> else s1))"

definition usb_function_activate :: "comp_env \<Rightarrow> nat \<Rightarrow> usb_composite_dev \<Rightarrow> (int \<times> usb_composite_dev) option" where
  "usb_function_activate e f s =
     (if \<not> func_attached s f then None
      else if deactivations s = 0 then Some (- EINVAL, s)
      else
        let s1 = s\<lparr>deactivations := deactivations s - 1\<rparr>
        in Some (if deactivations s1 = 0 then do_ext e GadgetConnect s1 else (0, s1)))"

definition usb_interface_id :: "comp_env \<Rightarrow> nat \<Rightarrow> nat \<Rightarrow> usb_composite_dev \<Rightarrow> int \<times> usb_composite_dev" where
  "usb_interface_id e c f s =
     (let id = c_next_interface_id (confs s c)
      in if unat id < MAX_CONFIG_INTERFACES e
         then (uint id, upd_conf c (\<lambda>cc. cc\<lparr>c_interface := (c_interface cc)[unat id := Some f],
                                            c_next_interface_id := id + 1\<rparr>) s)
         else (- ENODEV, s))"

section \<open>Descriptors\<close>

definition descriptors_at :: "usb_speed \<Rightarrow> usb_function \<Rightarrow> bytes list option" where
  "descriptors_at sp f = (if sp = SPEED_HIGH then f_hs_descriptors f else f_descriptors f)"

text \<open>The loop over the functions: fill from offset \<open>next\<close> while \<open>len\<close> bytes are left.\<close>

fun fill_functions :: "usb_speed \<Rightarrow> usb_function list \<Rightarrow> bytes \<Rightarrow> nat \<Rightarrow> int \<Rightarrow> ((int + nat) \<times> bytes) option" where
  "fill_functions sp [] mem next len = Some (Inr next, mem)"
| "fill_functions sp (f # fs) mem next len =
     (case descriptors_at sp f of
        None \<Rightarrow> fill_functions sp fs mem next len
      | Some ds \<Rightarrow>
          Option.bind (usb_descriptor_fillbuf mem next (word_of_int len) (Some ds)) (\<lambda>(status, mem').
            if status < 0 then Some (Inl status, mem')
            else fill_functions sp fs mem' (next + nat status) (len - status)))"

abbreviation (input) USB_BUFSIZ :: nat where "USB_BUFSIZ \<equiv> 1024"

definition config_buf :: "comp_env \<Rightarrow> usb_composite_dev \<Rightarrow> nat \<Rightarrow> usb_speed \<Rightarrow> u8 \<Rightarrow> (int \<times> bytes) option" where
  "config_buf e s c sp type =
     (let cc = confs s c in
      Option.bind (mem_write (req_buf s) 0 [9, type]) (\<lambda>m1.
      Option.bind (mem_write m1 4 [c_next_interface_id cc, c_value cc, c_iConfiguration cc,
                     0x80 OR c_bmAttributes cc,
                     if c_bMaxPower cc \<noteq> 0 then c_bMaxPower cc else of_nat (VBUS_DRAW e div 2)]) (\<lambda>m2.
      Option.bind
        (case c_descriptors cc of
           None \<Rightarrow> Some (Inr 9, m2)
         | Some ds \<Rightarrow> map_option (\<lambda>(st, m). (if st < 0 then Inl st else Inr (9 + nat st), m))
                        (usb_descriptor_fillbuf m2 9 (word_of_int (int USB_BUFSIZ - 9)) (Some ds)))
        (\<lambda>(r, m3). case r of
           Inl st \<Rightarrow> Some (st, m3)
         | Inr next \<Rightarrow>
             Option.bind (fill_functions sp (map (funcs s) (c_functions cc)) m3 next (int USB_BUFSIZ - int next))
               (\<lambda>(r', m4). case r' of
                  Inl st \<Rightarrow> Some (st, m4)
                | Inr len \<Rightarrow> map_option (Pair (int len)) (mem_write m4 2 (le16_bytes (of_nat len))))))))"

abbreviation (input) USB_DT_DEVICE :: u8 where "USB_DT_DEVICE \<equiv> 1"
abbreviation (input) USB_DT_DEVICE_QUALIFIER :: u8 where "USB_DT_DEVICE_QUALIFIER \<equiv> 6"
abbreviation (input) USB_DT_OTHER_SPEED_CONFIG :: u8 where "USB_DT_OTHER_SPEED_CONFIG \<equiv> 7"
abbreviation (input) USB_DT_ENDPOINT :: u8 where "USB_DT_ENDPOINT \<equiv> 5"

text \<open>Configurations that do not work at the speed asked for are skipped.\<close>

definition works_at :: "bool \<Rightarrow> usb_configuration \<Rightarrow> bool" where
  "works_at hs cc = (if hs then c_highspeed cc else c_fullspeed cc)"

fun nth_config :: "(nat \<Rightarrow> usb_configuration) \<Rightarrow> bool \<Rightarrow> nat list \<Rightarrow> nat \<Rightarrow> nat option" where
  "nth_config cf hs [] w = None"
| "nth_config cf hs (c # cs) w =
     (if \<not> works_at hs (cf c) then nth_config cf hs cs w
      else if w = 0 then Some c else nth_config cf hs cs (w - 1))"

definition config_desc :: "comp_env \<Rightarrow> u16 \<Rightarrow> usb_composite_dev \<Rightarrow> (int \<times> usb_composite_dev) option" where
  "config_desc e w_value s =
     (let type = ucast (drop_bit 8 w_value) :: u8;
          hs = (is_dual e \<and> ((gspeed s = SPEED_HIGH) \<noteq> (type = USB_DT_OTHER_SPEED_CONFIG)));
          sp = (if hs then SPEED_HIGH else SPEED_UNKNOWN)
      in case nth_config (confs s) hs (configs s) (unat (w_value AND 0xff)) of
           None \<Rightarrow> Some (- EINVAL, s)
         | Some c \<Rightarrow> map_option (\<lambda>(v, m). (v, s\<lparr>req_buf := m\<rparr>)) (config_buf e s c sp type))"

definition count_configs :: "comp_env \<Rightarrow> usb_composite_dev \<Rightarrow> u8 \<Rightarrow> nat" where
  "count_configs e s type =
     (let hs = (is_dual e \<and> ((gspeed s = SPEED_HIGH) \<noteq> (type = USB_DT_DEVICE_QUALIFIER)))
      in length (filter (\<lambda>c. works_at hs (confs s c)) (configs s)))"

definition device_qual :: "comp_env \<Rightarrow> usb_composite_dev \<Rightarrow> usb_composite_dev option" where
  "device_qual e s =
     (let d = desc s in
      map_option (\<lambda>m. s\<lparr>req_buf := m\<rparr>)
        (mem_write (req_buf s) 0
          ([10, USB_DT_DEVICE_QUALIFIER] @ le16_bytes (d_bcdUSB d) @
           [d_class d, d_subclass d, d_protocol d, d_maxpacket0 d,
            of_nat (count_configs e s USB_DT_DEVICE_QUALIFIER), 0])))"

definition device_bytes :: "usb_device_descriptor \<Rightarrow> bytes" where
  "device_bytes d =
     [18, USB_DT_DEVICE] @ le16_bytes (d_bcdUSB d) @ [d_class d, d_subclass d, d_protocol d, d_maxpacket0 d] @
     le16_bytes (d_idVendor d) @ le16_bytes (d_idProduct d) @ le16_bytes (d_bcdDevice d) @
     [d_iManufacturer d, d_iProduct d, d_iSerialNumber d, d_numConfigurations d]"

section \<open>Selecting a configuration\<close>

primrec disable_all :: "comp_env \<Rightarrow> nat list \<Rightarrow> usb_composite_dev \<Rightarrow> usb_composite_dev" where
  "disable_all e [] s = s"
| "disable_all e (f # fs) s =
     (let s1 = (if f_has_disable (funcs s f) then snd (do_ext e (FDisable f) s) else s)
      in disable_all e fs (upd_func f (\<lambda>ff. ff\<lparr>f_endpoints := 0\<rparr>) s1))"

definition reset_config :: "comp_env \<Rightarrow> usb_composite_dev \<Rightarrow> usb_composite_dev option" where
  "reset_config e s =
     (case cur_config s of
        None \<Rightarrow> None
      | Some c \<Rightarrow> Some ((disable_all e (c_functions (confs s c)) s)\<lparr>cur_config := None\<rparr>))"

definition ep_index :: "u8 \<Rightarrow> u8" where
  "ep_index addr = drop_bit 3 (addr AND 0x80) OR (addr AND 0x0f)"

text \<open>Record the endpoints of a list of descriptors in a bitmap; \<open>None\<close> for a truncated descriptor.\<close>

fun record_endpoints :: "bytes list \<Rightarrow> u32 \<Rightarrow> u32 option" where
  "record_endpoints [] eps = Some eps"
| "record_endpoints (d # ds) eps =
     (case d of
        bl # type # rest \<Rightarrow>
          if type \<noteq> USB_DT_ENDPOINT then record_endpoints ds eps
          else (case rest of
                  addr # _ \<Rightarrow> record_endpoints ds (eps OR push_bit (unat (ep_index addr)) 1)
                | [] \<Rightarrow> None)
      | _ \<Rightarrow> None)"

text \<open>
  The loop over the interface table from index \<open>tmp\<close>, with \<open>n\<close> entries left. It gives the result of
  the last \<^verbatim>\<open>set_alt\<close>, or the error that ended it.
\<close>

primrec init_interfaces ::
    "comp_env \<Rightarrow> nat \<Rightarrow> nat \<Rightarrow> nat \<Rightarrow> int \<Rightarrow> usb_composite_dev \<Rightarrow> (int \<times> usb_composite_dev) option" where
  "init_interfaces e 0 c tmp result s = Some (result, s)"
| "init_interfaces e (Suc n) c tmp result s =
     (if length (c_interface (confs s c)) \<le> tmp then None
      else case c_interface (confs s c) ! tmp of
        None \<Rightarrow> Some (result, s)
      | Some f \<Rightarrow>
          Option.bind (descriptors_at (gspeed s) (funcs s f)) (\<lambda>ds.
          Option.bind (record_endpoints ds (f_endpoints (funcs s f))) (\<lambda>eps.
          let s1 = upd_func f (\<lambda>ff. ff\<lparr>f_endpoints := eps\<rparr>) s;
              (r, s2) = do_ext e (FSetAlt f tmp 0) s1
          in if r < 0 then map_option (Pair r) (reset_config e s2)
             else init_interfaces e n c (Suc tmp) r
                    (if r = DELAYED_STATUS e then s2\<lparr>delayed_status := delayed_status s2 + 1\<rparr> else s2))))"

definition vbus_draw_done :: "comp_env \<Rightarrow> nat \<Rightarrow> int \<Rightarrow> usb_composite_dev \<Rightarrow> int \<times> usb_composite_dev" where
  "vbus_draw_done e pow result s =
     (let s' = snd (do_ext e (VbusDraw pow) s)
      in (if result \<ge> 0 \<and> delayed_status s' \<noteq> 0 then DELAYED_STATUS e else result, s'))"

definition set_config :: "comp_env \<Rightarrow> nat \<Rightarrow> usb_composite_dev \<Rightarrow> (int \<times> usb_composite_dev) option" where
  "set_config e number s =
     (let pow = (if is_otg e then 8 else 100) in
      Option.bind (if cur_config s \<noteq> None then reset_config e s else Some s) (\<lambda>s1.
      if number = 0 then Some (vbus_draw_done e pow 0 s1)
      else case find (\<lambda>c. unat (c_value (confs s1 c)) = number) (configs s1) of
        None \<Rightarrow> Some (vbus_draw_done e pow (- EINVAL) s1)
      | Some c \<Rightarrow>
          Option.bind (init_interfaces e (MAX_CONFIG_INTERFACES e) c 0 0 (s1\<lparr>cur_config := Some c\<rparr>)) (\<lambda>(result, s2).
          if result < 0 then Some (vbus_draw_done e pow result s2)
          else let mp = c_bMaxPower (confs s2 c)
               in Some (vbus_draw_done e (if mp \<noteq> 0 then 2 * unat mp else VBUS_DRAW e) result s2))))"

section \<open>Adding and removing configurations\<close>

text \<open>Only \<^verbatim>\<open>usb_ep_autoconfig_reset\<close> concerns the controller's endpoints here.\<close>

definition autoconfig_reset :: "usb_composite_dev \<Rightarrow> usb_composite_dev" where
  "autoconfig_reset s = (case usb_ep_autoconfig_reset (gadget s) of (g, n) \<Rightarrow> s\<lparr>gadget := g, epnum := n\<rparr>)"

definition usb_add_config :: "comp_env \<Rightarrow> nat \<Rightarrow> bool \<Rightarrow> usb_composite_dev \<Rightarrow> int \<times> usb_composite_dev" where
  "usb_add_config e c has_bind s =
     (if c_value (confs s c) = 0 \<or> \<not> has_bind then (- EINVAL, s)
      else if \<exists>c'\<in>set (configs s). c_value (confs s c') = c_value (confs s c) then (- EBUSY, s)
      else
        let s1 = upd_conf c (\<lambda>cc. cc\<lparr>c_attached := True, c_functions := [], c_next_interface_id := 0,
                                     c_interface := replicate (MAX_CONFIG_INTERFACES e) None\<rparr>)
                   (s\<lparr>configs := configs s @ [c]\<rparr>);
            (status, s2) = cbind e c s1;
            s3 = (if status < 0
                  then upd_conf c (\<lambda>cc. cc\<lparr>c_attached := False\<rparr>) (s2\<lparr>configs := remove1 c (configs s2)\<rparr>)
                  else s2)
        in (status, autoconfig_reset s3))"

primrec unbind_functions :: "comp_env \<Rightarrow> nat \<Rightarrow> nat list \<Rightarrow> usb_composite_dev \<Rightarrow> usb_composite_dev" where
  "unbind_functions e c [] s = s"
| "unbind_functions e c (f # fs) s =
     (let s1 = upd_conf c (\<lambda>cc. cc\<lparr>c_functions := fs\<rparr>) s
      in unbind_functions e c fs (if f_has_unbind (funcs s1 f) then snd (do_ext e (FUnbind c f) s1) else s1))"

definition unbind_config :: "comp_env \<Rightarrow> nat \<Rightarrow> usb_composite_dev \<Rightarrow> usb_composite_dev" where
  "unbind_config e c s =
     (let s1 = unbind_functions e c (c_functions (confs s c)) s
      in if c_has_unbind (confs s1 c) then snd (do_ext e (CUnbind c) s1) else s1)"

definition usb_remove_config :: "comp_env \<Rightarrow> nat \<Rightarrow> usb_composite_dev \<Rightarrow> (int \<times> usb_composite_dev) option" where
  "usb_remove_config e c s =
     Option.bind (if cur_config s = Some c then reset_config e s else Some s) (\<lambda>s1.
       Some (0, unbind_config e c (s1\<lparr>configs := remove1 c (configs s1)\<rparr>)))"

section \<open>Strings\<close>

text \<open>
  The language table is the 127 half-words behind the two header bytes of the 256-byte area that was
  cleared. The loop stops at the first free entry, at the last one, or at the language itself.
\<close>

fun lang_slot :: "u16 list \<Rightarrow> u16 \<Rightarrow> nat \<Rightarrow> nat option" where
  "lang_slot [] lang k = Some k"
| "lang_slot (w # ws) lang k =
     (if w = 0 \<or> k \<ge> 126 then Some k else if w = lang then None else lang_slot ws lang (Suc k))"

fun collect_langs :: "usb_gadget_strings list \<Rightarrow> u16 list \<Rightarrow> u16 list" where
  "collect_langs [] buf = buf"
| "collect_langs (s # sp) buf =
     (case lang_slot buf (language s) 0 of
        None \<Rightarrow> collect_langs sp buf
      | Some k \<Rightarrow> collect_langs sp (buf[k := language s]))"

text \<open>All string tables of the device in the order they are visited.\<close>

definition string_tables :: "comp_env \<Rightarrow> usb_composite_dev \<Rightarrow> usb_gadget_strings list list" where
  "string_tables e s =
     (let opt = (\<lambda>x. case x of None \<Rightarrow> [] | Some t \<Rightarrow> [t])
      in opt (drv_strings (composite e)) @
         concat (map (\<lambda>c. opt (c_strings (confs s c)) @
                          concat (map (\<lambda>f. opt (f_strings (funcs s f))) (c_functions (confs s c))))
                     (configs s)))"

fun lookup_string :: "usb_gadget_strings list \<Rightarrow> bytes \<Rightarrow> u16 \<Rightarrow> int \<Rightarrow> (int \<times> bytes) option" where
  "lookup_string [] buf lang i = Some (- EINVAL, buf)"
| "lookup_string (s # sp) buf lang i =
     (if language s \<noteq> lang then lookup_string sp buf lang i
      else Option.bind (usb_gadget_get_string s i buf) (\<lambda>(value, buf').
        if value > 0 then Some (value, buf') else lookup_string sp buf' lang i))"

fun lookup_tables :: "usb_gadget_strings list list \<Rightarrow> bytes \<Rightarrow> u16 \<Rightarrow> int \<Rightarrow> (int \<times> bytes) option" where
  "lookup_tables [] buf lang i = Some (- EINVAL, buf)"
| "lookup_tables (t # ts) buf lang i =
     Option.bind (lookup_string t buf lang i) (\<lambda>(len, buf').
       if len > 0 then Some (len, buf') else lookup_tables ts buf' lang i)"

text \<open>The C operator \<^verbatim>\<open>?:\<close> on pointers.\<close>

definition elvis :: "'a option \<Rightarrow> 'a option \<Rightarrow> 'a option" where
  "elvis a b = (case a of Some x \<Rightarrow> Some x | None \<Rightarrow> b)"

definition override_string :: "comp_env \<Rightarrow> usb_composite_dev \<Rightarrow> int \<Rightarrow> bytes option" where
  "override_string e s i =
     (if uint (manufacturer_override s) = i
      then elvis (p_iManufacturer (params e))
             (elvis (drv_iManufacturer (composite e)) (Some (composite_manufacturer s)))
      else if uint (product_override s) = i
      then elvis (p_iProduct (params e)) (drv_iProduct (composite e))
      else if uint (serial_override s) = i then p_iSerialNumber (params e)
      else None)"

definition get_string :: "comp_env \<Rightarrow> usb_composite_dev \<Rightarrow> u16 \<Rightarrow> int \<Rightarrow> (int \<times> bytes) option" where
  "get_string e s lang i =
     (if i = 0 then
        let wData = fold collect_langs (string_tables e s) (replicate 127 0);
            len = length (takeWhile (\<lambda>w. w \<noteq> 0) wData)
        in Option.bind (mem_write (req_buf s) 0 ([0, 3] @ concat (map le16_bytes wData))) (\<lambda>m.
           if len = 0 then Some (- EINVAL, m)
           else let bLength = of_nat (2 * (len + 1)) :: u8
                in map_option (Pair (uint bLength)) (mem_write m 0 [bLength]))
      else case override_string e s i of
        Some str \<Rightarrow>
          usb_gadget_get_string \<lparr>language = lang, tab_strings = Some [\<lparr>str_id = 0xff, str_s = str\<rparr>]\<rparr> 0xff (req_buf s)
      | None \<Rightarrow> lookup_tables (string_tables e s) (req_buf s) lang i)"

definition usb_string_id :: "usb_composite_dev \<Rightarrow> int \<times> usb_composite_dev" where
  "usb_string_id s =
     (if next_string_id s < 254
      then (uint (next_string_id s + 1), s\<lparr>next_string_id := next_string_id s + 1\<rparr>)
      else (- ENODEV, s))"

text \<open>The table of a batch; the entries before a failure keep the numbers they were given.\<close>

fun assign_ids :: "usb_string list \<Rightarrow> nat \<Rightarrow> usb_string list \<times> nat option" where
  "assign_ids [] next = ([], Some next)"
| "assign_ids (x # xs) next =
     (if next \<ge> 254 then (x # xs, None)
      else case assign_ids xs (Suc next) of
             (ys, r) \<Rightarrow> (x\<lparr>str_id := of_nat (Suc next)\<rparr> # ys, r))"

definition usb_string_ids_tab :: "usb_string list \<Rightarrow> usb_composite_dev \<Rightarrow> int \<times> usb_string list \<times> usb_composite_dev" where
  "usb_string_ids_tab str s =
     (case assign_ids str (unat (next_string_id s)) of
        (str', None) \<Rightarrow> (- ENODEV, str', s)
      | (str', Some next) \<Rightarrow> (0, str', s\<lparr>next_string_id := of_nat next\<rparr>))"

definition usb_string_ids_n :: "u32 \<Rightarrow> usb_composite_dev \<Rightarrow> int \<times> usb_composite_dev" where
  "usb_string_ids_n n s =
     (let next = ucast (next_string_id s) :: u32
      in if n > 254 \<or> next + n > 254 then (- ENODEV, s)
         else (uint (next + 1), s\<lparr>next_string_id := next_string_id s + ucast n\<rparr>))"

section \<open>Control requests\<close>

abbreviation (input) USB_DIR_IN_REQ :: u8 where "USB_DIR_IN_REQ \<equiv> 0x80"
abbreviation (input) USB_RECIP_INTERFACE :: u8 where "USB_RECIP_INTERFACE \<equiv> 1"
abbreviation (input) USB_RECIP_ENDPOINT :: u8 where "USB_RECIP_ENDPOINT \<equiv> 2"

text \<open>
  The standard requests: the outer \<open>None\<close> is an invalid access; \<open>Inl ()\<close> says that the request is left
  to the functions (the label \<^verbatim>\<open>unknown\<close>), \<open>Inr value\<close> is the value before the response.
\<close>

type_synonym reply = "((unit + int) \<times> usb_composite_dev) option"

definition clip :: "u16 \<Rightarrow> int \<Rightarrow> int" where
  "clip w_length value = (if value \<ge> 0 then uint (min w_length (word_of_int value)) else value)"

definition get_descriptor :: "comp_env \<Rightarrow> usb_ctrlrequest \<Rightarrow> usb_composite_dev \<Rightarrow> (int \<times> usb_composite_dev) option" where
  "get_descriptor e ctrl s =
     (let type = ucast (drop_bit 8 (wValue ctrl)) :: u8; len = wLength ctrl
      in if type = USB_DT_DEVICE then
           let s1 = s\<lparr>desc := (desc s)\<lparr>d_numConfigurations := of_nat (count_configs e s USB_DT_DEVICE)\<rparr>\<rparr>;
               value = min len 18
           in map_option (\<lambda>m. (uint value, s1\<lparr>req_buf := m\<rparr>))
                (mem_write (req_buf s1) 0 (take (unat value) (device_bytes (desc s1))))
         else if type = USB_DT_DEVICE_QUALIFIER then
           (if \<not> is_dual e then Some (- EOPNOTSUPP, s)
            else map_option (\<lambda>s'. (uint (min len 10), s')) (device_qual e s))
         else if type = USB_DT_OTHER_SPEED_CONFIG \<and> \<not> is_dual e then Some (- EOPNOTSUPP, s)
         else if type = USB_DT_OTHER_SPEED_CONFIG \<or> type = USB_DT_CONFIG then
           map_option (\<lambda>(value, s'). (clip len value, s')) (config_desc e (wValue ctrl) s)
         else if type = USB_DT_STRING then
           map_option (\<lambda>(value, m). (clip len value, s\<lparr>req_buf := m\<rparr>))
             (get_string e s (wIndex ctrl) (uint (wValue ctrl AND 0xff)))
         else Some (- EOPNOTSUPP, s))"

text \<open>The function behind an interface number of the current configuration, if any.\<close>

definition interface_function :: "comp_env \<Rightarrow> usb_composite_dev \<Rightarrow> nat \<Rightarrow> nat option" where
  "interface_function e s i =
     (case cur_config s of
        None \<Rightarrow> None
      | Some c \<Rightarrow> if i \<ge> MAX_CONFIG_INTERFACES e \<or> i \<ge> length (c_interface (confs s c)) then None
                  else c_interface (confs s c) ! i)"

definition set_interface :: "comp_env \<Rightarrow> usb_ctrlrequest \<Rightarrow> usb_composite_dev \<Rightarrow> (int \<times> usb_composite_dev) option" where
  "set_interface e ctrl s =
     (case interface_function e s (unat (wIndex ctrl AND 0xff)) of
        None \<Rightarrow> Some (- EOPNOTSUPP, s)
      | Some f \<Rightarrow>
          if \<not> f_has_set_alt (funcs s f) then (if wValue ctrl \<noteq> 0 then Some (- EOPNOTSUPP, s) else None)
          else
            let (value, s1) = do_ext e (FSetAlt f (unat (wIndex ctrl)) (unat (wValue ctrl))) s
            in Some (value, if value = DELAYED_STATUS e then s1\<lparr>delayed_status := delayed_status s1 + 1\<rparr> else s1))"

definition get_interface :: "comp_env \<Rightarrow> usb_ctrlrequest \<Rightarrow> usb_composite_dev \<Rightarrow> (int \<times> usb_composite_dev) option" where
  "get_interface e ctrl s =
     (case interface_function e s (unat (wIndex ctrl AND 0xff)) of
        None \<Rightarrow> Some (- EOPNOTSUPP, s)
      | Some f \<Rightarrow>
          let (value, s1) = (if f_has_get_alt (funcs s f) then do_ext e (FGetAlt f (unat (wIndex ctrl))) s else (0, s))
          in if value < 0 then Some (value, s1)
             else map_option (\<lambda>m. (uint (min (wLength ctrl) 1), s1\<lparr>req_buf := m\<rparr>))
                    (mem_write (req_buf s1) 0 [word_of_int value]))"

definition standard_request :: "comp_env \<Rightarrow> usb_ctrlrequest \<Rightarrow> usb_composite_dev \<Rightarrow> reply" where
  "standard_request e ctrl s =
     (let rt = bRequestType ctrl; rq = bRequest ctrl;
          core = map_option (\<lambda>(v, s'). (Inr v :: unit + int, s'))
      in if rq = 6 \<and> rt = USB_DIR_IN_REQ then core (get_descriptor e ctrl s)
         else if rq = 9 \<and> rt = 0 then core (set_config e (unat (wValue ctrl)) s)
         else if rq = 8 \<and> rt = USB_DIR_IN_REQ then
           core (map_option (\<lambda>m. (uint (min (wLength ctrl) 1), s\<lparr>req_buf := m\<rparr>))
             (mem_write (req_buf s) 0
               [case cur_config s of Some c \<Rightarrow> c_value (confs s c) | None \<Rightarrow> 0]))
         else if rq = 11 \<and> rt = USB_RECIP_INTERFACE then core (set_interface e ctrl s)
         else if rq = 10 \<and> rt = (USB_DIR_IN_REQ OR USB_RECIP_INTERFACE) then core (get_interface e ctrl s)
         else Some (Inl (), s))"

text \<open>The function that is responsible for a request the framework does not handle itself.\<close>

definition request_function :: "comp_env \<Rightarrow> usb_ctrlrequest \<Rightarrow> usb_composite_dev \<Rightarrow> nat option option" where
  "request_function e ctrl s =
     (let recip = bRequestType ctrl AND 0x1f
      in if recip = USB_RECIP_INTERFACE then Some (interface_function e s (unat (wIndex ctrl AND 0xff)))
         else if recip = USB_RECIP_ENDPOINT then
           (case cur_config s of
              None \<Rightarrow> None
            | Some c \<Rightarrow>
                let endp = drop_bit 3 (wIndex ctrl AND 0x80) OR (wIndex ctrl AND 0x0f)
                in Some (find (\<lambda>f. bit (f_endpoints (funcs s f)) (unat endp)) (c_functions (confs s c))))
         else Some None)"

definition delegate :: "comp_env \<Rightarrow> usb_ctrlrequest \<Rightarrow> usb_composite_dev \<Rightarrow> (int \<times> usb_composite_dev) option" where
  "delegate e ctrl s =
     Option.bind (request_function e ctrl s) (\<lambda>fo.
       Some (case fo of
         Some f \<Rightarrow>
           if f_has_setup (funcs s f) then do_ext e (FSetup f ctrl) s
           else (case cur_config s of
                   Some c \<Rightarrow> if c_has_setup (confs s c) then do_ext e (CSetup c ctrl) s else (- EOPNOTSUPP, s)
                 | None \<Rightarrow> (- EOPNOTSUPP, s))
       | None \<Rightarrow>
           (case cur_config s of
              Some c \<Rightarrow> if c_has_setup (confs s c) then do_ext e (CSetup c ctrl) s else (- EOPNOTSUPP, s)
            | None \<Rightarrow> (- EOPNOTSUPP, s))))"

text \<open>
  The response queues the first \<open>value\<close> bytes of the buffer; a length beyond the buffer would send
  memory that is not part of it and is an invalid access.
\<close>

definition respond :: "comp_env \<Rightarrow> u16 \<Rightarrow> int \<Rightarrow> usb_composite_dev \<Rightarrow> (int \<times> usb_composite_dev) option" where
  "respond e w_length value s =
     (if value \<ge> 0 \<and> value \<noteq> DELAYED_STATUS e then
        if value > int (length (req_buf s)) then None
        else
          let s1 = s\<lparr>req_length := value, req_zero := (value < uint w_length)\<rparr>
          in Some (do_ext e (EpQueue (take (nat value) (req_buf s1)) (req_zero s1)) s1)
      else Some (value, s))"

definition composite_setup :: "comp_env \<Rightarrow> usb_ctrlrequest \<Rightarrow> usb_composite_dev \<Rightarrow> (int \<times> usb_composite_dev) option" where
  "composite_setup e ctrl s =
     Option.bind (standard_request e ctrl (s\<lparr>req_zero := False, req_length := 0\<rparr>)) (\<lambda>(r, s1).
       case r of
         Inl _ \<Rightarrow> delegate e ctrl s1
       | Inr value \<Rightarrow> respond e (wLength ctrl) value s1)"

section \<open>Life cycle\<close>

definition composite_disconnect :: "comp_env \<Rightarrow> usb_composite_dev \<Rightarrow> usb_composite_dev option" where
  "composite_disconnect e s =
     Option.bind (if cur_config s \<noteq> None then reset_config e s else Some s) (\<lambda>s1.
       Some (if drv_has_disconnect (composite e) then snd (do_ext e DrvDisconnect s1) else s1))"

definition composite_show_suspended :: "usb_composite_dev \<Rightarrow> string" where
  "composite_show_suspended s = c_dec (of_bool (is_suspended s)) @ [CHR 0x0A]"

primrec unbind_configs :: "comp_env \<Rightarrow> nat list \<Rightarrow> usb_composite_dev \<Rightarrow> usb_composite_dev" where
  "unbind_configs e [] s = s"
| "unbind_configs e (c # cs) s = unbind_configs e cs (unbind_config e c (s\<lparr>configs := cs\<rparr>))"

definition composite_unbind :: "comp_env \<Rightarrow> usb_composite_dev \<Rightarrow> usb_composite_dev" where
  "composite_unbind e s =
     (let s1 = unbind_configs e (configs s) s
      in if drv_has_unbind (composite e) then snd (do_ext e DrvUnbind s1) else s1)"

text \<open>\<^verbatim>\<open>override_id\<close> gets and returns the descriptor field it may fill in.\<close>

definition override_id :: "u8 \<Rightarrow> usb_composite_dev \<Rightarrow> u8 \<times> usb_composite_dev" where
  "override_id field s =
     (if field = 0 then
        let (r, s') = usb_string_id s
        in if r < 0 then (field, s') else (word_of_int r, s')
      else (field, s))"

text \<open>
  Binding to a controller. The arguments are the outcomes of the allocations, the gadget driver's
  own bind, the result of \<^verbatim>\<open>device_create_file\<close>, the packet size of endpoint 0, and the text for the
  default manufacturer. The result is the status and the device, \<open>None\<close> when it was freed or never
  allocated; together with it the calls that were made.
\<close>

record bind_args =
  ba_kzalloc :: bool
  ba_req :: bool
  ba_buf :: bool
  ba_gadget_bind :: "usb_composite_dev \<Rightarrow> int \<times> usb_composite_dev"
  ba_create_file :: int
  ba_ep0_maxpacket :: u8
  ba_utsname :: bytes

definition bind_device_ids :: "comp_env \<Rightarrow> bind_args \<Rightarrow> usb_composite_dev \<Rightarrow> usb_composite_dev" where
  "bind_device_ids e a s =
     (let p = params e; d = drv_dev (composite e)
      in s\<lparr>desc := d\<lparr>d_maxpacket0 := ba_ep0_maxpacket a,
                      d_idVendor := (if p_idVendor p \<noteq> 0 then p_idVendor p else d_idVendor d),
                      d_idProduct := (if p_idProduct p \<noteq> 0 then p_idProduct p else d_idProduct d),
                      d_bcdDevice := (if p_bcdDevice p \<noteq> 0 then p_bcdDevice p else d_bcdDevice d)\<rparr>\<rparr>)"

definition bind_strings :: "comp_env \<Rightarrow> bind_args \<Rightarrow> usb_composite_dev \<Rightarrow> usb_composite_dev" where
  "bind_strings e a s =
     (let p = params e; drv = composite e;
          s1 = (if p_iManufacturer p \<noteq> None \<or> d_iManufacturer (desc s) = 0 then
                  let s' = (if p_iManufacturer p = None \<and> drv_iManufacturer drv = None \<and> hd (composite_manufacturer s) = 0
                            then s\<lparr>composite_manufacturer := take 49 (ba_utsname a) @ [0]\<rparr> else s);
                      (v, s'') = override_id (d_iManufacturer (desc s')) s'
                  in s''\<lparr>desc := (desc s'')\<lparr>d_iManufacturer := v\<rparr>, manufacturer_override := v\<rparr>
                else s);
          s2 = (if p_iProduct p \<noteq> None \<or> (d_iProduct (desc s1) = 0 \<and> drv_iProduct drv \<noteq> None) then
                  let (v, s') = override_id (d_iProduct (desc s1)) s1
                  in s'\<lparr>desc := (desc s')\<lparr>d_iProduct := v\<rparr>, product_override := v\<rparr>
                else s1)
      in if p_iSerialNumber p \<noteq> None then
           let (v, s') = override_id (d_iSerialNumber (desc s2)) s2
           in s'\<lparr>desc := (desc s')\<lparr>d_iSerialNumber := v\<rparr>, serial_override := v\<rparr>
         else s2)"

abbreviation (input) USB_SELF_POWER_VBUS_MAX_DRAW :: nat where "USB_SELF_POWER_VBUS_MAX_DRAW \<equiv> 100"

definition composite_bind ::
    "comp_env \<Rightarrow> bind_args \<Rightarrow> usb_composite_dev \<Rightarrow> int \<times> usb_composite_dev option \<times> call list" where
  "composite_bind e a s0 =
     (if \<not> ba_kzalloc a then (- ENOMEM, None, calls s0)
      else
        let fail = (\<lambda>status s. (status, None, calls (composite_unbind e s)));
            s = s0\<lparr>configs := []\<rparr>
        in if \<not> ba_req a then fail (- ENOMEM) s
           else if \<not> ba_buf a then fail (- ENOMEM) s
           else
             let s1 = (if VBUS_DRAW e \<le> USB_SELF_POWER_VBUS_MAX_DRAW then snd (do_ext e SetSelfpowered s) else s);
                 (status, s2) = ba_gadget_bind a (autoconfig_reset s1)
             in if status < 0 then fail status s2
                else
                  let s3 = bind_strings e a (bind_device_ids e a s2)
                  in if ba_create_file a \<noteq> 0 then fail (ba_create_file a) s3
                     else (0, Some s3, calls s3))"

primrec suspend_all :: "comp_env \<Rightarrow> (nat \<Rightarrow> call) \<Rightarrow> (usb_function \<Rightarrow> bool) \<Rightarrow> nat list \<Rightarrow> usb_composite_dev \<Rightarrow> usb_composite_dev" where
  "suspend_all e mk has [] s = s"
| "suspend_all e mk has (f # fs) s =
     suspend_all e mk has fs (if has (funcs s f) then snd (do_ext e (mk f) s) else s)"

definition composite_suspend :: "comp_env \<Rightarrow> usb_composite_dev \<Rightarrow> usb_composite_dev" where
  "composite_suspend e s =
     (let s1 = (case cur_config s of None \<Rightarrow> s
                | Some c \<Rightarrow> suspend_all e FSuspend f_has_suspend (c_functions (confs s c)) s);
          s2 = (if drv_has_suspend (composite e) then snd (do_ext e DrvSuspend s1) else s1)
      in snd (do_ext e (VbusDraw 2) (s2\<lparr>is_suspended := True\<rparr>)))"

definition composite_resume :: "comp_env \<Rightarrow> usb_composite_dev \<Rightarrow> usb_composite_dev" where
  "composite_resume e s =
     (let s1 = (if drv_has_resume (composite e) then snd (do_ext e DrvResume s) else s);
          s2 = (case cur_config s1 of None \<Rightarrow> s1
                | Some c \<Rightarrow>
                    let s' = suspend_all e FResume f_has_resume (c_functions (confs s1 c)) s1;
                        mp = c_bMaxPower (confs s' c)
                    in snd (do_ext e (VbusDraw (if mp \<noteq> 0 then 2 * unat mp else VBUS_DRAW e)) s'))
      in s2\<lparr>is_suspended := False\<rparr>)"

text \<open>
  Registration of the one composite driver. Drivers are numbers; the static pointer \<^verbatim>\<open>composite\<close> is
  the state, and \<^verbatim>\<open>usb_gadget_probe_driver\<close> and \<^verbatim>\<open>usb_gadget_unregister_driver\<close>, which call back into
  \<^verbatim>\<open>composite_bind\<close> and \<^verbatim>\<open>composite_unbind\<close>, are transformers of it. Names are left out.
\<close>

definition usb_composite_probe ::
    "nat option \<Rightarrow> bool \<Rightarrow> bool \<Rightarrow> (nat option \<Rightarrow> int \<times> nat option) \<Rightarrow> nat option \<Rightarrow> int \<times> nat option" where
  "usb_composite_probe driver has_dev has_bind probe_driver cur =
     (case driver of
        None \<Rightarrow> (- EINVAL, cur)
      | Some d \<Rightarrow>
          if \<not> has_dev \<or> \<not> has_bind \<or> cur \<noteq> None then (- EINVAL, cur) else probe_driver (Some d))"

definition usb_composite_unregister ::
    "nat option \<Rightarrow> (nat option \<Rightarrow> nat option) \<Rightarrow> nat option \<Rightarrow> nat option" where
  "usb_composite_unregister driver unregister_driver cur =
     (if cur \<noteq> driver then cur else unregister_driver cur)"

definition usb_composite_setup_continue :: "comp_env \<Rightarrow> usb_composite_dev \<Rightarrow> usb_composite_dev" where
  "usb_composite_setup_continue e s =
     (if delayed_status s = 0 then s
      else
        let s1 = s\<lparr>delayed_status := delayed_status s - 1\<rparr>
        in if delayed_status s1 = 0
           then let s2 = s1\<lparr>req_length := 0\<rparr> in snd (do_ext e (EpQueue [] (req_zero s2)) s2)
           else s1)"

end
