(* ===== verification/ScaleSetup.thy ===== *)
theory ScaleSetup
  imports ScaleIo Composite
begin

text \<open>
  The control path of the scale gadget: its descriptors and the handler of the requests on endpoint
  zero, \<^verbatim>\<open>scale_setup\<close> of \<^verbatim>\<open>test_gadget/scale_usb.c\<close>, built with \<^verbatim>\<open>NEW_STYLE\<close> and \<^verbatim>\<open>DMX512_DUMMY\<close>. It uses
  the string and configuration builders of \<^verbatim>\<open>usbstring.c\<close> and \<^verbatim>\<open>config.c\<close>. \<open>None\<close> is an access outside an
  object or through a null pointer.
\<close>

section \<open>Descriptors\<close>

abbreviation (input) USB_DESC_BUFSIZE :: nat where "USB_DESC_BUFSIZE \<equiv> 256"
abbreviation (input) DEV_CONFIG_VALUE :: nat where "DEV_CONFIG_VALUE \<equiv> 1"
abbreviation (input) SCALE_INTERFACE :: int where "SCALE_INTERFACE \<equiv> 0"

definition device_desc :: usb_device_descriptor where
  "device_desc = \<lparr>d_bcdUSB = 0x0110, d_class = 0, d_subclass = 0, d_protocol = 0, d_maxpacket0 = 0x40,
     d_idVendor = 0x6244, d_idProduct = 0x0431, d_bcdDevice = 0x0108,
     d_iManufacturer = 1, d_iProduct = 2, d_iSerialNumber = 3, d_numConfigurations = 1\<rparr>"

definition report_desc :: bytes where
  "report_desc =
    [0x05, 0x01, 0x09, 0x02, 0xa1, 0x01, 0x09, 0x01, 0xa1, 0x00, 0x05, 0x09, 0x19, 0x01, 0x29, 0x03,
     0x15, 0x00, 0x25, 0x01, 0x95, 0x03, 0x75, 0x01, 0x81, 0x02, 0x95, 0x01, 0x75, 0x05, 0x81, 0x01,
     0x05, 0x01, 0x09, 0x30, 0x09, 0x31, 0x09, 0x38, 0x15, 0x81, 0x25, 0x7f, 0x75, 0x08, 0x95, 0x03,
     0x81, 0x06, 0xc0, 0xc0]"

definition config_desc1 :: usb_config_descriptor where
  "config_desc1 = \<lparr>cfg_bLength = 9, cfg_bDescriptorType = USB_DT_CONFIG, cfg_wTotalLength = 9,
     cfg_bNumInterfaces = 1, cfg_bConfigurationValue = 1, cfg_iConfiguration = 0,
     cfg_bmAttributes = USB_CONFIG_ATT_ONE, cfg_bMaxPower = 50\<rparr>"

definition dmx_intf_desc :: bytes where
  "dmx_intf_desc = [9, 4, 0, 0, 6, 0xff, 0, 0, 0]"

text \<open>An endpoint descriptor with its polling interval.\<close>

definition endpoint_bytes :: "usb_endpoint_descriptor \<times> u8 \<Rightarrow> bytes" where
  "endpoint_bytes = (\<lambda>(d, interval).
     [7, USB_DT_ENDPOINT, bEndpointAddress d, bmAttributes d] @ le16_bytes (wMaxPacketSize d) @ [interval])"

definition bulk_desc :: "u8 \<Rightarrow> usb_endpoint_descriptor" where
  "bulk_desc a = \<lparr>bEndpointAddress = a, bmAttributes = XFER_BULK, wMaxPacketSize = 64\<rparr>"

text \<open>The six endpoints in the order of \<^verbatim>\<open>fs_dmx_scale_function\<close>: 2, 5, 8 out, then 2, 5, 8 in.\<close>

definition dmx_ep_descs :: "(usb_endpoint_descriptor \<times> u8) list" where
  "dmx_ep_descs = [(bulk_desc 2, 1), (bulk_desc 5, 1), (bulk_desc 8, 0),
     (bulk_desc 0x82, 1), (bulk_desc 0x85, 1), (bulk_desc 0x88, 1)]"

text \<open>The descriptors behind the configuration header: the interface, then the endpoints.\<close>

definition dmx_function :: "(usb_endpoint_descriptor \<times> u8) list \<Rightarrow> bytes list" where
  "dmx_function eps = dmx_intf_desc # map endpoint_bytes eps"

section \<open>State\<close>

datatype ep_id = EpIn | EpOut | TestIn nat | TestOut nat

datatype hw_call = EpEnable ep_id | EpDisable ep_id | Draw nat | Ep0Queue nat bool bytes

text \<open>
  \<open>io\<close> is the data path; \<open>dev_in\<close> and \<open>dev_out\<close> tell that the descriptor pointers are set, \<open>test_in\<close> and
  \<open>test_out\<close> that the endpoint pointers are. \<open>hw\<close> is what the controller was asked, in order.
\<close>

record scale_ctl =
  io :: scale_dev
  dev_config :: u8
  dev_in :: bool
  dev_out :: bool
  test_in :: "nat \<Rightarrow> bool"
  test_out :: "nat \<Rightarrow> bool"
  ctl_buf :: bytes
  dev_desc :: usb_device_descriptor
  ep_descs :: "(usb_endpoint_descriptor \<times> u8) list"
  stringtab :: usb_gadget_strings
  pnp_string :: bytes
  hw :: "hw_call list"

text \<open>The strings of the driver, which get their numbers when it is bound, and the printer identification.\<close>

definition c_string :: "string \<Rightarrow> bytes" where
  "c_string s = map (\<lambda>c. of_nat (of_char c)) s @ [0]"

definition strings :: "usb_string list" where
  "strings = [\<lparr>str_id = 0, str_s = c_string ''joy string test!''\<rparr>, \<lparr>str_id = 0, str_s = c_string ''SIUDI8A''\<rparr>,
     \<lparr>str_id = 0, str_s = c_string (CHR 0x22 # ''0000000279A8  '')\<rparr>, \<lparr>str_id = 0, str_s = c_string ''162216''\<rparr>]"

definition pnp_text :: bytes where
  "pnp_text = c_string ''XXMFG:linux;MDL:scale;CLS:COMM;SN:1;'' @ replicate 987 0"

text \<open>
  The controller: the result of a call, and the completions that run while an endpoint is disabled.
\<close>

record ctl_env =
  hw_result :: "hw_call \<Rightarrow> hw_call list \<Rightarrow> int"
  disabling :: "ep_id \<Rightarrow> scale_dev \<Rightarrow> irq list"
  is_otg_gadget :: bool

definition hw_do :: "ctl_env \<Rightarrow> hw_call \<Rightarrow> scale_ctl \<Rightarrow> int \<times> scale_ctl" where
  "hw_do e c s = (hw_result e c (hw s), s\<lparr>hw := hw s @ [c]\<rparr>)"

definition usb_ep_disable :: "ctl_env \<Rightarrow> ep_id \<Rightarrow> scale_ctl \<Rightarrow> scale_ctl" where
  "usb_ep_disable e i s = s\<lparr>hw := hw s @ [EpDisable i], io := fold do_irq (disabling e i (io s)) (io s)\<rparr>"

section \<open>Interfaces and configurations\<close>

definition set_scale_interface :: "ctl_env \<Rightarrow> scale_ctl \<Rightarrow> int \<times> scale_ctl" where
  "set_scale_interface e s =
     (let s1 = s\<lparr>dev_in := True, dev_out := True\<rparr>;
          (r1, s2) = hw_do e (EpEnable EpIn) s1;
          (result, s3) = (if r1 \<noteq> 0 then (r1, s2) else hw_do e (EpEnable EpOut) s2)
      in if result \<noteq> 0
         then (result, (usb_ep_disable e EpOut (usb_ep_disable e EpIn s3))\<lparr>dev_in := False, dev_out := False\<rparr>)
         else (result, s3))"

definition set_interface_number :: "int \<Rightarrow> scale_ctl \<Rightarrow> scale_ctl" where
  "set_interface_number n s = s\<lparr>io := (io s)\<lparr>interface := n\<rparr>\<rparr>"

definition scale_reset_interface :: "ctl_env \<Rightarrow> scale_ctl \<Rightarrow> scale_ctl" where
  "scale_reset_interface e s =
     (if interface (io s) < 0 then s
      else
        let s1 = (if dev_in s then usb_ep_disable e EpIn s else s);
            s2 = (if dev_out s1 then usb_ep_disable e EpOut s1 else s1)
        in set_interface_number (- 1) s2)"

definition scale_set_config :: "ctl_env \<Rightarrow> u16 \<Rightarrow> scale_ctl \<Rightarrow> int \<times> scale_ctl" where
  "scale_set_config e number s =
     (let result = (if unat number = DEV_CONFIG_VALUE then 0 else if number = 0 then 0 else - EINVAL);
          s1 = (if result \<noteq> 0 then snd (hw_do e (Draw (if is_otg_gadget e then 8 else 100)) s)
                else (snd (hw_do e (Draw (unat (cfg_bMaxPower config_desc1))) s))\<lparr>dev_config := ucast number\<rparr>)
      in (result, snd (set_scale_interface e s1)))"

definition config_buf1 :: "u8 \<Rightarrow> u16 \<Rightarrow> scale_ctl \<Rightarrow> (int \<times> scale_ctl) option" where
  "config_buf1 type index s =
     (if unat index \<ge> unat (d_numConfigurations (dev_desc s)) then Some (- EINVAL, s)
      else Option.bind (mem_write (ctl_buf s) 0 (replicate USB_DESC_BUFSIZE 0)) (\<lambda>buf1.
           Option.bind (usb_gadget_config_buf config_desc1 buf1 256 (Some (dmx_function (ep_descs s)))) (\<lambda>(len, buf2).
           if len < 0 then Some (len, s\<lparr>ctl_buf := buf2\<rparr>)
           else map_option (\<lambda>buf3. (len, s\<lparr>ctl_buf := buf3\<rparr>)) (mem_write buf2 1 [type]))))"

text \<open>The \<^verbatim>\<open>set_interface\<close> of this driver.\<close>

definition scale_set_interface :: "ctl_env \<Rightarrow> int \<Rightarrow> scale_ctl \<Rightarrow> int \<times> scale_ctl" where
  "scale_set_interface e number s =
     (let s1 = (if interface (io s) = SCALE_INTERFACE then scale_reset_interface e s else s)
      in if number = SCALE_INTERFACE then
           let (result, s2) = set_scale_interface e s1
           in if result \<noteq> 0 then (result, scale_reset_interface e s2)
              else (result, set_interface_number SCALE_INTERFACE s2)
         else (- EINVAL, s1))"

section \<open>The soft reset\<close>

text \<open>The loops that give requests back; the second one tests one list and takes from another.\<close>

fun reset_tx :: "nat list \<Rightarrow> scale_dev \<Rightarrow> scale_dev" where
  "reset_tx [] s = s"
| "reset_tx (r # rs) s = reset_tx rs (s\<lparr>tx_reqs_active := rs, tx_reqs := r # tx_reqs s\<rparr>)"

fun reset_rx :: "nat list \<Rightarrow> scale_dev \<Rightarrow> scale_dev option" where
  "reset_rx bs s =
     (if rx_reqs_active s = [] then Some s
      else case bs of
        [] \<Rightarrow> None
      | r # rs \<Rightarrow> reset_rx rs (s\<lparr>rx_buffers := rs, rx_reqs := r # rx_reqs s\<rparr>))"

text \<open>Enabling the test endpoints goes through pointers that may be null.\<close>

primrec enable_test :: "ctl_env \<Rightarrow> nat list \<Rightarrow> scale_ctl \<Rightarrow> scale_ctl option" where
  "enable_test e [] s = Some s"
| "enable_test e (i # is) s =
     (if \<not> test_in s i then None
      else let s1 = snd (hw_do e (EpEnable (TestIn i)) s)
           in if \<not> test_out s1 i then None
              else enable_test e is (snd (hw_do e (EpEnable (TestOut i)) s1)))"

definition scale_soft_reset :: "ctl_env \<Rightarrow> scale_ctl \<Rightarrow> scale_ctl option" where
  "scale_soft_reset e s =
     (let s1 = usb_ep_disable e EpOut (usb_ep_disable e EpIn s);
          d1 = reset_io (io s1);
          d2 = reset_tx (tx_reqs_active d1) d1
      in Option.bind (reset_rx (rx_buffers d2) d2) (\<lambda>d3.
           let d4 = reset_tx (tx_reqs_active d3) d3;
               s2 = snd (hw_do e (EpEnable EpOut) (snd (hw_do e (EpEnable EpIn) (s1\<lparr>io := d4\<rparr>))))
           in enable_test e [0, 1, 2, 3] s2))"

section \<open>Control requests\<close>

text \<open>How many bytes a vendor reply copies: what the host asks for, or at most a number.\<close>

datatype reply_len = AsAsked | AtMost nat

text \<open>
  The replies to vendor requests by request, value and index: the array on the stack with its
  terminator, the number of bytes, and whether \<^verbatim>\<open>test_vendor\<close> is set to 1.
\<close>

definition vendor_reply :: "u8 \<Rightarrow> u16 \<Rightarrow> u16 \<Rightarrow> (bytes \<times> reply_len \<times> bool) option" where
  "vendor_reply rq v i =
     (if rq = 0x31 \<and> v = 0x0008 \<and> i = 0 then Some ([0x05, 0, 0, 0, 0], AsAsked, False)
      else if rq = 0x25 \<and> v = 0 \<and> i = 0
        then Some ([0x45, 0xb5, 0xf8, 0x52, 0, 0, 0, 0, 0], AsAsked, False)
      else if rq = 0x02 \<and> v = 1 \<and> i = 0
        then Some ([0x3c, 0, 0, 0, 0, 0, 0, 0, 0xcd, 0xcc, 0xcc, 0xcc, 0xcc, 0xcc, 0x45, 0x40,
                    0xaa, 0xf1, 0xd2, 0x4d, 0x62, 0x10, 0x0f, 0x40, 0, 0, 0, 0, 0x01, 0, 0, 0, 0], AsAsked, False)
      else if rq = 0x02 \<and> v = 0 \<and> i = 0
        then Some ([0xa8, 0x79, 0x02, 0x00, 0x87, 0x00, 0x00, 0x02, 0x00, 0x00, 0x00, 0x00, 0x53, 0x49, 0x55, 0x44,
                    0x49, 0x38, 0x41, 0x00, 0x00, 0x00, 0x44, 0x45, 0x46, 0x41, 0x55, 0x4c, 0x54, 0x00, 0x00, 0x00,
                    0x1f, 0x03, 0x1b, 0x0a, 0xb0, 0x04, 0x12, 0x00, 0x03, 0x00, 0x03, 0x00, 0x64, 0x00, 0x12, 0x00,
                    0x02, 0x00, 0x01, 0x00, 0x64, 0x00, 0x12, 0x00, 0x02, 0x00, 0x01, 0x00, 0x57, 0x86, 0xfd, 0xff, 0],
                   AtMost 0x40, True)
      else if rq = 0x21 \<and> v = 0 \<and> i = 1 then Some ([0x01, 0], AtMost 1, False)
      else if rq = 0x21 \<and> v = 0 \<and> i = 0
        then Some ([0x7b, 0xef, 0x19, 0x4f, 0x1e, 0xb1, 0xe8, 0x08, 0x68, 0xc4, 0xa2, 0x94, 0xdf, 0xda, 0x8e, 0x6b,
                    0x13, 0x41, 0x02, 0xdb, 0x2c, 0x35, 0x82, 0x22, 0x9a, 0xb6, 0x80, 0x95, 0x6e, 0x0f, 0xf2, 0x21,
                    0x7e, 0x0f, 0xf6, 0xa8, 0xb8, 0x86, 0x4d, 0x47, 0x65, 0x4a, 0xcd, 0x50, 0xda, 0xf1, 0x59, 0x92,
                    0x73, 0xef, 0xfb, 0x8e, 0xda, 0xbd, 0xca, 0xc2, 0xfd, 0xc6, 0x75, 0x5c, 0x83, 0x4f, 0xea, 0x46, 0],
                   AtMost 0x40, False)
      else if rq = 0x21 \<and> v = 1 \<and> i = 0
        then Some ([0xe8, 0xc2, 0xf6, 0xd4, 0xe6, 0x8d, 0x94, 0x20, 0x54, 0xf8, 0x8b, 0xbb, 0x34, 0xac, 0xcf, 0x0b,
                    0xef, 0xef, 0x66, 0x2c, 0xfc, 0x2d, 0x14, 0x57, 0xa8, 0xfb, 0x5d, 0xb0, 0x00, 0x4e, 0xa9, 0x9d] @
                   replicate 33 0, AtMost 0x40, False)
      else if rq = 0x06 \<and> v = 2 \<and> i = 0 then Some ([0, 0], AtMost 1, False)
      else if rq = 0x20 \<and> v = 0 \<and> i = 0x0001 then Some ([0x12, 0, 0], AtMost 2, False)
      else if rq = 0x20 \<and> v = 0 \<and> i = 0x0002 then Some ([0x03, 0, 0], AtMost 2, False)
      else if rq = 0x20 \<and> v = 0 \<and> i = 0x0000 then Some ([0xb0, 0x04, 0], AtMost 2, False)
      else if rq = 0x20 \<and> v = 0 \<and> i = 0x0003 then Some ([0x03, 0, 0], AtMost 2, False)
      else if rq = 0x20 \<and> v = 0 \<and> i = 0x0101 then Some ([0x12, 0, 0], AtMost 2, False)
      else if rq = 0x20 \<and> v = 0 \<and> i = 0x0102 then Some ([0x02, 0, 0], AtMost 2, False)
      else if rq = 0x20 \<and> v = 0 \<and> i = 0x0100 then Some ([0x64, 0, 0], AtMost 2, False)
      else if rq = 0x20 \<and> v = 0 \<and> i = 0x0103 then Some ([0x01, 0, 0], AtMost 2, False)
      else if rq = 0x30 \<and> v = 0xffff \<and> i = 0 then Some ([0x01, 0, 0], AtMost 0, False)
      else if rq = 0x30 \<and> v = 0 \<and> i = 1 then Some ([0x01, 0, 0], AtMost 0, False)
      else if rq = 0x30 \<and> v = 0 \<and> i = 0 then Some ([0x01, 0, 0], AtMost 0, False)
      else None)"

fun reply_count :: "reply_len \<Rightarrow> u16 \<Rightarrow> nat" where
  "reply_count AsAsked wl = unat wl"
| "reply_count (AtMost n) wl = min (unat wl) n"

text \<open>\<^verbatim>\<open>memcpy\<close> from an object into the response buffer.\<close>

definition copy_reply :: "bytes \<Rightarrow> nat \<Rightarrow> scale_ctl \<Rightarrow> scale_ctl option" where
  "copy_reply src n s =
     Option.bind (mem_read src 0 n) (\<lambda>bs. map_option (\<lambda>m. s\<lparr>ctl_buf := m\<rparr>) (mem_write (ctl_buf s) 0 bs))"

text \<open>The result of a branch: \<^verbatim>\<open>value\<close>, \<^verbatim>\<open>test_vendor\<close> and the device.\<close>

type_synonym branch = "(int \<times> nat \<times> scale_ctl) option"

definition clip16 :: "u16 \<Rightarrow> int \<Rightarrow> int" where
  "clip16 wl v = (if v \<ge> 0 then min (uint wl) v else v)"

text \<open>The string the DMX software expects in place of the two first strings.\<close>

definition dmx_string :: bytes where
  "dmx_string = [0x22, 0x03, 0x30, 0x00, 0x30, 0x00, 0x30, 0x00, 0x30, 0x00, 0x30, 0x00, 0x30, 0x00, 0x30, 0x00,
     0x32, 0x00, 0x37, 0x00, 0x39, 0x00, 0x41, 0x00, 0x38, 0x00, 0x00, 0x00, 0x00, 0x00, 0x00, 0x00, 0]"

definition get_string_request :: "usb_ctrlrequest \<Rightarrow> scale_ctl \<Rightarrow> branch" where
  "get_string_request ctrl s =
     Option.bind (usb_gadget_get_string (stringtab s) (uint (wValue ctrl AND 0xff)) (ctl_buf s)) (\<lambda>(v, m).
       let s1 = s\<lparr>ctl_buf := m\<rparr>
       in if wIndex ctrl = 0x0409 \<and> (wValue ctrl = 0x0301 \<or> wValue ctrl = 0x0302)
          then map_option (\<lambda>s2. (clip16 (wLength ctrl) 32, if wValue ctrl = 0x0302 then 2 else 0, s2)) (copy_reply dmx_string 32 s1)
          else Some (clip16 (wLength ctrl) v, 0, s1))"

definition get_descriptor_request :: "usb_ctrlrequest \<Rightarrow> scale_ctl \<Rightarrow> branch" where
  "get_descriptor_request ctrl s =
     (if bRequestType ctrl \<noteq> USB_DIR_IN
      then map_option (\<lambda>s1. (min (uint (wLength ctrl)) (int (length report_desc)), 0, s1))
             (copy_reply report_desc (length report_desc) s)
      else
        let type = ucast (drop_bit 8 (wValue ctrl)) :: u8
        in if type = USB_DT_DEVICE then
             let v = min (unat (wLength ctrl)) 18
             in map_option (\<lambda>s1. (int v, 0, s1)) (copy_reply (device_bytes (dev_desc s)) v s)
           else if type = USB_DT_CONFIG then
             map_option (\<lambda>(v, s1). (clip16 (wLength ctrl) v, 0, s1)) (config_buf1 type (wValue ctrl AND 0xff) s)
           else if type = USB_DT_STRING then get_string_request ctrl s
           else Some (- EOPNOTSUPP, 0, s))"

definition put_byte :: "u8 \<Rightarrow> usb_ctrlrequest \<Rightarrow> scale_ctl \<Rightarrow> branch" where
  "put_byte b ctrl s =
     map_option (\<lambda>m. (min (uint (wLength ctrl)) 1, 0, s\<lparr>ctl_buf := m\<rparr>)) (mem_write (ctl_buf s) 0 [b])"

definition standard_requests :: "ctl_env \<Rightarrow> usb_ctrlrequest \<Rightarrow> scale_ctl \<Rightarrow> branch" where
  "standard_requests e ctrl s =
     (let rq = bRequest ctrl; rt = bRequestType ctrl; stall = Some (- EOPNOTSUPP, 0, s) in
      if rq = 6 then get_descriptor_request ctrl s
      else if rq = 9 then
        (if rt \<noteq> 0 then stall else case scale_set_config e (wValue ctrl) s of (v, s1) \<Rightarrow> Some (v, 0, s1))
      else if rq = 8 then (if rt \<noteq> USB_DIR_IN then stall else put_byte (dev_config s) ctrl s)
      else if rq = 11 then
        (if rt \<noteq> 1 \<or> dev_config s = 0 then stall
         else case scale_set_interface e SCALE_INTERFACE s of (v, s1) \<Rightarrow> Some (v, 0, s1))
      else if rq = 10 then
        (if rt \<noteq> 0x81 \<or> dev_config s = 0 then stall else put_byte (word_of_int (interface (io s))) ctrl s)
      else stall)"

definition class_requests :: "ctl_env \<Rightarrow> usb_ctrlrequest \<Rightarrow> scale_ctl \<Rightarrow> branch" where
  "class_requests e ctrl s =
     (let rq = bRequest ctrl; stall = Some (- EOPNOTSUPP, 0, s) in
      if rq = 0 then
        (if drop_bit 8 (wIndex ctrl) \<noteq> 0 then stall
         else Option.bind (mem_read (pnp_string s) 0 2) (\<lambda>hdr.
           let n = unat (hdr ! 0) * 256 + unat (hdr ! 1)
           in map_option (\<lambda>s1. (int n, 0, s1)) (copy_reply (pnp_string s) n s)))
      else if rq = 1 then
        (if wIndex ctrl \<noteq> 0 then stall else put_byte (scale_status (io s)) ctrl s)
      else if rq = 2 then
        (if wIndex ctrl \<noteq> 0 then stall else map_option (\<lambda>s1. (0, 0, s1)) (scale_soft_reset e s))
      else stall)"

definition vendor_requests :: "usb_ctrlrequest \<Rightarrow> scale_ctl \<Rightarrow> branch" where
  "vendor_requests ctrl s =
     (case vendor_reply (bRequest ctrl) (wValue ctrl) (wIndex ctrl) of
        None \<Rightarrow> Some (- EOPNOTSUPP, 0, s)
      | Some (src, len, tv) \<Rightarrow>
          let n = reply_count len (wLength ctrl)
          in map_option (\<lambda>s1. (int n, if tv then 1 else 0, s1)) (copy_reply src n s))"

text \<open>
  The data phase: the rest of the buffer is cleared (a \<^verbatim>\<open>memset\<close> whose length wraps when \<^verbatim>\<open>value\<close> is
  beyond the buffer) and the request is queued with the length the host asked for. Queueing is no access
  to the buffer: the handler returns, and the controller moves the bytes later. The record of the call has
  the length and the buffer, so that a length beyond the 256 bytes of the buffer, which makes the
  controller leave it, can be told (\<open>leaves_buffer\<close> in \<open>ScaleCtl\<close>).
\<close>

definition respond_scale :: "ctl_env \<Rightarrow> usb_ctrlrequest \<Rightarrow> int \<Rightarrow> nat \<Rightarrow> scale_ctl \<Rightarrow> (int \<times> scale_ctl) option" where
  "respond_scale e ctrl v tv s =
     (if v \<ge> 0 then
        let len = (if tv = 1 then 64 else if tv = 2 then 32 else unat (wLength ctrl));
            zero = (if tv = 1 then True else v < uint (wLength ctrl))
        in if v > int USB_DESC_BUFSIZE then None
           else Option.bind (mem_write (ctl_buf s) (nat v) (replicate (USB_DESC_BUFSIZE - nat v) 0)) (\<lambda>m.
                  Some (hw_do e (Ep0Queue len zero m) (s\<lparr>ctl_buf := m\<rparr>)))
      else Some (v, s))"

definition scale_setup :: "ctl_env \<Rightarrow> usb_ctrlrequest \<Rightarrow> scale_ctl \<Rightarrow> (int \<times> scale_ctl) option" where
  "scale_setup e ctrl s =
     (let type = bRequestType ctrl AND 0x60 in
      Option.bind
        (if type = 0 then standard_requests e ctrl s
         else if type = 0x20 then class_requests e ctrl s
         else if type = 0x40 then vendor_requests ctrl s
         else Some (- EOPNOTSUPP, 0, s))
        (\<lambda>(v, tv, s1). map_option (\<lambda>(v', s2). (if v' \<ge> 0 then uint (wLength ctrl) else v', set_interface_number SCALE_INTERFACE s2))
                         (respond_scale e ctrl v tv s1)))"

text \<open>
  The source holds \<^verbatim>\<open>dev->lock\<close> around \<^verbatim>\<open>scale_reset_interface\<close>, and a completion that
  \<^verbatim>\<open>usb_ep_disable\<close> runs takes the same lock in \<^verbatim>\<open>tx_complete\<close>. Where the lock is real (several
  processors) and the controller completes requests inside \<^verbatim>\<open>usb_ep_disable\<close>, the source deadlocks
  with transfers under way; locks are not part of this model, which says what happens when the lock is granted.
\<close>

definition scale_disconnect :: "ctl_env \<Rightarrow> scale_ctl \<Rightarrow> scale_ctl" where
  "scale_disconnect e s = scale_reset_interface e s"

end
