(* ===== verification/ScaleStream.thy ===== *)
theory ScaleStream
  imports ScaleIo
begin

text \<open>
  What the data path of the scale gadget guarantees: no request is lost or used twice, however file
  operations and interrupts interleave; the bytes that \<open>scale_read\<close> delivers are the bytes that
  arrived, in order; \<open>scale_write\<close> cuts the data into requests of at most 512 bytes.
\<close>

section \<open>The requests of a device\<close>

definition cur_req :: "(nat \<times> nat \<times> nat) option \<Rightarrow> nat list" where
  "cur_req cur = (case cur of None \<Rightarrow> [] | Some (r, _, _) \<Rightarrow> [r])"

text \<open>All requests, together with those an operation has in its hands.\<close>

definition all_reqs :: "nat list \<Rightarrow> scale_dev \<Rightarrow> nat list" where
  "all_reqs held s = rx_reqs s @ rx_reqs_active s @ rx_buffers s @ cur_req (current_rx s) @
     tx_reqs s @ tx_reqs_active s @ held"

definition buffers_ok :: "scale_dev \<Rightarrow> bool" where
  "buffers_ok s \<longleftrightarrow> (\<forall>r\<in>set (rx_buffers s). 0 < rq_actual (reqs s r) \<and> rq_actual (reqs s r) = length (rq_buf (reqs s r)))"

definition cur_ok :: "(nat \<times> nat \<times> nat) option \<Rightarrow> scale_dev \<Rightarrow> bool" where
  "cur_ok cur s \<longleftrightarrow> (\<forall>r n off. cur = Some (r, n, off) \<longrightarrow> 0 < n \<and> off + n = length (rq_buf (reqs s r)))"

text \<open>The bytes of a request that is being read, and of the buffers behind it.\<close>

definition cur_bytes :: "(nat \<times> nat \<times> nat) option \<Rightarrow> scale_dev \<Rightarrow> bytes" where
  "cur_bytes cur s = (case cur of None \<Rightarrow> [] | Some (r, n, off) \<Rightarrow> take n (drop off (rq_buf (reqs s r))))"

definition buffered :: "scale_dev \<Rightarrow> bytes" where
  "buffered s = concat (map (\<lambda>r. rq_buf (reqs s r)) (rx_buffers s))"

definition io_inv :: "nat list \<Rightarrow> scale_dev \<Rightarrow> bool" where
  "io_inv held s \<longleftrightarrow> distinct (all_reqs held s) \<and> buffers_ok s \<and> cur_ok (current_rx s) s"

text \<open>What a step that is not a reset keeps.\<close>

lemma io_inv_perm: "io_inv held s \<Longrightarrow> mset (all_reqs held' s') = mset (all_reqs held s) \<Longrightarrow> distinct (all_reqs held' s')"
  by (metis io_inv_def mset_eq_imp_distinct_iff)

text \<open>The other fields do not matter to the pools.\<close>

lemma pools_update [simp]:
  "all_reqs held (s\<lparr>io_locked := v0\<rparr>) = all_reqs held s" "io_inv held (s\<lparr>io_locked := v0\<rparr>) = io_inv held s"
  "buffered (s\<lparr>io_locked := v0\<rparr>) = buffered s" "cur_bytes cur (s\<lparr>io_locked := v0\<rparr>) = cur_bytes cur s"
  "all_reqs held (s\<lparr>reset_scale := v1\<rparr>) = all_reqs held s" "io_inv held (s\<lparr>reset_scale := v1\<rparr>) = io_inv held s"
  "buffered (s\<lparr>reset_scale := v1\<rparr>) = buffered s" "cur_bytes cur (s\<lparr>reset_scale := v1\<rparr>) = cur_bytes cur s"
  "all_reqs held (s\<lparr>scale_status := v2\<rparr>) = all_reqs held s" "io_inv held (s\<lparr>scale_status := v2\<rparr>) = io_inv held s"
  "buffered (s\<lparr>scale_status := v2\<rparr>) = buffered s" "cur_bytes cur (s\<lparr>scale_status := v2\<rparr>) = cur_bytes cur s"
  "all_reqs held (s\<lparr>interface := v3\<rparr>) = all_reqs held s" "io_inv held (s\<lparr>interface := v3\<rparr>) = io_inv held s"
  "buffered (s\<lparr>interface := v3\<rparr>) = buffered s" "cur_bytes cur (s\<lparr>interface := v3\<rparr>) = cur_bytes cur s"
  "all_reqs held (s\<lparr>scale_cdev_open := v4\<rparr>) = all_reqs held s" "io_inv held (s\<lparr>scale_cdev_open := v4\<rparr>) = io_inv held s"
  "buffered (s\<lparr>scale_cdev_open := v4\<rparr>) = buffered s" "cur_bytes cur (s\<lparr>scale_cdev_open := v4\<rparr>) = cur_bytes cur s"
  "all_reqs held (s\<lparr>submitted := v5\<rparr>) = all_reqs held s" "io_inv held (s\<lparr>submitted := v5\<rparr>) = io_inv held s"
  "buffered (s\<lparr>submitted := v5\<rparr>) = buffered s" "cur_bytes cur (s\<lparr>submitted := v5\<rparr>) = cur_bytes cur s"
  "buffered (s\<lparr>current_rx := v6\<rparr>) = buffered s" "cur_bytes cur (s\<lparr>current_rx := v6\<rparr>) = cur_bytes cur s"
  by (simp_all add: all_reqs_def io_inv_def buffers_ok_def cur_ok_def buffered_def cur_bytes_def split: option.split)

lemma rx_complete_simps [simp]:
  "reqs (rx_complete r st data s) = (reqs s)(r := (reqs s r)\<lparr>rq_buf := data, rq_actual := length data\<rparr>)"
  "rx_buffers (rx_complete r st data s) = rx_buffers s @ (if st = 0 \<and> data \<noteq> [] then [r] else [])"
  "rx_reqs (rx_complete r st data s) = (if st = 0 \<and> data \<noteq> [] then rx_reqs s else r # rx_reqs s)"
  "rx_reqs_active (rx_complete r st data s) = remove1 r (rx_reqs_active s)"
  "rx_total (rx_complete r st data s) = rx_total s @ (if st = 0 then data else [])"
  "current_rx (rx_complete r st data s) = current_rx s" "tx_reqs (rx_complete r st data s) = tx_reqs s"
  "tx_reqs_active (rx_complete r st data s) = tx_reqs_active s" "reset_scale (rx_complete r st data s) = reset_scale s"
  "io_locked (rx_complete r st data s) = io_locked s" "submitted (rx_complete r st data s) = submitted s"
  by (simp_all add: rx_complete_def upd_req_def Let_def)

lemma rx_complete_keeps:
  assumes "io_inv held s" and "r \<in> set (rx_reqs_active s)"
  shows "mset (all_reqs held (rx_complete r st data s)) = mset (all_reqs held s)"
  using assms(2) by (auto simp: all_reqs_def)

lemma do_irq_mset: "io_inv held s \<Longrightarrow> mset (all_reqs held (do_irq i s)) = mset (all_reqs held s)"
proof (cases i)
  case (RxDone r st data)
  then show "io_inv held s \<Longrightarrow> ?thesis" by (simp add: rx_complete_keeps)
next
  case (TxDone r st)
  then show ?thesis by (auto simp: tx_complete_def all_reqs_def)
next
  case Reset
  then show ?thesis by (auto simp: all_reqs_def reset_io_def cur_req_def split: option.splits)
qed

lemma not_elsewhere:
  assumes "io_inv held s" and "r \<in> set (rx_reqs_active s)"
  shows "r \<notin> set (rx_buffers s)" and "r \<notin> set held" and "r \<notin> set (cur_req (current_rx s))"
  using assms by (auto simp: io_inv_def all_reqs_def)

lemma rx_complete_reqs:
  assumes "io_inv held s" and "r \<in> set (rx_reqs_active s)" and "r' \<in> set held \<union> set (rx_buffers s) \<union> set (cur_req (current_rx s))"
  shows "reqs (rx_complete r st data s) r' = reqs s r'"
  using not_elsewhere [OF assms(1,2)] assms(3) by auto

lemma do_irq_inv:
  assumes "io_inv held s"
  shows "io_inv held (do_irq i s) \<and> (\<forall>r\<in>set held. reqs (do_irq i s) r = reqs s r)"
proof (cases i)
  case (RxDone r st data)
  show ?thesis
  proof (cases "r \<in> set (rx_reqs_active s) \<and> length data \<le> 512")
    case True
    note q = rx_complete_reqs [OF assms, of r _ st data]
    have "buffers_ok (rx_complete r st data s)"
      using assms True not_elsewhere(1) [OF assms, of r]
      by (auto simp: buffers_ok_def io_inv_def)
    moreover have "cur_ok (current_rx s) (rx_complete r st data s)"
      using assms True not_elsewhere(3) [OF assms, of r] by (auto simp: cur_ok_def io_inv_def cur_req_def)
    moreover have "distinct (all_reqs held (rx_complete r st data s))"
      using io_inv_perm [OF assms] rx_complete_keeps [OF assms] True by blast
    ultimately show ?thesis using RxDone True q by (simp add: io_inv_def del: rx_complete_simps(1))
  qed (use RxDone assms in auto)
next
  case (TxDone r st)
  have "distinct (all_reqs held (do_irq i s))" using io_inv_perm [OF assms do_irq_mset [OF assms]] .
  then show ?thesis
    using TxDone assms by (auto simp: io_inv_def tx_complete_def buffers_ok_def cur_ok_def)
next
  case Reset
  have "distinct (all_reqs held (do_irq i s))" using io_inv_perm [OF assms do_irq_mset [OF assms]] .
  then show ?thesis
    using Reset assms by (auto simp: io_inv_def reset_io_def buffers_ok_def cur_ok_def split: option.splits)
qed

lemma irqs_inv:
  assumes "io_inv held s"
  shows "io_inv held (fold do_irq is s) \<and> mset (all_reqs held (fold do_irq is s)) = mset (all_reqs held s) \<and>
         (\<forall>r\<in>set held. reqs (fold do_irq is s) r = reqs s r)"
  using assms
proof (induction "is" arbitrary: s)
  case (Cons i "is")
  then show ?case using do_irq_inv [OF Cons.prems, of i] do_irq_mset [OF Cons.prems, of i] by auto
qed simp

text \<open>
  Interrupts other than a reset only add bytes at the end.
\<close>

definition arrives :: "bytes \<Rightarrow> scale_dev \<Rightarrow> scale_dev \<Rightarrow> bool" where
  "arrives new s s' \<longleftrightarrow> rx_total s' = rx_total s @ new \<and> buffered s' = buffered s @ new \<and>
     current_rx s' = current_rx s \<and> cur_bytes (current_rx s) s' = cur_bytes (current_rx s) s \<and> reset_scale s' = reset_scale s"

lemma arrives_refl [simp]: "arrives [] s s"
  by (simp add: arrives_def)

lemma arrives_trans: "arrives a s s' \<Longrightarrow> arrives b s' s'' \<Longrightarrow> arrives (a @ b) s s''"
  by (simp add: arrives_def)

lemma rx_complete_arrives:
  assumes "io_inv held s" and "r \<in> set (rx_reqs_active s)"
  shows "arrives (if st = 0 then data else []) s (rx_complete r st data s)"
proof -
  have e: "map (\<lambda>r'. rq_buf (reqs (rx_complete r st data s) r')) (rx_buffers s) = map (\<lambda>r. rq_buf (reqs s r)) (rx_buffers s)"
    using not_elsewhere(1) [OF assms] by auto
  have "buffered (rx_complete r st data s) = buffered s @ (if st = 0 then data else [])"
    unfolding buffered_def rx_complete_simps(2) map_append e concat_append by simp
  moreover have "cur_bytes (current_rx s) (rx_complete r st data s) = cur_bytes (current_rx s) s"
    using not_elsewhere(3) [OF assms] by (auto simp: cur_bytes_def cur_req_def split: option.splits)
  ultimately show ?thesis by (simp add: arrives_def)
qed

lemma do_irq_arrives:
  assumes "io_inv held s" and "i \<noteq> Reset"
  shows "\<exists>new. arrives new s (do_irq i s)"
proof (cases i)
  case (RxDone r st data)
  then show ?thesis using rx_complete_arrives [OF assms(1), of r st data] by (auto intro: exI [of _ "[]"])
next
  case (TxDone r st)
  then show ?thesis
    by (intro exI [of _ "[]"]) (auto simp: arrives_def tx_complete_def buffered_def cur_bytes_def split: option.splits)
qed (use assms in simp)

lemma irqs_arrive:
  assumes "io_inv held s" and "Reset \<notin> set is"
  shows "\<exists>new. arrives new s (fold do_irq is s)"
  using assms
proof (induction "is" arbitrary: s)
  case (Cons i "is")
  obtain a where a: "arrives a s (do_irq i s)" using do_irq_arrives [OF Cons.prems(1), of i] Cons.prems(2) by auto
  obtain b where "arrives b (do_irq i s) (fold do_irq is (do_irq i s))"
    using Cons.IH [of "do_irq i s"] do_irq_inv [OF Cons.prems(1)] Cons.prems(2) by auto
  then show ?case using arrives_trans [OF a] by auto
qed (auto intro: exI [of _ "[]"])

section \<open>Reading\<close>

lemma setup_rx_keeps:
  assumes "io_inv held s" and "rx_reqs s = rs"
  shows "io_inv held (setup_rx_from e rs s) \<and>
         mset (all_reqs held (setup_rx_from e rs s)) = mset (all_reqs held s) \<and>
         arrives [] s (setup_rx_from e rs s) \<and> (\<forall>r. rq_buf (reqs (setup_rx_from e rs s) r) = rq_buf (reqs s r)) \<and>
         io_locked (setup_rx_from e rs s) = io_locked s \<and> tx_reqs (setup_rx_from e rs s) = tx_reqs s"
  using assms
proof (induction rs arbitrary: s)
  case Nil
  then show ?case by simp
next
  case (Cons r rs)
  define s1 where "s1 = upd_req r (\<lambda>q. q\<lparr>rq_length := 512\<rparr>) (s\<lparr>rx_reqs := rs\<rparr>)"
  define err where "err = ep_queue e (SubmitRx r) (submitted s1)"
  define s2 where "s2 = s1\<lparr>submitted := submitted s1 @ [SubmitRx r]\<rparr>"
  define s3 where "s3 = (if err \<noteq> 0 then s2\<lparr>rx_reqs := r # rx_reqs s2\<rparr> else s2\<lparr>rx_reqs_active := r # rx_reqs_active s2\<rparr>)"
  have f: "rx_reqs s2 = rs" "rx_buffers s3 = rx_buffers s" "current_rx s3 = current_rx s"
      "\<And>q. rq_buf (reqs s3 q) = rq_buf (reqs s q)" "\<And>q. rq_actual (reqs s3 q) = rq_actual (reqs s q)"
      "io_locked s3 = io_locked s" "tx_reqs s3 = tx_reqs s"
      "rx_total s3 = rx_total s" "reset_scale s3 = reset_scale s"
    by (simp_all add: s3_def s2_def s1_def upd_req_def)
  have m: "mset (all_reqs held s3) = mset (all_reqs held s)"
    using Cons.prems(2) by (auto simp: s3_def s2_def s1_def upd_req_def all_reqs_def)
  have inv: "io_inv held s3"
    using Cons.prems(1) io_inv_perm [OF Cons.prems(1) m] f(2-5) unfolding io_inv_def buffers_ok_def cur_ok_def by auto
  have a: "arrives [] s s3"
    using f by (simp add: arrives_def buffered_def cur_bytes_def split: option.split)
  show ?case
  proof (cases "err = 0")
    case False
    then have "setup_rx_from e (r # rs) s = s3" by (simp add: s3_def s2_def err_def s1_def Let_def)
    then show ?thesis using inv m a f by simp
  next
    case True
    then have run: "setup_rx_from e (r # rs) s = setup_rx_from e rs s3"
      by (simp add: s3_def s2_def err_def s1_def Let_def)
    have "rx_reqs s3 = rs" using True f(1) by (simp add: s3_def)
    from Cons.IH [OF inv this] show ?thesis
      unfolding run using m arrives_trans [OF a, of "[]"] f by auto
  qed
qed

lemma irqs_current: "current_rx s = None \<Longrightarrow> current_rx (fold do_irq is s) = None"
proof (induction "is" arbitrary: s)
  case (Cons i "is")
  have "current_rx (do_irq i s) = None"
    using Cons.prems by (cases i) (simp_all add: tx_complete_def reset_io_def)
  then show ?case using Cons.IH by simp
qed simp

text \<open>The state of the loop of \<open>scale_read\<close>: the request being read is in the hands of the loop.\<close>

definition loop_inv :: "(nat \<times> nat \<times> nat) option \<Rightarrow> scale_dev \<Rightarrow> bool" where
  "loop_inv cur s \<longleftrightarrow> io_inv (cur_req cur) s \<and> cur_ok cur s \<and> current_rx s = None"

definition stream_left :: "(nat \<times> nat \<times> nat) option \<Rightarrow> scale_dev \<Rightarrow> bytes" where
  "stream_left cur s = cur_bytes cur s @ buffered s"

text \<open>Handing the request back to the device.\<close>

lemma loop_inv_cur:
  assumes "loop_inv cur s"
  shows "io_inv [] (s\<lparr>current_rx := cur\<rparr>)" and "mset (all_reqs [] (s\<lparr>current_rx := cur\<rparr>)) = mset (all_reqs (cur_req cur) s)"
proof -
  show m: "mset (all_reqs [] (s\<lparr>current_rx := cur\<rparr>)) = mset (all_reqs (cur_req cur) s)"
    using assms by (simp add: all_reqs_def loop_inv_def cur_req_def [of None])
  have "distinct (all_reqs [] (s\<lparr>current_rx := cur\<rparr>))"
    using assms io_inv_perm [OF _ m] by (simp add: loop_inv_def)
  then show "io_inv [] (s\<lparr>current_rx := cur\<rparr>)"
    using assms by (auto simp: io_inv_def loop_inv_def buffers_ok_def cur_ok_def)
qed

lemma rx_left_zero: "cur_ok cur s \<Longrightarrow> rx_left cur = 0 \<longleftrightarrow> cur = None"
  by (cases cur) (auto simp: cur_ok_def rx_left_def)

lemma next_rx_ok:
  assumes "loop_inv cur s" and "\<not> (rx_left cur = 0 \<and> rx_buffers s = [])"
  obtains r n off s1 where "next_rx cur s = (Some (r, n, off), s1)" and "loop_inv (Some (r, n, off)) s1"
    and "mset (all_reqs [r] s1) = mset (all_reqs (cur_req cur) s)"
    and "stream_left (Some (r, n, off)) s1 = stream_left cur s" and "rx_total s1 = rx_total s"
    and "reset_scale s1 = reset_scale s"
proof (cases cur)
  case None
  then obtain r rs where b: "rx_buffers s = r # rs" using assms(2) by (cases "rx_buffers s") (auto simp: rx_left_def)
  let ?s = "s\<lparr>rx_buffers := rs\<rparr>" and ?n = "rq_actual (reqs s r)"
  have ok: "0 < ?n" "?n = length (rq_buf (reqs s r))" using assms(1) b by (auto simp: loop_inv_def io_inv_def buffers_ok_def)
  have m: "mset (all_reqs [r] ?s) = mset (all_reqs (cur_req cur) s)" using b None by (simp add: all_reqs_def cur_req_def)
  have "distinct (all_reqs [r] ?s)" using assms(1) m unfolding loop_inv_def by (blast intro: io_inv_perm)
  then have "loop_inv (Some (r, ?n, 0)) ?s"
    using assms(1) b ok by (auto simp: loop_inv_def io_inv_def buffers_ok_def cur_ok_def cur_req_def)
  moreover have "stream_left (Some (r, ?n, 0)) ?s = stream_left cur s"
    using b ok None by (simp add: stream_left_def cur_bytes_def buffered_def)
  moreover have "next_rx cur s = (Some (r, ?n, 0), ?s)" using b ok None by (simp add: next_rx_def rx_left_def)
  ultimately show ?thesis using that m by simp
next
  case (Some c)
  obtain r n off where c: "c = (r, n, off)" by (rule prod_cases3)
  have "0 < n" using assms(1) Some c by (simp add: loop_inv_def cur_ok_def)
  then have "next_rx cur s = (Some (r, n, off), s)" using Some c by (simp add: next_rx_def rx_left_def)
  then show ?thesis using that assms(1) Some c by (simp add: cur_req_def)
qed

lemma read_piece_ok:
  assumes "loop_inv (Some (r, n, off)) s" and "read_piece ws len r n off s = (sz, out, fin, s')"
  shows "length out = sz \<and> sz \<le> len \<and>
     (case fin of
        ReadReset \<Rightarrow> io_inv [] s' \<and> mset (all_reqs [] s') = mset (all_reqs [r] s) \<and> current_rx s' = None \<and>
                     (reset_scale s \<or> Reset \<in> set (irqs_of ws))
      | ReadDone cur' \<Rightarrow> loop_inv cur' s' \<and> mset (all_reqs (cur_req cur') s') = mset (all_reqs [r] s) \<and>
          (Reset \<notin> set (irqs_of ws) \<longrightarrow>
             (\<exists>new. rx_total s' = rx_total s @ new \<and> reset_scale s' = reset_scale s \<and>
                    out @ stream_left cur' s' = stream_left (Some (r, n, off)) s @ new)))"
proof -
  define s1 where "s1 = fold do_irq (irqs_of ws) s"
  have inv: "io_inv [r] s" "off + n = length (rq_buf (reqs s r))" "0 < n" "current_rx s = None"
    using assms(1) by (auto simp: loop_inv_def cur_req_def cur_ok_def)
  note k = irqs_inv [OF inv(1), of "irqs_of ws", folded s1_def]
  have rr: "reqs s1 r = reqs s r" and i1: "io_inv [r] s1" and m1: "mset (all_reqs [r] s1) = mset (all_reqs [r] s)"
    using k by auto
  have c1: "current_rx s1 = None" unfolding s1_def by (rule irqs_current [OF inv(4)])
  define k0 where "k0 = min len n - uncopied ws"
  have rp: "read_piece ws len r n off s =
      (if reset_scale s1 then (k0, take k0 (drop off (rq_buf (reqs s r))), ReadReset, s1\<lparr>rx_reqs := r # rx_reqs s1\<rparr>)
       else if k0 < n then (k0, take k0 (drop off (rq_buf (reqs s r))), ReadDone (Some (r, n - k0, off + k0)), s1)
       else (k0, take k0 (drop off (rq_buf (reqs s r))), ReadDone None, s1\<lparr>rx_reqs := r # rx_reqs s1\<rparr>))"
    unfolding read_piece_def Let_def k0_def s1_def min_def by auto
  have sz: "sz = k0" and out: "out = take k0 (drop off (rq_buf (reqs s r)))"
    using assms(2) unfolding rp by (auto split: if_splits)
  have kn: "k0 \<le> n" "k0 \<le> len" by (simp_all add: k0_def)
  let ?s2 = "s1\<lparr>rx_reqs := r # rx_reqs s1\<rparr>"
  have m2: "mset (all_reqs [] ?s2) = mset (all_reqs [r] s1)" by (simp add: all_reqs_def)
  have i2: "io_inv [] ?s2"
    using i1 io_inv_perm [OF i1 m2] by (auto simp: io_inv_def buffers_ok_def cur_ok_def)
  have str: "\<exists>new. rx_total s1 = rx_total s @ new \<and> reset_scale s1 = reset_scale s \<and> buffered s1 = buffered s @ new"
    if "Reset \<notin> set (irqs_of ws)"
    using irqs_arrive [OF inv(1) that] unfolding s1_def arrives_def by auto
  have len: "length out = sz" "sz \<le> len" using out sz inv(2) kn by auto
  have split: "take n (drop off (rq_buf (reqs s r))) = out @ take (n - sz) (drop (off + sz) (rq_buf (reqs s r)))"
    using take_add [of k0 "n - k0" "drop off (rq_buf (reqs s r))"] kn(1) unfolding out sz by (simp add: add.commute)
  consider (reset) "reset_scale s1" | (more) "\<not> reset_scale s1" "sz < n" | (all) "\<not> reset_scale s1" "\<not> sz < n" by blast
  then show ?thesis
  proof cases
    case reset
    moreover have "reset_scale s \<or> Reset \<in> set (irqs_of ws)" using reset str by auto
    moreover have "fin = ReadReset" "s' = ?s2" using assms(2) reset unfolding rp by simp_all
    ultimately show ?thesis using len i2 m1 m2 c1 by simp
  next
    case more
    have "loop_inv (Some (r, n - sz, off + sz)) s1"
      using i1 c1 rr inv(2) more by (auto simp: loop_inv_def cur_req_def cur_ok_def)
    moreover have "fin = ReadDone (Some (r, n - sz, off + sz))" "s' = s1" using assms(2) more sz unfolding rp by simp_all
    ultimately show ?thesis
      using len m1 str split rr by (auto simp: stream_left_def cur_bytes_def cur_req_def)
  next
    case all
    have "n = sz" using all sz kn(1) by simp
    then have "take n (drop off (rq_buf (reqs s r))) = out" using split by simp
    moreover have "loop_inv None ?s2" using i2 c1 by (simp add: loop_inv_def cur_req_def cur_ok_def)
    moreover have "buffered ?s2 = buffered s1" by (simp add: buffered_def)
    moreover have "fin = ReadDone None" "s' = ?s2" using assms(2) all sz unfolding rp by simp_all
    ultimately show ?thesis
      using len m1 m2 str by (auto simp: stream_left_def cur_bytes_def cur_req_def)
  qed
qed

lemma read_piece_reset:
  "read_piece ws len r n off s = (sz, out, ReadDone cur', s') \<Longrightarrow> \<not> reset_scale s'"
  by (auto simp: read_piece_def Let_def split: if_splits)

definition resets :: "win list \<Rightarrow> bool" where
  "resets ws \<longleftrightarrow> (\<exists>w\<in>set ws. Reset \<in> set (snd w))"

lemma resets_tl: "resets (tl ws) \<Longrightarrow> resets ws"
  by (cases ws) (auto simp: resets_def)

lemma resets_hd: "Reset \<in> set (irqs_of ws) \<Longrightarrow> resets ws"
  by (cases ws) (auto simp: resets_def irqs_of_def)

text \<open>
  What the loop guarantees for the windows \<open>ws\<close>: it delivers \<open>data\<close> and ends in \<open>s'\<close>.
\<close>

definition read_result ::
    "win list \<Rightarrow> nat \<Rightarrow> (nat \<times> nat \<times> nat) option \<Rightarrow> scale_dev \<Rightarrow> bytes \<Rightarrow> read_end \<Rightarrow> scale_dev \<Rightarrow> bool" where
  "read_result ws len cur s data fin s' \<longleftrightarrow> length data \<le> len \<and>
     (case fin of
        ReadReset \<Rightarrow> io_inv [] s' \<and> mset (all_reqs [] s') = mset (all_reqs (cur_req cur) s) \<and> current_rx s' = None \<and>
                     (reset_scale s \<or> resets ws)
      | ReadDone cur' \<Rightarrow> loop_inv cur' s' \<and> mset (all_reqs (cur_req cur') s') = mset (all_reqs (cur_req cur) s) \<and>
          (length data = len \<or> stream_left cur' s' = []) \<and>
          (\<not> resets ws \<longrightarrow>
             (\<exists>new. rx_total s' = rx_total s @ new \<and> data @ stream_left cur' s' = stream_left cur s @ new)))"

lemma read_loop_ok:
  assumes "loop_inv cur s" and "read_loop ws len cur acc s = (out, fin, s', ws')"
  shows "\<exists>data. out = acc @ data \<and> read_result ws len cur s data fin s'"
  using assms
proof (induction ws len cur acc s rule: read_loop.induct)
  case (1 ws len cur acc s)
  show ?case
  proof (cases "rx_left cur = 0 \<and> rx_buffers s = [] \<or> len = 0")
    case True
    then have "out = acc" "fin = ReadDone cur" "s' = s" using "1.prems"(2) by (auto simp: read_loop.simps)
    moreover have "len = 0 \<or> stream_left cur s = []"
      using True "1.prems"(1) rx_left_zero [of cur s] by (auto simp: loop_inv_def stream_left_def cur_bytes_def buffered_def)
    ultimately show ?thesis using "1.prems"(1) by (auto simp: read_result_def)
  next
    case False
    then obtain r n off s1 where nx: "next_rx cur s = (Some (r, n, off), s1)" and l1: "loop_inv (Some (r, n, off)) s1"
        and m1: "mset (all_reqs [r] s1) = mset (all_reqs (cur_req cur) s)"
        and st1: "stream_left (Some (r, n, off)) s1 = stream_left cur s" "rx_total s1 = rx_total s" "reset_scale s1 = reset_scale s"
      using next_rx_ok [OF "1.prems"(1)] by metis
    obtain sz o1 e1 s2 where rp: "read_piece ws len r n off s1 = (sz, o1, e1, s2)" by (rule prod_cases4)
    note piece = read_piece_ok [OF l1 rp]
    show ?thesis
    proof (cases e1)
      case ReadReset
      then have "out = acc @ o1" "fin = ReadReset" "s' = s2"
        using "1.prems"(2) False nx rp by (auto simp: read_loop.simps)
      then show ?thesis
        using piece ReadReset m1 st1 resets_hd [of ws] by (auto simp: read_result_def)
    next
      case (ReadDone cur2)
      then have run: "read_loop (tl ws) (len - sz) cur2 (acc @ o1) s2 = (out, fin, s', ws')"
        using "1.prems"(2) False nx rp by (subst (asm) read_loop.simps) (simp add: split: prod.splits)
      have l2: "loop_inv cur2 s2" and m2: "mset (all_reqs (cur_req cur2) s2) = mset (all_reqs [r] s1)"
        and len: "length o1 = sz" "sz \<le> len"
        and st2: "\<not> resets ws \<Longrightarrow> \<exists>new. rx_total s2 = rx_total s1 @ new \<and> reset_scale s2 = reset_scale s1 \<and>
                    o1 @ stream_left cur2 s2 = stream_left (Some (r, n, off)) s1 @ new"
        using piece ReadDone resets_hd [of ws] by auto
      have nr: "\<not> reset_scale s2"
        by (rule read_piece_reset [OF rp [unfolded ReadDone]])
      from "1.IH"(2) [OF False nx [symmetric] refl refl refl rp [symmetric] refl refl ReadDone l2 run]
      obtain d2 where d2: "out = (acc @ o1) @ d2" "read_result (tl ws) (len - sz) cur2 s2 d2 fin s'" by blast
      have "read_result ws len cur s (o1 @ d2) fin s'"
      proof (cases fin)
        case ReadReset
        then show ?thesis using d2(2) len m1 m2 nr resets_tl [of ws] by (auto simp: read_result_def)
      next
        case (ReadDone cur3)
        have "\<exists>new. rx_total s' = rx_total s @ new \<and> (o1 @ d2) @ stream_left cur3 s' = stream_left cur s @ new"
          if nw: "\<not> resets ws"
        proof -
          obtain a where a: "rx_total s2 = rx_total s1 @ a" "o1 @ stream_left cur2 s2 = stream_left (Some (r, n, off)) s1 @ a"
            using st2 [OF nw] by blast
          obtain b where b: "rx_total s' = rx_total s2 @ b" "d2 @ stream_left cur3 s' = stream_left cur2 s2 @ b"
            using d2(2) ReadDone nw resets_tl [of ws] by (auto simp: read_result_def)
          have "(o1 @ d2) @ stream_left cur3 s' = (o1 @ stream_left cur2 s2) @ b" using b(2) by simp
          then show ?thesis using a b(1) st1 by auto
        qed
        then show ?thesis using d2(2) ReadDone len m1 m2 by (auto simp: read_result_def)
      qed
      then show ?thesis using d2(1) by auto
    qed
  qed
qed

text \<open>The bytes that wait to be read.\<close>

definition pending :: "scale_dev \<Rightarrow> bytes" where
  "pending s = stream_left (current_rx s) s"

text \<open>A step that delivers \<open>out\<close>: the bytes it leaves are those that waited and those that arrived.\<close>

definition streams :: "bytes \<Rightarrow> scale_dev \<Rightarrow> scale_dev \<Rightarrow> bool" where
  "streams out s s' \<longleftrightarrow> (\<exists>new. rx_total s' = rx_total s @ new \<and> out @ pending s' = pending s @ new)"

lemma streams_refl [simp]: "streams [] s s"
  by (simp add: streams_def)

lemma streams_trans: "streams a s s' \<Longrightarrow> streams b s' s'' \<Longrightarrow> streams (a @ b) s s''"
  unfolding streams_def
proof (elim exE conjE)
  fix x y
  assume "rx_total s' = rx_total s @ x" "a @ pending s' = pending s @ x"
    "rx_total s'' = rx_total s' @ y" "b @ pending s'' = pending s' @ y"
  then have "rx_total s'' = rx_total s @ x @ y \<and> (a @ b) @ pending s'' = pending s @ x @ y"
    by (metis append.assoc)
  then show "\<exists>new. rx_total s'' = rx_total s @ new \<and> (a @ b) @ pending s'' = pending s @ new" ..
qed

lemma arrives_streams: "arrives new s s' \<Longrightarrow> streams [] s s'"
  by (auto simp: arrives_def streams_def pending_def stream_left_def)

lemma scale_read_ok:
  assumes "io_inv [] s" and "scale_read e nb len ws s = Some (v, out, s', ws')"
  shows "io_inv [] s' \<and> mset (all_reqs [] s') = mset (all_reqs [] s) \<and> length out \<le> len \<and>
         (\<not> resets ws \<longrightarrow>
            streams out s s' \<and>
            v = (if len = 0 then - EINVAL else if out = [] then - EAGAIN else int (length out)) \<and>
            (len = 0 \<or> length out = len \<or> pending s' = []))"
proof (cases "len = 0")
  case True
  then show ?thesis using assms by (auto simp: scale_read_def)
next
  case False
  define s0 where "s0 = s\<lparr>io_locked := True, reset_scale := False\<rparr>"
  define s1 where "s1 = setup_rx_reqs e s0"
  define cur where "cur = current_rx s1"
  define s2 where "s2 = s1\<lparr>current_rx := None\<rparr>"
  have i0: "io_inv [] s0" "mset (all_reqs [] s0) = mset (all_reqs [] s)" "pending s0 = pending s" "rx_total s0 = rx_total s"
    using assms(1) by (simp_all add: s0_def pending_def stream_left_def)
  note su = setup_rx_keeps [OF i0(1) refl, of e, folded setup_rx_reqs_def s1_def]
  have p1: "pending s1 = pending s0" "rx_total s1 = rx_total s0" "\<not> reset_scale s1"
    using su by (auto simp: arrives_def pending_def stream_left_def s0_def)
  have l2: "loop_inv cur s2" "mset (all_reqs (cur_req cur) s2) = mset (all_reqs [] s)"
      "stream_left cur s2 = pending s" "rx_total s2 = rx_total s" "\<not> reset_scale s2"
  proof -
    have m: "mset (all_reqs (cur_req cur) s2) = mset (all_reqs [] s1)"
      by (simp add: all_reqs_def s2_def cur_def cur_req_def)
    then show "mset (all_reqs (cur_req cur) s2) = mset (all_reqs [] s)" using su i0 by simp
    have "distinct (all_reqs (cur_req cur) s2)" using io_inv_perm [OF _ m] su by blast
    then show "loop_inv cur s2"
      using su by (auto simp: loop_inv_def io_inv_def s2_def cur_def buffers_ok_def cur_ok_def)
    show "stream_left cur s2 = pending s"
      using p1 i0 by (simp add: pending_def stream_left_def s2_def cur_def)
    show "rx_total s2 = rx_total s" "\<not> reset_scale s2" using p1 i0 by (simp_all add: s2_def)
  qed
  define sl where "sl \<longleftrightarrow> rx_left cur = 0 \<and> rx_buffers s2 = []"
  define s3 where "s3 = (if sl then fold do_irq (irqs_of ws) s2 else s2)"
  have sl_none: "sl \<Longrightarrow> cur = None" using l2(1) rx_left_zero [of cur s2] by (simp add: sl_def loop_inv_def)
  have ul: "\<not> io_locked s" using assms(2) False by (auto simp: scale_read_def split: if_splits)
  show ?thesis
  proof (cases "sl \<and> nb")
    case True
    then have "v = - EAGAIN" "out = []" "s' = s2\<lparr>io_locked := False\<rparr>"
      using assms(2) False ul by (simp_all add: scale_read_def Let_def s0_def s1_def cur_def s2_def sl_def)
    moreover have "cur = None" using True sl_none by simp
    moreover have "stream_left cur s2 = []" using True \<open>cur = None\<close> by (simp add: stream_left_def cur_bytes_def buffered_def sl_def)
    ultimately show ?thesis
      using l2 False by (simp add: loop_inv_def cur_req_def pending_def stream_left_def streams_def)
  next
    case False
    obtain out' fin s4 ws4 where run: "read_loop (if sl then tl ws else ws) len cur [] s3 = (out', fin, s4, ws4)"
      by (rule prod_cases4)
    have "scale_read e nb len ws s = (case read_loop (if sl then tl ws else ws) len cur [] s3 of
              (out, ReadReset, s4, ws') \<Rightarrow> Some (- EAGAIN, out, s4\<lparr>io_locked := False\<rparr>, ws')
            | (out, ReadDone cur', s4, ws') \<Rightarrow>
                Some (if out \<noteq> [] then int (length out) else - EAGAIN, out, s4\<lparr>current_rx := cur', io_locked := False\<rparr>, ws'))"
      using False ul \<open>len \<noteq> 0\<close> unfolding scale_read_def Let_def s3_def sl_def s2_def cur_def s1_def s0_def by auto
    then have res: "out = out'" "fin = ReadReset \<Longrightarrow> v = - EAGAIN \<and> s' = s4\<lparr>io_locked := False\<rparr>"
        "\<And>c. fin = ReadDone c \<Longrightarrow> v = (if out \<noteq> [] then int (length out) else - EAGAIN) \<and>
                                   s' = s4\<lparr>current_rx := c, io_locked := False\<rparr>"
      using assms(2) unfolding run by (simp_all split: read_end.splits)
    have cn: "current_rx s3 = None" using l2(1) irqs_current [of s2] by (simp add: s3_def loop_inv_def)
    have l3: "loop_inv cur s3" "mset (all_reqs (cur_req cur) s3) = mset (all_reqs [] s)"
      using l2(1,2) cn irqs_inv [of "cur_req cur" s2 "irqs_of ws"] sl_none
      by (auto simp: s3_def loop_inv_def cur_ok_def)
    have a3: "\<exists>new. rx_total s3 = rx_total s @ new \<and> stream_left cur s3 = pending s @ new \<and> \<not> reset_scale s3"
      if nr: "\<not> resets ws"
    proof (cases sl)
      case True
      obtain new where "arrives new s2 (fold do_irq (irqs_of ws) s2)"
        using irqs_arrive [of "cur_req cur" s2] l2(1) nr resets_hd [of ws] by (auto simp: loop_inv_def)
      then show ?thesis
        using True l2(3-5) sl_none by (auto simp: s3_def arrives_def stream_left_def cur_bytes_def)
    qed (use l2(3-5) in \<open>simp add: s3_def\<close>)
    have w: "resets (if sl then tl ws else ws) \<Longrightarrow> resets ws" using resets_tl [of ws] by (simp split: if_splits)
    from read_loop_ok [OF l3(1) run] have rr: "read_result (if sl then tl ws else ws) len cur s3 out fin s4" using res(1) by simp
    show ?thesis
    proof (cases fin)
      case ReadReset
      have rs: "resets ws" using rr ReadReset a3 w by (auto simp: read_result_def)
      show ?thesis using rr ReadReset rs res(2) l3(2) by (simp add: read_result_def)
    next
      case (ReadDone c)
      have s': "s' = s4\<lparr>current_rx := c, io_locked := False\<rparr>" and v: "v = (if out \<noteq> [] then int (length out) else - EAGAIN)"
        using res(3) [OF ReadDone] by simp_all
      have i4: "io_inv [] s'" "mset (all_reqs [] s') = mset (all_reqs [] s)" "pending s' = stream_left c s4" "rx_total s' = rx_total s4"
        using rr ReadDone l3(2) unfolding s' by (simp_all add: read_result_def loop_inv_cur pending_def stream_left_def)
      have "streams out s s'" if nr: "\<not> resets ws"
      proof -
        obtain a b where "rx_total s3 = rx_total s @ a" "stream_left cur s3 = pending s @ a"
            "rx_total s4 = rx_total s3 @ b" "out @ stream_left c s4 = stream_left cur s3 @ b"
          using a3 [OF nr] rr ReadDone nr w by (auto simp: read_result_def)
        then show ?thesis using i4 by (simp add: streams_def)
      qed
      then show ?thesis using i4 rr ReadDone v \<open>len \<noteq> 0\<close> by (auto simp: read_result_def)
    qed
  qed
qed

end
