(* ===== verification/ScaleCtl.thy ===== *)
theory ScaleCtl
  imports ScaleSetup ScaleStream
begin

text \<open>
  What the control path of the scale gadget guarantees: which requests stay inside their objects, both in
  the handler and in the data phase it starts, what the host receives, and that the requests of the data path survive every control request.
\<close>

section \<open>What every step keeps\<close>

definition pnp_count :: "bytes \<Rightarrow> nat" where
  "pnp_count p = unat (p ! 0) * 256 + unat (p ! 1)"

definition ctl_ok :: "scale_ctl \<Rightarrow> bool" where
  "ctl_ok s \<longleftrightarrow> length (ctl_buf s) = USB_DESC_BUFSIZE \<and> terminated_table (stringtab s) \<and>
     2 \<le> length (pnp_string s) \<and> pnp_count (pnp_string s) \<le> length (pnp_string s) \<and>
     pnp_count (pnp_string s) \<le> USB_DESC_BUFSIZE \<and> length (ep_descs s) = 6"

definition kept :: "scale_ctl \<Rightarrow> scale_ctl \<Rightarrow> bool" where
  "kept s s' \<longleftrightarrow> (ctl_ok s \<longrightarrow> ctl_ok s') \<and> test_in s' = test_in s \<and>
     (io_inv [] (io s) \<longrightarrow> io_inv [] (io s') \<and> mset (all_reqs [] (io s')) = mset (all_reqs [] (io s)))"

named_theorems kept_steps \<open>steps that keep the device in order\<close>

lemma kept_refl [simp]: "kept s s"
  by (simp add: kept_def)

lemma kept_trans: "kept s s' \<Longrightarrow> kept s' s'' \<Longrightarrow> kept s s''"
  by (auto simp: kept_def)

lemma kept_plain [kept_steps]:
  "kept s s' \<Longrightarrow> kept s (s'\<lparr>dev_in := a\<rparr>)" "kept s s' \<Longrightarrow> kept s (s'\<lparr>dev_out := b\<rparr>)"
  "kept s s' \<Longrightarrow> kept s (s'\<lparr>dev_config := c\<rparr>)" "kept s s' \<Longrightarrow> kept s (s'\<lparr>hw := h\<rparr>)"
  by (simp_all add: kept_def ctl_ok_def)

lemma kept_buf [kept_steps]: "kept s s' \<Longrightarrow> length m = USB_DESC_BUFSIZE \<Longrightarrow> kept s (s'\<lparr>ctl_buf := m\<rparr>)"
  by (simp add: kept_def ctl_ok_def)

lemma kept_hw_do [kept_steps]: "kept s s' \<Longrightarrow> kept s (snd (hw_do e c s'))"
  by (simp add: hw_do_def kept_steps)

lemma kept_interface [kept_steps]: "kept s s' \<Longrightarrow> kept s (set_interface_number n s')"
  by (simp add: kept_def set_interface_number_def ctl_ok_def)

lemma kept_disable [kept_steps]: "kept s s' \<Longrightarrow> kept s (usb_ep_disable e i s')"
  using irqs_inv [of "[]" "io s'" "disabling e i (io s')"]
  by (auto simp: kept_def usb_ep_disable_def ctl_ok_def)

lemma kept_set_scale [kept_steps]: "kept s s' \<Longrightarrow> kept s (snd (set_scale_interface e s'))"
  by (auto simp: set_scale_interface_def Let_def hw_do_def intro!: kept_steps)

lemma kept_reset_interface [kept_steps]: "kept s s' \<Longrightarrow> kept s (scale_reset_interface e s')"
  by (auto simp: scale_reset_interface_def Let_def intro!: kept_steps)

lemma kept_set_config [kept_steps]: "kept s s' \<Longrightarrow> kept s (snd (scale_set_config e n s'))"
  by (auto simp: scale_set_config_def Let_def intro!: kept_steps)

lemma kept_set_interface [kept_steps]: "kept s s' \<Longrightarrow> kept s (snd (scale_set_interface e n s'))"
proof -
  assume k: "kept s s'"
  define s1 where "s1 = (if interface (io s') = 0 then scale_reset_interface e s' else s')"
  have k1: "kept s s1" using k by (simp add: s1_def kept_steps)
  have "kept s (snd (set_scale_interface e s1))" using k1 by (rule kept_steps)
  then show ?thesis
    using k1 by (auto simp: scale_set_interface_def s1_def [symmetric] Let_def split: prod.splits intro!: kept_steps)
qed

section \<open>The branches\<close>

text \<open>A branch that stays inside its objects and asks for at most the buffer.\<close>

definition answers :: "scale_ctl \<Rightarrow> branch \<Rightarrow> bool" where
  "answers s b \<longleftrightarrow> (\<exists>v tv s'. b = Some (v, tv, s') \<and> v \<le> int USB_DESC_BUFSIZE \<and> kept s s')"

lemma answersI: "b = Some (v, tv, s') \<Longrightarrow> v \<le> 256 \<Longrightarrow> kept s s' \<Longrightarrow> answers s b"
  by (auto simp: answers_def)

lemma copy_reply_Some:
  assumes "ctl_ok s" and "n \<le> length src" and "n \<le> 256"
  shows "copy_reply src n s = Some (s\<lparr>ctl_buf := take n src @ drop n (ctl_buf s)\<rparr>)"
  using assms by (simp add: copy_reply_def ctl_ok_def mem_simps)

lemma copied_kept:
  assumes "ctl_ok s" and "n \<le> length src" and "n \<le> 256"
  shows "kept s (s\<lparr>ctl_buf := take n src @ drop n (ctl_buf s)\<rparr>)"
  using assms by (intro kept_steps) (auto simp: ctl_ok_def)

lemma copy_answers:
  assumes "ctl_ok s" and "n \<le> length src" and "n \<le> 256" and "v \<le> 256"
  shows "answers s (map_option (\<lambda>s1. (v, tv, s1)) (copy_reply src n s))"
  using copied_kept [OF assms(1-3)] assms(4) by (simp add: answers_def copy_reply_Some [OF assms(1-3)])

lemma clip16_le: "v \<le> 256 \<Longrightarrow> clip16 wl v \<le> 256"
  by (auto simp: clip16_def min_def)

lemma get_string_answers:
  assumes "ctl_ok s"
  shows "answers s (get_string_request ctrl s)"
proof -
  obtain r m where g: "usb_gadget_get_string (stringtab s) (uint (wValue ctrl AND 0xff)) (ctl_buf s) = Some (r, m)"
      "length m = 256" "r \<le> 254"
    using usb_gadget_get_string_ok [of "ctl_buf s" "stringtab s"] assms by (fastforce simp: ctl_ok_def)
  define s1 where "s1 = s\<lparr>ctl_buf := m\<rparr>"
  have k: "kept s s1" using g(2) by (simp add: s1_def kept_steps)
  then have ok: "ctl_ok s1" using assms by (simp add: kept_def)
  show ?thesis
  proof (cases "wIndex ctrl = 0x0409 \<and> (wValue ctrl = 0x0301 \<or> wValue ctrl = 0x0302)")
    case True
    have len: "length dmx_string = 33" by (simp add: dmx_string_def)
    have c: "copy_reply dmx_string 32 s1 = Some (s1\<lparr>ctl_buf := take 32 dmx_string @ drop 32 (ctl_buf s1)\<rparr>)"
      using ok len by (intro copy_reply_Some) simp_all
    have "kept s (s1\<lparr>ctl_buf := take 32 dmx_string @ drop 32 (ctl_buf s1)\<rparr>)"
      using copied_kept [OF ok, of 32 dmx_string] len kept_trans [OF k] by simp
    then show ?thesis
      using True g(1) c clip16_le [of 32] by (auto simp: answers_def get_string_request_def s1_def Let_def)
  next
    case False
    then show ?thesis
      using g k clip16_le [of r] by (auto simp: answers_def get_string_request_def s1_def Let_def)
  qed
qed

lemma config_total: "length eps = 6 \<Longrightarrow> descs_total (dmx_function eps) = 51 \<and> (\<forall>d\<in>set (dmx_function eps). exact_desc d)"
proof -
  assume "length eps = 6"
  moreover have "exact_desc (endpoint_bytes d) \<and> hd (endpoint_bytes d) = 7" for d
    by (cases d) (simp add: endpoint_bytes_def exact_desc_def)
  moreover have "exact_desc dmx_intf_desc" "hd dmx_intf_desc = 9" by (simp_all add: exact_desc_def dmx_intf_desc_def)
  ultimately show ?thesis by (auto simp: dmx_function_def descs_total_def comp_def sum_list_const_mult sum_list_triv)
qed

text \<open>The configuration the host sees: the header with the total length, the interface and six endpoints.\<close>

definition scale_config_bytes :: "u8 \<Rightarrow> (usb_endpoint_descriptor \<times> u8) list \<Rightarrow> bytes" where
  "scale_config_bytes type eps = config_bytes ((patched_config config_desc1 60)\<lparr>cfg_bDescriptorType := type\<rparr>) @
     concat (dmx_function eps)"

lemma config_buf1_Some:
  assumes "ctl_ok s" and "unat i < unat (d_numConfigurations (dev_desc s))"
  shows "config_buf1 type i s =
    Some (60, s\<lparr>ctl_buf := scale_config_bytes type (ep_descs s) @ replicate 196 0\<rparr>) \<and>
    length (scale_config_bytes type (ep_descs s)) = 60"
proof -
  have ds: "descs_total (dmx_function (ep_descs s)) = 51" "\<forall>d\<in>set (dmx_function (ep_descs s)). exact_desc d"
    using config_total assms(1) by (auto simp: ctl_ok_def)
  then have wf: "\<forall>d\<in>set (dmx_function (ep_descs s)). wf_desc d" and cp: "map desc_copy (dmx_function (ep_descs s)) = dmx_function (ep_descs s)"
    using exact_desc_wf by (auto intro!: map_idI)
  have len: "length (concat (dmx_function (ep_descs s))) = 51"
    using length_concat_desc_copy [OF wf] cp ds(1) by simp
  have "usb_gadget_config_buf config_desc1 (replicate 256 0) 256 (Some (dmx_function (ep_descs s))) =
     Some (60, config_bytes (patched_config config_desc1 60) @ concat (dmx_function (ep_descs s)) @ replicate 196 0)"
    using usb_gadget_config_buf_fits [OF wf, of 256 "replicate 256 0" config_desc1] ds(1) cp by simp
  moreover have "mem_write (config_bytes (patched_config config_desc1 60) @ rest) 1 [type] =
      Some (config_bytes ((patched_config config_desc1 60)\<lparr>cfg_bDescriptorType := type\<rparr>) @ rest)" for rest
    by (simp add: mem_write_def config_bytes_def)
  ultimately show ?thesis
    using assms len by (simp add: config_buf1_def ctl_ok_def mem_simps scale_config_bytes_def)
qed

lemma config_answers:
  assumes "ctl_ok s"
  shows "answers s (map_option (\<lambda>(v, s1). (clip16 wl v, 0, s1)) (config_buf1 type i s))"
proof (cases "unat i < unat (d_numConfigurations (dev_desc s))")
  case True
  note c = config_buf1_Some [OF assms True, of type]
  have "kept s (s\<lparr>ctl_buf := scale_config_bytes type (ep_descs s) @ replicate 196 0\<rparr>)"
    using c by (intro kept_steps) simp_all
  then show ?thesis using c clip16_le [of 60] by (auto simp: answers_def)
next
  case False
  then show ?thesis by (simp add: answers_def config_buf1_def clip16_def)
qed

lemma put_byte_answers: "ctl_ok s \<Longrightarrow> answers s (put_byte b ctrl s)"
  by (auto simp: answers_def put_byte_def ctl_ok_def mem_simps intro!: kept_steps)

lemma stall_answers [simp]: "answers s (Some (- 95, 0, s))"
  by (simp add: answers_def)

lemma get_descriptor_answers:
  assumes "ctl_ok s"
  shows "answers s (get_descriptor_request ctrl s)"
proof -
  have l: "length report_desc = 52" "length (device_bytes (dev_desc s)) = 18"
    by (simp_all add: report_desc_def device_bytes_def)
  have a: "answers s (map_option (\<lambda>s1. (min (uint (wLength ctrl)) (int (length report_desc)), 0, s1)) (copy_reply report_desc (length report_desc) s))"
    using l by (intro copy_answers assms) auto
  have b: "answers s (map_option (\<lambda>s1. (int (min (unat (wLength ctrl)) 18), 0, s1))
      (copy_reply (device_bytes (dev_desc s)) (min (unat (wLength ctrl)) 18) s))"
    using l by (intro copy_answers assms) auto
  show ?thesis
    unfolding get_descriptor_request_def Let_def
    using a b config_answers [OF assms] get_string_answers [OF assms] by (simp only: split: if_split) simp
qed

lemma pair_answers: "kept s (snd p) \<Longrightarrow> fst p \<le> 256 \<Longrightarrow> answers s (case p of (v, s1) \<Rightarrow> Some (v, 0, s1))"
  by (cases p) (simp add: answers_def)

text \<open>What the controller returns for enabling an endpoint is zero or an error.\<close>

definition errors_negative :: "ctl_env \<Rightarrow> bool" where
  "errors_negative e \<longleftrightarrow> (\<forall>c h. hw_result e c h \<le> 0)"

lemma set_interface_result: "errors_negative e \<Longrightarrow> fst (scale_set_interface e n s) \<le> 0"
  by (auto simp: scale_set_interface_def set_scale_interface_def hw_do_def errors_negative_def Let_def split: prod.splits)

lemma standard_answers:
  assumes "ctl_ok s" and "errors_negative e"
  shows "answers s (standard_requests e ctrl s)"
proof -
  have c: "answers s (case scale_set_config e (wValue ctrl) s of (v, s1) \<Rightarrow> Some (v, 0, s1))"
    by (rule pair_answers) (simp_all add: kept_steps scale_set_config_def)
  have i: "answers s (case scale_set_interface e 0 s of (v, s1) \<Rightarrow> Some (v, 0, s1))"
    using set_interface_result [OF assms(2), of 0 s] by (intro pair_answers) (auto intro!: kept_steps)
  show ?thesis
    unfolding standard_requests_def Let_def
    using c i get_descriptor_answers [OF assms(1)] put_byte_answers [OF assms(1)]
    by (simp only: split: if_split) simp
qed

text \<open>The requests for which the handler leaves its objects: a soft reset, which enables an endpoint that was never
  made, and the vendor requests that copy as many bytes as the host asks for from a short array.\<close>

definition soft_reset_request :: "usb_ctrlrequest \<Rightarrow> bool" where
  "soft_reset_request ctrl \<longleftrightarrow> bRequestType ctrl AND 0x60 = 0x20 \<and> bRequest ctrl = 2 \<and> wIndex ctrl = 0"

definition overlong_request :: "usb_ctrlrequest \<Rightarrow> bool" where
  "overlong_request ctrl \<longleftrightarrow> bRequestType ctrl AND 0x60 = 0x40 \<and>
     (bRequest ctrl = 0x31 \<and> wValue ctrl = 8 \<and> wIndex ctrl = 0 \<and> 5 < wLength ctrl \<or>
      bRequest ctrl = 0x25 \<and> wValue ctrl = 0 \<and> wIndex ctrl = 0 \<and> 9 < wLength ctrl \<or>
      bRequest ctrl = 0x02 \<and> wValue ctrl = 1 \<and> wIndex ctrl = 0 \<and> 33 < wLength ctrl)"

lemma enable_test_None: "i \<in> set is \<Longrightarrow> \<not> test_in s i \<Longrightarrow> enable_test e is s = None"
  by (induction "is" arbitrary: s) (auto simp: Let_def hw_do_def)

lemma soft_reset_None: "\<not> test_in s 3 \<Longrightarrow> scale_soft_reset e s = None"
  by (auto simp: scale_soft_reset_def Let_def bind_eq_None_conv usb_ep_disable_def hw_do_def
      intro!: enable_test_None [of 3])

lemma class_answers:
  assumes "ctl_ok s" and "bRequest ctrl \<noteq> 2 \<or> wIndex ctrl \<noteq> 0"
  shows "answers s (class_requests e ctrl s)"
proof -
  have m: "mem_read (pnp_string s) 0 2 = Some (take 2 (pnp_string s))" using assms(1) by (simp add: ctl_ok_def mem_simps)
  have n: "unat (take 2 (pnp_string s) ! 0) * 256 + unat (take 2 (pnp_string s) ! 1) = pnp_count (pnp_string s)"
    by (simp add: pnp_count_def)
  have "answers s (map_option (\<lambda>s1. (int (pnp_count (pnp_string s)), 0, s1)) (copy_reply (pnp_string s) (pnp_count (pnp_string s)) s))"
    using assms(1) by (intro copy_answers) (auto simp: ctl_ok_def)
  then show ?thesis
    unfolding class_requests_def Let_def m bind.bind_lunit n
    using assms(2) put_byte_answers [OF assms(1)] by auto
qed

lemma vendor_reply_fits:
  assumes "vendor_reply rq v i = Some (src, len, tv)"
  shows "(\<exists>n. len = AtMost n \<and> n < length src \<and> n \<le> 64) \<or> len = AsAsked \<and>
           (rq = 0x31 \<and> v = 8 \<and> i = 0 \<and> length src = 5 \<or> rq = 0x25 \<and> v = 0 \<and> i = 0 \<and> length src = 9 \<or>
            rq = 0x02 \<and> v = 1 \<and> i = 0 \<and> length src = 33)"
  using assms unfolding vendor_reply_def by (simp split: if_splits) auto

lemma vendor_reply_asked:
  assumes "vendor_reply rq v i = Some (src, len, tv)"
    and "rq = 0x31 \<and> v = 8 \<and> i = 0 \<or> rq = 0x25 \<and> v = 0 \<and> i = 0 \<or> rq = 0x02 \<and> v = 1 \<and> i = 0"
  shows "len = AsAsked"
  using assms by (elim disjE conjE) (simp_all add: vendor_reply_def)

lemma overlong_vendor:
  assumes "bRequestType ctrl AND 0x60 = 0x40" and "vendor_reply (bRequest ctrl) (wValue ctrl) (wIndex ctrl) = Some (src, len, tv)"
  shows "overlong_request ctrl \<longleftrightarrow> length src < reply_count len (wLength ctrl)"
  using vendor_reply_fits [OF assms(2)] vendor_reply_asked [OF assms(2)] assms(1)
  by (auto simp: overlong_request_def word_less_nat_alt)

lemma vendor_answers:
  assumes "ctl_ok s" and "bRequestType ctrl AND 0x60 = 0x40"
  shows "if overlong_request ctrl then vendor_requests ctrl s = None else answers s (vendor_requests ctrl s)"
proof (cases "vendor_reply (bRequest ctrl) (wValue ctrl) (wIndex ctrl)")
  case None
  then have "\<not> overlong_request ctrl" by (auto simp: overlong_request_def vendor_reply_def)
  then show ?thesis using None by (simp add: vendor_requests_def)
next
  case (Some r)
  obtain src len tv where r: "r = (src, len, tv)" by (rule prod_cases3)
  note f = vendor_reply_fits [OF Some [unfolded r]] and o = overlong_vendor [OF assms(2) Some [unfolded r]]
  define n where "n = reply_count len (wLength ctrl)"
  show ?thesis
  proof (cases "overlong_request ctrl")
    case True
    then have "mem_read src 0 n = None" using o by (simp add: mem_read_def n_def)
    then show ?thesis using True Some r by (simp add: vendor_requests_def copy_reply_def n_def Let_def)
  next
    case False
    then have "n \<le> length src" using o by (simp add: n_def)
    moreover have "length src \<le> 256 \<or> n \<le> 64" using f by (auto simp: n_def)
    ultimately have "answers s (map_option (\<lambda>s1. (int n, if tv then 1 else 0, s1)) (copy_reply src n s))"
      by (intro copy_answers assms) auto
    then show ?thesis using False Some r by (simp add: vendor_requests_def n_def Let_def)
  qed
qed

section \<open>The handler\<close>

lemma respond_ok:
  assumes "ctl_ok s" and "v \<le> 256"
  shows "\<exists>v' s'. respond_scale e ctrl v tv s = Some (v', s') \<and> kept s s'"
proof (cases "0 \<le> v")
  case True
  define m where "m = take (nat v) (ctl_buf s) @ replicate (256 - nat v) 0"
  have "nat v + (256 - nat v) \<le> length (ctl_buf s)" using assms True by (simp add: ctl_ok_def)
  then have w: "mem_write (ctl_buf s) (nat v) (replicate (256 - nat v) 0) = Some m"
    using assms True by (simp add: mem_write_def m_def ctl_ok_def)
  have "length m = 256" using assms True by (simp add: m_def ctl_ok_def)
  then have "kept s (s\<lparr>ctl_buf := m\<rparr>)" by (intro kept_steps) simp_all
  then have k: "kept s (snd (hw_do e c (s\<lparr>ctl_buf := m\<rparr>)))" for c by (rule kept_steps)
  show ?thesis using True assms(2) w k unfolding respond_scale_def Let_def by (auto simp: hw_do_def)
next
  case False
  then show ?thesis by (simp add: respond_scale_def)
qed

lemma setup_branch:
  assumes "ctl_ok s" and "errors_negative e" and "\<not> test_in s 3" and
    "b = (if bRequestType ctrl AND 0x60 = 0 then standard_requests e ctrl s
          else if bRequestType ctrl AND 0x60 = 0x20 then class_requests e ctrl s
          else if bRequestType ctrl AND 0x60 = 0x40 then vendor_requests ctrl s
          else Some (- EOPNOTSUPP, 0, s))"
  shows "if overlong_request ctrl \<or> soft_reset_request ctrl then b = None else answers s b"
proof -
  consider (std) "bRequestType ctrl AND 0x60 = 0" | (cls) "bRequestType ctrl AND 0x60 = 0x20"
    | (vnd) "bRequestType ctrl AND 0x60 = 0x40"
    | (other) "bRequestType ctrl AND 0x60 \<noteq> 0" "bRequestType ctrl AND 0x60 \<noteq> 0x20" "bRequestType ctrl AND 0x60 \<noteq> 0x40"
    by blast
  then show ?thesis
  proof cases
    case std
    then show ?thesis
      using standard_answers [OF assms(1,2)] unfolding assms(4) by (simp add: overlong_request_def soft_reset_request_def)
  next
    case cls
    show ?thesis
    proof (cases "soft_reset_request ctrl")
      case True
      then show ?thesis
        using cls soft_reset_None [OF assms(3)] unfolding assms(4) by (simp add: soft_reset_request_def class_requests_def)
    next
      case False
      then show ?thesis
        using cls class_answers [OF assms(1), of ctrl e] unfolding assms(4)
        by (auto simp: soft_reset_request_def overlong_request_def)
    qed
  next
    case vnd
    then show ?thesis
      using vendor_answers [OF assms(1) vnd] unfolding assms(4) by (simp add: soft_reset_request_def)
  next
    case other
    then show ?thesis unfolding assms(4) by (simp add: overlong_request_def soft_reset_request_def)
  qed
qed

lemma scale_setup_ok:
  assumes "ctl_ok s" and "errors_negative e" and "\<not> test_in s 3"
  shows "if overlong_request ctrl \<or> soft_reset_request ctrl then scale_setup e ctrl s = None
         else \<exists>v s'. scale_setup e ctrl s = Some (v, s') \<and> kept s s' \<and> interface (io s') = SCALE_INTERFACE"
proof -
  define b where "b = (if bRequestType ctrl AND 0x60 = 0 then standard_requests e ctrl s
          else if bRequestType ctrl AND 0x60 = 0x20 then class_requests e ctrl s
          else if bRequestType ctrl AND 0x60 = 0x40 then vendor_requests ctrl s
          else Some (- EOPNOTSUPP, 0, s))"
  note br = setup_branch [OF assms b_def]
  show ?thesis
  proof (cases "overlong_request ctrl \<or> soft_reset_request ctrl")
    case True
    then show ?thesis using br by (simp add: scale_setup_def Let_def b_def [symmetric])
  next
    case False
    then obtain v tv s1 where b: "b = Some (v, tv, s1)" "v \<le> 256" "kept s s1" using br by (auto simp: answers_def)
    then obtain v' s2 where r: "respond_scale e ctrl v tv s1 = Some (v', s2)" "kept s1 s2"
      using respond_ok [of s1 v e ctrl tv] assms(1) by (auto simp: kept_def)
    have "kept s (set_interface_number 0 s2)" using kept_trans [OF b(3) r(2)] by (rule kept_steps)
    then show ?thesis
      using False b(1) r(1) by (simp add: scale_setup_def Let_def b_def [symmetric] set_interface_number_def)
  qed
qed

section \<open>The data phase\<close>

text \<open>
  A reply is handed to the controller with the buffer and a length. The controller moves that many bytes
  between the buffer and the wire, so a reply longer than its buffer makes it leave the buffer.
\<close>

fun is_reply :: "hw_call \<Rightarrow> bool" where
  "is_reply (Ep0Queue n z m) = True"
| "is_reply _ = False"

fun leaves_buffer :: "hw_call \<Rightarrow> bool" where
  "leaves_buffer (Ep0Queue n z m) = (length m < n)"
| "leaves_buffer _ = False"

definition new_calls :: "scale_ctl \<Rightarrow> scale_ctl \<Rightarrow> hw_call list" where
  "new_calls s s' = drop (length (hw s)) (hw s')"

text \<open>
  A control request is answered if it has a data phase. It leaves its objects if the handler does, or if
  the data phase it starts does.
\<close>

definition answered :: "ctl_env \<Rightarrow> usb_ctrlrequest \<Rightarrow> scale_ctl \<Rightarrow> bool" where
  "answered e ctrl s = (case scale_setup e ctrl s of None \<Rightarrow> False | Some (v, s') \<Rightarrow> list_ex is_reply (new_calls s s'))"

definition leaves_objects :: "ctl_env \<Rightarrow> usb_ctrlrequest \<Rightarrow> scale_ctl \<Rightarrow> bool" where
  "leaves_objects e ctrl s = (case scale_setup e ctrl s of None \<Rightarrow> True | Some (v, s') \<Rightarrow> list_ex leaves_buffer (new_calls s s'))"

text \<open>The two requests whose reply has a length of its own: one vendor request, and the second string.\<close>

definition fixed_reply :: "usb_ctrlrequest \<Rightarrow> bool" where
  "fixed_reply ctrl \<longleftrightarrow>
     bRequestType ctrl AND 0x60 = 0x40 \<and> bRequest ctrl = 0x02 \<and> wValue ctrl = 0 \<and> wIndex ctrl = 0 \<or>
     bRequestType ctrl = 0x80 \<and> bRequest ctrl = 6 \<and> wValue ctrl = 0x0302 \<and> wIndex ctrl = 0x0409"

text \<open>The branches ask the controller for endpoints and power, and never queue a reply themselves.\<close>

definition silent :: "scale_ctl \<Rightarrow> scale_ctl \<Rightarrow> bool" where
  "silent s s' \<longleftrightarrow> (\<exists>cs. hw s' = hw s @ cs \<and> \<not> list_ex is_reply cs)"

named_theorems silent_steps \<open>steps that queue no reply\<close>

lemma silent_refl [simp]: "silent s s"
  by (simp add: silent_def)

lemma silent_hw_do [silent_steps]: "silent s s' \<Longrightarrow> \<not> is_reply c \<Longrightarrow> silent s (snd (hw_do e c s'))"
  by (auto simp: silent_def hw_do_def)

lemma silent_disable [silent_steps]: "silent s s' \<Longrightarrow> silent s (usb_ep_disable e i s')"
  by (auto simp: silent_def usb_ep_disable_def)

lemma silent_updates [silent_steps]:
  "silent s s' \<Longrightarrow> silent s (s'\<lparr>dev_in := a\<rparr>)" "silent s s' \<Longrightarrow> silent s (s'\<lparr>dev_out := b\<rparr>)"
  "silent s s' \<Longrightarrow> silent s (s'\<lparr>dev_config := c\<rparr>)" "silent s s' \<Longrightarrow> silent s (s'\<lparr>ctl_buf := m\<rparr>)"
  "silent s s' \<Longrightarrow> silent s (set_interface_number n s')"
  by (simp_all add: silent_def set_interface_number_def)

lemma silent_set_scale [silent_steps]:
  assumes "silent s s'"
  shows "silent s (snd (set_scale_interface e s'))"
proof -
  define s1 where "s1 = snd (hw_do e (EpEnable EpIn) (s'\<lparr>dev_in := True, dev_out := True\<rparr>))"
  have s1: "silent s s1" unfolding s1_def using assms by (intro silent_steps) simp_all
  have s2: "silent s (snd (hw_do e (EpEnable EpOut) s1))" using s1 by (rule silent_hw_do) simp
  have d: "silent s t \<Longrightarrow> silent s ((usb_ep_disable e EpOut (usb_ep_disable e EpIn t))\<lparr>dev_in := False, dev_out := False\<rparr>)" for t
    by (intro silent_updates silent_disable)
  show ?thesis
    using d [OF s1] d [OF s2] s1 s2 unfolding set_scale_interface_def s1_def
    by (auto simp: Let_def split: prod.splits)
qed

lemma silent_reset_interface [silent_steps]: "silent s s' \<Longrightarrow> silent s (scale_reset_interface e s')"
  by (auto simp: scale_reset_interface_def Let_def intro!: silent_updates silent_disable)

lemma silent_set_config [silent_steps]: "silent s s' \<Longrightarrow> silent s (snd (scale_set_config e n s'))"
  by (auto simp: scale_set_config_def Let_def intro!: silent_set_scale silent_updates silent_hw_do)

lemma silent_set_interface [silent_steps]:
  assumes "silent s s'"
  shows "silent s (snd (scale_set_interface e n s'))"
proof -
  define s1 where "s1 = (if interface (io s') = 0 then scale_reset_interface e s' else s')"
  have s1: "silent s s1" using assms by (simp add: s1_def silent_reset_interface)
  have s2: "silent s (snd (set_scale_interface e s1))" using s1 by (rule silent_set_scale)
  show ?thesis
    using s1 silent_reset_interface [OF s2] silent_updates(5) [OF s2]
    by (auto simp: scale_set_interface_def s1_def [symmetric] Let_def split: prod.splits)
qed

lemma copy_reply_silent: "copy_reply src n s = Some s' \<Longrightarrow> silent s s'"
  by (auto simp: copy_reply_def bind_eq_Some_conv intro: silent_steps)

lemma descriptor_silent:
  assumes "get_descriptor_request ctrl s = Some (v, tv, s')"
  shows "silent s s' \<and> (tv = (if wValue ctrl = 0x0302 \<and> wIndex ctrl = 0x0409 \<and> bRequestType ctrl = 0x80 then 2 else 0))"
proof -
  have c: "config_buf1 type i s = Some (r, s') \<Longrightarrow> silent s s'" for type i r
    by (auto simp: config_buf1_def bind_eq_Some_conv intro!: silent_steps split: if_splits)
  have g: "silent s s' \<and> tv = (if wValue ctrl = 0x0302 \<and> wIndex ctrl = 0x0409 then 2 else 0)"
    if str: "get_string_request ctrl s = Some (v, tv, s')"
  proof -
    obtain r m where g: "usb_gadget_get_string (stringtab s) (uint (wValue ctrl AND 0xff)) (ctl_buf s) = Some (r, m)"
      using str by (auto simp: get_string_request_def bind_eq_Some_conv)
    have "copy_reply dmx_string 32 (s\<lparr>ctl_buf := m\<rparr>) = Some s' \<Longrightarrow> silent s s'"
      using copy_reply_silent [of dmx_string 32 "s\<lparr>ctl_buf := m\<rparr>" s'] by (simp add: silent_def)
    then show ?thesis
      using str g by (auto simp: get_string_request_def Let_def split: if_splits intro: silent_steps)
  qed
  show ?thesis
    using assms c g copy_reply_silent
    by (auto simp: get_descriptor_request_def Let_def split: if_splits)
qed

lemma put_byte_silent: "put_byte b ctrl s = Some (v, tv, s') \<Longrightarrow> silent s s' \<and> tv = 0"
  by (auto simp: put_byte_def intro: silent_steps)

lemma standard_silent:
  assumes "standard_requests e ctrl s = Some (v, tv, s')"
  shows "silent s s' \<and> tv = (if bRequest ctrl = 6 \<and> wValue ctrl = 0x0302 \<and> wIndex ctrl = 0x0409 \<and> bRequestType ctrl = 0x80 then 2 else 0)"
proof (cases "bRequest ctrl = 6")
  case True
  then show ?thesis using assms descriptor_silent [of ctrl s v tv s'] by (simp add: standard_requests_def)
next
  case False
  have "scale_set_config e n s = (v, s') \<Longrightarrow> silent s s'" "scale_set_interface e 0 s = (v, s') \<Longrightarrow> silent s s'" for n
    using silent_set_config [of s s e n] silent_set_interface [of s s e 0] by simp_all
  then show ?thesis
    using False assms put_byte_silent by (auto simp: standard_requests_def Let_def split: if_splits prod.splits)
qed

lemma class_silent:
  assumes "class_requests e ctrl s = Some (v, tv, s')" and "bRequest ctrl \<noteq> 2 \<or> wIndex ctrl \<noteq> 0"
  shows "silent s s' \<and> tv = 0"
  using assms put_byte_silent copy_reply_silent by (auto simp: class_requests_def Let_def bind_eq_Some_conv split: if_splits)

lemma vendor_reply_flag:
  "vendor_reply rq v i = Some (src, len, tv) \<Longrightarrow> tv \<longleftrightarrow> rq = 0x02 \<and> v = 0 \<and> i = 0"
  unfolding vendor_reply_def by (simp split: if_splits)

lemma vendor_silent:
  assumes "vendor_requests ctrl s = Some (v, tv, s')"
  shows "silent s s' \<and> tv = (if bRequest ctrl = 0x02 \<and> wValue ctrl = 0 \<and> wIndex ctrl = 0 then 1 else 0)"
proof (cases "vendor_reply (bRequest ctrl) (wValue ctrl) (wIndex ctrl)")
  case None
  then have "\<not> (bRequest ctrl = 0x02 \<and> wValue ctrl = 0 \<and> wIndex ctrl = 0)" by (auto simp: vendor_reply_def)
  then show ?thesis using assms None by (auto simp: vendor_requests_def)
next
  case (Some r)
  obtain src len t where r: "r = (src, len, t)" by (rule prod_cases3)
  show ?thesis
    using assms Some r copy_reply_silent vendor_reply_flag [OF Some [unfolded r]]
    by (auto simp: vendor_requests_def Let_def)
qed

lemma branch_silent:
  assumes "(if bRequestType ctrl AND 0x60 = 0 then standard_requests e ctrl s
            else if bRequestType ctrl AND 0x60 = 0x20 then class_requests e ctrl s
            else if bRequestType ctrl AND 0x60 = 0x40 then vendor_requests ctrl s
            else Some (- EOPNOTSUPP, 0, s)) = Some (v, tv, s')"
    and "\<not> soft_reset_request ctrl"
  shows "silent s s' \<and> tv \<in> {0, 1, 2} \<and> (tv = 0 \<longleftrightarrow> \<not> fixed_reply ctrl)"
proof -
  consider (std) "bRequestType ctrl AND 0x60 = 0" | (cls) "bRequestType ctrl AND 0x60 = 0x20"
    | (vnd) "bRequestType ctrl AND 0x60 = 0x40"
    | (other) "bRequestType ctrl AND 0x60 \<noteq> 0" "bRequestType ctrl AND 0x60 \<noteq> 0x20" "bRequestType ctrl AND 0x60 \<noteq> 0x40"
    by blast
  then show ?thesis
  proof cases
    case std
    then show ?thesis using assms standard_silent [of e ctrl s v tv s'] by (auto simp: fixed_reply_def)
  next
    case cls
    then have "\<not> fixed_reply ctrl" by (auto simp: fixed_reply_def)
    then show ?thesis
      using cls assms class_silent [of e ctrl s v tv s'] by (simp add: soft_reset_request_def)
  next
    case vnd
    then have "bRequestType ctrl \<noteq> 0x80" by auto
    then show ?thesis using vnd assms(1) vendor_silent [of ctrl s v tv s'] by (auto simp: fixed_reply_def)
  next
    case other
    then have "bRequestType ctrl \<noteq> 0x80" by auto
    then show ?thesis using other assms(1) by (auto simp: fixed_reply_def)
  qed
qed

lemma respond_reply:
  assumes "respond_scale e ctrl v tv s = Some (v', s')" and "ctl_ok s"
  shows "if v < 0 then hw s' = hw s
         else \<exists>z m. hw s' = hw s @ [Ep0Queue (if tv = 1 then 64 else if tv = 2 then 32 else unat (wLength ctrl)) z m] \<and> length m = 256"
  using assms
  by (auto simp: respond_scale_def Let_def hw_do_def bind_eq_Some_conv mem_write_def ctl_ok_def split: if_splits)

lemma setup_data_phase:
  assumes "ctl_ok s" and "errors_negative e" and "\<not> test_in s 3"
  shows "leaves_objects e ctrl s \<longleftrightarrow> overlong_request ctrl \<or> soft_reset_request ctrl \<or>
           answered e ctrl s \<and> 256 < wLength ctrl \<and> \<not> fixed_reply ctrl"
proof (cases "overlong_request ctrl \<or> soft_reset_request ctrl")
  case True
  then have "scale_setup e ctrl s = None" using scale_setup_ok [OF assms, of ctrl] by simp
  then show ?thesis using True by (auto simp: leaves_objects_def)
next
  case False
  define b where "b = (if bRequestType ctrl AND 0x60 = 0 then standard_requests e ctrl s
          else if bRequestType ctrl AND 0x60 = 0x20 then class_requests e ctrl s
          else if bRequestType ctrl AND 0x60 = 0x40 then vendor_requests ctrl s
          else Some (- EOPNOTSUPP, 0, s))"
  obtain v tv s1 where b: "b = Some (v, tv, s1)" "v \<le> 256" "kept s s1"
    using setup_branch [OF assms b_def] False by (auto simp: answers_def)
  obtain v' s2 where r: "respond_scale e ctrl v tv s1 = Some (v', s2)"
    using respond_ok [of s1 v e ctrl tv] b assms(1) by (auto simp: kept_def)
  have tv: "silent s s1" "tv = 0 \<longleftrightarrow> \<not> fixed_reply ctrl" "tv \<in> {0, 1, 2}"
    using branch_silent [OF b(1) [unfolded b_def]] False by auto
  obtain cs where cs: "hw s1 = hw s @ cs" "\<not> list_ex is_reply cs" using tv(1) by (auto simp: silent_def)
  have "\<not> list_ex leaves_buffer cs" using cs(2) by (auto simp: list_ex_iff elim!: leaves_buffer.elims(2))
  moreover have "scale_setup e ctrl s = Some (if v' \<ge> 0 then uint (wLength ctrl) else v', set_interface_number 0 s2)"
    using b(1) r by (simp add: scale_setup_def Let_def b_def [symmetric])
  moreover have "hw (set_interface_number 0 s2) = hw s2" by (simp add: set_interface_number_def)
  moreover have "ctl_ok s1" using b(3) assms(1) by (simp add: kept_def)
  ultimately show ?thesis
    using respond_reply [OF r] cs tv(2,3) False
    by (auto simp: leaves_objects_def answered_def new_calls_def word_less_nat_alt split: if_splits)
qed

section \<open>Reading the configuration\<close>

definition get_config :: "u16 \<Rightarrow> usb_ctrlrequest" where
  "get_config n = \<lparr>bRequestType = 0x80, bRequest = 6, wValue = 0x0200, wIndex = 0, wLength = n\<rparr>"

lemma scale_setup_config:
  assumes "ctl_ok s" and "0 < d_numConfigurations (dev_desc s)" and "k = min (unat n) 60"
    and "m = take k (scale_config_bytes 2 (ep_descs s)) @ replicate (256 - k) 0"
  shows "\<exists>v s'. scale_setup e (get_config n) s = Some (v, s') \<and> hw s' = hw s @ [Ep0Queue (unat n) (60 < unat n) m]"
proof -
  have i: "unat (0::u16) < unat (d_numConfigurations (dev_desc s))" using assms(2) by (simp add: word_less_nat_alt)
  note c = config_buf1_Some [OF assms(1) i, of 2]
  define s1 where "s1 = s\<lparr>ctl_buf := scale_config_bytes 2 (ep_descs s) @ replicate 196 0\<rparr>"
  have cl: "clip16 n 60 = int k" using assms(3) by (simp add: clip16_def of_nat_min)
  have b: "standard_requests e (get_config n) s = Some (int k, 0, s1)"
    using c cl by (simp add: standard_requests_def get_descriptor_request_def get_config_def s1_def)
  have k: "k \<le> 60" using assms(3) by simp
  have "mem_write (ctl_buf s1) k (replicate (256 - k) 0) = Some m"
    using c k assms(4) by (simp add: mem_write_def s1_def)
  moreover have u: "int (unat n) = uint n" by simp
  moreover have "int k < uint n \<longleftrightarrow> 60 < unat n"
    unfolding u [symmetric] of_nat_less_iff using assms(3) by auto
  ultimately have r: "respond_scale e (get_config n) (int k) 0 s1 = Some (hw_do e (Ep0Queue (unat n) (60 < unat n) m) (s1\<lparr>ctl_buf := m\<rparr>))"
    using k by (simp add: respond_scale_def Let_def get_config_def)
  have ty: "bRequestType (get_config n) AND 0x60 = 0" by (simp add: get_config_def)
  show ?thesis
    unfolding scale_setup_def Let_def ty
    by (simp add: b r hw_do_def set_interface_number_def) (simp add: s1_def)
qed

text \<open>C25: A host that reads the configuration gets, whatever length it asks for, a prefix of one
  description that parses into the configuration header with its total length of 60 bytes, the interface and
  the six endpoints; but the request is queued with the host's length even when the buffer of 256 bytes
  is shorter.\<close>

theorem scale_config_read:
  assumes "ctl_ok s" and "0 < d_numConfigurations (dev_desc s)"
  shows "\<exists>v s' m. scale_setup e (get_config n) s = Some (v, s') \<and>
           hw s' = hw s @ [Ep0Queue (unat n) (60 < unat n) m] \<and> length m = USB_DESC_BUFSIZE \<and>
           (60 \<le> unat n \<longrightarrow> parse_descs (take 60 m) = Some (config_bytes (patched_config config_desc1 60) # dmx_function (ep_descs s)))"
proof -
  define k where "k = min (unat n) 60"
  define m where "m = take k (scale_config_bytes 2 (ep_descs s)) @ replicate (256 - k) 0"
  have i: "unat (0::u16) < unat (d_numConfigurations (dev_desc s))" using assms(2) by (simp add: word_less_nat_alt)
  have len: "length (scale_config_bytes 2 (ep_descs s)) = 60" using config_buf1_Some [OF assms(1) i] by blast
  have h: "(patched_config config_desc1 60)\<lparr>cfg_bDescriptorType := 2\<rparr> = patched_config config_desc1 60"
    by (simp add: patched_config_def)
  have "exact_desc (config_bytes (patched_config config_desc1 60))"
    by (simp add: exact_desc_def config_bytes_def patched_config_def le16_bytes_def)
  moreover have "\<forall>d\<in>set (dmx_function (ep_descs s)). exact_desc d"
    using config_total assms(1) unfolding ctl_ok_def by blast
  ultimately have p: "parse_descs (scale_config_bytes 2 (ep_descs s)) = Some (config_bytes (patched_config config_desc1 60) # dmx_function (ep_descs s))"
    using parse_descs_concat [of "config_bytes (patched_config config_desc1 60) # dmx_function (ep_descs s)"]
    by (simp add: scale_config_bytes_def h)
  have "60 \<le> unat n \<longrightarrow> take 60 m = scale_config_bytes 2 (ep_descs s)" using len by (simp add: m_def k_def)
  moreover have "length m = 256" using len by (simp add: m_def k_def)
  ultimately show ?thesis using scale_setup_config [OF assms k_def m_def, of e] p by metis
qed

text \<open>The handler itself leaves its objects exactly for a soft reset, which enables an endpoint that
  was never made, and for a vendor request that asks for more bytes than the reply has; for every other
  request it returns, and keeps the buffers and the requests of the data path in order. What the
  controller then does with the reply is the subject of \<open>setup_data_phase\<close>.\<close>

theorem scale_setup_safe:
  assumes "ctl_ok s" and "errors_negative e" and "\<not> test_in s 3" and "io_inv [] (io s)"
  shows "(scale_setup e ctrl s = None \<longleftrightarrow> overlong_request ctrl \<or> soft_reset_request ctrl) \<and>
         (\<forall>v s'. scale_setup e ctrl s = Some (v, s') \<longrightarrow>
            ctl_ok s' \<and> io_inv [] (io s') \<and> mset (all_reqs [] (io s')) = mset (all_reqs [] (io s)) \<and>
            interface (io s') = SCALE_INTERFACE)"
  using scale_setup_ok [OF assms(1-3), of ctrl] assms(1,4) by (auto simp: kept_def split: if_splits)

section \<open>Configurations and the connection\<close>

text \<open>A configuration number the device does not have is refused, but its endpoints are enabled all
  the same, and the number it keeps does not change.\<close>

theorem scale_set_config_refused_enables:
  assumes "n \<noteq> 0" and "n \<noteq> 1" and "hw_result e = (\<lambda>_ _. 0)"
  shows "\<exists>s'. scale_set_config e n s = (- EINVAL, s') \<and> dev_config s' = dev_config s \<and>
           hw s' = hw s @ [Draw (if is_otg_gadget e then 8 else 100), EpEnable EpIn, EpEnable EpOut]"
proof -
  have "unat n \<noteq> 1" using assms(2) by (metis unat_1 word_unat_eq_iff)
  then show ?thesis using assms by (simp add: scale_set_config_def set_scale_interface_def hw_do_def Let_def)
qed

text \<open>Writing is refused from a disconnect until the next control request of any kind.\<close>

theorem scale_connection_gates_writes:
  assumes "ctl_ok s" and "errors_negative e" and "\<not> test_in s 3" and "scale_setup e ctrl s = Some (v, s')"
  shows "scale_write env nb data ws (io (scale_disconnect e s')) = Some (- EINVAL, io (scale_disconnect e s')) \<and>
         interface (io s') = SCALE_INTERFACE"
proof -
  have "interface (io (scale_disconnect e s')) < 0"
    by (auto simp: scale_disconnect_def scale_reset_interface_def set_interface_number_def Let_def)
  moreover have "interface (io s') = 0"
    using scale_setup_ok [OF assms(1-3), of ctrl] assms(4) by (simp split: if_splits)
  ultimately show ?thesis by (simp add: scale_write_def)
qed

end
