(* ===== verification/ScaleWrite.thy ===== *)
theory ScaleWrite
  imports ScaleStream
begin

text \<open>
  Writing to the scale gadget: the data is cut into requests of at most 512 bytes, in order, and no
  request is lost on any of the error paths.
\<close>

section \<open>The requests of a write\<close>

text \<open>The pieces a write is cut into, with the flag that asks for a final empty packet.\<close>

function tx_chunks :: "nat \<Rightarrow> bytes \<Rightarrow> (bytes \<times> bool) list" where
  "tx_chunks mp data =
     (if data = [] then []
      else if length data > USB_BUFSIZE then (take USB_BUFSIZE data, False) # tx_chunks mp (drop USB_BUFSIZE data)
      else [(data, length data mod mp = 0)])"
  by pat_completeness auto
termination by (relation "measure (\<lambda>(mp, data). length data)") auto

declare tx_chunks.simps [simp del]

lemma tx_chunks_Nil [simp]: "tx_chunks mp [] = []"
  by (simp add: tx_chunks.simps)

lemma tx_chunks_concat: "concat (map fst (tx_chunks mp data)) = data"
proof (induction mp data rule: tx_chunks.induct)
  case (1 mp data)
  then show ?case by (subst tx_chunks.simps) auto
qed

lemma tx_chunks_size: "(c, z) \<in> set (tx_chunks mp data) \<Longrightarrow> 0 < length c \<and> length c \<le> 512"
proof (induction mp data rule: tx_chunks.induct)
  case (1 mp data)
  then show ?case by (auto simp: tx_chunks.simps [of mp data] split: if_splits)
qed

lemma tx_chunks_zero: "i < length (tx_chunks mp data) \<Longrightarrow> snd (tx_chunks mp data ! i) \<Longrightarrow> i = length (tx_chunks mp data) - 1"
proof (induction mp data arbitrary: i rule: tx_chunks.induct)
  case (1 mp data)
  show ?case
  proof (cases "length data > 512")
    case True
    then have e: "tx_chunks mp data = (take 512 data, False) # tx_chunks mp (drop 512 data)"
      by (subst tx_chunks.simps) auto
    obtain j where j: "i = Suc j" using "1.prems" unfolding e by (cases i) auto
    have "j = length (tx_chunks mp (drop 512 data)) - 1"
      using "1.IH" [of j] True "1.prems" unfolding e j by (cases data) auto
    then show ?thesis using "1.prems"(1) unfolding e j by simp
  next
    case False
    then show ?thesis using "1.prems" by (auto simp: tx_chunks.simps [of mp data] split: if_splits)
  qed
qed

lemma tx_chunks_step:
  assumes "data \<noteq> []" and "sz = min (length data) 512"
    and "z = (if length data > sz then False else length data mod mp = 0)"
  shows "tx_chunks mp data = (take sz data, z) # tx_chunks mp (drop sz data)"
  using assms by (subst tx_chunks.simps) (auto simp: min_def)

text \<open>What was queued for the host.\<close>

fun tx_payload :: "submit \<Rightarrow> (bytes \<times> bool) option" where
  "tx_payload (SubmitTx r d z) = Some (d, z)"
| "tx_payload (SubmitRx r) = None"

section \<open>No request is lost\<close>

text \<open>A request that was taken from a pool is given back to it, or becomes active.\<close>

lemma io_inv_same:
  assumes "io_inv held s" and "mset (all_reqs held' s') = mset (all_reqs held s)" and "rx_buffers s' = rx_buffers s"
    and "current_rx s' = current_rx s" and "\<forall>r. r \<notin> set (tx_reqs s) \<union> set held \<longrightarrow> reqs s' r = reqs s r"
  shows "io_inv held' s'"
proof -
  have d: "distinct (all_reqs held' s')" using io_inv_perm assms(1,2) by blast
  have "reqs s' r = reqs s r" if "r \<in> set (rx_buffers s) \<union> set (cur_req (current_rx s))" for r
    using that assms(1,5) by (auto simp: io_inv_def all_reqs_def)
  then show ?thesis
    using d assms(1,3,4) by (auto simp: io_inv_def buffers_ok_def cur_ok_def cur_req_def)
qed

lemma irqs_submitted [simp]: "submitted (fold do_irq is s) = submitted s"
proof (induction "is" arbitrary: s)
  case (Cons i "is")
  have "submitted (do_irq i s) = submitted s"
    by (cases i) (simp_all add: tx_complete_def reset_io_def split: option.split)
  then show ?case using Cons.IH by simp
qed simp

lemma irqs_no_reset: "Reset \<notin> set is \<Longrightarrow> reset_scale (fold do_irq is s) = reset_scale s"
proof (induction "is" arbitrary: s)
  case (Cons i "is")
  have "reset_scale (do_irq i s) = reset_scale s" using Cons.prems by (cases i) (simp_all add: tx_complete_def)
  then show ?case using Cons by simp
qed simp

text \<open>
  One round of the loop up to the point where the request is queued: the request taken from the free
  list is in the hands of the loop while interrupts run.
\<close>

lemma write_round:
  assumes "io_inv [] s" and "tx_reqs s = r # rs"
    and "s2 = (upd_req r u (s\<lparr>tx_reqs := rs\<rparr>))" and "s3 = fold do_irq is s2"
  shows "io_inv [r] s3" and "mset (all_reqs [r] s3) = mset (all_reqs [] s)" and "submitted s3 = submitted s"
    and "reqs s3 r = u (reqs s r)" and "Reset \<notin> set is \<Longrightarrow> reset_scale s3 = reset_scale s"
    and "Reset \<notin> set is \<Longrightarrow> streams [] s s3"
proof -
  have m: "mset (all_reqs [r] s2) = mset (all_reqs [] s)" using assms(2,3) by (simp add: all_reqs_def upd_req_def)
  have i: "io_inv [r] s2" by (rule io_inv_same [OF assms(1) m]) (use assms(2,3) in \<open>simp_all add: upd_req_def\<close>)
  note k = irqs_inv [OF i, of "is", folded assms(4)]
  show "io_inv [r] s3" "mset (all_reqs [r] s3) = mset (all_reqs [] s)" using k m by simp_all
  show "submitted s3 = submitted s" using assms(3,4) by (simp add: upd_req_def)
  show "reqs s3 r = u (reqs s r)" using k assms(3) by (simp add: upd_req_def)
  show "reset_scale s3 = reset_scale s" if "Reset \<notin> set is"
    using irqs_no_reset [OF that, of s2] assms(3,4) by (simp add: upd_req_def)
  have nr: "r \<notin> set (rx_buffers s)" "r \<notin> set (cur_req (current_rx s))" using assms(1,2) by (auto simp: io_inv_def all_reqs_def)
  then have "map (\<lambda>q. rq_buf (reqs s2 q)) (rx_buffers s) = map (\<lambda>q. rq_buf (reqs s q)) (rx_buffers s)"
    using assms(3) by (auto simp: upd_req_def)
  moreover have "rx_buffers s2 = rx_buffers s" using assms(3) by (simp add: upd_req_def)
  ultimately have "buffered s2 = buffered s" by (simp only: buffered_def)
  moreover have "cur_bytes (current_rx s) s2 = cur_bytes (current_rx s) s"
    using nr(2) assms(3) by (auto simp: cur_bytes_def cur_req_def upd_req_def split: option.split)
  moreover have "current_rx s2 = current_rx s" "rx_total s2 = rx_total s" using assms(3) by (simp_all add: upd_req_def)
  ultimately show "streams [] s s3" if "Reset \<notin> set is"
    using irqs_arrive [OF i that] assms(4) by (auto simp: arrives_def pending_def stream_left_def streams_def)
qed

lemma give_back:
  assumes "io_inv [r] s"
  shows "io_inv [] (s\<lparr>tx_reqs := r # tx_reqs s\<rparr>)" and "mset (all_reqs [] (s\<lparr>tx_reqs := r # tx_reqs s\<rparr>)) = mset (all_reqs [r] s)"
    and "io_inv [] (s\<lparr>tx_reqs_active := r # tx_reqs_active s\<rparr>)"
    and "mset (all_reqs [] (s\<lparr>tx_reqs_active := r # tx_reqs_active s\<rparr>)) = mset (all_reqs [r] s)"
proof -
  show m: "mset (all_reqs [] (s\<lparr>tx_reqs := r # tx_reqs s\<rparr>)) = mset (all_reqs [r] s)"
      "mset (all_reqs [] (s\<lparr>tx_reqs_active := r # tx_reqs_active s\<rparr>)) = mset (all_reqs [r] s)"
    by (simp_all add: all_reqs_def)
  show "io_inv [] (s\<lparr>tx_reqs := r # tx_reqs s\<rparr>)" "io_inv [] (s\<lparr>tx_reqs_active := r # tx_reqs_active s\<rparr>)"
    using io_inv_same [OF assms m(1)] io_inv_same [OF assms m(2)] by simp_all
qed

lemma upd_req_twice: "upd_req r v (upd_req r u s) = upd_req r (\<lambda>q. v (u q)) s"
  by (simp add: upd_req_def)

text \<open>One round of the loop, as an equation.\<close>

definition round_size :: "bytes \<Rightarrow> nat" where
  "round_size data = (if length data > USB_BUFSIZE then USB_BUFSIZE else length data)"

definition round_zero :: "scale_env \<Rightarrow> bytes \<Rightarrow> bool" where
  "round_zero e data = (if length data > round_size data then False else length data mod in_maxpacket e = 0)"

definition round_state :: "scale_env \<Rightarrow> win list \<Rightarrow> bytes \<Rightarrow> nat \<Rightarrow> nat list \<Rightarrow> scale_dev \<Rightarrow> scale_dev" where
  "round_state e ws data r rs s =
     fold do_irq (irqs_of ws) (upd_req r (\<lambda>q. if uncopied ws \<noteq> 0
        then q\<lparr>rq_length := round_size data, rq_zero := round_zero e data\<rparr>
        else q\<lparr>rq_length := round_size data, rq_zero := round_zero e data, rq_buf := take (round_size data) data\<rparr>)
        (s\<lparr>tx_reqs := rs\<rparr>))"

lemma write_loop_None:
  assumes "tx_reqs s \<noteq> []" and "data \<noteq> []" and "length data \<le> round_size data" and "in_maxpacket e = 0"
  shows "write_loop e ws data copied s = None"
  using assms by (subst write_loop.simps) (simp add: round_size_def Let_def)

lemma write_loop_round:
  assumes "tx_reqs s = r # rs" and "data \<noteq> []" and "\<not> (length data \<le> round_size data \<and> in_maxpacket e = 0)"
    and "s3 = round_state e ws data r rs s" and "sub = SubmitTx r (take (round_size data) data) (round_zero e data)"
    and "s4 = s3\<lparr>submitted := submitted s3 @ [sub]\<rparr>"
  shows "write_loop e ws data copied s =
    (if uncopied ws \<noteq> 0 then Some (int copied, s3\<lparr>tx_reqs := r # tx_reqs s3\<rparr>)
     else if reset_scale s3 then Some (- EAGAIN, s3\<lparr>tx_reqs := r # tx_reqs s3\<rparr>)
     else if ep_queue e sub (submitted s3) \<noteq> 0 then Some (- EAGAIN, s4\<lparr>tx_reqs := r # tx_reqs s4\<rparr>)
     else write_loop e (tl ws) (drop (round_size data) data) (copied + round_size data)
            (s4\<lparr>tx_reqs_active := r # tx_reqs_active s4\<rparr>))"
proof -
  note sz = round_size_def [of data, symmetric]
  have z: "(if length data > round_size data then False else length data mod in_maxpacket e = 0) = round_zero e data"
    by (simp add: round_zero_def)
  have e: "(r # rs = [] \<or> data = []) = False" "(length data \<le> round_size data \<and> in_maxpacket e = 0) = False"
    using assms(1-3) by auto
  show ?thesis
  proof (cases "uncopied ws = 0")
    case True
    then have s3: "s3 = fold do_irq (irqs_of ws) (upd_req r (\<lambda>q. q\<lparr>rq_buf := take (round_size data) data\<rparr>)
        (upd_req r (\<lambda>q. q\<lparr>rq_length := round_size data, rq_zero := round_zero e data\<rparr>) (s\<lparr>tx_reqs := rs\<rparr>)))"
      using assms(4) by (simp add: round_state_def upd_req_twice)
    show ?thesis
      by (subst write_loop.simps) (simp only: Let_def sz z e if_False assms(1) list.sel True s3 assms(5,6) simp_thms if_True)
  next
    case False
    then have s3: "s3 = fold do_irq (irqs_of ws)
        (upd_req r (\<lambda>q. q\<lparr>rq_length := round_size data, rq_zero := round_zero e data\<rparr>) (s\<lparr>tx_reqs := rs\<rparr>))"
      using assms(4) by (simp add: round_state_def)
    show ?thesis
      by (subst write_loop.simps) (simp only: Let_def sz z e if_False assms(1) list.sel False s3 simp_thms if_True)
  qed
qed

text \<open>The loop: requests are kept, and what is queued is a prefix of the pieces.\<close>

definition sends :: "scale_env \<Rightarrow> bytes \<Rightarrow> scale_dev \<Rightarrow> scale_dev \<Rightarrow> submit list \<Rightarrow> bool" where
  "sends e data s s' subs \<longleftrightarrow> submitted s' = submitted s @ subs \<and>
     map tx_payload subs = map Some (take (length subs) (tx_chunks (in_maxpacket e) data))"

lemma round_chunk:
  assumes "data \<noteq> []"
  shows "tx_chunks (in_maxpacket e) data =
    (take (round_size data) data, round_zero e data) # tx_chunks (in_maxpacket e) (drop (round_size data) data)"
  using tx_chunks_step [OF assms, of "round_size data"] by (auto simp: round_size_def round_zero_def)

lemma sends_Nil: "submitted s' = submitted s \<Longrightarrow> sends e data s s' []"
  by (simp add: sends_def)

lemma sends_Cons:
  assumes "data \<noteq> []" and "sends e (drop (round_size data) data) s' s'' subs"
    and "submitted s' = submitted s @ [SubmitTx r (take (round_size data) data) (round_zero e data)]"
  shows "sends e data s s'' (SubmitTx r (take (round_size data) data) (round_zero e data) # subs)"
  using assms(2,3) round_chunk [OF assms(1), of e] by (simp add: sends_def)

lemma streams_pools [simp]:
  "streams a s (s'\<lparr>tx_reqs := x\<rparr>) = streams a s s'" "streams a s (s'\<lparr>tx_reqs_active := y\<rparr>) = streams a s s'"
  "streams a s (s'\<lparr>submitted := z\<rparr>) = streams a s s'"
  by (auto simp: streams_def pending_def stream_left_def cur_bytes_def buffered_def split: option.splits)

lemma write_loop_ok:
  assumes "io_inv [] s" and "write_loop e ws data copied s = Some (v, s')"
  shows "io_inv [] s' \<and> mset (all_reqs [] s') = mset (all_reqs [] s) \<and> (\<exists>subs. sends e data s s' subs) \<and>
         (\<not> resets ws \<longrightarrow> streams [] s s')"
  using assms
proof (induction "length data" arbitrary: ws data copied s rule: less_induct)
  case less
  show ?case
  proof (cases "tx_reqs s = [] \<or> data = []")
    case True
    then show ?thesis using less.prems sends_Nil [of s s] by (auto simp: write_loop.simps)
  next
    case False
    then obtain r rs where r: "tx_reqs s = r # rs" and d: "data \<noteq> []" by (cases "tx_reqs s") auto
    have nz: "\<not> (length data \<le> round_size data \<and> in_maxpacket e = 0)"
      using less.prems(2) write_loop_None [of s data e ws copied] False by auto
    define s3 where "s3 = round_state e ws data r rs s"
    define sub where "sub = SubmitTx r (take (round_size data) data) (round_zero e data)"
    define s4 where "s4 = s3\<lparr>submitted := submitted s3 @ [sub]\<rparr>"
    define s5 where "s5 = s4\<lparr>tx_reqs_active := r # tx_reqs_active s4\<rparr>"
    note w = write_round [OF less.prems(1) r refl s3_def [unfolded round_state_def]]
    have i4: "io_inv [r] s4" "mset (all_reqs [r] s4) = mset (all_reqs [] s)" using w(1,2) by (simp_all add: s4_def)
    have st: "\<not> resets ws \<Longrightarrow> streams [] s s3" using w(6) resets_hd by blast
    note run = write_loop_round [OF r d nz s3_def sub_def s4_def, of copied, folded s5_def]
    consider "s' = s3\<lparr>tx_reqs := r # tx_reqs s3\<rparr>" | "s' = s4\<lparr>tx_reqs := r # tx_reqs s4\<rparr>"
      | "write_loop e (tl ws) (drop (round_size data) data) (copied + round_size data) s5 = Some (v, s')"
      using less.prems(2) unfolding run by (auto split: if_splits)
    then show ?thesis
    proof cases
      case 1
      then show ?thesis using give_back(1,2) [OF w(1)] w(2,3) st sends_Nil [of s' s e data] by auto
    next
      case 2
      then have "sends e data s s' [sub]"
        unfolding sub_def by (intro sends_Cons [OF d sends_Nil [of s' s', OF refl]]) (use w(3) in \<open>simp_all add: s4_def sub_def\<close>)
      then show ?thesis using give_back(1,2) [OF i4(1)] i4(2) 2 st by (auto simp: s4_def)
    next
      case 3
      have "length (drop (round_size data) data) < length data" using d by (cases data) (simp_all add: round_size_def)
      from less.hyps [OF this _ 3] give_back(3,4) [OF i4(1), folded s5_def] i4(2)
      obtain subs where "io_inv [] s'" "mset (all_reqs [] s') = mset (all_reqs [] s)" "\<not> resets (tl ws) \<longrightarrow> streams [] s5 s'"
          and sn: "sends e (drop (round_size data) data) s5 s' subs"
        by auto
      moreover have "sends e data s s' (sub # subs)"
        using w(3) unfolding sub_def by (intro sends_Cons [OF d sn]) (simp add: s5_def s4_def sub_def)
      moreover have "\<not> resets ws \<Longrightarrow> streams [] s s5" using st by (simp add: s5_def s4_def)
      ultimately show ?thesis using streams_trans [of "[]" s s5 "[]" s'] resets_tl [of ws] by auto
    qed
  qed
qed

text \<open>Without faults, resets and controller errors every piece for which there is a request is queued.\<close>

definition sent :: "scale_env \<Rightarrow> bytes \<Rightarrow> submit list \<Rightarrow> bytes" where
  "sent e data subs = concat (map fst (take (length subs) (tx_chunks (in_maxpacket e) data)))"

lemma write_loop_clean:
  assumes "io_inv [] s" and "\<not> resets ws" and "\<forall>w\<in>set ws. fst w = 0" and "\<forall>sub h. ep_queue e sub h = 0"
    and "0 < in_maxpacket e" and "\<not> reset_scale s"
  shows "\<exists>s' subs. write_loop e ws data copied s =
             Some (if copied + length (sent e data subs) \<noteq> 0 then int (copied + length (sent e data subs)) else - EAGAIN, s') \<and>
           sends e data s s' subs \<and> (length subs = length (tx_chunks (in_maxpacket e) data) \<or> tx_reqs s' = []) \<and>
           (tx_reqs s \<noteq> [] \<and> data \<noteq> [] \<longrightarrow> subs \<noteq> [])"
  using assms(1-3,6)
proof (induction "length data" arbitrary: ws data copied s rule: less_induct)
  case less
  show ?case
  proof (cases "tx_reqs s = [] \<or> data = []")
    case True
    then show ?thesis
      by (intro exI [of _ s] exI [of _ "[]"]) (auto simp: write_loop.simps [of e ws data] sends_Nil sent_def)
  next
    case False
    then obtain r rs where r: "tx_reqs s = r # rs" and d: "data \<noteq> []" by (cases "tx_reqs s") auto
    have nz: "\<not> (length data \<le> round_size data \<and> in_maxpacket e = 0)" using assms(5) by simp
    define s3 where "s3 = round_state e ws data r rs s"
    define sub where "sub = SubmitTx r (take (round_size data) data) (round_zero e data)"
    define s4 where "s4 = s3\<lparr>submitted := submitted s3 @ [sub]\<rparr>"
    define s5 where "s5 = s4\<lparr>tx_reqs_active := r # tx_reqs_active s4\<rparr>"
    note w = write_round [OF less.prems(1) r refl s3_def [unfolded round_state_def]]
    have i5: "io_inv [] s5" unfolding s5_def by (rule give_back(3)) (use w(1) in \<open>simp add: s4_def\<close>)
    have nr: "\<not> reset_scale s5" using w(5) less.prems(2,4) resets_hd [of ws] by (auto simp: s5_def s4_def)
    have "uncopied ws = 0" using less.prems(3) by (cases ws) (auto simp: uncopied_def)
    then have run: "write_loop e ws data copied s =
        write_loop e (tl ws) (drop (round_size data) data) (copied + round_size data) s5"
      using write_loop_round [OF r d nz s3_def sub_def s4_def, of copied, folded s5_def] nr assms(4)
      by (simp add: s5_def s4_def)
    have lt: "length (drop (round_size data) data) < length data" using d by (cases data) (simp_all add: round_size_def)
    have ws: "\<not> resets (tl ws)" "\<forall>w\<in>set (tl ws). fst w = 0"
      using less.prems(2,3) resets_tl [of ws] by (blast, cases ws) simp_all
    obtain s' subs where ih: "write_loop e (tl ws) (drop (round_size data) data) (copied + round_size data) s5 =
          Some (if copied + round_size data + length (sent e (drop (round_size data) data) subs) \<noteq> 0
                then int (copied + round_size data + length (sent e (drop (round_size data) data) subs)) else - EAGAIN, s')"
        and sn: "sends e (drop (round_size data) data) s5 s' subs"
        and nd: "length subs = length (tx_chunks (in_maxpacket e) (drop (round_size data) data)) \<or> tx_reqs s' = []"
      using less.hyps [OF lt i5 ws nr, of "copied + round_size data"] by blast
    have "sends e data s s' (sub # subs)"
      using w(3) unfolding sub_def by (intro sends_Cons [OF d sn]) (simp add: s5_def s4_def sub_def)
    moreover have len: "length (sent e data (sub # subs)) = round_size data + length (sent e (drop (round_size data) data) subs)"
      using round_chunk [OF d, of e] by (simp add: sent_def round_size_def)
    moreover have "length (sub # subs) = length (tx_chunks (in_maxpacket e) data) \<or> tx_reqs s' = []"
      using nd round_chunk [OF d, of e] by simp
    moreover have "write_loop e ws data copied s =
        Some (if copied + length (sent e data (sub # subs)) \<noteq> 0 then int (copied + length (sent e data (sub # subs))) else - EAGAIN, s')"
      unfolding run ih len by (simp only: add.assoc)
    ultimately show ?thesis by blast
  qed
qed

section \<open>The whole operation\<close>

lemma scale_write_ok:
  assumes "io_inv [] s" and "scale_write e nb data ws s = Some (v, s')"
  shows "io_inv [] s' \<and> mset (all_reqs [] s') = mset (all_reqs [] s) \<and>
         (\<exists>subs. sends e data s s' subs) \<and> (\<not> resets ws \<longrightarrow> streams [] s s')"
proof (cases "interface s < 0 \<or> data = []")
  case True
  then have "s' = s" using assms(2) by (auto simp: scale_write_def split: if_splits)
  then show ?thesis using assms(1) sends_Nil [of s s, OF refl] by auto
next
  case False
  define s1 where "s1 = s\<lparr>io_locked := True, reset_scale := False\<rparr>"
  define sl where "sl \<longleftrightarrow> tx_reqs s1 = []"
  define s2 where "s2 = (if sl then fold do_irq (irqs_of ws) s1 else s1)"
  have i1: "io_inv [] s1" "mset (all_reqs [] s1) = mset (all_reqs [] s)" "streams [] s s1" "submitted s1 = submitted s"
    using assms(1) by (simp_all add: s1_def streams_def pending_def stream_left_def)
  obtain s3 where w: "write_loop e (if sl then tl ws else ws) data 0 s2 = Some (v, s3)" and s': "s' = s3\<lparr>io_locked := False\<rparr>"
    using assms(2) False by (auto simp: scale_write_def Let_def s1_def sl_def s2_def split: if_splits)
  have i2: "io_inv [] s2" "mset (all_reqs [] s2) = mset (all_reqs [] s)" "submitted s2 = submitted s"
    using i1 irqs_inv [OF i1(1), of "irqs_of ws"] by (simp_all add: s2_def)
  have st: "streams [] s s2" if nr: "\<not> resets ws"
  proof -
    have "streams [] s1 s2"
      using irqs_arrive [OF i1(1), of "irqs_of ws"] resets_hd [of ws] nr arrives_streams by (auto simp: s2_def)
    then show ?thesis using streams_trans [OF i1(3)] by simp
  qed
  have "\<not> resets ws \<Longrightarrow> \<not> resets (if sl then tl ws else ws)" using resets_tl by auto
  with write_loop_ok [OF i2(1) w] i2 st streams_trans [of "[]" s s2 "[]" s3]
  show ?thesis unfolding s' by (auto simp: sends_def streams_def pending_def stream_left_def)
qed

lemma scale_write_clean:
  assumes "io_inv [] s" and "\<not> io_locked s" and "0 \<le> interface s" and "data \<noteq> []" and "tx_reqs s \<noteq> []"
    and "\<not> resets ws" and "\<forall>w\<in>set ws. fst w = 0" and "\<forall>sub h. ep_queue e sub h = 0" and "0 < in_maxpacket e"
  shows "\<exists>s' subs. scale_write e nb data ws s = Some (int (length (sent e data subs)), s') \<and> subs \<noteq> [] \<and>
           sends e data s s' subs \<and> (length subs = length (tx_chunks (in_maxpacket e) data) \<or> tx_reqs s' = [])"
proof -
  define s1 where "s1 = s\<lparr>io_locked := True, reset_scale := False\<rparr>"
  have i1: "io_inv [] s1" "\<not> reset_scale s1" "submitted s1 = submitted s" using assms(1) by (simp_all add: s1_def)
  obtain s' subs where w: "write_loop e ws data 0 s1 =
        Some (if 0 + length (sent e data subs) \<noteq> 0 then int (0 + length (sent e data subs)) else - EAGAIN, s')"
      and sn: "sends e data s1 s' subs" "length subs = length (tx_chunks (in_maxpacket e) data) \<or> tx_reqs s' = []"
      and "tx_reqs s1 \<noteq> [] \<and> data \<noteq> [] \<longrightarrow> subs \<noteq> []"
    using write_loop_clean [OF i1(1) assms(6-9) i1(2), of data 0] by blast
  then have ne: "subs \<noteq> []" using assms(4,5) by (simp add: s1_def)
  moreover have "sent e data subs \<noteq> []"
    using ne round_chunk [OF assms(4), of e] assms(4) by (cases subs) (simp_all add: sent_def round_size_def)
  ultimately show ?thesis
    using assms(2-5) w sn i1 
    by (intro exI [of _ "s'\<lparr>io_locked := False\<rparr>"] exI [of _ subs]) (auto simp: scale_write_def Let_def s1_def sends_def)
qed

end
