(* ===== verification/ScaleOps.thy ===== *)
theory ScaleOps
  imports ScaleWrite
begin

text \<open>
  The scale gadget as a machine: file operations and interrupts in any order. What holds of every run
  is proved once for machines that deliver a stream of bytes, and then for the gadget.
\<close>

section \<open>Machines that deliver a stream\<close>

text \<open>Runs a list of operations; the result is everything that was delivered, or nothing if one does not return.\<close>

primrec run_ops :: "('op \<Rightarrow> 's \<Rightarrow> ('b list \<times> 's) option) \<Rightarrow> 'op list \<Rightarrow> 's \<Rightarrow> ('b list \<times> 's) option" where
  "run_ops step [] s = Some ([], s)"
| "run_ops step (a # as) s =
     (case step a s of
        None \<Rightarrow> None
      | Some (x, s1) \<Rightarrow> (case run_ops step as s1 of None \<Rightarrow> None | Some (y, s2) \<Rightarrow> Some (x @ y, s2)))"

text \<open>
  The contract of one operation: it keeps the invariant and the objects of the machine, and unless it
  is disturbed it delivers the waiting bytes in order and lets new ones queue behind them.
\<close>

locale stream_machine =
  fixes step :: "'op \<Rightarrow> 's \<Rightarrow> ('b list \<times> 's) option"
    and quiet :: "'op \<Rightarrow> bool"
    and inv :: "'s \<Rightarrow> bool"
    and objs :: "'s \<Rightarrow> 'r multiset"
    and arrived :: "'s \<Rightarrow> 'b list"
    and waiting :: "'s \<Rightarrow> 'b list"
  assumes step_inv: "inv s \<Longrightarrow> step a s = Some (x, s') \<Longrightarrow> inv s' \<and> objs s' = objs s"
    and step_stream: "inv s \<Longrightarrow> quiet a \<Longrightarrow> step a s = Some (x, s') \<Longrightarrow>
          \<exists>new. arrived s' = arrived s @ new \<and> x @ waiting s' = waiting s @ new"
begin

lemma run_inv: "inv s \<Longrightarrow> run_ops step as s = Some (x, s') \<Longrightarrow> inv s' \<and> objs s' = objs s"
proof (induction as arbitrary: s x)
  case (Cons a as)
  obtain y s1 z where "step a s = Some (y, s1)" "run_ops step as s1 = Some (z, s')"
    using Cons.prems(2) by (auto split: option.splits)
  then show ?case using step_inv [OF Cons.prems(1)] Cons.IH by metis
qed simp

lemma run_stream:
  "inv s \<Longrightarrow> list_all quiet as \<Longrightarrow> run_ops step as s = Some (x, s') \<Longrightarrow>
   \<exists>new. arrived s' = arrived s @ new \<and> x @ waiting s' = waiting s @ new"
proof (induction as arbitrary: s x)
  case (Cons a as)
  obtain y s1 z where st: "step a s = Some (y, s1)" "run_ops step as s1 = Some (z, s')" and x: "x = y @ z"
    using Cons.prems(3) by (auto split: option.splits)
  obtain n where n: "arrived s1 = arrived s @ n" "y @ waiting s1 = waiting s @ n"
    using step_stream [OF Cons.prems(1) _ st(1)] Cons.prems(2) by auto
  obtain m where m: "arrived s' = arrived s1 @ m" "z @ waiting s' = waiting s1 @ m"
    using Cons.IH [OF _ _ st(2)] step_inv [OF Cons.prems(1) st(1)] Cons.prems(2) by auto
  have "x @ waiting s' = (y @ waiting s1) @ m" using x m(2) by simp
  then show ?case using n m(1) by auto
qed simp

text \<open>A machine that starts with nothing delivers a prefix of what arrived, and the rest waits.\<close>

lemma run_delivers:
  assumes "inv s" and "arrived s = []" and "waiting s = []" and "list_all quiet as" and "run_ops step as s = Some (x, s')"
  shows "x @ waiting s' = arrived s'"
  using run_stream [OF assms(1,4,5)] assms(2,3) by auto

end

section \<open>The operations of the gadget\<close>

datatype scale_op =
    Open | Close
  | Read bool nat "win list"
  | Write bool bytes "win list"
  | Fsync "win list"
  | Poll "win list"
  | Ioctl scale_cmd
  | Interrupts "irq list"

fun scale_step :: "scale_env \<Rightarrow> scale_op \<Rightarrow> scale_dev \<Rightarrow> (bytes \<times> scale_dev) option" where
  "scale_step e Open s = Some ([], snd (scale_open s))"
| "scale_step e Close s = Some ([], snd (scale_close s))"
| "scale_step e (Read nb len ws) s = map_option (\<lambda>(v, data, s', ws'). (data, s')) (scale_read e nb len ws s)"
| "scale_step e (Write nb data ws) s = map_option (\<lambda>(v, s'). ([], s')) (scale_write e nb data ws s)"
| "scale_step e (Fsync ws) s = (case scale_fsync ws s of (v, s', ws') \<Rightarrow> Some ([], s'))"
| "scale_step e (Poll ws) s = map_option (\<lambda>(v, s'). ([], s')) (scale_poll e ws s)"
| "scale_step e (Ioctl cmd) s = Some ([], snd (scale_ioctl cmd s))"
| "scale_step e (Interrupts is) s = Some ([], fold do_irq is s)"

text \<open>An operation in which no reset of the device happens.\<close>

fun no_reset :: "scale_op \<Rightarrow> bool" where
  "no_reset (Read nb len ws) \<longleftrightarrow> \<not> resets ws"
| "no_reset (Write nb data ws) \<longleftrightarrow> \<not> resets ws"
| "no_reset (Fsync ws) \<longleftrightarrow> \<not> resets ws"
| "no_reset (Poll ws) \<longleftrightarrow> \<not> resets ws"
| "no_reset (Interrupts is) \<longleftrightarrow> Reset \<notin> set is"
| "no_reset _ \<longleftrightarrow> True"

lemma irqs_streams:
  assumes "io_inv [] s" and "Reset \<notin> set is"
  shows "streams [] s (fold do_irq is s)"
  using irqs_arrive [OF assms] arrives_streams by blast

lemma setup_rx_ok:
  assumes "io_inv [] s"
  shows "io_inv [] (setup_rx_reqs e s)" and "mset (all_reqs [] (setup_rx_reqs e s)) = mset (all_reqs [] s)"
    and "streams [] s (setup_rx_reqs e s)" and "io_locked (setup_rx_reqs e s) = io_locked s"
    and "pending (setup_rx_reqs e s) = pending s"
  using setup_rx_keeps [OF assms refl, of e] arrives_streams
  by (auto simp: setup_rx_reqs_def arrives_def pending_def stream_left_def)

lemma scale_poll_ok:
  assumes "io_inv [] s" and "scale_poll e ws s = Some (fl, s')"
  shows "io_inv [] s' \<and> mset (all_reqs [] s') = mset (all_reqs [] s) \<and> (\<not> resets ws \<longrightarrow> streams [] s s')"
proof -
  have s': "s' = fold do_irq (irqs_of ws) (setup_rx_reqs e s)"
    using assms(2) by (auto simp: scale_poll_def Let_def split: if_splits)
  note k = setup_rx_ok [OF assms(1), of e]
  show ?thesis
    using irqs_inv [OF k(1), of "irqs_of ws"] irqs_streams [OF k(1), of "irqs_of ws"] k(2,3) resets_hd [of ws]
      streams_trans [of "[]" s "setup_rx_reqs e s" "[]"] unfolding s' by auto
qed

lemma scale_fsync_ok:
  assumes "io_inv [] s" and "scale_fsync ws s = (v, s', ws')"
  shows "io_inv [] s' \<and> mset (all_reqs [] s') = mset (all_reqs [] s) \<and> (\<not> resets ws \<longrightarrow> streams [] s s')"
  using assms irqs_inv [OF assms(1), of "irqs_of ws"] irqs_streams [OF assms(1), of "irqs_of ws"] resets_hd [of ws]
  by (auto simp: scale_fsync_def split: if_splits)

lemma streams_status [simp]:
  "streams [] s (s\<lparr>scale_status := v\<rparr>)" "streams [] s (s\<lparr>scale_cdev_open := b, scale_status := v\<rparr>)"
  by (simp_all add: streams_def pending_def stream_left_def)

lemma scale_step_ok:
  assumes "io_inv [] s" and "scale_step e a s = Some (x, s')"
  shows "io_inv [] s' \<and> mset (all_reqs [] s') = mset (all_reqs [] s) \<and> (no_reset a \<longrightarrow> streams x s s')"
proof (cases a)
  case (Read nb len ws)
  then show ?thesis using assms(2) scale_read_ok [OF assms(1)] by auto
next
  case (Write nb data ws)
  then show ?thesis using assms(2) scale_write_ok [OF assms(1)] by auto
next
  case (Fsync ws)
  then show ?thesis using assms(2) scale_fsync_ok [OF assms(1)] by (auto split: prod.splits)
next
  case (Poll ws)
  then show ?thesis using assms(2) scale_poll_ok [OF assms(1)] by auto
next
  case (Ioctl cmd)
  then show ?thesis using assms by (auto simp: scale_ioctl_def split: scale_cmd.splits)
next
  case (Interrupts "is")
  then show ?thesis using assms irqs_inv [OF assms(1)] irqs_streams [OF assms(1)] by auto
next
  case Open
  then show ?thesis using assms by (auto simp: scale_open_def)
next
  case Close
  then show ?thesis using assms by (auto simp: scale_close_def)
qed

interpretation scale: stream_machine "scale_step e" no_reset "io_inv []" "\<lambda>s. mset (all_reqs [] s)" rx_total pending
  by unfold_locales (use scale_step_ok in \<open>auto simp: streams_def\<close>)

section \<open>Every run of the gadget\<close>

abbreviation (input) QLEN :: nat where "QLEN \<equiv> 10"

text \<open>The device as \<open>scale_bind\<close> leaves it: the requests are all free, the interface is not set.\<close>

definition scale_init :: scale_dev where
  "scale_init = \<lparr>reqs = (\<lambda>_. \<lparr>rq_buf = [], rq_length = USB_BUFSIZE, rq_actual = 0, rq_zero = False\<rparr>),
     rx_reqs = rev [QLEN ..< 2 * QLEN], rx_reqs_active = [], rx_buffers = [],
     tx_reqs = rev [0 ..< QLEN], tx_reqs_active = [], current_rx = None,
     scale_status = SCALE_USB_NOT_ERROR, interface = - 1, reset_scale = False, scale_cdev_open = False,
     io_locked = False, submitted = [], rx_total = []\<rparr>"

lemma scale_init_inv: "io_inv [] scale_init"
  by (simp add: io_inv_def all_reqs_def buffers_ok_def cur_ok_def scale_init_def cur_req_def)

lemma scale_init_empty: "rx_total scale_init = []" "pending scale_init = []"
  by (simp_all add: scale_init_def pending_def stream_left_def cur_bytes_def buffered_def)

text \<open>A controller that takes every request, with packets of 64 bytes.\<close>

definition good_env :: scale_env where
  "good_env = \<lparr>ep_queue = (\<lambda>_ _. 0), in_maxpacket = 64\<rparr>"

lemma scale_init_set: "set (all_reqs [] scale_init) = {..< 2 * QLEN}"
proof -
  have "all_reqs [] scale_init = rev [QLEN ..< 2 * QLEN] @ rev [0 ..< QLEN]"
    by (simp only: all_reqs_def scale_init_def scale_dev.simps cur_req_def option.case append_Nil append_Nil2)
  then show ?thesis by (simp only: set_append set_rev set_upt) auto
qed

definition demo_ops :: "scale_op list" where
  "demo_ops = [Open, Poll [(0, [RxDone 10 0 [1, 2, 3], RxDone 11 0 [4, 5]])], Read True 2 [],
     Read False 9 [(0, []), (0, [RxDone 12 0 [6]])], Fsync [], Ioctl (SET_SCALE_USB_STATUS 8), Close]"

lemma demo_run:
  obtains s' where "run_ops (scale_step good_env) demo_ops scale_init = Some ([1, 2, 3, 4, 5, 6], s')"
proof -
  have "map_option fst (run_ops (scale_step good_env) demo_ops scale_init) = Some [1, 2, 3, 4, 5, 6]" by code_simp
  then show ?thesis using that by auto
qed

text \<open>C26: However the file operations and the interrupts of the gadget follow each other, none of its twenty
  requests is ever lost or on two lists.\<close>

theorem scale_requests_conserved:
  assumes "run_ops (scale_step e) as scale_init = Some (x, s')"
  shows "distinct (all_reqs [] s') \<and> set (all_reqs [] s') = {..< 2 * QLEN}"
  using scale.run_inv [OF scale_init_inv assms] scale_init_set by (auto simp: io_inv_def dest!: mset_eq_setD)

theorem scale_requests_conserved_witness:
  "\<exists>s'. run_ops (scale_step good_env) demo_ops scale_init = Some ([1, 2, 3, 4, 5, 6], s') \<and>
        distinct (all_reqs [] s') \<and> set (all_reqs [] s') = {..< 20}"
proof -
  obtain s' where "run_ops (scale_step good_env) demo_ops scale_init = Some ([1, 2, 3, 4, 5, 6], s')" by (rule demo_run)
  with scale_requests_conserved [OF this] show ?thesis by simp
qed

text \<open>C2: The device is a queue of bytes: in every run without a reset, the bytes all reads have delivered
  so far, followed by those that still wait in its buffers, are exactly the bytes that arrived, in order.\<close>

theorem scale_reads_in_order:
  assumes "run_ops (scale_step e) as scale_init = Some (x, s')" and "list_all no_reset as"
  shows "x @ pending s' = rx_total s'"
  using scale.run_delivers [OF scale_init_inv scale_init_empty assms(2,1)] .

theorem scale_reads_in_order_witness:
  "\<exists>s'. run_ops (scale_step good_env) demo_ops scale_init = Some ([1, 2, 3, 4, 5, 6], s') \<and>
        [1, 2, 3, 4, 5, 6] @ pending s' = rx_total s'"
proof -
  obtain s' where "run_ops (scale_step good_env) demo_ops scale_init = Some ([1, 2, 3, 4, 5, 6], s')" by (rule demo_run)
  moreover have "list_all no_reset demo_ops" by (simp add: demo_ops_def resets_def)
  ultimately show ?thesis using scale_reads_in_order by blast
qed

text \<open>C11: A write that finds a free request returns the number of bytes it queued; these are the data
  cut into pieces of 512 bytes, in order, as many as there were requests for.\<close>

theorem scale_write_queues_pieces:
  assumes "io_inv [] s" and "\<not> io_locked s" and "0 \<le> interface s" and "data \<noteq> []" and "tx_reqs s \<noteq> []"
    and "\<not> resets ws" and "\<forall>w\<in>set ws. fst w = 0" and "\<forall>sub h. ep_queue e sub h = 0" and "0 < in_maxpacket e"
  shows "\<exists>s' subs. scale_write e nb data ws s = Some (int (length (sent e data subs)), s') \<and> subs \<noteq> [] \<and>
           submitted s' = submitted s @ subs \<and>
           map tx_payload subs = map Some (take (length subs) (tx_chunks (in_maxpacket e) data)) \<and>
           concat (map fst (tx_chunks (in_maxpacket e) data)) = data \<and>
           (length subs = length (tx_chunks (in_maxpacket e) data) \<or> tx_reqs s' = [])"
  using scale_write_clean [OF assms, of nb] tx_chunks_concat unfolding sends_def by blast

text \<open>The device as the host's first request leaves it.\<close>

abbreviation (input) scale_demo :: scale_dev where "scale_demo \<equiv> scale_init\<lparr>interface := 0\<rparr>"

theorem scale_write_queues_pieces_witness:
  "\<exists>s' subs. scale_write good_env True [7, 8] [] scale_demo = Some (int (length (sent good_env [7, 8] subs)), s') \<and>
             subs \<noteq> [] \<and> submitted s' = subs"
proof -
  have "io_inv [] scale_demo" using scale_init_inv by simp
  moreover have "\<not> io_locked scale_demo" "tx_reqs scale_demo \<noteq> []" "submitted scale_demo = []" "\<not> resets []"
      "\<forall>sub h. ep_queue good_env sub h = 0" "0 < in_maxpacket good_env"
    by (simp_all add: scale_init_def good_env_def resets_def)
  ultimately show ?thesis using scale_write_queues_pieces [of scale_demo "[7, 8]" "[]" good_env True] by fastforce
qed

lemma irqs_locked [simp]: "io_locked (fold do_irq is s) = io_locked s"
proof (induction "is" arbitrary: s)
  case (Cons i "is")
  have "io_locked (do_irq i s) = io_locked s"
    by (cases i) (simp_all add: tx_complete_def reset_io_def split: option.split)
  then show ?case using Cons.IH by simp
qed simp

lemma setup_rx_locked [simp]: "io_locked (setup_rx_from e rs s) = io_locked s"
  by (induction rs arbitrary: s) (simp_all add: Let_def upd_req_def)

lemma write_loop_Some: "0 < in_maxpacket e \<Longrightarrow> write_loop e ws data copied s \<noteq> None"
proof (induction "length data" arbitrary: ws data copied s rule: less_induct)
  case less
  show ?case
  proof (cases "tx_reqs s = [] \<or> data = []")
    case True
    then show ?thesis by (auto simp: write_loop.simps)
  next
    case False
    then obtain r rs where r: "tx_reqs s = r # rs" and d: "data \<noteq> []" by (cases "tx_reqs s") auto
    have lt: "length (drop (round_size data) data) < length data" using d by (cases data) (simp_all add: round_size_def)
    have nz: "\<not> (length data \<le> round_size data \<and> in_maxpacket e = 0)" using less.prems by simp
    show ?thesis using write_loop_round [OF r d nz refl refl refl] less.hyps [OF lt less.prems] by simp
  qed
qed

lemma scale_read_returns:
  "\<not> io_locked s \<Longrightarrow> \<exists>v data s' ws'. scale_read e nb len ws s = Some (v, data, s', ws') \<and> \<not> io_locked s'"
  by (auto simp: scale_read_def Let_def split: prod.splits read_end.splits)

lemma scale_write_returns:
  assumes "\<not> io_locked s" and "0 < in_maxpacket e"
  shows "(scale_write e nb data ws s = None \<longleftrightarrow> nb \<and> 0 \<le> interface s \<and> data \<noteq> [] \<and> tx_reqs s = []) \<and>
         (\<forall>v s'. scale_write e nb data ws s = Some (v, s') \<longrightarrow> \<not> io_locked s')"
proof (cases "interface s < 0 \<or> data = []")
  case True
  then show ?thesis using assms(1) by (auto simp: scale_write_def)
next
  case False
  then show ?thesis
    using assms write_loop_Some [OF assms(2)] by (auto simp: scale_write_def Let_def)
qed

text \<open>An operation that finds the mutex free returns and leaves it free, except a write that must not
  block and finds no free request: it waits for itself. For a read this is about copies that fail finitely
  often, since the windows of the call are a finite list (see \<open>read_loop\<close>).\<close>

theorem scale_step_returns:
  assumes "\<not> io_locked s" and "0 < in_maxpacket e"
  shows "(scale_step e a s = None \<longleftrightarrow>
            (\<exists>data ws. a = Write True data ws \<and> 0 \<le> interface s \<and> data \<noteq> [] \<and> tx_reqs s = [])) \<and>
         (\<forall>x s'. scale_step e a s = Some (x, s') \<longrightarrow> \<not> io_locked s')"
proof (cases a)
  case (Read nb len ws)
  then show ?thesis using scale_read_returns [OF assms(1), of e nb len ws] by auto
next
  case (Write nb data ws)
  then show ?thesis using scale_write_returns [OF assms, of nb data ws] by auto
next
  case (Fsync ws)
  then show ?thesis using assms(1) by (auto simp: scale_fsync_def)
next
  case (Poll ws)
  then show ?thesis using assms(1) by (auto simp: scale_poll_def Let_def setup_rx_reqs_def)
next
  case (Ioctl cmd)
  then show ?thesis using assms(1) by (auto simp: scale_ioctl_def split: scale_cmd.splits)
qed (use assms(1) in \<open>auto simp: scale_open_def scale_close_def\<close>)

theorem scale_step_returns_witness:
  "scale_step good_env (Write True [7] []) (scale_demo\<lparr>tx_reqs := []\<rparr>) = None \<and>
   scale_step good_env (Write False [7] []) (scale_demo\<lparr>tx_reqs := []\<rparr>) \<noteq> None"
  using scale_step_returns [of "scale_demo\<lparr>tx_reqs := []\<rparr>" good_env "Write True [7] []"]
    scale_step_returns [of "scale_demo\<lparr>tx_reqs := []\<rparr>" good_env "Write False [7] []"]
  by (simp add: good_env_def scale_init_def)

lemma pending_iff:
  assumes "io_inv [] s"
  shows "pending s \<noteq> [] \<longleftrightarrow> rx_left (current_rx s) \<noteq> 0 \<or> rx_buffers s \<noteq> []"
proof -
  have "cur_bytes (current_rx s) s = [] \<longleftrightarrow> rx_left (current_rx s) = 0"
    using assms by (auto simp: io_inv_def cur_ok_def cur_bytes_def rx_left_def split: option.splits)
  moreover have "buffered s = [] \<longleftrightarrow> rx_buffers s = []"
    using assms by (cases "rx_buffers s") (auto simp: io_inv_def buffers_ok_def buffered_def)
  ultimately show ?thesis by (simp add: pending_def stream_left_def)
qed

text \<open>C27: Polling tells the truth: it reports input if and only if bytes wait, and then a read that must
  not block delivers at least one of them.\<close>

theorem scale_poll_then_read:
  assumes "io_inv [] s" and "scale_poll e ws s = Some (flags, s')" and "0 < len"
  shows "(POLLIN \<in> flags \<longleftrightarrow> pending s' \<noteq> []) \<and>
         (POLLIN \<in> flags \<longrightarrow> (\<exists>data s'' ws'. scale_read e True len [] s' = Some (int (length data), data, s'', ws') \<and>
            data \<noteq> [] \<and> (\<exists>new. data @ pending s'' = pending s' @ new)))"
proof -
  have i: "io_inv [] s'" using scale_poll_ok [OF assms(1,2)] by simp
  have fl: "POLLIN \<in> flags \<longleftrightarrow> pending s' \<noteq> []" and ul: "\<not> io_locked s'"
    using assms(2) pending_iff [OF i] by (auto simp: scale_poll_def Let_def setup_rx_reqs_def split: if_splits)
  moreover have "\<exists>data s'' ws'. scale_read e True len [] s' = Some (int (length data), data, s'', ws') \<and>
            data \<noteq> [] \<and> (\<exists>new. data @ pending s'' = pending s' @ new)" if ne: "pending s' \<noteq> []"
  proof -
    obtain v data s'' ws' where r: "scale_read e True len [] s' = Some (v, data, s'', ws')"
      using scale_read_returns [OF ul] by blast
    have "\<not> resets []" by (simp add: resets_def)
    with scale_read_ok [OF i r] assms(3)
    have st: "streams data s' s''" "v = (if data = [] then - EAGAIN else int (length data))" "length data = len \<or> pending s'' = []"
      by auto
    have "data \<noteq> []" using st(1,3) assms(3) ne by (auto simp: streams_def)
    then show ?thesis using r st by (auto simp: streams_def)
  qed
  ultimately show ?thesis by blast
qed

theorem scale_poll_then_read_witness:
  "\<exists>flags s'. scale_poll good_env [(0, [RxDone 10 0 [5]])] scale_demo = Some (flags, s') \<and> POLLIN \<in> flags \<and> pending s' \<noteq> []"
proof -
  have "map_option fst (scale_poll good_env [(0, [RxDone 10 0 [5]])] scale_demo) = Some {POLLIN, POLLRDNORM, POLLOUT, POLLWRNORM}"
    by code_simp
  then obtain flags s' where "scale_poll good_env [(0, [RxDone 10 0 [5]])] scale_demo = Some (flags, s')" "POLLIN \<in> flags" by auto
  moreover have "io_inv [] scale_demo" using scale_init_inv by simp
  ultimately show ?thesis using scale_poll_then_read [of scale_demo good_env _ flags s' 1] by auto
qed

text \<open>
  A window in which the copy to the user fails entirely: the loop has not advanced and tries again.
\<close>

lemma read_loop_fault:
  assumes "0 < n" and "0 < len" and "min len n \<le> u" and "\<not> reset_scale s"
  shows "read_loop ((u, []) # ws) len (Some (r, n, off)) acc s = read_loop ws len (Some (r, n, off)) acc s"
  using assms
  by (subst read_loop.simps) (auto simp: rx_left_def next_rx_def read_piece_def Let_def irqs_of_def uncopied_def min_def)

text \<open>While the user's buffer cannot be written, a read makes no progress and does not give up: it goes
  round its loop as often as the copy fails, with the bytes still in the request, and only then delivers them.\<close>

theorem scale_read_retries_faults:
  assumes "\<not> io_locked s" and "current_rx s = Some (r, n, off)" and "0 < n" and "0 < len" and "min len n \<le> u" and "rx_reqs s = []"
  shows "scale_read e nb len (replicate k (u, []) @ ws) s = scale_read e nb len ws s"
proof (induction k)
  case (Suc k)
  have "scale_read e nb len ((u, []) # ws') s = scale_read e nb len ws' s" for ws'
    using assms by (simp add: scale_read_def Let_def setup_rx_reqs_def rx_left_def read_loop_fault)
  then show ?case using Suc by simp
qed simp

theorem scale_read_retries_faults_witness:
  "scale_read good_env True 4 (replicate 7 (4, []) @ []) (scale_demo\<lparr>current_rx := Some (10, 1, 0), rx_reqs := []\<rparr>) =
   scale_read good_env True 4 [] (scale_demo\<lparr>current_rx := Some (10, 1, 0), rx_reqs := []\<rparr>)"
  by (rule scale_read_retries_faults [where r = 10 and n = 1 and off = 0]) (simp_all add: scale_init_def)

end
