(* ===== verification/CompositeDemo.thy ===== *)
theory CompositeDemo
  imports Composite
begin

text \<open>
  A concrete composite device on which the properties of the framework are exercised: one
  configuration with the value 1, made of one function with one interface and one bulk-in endpoint,
  on a controller that supports both speeds.
\<close>

definition demo_descs :: "bytes list" where
  "demo_descs = [[9, 4, 0, 0, 1, 0xff, 0, 0, 0], [7, 5, 0x81, 2, 64, 0, 0]]"

definition demo_function :: usb_function where
  "demo_function = \<lparr>f_strings = None, f_descriptors = Some demo_descs, f_hs_descriptors = Some demo_descs,
     f_config = Some 0, f_endpoints = 0, f_has_bind = False, f_has_unbind = False, f_has_set_alt = True,
     f_has_get_alt = False, f_has_disable = True, f_has_setup = True, f_has_suspend = False, f_has_resume = False\<rparr>"

definition demo_config :: usb_configuration where
  "demo_config = \<lparr>c_value = 1, c_iConfiguration = 0, c_bmAttributes = 0, c_bMaxPower = 0, c_descriptors = None,
     c_strings = Some [\<lparr>language = 0x0409, tab_strings = None\<rparr>], c_functions = [0],
     c_interface = Some 0 # replicate 15 None, c_next_interface_id = 1, c_attached = True,
     c_fullspeed = True, c_highspeed = True, c_has_unbind = False, c_has_setup = False\<rparr>"

definition demo_device_descriptor :: usb_device_descriptor where
  "demo_device_descriptor = \<lparr>d_bcdUSB = 0x0200, d_class = 0, d_subclass = 0, d_protocol = 0, d_maxpacket0 = 64,
     d_idVendor = 0x0525, d_idProduct = 0xa4a0, d_bcdDevice = 0x0100, d_iManufacturer = 0, d_iProduct = 0,
     d_iSerialNumber = 0, d_numConfigurations = 0\<rparr>"

definition demo_dev :: usb_composite_dev where
  "demo_dev = \<lparr>funcs = (\<lambda>_. demo_function), confs = (\<lambda>_. demo_config), configs = [0], cur_config = None,
     gadget = \<lparr>g_name = ''dummy_udc'', is_dualspeed = True, ep_list = []\<rparr>, epnum = 0, gspeed = SPEED_FULL,
     next_string_id = 0, deactivations = 0, delayed_status = 0, is_suspended = False,
     desc = demo_device_descriptor, req_buf = replicate 1024 0, req_length = 0, req_zero = False,
     manufacturer_override = 0, product_override = 0, serial_override = 0,
     composite_manufacturer = [0], calls = []\<rparr>"

definition demo_env :: comp_env where
  "demo_env = \<lparr>ext = (\<lambda>_ _. 0), fbind = (\<lambda>_ _ s. (0, s)), cbind = (\<lambda>_ s. (0, s)),
     composite = \<lparr>drv_dev = demo_device_descriptor, drv_strings = None, drv_iManufacturer = None, drv_iProduct = None,
       drv_has_unbind = False, drv_has_disconnect = False, drv_has_suspend = False, drv_has_resume = False\<rparr>,
     params = \<lparr>p_idVendor = 0, p_idProduct = 0, p_bcdDevice = 0, p_iManufacturer = None, p_iProduct = None,
       p_iSerialNumber = None\<rparr>,
     MAX_CONFIG_INTERFACES = 16, DELAYED_STATUS = 0x7fff, VBUS_DRAW = 100, is_dual = True, is_otg = False\<rparr>"

lemmas demo_defs = demo_descs_def demo_function_def demo_config_def demo_device_descriptor_def demo_dev_def
  demo_env_def

end
