(* ===== verification/ScaleBind.thy ===== *)
theory ScaleBind
  imports ScaleCtl ScaleOps CompositeDemo
begin

text \<open>
  Binding the scale gadget to a controller, \<^verbatim>\<open>scale_bind\<close> of \<^verbatim>\<open>test_gadget/scale_usb.c\<close> in its \<^verbatim>\<open>NEW_STYLE\<close>, and
  \<^verbatim>\<open>scale_unbind\<close>. It takes string numbers from the composite framework, endpoints from the endpoint
  configuration, and memory. Each use of memory asks the function \<open>ok\<close> whether it succeeds. \<open>None\<close> is an
  access through a null pointer or through a pointer to another type: the failure path calls
  \<^verbatim>\<open>scale_unbind\<close> while the private data of the gadget is still the composite device.
\<close>

section \<open>Requests\<close>

text \<open>The number of uses of memory so far, and the requests that are allocated.\<close>

record heap =
  draws :: nat
  next_req :: nat
  live :: "nat list"

definition draw :: "(nat \<Rightarrow> bool) \<Rightarrow> heap \<Rightarrow> bool \<times> heap" where
  "draw ok h = (ok (draws h), h\<lparr>draws := Suc (draws h)\<rparr>)"

text \<open>A request and its buffer; when there is no buffer the request is freed again.\<close>

definition scale_req_alloc :: "(nat \<Rightarrow> bool) \<Rightarrow> heap \<Rightarrow> nat option \<times> heap" where
  "scale_req_alloc ok h =
     (let (a, h1) = draw ok h
      in if \<not> a then (None, h1)
         else
           let r = next_req h1; h2 = h1\<lparr>next_req := Suc r, live := r # live h1\<rparr>;
               (b, h3) = draw ok h2
           in if \<not> b then (None, h3\<lparr>live := remove1 r (live h3)\<rparr>) else (Some r, h3))"

definition scale_req_free :: "nat \<Rightarrow> heap \<Rightarrow> heap" where
  "scale_req_free r h = h\<lparr>live := remove1 r (live h)\<rparr>"

definition scale_request_new :: "(nat \<Rightarrow> bool) \<Rightarrow> heap \<Rightarrow> nat option \<times> heap" where
  "scale_request_new = scale_req_alloc"

text \<open>The loop that fills a pool: after a failure it frees the pool.\<close>

primrec fill_pool :: "(nat \<Rightarrow> bool) \<Rightarrow> nat \<Rightarrow> nat list \<Rightarrow> heap \<Rightarrow> nat list option \<times> heap" where
  "fill_pool ok 0 pool h = (Some pool, h)"
| "fill_pool ok (Suc n) pool h =
     (case scale_req_alloc ok h of
        (None, h1) \<Rightarrow> (None, fold scale_req_free pool h1)
      | (Some r, h1) \<Rightarrow> fill_pool ok n (r # pool) h1)"

section \<open>Binding\<close>

text \<open>
  The device while it is bound: the composite device with the gadget, the control path, the request of
  endpoint zero, the idle list, and whether the private data of the gadget is the scale device.
\<close>

record bind_state =
  cdev :: usb_composite_dev
  ctl :: scale_ctl
  memory :: heap
  ep0_req :: bool
  rx_req :: "nat option"
  tx_idle :: "nat list"
  data_is_scale :: bool

text \<open>Finding an endpoint and claiming it; the descriptor is filled in place.\<close>

definition claim_ep :: "kconfig \<Rightarrow> usb_endpoint_descriptor \<Rightarrow> usb_composite_dev \<Rightarrow>
    (usb_endpoint_descriptor option \<times> usb_endpoint_descriptor \<times> usb_composite_dev) option" where
  "claim_ep cfg d c =
     Option.bind (usb_ep_autoconfig cfg (gadget c) (d, epnum c)) (\<lambda>(r, d', n').
       let c1 = c\<lparr>epnum := n'\<rparr>
       in case r of
            None \<Rightarrow> Some (None, d', c1)
          | Some i \<Rightarrow>
              let g = gadget c1
              in Some (Some d', d', c1\<lparr>gadget := g\<lparr>ep_list := (ep_list g)[i := (ep_list g ! i)\<lparr>driver_data := True\<rparr>]\<rparr>\<rparr>))"

text \<open>
  One pair of test endpoints: the descriptors have numbers \<open>ki\<close> and \<open>ko\<close> in the table. The status is
  returned; a failure leaves what was done so far.
\<close>

definition set_ep_desc :: "nat \<Rightarrow> usb_endpoint_descriptor \<Rightarrow> scale_ctl \<Rightarrow> scale_ctl" where
  "set_ep_desc k d s = s\<lparr>ep_descs := (ep_descs s)[k := (d, snd (ep_descs s ! k))]\<rparr>"

primrec fill_idle :: "(nat \<Rightarrow> bool) \<Rightarrow> nat \<Rightarrow> bind_state \<Rightarrow> int \<times> bind_state" where
  "fill_idle ok 0 b = (0, b)"
| "fill_idle ok (Suc n) b =
     (case scale_request_new ok (memory b) of
        (None, h) \<Rightarrow> (- 1, b\<lparr>memory := h\<rparr>)
      | (Some r, h) \<Rightarrow> fill_idle ok n (b\<lparr>memory := h, tx_idle := tx_idle b @ [r]\<rparr>))"

definition adb_create_bulk_endpoints ::
    "kconfig \<Rightarrow> (nat \<Rightarrow> bool) \<Rightarrow> nat \<Rightarrow> nat \<Rightarrow> nat \<Rightarrow> bind_state \<Rightarrow> (int \<times> bind_state) option" where
  "adb_create_bulk_endpoints cfg ok ki ko i b =
     Option.bind (claim_ep cfg (fst (ep_descs (ctl b) ! ki)) (cdev b)) (\<lambda>(r1, d1, c1).
       let b1 = b\<lparr>cdev := c1, ctl := set_ep_desc ki d1 (ctl b)\<rparr>
       in if r1 = None then Some (- ENODEV, b1)
          else
            let b2 = b1\<lparr>ctl := (ctl b1)\<lparr>test_in := (test_in (ctl b1))(i := True)\<rparr>\<rparr>
            in Option.bind (claim_ep cfg (fst (ep_descs (ctl b2) ! ko)) (cdev b2)) (\<lambda>(r2, d2, c2).
                 let b3 = b2\<lparr>cdev := c2, ctl := set_ep_desc ko d2 (ctl b2)\<rparr>
                 in if r2 = None then Some (- ENODEV, b3)
                    else
                      let b4 = b3\<lparr>ctl := (ctl b3)\<lparr>test_out := (test_out (ctl b3))(i := True)\<rparr>\<rparr>;
                          (r, h) = scale_request_new ok (memory b4)
                      in if r = None then Some (- 1, b4\<lparr>memory := h\<rparr>)
                         else Some (fill_idle ok 4 (b4\<lparr>memory := h, rx_req := r\<rparr>))))"

text \<open>The string numbers, in the order manufacturer, product, serial number.\<close>

definition set_string_id :: "nat \<Rightarrow> int \<Rightarrow> scale_ctl \<Rightarrow> scale_ctl" where
  "set_string_id k i s =
     (let tab = (case tab_strings (stringtab s) of None \<Rightarrow> [] | Some t \<Rightarrow> t);
          d = dev_desc s
      in s\<lparr>stringtab := (stringtab s)\<lparr>tab_strings := Some (tab[k := (tab ! k)\<lparr>str_id := word_of_int i\<rparr>])\<rparr>,
           dev_desc := (if k = 1 then d\<lparr>d_iManufacturer := word_of_int i\<rparr>
                        else if k = 2 then d\<lparr>d_iProduct := word_of_int i\<rparr> else d\<lparr>d_iSerialNumber := word_of_int i\<rparr>)\<rparr>)"

fun bind_string_ids :: "nat list \<Rightarrow> bind_state \<Rightarrow> int \<times> bind_state" where
  "bind_string_ids [] b = (0, b)"
| "bind_string_ids (k # ks) b =
     (let (i, c) = usb_string_id (cdev b); b1 = b\<lparr>cdev := c\<rparr>
      in if i < 0 then (i, b1) else bind_string_ids ks (b1\<lparr>ctl := set_string_id k i (ctl b1)\<rparr>))"

definition bind_device :: "kconfig \<Rightarrow> usb_gadget \<Rightarrow> scale_ctl \<Rightarrow> scale_ctl option" where
  "bind_device cfg g s =
     (let gcnum = usb_gadget_controller_number cfg g;
          d = (dev_desc s)\<lparr>d_bcdDevice := (if gcnum \<ge> 0 then word_of_int (0x0200 + gcnum) else 0x0108),
                d_idVendor := 0x6244, d_idProduct := 0x0431\<rparr>
      in Option.bind (c_strlen (pnp_string s)) (\<lambda>len.
           map_option (\<lambda>p. s\<lparr>dev_desc := d, pnp_string := p\<rparr>)
             (mem_write (pnp_string s) 0 [of_nat (len div 256), of_nat (len mod 256)])))"

text \<open>
  The results of the registrations: whether \<^verbatim>\<open>device_create\<close> and \<^verbatim>\<open>cdev_add\<close> succeed. The endpoint descriptors
  \<^verbatim>\<open>fs_ep_in_desc\<close> and \<^verbatim>\<open>fs_ep_out_desc\<close> are used only to claim a pair of endpoints. The contents of the new
  response buffer, which are undefined, are taken as zero.
\<close>

definition reset_pools :: "scale_ctl \<Rightarrow> scale_ctl" where
  "reset_pools s = s\<lparr>dev_config := 0, io := (io s)\<lparr>tx_reqs := [], tx_reqs_active := [], rx_reqs := [],
     rx_reqs_active := [], rx_buffers := [], interface := - 1, scale_cdev_open := False,
     scale_status := SCALE_USB_NOT_ERROR, current_rx := None, io_locked := False\<rparr>\<rparr>"

definition bind_pools :: "(nat \<Rightarrow> bool) \<Rightarrow> bind_state \<Rightarrow> (int \<times> bind_state) option" where
  "bind_pools ok b =
     (let (a, h1) = draw ok (memory b); (a', h2) = draw ok h1
      in if \<not> a \<or> \<not> a' then None
         else
           let b1 = b\<lparr>memory := h2, ep0_req := True, ctl := (ctl b)\<lparr>ctl_buf := replicate USB_DESC_BUFSIZE 0\<rparr>\<rparr>;
               (tx, h3) = fill_pool ok QLEN [] (memory b1)
           in if tx = None then Some (- ENOMEM, b1\<lparr>memory := h3\<rparr>)
              else
                let b2 = b1\<lparr>memory := h3, ctl := (ctl b1)\<lparr>io := (io (ctl b1))\<lparr>tx_reqs := the tx\<rparr>\<rparr>\<rparr>;
                    (rx, h4) = fill_pool ok QLEN [] (memory b2)
                in if rx = None then Some (- ENOMEM, b2\<lparr>memory := h4\<rparr>)
                   else Some (0, b2\<lparr>memory := h4, ctl := (ctl b2)\<lparr>io := (io (ctl b2))\<lparr>rx_reqs := the rx\<rparr>\<rparr>\<rparr>))"

text \<open>The three pairs of test endpoints; the first pair becomes the pair of the data path.\<close>

definition bind_tests :: "kconfig \<Rightarrow> (nat \<Rightarrow> bool) \<Rightarrow> bind_state \<Rightarrow> (int \<times> bind_state) option" where
  "bind_tests cfg ok b =
     Option.bind (adb_create_bulk_endpoints cfg ok 3 0 0 b) (\<lambda>(_, b1).
     Option.bind (adb_create_bulk_endpoints cfg ok 4 1 1 b1) (\<lambda>(_, b2).
     Option.bind (adb_create_bulk_endpoints cfg ok 5 2 2 b2) (\<lambda>(_, b3).
       if test_in (ctl b3) 0 \<and> test_out (ctl b3) 0 then Some (0, b3\<lparr>data_is_scale := True\<rparr>) else None)))"

definition bind_endpoints :: "kconfig \<Rightarrow> bind_state \<Rightarrow> (int \<times> bind_state) option" where
  "bind_endpoints cfg b =
     (let (g, n) = usb_ep_autoconfig_reset (gadget (cdev b));
          b1 = b\<lparr>cdev := (cdev b)\<lparr>gadget := g, epnum := n\<rparr>, tx_idle := []\<rparr>
      in Option.bind (claim_ep cfg (bulk_desc USB_DIR_IN) (cdev b1)) (\<lambda>(r1, d1, c1).
           if r1 = None then Some (- ENODEV, b1\<lparr>cdev := c1\<rparr>)
           else Option.bind (claim_ep cfg (bulk_desc 0) c1) (\<lambda>(r2, d2, c2).
                  Some (if r2 = None then - ENODEV else 0, b1\<lparr>cdev := c2\<rparr>))))"

definition scale_bind ::
    "kconfig \<Rightarrow> (nat \<Rightarrow> bool) \<Rightarrow> bool \<Rightarrow> int \<Rightarrow> bind_state \<Rightarrow> (int \<times> bind_state) option" where
  "scale_bind cfg ok created added b =
     (if \<not> created then None
      else if added \<noteq> 0 then None
      else
        let (st, b1) = bind_string_ids [1, 2, 3] b
        in if st < 0 then Some (st, b1)
           else
             Option.bind (bind_device cfg (gadget (cdev b1)) (ctl b1)) (\<lambda>s1.
             Option.bind (bind_endpoints cfg (b1\<lparr>ctl := s1\<rparr>)) (\<lambda>(st2, b2).
             if st2 < 0 then Some (st2, b2)
             else Option.bind (bind_pools ok (b2\<lparr>ctl := reset_pools (ctl b2)\<rparr>)) (\<lambda>(st3, b3).
             if st3 < 0 then Some (st3, b3) else bind_tests cfg ok b3))))"

text \<open>Unbinding frees the pools and the request of endpoint zero.\<close>

definition scale_unbind :: "bind_state \<Rightarrow> bind_state option" where
  "scale_unbind b =
     (if \<not> data_is_scale b then None
      else
        let d = io (ctl b);
            h1 = fold scale_req_free (tx_reqs d) (memory b);
            h2 = (case current_rx d of None \<Rightarrow> h1 | Some (r, _, _) \<Rightarrow> scale_req_free r h1);
            h3 = fold scale_req_free (rx_reqs d) h2;
            h4 = fold scale_req_free (rx_buffers d) h3
        in Some (b\<lparr>memory := h4, ep0_req := False, data_is_scale := False,
                   ctl := (ctl b)\<lparr>io := d\<lparr>tx_reqs := [], rx_reqs := [], rx_buffers := []\<rparr>\<rparr>\<rparr>))"

text \<open>The static data of the driver, and a device that is about to be bound.\<close>

definition scale_static :: scale_ctl where
  "scale_static = \<lparr>io = \<lparr>reqs = (\<lambda>_. \<lparr>rq_buf = [], rq_length = USB_BUFSIZE, rq_actual = 0, rq_zero = False\<rparr>),
       rx_reqs = [], rx_reqs_active = [], rx_buffers = [], tx_reqs = [], tx_reqs_active = [], current_rx = None,
       scale_status = 0, interface = 0, reset_scale = False, scale_cdev_open = False, io_locked = False,
       submitted = [], rx_total = []\<rparr>,
     dev_config = 0, dev_in = False, dev_out = False, test_in = (\<lambda>_. False), test_out = (\<lambda>_. False),
     ctl_buf = [], dev_desc = device_desc, ep_descs = dmx_ep_descs,
     stringtab = \<lparr>language = 0x0409, tab_strings = Some strings\<rparr>, pnp_string = pnp_text, hw = []\<rparr>"

definition bind_start :: "usb_composite_dev \<Rightarrow> bind_state" where
  "bind_start c = \<lparr>cdev = c, ctl = scale_static, memory = \<lparr>draws = 0, next_req = 0, live = []\<rparr>,
     ep0_req = False, rx_req = None, tx_idle = [], data_is_scale = False\<rparr>"

section \<open>The pools\<close>

lemma req_alloc_cases:
  assumes "scale_req_alloc ok h = (r, h')"
  obtains "r = None" and "live h' = live h"
    | "r = Some (next_req h)" and "live h' = next_req h # live h" and "next_req h' = Suc (next_req h)"
  using assms by (cases "ok (draws h)"; cases "ok (Suc (draws h))") (auto simp: scale_req_alloc_def draw_def Let_def)

lemma free_all: "live h = pool @ L \<Longrightarrow> live (fold scale_req_free pool h) = L"
  by (induction pool arbitrary: h) (simp_all add: scale_req_free_def)

text \<open>A pool that is filled has consecutive requests; one that is not has been freed.\<close>

lemma fill_pool_ok:
  assumes "fill_pool ok n pool h = (r, h')" and "live h = pool @ L"
  shows "r = None \<and> live h' = L \<or>
         r = Some (rev [next_req h ..< next_req h + n] @ pool) \<and> next_req h' = next_req h + n \<and>
         live h' = rev [next_req h ..< next_req h + n] @ pool @ L"
  using assms
proof (induction n arbitrary: pool h)
  case (Suc n)
  obtain q h1 where a: "scale_req_alloc ok h = (q, h1)" by (rule prod.exhaust)
  show ?case
  proof (rule req_alloc_cases [OF a])
    assume "q = None" "live h1 = live h"
    then show ?thesis using Suc.prems a free_all by auto
  next
    assume q: "q = Some (next_req h)" "live h1 = next_req h # live h" "next_req h1 = Suc (next_req h)"
    have "rev [next_req h ..< next_req h + Suc n] = rev [Suc (next_req h) ..< Suc (next_req h) + n] @ [next_req h]"
      by (simp add: upt_conv_Cons)
    then show ?thesis using Suc.IH [of "next_req h # pool" h1] Suc.prems a q by auto
  qed
qed auto

section \<open>What is bound\<close>

definition tables_ok :: "scale_ctl \<Rightarrow> bool" where
  "tables_ok s \<longleftrightarrow> terminated_table (stringtab s) \<and> (\<exists>t. tab_strings (stringtab s) = Some t \<and> length t = 4) \<and>
     length (ep_descs s) = 6 \<and> \<not> test_in s 3"

text \<open>A step that changes neither the data path nor the requests.\<close>

definition bind_frame :: "bind_state \<Rightarrow> bind_state \<Rightarrow> bool" where
  "bind_frame b b' \<longleftrightarrow> (tables_ok (ctl b) \<longrightarrow> tables_ok (ctl b')) \<and> io (ctl b') = io (ctl b) \<and>
     pnp_string (ctl b') = pnp_string (ctl b) \<and> length (ctl_buf (ctl b')) = length (ctl_buf (ctl b)) \<and>
     d_numConfigurations (dev_desc (ctl b')) = d_numConfigurations (dev_desc (ctl b)) \<and>
     (\<exists>rs. live (memory b') = rs @ live (memory b) \<and> (\<forall>r\<in>set rs. next_req (memory b) \<le> r)) \<and>
     next_req (memory b) \<le> next_req (memory b')"

lemma bind_frame_refl [simp]: "bind_frame b b"
  by (auto simp: bind_frame_def)

lemma bind_frame_trans:
  assumes "bind_frame a b" and "bind_frame b c"
  shows "bind_frame a c"
proof -
  obtain rs ss where "live (memory b) = rs @ live (memory a)" "\<forall>r\<in>set rs. next_req (memory a) \<le> r"
      "live (memory c) = ss @ live (memory b)" "\<forall>r\<in>set ss. next_req (memory b) \<le> r"
    using assms by (auto simp: bind_frame_def)
  then have "live (memory c) = (ss @ rs) @ live (memory a) \<and> (\<forall>r\<in>set (ss @ rs). next_req (memory a) \<le> r)"
    using assms by (auto simp: bind_frame_def intro: le_trans)
  then have "\<exists>rs. live (memory c) = rs @ live (memory a) \<and> (\<forall>r\<in>set rs. next_req (memory a) \<le> r)" by (rule exI)
  then show ?thesis using assms unfolding bind_frame_def by simp
qed

lemma set_string_id_tables:
  assumes "tables_ok s"
  shows "tables_ok (set_string_id k i s)"
proof -
  obtain t where t: "tab_strings (stringtab s) = Some t" "length t = 4" "\<forall>x\<in>set t. c_strlen (str_s x) \<noteq> None"
    using assms by (auto simp: tables_ok_def terminated_table_def)
  have "\<forall>x\<in>set (t[k := (t ! k)\<lparr>str_id := word_of_int i\<rparr>]). c_strlen (str_s x) \<noteq> None"
  proof (cases "k < length t")
    case True
    then have "c_strlen (str_s (t ! k)) \<noteq> None" using t(3) nth_mem by blast
    then show ?thesis using t(3) by (auto dest!: set_update_subset_insert [THEN subsetD])
  qed (use t(3) in \<open>simp add: list_update_beyond not_less\<close>)
  then show ?thesis using assms t by (simp add: tables_ok_def set_string_id_def terminated_table_def Let_def)
qed

lemma bind_string_ids_frame: "bind_string_ids ks b = (st, b') \<Longrightarrow> bind_frame b b' \<and> memory b' = memory b"
proof (induction ks arbitrary: b)
  case (Cons k ks)
  obtain i c where u: "usb_string_id (cdev b) = (i, c)" by (rule prod.exhaust)
  define b1 where "b1 = b\<lparr>cdev := c, ctl := set_string_id k i (ctl b)\<rparr>"
  have "bind_frame b b1"
    using set_string_id_tables [of "ctl b" k i] by (auto simp: bind_frame_def b1_def) (auto simp: set_string_id_def Let_def)
  moreover have "bind_frame b (b\<lparr>cdev := c\<rparr>)" by (auto simp: bind_frame_def)
  ultimately show ?case using Cons.IH [of b1] Cons.prems u bind_frame_trans [of b b1]
    by (auto simp: b1_def Let_def split: if_splits)
qed simp

lemma bind_string_ids_status: "bind_string_ids ks b = (st, b') \<Longrightarrow> st = 0 \<or> st = - ENODEV"
proof (induction ks arbitrary: b)
  case (Cons k ks)
  have "fst (usb_string_id (cdev b)) < 0 \<Longrightarrow> fst (usb_string_id (cdev b)) = - ENODEV"
    by (auto simp: usb_string_id_def split: if_splits)
  then show ?case using Cons by (auto simp: Let_def split: prod.splits if_splits)
qed simp

lemma bind_frame_ctl:
  assumes "tables_ok (ctl b) \<Longrightarrow> tables_ok s" and "io s = io (ctl b)" and "pnp_string s = pnp_string (ctl b)"
    and "length (ctl_buf s) = length (ctl_buf (ctl b))" and "d_numConfigurations (dev_desc s) = d_numConfigurations (dev_desc (ctl b))"
  shows "bind_frame b (b\<lparr>ctl := s\<rparr>)" and "bind_frame b (b\<lparr>cdev := c, ctl := s\<rparr>)"
  using assms by (auto simp: bind_frame_def)

lemma set_ep_desc_frame: "bind_frame b (b\<lparr>cdev := c, ctl := set_ep_desc k d (ctl b)\<rparr>)"
  by (rule bind_frame_ctl(2)) (simp_all add: set_ep_desc_def tables_ok_def)

lemma request_new_frame:
  assumes "scale_request_new ok (memory b) = (r, h)"
  shows "bind_frame b (b\<lparr>memory := h\<rparr>) \<and> bind_frame b (b\<lparr>memory := h, rx_req := q\<rparr>) \<and> bind_frame b (b\<lparr>memory := h, tx_idle := i\<rparr>)"
proof -
  have "(\<exists>rs. live h = rs @ live (memory b) \<and> (\<forall>r\<in>set rs. next_req (memory b) \<le> r)) \<and> next_req (memory b) \<le> next_req h"
    using assms
    by (cases "ok (draws (memory b))"; cases "ok (Suc (draws (memory b)))")
      (auto simp: scale_request_new_def scale_req_alloc_def draw_def Let_def)
  then show ?thesis by (simp add: bind_frame_def)
qed

lemma fill_idle_frame: "fill_idle ok n b = (st, b') \<Longrightarrow> bind_frame b b'"
proof (induction n arbitrary: b)
  case (Suc n)
  obtain r h where r: "scale_request_new ok (memory b) = (r, h)" by (rule prod.exhaust)
  note f = request_new_frame [OF r]
  show ?case
  proof (cases r)
    case None
    then show ?thesis using Suc.prems r f by auto
  next
    case (Some q)
    then have "fill_idle ok n (b\<lparr>memory := h, tx_idle := tx_idle b @ [q]\<rparr>) = (st, b')" using Suc.prems r by simp
    from Suc.IH [OF this] show ?thesis using f bind_frame_trans by blast
  qed
qed simp

lemma adb_create_frame:
  assumes "adb_create_bulk_endpoints cfg ok ki ko i b = Some (st, b')" and "i \<noteq> 3"
  shows "bind_frame b b'"
proof -
  obtain r1 d1 c1 where e1: "claim_ep cfg (fst (ep_descs (ctl b) ! ki)) (cdev b) = Some (r1, d1, c1)"
    using assms(1) by (auto simp: adb_create_bulk_endpoints_def bind_eq_Some_conv)
  define b1 where "b1 = b\<lparr>cdev := c1, ctl := set_ep_desc ki d1 (ctl b)\<rparr>"
  define b2 where "b2 = b1\<lparr>ctl := (ctl b1)\<lparr>test_in := (test_in (ctl b1))(i := True)\<rparr>\<rparr>"
  have f1: "bind_frame b b1" unfolding b1_def by (rule set_ep_desc_frame)
  have "bind_frame b1 b2" unfolding b2_def by (rule bind_frame_ctl) (use assms(2) in \<open>simp_all add: tables_ok_def\<close>)
  then have f2: "bind_frame b b2" using f1 bind_frame_trans by blast
  show ?thesis
  proof (cases "r1 = None")
    case True
    then show ?thesis using assms(1) e1 f1 by (simp add: adb_create_bulk_endpoints_def b1_def)
  next
    case False
    obtain r2 d2 c2 where e2: "claim_ep cfg (fst (ep_descs (ctl b2) ! ko)) (cdev b2) = Some (r2, d2, c2)"
      using assms(1) e1 False
      by (auto simp: adb_create_bulk_endpoints_def Let_def b1_def b2_def bind_eq_Some_conv)
    define b3 where "b3 = b2\<lparr>cdev := c2, ctl := set_ep_desc ko d2 (ctl b2)\<rparr>"
    define b4 where "b4 = b3\<lparr>ctl := (ctl b3)\<lparr>test_out := (test_out (ctl b3))(i := True)\<rparr>\<rparr>"
    have f3: "bind_frame b b3" using bind_frame_trans [OF f2 set_ep_desc_frame] by (simp add: b3_def)
    have "bind_frame b3 b4" unfolding b4_def by (rule bind_frame_ctl) (simp_all add: tables_ok_def)
    then have f4: "bind_frame b b4" using f3 bind_frame_trans by blast
    obtain r h where r: "scale_request_new ok (memory b4) = (r, h)" by (rule prod.exhaust)
    have "adb_create_bulk_endpoints cfg ok ki ko i b = Some (if r2 = None then (- ENODEV, b3)
        else if r = None then (- 1, b4\<lparr>memory := h\<rparr>) else fill_idle ok 4 (b4\<lparr>memory := h, rx_req := r\<rparr>))"
      using False e2 r unfolding adb_create_bulk_endpoints_def e1 b4_def b3_def b2_def b1_def Let_def by auto
    then have "(st, b') = (if r2 = None then (- ENODEV, b3)
        else if r = None then (- 1, b4\<lparr>memory := h\<rparr>) else fill_idle ok 4 (b4\<lparr>memory := h, rx_req := r\<rparr>))"
      using assms(1) by simp
    then show ?thesis
      using f3 bind_frame_trans [OF f4] request_new_frame [OF r] fill_idle_frame bind_frame_trans
      by (simp split: if_splits) metis+
  qed
qed

lemma bind_tests_frame:
  assumes "bind_tests cfg ok b = Some (st, b')"
  shows "st = 0 \<and> bind_frame b b' \<and> data_is_scale b'"
proof -
  obtain x1 b1 x2 b2 x3 b3 where a: "adb_create_bulk_endpoints cfg ok 3 0 0 b = Some (x1, b1)"
      "adb_create_bulk_endpoints cfg ok 4 1 1 b1 = Some (x2, b2)"
      "adb_create_bulk_endpoints cfg ok 5 2 2 b2 = Some (x3, b3)"
      and b': "st = 0" "b' = b3\<lparr>data_is_scale := True\<rparr>"
    using assms by (auto simp: bind_tests_def bind_eq_Some_conv split: if_splits)
  have "bind_frame b b1" by (rule adb_create_frame [OF a(1)]) simp
  moreover have "bind_frame b1 b2" by (rule adb_create_frame [OF a(2)]) simp
  moreover have "bind_frame b2 b3" by (rule adb_create_frame [OF a(3)]) simp
  ultimately have "bind_frame b b3" using bind_frame_trans by blast
  then have "bind_frame b b'" unfolding b'(2) by (simp add: bind_frame_def)
  then show ?thesis using b' by simp
qed

lemma bind_endpoints_frame:
  assumes "bind_endpoints cfg b = Some (st, b')"
  shows "ctl b' = ctl b \<and> memory b' = memory b"
  using assms by (auto simp: bind_endpoints_def Let_def bind_eq_Some_conv split: prod.splits if_splits)

text \<open>The response buffer and the two pools, from an empty heap.\<close>

lemma bind_pools_ok:
  assumes "bind_pools ok b = Some (st, b')" and "live (memory b) = []" and "next_req (memory b) = 0"
  shows "if st < 0 then st = - ENOMEM \<and> (live (memory b') = [] \<or> live (memory b') = rev [0 ..< QLEN])
         else ctl b' = (ctl b)\<lparr>ctl_buf := replicate USB_DESC_BUFSIZE 0,
                io := (io (ctl b))\<lparr>tx_reqs := rev [0 ..< QLEN], rx_reqs := rev [QLEN ..< 2 * QLEN]\<rparr>\<rparr> \<and>
              next_req (memory b') = 2 * QLEN \<and> live (memory b') = rev [0 ..< 2 * QLEN]"
proof -
  define h2 where "h2 = snd (draw ok (snd (draw ok (memory b))))"
  have d: "live h2 = [] @ []" "next_req h2 = 0" using assms(2,3) by (simp_all add: h2_def draw_def)
  obtain tx h3 where t: "fill_pool ok QLEN [] h2 = (tx, h3)" by (rule prod.exhaust)
  obtain rx h4 where r: "fill_pool ok QLEN [] h3 = (rx, h4)" by (rule prod.exhaust)
  have e: "(st, b') = (if tx = None then (- ENOMEM, b\<lparr>memory := h3, ep0_req := True, ctl := (ctl b)\<lparr>ctl_buf := replicate USB_DESC_BUFSIZE 0\<rparr>\<rparr>)
      else if rx = None then (- ENOMEM, b\<lparr>memory := h4, ep0_req := True,
        ctl := (ctl b)\<lparr>ctl_buf := replicate USB_DESC_BUFSIZE 0, io := (io (ctl b))\<lparr>tx_reqs := the tx\<rparr>\<rparr>\<rparr>)
      else (0, b\<lparr>memory := h4, ep0_req := True,
        ctl := (ctl b)\<lparr>ctl_buf := replicate USB_DESC_BUFSIZE 0, io := (io (ctl b))\<lparr>tx_reqs := the tx, rx_reqs := the rx\<rparr>\<rparr>\<rparr>))"
    using assms(1) t r by (auto simp: bind_pools_def Let_def h2_def draw_def split: if_splits)
  consider (notx) "tx = None" "live h3 = []"
    | (tx) "tx = Some (rev [0 ..< QLEN])" "live h3 = [] @ rev [0 ..< QLEN]" "next_req h3 = QLEN"
    using fill_pool_ok [OF t d(1)] unfolding d(2) by force
  then show ?thesis
  proof cases
    case notx
    then show ?thesis using e by simp
  next
    case tx
    have dbl: "QLEN + QLEN = 2 * QLEN" by simp
    have sp: "rev [QLEN ..< 2 * QLEN] @ rev [0 ..< QLEN] = rev [0 ..< 2 * QLEN]"
      using upt_add_eq_append [of 0 QLEN QLEN] by (simp only: rev_append [symmetric] mult_2 add_0)
    consider (norx) "rx = None" "live h4 = rev [0 ..< QLEN]"
      | (rx) "rx = Some (rev [QLEN ..< 2 * QLEN])" "live h4 = rev [0 ..< 2 * QLEN]" "next_req h4 = 2 * QLEN"
      using fill_pool_ok [OF r tx(2)] unfolding tx(3) dbl append_Nil append_Nil2 sp by blast
    then show ?thesis by cases (use e tx in simp_all)
  qed
qed

lemma pnp_len: "c_strlen pnp_text = Some 36"
  by code_simp

lemma bind_device_ok:
  assumes "bind_device cfg g s = Some s'" and "pnp_string s = pnp_text"
  shows "io s' = io s \<and> pnp_string s' = [0, 36] @ drop 2 pnp_text \<and> (tables_ok s \<longrightarrow> tables_ok s') \<and> 
         d_numConfigurations (dev_desc s') = d_numConfigurations (dev_desc s)"
proof -
  have "mem_write pnp_text 0 [0, 36] = Some ([0, 36] @ drop 2 pnp_text)"
    by (simp add: mem_write_def pnp_text_def c_string_def)
  then show ?thesis using assms by (auto simp: bind_device_def Let_def pnp_len tables_ok_def)
qed

lemma static_tables: "tables_ok scale_static"
  by (simp add: tables_ok_def scale_static_def strings_def terminated_table_def c_string_def dmx_ep_descs_def)

lemma bound_pnp: "pnp_count ([0, 36] @ drop 2 pnp_text) = 36" "2 \<le> length ([0, 36] @ drop 2 pnp_text)"
  "36 \<le> length ([0, 36] @ drop 2 pnp_text)"
  by (simp_all add: pnp_count_def pnp_text_def c_string_def)

lemma scale_bind_start:
  assumes "scale_bind cfg ok created added (bind_start c) = Some (0, b')"
  shows "io (ctl b') = scale_init \<and> ctl_ok (ctl b') \<and> \<not> test_in (ctl b') 3 \<and> 0 < d_numConfigurations (dev_desc (ctl b')) \<and>
         data_is_scale b' \<and> (\<exists>rs. live (memory b') = rs @ rev [0 ..< 2 * QLEN] \<and> (\<forall>r\<in>set rs. 2 * QLEN \<le> r))"
proof -
  define b0 where "b0 = bind_start c"
  obtain st1 b1 where b1: "bind_string_ids [1, 2, 3] b0 = (st1, b1)" by (rule prod.exhaust)
  obtain s1 st2 b2 st3 b3 where s1: "bind_device cfg (gadget (cdev b1)) (ctl b1) = Some s1"
      and b2: "bind_endpoints cfg (b1\<lparr>ctl := s1\<rparr>) = Some (st2, b2)"
      and b3: "bind_pools ok (b2\<lparr>ctl := reset_pools (ctl b2)\<rparr>) = Some (st3, b3)" "\<not> st3 < 0"
      and b': "bind_tests cfg ok b3 = Some (0, b')"
    using assms b1 by (auto simp: scale_bind_def b0_def bind_eq_Some_conv split: if_splits)
  have f1: "bind_frame b0 b1" "memory b1 = memory b0" using bind_string_ids_frame [OF b1] by simp_all
  have z: "tables_ok (ctl b0)" "pnp_string (ctl b0) = pnp_text" "live (memory b0) = []" "next_req (memory b0) = 0"
      "io (ctl b0) = io scale_static" "d_numConfigurations (dev_desc (ctl b0)) = 1"
    using static_tables by (simp_all add: b0_def bind_start_def) (simp_all add: scale_static_def device_desc_def)
  have t1: "tables_ok (ctl b1)" "pnp_string (ctl b1) = pnp_text" "io (ctl b1) = io scale_static"
      "d_numConfigurations (dev_desc (ctl b1)) = 1"
    using f1 z by (simp_all add: bind_frame_def)
  note d = bind_device_ok [OF s1 t1(2)]
  have e2: "ctl b2 = s1" "memory b2 = memory b0" using bind_endpoints_frame [OF b2] f1(2) by simp_all
  define q where "q = b2\<lparr>ctl := reset_pools (ctl b2)\<rparr>"
  have q: "live (memory q) = []" "next_req (memory q) = 0" "tables_ok (ctl q)" "pnp_string (ctl q) = [0, 36] @ drop 2 pnp_text"
      "d_numConfigurations (dev_desc (ctl q)) = 1" "io (ctl q) = (io scale_static)\<lparr>interface := - 1, scale_status := 8\<rparr>"
    using e2 z t1 d by (simp_all add: q_def reset_pools_def tables_ok_def) (simp_all add: scale_static_def)
  note p = bind_pools_ok [OF b3(1) [folded q_def] q(1,2)]
  have p3: "ctl b3 = (ctl q)\<lparr>ctl_buf := replicate 256 0, io := (io (ctl q))\<lparr>tx_reqs := rev [0 ..< QLEN], rx_reqs := rev [QLEN ..< 2 * QLEN]\<rparr>\<rparr>"
      "next_req (memory b3) = 2 * QLEN" "live (memory b3) = rev [0 ..< 2 * QLEN]"
    using p b3(2) by simp_all
  have i: "io (ctl b3) = scale_init" unfolding p3(1) using q(6) by (simp add: scale_static_def scale_init_def)
  have t3: "tables_ok (ctl b3)" "pnp_string (ctl b3) = [0, 36] @ drop 2 pnp_text" "length (ctl_buf (ctl b3)) = 256"
      "d_numConfigurations (dev_desc (ctl b3)) = 1"
    using q unfolding p3(1) by (simp_all add: tables_ok_def)
  have f: "bind_frame b3 b'" "data_is_scale b'" using bind_tests_frame [OF b'] by simp_all
  then have t4: "tables_ok (ctl b')" "pnp_string (ctl b') = [0, 36] @ drop 2 pnp_text" "length (ctl_buf (ctl b')) = 256"
      "d_numConfigurations (dev_desc (ctl b')) = 1" "io (ctl b') = scale_init"
    using t3 i by (simp_all add: bind_frame_def)
  then have "ctl_ok (ctl b')" using bound_pnp by (simp add: ctl_ok_def tables_ok_def)
  then show ?thesis using t4 f p3(2,3) by (simp add: tables_ok_def bind_frame_def)
qed

section \<open>The bound device\<close>

text \<open>
  Everything that happens to a bound device: file operations with their interrupts, control requests
  that stay inside their objects, and disconnects.
\<close>

inductive scale_reach :: "scale_env \<Rightarrow> ctl_env \<Rightarrow> scale_ctl \<Rightarrow> scale_ctl \<Rightarrow> bool" for env e s0 where
  start: "scale_reach env e s0 s0"
| file_op: "scale_reach env e s0 s \<Longrightarrow> scale_step env a (io s) = Some (x, d) \<Longrightarrow> scale_reach env e s0 (s\<lparr>io := d\<rparr>)"
| control: "scale_reach env e s0 s \<Longrightarrow> \<not> leaves_objects e ctrl s \<Longrightarrow> scale_setup e ctrl s = Some (v, s') \<Longrightarrow> scale_reach env e s0 s'"
| unplug: "scale_reach env e s0 s \<Longrightarrow> scale_reach env e s0 (scale_disconnect e s)"

definition bound_inv :: "scale_ctl \<Rightarrow> bool" where
  "bound_inv s \<longleftrightarrow> ctl_ok s \<and> \<not> test_in s 3 \<and> io_inv [] (io s) \<and> mset (all_reqs [] (io s)) = mset (all_reqs [] scale_init)"

lemma kept_bound: "kept s s' \<Longrightarrow> bound_inv s \<Longrightarrow> bound_inv s'"
  by (auto simp: kept_def bound_inv_def)

lemma scale_reach_bound:
  assumes "scale_reach env e s0 s" and "bound_inv s0" and "errors_negative e"
  shows "bound_inv s"
  using assms
proof (induction rule: scale_reach.induct)
  case (file_op s a x d)
  have "kept s (s\<lparr>io := d\<rparr>)"
    using scale_step_ok [OF _ file_op.hyps(2)] by (auto simp: kept_def ctl_ok_def)
  then show ?case using file_op kept_bound by blast
next
  case (control s ctrl v s')
  then have "kept s s'" using scale_setup_ok [of s e ctrl] by (auto simp: bound_inv_def split: if_splits)
  then show ?case using control kept_bound by blast
next
  case (unplug s)
  have "kept s (scale_disconnect e s)" by (simp add: scale_disconnect_def kept_steps)
  then show ?case using unplug kept_bound by blast
qed simp

text \<open>C1: A device that was bound stays in order whatever the host, the controller and its users do, as
  long as no control request leaves its objects: all its requests are accounted for, each once. And a
  control request leaves its objects exactly if it is a soft reset or an overlong vendor request, or if it is
  answered with a reply of the host's length and that length is beyond the buffer of 256 bytes.\<close>

theorem scale_device_in_order:
  assumes "scale_bind cfg ok created added (bind_start c) = Some (0, b)" and "errors_negative e"
    and "scale_reach env e (ctl b) s"
  shows "distinct (all_reqs [] (io s)) \<and> set (all_reqs [] (io s)) = {..< 2 * QLEN} \<and>
         (leaves_objects e ctrl s \<longleftrightarrow> overlong_request ctrl \<or> soft_reset_request ctrl \<or>
            answered e ctrl s \<and> 256 < wLength ctrl \<and> \<not> fixed_reply ctrl)"
proof -
  have "bound_inv (ctl b)" using scale_bind_start [OF assms(1)] scale_init_inv by (simp add: bound_inv_def)
  then have i: "bound_inv s" using scale_reach_bound [OF assms(3)] assms(2) by blast
  have "set (all_reqs [] (io s)) = set (all_reqs [] scale_init)"
    using i unfolding bound_inv_def by (blast dest: mset_eq_setD)
  then have "set (all_reqs [] (io s)) = {..< 2 * QLEN}" by (simp only: scale_init_set)
  moreover note setup_data_phase [of s e ctrl]
  ultimately show ?thesis using i assms(2) by (simp add: bound_inv_def io_inv_def)
qed

lemma free_live: "live (fold scale_req_free rs h) = fold remove1 rs (live h)"
  by (induction rs arbitrary: h) (simp_all add: scale_req_free_def)

lemma scale_unbind_live:
  assumes "data_is_scale b" and "current_rx (io (ctl b)) = None" and "rx_buffers (io (ctl b)) = []"
  shows "\<exists>b'. scale_unbind b = Some b' \<and>
           live (memory b') = fold remove1 (rx_reqs (io (ctl b))) (fold remove1 (tx_reqs (io (ctl b))) (live (memory b)))"
  using assms by (simp add: scale_unbind_def Let_def free_live)

lemma fold_remove1_append: "set rs \<inter> set xs = {} \<Longrightarrow> fold remove1 rs (xs @ ys) = xs @ fold remove1 rs ys"
  by (induction rs arbitrary: ys) (auto simp: remove1_append)

lemma pools_removed: "fold remove1 (rev [QLEN ..< 2 * QLEN]) (fold remove1 (rev [0 ..< QLEN]) (rev [0 ..< 2 * QLEN])) = []"
  by code_simp

text \<open>Unbinding a device frees its twenty pool requests; the requests that binding made for the test
  endpoints, and nothing else, stay allocated.\<close>

theorem scale_unbind_leaks_tests:
  assumes "scale_bind cfg ok created added (bind_start c) = Some (0, b)"
  shows "\<exists>b'. scale_unbind b = Some b' \<and> live (memory b') = filter (\<lambda>r. 2 * QLEN \<le> r) (live (memory b))"
proof -
  obtain rs where rs: "live (memory b) = rs @ rev [0 ..< 2 * QLEN]" "\<forall>r\<in>set rs. 2 * QLEN \<le> r"
      and b: "io (ctl b) = scale_init" "data_is_scale b"
    using scale_bind_start [OF assms] by blast
  have d: "set (rev [0 ..< QLEN]) \<inter> set rs = {}" "set (rev [QLEN ..< 2 * QLEN]) \<inter> set rs = {}" using rs(2) by (auto dest: bspec)
  have "fold remove1 (rev [QLEN ..< 2 * QLEN]) (fold remove1 (rev [0 ..< QLEN]) (live (memory b))) = rs"
    unfolding rs(1) fold_remove1_append [OF d(1)] fold_remove1_append [OF d(2)] pools_removed by simp
  moreover have "filter (\<lambda>r. 2 * QLEN \<le> r) (live (memory b)) = rs"
    using rs by (simp add: filter_id_conv)
  moreover have p: "tx_reqs scale_init = rev [0 ..< QLEN]" "rx_reqs scale_init = rev [QLEN ..< 2 * QLEN]"
      "rx_buffers scale_init = []" "current_rx scale_init = None"
    unfolding scale_init_def by (simp_all only: scale_dev.simps)
  ultimately show ?thesis using scale_unbind_live [of b] b by (simp only: p)
qed

text \<open>When binding runs out of memory for its pools, either no pool request stays allocated or exactly the
  ten of the pool that was filled.\<close>

theorem scale_bind_out_of_memory:
  assumes "scale_bind cfg ok created added (bind_start c) = Some (- ENOMEM, b)"
  shows "live (memory b) = [] \<or> live (memory b) = rev [0 ..< QLEN]"
proof -
  define b0 where "b0 = bind_start c"
  obtain st1 b1 where b1: "bind_string_ids [1, 2, 3] b0 = (st1, b1)" by (rule prod.exhaust)
  have m1: "memory b1 = memory b0" using bind_string_ids_frame [OF b1] by simp
  have "st1 \<noteq> - ENOMEM" using bind_string_ids_status [OF b1] by auto
  then obtain s1 st2 b2 where b2: "bind_endpoints cfg (b1\<lparr>ctl := s1\<rparr>) = Some (st2, b2)"
      and st: "(if st2 < 0 then Some (st2, b2) else Option.bind (bind_pools ok (b2\<lparr>ctl := reset_pools (ctl b2)\<rparr>)) (\<lambda>(st3, b3).
             if st3 < 0 then Some (st3, b3) else bind_tests cfg ok b3)) = Some (- ENOMEM, b)"
    using assms b1 by (auto simp: scale_bind_def b0_def bind_eq_Some_conv split: if_splits)
  have m2: "memory b2 = memory b0" using bind_endpoints_frame [OF b2] m1 by simp
  have "st2 \<in> {0, - ENODEV}" using b2 by (auto simp: bind_endpoints_def Let_def bind_eq_Some_conv split: prod.splits if_splits)
  then obtain st3 b3 where b3: "bind_pools ok (b2\<lparr>ctl := reset_pools (ctl b2)\<rparr>) = Some (st3, b3)"
      and st': "(if st3 < 0 then Some (st3, b3) else bind_tests cfg ok b3) = Some (- ENOMEM, b)"
    using st by (auto simp: bind_eq_Some_conv split: if_splits)
  have "st3 < 0" "b3 = b" using st' bind_tests_frame [of cfg ok b3] by (auto split: if_splits)
  moreover have "live (memory (b2\<lparr>ctl := reset_pools (ctl b2)\<rparr>)) = []" "next_req (memory (b2\<lparr>ctl := reset_pools (ctl b2)\<rparr>)) = 0"
    using m2 by (simp_all add: b0_def bind_start_def)
  ultimately show ?thesis using bind_pools_ok [OF b3] by simp
qed

section \<open>A device\<close>

text \<open>A controller with eight endpoints of which the first \<open>k\<close> are claimed.\<close>

definition demo_udc :: "nat \<Rightarrow> usb_gadget" where
  "demo_udc k = \<lparr>g_name = ''musb-hdrc'', is_dualspeed = False,
     ep_list = map (\<lambda>i. \<lparr>ep_name = ''ep-'' @ [''abcdefgh'' ! i], maxpacket = 64, driver_data = i < k\<rparr>) [0 ..< 8]\<rparr>"

definition demo_claims :: "(nat \<times> u8) list" where
  "demo_claims = [(0, 0x80), (1, 0), (2, 0x82), (3, 2), (4, 0x85), (5, 5), (6, 0x88), (7, 8)]"

lemma demo_autoconfig:
  "list_all (\<lambda>(k, a). usb_ep_autoconfig (\<lambda>_. True) (demo_udc k) (bulk_desc a, of_nat k) =
     Some (Some k, (bulk_desc ((a AND 0x80) OR of_nat (Suc k)), of_nat (Suc k)))) demo_claims"
  by code_simp

lemma demo_claim_next:
  "list_all (\<lambda>(k, a). (ep_list (demo_udc k))[k := (ep_list (demo_udc k) ! k)\<lparr>driver_data := True\<rparr>] = ep_list (demo_udc (Suc k))) demo_claims"
  by code_simp

lemma demo_claim:
  assumes "(k, a) \<in> set demo_claims" and "gadget c = demo_udc k" and "epnum c = of_nat k"
  shows "\<exists>d c'. claim_ep (\<lambda>_. True) (bulk_desc a) c = Some (Some d, d, c') \<and> gadget c' = demo_udc (Suc k) \<and> epnum c' = of_nat (Suc k)"
proof -
  have a: "usb_ep_autoconfig (\<lambda>_. True) (demo_udc k) (bulk_desc a, of_nat k) =
      Some (Some k, (bulk_desc ((a AND 0x80) OR of_nat (Suc k)), of_nat (Suc k)))"
    using assms(1) demo_autoconfig by (auto simp only: list_all_iff split: prod.splits)
  have "(demo_udc k)\<lparr>ep_list := (ep_list (demo_udc k))[k := (ep_list (demo_udc k) ! k)\<lparr>driver_data := True\<rparr>]\<rparr> =
      (demo_udc k)\<lparr>ep_list := ep_list (demo_udc (Suc k))\<rparr>"
    using assms(1) demo_claim_next by (auto simp only: list_all_iff split: prod.splits)
  also have "\<dots> = demo_udc (Suc k)" by (simp add: demo_udc_def)
  finally show ?thesis
    using a assms(2,3) by (simp add: claim_ep_def Let_def del: of_nat_Suc)
qed

lemma fill_pool_succeeds:
  "(\<forall>i < 2 * n. ok (draws h + i)) \<Longrightarrow> \<exists>p h'. fill_pool ok n pool h = (Some p, h') \<and> draws h' = draws h + 2 * n"
proof (induction n arbitrary: pool h)
  case (Suc n)
  have "ok (draws h + 0)" "ok (draws h + 1)" using Suc.prems by auto
  then obtain r h1 where a: "scale_req_alloc ok h = (Some r, h1)" "draws h1 = draws h + 2"
    by (simp add: scale_req_alloc_def draw_def Let_def)
  have "\<forall>i < 2 * n. ok (draws h1 + i)"
  proof (intro allI impI)
    fix i assume "i < 2 * n"
    then have "ok (draws h + (i + 2))" using Suc.prems [rule_format, of "i + 2"] by simp
    then show "ok (draws h1 + i)" using a(2) by (simp add: ac_simps)
  qed
  then show ?case using Suc.IH [of h1 "r # pool"] a by auto
qed simp

lemma fill_pool_fails: "\<not> ok (draws h) \<Longrightarrow> fst (fill_pool ok (Suc n) pool h) = None"
  by (simp add: scale_req_alloc_def draw_def)

lemma fill_idle_succeeds: "\<exists>b'. fill_idle (\<lambda>_. True) n b = (0, b') \<and> cdev b' = cdev b \<and> ctl b' = ctl b"
proof (induction n arbitrary: b)
  case (Suc n)
  obtain r h where r: "scale_request_new (\<lambda>_. True) (memory b) = (Some r, h)"
    by (simp add: scale_request_new_def scale_req_alloc_def draw_def Let_def)
  show ?case using Suc [of "b\<lparr>memory := h, tx_idle := tx_idle b @ [r]\<rparr>"] r by simp
qed simp

text \<open>A pair of test endpoints on this controller.\<close>

lemma demo_pair:
  assumes "(k, a) \<in> set demo_claims" and "(Suc k, a') \<in> set demo_claims" and "gadget (cdev b) = demo_udc k" and "epnum (cdev b) = of_nat k"
    and "fst (ep_descs (ctl b) ! ki) = bulk_desc a" and "fst (ep_descs (ctl b) ! ko) = bulk_desc a'" and "ki \<noteq> ko"
  shows "\<exists>b'. adb_create_bulk_endpoints (\<lambda>_. True) (\<lambda>_. True) ki ko i b = Some (0, b') \<and>
           gadget (cdev b') = demo_udc (Suc (Suc k)) \<and> epnum (cdev b') = of_nat (Suc (Suc k)) \<and>
           (\<forall>j. j \<noteq> ki \<and> j \<noteq> ko \<longrightarrow> ep_descs (ctl b') ! j = ep_descs (ctl b) ! j) \<and>
           test_in (ctl b') = (test_in (ctl b))(i := True) \<and> test_out (ctl b') = (test_out (ctl b))(i := True)"
proof -
  obtain d c where c: "claim_ep (\<lambda>_. True) (bulk_desc a) (cdev b) = Some (Some d, d, c)" "gadget c = demo_udc (Suc k)" "epnum c = of_nat (Suc k)"
    using demo_claim [OF assms(1,3,4)] by blast
  obtain d' c' where c': "claim_ep (\<lambda>_. True) (bulk_desc a') c = Some (Some d', d', c')" "gadget c' = demo_udc (Suc (Suc k))"
      "epnum c' = of_nat (Suc (Suc k))"
    using demo_claim [OF assms(2) c(2,3)] by blast
  define s where "s = set_ep_desc ko d' ((set_ep_desc ki d (ctl b))\<lparr>test_in := (test_in (ctl b))(i := True)\<rparr>)"
  obtain r h where r: "scale_request_new (\<lambda>_. True) (memory b) = (Some r, h)"
    by (simp add: scale_request_new_def scale_req_alloc_def draw_def Let_def)
  obtain b' where b': "fill_idle (\<lambda>_. True) 4 (b\<lparr>cdev := c', ctl := s\<lparr>test_out := (test_out (ctl b))(i := True)\<rparr>, memory := h, rx_req := Some r\<rparr>) = (0, b')"
      "cdev b' = c'" "ctl b' = s\<lparr>test_out := (test_out (ctl b))(i := True)\<rparr>"
    using fill_idle_succeeds [of 4 "b\<lparr>cdev := c', ctl := s\<lparr>test_out := (test_out (ctl b))(i := True)\<rparr>, memory := h, rx_req := Some r\<rparr>"] by auto
  have e: "fst (ep_descs (set_ep_desc ki d (ctl b)) ! ko) = bulk_desc a'" using assms(6,7) by (simp add: set_ep_desc_def)
  have "adb_create_bulk_endpoints (\<lambda>_. True) (\<lambda>_. True) ki ko i b = Some (0, b')"
    using assms(5) e c(1) c'(1) r b'(1)
    by (simp add: adb_create_bulk_endpoints_def Let_def s_def) (simp add: set_ep_desc_def)
  then show ?thesis using c' b' by (simp add: s_def) (simp add: set_ep_desc_def)
qed

lemma bind_pools_succeeds:
  "\<exists>b'. bind_pools (\<lambda>_. True) b = Some (0, b') \<and> cdev b' = cdev b \<and> ep_descs (ctl b') = ep_descs (ctl b)"
proof -
  obtain p h where "fill_pool (\<lambda>_. True) 10 [] (snd (draw (\<lambda>_. True) (snd (draw (\<lambda>_. True) (memory b))))) = (Some p, h)"
    using fill_pool_succeeds [of 10 "\<lambda>_. True" "snd (draw (\<lambda>_. True) (snd (draw (\<lambda>_. True) (memory b))))" "[]"] by auto
  moreover obtain q h' where "fill_pool (\<lambda>_. True) 10 [] h = (Some q, h')"
    using fill_pool_succeeds [of 10 "\<lambda>_. True" h "[]"] by auto
  ultimately show ?thesis by (simp add: bind_pools_def Let_def draw_def)
qed

lemma bind_pools_fails:
  assumes "draws (memory b) = 0"
  shows "\<exists>b'. bind_pools (\<lambda>n. n < 22) b = Some (- ENOMEM, b')"
proof -
  define h where "h = snd (draw (\<lambda>n. n < 22) (snd (draw (\<lambda>n. n < 22) (memory b))))"
  have "draws h = 2" using assms by (simp add: h_def draw_def)
  then obtain p h' where p: "fill_pool (\<lambda>n. n < 22) 10 [] h = (Some p, h')" "draws h' = 22"
    using fill_pool_succeeds [of 10 "\<lambda>n. n < 22" h "[]"] by auto
  obtain q h'' where q: "fill_pool (\<lambda>n. n < 22) 10 [] h' = (q, h'')" by (rule prod.exhaust)
  have "q = None" using fill_pool_fails [of "\<lambda>n. n < 22" h' 9 "[]"] p(2) q by simp
  then show ?thesis using p q assms by (simp add: bind_pools_def Let_def h_def draw_def)
qed

abbreviation (input) demo_start :: bind_state where "demo_start \<equiv> bind_start (demo_dev\<lparr>gadget := demo_udc 0\<rparr>)"

text \<open>Binding up to the pools.\<close>

lemma demo_endpoints:
  obtains b1 s1 b2 where "bind_string_ids [1, 2, 3] demo_start = (0, b1)"
    and "bind_device (\<lambda>_. True) (gadget (cdev b1)) (ctl b1) = Some s1"
    and "bind_endpoints (\<lambda>_. True) (b1\<lparr>ctl := s1\<rparr>) = Some (0, b2)" and "ep_descs (ctl b2) = dmx_ep_descs" and "draws (memory b2) = 0"
    and "gadget (cdev b2) = demo_udc 2" and "epnum (cdev b2) = 2"
proof -
  obtain b1 where b1: "bind_string_ids [1, 2, 3] demo_start = (0, b1)" and g: "gadget (cdev b1) = demo_udc 0" "memory b1 = memory demo_start"
      "pnp_string (ctl b1) = pnp_text" "ep_descs (ctl b1) = dmx_ep_descs"
    by (simp add: usb_string_id_def demo_dev_def bind_start_def Let_def set_string_id_def) (simp add: scale_static_def)
  have "mem_write pnp_text 0 [0, 36] = Some ([0, 36] @ drop 2 pnp_text)"
    by (simp add: mem_write_def pnp_text_def c_string_def)
  then obtain s1 where s1: "bind_device (\<lambda>_. True) (gadget (cdev b1)) (ctl b1) = Some s1" "ep_descs s1 = dmx_ep_descs"
    using g by (simp add: bind_device_def pnp_len Let_def)
  define c where "c = (cdev b1)\<lparr>gadget := demo_udc 0, epnum := 0\<rparr>"
  have cl: "(0, 0x80) \<in> set demo_claims" "(1, 0) \<in> set demo_claims" by (simp_all add: demo_claims_def)
  obtain d1 c1 where c1: "claim_ep (\<lambda>_. True) (bulk_desc 0x80) c = Some (Some d1, d1, c1)" "gadget c1 = demo_udc 1" "epnum c1 = of_nat 1"
    using demo_claim [OF cl(1), of c] by (auto simp: c_def)
  obtain d2 c2 where c2: "claim_ep (\<lambda>_. True) (bulk_desc 0) c1 = Some (Some d2, d2, c2)" "gadget c2 = demo_udc 2" "epnum c2 = 2"
    using demo_claim [OF cl(2) c1(2,3)] by (auto simp: numeral_2_eq_2)
  have "usb_ep_autoconfig_reset (demo_udc 0) = (demo_udc 0, 0)" by (simp add: usb_ep_autoconfig_reset_def demo_udc_def)
  then have "bind_endpoints (\<lambda>_. True) (b1\<lparr>ctl := s1\<rparr>) = Some (0, b1\<lparr>ctl := s1, cdev := c2, tx_idle := []\<rparr>)"
    using g(1) c1(1) c2(1) by (simp add: bind_endpoints_def c_def)
  then show ?thesis using that [OF b1 s1(1)] s1(2) c2 g(2) by (simp add: bind_start_def)
qed

lemma demo_bind:
  obtains b where "scale_bind (\<lambda>_. True) (\<lambda>_. True) True 0 demo_start = Some (0, b)"
proof (rule demo_endpoints)
  fix b1 s1 b2
  assume a: "bind_string_ids [1, 2, 3] demo_start = (0, b1)" "bind_device (\<lambda>_. True) (gadget (cdev b1)) (ctl b1) = Some s1"
    "bind_endpoints (\<lambda>_. True) (b1\<lparr>ctl := s1\<rparr>) = Some (0, b2)" "ep_descs (ctl b2) = dmx_ep_descs"
    "gadget (cdev b2) = demo_udc 2" "epnum (cdev b2) = 2"
  obtain b3 where b3: "bind_pools (\<lambda>_. True) (b2\<lparr>ctl := reset_pools (ctl b2)\<rparr>) = Some (0, b3)" "cdev b3 = cdev b2" "ep_descs (ctl b3) = dmx_ep_descs"
    using bind_pools_succeeds [of "b2\<lparr>ctl := reset_pools (ctl b2)\<rparr>"] a(4) by (auto simp: reset_pools_def)
  have cl: "(2, 0x82) \<in> set demo_claims" "(Suc 2, 2) \<in> set demo_claims" "(4, 0x85) \<in> set demo_claims" "(Suc 4, 5) \<in> set demo_claims"
      "(6, 0x88) \<in> set demo_claims" "(Suc 6, 8) \<in> set demo_claims"
    by (simp_all add: demo_claims_def)
  have n: "Suc (Suc 2) = 4" "Suc (Suc 4) = 6" by simp_all
  have d: "fst (dmx_ep_descs ! 3) = bulk_desc 0x82" "fst (dmx_ep_descs ! 0) = bulk_desc 2" "fst (dmx_ep_descs ! 4) = bulk_desc 0x85"
      "fst (dmx_ep_descs ! 1) = bulk_desc 5" "fst (dmx_ep_descs ! 5) = bulk_desc 0x88" "fst (dmx_ep_descs ! 2) = bulk_desc 8"
    by (simp_all add: dmx_ep_descs_def)
  obtain b4 where b4: "adb_create_bulk_endpoints (\<lambda>_. True) (\<lambda>_. True) 3 0 0 b3 = Some (0, b4)" "gadget (cdev b4) = demo_udc 4"
      "epnum (cdev b4) = of_nat 4" "\<forall>j. j \<noteq> 3 \<and> j \<noteq> 0 \<longrightarrow> ep_descs (ctl b4) ! j = dmx_ep_descs ! j" "test_in (ctl b4) 0" "test_out (ctl b4) 0"
    using demo_pair [OF cl(1,2), of b3 3 0 0] a(5,6) b3 d unfolding n by auto
  obtain b5 where b5: "adb_create_bulk_endpoints (\<lambda>_. True) (\<lambda>_. True) 4 1 1 b4 = Some (0, b5)" "gadget (cdev b5) = demo_udc 6"
      "epnum (cdev b5) = of_nat 6" "\<forall>j. j \<noteq> 4 \<and> j \<noteq> 1 \<longrightarrow> ep_descs (ctl b5) ! j = ep_descs (ctl b4) ! j" "test_in (ctl b5) 0" "test_out (ctl b5) 0"
    using demo_pair [OF cl(3,4), of b4 4 1 1] b4 d unfolding n by auto
  obtain b6 where b6: "adb_create_bulk_endpoints (\<lambda>_. True) (\<lambda>_. True) 5 2 2 b5 = Some (0, b6)" "test_in (ctl b6) 0" "test_out (ctl b6) 0"
    using demo_pair [OF cl(5,6), of b5 5 2 2] b5 b4(4) d by auto
  have "scale_bind (\<lambda>_. True) (\<lambda>_. True) True 0 demo_start = Some (0, b6\<lparr>data_is_scale := True\<rparr>)"
    using a(1-3) b3(1) b4(1) b5(1) b6 by (simp add: scale_bind_def bind_tests_def)
  then show thesis by (rule that)
qed

section \<open>Witnesses\<close>

definition quiet_env :: ctl_env where
  "quiet_env = \<lparr>hw_result = (\<lambda>_ _. 0), disabling = (\<lambda>_ _. []), is_otg_gadget = False\<rparr>"

lemma quiet_negative: "errors_negative quiet_env"
  by (simp add: errors_negative_def quiet_env_def)

text \<open>A soft reset, and a question for eight bytes of a reply of five.\<close>

definition reset_ctrl :: usb_ctrlrequest where
  "reset_ctrl = \<lparr>bRequestType = 0x21, bRequest = 2, wValue = 0, wIndex = 0, wLength = 0\<rparr>"

definition long_ctrl :: usb_ctrlrequest where
  "long_ctrl = \<lparr>bRequestType = 0xc0, bRequest = 0x31, wValue = 8, wIndex = 0, wLength = 8\<rparr>"

lemma ctrl_kinds: "soft_reset_request reset_ctrl" "overlong_request long_ctrl"
  "\<not> overlong_request (get_config 64)" "\<not> soft_reset_request (get_config 64)"
  by (simp_all add: soft_reset_request_def overlong_request_def reset_ctrl_def long_ctrl_def get_config_def)

text \<open>A question for the status with room for 1024 bytes, here after the host has read the configuration.\<close>

definition status_ctrl :: usb_ctrlrequest where
  "status_ctrl = \<lparr>bRequestType = 0xa1, bRequest = 1, wValue = 0, wIndex = 0, wLength = 1024\<rparr>"

theorem scale_device_in_order_witness:
  "\<exists>b v s. scale_bind (\<lambda>_. True) (\<lambda>_. True) True 0 demo_start = Some (0, b) \<and>
       scale_setup quiet_env (get_config 64) (ctl b) = Some (v, s) \<and> distinct (all_reqs [] (io s)) \<and>
       leaves_objects quiet_env reset_ctrl s \<and> leaves_objects quiet_env status_ctrl s"
proof -
  obtain b where b: "scale_bind (\<lambda>_. True) (\<lambda>_. True) True 0 demo_start = Some (0, b)" by (rule demo_bind)
  note st = scale_bind_start [OF b]
  have ok: "ctl_ok (ctl b)" "\<not> test_in (ctl b) 3" "0 < d_numConfigurations (dev_desc (ctl b))" using st by simp_all
  obtain v s where s: "scale_setup quiet_env (get_config 64) (ctl b) = Some (v, s)" "kept (ctl b) s"
    using scale_setup_ok [OF ok(1) quiet_negative ok(2), of "get_config 64"] ctrl_kinds by auto
  have "\<not> leaves_objects quiet_env (get_config 64) (ctl b)"
    using setup_data_phase [OF ok(1) quiet_negative ok(2)] ctrl_kinds by (simp add: get_config_def)
  then have reach: "scale_reach good_env quiet_env (ctl b) s"
    using scale_reach.control [OF scale_reach.start _ s(1)] by blast
  note t = scale_device_in_order [OF b quiet_negative reach]
  have "ctl_ok s" using s(2) ok(1) by (simp add: kept_def)
  then have "answered quiet_env status_ctrl s"
    by (simp add: answered_def scale_setup_def status_ctrl_def class_requests_def put_byte_def respond_scale_def
        mem_write_def ctl_ok_def hw_do_def new_calls_def set_interface_number_def)
  moreover have "\<not> fixed_reply status_ctrl" "256 < wLength status_ctrl"
    by (simp_all add: fixed_reply_def status_ctrl_def)
  ultimately show ?thesis using b s(1) t [of reset_ctrl] t [of status_ctrl] ctrl_kinds by blast
qed

theorem scale_unbind_leaks_tests_witness:
  "\<exists>b b'. scale_bind (\<lambda>_. True) (\<lambda>_. True) True 0 demo_start = Some (0, b) \<and> scale_unbind b = Some b' \<and>
          live (memory b') = filter (\<lambda>r. 20 \<le> r) (live (memory b))"
proof -
  obtain b where b: "scale_bind (\<lambda>_. True) (\<lambda>_. True) True 0 demo_start = Some (0, b)" by (rule demo_bind)
  show ?thesis using b scale_unbind_leaks_tests [OF b] by auto
qed

theorem scale_bind_out_of_memory_witness:
  "\<exists>b. scale_bind (\<lambda>_. True) (\<lambda>n. n < 22) True 0 demo_start = Some (- 12, b) \<and>
       (live (memory b) = [] \<or> live (memory b) = rev [0 ..< 10])"
proof (rule demo_endpoints)
  fix b1 s1 b2
  assume a: "bind_string_ids [1, 2, 3] demo_start = (0, b1)" "bind_device (\<lambda>_. True) (gadget (cdev b1)) (ctl b1) = Some s1"
    "bind_endpoints (\<lambda>_. True) (b1\<lparr>ctl := s1\<rparr>) = Some (0, b2)" "draws (memory b2) = 0"
  obtain b3 where "bind_pools (\<lambda>n. n < 22) (b2\<lparr>ctl := reset_pools (ctl b2)\<rparr>) = Some (- 12, b3)"
    using bind_pools_fails [of "b2\<lparr>ctl := reset_pools (ctl b2)\<rparr>"] a(4) by auto
  then have b: "scale_bind (\<lambda>_. True) (\<lambda>n. n < 22) True 0 demo_start = Some (- 12, b3)"
    using a(1-3) by (simp add: scale_bind_def)
  show ?thesis using b scale_bind_out_of_memory [OF b] by blast
qed

text \<open>The states of the witnesses for the control path.\<close>

theorem scale_setup_safe_witness:
  "\<exists>b. scale_bind (\<lambda>_. True) (\<lambda>_. True) True 0 demo_start = Some (0, b) \<and> scale_setup quiet_env long_ctrl (ctl b) = None"
proof -
  obtain b where b: "scale_bind (\<lambda>_. True) (\<lambda>_. True) True 0 demo_start = Some (0, b)" by (rule demo_bind)
  note s = scale_bind_start [OF b]
  have "io_inv [] (io (ctl b))" using s scale_init_inv by simp
  then have "scale_setup quiet_env long_ctrl (ctl b) = None"
    using s scale_setup_safe [of "ctl b" quiet_env long_ctrl] quiet_negative ctrl_kinds(2) by blast
  then show ?thesis using b by blast
qed

theorem scale_config_read_witness:
  "\<exists>b v s' m. scale_bind (\<lambda>_. True) (\<lambda>_. True) True 0 demo_start = Some (0, b) \<and>
     scale_setup quiet_env (get_config 1024) (ctl b) = Some (v, s') \<and> hw s' = hw (ctl b) @ [Ep0Queue 1024 True m] \<and> length m = 256"
proof -
  obtain b where b: "scale_bind (\<lambda>_. True) (\<lambda>_. True) True 0 demo_start = Some (0, b)" by (rule demo_bind)
  show ?thesis using b scale_bind_start [OF b] scale_config_read [of "ctl b" quiet_env 1024] by auto
qed

theorem scale_set_config_refused_enables_witness:
  "\<exists>s'. scale_set_config quiet_env 7 scale_static = (- 22, s') \<and> hw s' = [Draw 100, EpEnable EpIn, EpEnable EpOut]"
  using scale_set_config_refused_enables [of 7 quiet_env scale_static] by (auto simp: quiet_env_def scale_static_def)

theorem scale_connection_gates_writes_witness:
  "\<exists>(b::bind_state) v s'. scale_setup quiet_env (get_config 64) (ctl b) = Some (v, s') \<and>
     scale_write good_env True [1] [] (io (scale_disconnect quiet_env s')) = Some (- 22, io (scale_disconnect quiet_env s'))"
proof -
  obtain b where b: "scale_bind (\<lambda>_. True) (\<lambda>_. True) True 0 demo_start = Some (0, b)" by (rule demo_bind)
  note s = scale_bind_start [OF b]
  obtain v s' where v: "scale_setup quiet_env (get_config 64) (ctl b) = Some (v, s')"
    using scale_setup_ok [of "ctl b" quiet_env "get_config 64"] s quiet_negative ctrl_kinds(3,4) by auto
  then show ?thesis using scale_connection_gates_writes [OF _ quiet_negative _ v] s by blast
qed

end
