(* ===== verification/CompositeIds.thy ===== *)
theory CompositeIds
  imports CompositeDemo
begin

text \<open>
  Properties of the composite framework's identifiers and descriptors: string and interface
  numbers, the number of configurations, and the configuration descriptor the host receives.
\<close>

section \<open>String identifiers\<close>

text \<open>
  One allocation of the three kinds, with the identifiers it hands out. \<open>str_ids\<close> of a batch are the
  identifiers stored in its table.
\<close>

datatype id_request = OneId | TableIds "usb_string list" | CountIds u32

definition alloc_ids :: "id_request \<Rightarrow> usb_composite_dev \<Rightarrow> int list \<times> usb_composite_dev" where
  "alloc_ids q s = (case q of
     OneId \<Rightarrow> (case usb_string_id s of (r, s') \<Rightarrow> (if r < 0 then [] else [r], s'))
   | TableIds str \<Rightarrow> (case usb_string_ids_tab str s of
       (r, str', s') \<Rightarrow> (if r < 0 then [] else map (\<lambda>x. uint (str_id x)) str', s'))
   | CountIds n \<Rightarrow> (case usb_string_ids_n n s of
       (r, s') \<Rightarrow> (if r < 0 then [] else map (\<lambda>i. r + int i) [0..<unat n], s')))"

inductive ids_reach :: "usb_composite_dev \<Rightarrow> int list \<Rightarrow> usb_composite_dev \<Rightarrow> bool" for s0 where
  init: "ids_reach s0 [] s0"
| step: "ids_reach s0 ids s \<Longrightarrow> alloc_ids q s = (new, s') \<Longrightarrow> ids_reach s0 (ids @ new) s'"

lemma assign_ids_spec:
  assumes "assign_ids str n = (str', r)" and "n \<le> 254"
  shows "case r of Some m \<Rightarrow> m = n + length str \<and> m \<le> 254 \<and>
                            map (\<lambda>x. unat (str_id x)) str' = [Suc n..<Suc m]
         | None \<Rightarrow> n + length str > 254"
  using assms
proof (induction str n arbitrary: str' r rule: assign_ids.induct)
  case (2 x xs n)
  show ?case
  proof (cases "n \<ge> 254")
    case False
    obtain ys r' where rec: "assign_ids xs (Suc n) = (ys, r')" by (rule prod.exhaust)
    have u: "unat (of_nat (Suc n) :: u8) = Suc n"
      using False by (simp only: unat_of_nat) (simp add: take_bit_eq_mod)
    from "2.IH" [OF False rec] False have "case r' of Some m \<Rightarrow> m = Suc n + length xs \<and> m \<le> 254 \<and>
        map (\<lambda>x. unat (str_id x)) ys = [Suc (Suc n)..<Suc m] | None \<Rightarrow> Suc n + length xs > 254" by simp
    with "2.prems" False rec u show ?thesis
      by (auto split: option.splits simp: upt_conv_Cons simp del: of_nat_Suc upt_Suc)
  qed (use 2 in auto)
qed auto

text \<open>The new identifiers follow the counter, which moves past them and never beyond 254.\<close>

lemma uint_eq_int: "unat x = k \<Longrightarrow> uint x = int k"
  by auto

lemma usb_string_id_spec:
  assumes "usb_string_id s = (r, s')" and k: "unat (next_string_id s) = k"
  shows "if k < 254 then r = int (Suc k) \<and> unat (next_string_id s') = Suc k else r = - ENODEV \<and> s' = s"
proof -
  have u: "unat (next_string_id s + 1) = Suc k" if "k < 254"
    using that k by (simp add: unat_word_ariths take_bit_eq_mod)
  have l: "next_string_id s < 254 \<longleftrightarrow> k < 254" using k by (simp add: word_less_nat_alt)
  show ?thesis
    using assms(1) unfolding usb_string_id_def l by (auto simp: u uint_eq_int [OF u])
qed

lemma usb_string_ids_n_spec:
  assumes "usb_string_ids_n n s = (r, s')" and k: "unat (next_string_id s) = k" "k \<le> 254"
  shows "if unat n \<le> 254 \<and> k + unat n \<le> 254
         then r = int (Suc k) \<and> unat (next_string_id s') = k + unat n else r = - ENODEV \<and> s' = s"
proof -
  define w :: u32 where "w = ucast (next_string_id s)"
  have w: "unat w = k"
    unfolding w_def k(1) [symmetric] by transfer (simp add: take_bit_take_bit)
  have sum: "unat (w + n) = k + unat n" if "unat n \<le> 254"
    using that k(2) w by (simp add: unat_word_ariths take_bit_eq_mod)
  have one: "unat (w + 1) = Suc k"
    using k(2) w by (simp add: unat_word_ariths take_bit_eq_mod)
  have new: "unat (next_string_id s + ucast n) = k + unat n" if "unat n \<le> 254" "k + unat n \<le> 254"
    using that k by (simp add: unat_word_ariths unsigned_ucast_eq take_bit_eq_mod)
  have c: "n > 254 \<or> w + n > 254 \<longleftrightarrow> \<not> (unat n \<le> 254 \<and> k + unat n \<le> 254)"
    using sum by (cases "unat n \<le> 254") (simp_all add: word_less_nat_alt not_le)
  show ?thesis
    using assms(1) unfolding usb_string_ids_n_def Let_def w_def [symmetric] c
    by (auto simp: new uint_eq_int [OF one] split: if_splits)
qed

lemma alloc_ids_spec:
  assumes "alloc_ids q s = (new, s')" and k: "unat (next_string_id s) = k" "k \<le> 254"
  shows "\<exists>k'. unat (next_string_id s') = k' \<and> k \<le> k' \<and> k' \<le> 254 \<and> new = map int [Suc k..<Suc k']"
proof (cases q)
  case OneId
  obtain r s1 where r: "usb_string_id s = (r, s1)" by (rule prod.exhaust)
  with assms(1) OneId have "s' = s1" "new = (if r < 0 then [] else [r])" by (auto simp: alloc_ids_def)
  moreover have "[Suc k..<Suc (Suc k)] = [Suc k]" by simp
  ultimately show ?thesis
    using usb_string_id_spec [OF r k(1)] k(2)
    by (cases "k < 254") (auto intro!: exI [of _ "Suc k"] exI [of _ k] simp: k(1) simp del: upt_Suc of_nat_Suc)
next
  case (TableIds str)
  obtain str' m where a: "assign_ids str k = (str', m)" by (rule prod.exhaust)
  show ?thesis
  proof (cases m)
    case None
    with a assms TableIds show ?thesis by (auto simp: alloc_ids_def usb_string_ids_tab_def)
  next
    case (Some k')
    with assign_ids_spec [OF a k(2)] have k': "k' \<le> 254" "k \<le> k'"
        and ids: "map (\<lambda>x. unat (str_id x)) str' = [Suc k..<Suc k']" by auto
    have u: "unat (of_nat k' :: u8) = k'" using k' by (simp add: unat_of_nat take_bit_eq_mod)
    have "new = map int (map (\<lambda>x. unat (str_id x)) str')" "unat (next_string_id s') = k'"
      using a Some assms(1) TableIds u k(1) by (auto simp: alloc_ids_def usb_string_ids_tab_def)
    with k' ids show ?thesis by simp
  qed
next
  case (CountIds n)
  obtain r s1 where r: "usb_string_ids_n n s = (r, s1)" by (rule prod.exhaust)
  have s': "s' = s1" and new: "new = (if r < 0 then [] else map (\<lambda>i. r + int i) [0..<unat n])"
    using r assms(1) CountIds by (auto simp: alloc_ids_def)
  have shift: "map (\<lambda>i. int (Suc k) + int i) [0..<m] = map int [Suc k..<Suc (k + m)]" for m
    by (rule nth_equalityI) (simp_all del: upt_Suc)
  show ?thesis
  proof (cases "unat n \<le> 254 \<and> k + unat n \<le> 254")
    case True
    with usb_string_ids_n_spec [OF r k] have "r = int (Suc k)" "unat (next_string_id s') = k + unat n"
      using s' by simp_all
    with True new show ?thesis
      by (intro exI [of _ "k + unat n"]) (simp add: shift [symmetric] del: upt_Suc of_nat_Suc)
  next
    case False
    with usb_string_ids_n_spec [OF r k] new s' k show ?thesis by auto
  qed
qed

text \<open>
  C22: String identifiers. However the three allocators are mixed, no identifier is handed out
  twice, all of them lie between 1 and 254, and the identifier 0 of the language list is never used.
\<close>

theorem string_ids_unique:
  assumes "ids_reach s0 ids s" and "next_string_id s0 = 0"
  shows "distinct ids \<and> set ids \<subseteq> {1..254} \<and> length ids = unat (next_string_id s)"
proof -
  have "\<exists>k. unat (next_string_id s) = k \<and> k \<le> 254 \<and> ids = map int [1..<Suc k]"
    using assms
  proof (induction rule: ids_reach.induct)
    case init
    then show ?case by simp
  next
    case (step ids s q new s')
    then obtain k where k: "unat (next_string_id s) = k" "k \<le> 254" "ids = map int [1..<Suc k]" by auto
    obtain k' where k': "unat (next_string_id s') = k'" "k \<le> k'" "k' \<le> 254" "new = map int [Suc k..<Suc k']"
      using alloc_ids_spec [OF step.hyps(2) k(1,2)] by blast
    have "[1..<Suc k] @ [Suc k..<Suc k'] = [1..<Suc k']"
      using k'(2) upt_add_eq_append [of 1 "Suc k" "k' - k"] by (simp del: upt_Suc)
    with k(3) k' show ?case by (metis map_append)
  qed
  then show ?thesis by (auto simp: distinct_map simp del: upt_Suc)
qed

theorem string_ids_unique_witness:
  "\<exists>ids s. ids_reach demo_dev ids s \<and> ids = [1, 2, 3, 4] \<and> distinct ids \<and> set ids \<subseteq> {1..254}"
proof -
  have "ids_reach demo_dev ([] @ [1]) (demo_dev\<lparr>next_string_id := 1\<rparr>)"
    by (rule ids_reach.step [OF ids_reach.init, where q = OneId])
       (simp add: alloc_ids_def usb_string_id_def demo_defs)
  then have "ids_reach demo_dev (([] @ [1]) @ [2, 3, 4]) (demo_dev\<lparr>next_string_id := 4\<rparr>)"
    by (rule ids_reach.step [where q = "CountIds 3"])
       (simp add: alloc_ids_def usb_string_ids_n_def demo_defs upt_rec)
  then show ?thesis
    using string_ids_unique [of demo_dev "[1, 2, 3, 4]"] by (force simp: demo_defs)
qed

section \<open>Interface identifiers\<close>

text \<open>The interface table of a configuration: filled up to the next number, free from there on.\<close>

definition intf_ok :: "comp_env \<Rightarrow> usb_configuration \<Rightarrow> bool" where
  "intf_ok e cc \<longleftrightarrow> length (c_interface cc) = MAX_CONFIG_INTERFACES e \<and>
     unat (c_next_interface_id cc) \<le> MAX_CONFIG_INTERFACES e \<and>
     (\<forall>i<MAX_CONFIG_INTERFACES e. (c_interface cc ! i \<noteq> None) = (i < unat (c_next_interface_id cc)))"

text \<open>
  Interface identifiers. As long as the table has room, an allocation returns the next number,
  which was free, and enters the function there and nowhere else; a full table is reported as such
  and nothing changes. The table stays filled without gaps.
\<close>

theorem usb_interface_id_spec:
  assumes "usb_interface_id e c f s = (r, s')" and "intf_ok e (confs s c)" and "MAX_CONFIG_INTERFACES e \<le> 255"
  shows "intf_ok e (confs s' c) \<and>
         (if unat (c_next_interface_id (confs s c)) < MAX_CONFIG_INTERFACES e
          then r = uint (c_next_interface_id (confs s c)) \<and>
               c_interface (confs s c) ! nat r = None \<and>
               c_interface (confs s' c) = (c_interface (confs s c))[nat r := Some f]
          else r = - ENODEV \<and> s' = s)"
proof -
  define k where "k = unat (c_next_interface_id (confs s c))"
  have u: "unat (c_next_interface_id (confs s c) + 1) = Suc k" if "k < MAX_CONFIG_INTERFACES e"
    using that assms(3) by (simp add: k_def unat_word_ariths take_bit_eq_mod)
  show ?thesis
    using assms(1,2) u
    by (auto simp: usb_interface_id_def upd_conf_def intf_ok_def Let_def k_def nth_list_update less_Suc_eq
        split: if_splits)
qed

theorem usb_interface_id_spec_witness:
  "\<exists>s'. usb_interface_id demo_env 0 7 demo_dev = (1, s') \<and> c_interface (confs s' 0) ! 1 = Some 7 \<and>
     intf_ok demo_env (confs s' 0)"
proof -
  have ok: "intf_ok demo_env (confs demo_dev 0)"
    by (simp add: intf_ok_def demo_defs nth_Cons split: nat.split)
  obtain r s' where run: "usb_interface_id demo_env 0 7 demo_dev = (r, s')" by (rule prod.exhaust)
  have "unat (c_next_interface_id (confs demo_dev 0)) < MAX_CONFIG_INTERFACES demo_env"
      "MAX_CONFIG_INTERFACES demo_env \<le> 255" "length (c_interface (confs demo_dev 0)) = 16"
      "c_next_interface_id (confs demo_dev 0) = 1"
    by (simp_all add: demo_defs)
  with usb_interface_id_spec [OF run ok] run show ?thesis by auto
qed

end
