(* ===== verification/CompositeDesc.thy ===== *)
theory CompositeDesc
  imports CompositeDemo
begin

text \<open>
  The descriptors a composite device reports: the configuration descriptor is complete and parses
  back on the host, the number of configurations agrees with the indices that can be fetched, and
  the language list.
\<close>

section \<open>Configuration descriptors\<close>

lemma fillbuf_cases:
  assumes "\<forall>d\<in>set ds. wf_desc d" and "next \<le> 1024" and "1024 \<le> length mem"
  shows "if next + descs_total ds \<le> 1024
    then usb_descriptor_fillbuf mem next (word_of_int (1024 - int next)) (Some ds) =
           Some (int (descs_total ds), take next mem @ concat (map desc_copy ds) @ drop (next + descs_total ds) mem)
    else \<exists>mem'. usb_descriptor_fillbuf mem next (word_of_int (1024 - int next)) (Some ds) = Some (- EINVAL, mem') \<and>
           length mem' = length mem"
proof -
  define w :: u32 where "w = word_of_int (1024 - int next)"
  have "w = of_nat (1024 - next)" using assms(2) by (simp add: w_def of_nat_diff)
  then have w: "unat w = 1024 - next" by (simp add: unat_of_nat take_bit_eq_mod)
  have "next + unat w \<le> length mem" using w assms by simp
  from fillbuf_loop_spec [OF assms(1) this] show ?thesis
    using assms(2) unfolding w_def [symmetric]
    by (auto simp: usb_descriptor_fillbuf_def w split: if_splits)
qed

text \<open>The descriptors of a configuration at a speed, in the order they are sent.\<close>

definition opt_list :: "'a list option \<Rightarrow> 'a list" where
  "opt_list x = (case x of None \<Rightarrow> [] | Some xs \<Rightarrow> xs)"

definition function_descs :: "usb_speed \<Rightarrow> usb_function list \<Rightarrow> bytes list" where
  "function_descs sp fs = concat (map (\<lambda>f. opt_list (descriptors_at sp f)) fs)"

lemma descs_total_append [simp]: "descs_total (xs @ ys) = descs_total xs + descs_total ys"
  by (simp add: descs_total_def)

lemma fill_functions_spec:
  assumes "\<forall>d\<in>set (function_descs sp fs). wf_desc d" and "next \<le> 1024" and "1024 \<le> length mem"
  shows "if next + descs_total (function_descs sp fs) \<le> 1024
    then fill_functions sp fs mem next (1024 - int next) =
           Some (Inr (next + descs_total (function_descs sp fs)),
                 take next mem @ concat (map desc_copy (function_descs sp fs)) @
                 drop (next + descs_total (function_descs sp fs)) mem)
    else \<exists>mem'. fill_functions sp fs mem next (1024 - int next) = Some (Inl (- EINVAL), mem') \<and>
           length mem' = length mem"
  using assms
proof (induction fs arbitrary: mem "next")
  case Nil
  then show ?case by (simp add: function_descs_def)
next
  case (Cons f fs)
  show ?case
  proof (cases "descriptors_at sp f")
    case None
    with Cons show ?thesis by (simp add: function_descs_def opt_list_def)
  next
    case (Some ds)
    have fd: "function_descs sp (f # fs) = ds @ function_descs sp fs"
      using Some by (simp add: function_descs_def opt_list_def)
    have wf: "\<forall>d\<in>set ds. wf_desc d" "\<forall>d\<in>set (function_descs sp fs). wf_desc d"
      using Cons.prems(1) fd by auto
    note fill = fillbuf_cases [OF wf(1) Cons.prems(2,3)]
    show ?thesis
    proof (cases "next + descs_total ds \<le> 1024")
      case True
      let ?mem = "take next mem @ concat (map desc_copy ds) @ drop (next + descs_total ds) mem"
      have len: "length (concat (map desc_copy ds)) = descs_total ds"
        by (rule length_concat_desc_copy [OF wf(1)])
      have lm: "length ?mem = length mem" using len True Cons.prems(3) by simp
      have step: "fill_functions sp (f # fs) mem next (1024 - int next) =
          fill_functions sp fs ?mem (next + descs_total ds) (1024 - int (next + descs_total ds))"
        using fill True Some by (simp add: algebra_simps)
      show ?thesis
        using Cons.IH [OF wf(2) True, of ?mem] lm Cons.prems(2,3) True len
        unfolding step fd by (auto simp: add.assoc drop_drop add.commute split: if_splits)
    next
      case False
      with fill obtain mem' where m: "usb_descriptor_fillbuf mem next (word_of_int (1024 - int next)) (Some ds)
          = Some (- EINVAL, mem')" "length mem' = length mem" by (auto simp del: of_int_diff)
      have "fill_functions sp (f # fs) mem next (1024 - int next) = Some (Inl (- EINVAL), mem')"
        using m(1) Some by (simp del: of_int_diff)
      with m(2) False fd show ?thesis by auto
    qed
  qed
qed

definition config_descs :: "usb_composite_dev \<Rightarrow> nat \<Rightarrow> usb_speed \<Rightarrow> bytes list" where
  "config_descs s c sp =
     opt_list (c_descriptors (confs s c)) @ function_descs sp (map (funcs s) (c_functions (confs s c)))"

definition config_header :: "comp_env \<Rightarrow> usb_configuration \<Rightarrow> u8 \<Rightarrow> nat \<Rightarrow> bytes" where
  "config_header e cc type n =
     [9, type] @ le16_bytes (of_nat n) @
     [c_next_interface_id cc, c_value cc, c_iConfiguration cc, 0x80 OR c_bmAttributes cc,
      if c_bMaxPower cc \<noteq> 0 then c_bMaxPower cc else of_nat (VBUS_DRAW e div 2)]"

text \<open>Writing the fields of the header around the length field, and the length field later.\<close>

lemma header_writes:
  assumes "9 \<le> length m"
  obtains m1 where "mem_write m 0 [9, type] = Some m1"
    and "mem_write m1 4 (drop 4 (config_header e cc type n)) =
           Some ([9, type] @ take 2 (drop 2 m) @ drop 4 (config_header e cc type n) @ drop 9 m)"
proof -
  obtain a b c d rest where m: "m = a # b # c # d # rest" "5 \<le> length rest"
    using assms by (auto simp: numeral_eq_Suc Suc_le_length_iff)
  show ?thesis
    by (rule that) (use m in \<open>auto simp: mem_write_def config_header_def le16_bytes_def numeral_eq_Suc\<close>)
qed

lemma header_length_write:
  assumes "length x = 2"
  shows "mem_write ([9, type] @ x @ drop 4 (config_header e cc type n) @ rest) 2 (le16_bytes (of_nat n)) =
         Some (config_header e cc type n @ rest)"
  using assms by (auto simp: mem_write_def config_header_def le16_bytes_def length_Suc_conv numeral_eq_Suc)

lemma opt_fill_cases:
  assumes "\<forall>d\<in>set (opt_list dso). wf_desc d" and "1024 \<le> length mem"
  shows "if 9 + descs_total (opt_list dso) \<le> 1024
    then (case dso of None \<Rightarrow> Some (Inr 9, mem)
          | Some ds \<Rightarrow> map_option (\<lambda>(st, m). (if st < 0 then Inl st else Inr (9 + nat st), m))
                         (usb_descriptor_fillbuf mem 9 (word_of_int (int 1024 - 9)) (Some ds))) =
         Some (Inr (9 + descs_total (opt_list dso)),
               take 9 mem @ concat (map desc_copy (opt_list dso)) @ drop (9 + descs_total (opt_list dso)) mem)
    else \<exists>m. (case dso of None \<Rightarrow> Some (Inr 9, mem)
          | Some ds \<Rightarrow> map_option (\<lambda>(st, m). (if st < 0 then Inl st else Inr (9 + nat st), m))
                         (usb_descriptor_fillbuf mem 9 (word_of_int (int 1024 - 9)) (Some ds))) =
         Some (Inl (- EINVAL), m) \<and> length m = length mem"
proof (cases dso)
  case None
  then show ?thesis by (simp add: opt_list_def)
next
  case (Some ds)
  have e: "int 1024 - 9 = 1024 - int 9" by simp
  have o: "opt_list dso = ds" using Some by (simp add: opt_list_def)
  note fill = fillbuf_cases [of ds 9 mem, unfolded e [symmetric]]
  show ?thesis
  proof (cases "9 + descs_total ds \<le> 1024")
    case True
    then have f: "usb_descriptor_fillbuf mem 9 (word_of_int (int 1024 - 9)) (Some ds) = Some (int (descs_total ds),
        take 9 mem @ concat (map desc_copy ds) @ drop (9 + descs_total ds) mem)"
      using fill assms o by simp
    show ?thesis unfolding o unfolding Some option.case f using True by simp
  next
    case False
    then obtain m where f: "usb_descriptor_fillbuf mem 9 (word_of_int (int 1024 - 9)) (Some ds) = Some (- EINVAL, m)"
        and m: "length m = length mem"
      using fill assms o by auto
    show ?thesis unfolding o unfolding Some option.case f using False m by simp
  qed
qed

lemma config_buf_cases:
  assumes "\<forall>d\<in>set (config_descs s c sp). wf_desc d" and "1024 \<le> length (req_buf s)"
  defines "n \<equiv> 9 + descs_total (config_descs s c sp)"
  shows "if n \<le> 1024
    then config_buf e s c sp type = Some (int n,
           config_header e (confs s c) type n @ concat (map desc_copy (config_descs s c sp)) @ drop n (req_buf s))
    else \<exists>m. config_buf e s c sp type = Some (- EINVAL, m) \<and> length m = length (req_buf s)"
proof -
  let ?cc = "confs s c" and ?buf = "req_buf s"
  let ?cds = "opt_list (c_descriptors ?cc)" and ?fds = "function_descs sp (map (funcs s) (c_functions ?cc))"
  have n: "n = 9 + descs_total ?cds + descs_total ?fds" by (simp add: n_def config_descs_def)
  have wf: "\<forall>d\<in>set ?cds. wf_desc d" "\<forall>d\<in>set ?fds. wf_desc d" using assms(1) by (auto simp: config_descs_def)
  define hdr where "hdr = drop 4 (config_header e ?cc type n)"
  define m2 where "m2 = [9, type] @ take 2 (drop 2 ?buf) @ hdr @ drop 9 ?buf"
  have hl: "length hdr = 5" by (simp add: hdr_def config_header_def)
  obtain m1 where w: "mem_write ?buf 0 [9, type] = Some m1" "mem_write m1 4 hdr = Some m2"
    using header_writes [of ?buf type e ?cc n] assms(2) unfolding hdr_def m2_def by auto
  have hdr: "hdr = [c_next_interface_id ?cc, c_value ?cc, c_iConfiguration ?cc, 0x80 OR c_bmAttributes ?cc,
      if c_bMaxPower ?cc \<noteq> 0 then c_bMaxPower ?cc else of_nat (VBUS_DRAW e div 2)]"
    by (simp add: hdr_def config_header_def le16_bytes_def)
  have l2: "length m2 = length ?buf" using assms(2) hl by (simp add: m2_def)
  note first = opt_fill_cases [OF wf(1), of m2]
  show ?thesis
  proof (cases "9 + descs_total ?cds \<le> 1024")
    case False
    with first l2 assms(2) n w show ?thesis
      unfolding config_buf_def Let_def hdr [symmetric] by auto
  next
    case True
    define m3 where "m3 = take 9 m2 @ concat (map desc_copy ?cds) @ drop (9 + descs_total ?cds) m2"
    have l3: "length m3 = length ?buf"
      using length_concat_desc_copy [OF wf(1)] True l2 assms(2) by (simp add: m3_def)
    have t9: "take 9 m2 = [9, type] @ take 2 (drop 2 ?buf) @ hdr"
      using assms(2) hl by (simp add: m2_def)
    have run: "config_buf e s c sp type =
       Option.bind (fill_functions sp (map (funcs s) (c_functions ?cc)) m3 (9 + descs_total ?cds)
           (int 1024 - int (9 + descs_total ?cds)))
         (\<lambda>(r', m4). case r' of Inl st \<Rightarrow> Some (st, m4)
            | Inr len \<Rightarrow> map_option (Pair (int len)) (mem_write m4 2 (le16_bytes (of_nat len))))"
      using first True l2 assms(2) w
      unfolding config_buf_def Let_def hdr [symmetric] m3_def by simp
    note second = fill_functions_spec [OF wf(2) True, of m3]
    show ?thesis
    proof (cases "n \<le> 1024")
      case fits: True
      have c1: "length (concat (map desc_copy ?cds)) = descs_total ?cds"
        by (rule length_concat_desc_copy [OF wf(1)])
      let ?rest = "concat (map desc_copy ?cds) @ concat (map desc_copy ?fds) @ drop n ?buf"
      have "take (9 + descs_total ?cds) m3 = take 9 m2 @ concat (map desc_copy ?cds)"
        using c1 l2 assms(2) by (simp add: m3_def)
      moreover have "drop n m3 = drop n ?buf"
        using c1 l2 assms(2) hl fits n by (simp add: m3_def m2_def drop_Cons' ac_simps)
      ultimately have f: "fill_functions sp (map (funcs s) (c_functions ?cc)) m3 (9 + descs_total ?cds)
           (int 1024 - int (9 + descs_total ?cds)) =
         Some (Inr n, [9, type] @ take 2 (drop 2 ?buf) @ hdr @ ?rest)"
        using second fits n l3 assms(2) t9 by simp
      have "mem_write ([9, type] @ take 2 (drop 2 ?buf) @ hdr @ ?rest) 2 (le16_bytes (of_nat n)) =
          Some (config_header e ?cc type n @ ?rest)"
        unfolding hdr_def by (rule header_length_write) (use assms(2) in simp)
      then show ?thesis using fits unfolding run f by (simp add: config_descs_def)
    next
      case over: False
      then obtain m4 where f: "fill_functions sp (map (funcs s) (c_functions ?cc)) m3 (9 + descs_total ?cds)
           (int 1024 - int (9 + descs_total ?cds)) = Some (Inl (- EINVAL), m4)" "length m4 = length m3"
        using second n l3 assms(2) by auto
      show ?thesis using over f(2) l3 unfolding run f(1) by simp
    qed
  qed
qed

text \<open>
  C21: The configuration descriptor. When the descriptors of a configuration and of its functions at
  the requested speed are well-formed and fit into the 1024-byte buffer, the host parses the reply
  into a header with the right total length followed by exactly these descriptors in order; when
  they do not fit, the request fails. No byte outside the buffer is touched in either case.
\<close>

theorem config_buf_parses:
  assumes "\<forall>d\<in>set (config_descs s c sp). exact_desc d" and "1024 \<le> length (req_buf s)"
    and "n = 9 + descs_total (config_descs s c sp)"
  shows "if n \<le> 1024
    then \<exists>m. config_buf e s c sp type = Some (int n, m) \<and> length m = length (req_buf s) \<and>
             parse_descs (take n m) = Some (config_header e (confs s c) type n # config_descs s c sp)
    else \<exists>m. config_buf e s c sp type = Some (- EINVAL, m) \<and> length m = length (req_buf s)"
proof -
  let ?ds = "config_descs s c sp" and ?h = "config_header e (confs s c) type n"
  have wf: "\<forall>d\<in>set ?ds. wf_desc d" and cp: "map desc_copy ?ds = ?ds"
    using assms(1) exact_desc_wf by (auto intro!: map_idI)
  have lh: "length ?h = 9" and eh: "exact_desc ?h" by (simp_all add: config_header_def exact_desc_def)
  have lc: "length (concat ?ds) = descs_total ?ds" using length_concat_desc_copy [OF wf] cp by simp
  show ?thesis
  proof (cases "n \<le> 1024")
    case True
    have "take n (?h @ concat ?ds @ drop n (req_buf s)) = concat (?h # ?ds)"
      using lh lc assms(3) by simp
    moreover have "parse_descs (concat (?h # ?ds)) = Some (?h # ?ds)"
      using parse_descs_concat [of "?h # ?ds"] assms(1) eh by simp
    ultimately show ?thesis
      using True config_buf_cases [OF wf assms(2), of e type] cp lh lc assms(2,3) by simp
  next
    case False
    then show ?thesis using config_buf_cases [OF wf assms(2), of e type] assms(3) by simp
  qed
qed

theorem config_buf_parses_witness:
  "\<exists>m. config_buf demo_env demo_dev 0 SPEED_FULL 2 = Some (25, m) \<and>
     parse_descs (take 25 m) = Some ([9, 2, 25, 0, 1, 1, 0, 0x80, 50] # demo_descs)"
proof -
  have d: "config_descs demo_dev 0 SPEED_FULL = demo_descs"
    by (simp add: demo_defs config_descs_def function_descs_def opt_list_def descriptors_at_def)
  have h: "config_header demo_env (confs demo_dev 0) 2 25 = [9, 2, 25, 0, 1, 1, 0, 0x80, 50]"
    by (simp add: demo_defs config_header_def le16_bytes_def)
  have "\<forall>d\<in>set demo_descs. exact_desc d" "25 = 9 + descs_total demo_descs" "1024 \<le> length (req_buf demo_dev)"
    by (simp_all add: demo_defs exact_desc_def)
  with config_buf_parses [of demo_dev 0 SPEED_FULL 25 demo_env 2] show ?thesis
    unfolding d h by auto
qed

section \<open>Number of configurations\<close>

lemma nth_config_filter:
  "nth_config cf hs cs w =
     (let l = filter (\<lambda>c. works_at hs (cf c)) cs in if w < length l then Some (l ! w) else None)"
  by (induction cs arbitrary: w) (auto simp: Let_def nth_Cons' less_Suc_eq_0_disj)

text \<open>
  The number of configurations in the device descriptor is the number of indices for which a
  configuration descriptor can be fetched, and the number in the device qualifier is the one for the
  other speed: an index is refused without touching the buffer exactly when it is not below it.
\<close>

theorem config_desc_index:
  fixes index :: u8
  assumes "type = USB_DT_CONFIG \<and> k = USB_DT_DEVICE \<or> type = USB_DT_OTHER_SPEED_CONFIG \<and> k = USB_DT_DEVICE_QUALIFIER"
    and "w_value = push_bit 8 (ucast type) OR ucast index"
  shows "(unat index \<ge> count_configs e s k \<longrightarrow> config_desc e w_value s = Some (- EINVAL, s)) \<and>
         (unat index < count_configs e s k \<longrightarrow>
           (\<exists>c\<in>set (configs s). \<exists>sp. config_desc e w_value s =
              map_option (\<lambda>(v, m). (v, s\<lparr>req_buf := m\<rparr>)) (config_buf e s c sp type)))"
proof -
  have t: "ucast (drop_bit 8 w_value) = type"
    unfolding assms(2) by (rule u8_eqI) (simp add: bitwise)
  have "w_value AND 0xff = ucast index"
    unfolding assms(2) by (rule u16_eqI) (simp add: bitwise)
  then have i: "unat (w_value AND 0xff) = unat index"
    by simp
  define hs where "hs = (is_dual e \<and> ((gspeed s = SPEED_HIGH) \<noteq> (type = USB_DT_OTHER_SPEED_CONFIG)))"
  let ?l = "filter (\<lambda>c. works_at hs (confs s c)) (configs s)"
  have k: "count_configs e s k = length ?l"
    using assms(1) by (auto simp: count_configs_def Let_def hs_def)
  have "config_desc e w_value s =
      (if unat index < length ?l
       then map_option (\<lambda>(v, m). (v, s\<lparr>req_buf := m\<rparr>)) (config_buf e s (?l ! unat index)
              (if hs then SPEED_HIGH else SPEED_UNKNOWN) type)
       else Some (- EINVAL, s))"
    unfolding config_desc_def t i Let_def hs_def [symmetric] nth_config_filter by simp
  then show ?thesis
    unfolding k using nth_mem [of "unat index" ?l] by auto
qed

theorem config_desc_index_witness:
  "config_desc demo_env 0x0201 demo_dev = Some (- EINVAL, demo_dev) \<and> count_configs demo_env demo_dev 1 = 1"
proof -
  have "push_bit 8 (ucast (2 :: u8)) OR ucast (1 :: u8) = (0x0201 :: u16)" by code_simp
  moreover have "count_configs demo_env demo_dev 1 = 1" by (simp add: count_configs_def demo_defs works_at_def)
  ultimately show ?thesis
    using config_desc_index [of 2 1 "0x0201" 1 demo_env demo_dev] by simp
qed

section \<open>The language list\<close>

text \<open>The table as a list of languages followed by free entries, and the languages of some tables.\<close>

definition lang_table :: "u16 list \<Rightarrow> u16 list" where
  "lang_table ls = ls @ replicate (127 - length ls) 0"

definition add_langs :: "usb_gadget_strings list \<Rightarrow> u16 list \<Rightarrow> u16 list" where
  "add_langs tabs = fold (\<lambda>t ls. if language t \<in> set ls then ls else ls @ [language t]) tabs"

lemma lang_slot_table:
  assumes "0 \<notin> set ls" and "k + length ls \<le> 126" and "0 < m"
  shows "lang_slot (ls @ replicate m 0) lang k = (if lang \<in> set ls then None else Some (k + length ls))"
  using assms by (induction ls arbitrary: k) (auto simp: gr0_conv_Suc)

lemma add_langs_mono: "length ls \<le> length (add_langs tabs ls)"
proof (induction tabs arbitrary: ls)
  case (Cons t tabs)
  show ?case using Cons [of ls] Cons [of "ls @ [language t]"] by (simp add: add_langs_def)
qed (simp add: add_langs_def)

lemma collect_langs_table:
  assumes "0 \<notin> set ls" and "\<forall>t\<in>set tabs. language t \<noteq> 0" and "length (add_langs tabs ls) \<le> 126"
  shows "collect_langs tabs (lang_table ls) = lang_table (add_langs tabs ls) \<and> 0 \<notin> set (add_langs tabs ls)"
  using assms
proof (induction tabs arbitrary: ls)
  case Nil
  then show ?case by (simp add: add_langs_def)
next
  case (Cons t tabs)
  let ?ls = "if language t \<in> set ls then ls else ls @ [language t]"
  have a: "add_langs (t # tabs) ls = add_langs tabs ?ls" by (simp add: add_langs_def)
  have ih: "collect_langs tabs (lang_table ?ls) = lang_table (add_langs tabs ?ls) \<and> 0 \<notin> set (add_langs tabs ?ls)"
    using Cons.prems a by (intro Cons.IH) auto
  have len: "length ?ls \<le> 126" using add_langs_mono [of ?ls tabs] Cons.prems(3) a by simp
  have "collect_langs (t # tabs) (lang_table ls) = collect_langs tabs (lang_table ?ls)"
  proof (cases "language t \<in> set ls")
    case True
    with len Cons.prems(1) show ?thesis
      using lang_slot_table [of ls 0 "127 - length ls" "language t"] by (simp add: lang_table_def)
  next
    case False
    then have "length ls < 126" using len by simp
    then have r: "replicate (127 - length ls) 0 = (0::u16) # replicate (126 - length ls) 0"
      by (simp flip: replicate_Suc add: Suc_diff_le)
    with False Cons.prems(1) \<open>length ls < 126\<close> show ?thesis
      using lang_slot_table [of ls 0 "127 - length ls" "language t"]
      by (simp add: lang_table_def list_update_append)
  qed
  with ih a show ?case by simp
qed

lemma add_langs_append: "add_langs (xs @ ys) ls = add_langs ys (add_langs xs ls)"
  by (simp add: add_langs_def)

lemma collect_all_langs:
  assumes "0 \<notin> set ls" and "\<forall>t\<in>set (concat ts). language t \<noteq> 0" and "length (add_langs (concat ts) ls) \<le> 126"
  shows "fold collect_langs ts (lang_table ls) = lang_table (add_langs (concat ts) ls) \<and>
         0 \<notin> set (add_langs (concat ts) ls)"
  using assms
proof (induction ts arbitrary: ls)
  case Nil
  then show ?case by (simp add: add_langs_def)
next
  case (Cons t ts)
  have c: "add_langs (concat (t # ts)) ls = add_langs (concat ts) (add_langs t ls)"
    by (simp add: add_langs_append)
  have "length (add_langs t ls) \<le> 126"
    using add_langs_mono [of "add_langs t ls" "concat ts"] Cons.prems(3) c by simp
  then have "collect_langs t (lang_table ls) = lang_table (add_langs t ls)" "0 \<notin> set (add_langs t ls)"
    using collect_langs_table [of ls t] Cons.prems by auto
  then show ?case using Cons.IH [of "add_langs t ls"] Cons.prems c by simp
qed

lemma add_langs_set: "set (add_langs tabs ls) = set ls \<union> language ` set tabs"
  unfolding add_langs_def by (induction tabs arbitrary: ls) auto

lemma add_langs_distinct: "distinct ls \<Longrightarrow> distinct (add_langs tabs ls)"
  unfolding add_langs_def by (induction tabs arbitrary: ls) auto

text \<open>
  String descriptor zero. With at least one and at most 126 different language codes in the
  string tables of the driver, the configurations and the functions, the reply lists each code
  exactly once, and its length byte covers exactly that list.
\<close>

theorem get_string_languages:
  assumes "\<forall>t\<in>set (concat (string_tables e s)). language t \<noteq> 0" and "concat (string_tables e s) \<noteq> []"
    and "card (language ` set (concat (string_tables e s))) \<le> 126" and "256 \<le> length (req_buf s)"
  shows "\<exists>ls m. get_string e s lang 0 = Some (2 * int (length ls) + 2, m) \<and> length m = length (req_buf s) \<and>
           decode_string_desc (take (2 * length ls + 2) m) = Some ls \<and>
           distinct ls \<and> set ls = language ` set (concat (string_tables e s))"
proof -
  define ls where "ls = add_langs (concat (string_tables e s)) []"
  have s: "set ls = language ` set (concat (string_tables e s))" "distinct ls"
    unfolding ls_def by (simp_all add: add_langs_set add_langs_distinct)
  have len: "length ls \<le> 126" "ls \<noteq> []"
    using assms(2,3) s distinct_card [OF s(2)] by auto
  have "replicate 127 0 = lang_table []" by (simp add: lang_table_def)
  then have wd: "fold collect_langs (string_tables e s) (replicate 127 0) = lang_table ls" and nz: "0 \<notin> set ls"
    using collect_all_langs [of "[]" "string_tables e s"] assms(1) len by (simp_all add: ls_def)
  have tw: "takeWhile (\<lambda>w. w \<noteq> 0) (lang_table ls) = ls"
    using nz by (auto simp: lang_table_def takeWhile_append)
  define b :: u8 where "b = of_nat (2 * (length ls + 1))"
  have ub: "unat b = 2 * length ls + 2"
    using len unfolding b_def by (simp only: unat_of_nat) (simp add: take_bit_eq_mod)
  define body where "body = concat (map le16_bytes (lang_table ls))"
  have lb: "length body = 254"
    using len by (simp add: body_def length_concat comp_def sum_list_triv lang_table_def sum_list_replicate)
  have w1: "mem_write (req_buf s) 0 ([0, 3] @ body) = Some ([0, 3] @ body @ drop 256 (req_buf s))"
    using lb assms(4) by (simp add: mem_write_def)
  have w2: "mem_write ([0, 3] @ body @ drop 256 (req_buf s)) 0 [b] = Some ([b, 3] @ body @ drop 256 (req_buf s))"
    by (simp add: mem_write_def)
  have run: "get_string e s lang 0 = Some (uint b, [b, 3] @ body @ drop 256 (req_buf s))"
    using len(2) w2 unfolding get_string_def Let_def wd tw body_def [symmetric] w1 b_def [symmetric] by simp
  have "take (2 * length ls) body = concat (map le16_bytes ls)"
    by (simp add: body_def lang_table_def length_concat comp_def sum_list_triv)
  then have "decode_string_desc (take (2 * length ls + 2) ([b, 3] @ body @ drop 256 (req_buf s))) = Some ls"
    using ub lb len by (simp add: decode_string_desc_def)
  moreover have "uint b = 2 * int (length ls) + 2" using ub by (metis of_nat_add of_nat_mult of_nat_numeral of_nat_unat)
  ultimately show ?thesis
    using run s lb assms(4) by (intro exI [of _ ls] exI [of _ "[b, 3] @ body @ drop 256 (req_buf s)"]) simp
qed

theorem get_string_languages_witness:
  "\<exists>m. get_string demo_env demo_dev 0 0 = Some (4, m) \<and> decode_string_desc (take 4 m) = Some [0x0409]"
proof -
  have "\<exists>ls m. get_string demo_env demo_dev 0 0 = Some (2 * int (length ls) + 2, m) \<and>
      length m = length (req_buf demo_dev) \<and> decode_string_desc (take (2 * length ls + 2) m) = Some ls \<and>
      distinct ls \<and> set ls = language ` set (concat (string_tables demo_env demo_dev))"
    by (rule get_string_languages) (simp_all add: string_tables_def demo_defs Let_def)
  then obtain ls m where r: "get_string demo_env demo_dev 0 0 = Some (2 * int (length ls) + 2, m)"
      "decode_string_desc (take (2 * length ls + 2) m) = Some ls" "distinct ls" "set ls = {0x0409}"
    by (auto simp: string_tables_def demo_defs Let_def)
  from r(3,4) have "length ls = 1" using distinct_card [of ls] by simp
  with r(4) have "ls = [0x0409]" by (cases ls) auto
  with r show ?thesis by auto
qed

end
