(* ===== verification/CompositeConf.thy ===== *)
theory CompositeConf
  imports CompositeDesc
begin

text \<open>
  Selecting a configuration and dispatching requests: what \<open>set_config\<close> does to functions and
  endpoints, which function a request reaches, and the invariant of a device under any sequence of
  events from the bus.
\<close>

section \<open>Endpoint bitmaps\<close>

text \<open>The endpoint indices a list of descriptors announces.\<close>

definition ep_set :: "bytes list \<Rightarrow> nat set" where
  "ep_set ds = {unat (ep_index (d ! 2)) | d. d \<in> set ds \<and> 3 \<le> length d \<and> d ! 1 = USB_DT_ENDPOINT}"

lemma ep_index_bound: "unat (ep_index a) < 32"
proof -
  have "ep_index a AND 0x1f = ep_index a"
    unfolding ep_index_def by (rule u8_eqI) (simp add: bitwise)
  then show ?thesis
    using unat_and_mask_less [of "ep_index a" "0x1f"] by simp
qed

lemma bit_single: "i < 32 \<Longrightarrow> bit (2 ^ i :: u32) k \<longleftrightarrow> k = i"
  by (auto simp: bit_exp_iff)

lemma ep_set_Cons:
  "ep_set (d # ds) = (if 3 \<le> length d \<and> d ! 1 = USB_DT_ENDPOINT
                      then insert (unat (ep_index (d ! 2))) (ep_set ds) else ep_set ds)"
  by (auto simp: ep_set_def)

lemma record_endpoints_bits:
  assumes "record_endpoints ds eps = Some eps'"
  shows "bit eps' k \<longleftrightarrow> bit eps k \<or> k \<in> ep_set ds"
  using assms
proof (induction ds eps rule: record_endpoints.induct)
  case (1 eps)
  then show ?case by (simp add: ep_set_def)
next
  case (2 d ds eps)
  obtain bl ty rest where d: "d = bl # ty # rest"
    using "2.prems" by (auto split: list.splits)
  show ?case
  proof (cases "ty = USB_DT_ENDPOINT")
    case False
    moreover have "ep_set (d # ds) = ep_set ds" using False d by (simp add: ep_set_Cons)
    ultimately show ?thesis using 2 d by simp
  next
    case True
    then obtain a rest' where r: "rest = a # rest'" using "2.prems" d by (cases rest) auto
    have "ep_set (d # ds) = insert (unat (ep_index a)) (ep_set ds)"
      using True d r by (simp add: ep_set_Cons)
    then show ?thesis using 2 True d r by (auto simp: bit_or_iff bit_single ep_index_bound)
  qed
qed

lemma record_endpoints_total:
  assumes "\<forall>d\<in>set ds. 2 \<le> length d \<and> (d ! 1 = USB_DT_ENDPOINT \<longrightarrow> 3 \<le> length d)"
  shows "\<exists>eps'. record_endpoints ds eps = Some eps'"
  using assms
proof (induction ds eps rule: record_endpoints.induct)
  case (2 d ds eps)
  then obtain bl ty rest where "d = bl # ty # rest"
    by (cases d; cases "tl d") auto
  with 2 show ?case by (auto split: list.splits)
qed simp

section \<open>Resetting a configuration\<close>

text \<open>The identifiers and the text of the strings that module parameters override.\<close>

definition overrides :: "usb_composite_dev \<Rightarrow> u8 \<times> u8 \<times> u8 \<times> bytes" where
  "overrides s = (manufacturer_override s, product_override s, serial_override s, composite_manufacturer s)"

lemma overrides_update [simp]:
  "overrides (s\<lparr>funcs := x0\<rparr>) = overrides s" "overrides (s\<lparr>confs := x1\<rparr>) = overrides s"
  "overrides (s\<lparr>configs := x2\<rparr>) = overrides s" "overrides (s\<lparr>cur_config := x3\<rparr>) = overrides s"
  "overrides (s\<lparr>gadget := x4\<rparr>) = overrides s" "overrides (s\<lparr>epnum := x5\<rparr>) = overrides s"
  "overrides (s\<lparr>gspeed := x6\<rparr>) = overrides s" "overrides (s\<lparr>next_string_id := x7\<rparr>) = overrides s"
  "overrides (s\<lparr>deactivations := x8\<rparr>) = overrides s" "overrides (s\<lparr>delayed_status := x9\<rparr>) = overrides s"
  "overrides (s\<lparr>is_suspended := x10\<rparr>) = overrides s" "overrides (s\<lparr>desc := x11\<rparr>) = overrides s"
  "overrides (s\<lparr>req_buf := x12\<rparr>) = overrides s" "overrides (s\<lparr>req_length := x13\<rparr>) = overrides s"
  "overrides (s\<lparr>req_zero := x14\<rparr>) = overrides s" "overrides (s\<lparr>calls := x15\<rparr>) = overrides s"
  by (simp_all add: overrides_def)

lemma do_ext_simps [simp]:
  "overrides (snd (do_ext e c s)) = overrides s"
  "calls (snd (do_ext e c s)) = calls s @ [c]" "funcs (snd (do_ext e c s)) = funcs s"
  "confs (snd (do_ext e c s)) = confs s" "configs (snd (do_ext e c s)) = configs s"
  "cur_config (snd (do_ext e c s)) = cur_config s" "gspeed (snd (do_ext e c s)) = gspeed s"
  "req_buf (snd (do_ext e c s)) = req_buf s" "delayed_status (snd (do_ext e c s)) = delayed_status s"
  by (simp_all add: do_ext_def)

lemma upd_func_simps [simp]:
  "overrides (upd_func f u s) = overrides s"
  "funcs (upd_func f u s) = (funcs s)(f := u (funcs s f))" "confs (upd_func f u s) = confs s"
  "configs (upd_func f u s) = configs s" "cur_config (upd_func f u s) = cur_config s"
  "gspeed (upd_func f u s) = gspeed s" "req_buf (upd_func f u s) = req_buf s" "calls (upd_func f u s) = calls s"
  "delayed_status (upd_func f u s) = delayed_status s"
  by (simp_all add: upd_func_def)

text \<open>The parts of a function that never change once it is bound.\<close>

definition func_static :: "usb_function \<Rightarrow> usb_function" where
  "func_static f = f\<lparr>f_endpoints := 0\<rparr>"

lemma disable_all_simps:
  "confs (disable_all e fs s) = confs s \<and> configs (disable_all e fs s) = configs s \<and>
   cur_config (disable_all e fs s) = cur_config s \<and> gspeed (disable_all e fs s) = gspeed s \<and>
   overrides (disable_all e fs s) = overrides s \<and>
   req_buf (disable_all e fs s) = req_buf s \<and> delayed_status (disable_all e fs s) = delayed_status s"
  by (induction fs arbitrary: s) (simp_all add: Let_def)

lemma disable_all_funcs:
  "funcs (disable_all e fs s) f = (if f \<in> set fs then (funcs s f)\<lparr>f_endpoints := 0\<rparr> else funcs s f)"
  by (induction fs arbitrary: s) (auto simp: Let_def)

lemma disable_all_calls:
  assumes "\<forall>f\<in>set fs. f_has_disable (funcs s f)"
  shows "calls (disable_all e fs s) = calls s @ map FDisable fs"
  using assms by (induction fs arbitrary: s) (auto simp: Let_def)

text \<open>States that differ only in calls, counters, endpoint bitmaps and the current configuration.\<close>

definition frame :: "usb_composite_dev \<Rightarrow> usb_composite_dev \<Rightarrow> bool" where
  "frame s s' \<longleftrightarrow> confs s' = confs s \<and> configs s' = configs s \<and> gspeed s' = gspeed s \<and> req_buf s' = req_buf s \<and>
     overrides s' = overrides s \<and> (\<forall>f. func_static (funcs s' f) = func_static (funcs s f))"

lemma frame_refl [simp]: "frame s s"
  by (simp add: frame_def)

lemma frame_trans: "frame s s' \<Longrightarrow> frame s' s'' \<Longrightarrow> frame s s''"
  by (simp add: frame_def)

lemma func_static_endpoints [simp]: "func_static (f\<lparr>f_endpoints := x\<rparr>) = func_static f"
  by (simp add: func_static_def)

lemma frame_do_ext [simp]: "frame s (snd (do_ext e c s))"
  by (simp add: frame_def)

lemma frame_endpoints [simp]: "frame s (upd_func f (\<lambda>ff. ff\<lparr>f_endpoints := x\<rparr>) s)"
  by (simp add: frame_def)

lemma frame_static:
  assumes "frame s s'"
  shows "descriptors_at sp (funcs s' f) = descriptors_at sp (funcs s f)"
    and "f_has_disable (funcs s' f) = f_has_disable (funcs s f)"
    and "f_has_set_alt (funcs s' f) = f_has_set_alt (funcs s f)"
    and "f_has_setup (funcs s' f) = f_has_setup (funcs s f)"
proof -
  have "func_static (funcs s' f) = func_static (funcs s f)" using assms by (simp add: frame_def)
  note eqs = this [THEN arg_cong [of _ _ f_descriptors]] this [THEN arg_cong [of _ _ f_hs_descriptors]]
    this [THEN arg_cong [of _ _ f_has_disable]] this [THEN arg_cong [of _ _ f_has_set_alt]]
    this [THEN arg_cong [of _ _ f_has_setup]]
  show "descriptors_at sp (funcs s' f) = descriptors_at sp (funcs s f)"
    "f_has_disable (funcs s' f) = f_has_disable (funcs s f)"
    "f_has_set_alt (funcs s' f) = f_has_set_alt (funcs s f)"
    "f_has_setup (funcs s' f) = f_has_setup (funcs s f)"
    using eqs by (simp_all add: func_static_def descriptors_at_def)
qed

lemma frame_reset_config:
  assumes "reset_config e s = Some s'"
  shows "frame s s' \<and> cur_config s' = None \<and> delayed_status s' = delayed_status s"
  using assms disable_all_simps [of e _ s] disable_all_funcs [of e _ s]
  by (auto simp: reset_config_def frame_def split: option.splits)

section \<open>The interface loop\<close>

fun set_alts :: "nat option list \<Rightarrow> nat \<Rightarrow> call list" where
  "set_alts (Some f # xs) i = FSetAlt f i 0 # set_alts xs (Suc i)"
| "set_alts _ i = []"

fun intf_funcs :: "nat option list \<Rightarrow> nat set" where
  "intf_funcs (Some f # xs) = insert f (intf_funcs xs)"
| "intf_funcs _ = {}"

text \<open>The endpoints a function has at the current speed.\<close>

definition func_eps :: "usb_composite_dev \<Rightarrow> nat \<Rightarrow> nat set" where
  "func_eps s f = ep_set (the (descriptors_at (gspeed s) (funcs s f)))"

lemma init_interfaces_spec:
  assumes "init_interfaces e n c tmp r0 s = Some (r, s')" and "0 \<le> r0" and "cur_config s = Some c"
    and "n + tmp = length (c_interface (confs s c))"
  shows "frame s s' \<and>
    (if r < 0 then cur_config s' = None \<and> (\<forall>f\<in>set (c_functions (confs s c)). f_endpoints (funcs s' f) = 0) \<and>
       (\<forall>f. f \<notin> intf_funcs (drop tmp (c_interface (confs s c))) \<and> f \<notin> set (c_functions (confs s c)) \<longrightarrow>
            f_endpoints (funcs s' f) = f_endpoints (funcs s f))
     else cur_config s' = Some c \<and>
       calls s' = calls s @ set_alts (drop tmp (c_interface (confs s c))) tmp \<and>
       (\<forall>f k. bit (f_endpoints (funcs s' f)) k \<longleftrightarrow> bit (f_endpoints (funcs s f)) k \<or>
          f \<in> intf_funcs (drop tmp (c_interface (confs s c))) \<and> k \<in> func_eps s f))"
  using assms
proof (induction n arbitrary: tmp r0 s)
  case 0
  then show ?case by simp
next
  case (Suc n)
  let ?tab = "c_interface (confs s c)"
  have lt: "tmp < length ?tab" using Suc.prems(4) by simp
  have dr: "drop tmp ?tab = ?tab ! tmp # drop (Suc tmp) ?tab"
    using lt by (rule Cons_nth_drop_Suc [symmetric])
  show ?case
  proof (cases "?tab ! tmp")
    case None
    with Suc.prems lt dr show ?thesis by auto
  next
    case (Some f)
    obtain ds eps where ds: "descriptors_at (gspeed s) (funcs s f) = Some ds"
        and eps: "record_endpoints ds (f_endpoints (funcs s f)) = Some eps"
      using Suc.prems(1) lt Some by (auto split: if_splits)
    define s1 where "s1 = upd_func f (\<lambda>ff. ff\<lparr>f_endpoints := eps\<rparr>) s"
    define r1 where "r1 = fst (do_ext e (FSetAlt f tmp 0) s1)"
    define s2 where "s2 = snd (do_ext e (FSetAlt f tmp 0) s1)"
    have fr: "frame s s2" unfolding s2_def s1_def by (rule frame_trans [OF frame_endpoints frame_do_ext])
    have run: "(if r1 < 0 then map_option (Pair r1) (reset_config e s2)
        else init_interfaces e n c (Suc tmp) r1
          (if r1 = DELAYED_STATUS e then s2\<lparr>delayed_status := delayed_status s2 + 1\<rparr> else s2)) = Some (r, s')"
      using Suc.prems(1) lt Some ds eps
      unfolding s2_def r1_def s1_def by (simp add: Let_def case_prod_unfold split: if_splits)
    have s2: "confs s2 = confs s" "cur_config s2 = Some c" "gspeed s2 = gspeed s"
        "calls s2 = calls s @ [FSetAlt f tmp 0]" "funcs s2 = (funcs s)(f := (funcs s f)\<lparr>f_endpoints := eps\<rparr>)"
      using Suc.prems(3) by (simp_all add: s2_def s1_def)
    show ?thesis
    proof (cases "r1 < 0")
      case True
      with run have rs: "reset_config e s2 = Some s'" and r: "r = r1" by auto
      have f': "funcs s' g = (if g \<in> set (c_functions (confs s c)) then (funcs s2 g)\<lparr>f_endpoints := 0\<rparr> else funcs s2 g)" for g
        using rs s2 by (auto simp: reset_config_def disable_all_funcs)
      show ?thesis
        using frame_reset_config [OF rs] frame_trans [OF fr] True r f' s2(5) dr Some by auto
    next
      case False
      define s3 where "s3 = (if r1 = DELAYED_STATUS e then s2\<lparr>delayed_status := delayed_status s2 + 1\<rparr> else s2)"
      have s3: "confs s3 = confs s" "cur_config s3 = Some c" "gspeed s3 = gspeed s"
          "calls s3 = calls s2" "funcs s3 = funcs s2" "frame s s3"
        using s2 fr by (simp_all add: s3_def frame_def)
      have fe: "func_eps s3 g = func_eps s g" for g
        using frame_static(1) [OF s3(6)] s3(3) by (simp add: func_eps_def)
      have bits: "bit (f_endpoints (funcs s3 g)) k \<longleftrightarrow> bit (f_endpoints (funcs s g)) k \<or> g = f \<and> k \<in> func_eps s f" for g k
        using record_endpoints_bits [OF eps] ds s3(5) s2(5) by (auto simp: func_eps_def)
      have rec: "init_interfaces e n c (Suc tmp) r1 s3 = Some (r, s')"
        using run False by (simp add: s3_def)
      have ih: "frame s3 s' \<and>
        (if r < 0 then cur_config s' = None \<and> (\<forall>f\<in>set (c_functions (confs s c)). f_endpoints (funcs s' f) = 0) \<and>
           (\<forall>f. f \<notin> intf_funcs (drop (Suc tmp) ?tab) \<and> f \<notin> set (c_functions (confs s c)) \<longrightarrow>
                f_endpoints (funcs s' f) = f_endpoints (funcs s3 f))
         else cur_config s' = Some c \<and> calls s' = calls s3 @ set_alts (drop (Suc tmp) ?tab) (Suc tmp) \<and>
           (\<forall>f k. bit (f_endpoints (funcs s' f)) k \<longleftrightarrow> bit (f_endpoints (funcs s3 f)) k \<or>
              f \<in> intf_funcs (drop (Suc tmp) ?tab) \<and> k \<in> func_eps s f))"
        using Suc.IH [OF rec _ s3(2)] False Suc.prems(4) s3(1) fe by simp
      have dr': "intf_funcs (drop tmp ?tab) = insert f (intf_funcs (drop (Suc tmp) ?tab))"
          "set_alts (drop tmp ?tab) tmp = FSetAlt f tmp 0 # set_alts (drop (Suc tmp) ?tab) (Suc tmp)"
        using dr Some by simp_all
      show ?thesis
        using ih bits frame_trans [OF s3(6)] s3(4,5) s2(4,5) unfolding dr' by (auto split: if_splits)
    qed
  qed
qed

section \<open>The invariant of a bound device\<close>

text \<open>The configurations are properly set up: tables of the right size that mention own functions only.\<close>

definition conf_ok :: "comp_env \<Rightarrow> usb_composite_dev \<Rightarrow> nat \<Rightarrow> bool" where
  "conf_ok e s c \<longleftrightarrow> length (c_interface (confs s c)) = MAX_CONFIG_INTERFACES e \<and>
     (\<forall>f. Some f \<in> set (c_interface (confs s c)) \<longrightarrow> f \<in> set (c_functions (confs s c))) \<and>
     (\<forall>f\<in>set (c_functions (confs s c)). f_has_disable (funcs s f) \<and> f_has_set_alt (funcs s f))"

text \<open>
  The current configuration is one of the device's, and an endpoint is marked only for a function of
  the current configuration that has it.
\<close>

definition comp_inv :: "comp_env \<Rightarrow> usb_composite_dev \<Rightarrow> bool" where
  "comp_inv e s \<longleftrightarrow> 1024 \<le> length (req_buf s) \<and>
     (\<forall>c\<in>set (configs s). conf_ok e s c) \<and>
     (\<forall>c. cur_config s = Some c \<longrightarrow> c \<in> set (configs s)) \<and>
     (\<forall>f k. bit (f_endpoints (funcs s f)) k \<longrightarrow>
        (\<exists>c. cur_config s = Some c \<and> f \<in> set (c_functions (confs s c)) \<and> k \<in> func_eps s f))"

lemma intf_funcs_subset: "intf_funcs xs \<subseteq> {f. Some f \<in> set xs}"
  by (induction xs rule: intf_funcs.induct) auto

lemma frame_conf_ok: "frame s s' \<Longrightarrow> conf_ok e s' c = conf_ok e s c"
  using frame_static(2,3) [of s s'] by (simp add: conf_ok_def frame_def)

lemma frame_func_eps: "frame s s' \<Longrightarrow> func_eps s' f = func_eps s f"
  using frame_static(1) [of s s' "gspeed s" f] by (simp add: func_eps_def frame_def)

lemma reset_config_clears:
  assumes "comp_inv e s" and "reset_config e s = Some s'"
  shows "f_endpoints (funcs s' f) = 0"
proof -
  obtain c where c: "cur_config s = Some c" using assms(2) by (auto simp: reset_config_def split: option.splits)
  have f': "funcs s' f = (if f \<in> set (c_functions (confs s c)) then (funcs s f)\<lparr>f_endpoints := 0\<rparr> else funcs s f)"
    using assms(2) c by (auto simp: reset_config_def disable_all_funcs)
  have "\<not> bit (f_endpoints (funcs s f)) k" if "f \<notin> set (c_functions (confs s c))" for k
    using assms(1) c that by (auto simp: comp_inv_def)
  then have "f_endpoints (funcs s f) = 0" if "f \<notin> set (c_functions (confs s c))"
    using that by (intro bit_word_eqI) simp
  with f' show ?thesis by simp
qed

text \<open>Leaving the current configuration, if there is one.\<close>

definition leave :: "comp_env \<Rightarrow> usb_composite_dev \<Rightarrow> usb_composite_dev option" where
  "leave e s = (if cur_config s \<noteq> None then reset_config e s else Some s)"

lemma leave_spec:
  assumes "comp_inv e s"
  obtains s1 where "leave e s = Some s1" and "frame s s1" and "cur_config s1 = None"
    and "\<forall>f. f_endpoints (funcs s1 f) = 0" and "delayed_status s1 = delayed_status s"
    and "calls s1 = calls s @ (case cur_config s of None \<Rightarrow> [] | Some c \<Rightarrow> map FDisable (c_functions (confs s c)))"
    and "comp_inv e s1"
proof (cases "cur_config s")
  case None
  then have "\<not> bit (f_endpoints (funcs s f)) k" for f k using assms by (auto simp: comp_inv_def)
  then have "f_endpoints (funcs s f) = 0" for f by (intro bit_word_eqI) simp
  with None assms show ?thesis by (intro that [of s]) (simp_all add: leave_def)
next
  case (Some c)
  then obtain s1 where s1: "reset_config e s = Some s1" by (simp add: reset_config_def)
  note fr = frame_reset_config [OF s1]
  have "\<forall>f\<in>set (c_functions (confs s c)). f_has_disable (funcs s f)"
    using assms Some by (auto simp: comp_inv_def conf_ok_def)
  then have calls: "calls s1 = calls s @ map FDisable (c_functions (confs s c))"
    using s1 Some disable_all_calls by (auto simp: reset_config_def)
  have z: "\<forall>f. f_endpoints (funcs s1 f) = 0" using reset_config_clears [OF assms s1] by blast
  have "comp_inv e s1"
    using assms fr z frame_conf_ok [of s s1 e] by (auto simp: comp_inv_def frame_def)
  with s1 fr calls z Some show ?thesis by (intro that [of s1]) (simp_all add: leave_def)
qed

lemma vbus_draw_done_simps [simp]:
  "overrides (snd (vbus_draw_done e p r s)) = overrides s"
  "funcs (snd (vbus_draw_done e p r s)) = funcs s" "confs (snd (vbus_draw_done e p r s)) = confs s"
  "configs (snd (vbus_draw_done e p r s)) = configs s" "cur_config (snd (vbus_draw_done e p r s)) = cur_config s"
  "gspeed (snd (vbus_draw_done e p r s)) = gspeed s" "req_buf (snd (vbus_draw_done e p r s)) = req_buf s"
  "calls (snd (vbus_draw_done e p r s)) = calls s @ [VbusDraw p]"
  "r < 0 \<Longrightarrow> fst (vbus_draw_done e p r s) = r"
  by (simp_all add: vbus_draw_done_def Let_def)

lemma vbus_draw_done_frame [simp]: "frame s (snd (vbus_draw_done e p r s))"
  by (simp add: frame_def)

lemma vbus_draw_done_result: "0 \<le> DELAYED_STATUS e \<Longrightarrow> 0 \<le> r \<Longrightarrow> 0 \<le> fst (vbus_draw_done e p r s)"
  by (simp add: vbus_draw_done_def Let_def)

section \<open>Setting a configuration\<close>

definition wanted :: "usb_composite_dev \<Rightarrow> nat \<Rightarrow> nat option" where
  "wanted s number = (if number = 0 then None
                      else find (\<lambda>c. unat (c_value (confs s c)) = number) (configs s))"

definition disable_calls :: "usb_composite_dev \<Rightarrow> call list" where
  "disable_calls s = (case cur_config s of None \<Rightarrow> [] | Some c \<Rightarrow> map FDisable (c_functions (confs s c)))"

definition config_power :: "comp_env \<Rightarrow> usb_configuration \<Rightarrow> nat" where
  "config_power e cc = (if c_bMaxPower cc \<noteq> 0 then 2 * unat (c_bMaxPower cc) else VBUS_DRAW e)"

lemma set_config_unwanted:
  assumes "comp_inv e s" and "wanted s number = None" and "set_config e number s = Some (r, s')"
  shows "frame s s' \<and> comp_inv e s' \<and> cur_config s' = None \<and> (\<forall>f. f_endpoints (funcs s' f) = 0) \<and>
         (number \<noteq> 0 \<longrightarrow> r = - EINVAL) \<and>
         calls s' = calls s @ disable_calls s @ [VbusDraw (if is_otg e then 8 else 100)]"
proof -
  from assms(1) obtain s1 where s1: "leave e s = Some s1" "frame s s1" "cur_config s1 = None"
      "\<forall>f. f_endpoints (funcs s1 f) = 0" "calls s1 = calls s @ disable_calls s" "comp_inv e s1"
    by (rule leave_spec) (simp_all add: disable_calls_def)
  let ?p = "if is_otg e then 8 else 100" and ?r = "if number = 0 then 0 else - EINVAL"
  have "number = 0 \<or> find (\<lambda>c. unat (c_value (confs s1 c)) = number) (configs s1) = None"
    using assms(2) s1(2) by (auto simp: wanted_def frame_def split: if_splits)
  then have run: "set_config e number s = Some (vbus_draw_done e ?p ?r s1)"
    using s1(1) by (auto simp: set_config_def leave_def Let_def)
  then have e: "vbus_draw_done e ?p ?r s1 = (r, s')" using assms(3) by simp
  have s': "s' = snd (vbus_draw_done e ?p ?r s1)" and r: "r = fst (vbus_draw_done e ?p ?r s1)"
    unfolding e by simp_all
  have "frame s s'" unfolding s' by (rule frame_trans [OF s1(2) vbus_draw_done_frame])
  moreover have "comp_inv e s'"
    using s1(3,4,6) frame_conf_ok [OF vbus_draw_done_frame, of e] unfolding s' by (simp add: comp_inv_def)
  ultimately show ?thesis using s1 r unfolding s' by simp
qed

lemma set_config_wanted:
  assumes "comp_inv e s" and "wanted s number = Some c" and "set_config e number s = Some (r, s')"
    and "0 \<le> DELAYED_STATUS e"
  shows "frame s s' \<and> comp_inv e s' \<and> c \<in> set (configs s) \<and>
         (if r < 0 then cur_config s' = None \<and> (\<forall>f. f_endpoints (funcs s' f) = 0)
          else cur_config s' = Some c \<and>
               calls s' = calls s @ disable_calls s @ set_alts (c_interface (confs s c)) 0 @
                          [VbusDraw (config_power e (confs s c))] \<and>
               (\<forall>f k. bit (f_endpoints (funcs s' f)) k \<longleftrightarrow>
                  f \<in> intf_funcs (c_interface (confs s c)) \<and> k \<in> func_eps s f))"
proof -
  from assms(1) obtain s1 where s1: "leave e s = Some s1" "frame s s1" "cur_config s1 = None"
      "\<forall>f. f_endpoints (funcs s1 f) = 0" "calls s1 = calls s @ disable_calls s" "comp_inv e s1"
    by (rule leave_spec) (simp_all add: disable_calls_def)
  have nz: "number \<noteq> 0" and fnd: "find (\<lambda>c. unat (c_value (confs s1 c)) = number) (configs s1) = Some c"
    using assms(2) s1(2) by (auto simp: wanted_def frame_def split: if_splits)
  have c: "c \<in> set (configs s)" using fnd s1(2) by (auto simp: find_Some_iff frame_def)
  have ok: "conf_ok e s c" using assms(1) c by (simp add: comp_inv_def)
  define s2 where "s2 = s1\<lparr>cur_config := Some c\<rparr>"
  have s2: "frame s s2" "calls s2 = calls s1" "funcs s2 = funcs s1" "cur_config s2 = Some c"
    using s1(2) by (simp_all add: s2_def frame_def)
  have cf: "confs s2 = confs s" using s2(1) by (simp add: frame_def)
  obtain r3 s3 where loop: "init_interfaces e (MAX_CONFIG_INTERFACES e) c 0 0 s2 = Some (r3, s3)"
      and res: "(r, s') = (if r3 < 0 then vbus_draw_done e (if is_otg e then 8 else 100) r3 s3
                           else vbus_draw_done e (config_power e (confs s3 c)) r3 s3)"
    using assms(3) s1(1) nz fnd
    by (auto simp: set_config_def leave_def Let_def s2_def config_power_def split: if_splits)
  have len: "MAX_CONFIG_INTERFACES e + 0 = length (c_interface (confs s2 c))"
    using ok cf by (simp add: conf_ok_def)
  note spec = init_interfaces_spec [OF loop _ s2(4) len, unfolded cf, simplified]
  have fr3: "frame s s3" using spec frame_trans [OF s2(1)] by blast
  have z2: "\<not> bit (f_endpoints (funcs s2 f)) k" for f k using s1(4) s2(3) by simp
  show ?thesis
  proof (cases "r3 < 0")
    case True
    then have s': "s' = snd (vbus_draw_done e (if is_otg e then 8 else 100) r3 s3)" and r: "r = r3"
      using res [symmetric] by (metis snd_conv, metis fst_conv vbus_draw_done_simps(9))
    have own: "intf_funcs (c_interface (confs s c)) \<subseteq> set (c_functions (confs s c))"
      using ok intf_funcs_subset [of "c_interface (confs s c)"] by (auto simp: conf_ok_def)
    have "f_endpoints (funcs s3 f) = 0" for f
      using spec True own s1(4) s2(3) by (cases "f \<in> set (c_functions (confs s c))") auto
    then have z: "\<forall>f. f_endpoints (funcs s' f) = 0" "cur_config s' = None" using spec True unfolding s' by simp_all
    have fr: "frame s s'" unfolding s' by (rule frame_trans [OF fr3 vbus_draw_done_frame])
    have "comp_inv e s'"
      using assms(1) z fr frame_conf_ok [OF fr, of e] by (simp add: comp_inv_def frame_def)
    with fr c z r True show ?thesis by simp
  next
    case False
    then have e: "vbus_draw_done e (config_power e (confs s3 c)) r3 s3 = (r, s')" using res by simp
    have s': "s' = snd (vbus_draw_done e (config_power e (confs s3 c)) r3 s3)"
      and r: "0 \<le> r" using vbus_draw_done_result [OF assms(4), of r3 "config_power e (confs s3 c)" s3] False
      unfolding e by simp_all
    have fr: "frame s s'" unfolding s' by (rule frame_trans [OF fr3 vbus_draw_done_frame])
    have fe: "func_eps s2 f = func_eps s f" for f by (rule frame_func_eps [OF s2(1)])
    have bits: "\<forall>f k. bit (f_endpoints (funcs s' f)) k \<longleftrightarrow>
        f \<in> intf_funcs (c_interface (confs s c)) \<and> k \<in> func_eps s f" and cur: "cur_config s' = Some c"
      using spec False z2 fe unfolding s' by simp_all
    have calls: "calls s' = calls s @ disable_calls s @ set_alts (c_interface (confs s c)) 0 @
        [VbusDraw (config_power e (confs s c))]"
      using spec False s1(5) s2(2) fr3 unfolding s' by (simp add: frame_def)
    have own: "intf_funcs (c_interface (confs s c)) \<subseteq> set (c_functions (confs s c))"
      using ok intf_funcs_subset [of "c_interface (confs s c)"] by (auto simp: conf_ok_def)
    have "comp_inv e s'"
      using assms(1) fr frame_conf_ok [OF fr, of e] frame_func_eps [OF fr] bits cur own c
      by (auto simp: comp_inv_def frame_def)
    with fr c bits cur calls r show ?thesis by simp
  qed
qed

text \<open>
  C4: SET_CONFIGURATION. The functions of the configuration that is left are disabled first. If the
  wanted configuration exists and all its interfaces accept, it is current, every interface has been
  set to altsetting 0 in order, the power of that configuration is drawn, and each endpoint is marked
  for exactly the functions that have it. In every other case the device is unconfigured and no
  endpoint is marked.
\<close>

theorem set_config_spec:
  assumes "comp_inv e s" and "set_config e number s = Some (r, s')" and "0 \<le> DELAYED_STATUS e"
  shows "comp_inv e s' \<and>
         (case wanted s number of
            None \<Rightarrow> cur_config s' = None \<and> (\<forall>f. f_endpoints (funcs s' f) = 0) \<and>
                    (number \<noteq> 0 \<longrightarrow> r = - EINVAL) \<and>
                    calls s' = calls s @ disable_calls s @ [VbusDraw (if is_otg e then 8 else 100)]
          | Some c \<Rightarrow>
              if r < 0 then cur_config s' = None \<and> (\<forall>f. f_endpoints (funcs s' f) = 0)
              else cur_config s' = Some c \<and>
                   calls s' = calls s @ disable_calls s @ set_alts (c_interface (confs s c)) 0 @
                              [VbusDraw (config_power e (confs s c))] \<and>
                   (\<forall>f k. bit (f_endpoints (funcs s' f)) k \<longleftrightarrow>
                      f \<in> intf_funcs (c_interface (confs s c)) \<and> k \<in> func_eps s f))"
  using set_config_unwanted [OF assms(1) _ assms(2)] set_config_wanted [OF assms(1) _ assms(2,3)]
  by (cases "wanted s number") simp_all

lemma demo_inv: "comp_inv demo_env demo_dev"
  by (auto simp: comp_inv_def conf_ok_def demo_defs)

lemma demo_eps: "func_eps demo_dev 0 = {17}"
  by (simp add: func_eps_def demo_defs descriptors_at_def ep_set_Cons ep_index_def) (simp add: ep_set_def)

lemma demo_intf: "intf_funcs (c_interface (confs demo_dev 0)) = {0}"
  by (simp add: demo_defs numeral_eq_Suc)

lemma demo_set_config: "\<exists>s'. set_config demo_env 1 demo_dev = Some (0, s')"
  by (simp add: set_config_def demo_defs descriptors_at_def numeral_eq_Suc Let_def do_ext_def upd_func_def
      vbus_draw_done_def)

theorem set_config_spec_witness:
  "\<exists>s'. set_config demo_env 1 demo_dev = Some (0, s') \<and> cur_config s' = Some 0 \<and>
     calls s' = [FSetAlt 0 0 0, VbusDraw 100] \<and> bit (f_endpoints (funcs s' 0)) 17"
proof -
  obtain s' where run: "set_config demo_env 1 demo_dev = Some (0, s')" using demo_set_config by blast
  have w: "wanted demo_dev 1 = Some 0" by (simp add: wanted_def demo_defs)
  have d: "0 \<le> DELAYED_STATUS demo_env" by (simp add: demo_defs)
  have x: "disable_calls demo_dev = []" "set_alts (c_interface (confs demo_dev 0)) 0 = [FSetAlt 0 0 0]"
      "config_power demo_env (confs demo_dev 0) = 100" "0 \<in> intf_funcs (c_interface (confs demo_dev 0))"
      "calls demo_dev = []"
    by (simp_all add: disable_calls_def config_power_def demo_defs numeral_eq_Suc)
  show ?thesis using set_config_spec [OF demo_inv run d] run w x demo_eps by simp
qed

section \<open>Dispatch of requests to endpoints\<close>

lemma ep_index_request:
  "unat (drop_bit 3 (ucast a AND 0x80) OR (ucast a AND 0x0f) :: u16) = unat (ep_index a)"
proof -
  have "drop_bit 3 (ucast a AND 0x80) OR (ucast a AND 0x0f) = (ucast (ep_index a) :: u16)"
    unfolding ep_index_def by (rule u16_eqI) (simp add: bitwise)
  then show ?thesis by (simp only: unat_ucast_u8_u16)
qed

lemma endpoint_not_standard:
  assumes "bRequestType ctrl AND 0x1f = USB_RECIP_ENDPOINT"
  shows "standard_request e ctrl s = Some (Inl (), s)"
proof -
  have "bRequestType ctrl \<noteq> 0x80" "bRequestType ctrl \<noteq> 0" "bRequestType ctrl \<noteq> 1" "bRequestType ctrl \<noteq> 0x80 OR 1"
    using assms by auto
  then show ?thesis by (simp add: standard_request_def Let_def)
qed

text \<open>
  Requests to an endpoint. After a configuration was selected, a request whose recipient is an
  endpoint that exactly one of its interface functions has goes to that function's setup callback
  and nowhere else.
\<close>

theorem endpoint_request_dispatch:
  assumes "comp_inv e s" and "set_config e number s = Some (r, s')" and "0 \<le> r" and "0 \<le> DELAYED_STATUS e"
    and "wanted s number = Some c" and "f \<in> intf_funcs (c_interface (confs s c))"
    and "unat (ep_index addr) \<in> func_eps s f"
    and "\<forall>g\<in>intf_funcs (c_interface (confs s c)). unat (ep_index addr) \<in> func_eps s g \<longrightarrow> g = f"
    and "bRequestType ctrl AND 0x1f = USB_RECIP_ENDPOINT" and "wIndex ctrl = ucast addr"
    and "f_has_setup (funcs s f)"
  shows "\<exists>s''. composite_setup e ctrl s' = Some (ext e (FSetup f ctrl) (calls s'), s'') \<and>
               calls s'' = calls s' @ [FSetup f ctrl]"
proof -
  let ?k = "unat (ep_index addr)" and ?t = "s'\<lparr>req_zero := False, req_length := 0\<rparr>"
  have spec: "frame s s'" "cur_config s' = Some c"
      "\<And>g k. bit (f_endpoints (funcs s' g)) k \<longleftrightarrow> g \<in> intf_funcs (c_interface (confs s c)) \<and> k \<in> func_eps s g"
      "c \<in> set (configs s)"
    using set_config_wanted [OF assms(1,5,2,4)] assms(3) by simp_all
  have own: "f \<in> set (c_functions (confs s c))"
    using assms(1,6) spec(4) intf_funcs_subset [of "c_interface (confs s c)"] by (auto simp: comp_inv_def conf_ok_def)
  have u: "bit (f_endpoints (funcs s' g)) ?k \<longleftrightarrow> g = f" for g
    using spec(3) assms(6-8) by blast
  have "find (\<lambda>g. bit (f_endpoints (funcs s' g)) ?k) (c_functions (confs s c)) = Some f"
    unfolding u using own by (rule find_eq_self)
  moreover have "unat (drop_bit 3 (wIndex ctrl AND 0x80) OR (wIndex ctrl AND 0x0f)) = ?k"
    unfolding assms(10) by (rule ep_index_request)
  ultimately have "request_function e ctrl ?t = Some (Some f)"
    using assms(9) spec(1,2) unfolding request_function_def Let_def by (simp add: frame_def)
  then show ?thesis
    using assms(9,11) frame_static(4) [OF spec(1), of f] endpoint_not_standard [OF assms(9)]
    by (simp add: composite_setup_def delegate_def do_ext_def)
qed

definition demo_request :: usb_ctrlrequest where
  "demo_request = \<lparr>bRequestType = 0x42, bRequest = 1, wValue = 0, wIndex = 0x81, wLength = 0\<rparr>"

theorem endpoint_request_dispatch_witness:
  "\<exists>s' s''. set_config demo_env 1 demo_dev = Some (0, s') \<and>
     composite_setup demo_env demo_request s' = Some (0, s'') \<and> calls s'' = calls s' @ [FSetup 0 demo_request]"
proof -
  obtain s' where run: "set_config demo_env 1 demo_dev = Some (0, s')" using demo_set_config by blast
  have e17: "ep_index 0x81 = 17" by code_simp
  have "\<exists>s''. composite_setup demo_env demo_request s' = Some (ext demo_env (FSetup 0 demo_request) (calls s'), s'') \<and>
      calls s'' = calls s' @ [FSetup 0 demo_request]"
    by (rule endpoint_request_dispatch [OF demo_inv run, of 0 0 "0x81"])
       (simp_all add: demo_eps demo_intf e17, simp_all add: wanted_def demo_defs demo_request_def)
  moreover have "ext demo_env (FSetup 0 demo_request) (calls s') = 0" by (simp add: demo_defs)
  ultimately show ?thesis using run by auto
qed

lemma endpoint_unconfigured_invalid:
  assumes "cur_config s = None" and "bRequestType ctrl AND 0x1f = USB_RECIP_ENDPOINT"
  shows "composite_setup e ctrl s = None"
  using endpoint_not_standard [OF assms(2)] assms
  by (simp add: composite_setup_def delegate_def request_function_def)

text \<open>
  While the device is unconfigured the list of functions is reached through a null pointer: any
  request whose recipient is an endpoint, such as CLEAR_FEATURE, is an invalid access.
\<close>

theorem endpoint_request_unconfigured:
  assumes "cur_config s = None" and "bRequestType ctrl AND 0x1f = USB_RECIP_ENDPOINT"
  shows "composite_setup e ctrl s = None"
  using assms by (rule endpoint_unconfigured_invalid)

theorem endpoint_request_unconfigured_witness:
  "composite_setup demo_env \<lparr>bRequestType = 2, bRequest = 1, wValue = 0, wIndex = 0x81, wLength = 0\<rparr> demo_dev = None"
  by (rule endpoint_request_unconfigured) (simp_all add: demo_defs)

end
