(* ===== verification/CompositeReqs.thy ===== *)
theory CompositeReqs
  imports CompositeConf
begin

text \<open>
  Control requests as a whole: on a properly bound device a request makes the framework leave its
  buffers or follow a null pointer only when it addresses an endpoint of an unconfigured device,
  replies respect the length the host asked for and lie inside the reply buffer, and the invariant
  of \<open>CompositeConf\<close> holds after any sequence of events from the bus.
\<close>

section \<open>Requests that only touch the reply buffer\<close>

definition quiet :: "usb_composite_dev \<Rightarrow> usb_composite_dev \<Rightarrow> bool" where
  "quiet s s' \<longleftrightarrow> funcs s' = funcs s \<and> confs s' = confs s \<and> configs s' = configs s \<and>
     cur_config s' = cur_config s \<and> gspeed s' = gspeed s \<and> overrides s' = overrides s \<and>
     length (req_buf s') = length (req_buf s)"

lemma quiet_inv: "quiet s s' \<Longrightarrow> comp_inv e s' = comp_inv e s"
  by (simp add: quiet_def comp_inv_def conf_ok_def func_eps_def)

lemma quiet_refl [simp]: "quiet s s"
  by (simp add: quiet_def)

lemma quiet_do_ext [simp]: "quiet s (snd (do_ext e c s))"
  by (simp add: quiet_def)

text \<open>
  What a function driver has to provide: descriptors at every speed that are long enough for their
  kind, and terminated strings.
\<close>

definition endpoint_descs_ok :: "bytes list \<Rightarrow> bool" where
  "endpoint_descs_ok ds \<longleftrightarrow> (\<forall>d\<in>set ds. 2 \<le> length d \<and> (d ! 1 = USB_DT_ENDPOINT \<longrightarrow> 3 \<le> length d))"

definition drivers_ok :: "comp_env \<Rightarrow> usb_composite_dev \<Rightarrow> bool" where
  "drivers_ok e s \<longleftrightarrow>
     (\<forall>c\<in>set (configs s). \<forall>sp. \<forall>d\<in>set (config_descs s c sp). wf_desc d) \<and>
     (\<forall>c\<in>set (configs s). \<forall>f\<in>set (c_functions (confs s c)). \<forall>sp.
        \<exists>ds. descriptors_at sp (funcs s f) = Some ds \<and> endpoint_descs_ok ds) \<and>
     (\<forall>t\<in>set (concat (string_tables e s)). terminated_table t) \<and>
     (\<forall>i str. override_string e s i = Some str \<longrightarrow> c_strlen str \<noteq> None)"

lemma lookup_string_ok:
  assumes "\<forall>t\<in>set ts. terminated_table t" and "256 \<le> length buf"
  shows "\<exists>r buf'. lookup_string ts buf lang i = Some (r, buf') \<and> length buf' = length buf \<and> r \<le> 254"
  using assms
proof (induction ts arbitrary: buf)
  case Nil
  then show ?case by simp
next
  case (Cons t ts)
  obtain r buf' where g: "usb_gadget_get_string t i buf = Some (r, buf')" "length buf' = length buf" "r \<le> 254"
    using usb_gadget_get_string_ok [of buf t i] Cons.prems by auto
  show ?case
    using Cons.IH [of buf] Cons.IH [of buf'] Cons.prems g by auto
qed

lemma lookup_tables_ok:
  assumes "\<forall>t\<in>set (concat ts). terminated_table t" and "256 \<le> length buf"
  shows "\<exists>r buf'. lookup_tables ts buf lang i = Some (r, buf') \<and> length buf' = length buf \<and> r \<le> 254"
  using assms
proof (induction ts arbitrary: buf)
  case Nil
  then show ?case by simp
next
  case (Cons t ts)
  obtain r buf' where g: "lookup_string t buf lang i = Some (r, buf')" "length buf' = length buf" "r \<le> 254"
    using lookup_string_ok [of t buf lang i] Cons.prems by auto
  show ?case
    using Cons.IH [of buf'] Cons.prems g by auto
qed

lemma length_collect_langs [simp]: "length (collect_langs ts buf) = length buf"
  by (induction ts arbitrary: buf) (simp_all split: option.split)

lemma length_fold_collect_langs [simp]: "length (fold collect_langs tss buf) = length buf"
  by (induction tss arbitrary: buf) simp_all

lemma uint_u8_le: "uint (b::u8) \<le> 255"
  using uint_lt2p [of b] by simp

lemma get_string_ok:
  assumes "drivers_ok e s" and "256 \<le> length (req_buf s)"
  shows "\<exists>r m. get_string e s lang i = Some (r, m) \<and> length m = length (req_buf s) \<and> r \<le> 255"
proof (cases "i = 0")
  case True
  define body where "body = concat (map le16_bytes (fold collect_langs (string_tables e s) (replicate 127 0)))"
  have "length body = 254" by (simp add: body_def length_concat comp_def sum_list_triv)
  then have w: "mem_write (req_buf s) 0 ([0, 3] @ body) = Some ([0, 3] @ body @ drop 256 (req_buf s))"
    using assms(2) by (simp add: mem_write_def)
  have w2: "mem_write ([0, 3] @ body @ drop 256 (req_buf s)) 0 [b] = Some ([b, 3] @ body @ drop 256 (req_buf s))" for b
    by (simp add: mem_write_def)
  show ?thesis
    using True assms(2) \<open>length body = 254\<close> uint_u8_le w2
    unfolding get_string_def Let_def body_def [symmetric] w by simp
next
  case False
  show ?thesis
  proof (cases "override_string e s i")
    case None
    with False show ?thesis
      using lookup_tables_ok [of "string_tables e s" "req_buf s" lang i] assms
      by (auto simp: get_string_def drivers_ok_def)
  next
    case (Some str)
    have "terminated_table \<lparr>language = lang, tab_strings = Some [\<lparr>str_id = 0xff, str_s = str\<rparr>]\<rparr>"
      using assms(1) Some by (auto simp: terminated_table_def drivers_ok_def)
    from usb_gadget_get_string_ok [OF assms(2) this, of "0xff"] False Some show ?thesis
      by (auto simp: get_string_def)
  qed
qed

section \<open>Lengths are kept\<close>

text \<open>Whatever is written into a buffer, its length stays the same.\<close>

definition keeps_len :: "nat \<Rightarrow> ('a \<times> 'b list) option \<Rightarrow> bool" where
  "keeps_len n x \<longleftrightarrow> (\<forall>r m. x = Some (r, m) \<longrightarrow> length m = n)"

lemma keeps_lenD: "keeps_len n x \<Longrightarrow> x = Some (r, m) \<Longrightarrow> length m = n"
  by (simp add: keeps_len_def)

lemma keeps_len_Some [simp]: "keeps_len n (Some p) \<longleftrightarrow> length (snd p) = n"
  by (cases p) (simp add: keeps_len_def)

lemma keeps_len_None [simp]: "keeps_len n None"
  by (simp add: keeps_len_def)

lemma keeps_len_write [simp]: "length mem = n \<Longrightarrow> keeps_len n (map_option (Pair v) (mem_write mem i bs))"
  by (auto simp: keeps_len_def dest: mem_write_length)

lemma keeps_len_bind_write:
  "(\<And>m. mem_write mem i bs = Some m \<Longrightarrow> length m = length mem \<Longrightarrow> keeps_len n (f m)) \<Longrightarrow>
   keeps_len n (Option.bind (mem_write mem i bs) f)"
  by (cases "mem_write mem i bs") (auto dest: mem_write_length)

lemma keeps_len_bind:
  "keeps_len n x \<Longrightarrow> (\<And>r m. length m = n \<Longrightarrow> keeps_len n' (f (r, m))) \<Longrightarrow> keeps_len n' (Option.bind x f)"
  by (cases x) (auto simp: keeps_len_def)

lemma keeps_len_map: "keeps_len n x \<Longrightarrow> keeps_len n (map_option (\<lambda>(r, m). (g r m, m)) x)"
  by (cases x) (auto simp: keeps_len_def)

lemma fillbuf_loop_length: "length mem = n \<Longrightarrow> keeps_len n (fillbuf_loop mem dest len ds)"
proof (induction mem dest len ds rule: fillbuf_loop.induct)
  case (3 mem dest buflen bl d src)
  show ?case
    using 3 by (auto simp: Let_def mem_read_def intro!: keeps_len_bind_write)
qed simp_all

lemma fillbuf_length: "length mem = n \<Longrightarrow> keeps_len n (usb_descriptor_fillbuf mem dest len ds)"
  by (auto simp: usb_descriptor_fillbuf_def split: option.split intro!: keeps_len_map fillbuf_loop_length)

lemma fill_functions_length: "length mem = n \<Longrightarrow> keeps_len n (fill_functions sp fs mem next len)"
proof (induction fs arbitrary: mem "next" len)
  case (Cons f fs)
  then show ?case
    by (auto split: option.split intro!: keeps_len_bind [OF fillbuf_length])
qed simp

lemma config_buf_length: "keeps_len (length (req_buf s)) (config_buf e s c sp type)"
  unfolding config_buf_def Let_def
  by (intro keeps_len_bind_write, rule keeps_len_bind [where n = "length (req_buf s)"])
     (auto split: option.split sum.split intro!: keeps_len_map fillbuf_length keeps_len_bind [OF fill_functions_length])

lemma get_string_length_i: "keeps_len (length buf) (usb_gadget_get_string t i buf)"
  by (auto simp: usb_gadget_get_string_def Let_def bind_map_option comp_def split: option.split prod.split
      intro!: keeps_len_bind_write) (auto simp: keeps_len_def Let_def dest!: mem_write_length)

lemma lookup_string_length: "length buf = n \<Longrightarrow> keeps_len n (lookup_string ts buf lang i)"
  by (induction ts arbitrary: buf) (auto intro!: keeps_len_bind [OF get_string_length_i])

lemma lookup_tables_length: "length buf = n \<Longrightarrow> keeps_len n (lookup_tables ts buf lang i)"
  by (induction ts arbitrary: buf) (auto intro!: keeps_len_bind [OF lookup_string_length])

lemma get_string_length: "keeps_len (length (req_buf s)) (get_string e s lang i)"
  unfolding get_string_def Let_def
  by (auto split: option.split intro!: keeps_len_bind_write lookup_tables_length)
     (use get_string_length_i [of "req_buf s"] in simp)

lemma config_desc_quiet:
  "config_desc e w s = Some (v, s') \<Longrightarrow> quiet s s' \<and> calls s' = calls s"
  by (auto simp: config_desc_def Let_def quiet_def split: option.splits dest!: keeps_lenD [OF config_buf_length])

lemma clip_le: "clip len v \<le> uint len" "clip len v \<le> max 0 v"
proof -
  show "clip len v \<le> uint len"
    by (simp add: clip_def min_def word_le_def) (meson order_trans uint_ge_0 not_le less_imp_le)
  have "uint (word_of_int v :: u16) \<le> v" if "0 \<le> v"
    using that by (simp add: uint_word_of_int zmod_le_nonneg_dividend)
  then show "clip len v \<le> max 0 v"
    by (auto simp: clip_def min_def word_le_def)
qed

lemma get_descriptor_quiet:
  assumes "get_descriptor e ctrl s = Some (v, s')"
  shows "quiet s s' \<and> calls s' = calls s \<and> v \<le> uint (wLength ctrl)"
proof -
  have neg: "- EOPNOTSUPP \<le> uint (wLength ctrl)" by (rule order_trans [OF _ uint_ge_0]) simp
  show ?thesis
    using assms neg
    by (auto simp: get_descriptor_def device_qual_def Let_def quiet_def min_def word_le_def clip_le
        split: if_splits dest!: mem_write_length config_desc_quiet keeps_lenD [OF get_string_length])
qed

section \<open>No request fails\<close>

lemma mem_write_ok: "n + length bs \<le> length mem \<Longrightarrow> \<exists>m. mem_write mem n bs = Some m"
  by (simp add: mem_write_def)

lemma config_desc_ok:
  assumes "comp_inv e s" and "drivers_ok e s"
  shows "\<exists>v s'. config_desc e w s = Some (v, s') \<and> v \<le> 1024"
proof -
  have "\<exists>v m. config_buf e s c sp type = Some (v, m) \<and> v \<le> 1024" if "c \<in> set (configs s)" for c sp type
    using config_buf_cases [of s c sp e type] assms that by (auto simp: drivers_ok_def comp_inv_def split: if_splits)
  moreover have "c \<in> set (configs s)" if "nth_config (confs s) hs (configs s) k = Some c" for hs k c
    using that nth_mem [of k "filter (\<lambda>c. works_at hs (confs s c)) (configs s)"]
    by (auto simp: nth_config_filter Let_def split: if_splits)
  ultimately show ?thesis
    unfolding config_desc_def Let_def by (fastforce split: option.split)
qed

lemma get_descriptor_ok:
  assumes "comp_inv e s" and "drivers_ok e s"
  shows "\<exists>v s'. get_descriptor e ctrl s = Some (v, s') \<and> v \<le> 1024"
proof -
  have "256 \<le> length (req_buf s)" using assms(1) by (simp add: comp_inv_def)
  then obtain r m where "get_string e s (wIndex ctrl) (uint (wValue ctrl AND 0xff)) = Some (r, m)" and r: "r \<le> 255"
    using get_string_ok [OF assms(2)] by blast
  moreover obtain v s' where "config_desc e (wValue ctrl) s = Some (v, s')" and v: "v \<le> 1024"
    using config_desc_ok [OF assms] by blast
  moreover have "length (device_bytes d) = 18" for d by (simp add: device_bytes_def)
  moreover have "clip (wLength ctrl) r \<le> 1024" "clip (wLength ctrl) v \<le> 1024"
    using clip_le(2) [of "wLength ctrl" r] clip_le(2) [of "wLength ctrl" v] r v by linarith+
  moreover have "uint (min (wLength ctrl) 18) \<le> 1024" "uint (min (wLength ctrl) 10) \<le> 1024"
    by (simp_all add: min_def word_le_def)
  ultimately show ?thesis
    using assms(1) mem_write_ok [of 0 _ "req_buf s"]
    by (auto simp: get_descriptor_def device_qual_def comp_inv_def Let_def mem_write_def)
qed

definition descs_ready :: "usb_composite_dev \<Rightarrow> nat \<Rightarrow> bool" where
  "descs_ready s c \<longleftrightarrow> (\<forall>f. Some f \<in> set (c_interface (confs s c)) \<longrightarrow>
     (\<exists>ds. descriptors_at (gspeed s) (funcs s f) = Some ds \<and> endpoint_descs_ok ds))"

lemma frame_descs_ready: "frame s s' \<Longrightarrow> descs_ready s' c = descs_ready s c"
  using frame_static(1) [of s s'] by (simp add: descs_ready_def frame_def)

lemma init_interfaces_ok:
  assumes "descs_ready s c" and "cur_config s = Some c" and "n + tmp = length (c_interface (confs s c))"
  shows "\<exists>r s'. init_interfaces e n c tmp r0 s = Some (r, s')"
  using assms
proof (induction n arbitrary: tmp r0 s)
  case 0
  then show ?case by simp
next
  case (Suc n)
  let ?tab = "c_interface (confs s c)"
  have lt: "tmp < length ?tab" using Suc.prems by simp
  show ?case
  proof (cases "?tab ! tmp")
    case None
    with lt show ?thesis by simp
  next
    case (Some f)
    then have "Some f \<in> set ?tab" using nth_mem [OF lt] by simp
    then obtain ds eps where ds: "descriptors_at (gspeed s) (funcs s f) = Some ds"
        and eps: "record_endpoints ds (f_endpoints (funcs s f)) = Some eps"
      using Suc.prems(1) record_endpoints_total unfolding descs_ready_def endpoint_descs_ok_def by blast
    define s1 where "s1 = upd_func f (\<lambda>ff. ff\<lparr>f_endpoints := eps\<rparr>) s"
    define s2 where "s2 = snd (do_ext e (FSetAlt f tmp 0) s1)"
    define r where "r = fst (do_ext e (FSetAlt f tmp 0) s1)"
    define s3 where "s3 = (if r = DELAYED_STATUS e then s2\<lparr>delayed_status := delayed_status s2 + 1\<rparr> else s2)"
    have s3: "frame s s3" "cur_config s3 = Some c" "cur_config s2 = Some c" "confs s3 = confs s"
      using Suc.prems(2) by (simp_all add: s3_def s2_def s1_def frame_def)
    have ih: "\<exists>r' s'. init_interfaces e n c (Suc tmp) r s3 = Some (r', s')"
      by (rule Suc.IH) (use Suc.prems s3 frame_descs_ready [OF s3(1)] in simp_all)
    have "init_interfaces e (Suc n) c tmp r0 s =
        (if r < 0 then map_option (Pair r) (reset_config e s2) else init_interfaces e n c (Suc tmp) r s3)"
      using lt Some ds eps unfolding s3_def s2_def r_def s1_def by (simp add: Let_def case_prod_unfold)
    with ih s3(3) show ?thesis by (simp add: reset_config_def)
  qed
qed

lemma drivers_ok_ready: "drivers_ok e s \<Longrightarrow> conf_ok e s c \<Longrightarrow> c \<in> set (configs s) \<Longrightarrow> descs_ready s c"
  by (auto simp: drivers_ok_def conf_ok_def descs_ready_def)

lemma set_config_ok:
  assumes "comp_inv e s" and "drivers_ok e s"
  shows "\<exists>r s'. set_config e number s = Some (r, s')"
proof -
  from assms(1) obtain s1 where s1: "leave e s = Some s1" "frame s s1" by (rule leave_spec)
  have "\<exists>r s'. init_interfaces e (MAX_CONFIG_INTERFACES e) c 0 0 (s1\<lparr>cur_config := Some c\<rparr>) = Some (r, s')"
    if "c \<in> set (configs s)" for c
  proof (rule init_interfaces_ok)
    have fr: "frame s (s1\<lparr>cur_config := Some c\<rparr>)" using s1(2) by (simp add: frame_def)
    have ok: "conf_ok e s c" using assms(1) that by (simp add: comp_inv_def)
    show "descs_ready (s1\<lparr>cur_config := Some c\<rparr>) c"
      unfolding frame_descs_ready [OF fr] by (rule drivers_ok_ready [OF assms(2) ok that])
    show "MAX_CONFIG_INTERFACES e + 0 = length (c_interface (confs (s1\<lparr>cur_config := Some c\<rparr>) c))"
      using ok s1(2) by (simp add: conf_ok_def frame_def)
  qed simp
  moreover have "c \<in> set (configs s)" if "find P (configs s1) = Some c" for P c
    using that s1(2) by (auto simp: find_Some_iff frame_def)
  ultimately have loop: "\<exists>r s'. init_interfaces e (MAX_CONFIG_INTERFACES e) c 0 0 (s1\<lparr>cur_config := Some c\<rparr>) = Some (r, s')"
    if "find (\<lambda>c. unat (c_value (confs s1 c)) = number) (configs s1) = Some c" for c
    using that by blast
  have pair: "\<exists>r s'. Some (vbus_draw_done e p r0 t) = Some (r, s')" for p r0 t by (simp add: surj_pair)
  show ?thesis
  proof (cases "number = 0 \<or> find (\<lambda>c. unat (c_value (confs s1 c)) = number) (configs s1) = None")
    case True
    with s1(1) show ?thesis by (auto simp: set_config_def leave_def Let_def pair)
  next
    case False
    then obtain c r s2 where "find (\<lambda>c. unat (c_value (confs s1 c)) = number) (configs s1) = Some c"
        "init_interfaces e (MAX_CONFIG_INTERFACES e) c 0 0 (s1\<lparr>cur_config := Some c\<rparr>) = Some (r, s2)"
      using loop by blast
    with False s1(1) show ?thesis
      unfolding set_config_def leave_def by (simp add: Let_def pair)
  qed
qed

section \<open>Replies\<close>

text \<open>The calls a request makes, beyond those made before.\<close>

definition new_calls :: "usb_composite_dev \<Rightarrow> usb_composite_dev \<Rightarrow> call list" where
  "new_calls s s' = drop (length (calls s)) (calls s')"

lemma interface_function_own:
  assumes "comp_inv e s" and "interface_function e s i = Some f"
  shows "f_has_set_alt (funcs s f)"
proof -
  obtain c where c: "cur_config s = Some c" "i < length (c_interface (confs s c))" "c_interface (confs s c) ! i = Some f"
    using assms(2) by (auto simp: interface_function_def split: option.splits if_splits)
  then have "Some f \<in> set (c_interface (confs s c))" by (metis nth_mem)
  with assms(1) c(1) show ?thesis by (auto simp: comp_inv_def conf_ok_def)
qed

definition queues_nothing :: "call list \<Rightarrow> bool" where
  "queues_nothing cs \<longleftrightarrow> (\<forall>d z. EpQueue d z \<notin> set cs)"

lemma queues_nothing_simps [simp]:
  "queues_nothing []" "queues_nothing [FGetAlt f i]" "queues_nothing [FSetup f ctrl]" "queues_nothing [CSetup c ctrl]"
  "queues_nothing [FSetAlt f i a]" "queues_nothing [FDisable f]" "queues_nothing [VbusDraw p]"
  "queues_nothing (cs @ cs') \<longleftrightarrow> queues_nothing cs \<and> queues_nothing cs'"
  by (auto simp: queues_nothing_def)

text \<open>The calls of an operation before the reply: none of them queues anything.\<close>

definition calls_only :: "usb_composite_dev \<Rightarrow> usb_composite_dev \<Rightarrow> bool" where
  "calls_only s s' \<longleftrightarrow> (\<exists>cs. calls s' = calls s @ cs \<and> queues_nothing cs)"

lemma calls_onlyI: "calls s' = calls s @ cs \<Longrightarrow> queues_nothing cs \<Longrightarrow> calls_only s s'"
  by (auto simp: calls_only_def)

lemma calls_only_same: "calls s' = calls s \<Longrightarrow> calls_only s s'"
  by (rule calls_onlyI [of _ _ "[]"]) simp_all

lemma calls_only_trans: "calls_only s s' \<Longrightarrow> calls_only s' s'' \<Longrightarrow> calls_only s s''"
  by (auto simp: calls_only_def)

lemma calls_only_do_ext: "queues_nothing [c] \<Longrightarrow> calls_only s (snd (do_ext e c s))"
  by (rule calls_onlyI [of _ _ "[c]"]) (simp_all add: do_ext_def)

lemma calls_only_disable_all: "calls_only s (disable_all e fs s)"
proof (induction fs arbitrary: s)
  case (Cons f fs)
  let ?t = "if f_has_disable (funcs s f) then snd (do_ext e (FDisable f) s) else s"
  have "calls_only s ?t" by (simp add: calls_only_do_ext calls_only_same)
  moreover have "calls_only ?t (upd_func f (\<lambda>ff. ff\<lparr>f_endpoints := 0\<rparr>) ?t)"
    by (rule calls_only_same) (simp add: upd_func_def)
  ultimately show ?case using Cons calls_only_trans unfolding disable_all.simps Let_def by blast
qed (simp add: calls_only_same)

lemma calls_only_reset: "reset_config e s = Some s' \<Longrightarrow> calls_only s s'"
  using calls_only_disable_all calls_only_trans [OF calls_only_disable_all calls_only_same]
  by (fastforce simp: reset_config_def split: option.splits)

text \<open>
  The contract of \<^verbatim>\<open>set_alt\<close>: zero for success, a negative error code, or the request to delay the status
  stage.
\<close>

definition alt_value :: "comp_env \<Rightarrow> int \<Rightarrow> bool" where
  "alt_value e v \<longleftrightarrow> v \<le> 0 \<or> v = DELAYED_STATUS e"

definition set_alt_contract :: "comp_env \<Rightarrow> bool" where
  "set_alt_contract e \<longleftrightarrow> (\<forall>f i a h. alt_value e (ext e (FSetAlt f i a) h))"

lemma set_interface_ok:
  assumes "comp_inv e s" and "set_alt_contract e"
  shows "\<exists>r s'. set_interface e ctrl s = Some (r, s') \<and> quiet s s' \<and> alt_value e r \<and> calls_only s s'"
proof (cases "interface_function e s (unat (wIndex ctrl AND 0xff))")
  case None
  then show ?thesis by (simp add: set_interface_def alt_value_def calls_only_same)
next
  case (Some f)
  let ?c = "FSetAlt f (unat (wIndex ctrl)) (unat (wValue ctrl))"
  have "calls_only s (s\<lparr>calls := calls s @ [?c]\<rparr>)" "calls_only s (s\<lparr>calls := calls s @ [?c], delayed_status := n\<rparr>)" for n
    by (rule calls_onlyI [of _ _ "[?c]"]; simp)+
  with Some interface_function_own [OF assms(1) Some] assms(2) show ?thesis
    by (simp add: set_interface_def do_ext_def quiet_def set_alt_contract_def)
qed

lemma init_interfaces_calls:
  assumes "init_interfaces e n c tmp r0 s = Some (r, s')" and "set_alt_contract e" and "alt_value e r0"
  shows "alt_value e r \<and> calls_only s s'"
  using assms
proof (induction n arbitrary: tmp r0 s)
  case 0
  then show ?case by (simp add: calls_only_same)
next
  case (Suc n)
  show ?case
  proof (cases "c_interface (confs s c) ! tmp")
    case None
    with Suc.prems show ?thesis by (auto simp: calls_only_same split: if_splits)
  next
    case (Some f)
    obtain eps where eps: "Option.bind (descriptors_at (gspeed s) (funcs s f))
        (\<lambda>ds. record_endpoints ds (f_endpoints (funcs s f))) = Some eps"
      using Suc.prems(1) Some by (auto simp: bind_eq_Some_conv split: if_splits)
    define s1 where "s1 = upd_func f (\<lambda>ff. ff\<lparr>f_endpoints := eps\<rparr>) s"
    define s2 where "s2 = snd (do_ext e (FSetAlt f tmp 0) s1)"
    define v where "v = fst (do_ext e (FSetAlt f tmp 0) s1)"
    define s3 where "s3 = (if v = DELAYED_STATUS e then s2\<lparr>delayed_status := delayed_status s2 + 1\<rparr> else s2)"
    have run: "(if v < 0 then map_option (Pair v) (reset_config e s2) else init_interfaces e n c (Suc tmp) v s3) = Some (r, s')"
      using Suc.prems(1) Some eps unfolding s3_def s2_def v_def s1_def
      by (auto simp: Let_def case_prod_unfold bind_eq_Some_conv split: if_splits)
    have v: "alt_value e v" using Suc.prems(2) by (simp add: v_def do_ext_def set_alt_contract_def)
    have "calls_only s s1" by (rule calls_only_same) (simp add: s1_def upd_func_def)
    moreover have "calls_only s1 s2" unfolding s2_def by (rule calls_only_do_ext) simp
    moreover have "calls_only s2 s3" by (rule calls_only_same) (simp add: s3_def)
    ultimately have "calls_only s s2" "calls_only s s3" using calls_only_trans by blast+
    with run v show ?thesis
      using Suc.IH [of "Suc tmp" v s3] Suc.prems(2) calls_only_reset [of e s2 s'] calls_only_trans
      by (auto split: if_splits)
  qed
qed

lemma vbus_draw_done_calls:
  "vbus_draw_done e p v s = (r, s') \<Longrightarrow> alt_value e v \<Longrightarrow> alt_value e r \<and> calls_only s s'"
  using calls_only_do_ext [of "VbusDraw p" s e] by (auto simp: vbus_draw_done_def Let_def alt_value_def split: if_splits)

lemma set_config_calls:
  assumes "set_config e number s = Some (r, s')" and "set_alt_contract e"
  shows "alt_value e r \<and> calls_only s s'"
proof -
  obtain s1 where s1: "(if cur_config s \<noteq> None then reset_config e s else Some s) = Some s1"
    using assms(1) by (auto simp: set_config_def Let_def bind_eq_Some_conv)
  then have c1: "calls_only s s1" using calls_only_reset by (auto simp: calls_only_same split: if_splits)
  have zero: "alt_value e 0" "alt_value e (- EINVAL)" by (simp_all add: alt_value_def)
  obtain p v t where "alt_value e v" "calls_only s1 t" "vbus_draw_done e p v t = (r, s')"
  proof (cases "number = 0 \<or> find (\<lambda>c. unat (c_value (confs s1 c)) = number) (configs s1) = None")
    case True
    with assms(1) s1 zero that calls_only_same [of s1 s1] show ?thesis
      by (auto simp: set_config_def Let_def split: if_splits)
  next
    case False
    then obtain c where c: "number \<noteq> 0" "find (\<lambda>c. unat (c_value (confs s1 c)) = number) (configs s1) = Some c" by auto
    let ?u = "s1\<lparr>cur_config := Some c\<rparr>"
    obtain v t where loop: "init_interfaces e (MAX_CONFIG_INTERFACES e) c 0 0 ?u = Some (v, t)"
      using assms(1) s1 c by (auto simp: set_config_def Let_def bind_eq_Some_conv)
    have "alt_value e v" "calls_only ?u t" using init_interfaces_calls [OF loop assms(2) zero(1)] by simp_all
    moreover have "calls_only s1 ?u" by (rule calls_only_same) simp
    moreover have "vbus_draw_done e (if v < 0 then if is_otg e then 8 else 100 else config_power e (confs t c)) v t = (r, s')"
      using assms(1) c loop unfolding set_config_def s1
      by (cases "v < 0") (simp_all add: Let_def config_power_def)
    ultimately show ?thesis using that calls_only_trans by blast
  qed
  with c1 vbus_draw_done_calls [of e p v t r s'] show ?thesis using calls_only_trans by blast
qed

lemma get_interface_ok:
  assumes "comp_inv e s"
  shows "\<exists>r s'. get_interface e ctrl s = Some (r, s') \<and> quiet s s' \<and> r \<le> uint (wLength ctrl) \<and> r \<le> 1 \<and> calls_only s s'"
proof -
  have w: "\<exists>m. mem_write (req_buf s) 0 [b] = Some m \<and> length m = length (req_buf s)" for b
    using assms mem_write_ok [of 0 "[b]" "req_buf s"] mem_write_length by (fastforce simp: comp_inv_def)
  have n: "v \<le> uint (wLength ctrl)" if "v < 0" for v
    using that uint_ge_0 [of "wLength ctrl"] by linarith
  have neg: "- EOPNOTSUPP \<le> uint (wLength ctrl)" by (rule n) simp
  have one: "uint (min (wLength ctrl) 1) \<le> uint (wLength ctrl)" "uint (min (wLength ctrl) 1) \<le> 1"
    by (simp_all add: min_def word_le_def)
  show ?thesis
  proof (cases "interface_function e s (unat (wIndex ctrl AND 0xff))")
    case None
    then show ?thesis using neg by (simp add: get_interface_def calls_only_same)
  next
    case (Some f)
    define s1 where "s1 = (if f_has_get_alt (funcs s f) then snd (do_ext e (FGetAlt f (unat (wIndex ctrl))) s) else s)"
    define v where "v = (if f_has_get_alt (funcs s f) then fst (do_ext e (FGetAlt f (unat (wIndex ctrl))) s) else 0)"
    obtain m where m: "mem_write (req_buf s) 0 [word_of_int v] = Some m" "length m = length (req_buf s)" using w by blast
    have q: "quiet s s1" "req_buf s1 = req_buf s" by (simp_all add: s1_def)
    have c: "calls_only s s1" by (simp add: s1_def calls_only_do_ext calls_only_same)
    have c': "calls_only s (s1\<lparr>req_buf := m\<rparr>)" by (rule calls_only_trans [OF c calls_only_same]) simp
    have "get_interface e ctrl s =
        (if v < 0 then Some (v, s1) else Some (uint (min (wLength ctrl) 1), s1\<lparr>req_buf := m\<rparr>))"
      using Some m(1) by (cases "f_has_get_alt (funcs s f)") (simp_all add: get_interface_def s1_def v_def Let_def case_prod_unfold)
    then show ?thesis using n q c c' m(2) one by (simp add: quiet_def)
  qed
qed

text \<open>The outcome of a standard request on a device that satisfies the invariant.\<close>

lemma set_config_inv:
  assumes "comp_inv e s" and "0 \<le> DELAYED_STATUS e" and "set_config e number s = Some (r, s')"
  shows "frame s s' \<and> comp_inv e s'"
  using set_config_unwanted [OF assms(1) _ assms(3)] set_config_wanted [OF assms(1) _ assms(3,2)]
  by (cases "wanted s number") auto

text \<open>
  What a step may change: the configurations, the tables and the static parts of the functions stay.
\<close>

definition keeps :: "usb_composite_dev \<Rightarrow> usb_composite_dev \<Rightarrow> bool" where
  "keeps s s' \<longleftrightarrow> confs s' = confs s \<and> configs s' = configs s \<and> length (req_buf s') = length (req_buf s) \<and>
     (\<forall>f. func_static (funcs s' f) = func_static (funcs s f)) \<and> overrides s' = overrides s"

lemma keeps_refl [simp]: "keeps s s"
  by (simp add: keeps_def)

lemma keeps_trans: "keeps s s' \<Longrightarrow> keeps s' s'' \<Longrightarrow> keeps s s''"
  by (simp add: keeps_def)

lemma keeps_drivers_ok:
  assumes "keeps s s'" and "drivers_ok e s"
  shows "drivers_ok e s'"
proof -
  have st: "func_static (funcs s' f) = func_static (funcs s f)" for f using assms(1) by (simp add: keeps_def)
  have d: "descriptors_at sp (funcs s' f) = descriptors_at sp (funcs s f)" for sp f
    using st [of f, THEN arg_cong [of _ _ f_descriptors]] st [of f, THEN arg_cong [of _ _ f_hs_descriptors]]
    by (simp add: func_static_def descriptors_at_def)
  have "f_strings (funcs s' f) = f_strings (funcs s f)" for f
    using st [of f, THEN arg_cong [of _ _ f_strings]] by (simp add: func_static_def)
  then have "string_tables e s' = string_tables e s"
    using assms(1) by (simp add: string_tables_def keeps_def)
  moreover have "override_string e s' i = override_string e s i" for i
    using assms(1) by (simp add: override_string_def keeps_def overrides_def)
  moreover have "config_descs s' c sp = config_descs s c sp" for c sp
    using assms(1) d by (simp add: config_descs_def function_descs_def keeps_def comp_def)
  ultimately show ?thesis
    using assms d by (simp add: drivers_ok_def keeps_def)
qed

lemma quiet_keeps: "quiet s s' \<Longrightarrow> keeps s s'"
  by (simp add: quiet_def keeps_def)

lemma frame_keeps: "frame s s' \<Longrightarrow> keeps s s'"
  by (simp add: frame_def keeps_def)

text \<open>
  The outcome of a standard request: the invariant is kept, nothing is queued before the reply, and
  the value is an error, the request to delay the status stage, or the length of a reply that is no
  more than the host asked for and lies inside the buffer.
\<close>

definition reply_ok :: "comp_env \<Rightarrow> usb_ctrlrequest \<Rightarrow> int \<Rightarrow> bool" where
  "reply_ok e ctrl v \<longleftrightarrow> v = DELAYED_STATUS e \<or> v \<le> uint (wLength ctrl) \<and> v \<le> 1024"

lemma alt_value_reply: "alt_value e v \<Longrightarrow> reply_ok e ctrl v"
  using uint_ge_0 [of "wLength ctrl"] unfolding alt_value_def reply_ok_def by linarith

definition settles :: "comp_env \<Rightarrow> usb_ctrlrequest \<Rightarrow> usb_composite_dev \<Rightarrow> (int \<times> usb_composite_dev) option \<Rightarrow> bool" where
  "settles e ctrl s x \<longleftrightarrow>
     (\<exists>v s'. x = Some (v, s') \<and> comp_inv e s' \<and> keeps s s' \<and> reply_ok e ctrl v \<and> calls_only s s')"

lemma settles_quiet:
  assumes "comp_inv e s" and "x = Some (v, s')" and "quiet s s'" and "reply_ok e ctrl v" and "calls_only s s'"
  shows "settles e ctrl s x"
  using assms quiet_inv [OF assms(3)] quiet_keeps [OF assms(3)] by (simp add: settles_def)

lemma get_configuration_settles:
  assumes "comp_inv e s"
  shows "settles e ctrl s (map_option (\<lambda>m. (uint (min (wLength ctrl) 1), s\<lparr>req_buf := m\<rparr>)) (mem_write (req_buf s) 0 [b]))"
proof -
  obtain m where m: "mem_write (req_buf s) 0 [b] = Some m"
    using assms mem_write_ok [of 0 "[b]" "req_buf s"] by (auto simp: comp_inv_def)
  then have "quiet s (s\<lparr>req_buf := m\<rparr>)" by (simp add: quiet_def mem_write_length)
  moreover have "reply_ok e ctrl (uint (min (wLength ctrl) 1))" by (simp add: reply_ok_def min_def word_le_def)
  ultimately show ?thesis using m by (intro settles_quiet [OF assms]) (auto intro: calls_only_same)
qed

lemma standard_request_settles:
  assumes "comp_inv e s" and "drivers_ok e s" and "0 \<le> DELAYED_STATUS e" and "set_alt_contract e"
  shows "standard_request e ctrl s = Some (Inl (), s) \<or>
         (\<exists>x. standard_request e ctrl s = map_option (\<lambda>(v, s'). (Inr v, s')) x \<and> settles e ctrl s x)"
proof -
  have a: "settles e ctrl s (get_descriptor e ctrl s)"
    using get_descriptor_ok [OF assms(1,2), of ctrl] get_descriptor_quiet [of e ctrl s]
    by (auto intro!: settles_quiet [OF assms(1)] calls_only_same simp: reply_ok_def)
  have b: "settles e ctrl s (set_config e n s)" for n
  proof -
    obtain r s' where r: "set_config e n s = Some (r, s')" using set_config_ok [OF assms(1,2)] by blast
    show ?thesis
      unfolding settles_def
      using r set_config_inv [OF assms(1,3) r] set_config_calls [OF r assms(4)] frame_keeps alt_value_reply by blast
  qed
  have c: "settles e ctrl s (set_interface e ctrl s)"
    using set_interface_ok [OF assms(1,4), of ctrl] settles_quiet [OF assms(1)] alt_value_reply by blast
  have d: "settles e ctrl s (get_interface e ctrl s)"
    using get_interface_ok [OF assms(1), of ctrl] by (auto intro!: settles_quiet [OF assms(1)] simp: reply_ok_def)
  show ?thesis
    unfolding standard_request_def Let_def
    using a b c d get_configuration_settles [OF assms(1)] by (auto split: if_split)
qed

section \<open>Whole requests\<close>

lemma request_function_ok:
  assumes "bRequestType ctrl AND 0x1f = USB_RECIP_ENDPOINT \<Longrightarrow> cur_config s \<noteq> None"
  shows "\<exists>fo. request_function e ctrl s = Some fo"
  using assms by (auto simp: request_function_def Let_def)

lemma delegate_ok:
  assumes "bRequestType ctrl AND 0x1f = USB_RECIP_ENDPOINT \<Longrightarrow> cur_config s \<noteq> None"
  shows "\<exists>r s'. delegate e ctrl s = Some (r, s') \<and> quiet s s' \<and> calls_only s s'"
proof -
  obtain fo where "request_function e ctrl s = Some fo" using request_function_ok [OF assms] by blast
  moreover have "calls_only s (s\<lparr>calls := calls s @ [FSetup f ctrl]\<rparr>)" for f
    by (rule calls_onlyI [of _ _ "[FSetup f ctrl]"]) simp_all
  moreover have "calls_only s (s\<lparr>calls := calls s @ [CSetup c ctrl]\<rparr>)" for c
    by (rule calls_onlyI [of _ _ "[CSetup c ctrl]"]) simp_all
  ultimately show ?thesis
    by (auto simp: delegate_def do_ext_def quiet_def intro: calls_only_same split: option.split)
qed

text \<open>What the framework itself queued between two states: the start of the buffer, with the flag for a short reply.\<close>

definition replies_ok :: "usb_ctrlrequest \<Rightarrow> usb_composite_dev \<Rightarrow> usb_composite_dev \<Rightarrow> bool" where
  "replies_ok ctrl s s' \<longleftrightarrow>
     (\<forall>d z. EpQueue d z \<in> set (new_calls s s') \<longrightarrow>
        length d \<le> unat (wLength ctrl) \<and> d = take (length d) (req_buf s') \<and> (z \<longleftrightarrow> length d < unat (wLength ctrl)))"

lemma calls_only_replies: "calls_only s s' \<Longrightarrow> replies_ok ctrl s s'"
  by (auto simp: calls_only_def replies_ok_def new_calls_def queues_nothing_def)

lemma respond_ok_composite:
  assumes "reply_ok e ctrl v" and "1024 \<le> length (req_buf s1)" and "calls_only s s1"
  shows "\<exists>r s'. respond e (wLength ctrl) v s1 = Some (r, s') \<and> quiet s1 s' \<and> replies_ok ctrl s s'"
proof (cases "0 \<le> v \<and> v \<noteq> DELAYED_STATUS e")
  case False
  then show ?thesis using calls_only_replies [OF assms(3)] by (auto simp: respond_def)
next
  case True
  define n where "n = nat v"
  have n: "v = int n" "n \<le> unat (wLength ctrl)" "n \<le> length (req_buf s1)"
    using True assms(1,2) by (simp_all add: n_def reply_ok_def nat_le_iff)
  obtain cs where cs: "calls s1 = calls s @ cs" "queues_nothing cs" using assms(3) by (auto simp: calls_only_def)
  have "uint (wLength ctrl) = int (unat (wLength ctrl))" by simp
  then have lt: "int n < uint (wLength ctrl) \<longleftrightarrow> n < unat (wLength ctrl)" by (simp only: of_nat_less_iff)
  show ?thesis
    using True n cs lt
    by (auto simp: respond_def do_ext_def Let_def quiet_def replies_ok_def new_calls_def queues_nothing_def min_def)
qed

lemma composite_setup_ok:
  assumes "comp_inv e s" and "drivers_ok e s" and "0 \<le> DELAYED_STATUS e" and "set_alt_contract e"
    and "bRequestType ctrl AND 0x1f = USB_RECIP_ENDPOINT \<Longrightarrow> cur_config s \<noteq> None"
  shows "\<exists>r s'. composite_setup e ctrl s = Some (r, s') \<and> comp_inv e s' \<and> keeps s s' \<and> replies_ok ctrl s s'"
proof -
  define t where "t = s\<lparr>req_zero := False, req_length := 0\<rparr>"
  have qt: "quiet s t" and ct: "calls_only s t" by (simp_all add: t_def quiet_def calls_only_same)
  have inv: "comp_inv e t" "drivers_ok e t" "keeps s t"
    using quiet_inv [OF qt] quiet_keeps [OF qt] keeps_drivers_ok assms(1,2) by auto
  consider (left) "standard_request e ctrl t = Some (Inl (), t)"
    | (handled) x where "standard_request e ctrl t = map_option (\<lambda>(v, s'). (Inr v, s')) x" "settles e ctrl t x"
    using standard_request_settles [OF inv(1,2) assms(3,4)] by blast
  then show ?thesis
  proof cases
    case left
    obtain r s' where d: "delegate e ctrl t = Some (r, s')" "quiet t s'" "calls_only t s'"
      using delegate_ok [of ctrl t e] assms(5) by (auto simp: t_def)
    then show ?thesis
      using left inv quiet_inv [OF d(2)] keeps_trans [OF inv(3) quiet_keeps [OF d(2)]]
        calls_only_replies [OF calls_only_trans [OF ct d(3)]]
      by (auto simp: composite_setup_def t_def [symmetric])
  next
    case (handled x)
    then obtain v s1 where x: "x = Some (v, s1)" and s1: "comp_inv e s1" "keeps t s1" "reply_ok e ctrl v" "calls_only t s1"
      by (auto simp: settles_def)
    have "1024 \<le> length (req_buf s1)" using s1(1) by (simp add: comp_inv_def)
    then obtain r s' where rp: "respond e (wLength ctrl) v s1 = Some (r, s')" "quiet s1 s'" "replies_ok ctrl s s'"
      using respond_ok_composite [OF s1(3) _ calls_only_trans [OF ct s1(4)]] by blast
    moreover have "composite_setup e ctrl s = Some (r, s')"
      using handled x rp by (simp add: composite_setup_def t_def [symmetric])
    ultimately show ?thesis
      using s1(1) quiet_inv [OF rp(2)] keeps_trans [OF inv(3) keeps_trans [OF s1(2) quiet_keeps [OF rp(2)]]] by blast
  qed
qed

section \<open>Events from the bus\<close>

text \<open>
  What happens to a bound device between binding and unbinding: control requests, disconnection,
  suspend and resume, the completion of a delayed request, functions that take themselves off the bus
  and come back, and a new speed when the device is enumerated again.
\<close>

inductive bus_step :: "comp_env \<Rightarrow> usb_composite_dev \<Rightarrow> usb_composite_dev \<Rightarrow> bool" for e where
  control: "composite_setup e ctrl s = Some (r, s') \<Longrightarrow> bus_step e s s'"
| disconnect: "composite_disconnect e s = Some s' \<Longrightarrow> bus_step e s s'"
| suspend: "bus_step e s (composite_suspend e s)"
| resume: "bus_step e s (composite_resume e s)"
| continue: "bus_step e s (usb_composite_setup_continue e s)"
| deactivate: "usb_function_deactivate e f s = Some (r, s') \<Longrightarrow> bus_step e s s'"
| activate: "usb_function_activate e f s = Some (r, s') \<Longrightarrow> bus_step e s s'"
| enumerate: "cur_config s = None \<Longrightarrow> bus_step e s (s\<lparr>gspeed := sp\<rparr>)"

inductive_cases bus_stepE: "bus_step e s s'"

lemma suspend_all_quiet: "quiet s (suspend_all e mk has fs s)"
proof (induction fs arbitrary: s)
  case (Cons f fs)
  show ?case
    using Cons [of "if has (funcs s f) then snd (do_ext e (mk f) s) else s"] by (simp add: quiet_def split: if_splits)
qed simp

lemma quiet_trans: "quiet s s' \<Longrightarrow> quiet s' s'' \<Longrightarrow> quiet s s''"
  by (simp add: quiet_def)

lemma composite_suspend_quiet: "quiet s (composite_suspend e s)"
  using suspend_all_quiet [of s e FSuspend f_has_suspend]
  by (auto simp: composite_suspend_def Let_def quiet_def split: option.split)

lemma composite_resume_quiet: "quiet s (composite_resume e s)"
proof -
  define s1 where "s1 = (if drv_has_resume (composite e) then snd (do_ext e DrvResume s) else s)"
  have "quiet s s1" by (simp add: s1_def)
  moreover have "quiet s1 (composite_resume e s)"
    using suspend_all_quiet [of s1 e FResume f_has_resume]
    unfolding composite_resume_def s1_def [symmetric] by (auto simp: Let_def quiet_def split: option.split)
  ultimately show ?thesis by (rule quiet_trans)
qed

lemma setup_continue_quiet: "quiet s (usb_composite_setup_continue e s)"
  by (simp add: usb_composite_setup_continue_def Let_def quiet_def)

lemma activation_quiet:
  "usb_function_deactivate e f s = Some (r, s') \<Longrightarrow> quiet s s'"
  "usb_function_activate e f s = Some (r, s') \<Longrightarrow> quiet s s'"
  by (auto simp: usb_function_deactivate_def usb_function_activate_def do_ext_def Let_def quiet_def split: if_splits)

lemma composite_disconnect_inv:
  assumes "comp_inv e s" and "composite_disconnect e s = Some s'"
  shows "comp_inv e s' \<and> keeps s s'"
proof -
  from assms(1) obtain s1 where s1: "leave e s = Some s1" "frame s s1" "comp_inv e s1" by (rule leave_spec)
  have q: "quiet s1 s'" using assms(2) s1(1) by (auto simp: composite_disconnect_def leave_def split: if_splits)
  then show ?thesis
    using quiet_inv [OF q] s1 keeps_trans [OF frame_keeps quiet_keeps [OF q]] by simp
qed

lemma enumerate_inv:
  assumes "comp_inv e s" and "cur_config s = None"
  shows "comp_inv e (s\<lparr>gspeed := sp\<rparr>)"
  using assms by (auto simp: comp_inv_def conf_ok_def)

lemma bus_step_inv:
  assumes "bus_step e s s'" and "comp_inv e s" and "drivers_ok e s" and "0 \<le> DELAYED_STATUS e" and "set_alt_contract e"
  shows "comp_inv e s' \<and> keeps s s'"
  using assms(1)
proof cases
  case (control ctrl r)
  have "bRequestType ctrl AND 0x1f = USB_RECIP_ENDPOINT \<Longrightarrow> cur_config s \<noteq> None"
    using control endpoint_unconfigured_invalid [of s ctrl e] by auto
  then show ?thesis using composite_setup_ok [OF assms(2-5), of ctrl] control by auto
next
  case disconnect
  then show ?thesis using composite_disconnect_inv assms(2) by blast
next
  case suspend
  show ?thesis unfolding suspend using quiet_inv quiet_keeps composite_suspend_quiet assms(2) by blast
next
  case resume
  show ?thesis unfolding resume using quiet_inv quiet_keeps composite_resume_quiet assms(2) by blast
next
  case continue
  show ?thesis unfolding continue using quiet_inv quiet_keeps setup_continue_quiet assms(2) by blast
next
  case (deactivate f r)
  then show ?thesis using quiet_inv quiet_keeps activation_quiet(1) assms(2) by blast
next
  case (activate f r)
  then show ?thesis using quiet_inv quiet_keeps activation_quiet(2) assms(2) by blast
next
  case (enumerate sp)
  then show ?thesis using enumerate_inv [OF assms(2)] by (simp add: keeps_def)
qed

lemma bus_reach_inv:
  assumes "(bus_step e)\<^sup>*\<^sup>* s s'" and "comp_inv e s" and "drivers_ok e s" and "0 \<le> DELAYED_STATUS e" and "set_alt_contract e"
  shows "comp_inv e s' \<and> drivers_ok e s'"
  using assms
proof (induction rule: rtranclp_induct)
  case (step s' s'')
  then show ?case using bus_step_inv [of e s' s''] keeps_drivers_ok by blast
qed simp


lemma demo_drivers_ok: "drivers_ok demo_env demo_dev"
proof -
  have tabs: "string_tables demo_env demo_dev = [[\<lparr>language = 0x0409, tab_strings = None\<rparr>]]"
    by (simp add: string_tables_def demo_defs)
  have "\<exists>ds. descriptors_at sp demo_function = Some ds \<and> endpoint_descs_ok ds" for sp
    by (simp add: descriptors_at_def demo_defs endpoint_descs_ok_def)
  moreover have "wf_desc d" if "d \<in> set (config_descs demo_dev 0 sp)" for d sp
    using that by (cases "sp = SPEED_HIGH")
      (auto simp: config_descs_def function_descs_def opt_list_def descriptors_at_def demo_defs wf_desc_def)
  ultimately show ?thesis
    unfolding drivers_ok_def tabs
    by (auto simp: terminated_table_def override_string_def elvis_def demo_defs split: if_splits)
qed


section \<open>Delayed status\<close>

lemma init_interfaces_delayed:
  "init_interfaces e n c tmp r0 s = Some (r, s') \<Longrightarrow> delayed_status s \<le> delayed_status s'"
proof (induction n arbitrary: tmp r0 s)
  case (Suc n)
  show ?case
  proof (cases "c_interface (confs s c) ! tmp")
    case None
    with Suc.prems show ?thesis by (auto split: if_splits)
  next
    case (Some f)
    obtain eps where eps: "Option.bind (descriptors_at (gspeed s) (funcs s f))
        (\<lambda>ds. record_endpoints ds (f_endpoints (funcs s f))) = Some eps"
      using Suc.prems Some by (auto simp: bind_eq_Some_conv split: if_splits)
    define s1 where "s1 = upd_func f (\<lambda>ff. ff\<lparr>f_endpoints := eps\<rparr>) s"
    define s2 where "s2 = snd (do_ext e (FSetAlt f tmp 0) s1)"
    define v where "v = fst (do_ext e (FSetAlt f tmp 0) s1)"
    define s3 where "s3 = (if v = DELAYED_STATUS e then s2\<lparr>delayed_status := delayed_status s2 + 1\<rparr> else s2)"
    have run: "(if v < 0 then map_option (Pair v) (reset_config e s2) else init_interfaces e n c (Suc tmp) v s3) = Some (r, s')"
      using Suc.prems Some eps unfolding s3_def s2_def v_def s1_def
      by (auto simp: Let_def case_prod_unfold bind_eq_Some_conv split: if_splits)
    have "delayed_status s2 = delayed_status s" by (simp add: s2_def s1_def)
    moreover have "delayed_status s2 \<le> delayed_status s3" by (simp add: s3_def)
    ultimately show ?thesis
      using run Suc.IH [of "Suc tmp" v s3] frame_reset_config [of e s2 s'] by (auto split: if_splits)
  qed
qed simp

lemma set_config_delayed:
  assumes "comp_inv e s" and "0 < delayed_status s" and "set_config e number s = Some (r, s')"
  shows "r < 0 \<or> r = DELAYED_STATUS e"
proof -
  from assms(1) obtain s1 where s1: "leave e s = Some s1" "delayed_status s1 = delayed_status s"
    by (rule leave_spec)
  have v: "x < 0 \<or> x = DELAYED_STATUS e" if "vbus_draw_done e p y t = (x, t')" "0 < delayed_status t" for p x y t t'
    using that by (auto simp: vbus_draw_done_def Let_def split: if_splits)
  have l: "0 < delayed_status t" if "init_interfaces e n c 0 0 (s1\<lparr>cur_config := Some c\<rparr>) = Some (x, t)" for n c x t
    using init_interfaces_delayed [OF that] s1(2) assms(2) by simp
  have pos: "0 < delayed_status s1" using assms(2) s1(2) by simp
  let ?find = "find (\<lambda>c. unat (c_value (confs s1 c)) = number) (configs s1)"
  show ?thesis
  proof (cases "number = 0 \<or> ?find = None")
    case True
    then have "vbus_draw_done e (if is_otg e then 8 else 100) (if number = 0 then 0 else - EINVAL) s1 = (r, s')"
      using assms(3) s1(1) by (cases "number = 0") (simp_all add: set_config_def leave_def Let_def)
    then show ?thesis by (rule v [OF _ pos])
  next
    case False
    then obtain c where c: "?find = Some c" by blast
    let ?loop = "init_interfaces e (MAX_CONFIG_INTERFACES e) c 0 0 (s1\<lparr>cur_config := Some c\<rparr>)"
    have "?loop \<noteq> None" using assms(3) s1(1) False c by (intro notI) (simp add: set_config_def leave_def Let_def)
    then obtain x t where loop: "?loop = Some (x, t)" by auto
    have "vbus_draw_done e (if x < 0 then if is_otg e then 8 else 100 else config_power e (confs t c)) x t = (r, s')"
      using assms(3) s1(1) False c loop
      by (cases "x < 0") (simp_all add: set_config_def leave_def Let_def config_power_def)
    then show ?thesis by (rule v [OF _ l [OF loop]])
  qed
qed

text \<open>
  A request whose status stage was delayed leaves its count behind when the device is disconnected
  before it is continued: the next SET_CONFIGURATION, even one whose interfaces all accept at once,
  is reported as delayed too and gets no status stage.
\<close>

theorem delayed_status_survives_disconnect:
  assumes "comp_inv e s" and "0 < delayed_status s" and "composite_disconnect e s = Some s1"
    and "set_config e number s1 = Some (r, s2)" and "0 \<le> r"
  shows "r = DELAYED_STATUS e \<and> respond e len r s2 = Some (r, s2)"
proof -
  have "delayed_status s1 = delayed_status s"
    using assms(3) frame_reset_config [of e s] by (auto simp: composite_disconnect_def bind_eq_Some_conv split: if_splits)
  moreover have "comp_inv e s1" using composite_disconnect_inv [OF assms(1,3)] by blast
  ultimately have "r = DELAYED_STATUS e" using set_config_delayed [of e s1 number r s2] assms by simp
  then show ?thesis by (simp add: respond_def)
qed

theorem delayed_status_survives_disconnect_witness:
  "\<exists>s1 s2. composite_disconnect demo_env (demo_dev\<lparr>delayed_status := 1\<rparr>) = Some s1 \<and>
     set_config demo_env 1 s1 = Some (0x7fff, s2) \<and> respond demo_env 0 0x7fff s2 = Some (0x7fff, s2) \<and>
     ext demo_env (FSetAlt 0 0 0) [] = 0"
proof -
  let ?s = "demo_dev\<lparr>delayed_status := 1\<rparr>"
  have inv: "comp_inv demo_env ?s" using demo_inv quiet_inv [of demo_dev ?s] by (simp add: quiet_def)
  have d: "composite_disconnect demo_env ?s = Some ?s" by (simp add: composite_disconnect_def demo_defs)
  obtain r s2 where run: "set_config demo_env 1 ?s = Some (r, s2)"
    using set_config_ok [OF inv keeps_drivers_ok [OF quiet_keeps demo_drivers_ok], of 1] by (auto simp: quiet_def)
  have "0 \<le> r"
    using run by (auto simp: set_config_def demo_defs descriptors_at_def numeral_eq_Suc Let_def do_ext_def upd_func_def
        vbus_draw_done_def)
  from delayed_status_survives_disconnect [OF inv _ d run this, of 0] d run show ?thesis
    by (auto simp: demo_defs)
qed

section \<open>Functions that leave the bus\<close>

text \<open>Whether the controller shows the device on the bus, from the calls it got.\<close>

definition pullup :: "call list \<Rightarrow> bool" where
  "pullup cs = fold (\<lambda>c p. if c = GadgetDisconnect then False else if c = GadgetConnect then True else p) cs True"

text \<open>A sequence of deactivations (\<open>True\<close>) and activations of one function.\<close>

primrec activation_run :: "comp_env \<Rightarrow> nat \<Rightarrow> bool list \<Rightarrow> usb_composite_dev \<Rightarrow> usb_composite_dev option" where
  "activation_run e f [] s = Some s"
| "activation_run e f (d # ds) s =
     Option.bind (if d then usb_function_deactivate e f s else usb_function_activate e f s)
       (\<lambda>(r, s'). activation_run e f ds s')"

primrec activation_count :: "bool list \<Rightarrow> nat \<Rightarrow> nat" where
  "activation_count [] n = n"
| "activation_count (d # ds) n = activation_count ds (if d then Suc n else n - 1)"

lemma activation_one:
  assumes "\<forall>c h. c \<in> {GadgetConnect, GadgetDisconnect} \<longrightarrow> ext e c h = 0" and "func_attached s f"
    and "pullup (calls s) \<longleftrightarrow> deactivations s = 0" and "unat (deactivations s) + 1 < 2 ^ 32"
  shows "\<exists>r s'. (if d then usb_function_deactivate e f s else usb_function_activate e f s) = Some (r, s') \<and>
           func_attached s' f \<and> (pullup (calls s') \<longleftrightarrow> deactivations s' = 0) \<and>
           unat (deactivations s') = (if d then Suc (unat (deactivations s)) else unat (deactivations s) - 1)"
proof (cases d)
  case True
  have up: "unat (deactivations s + 1) = Suc (unat (deactivations s))"
    using assms(4) by (simp add: unat_plus_simple word_le_nat_alt unat_word_ariths)
  then have "deactivations s + 1 \<noteq> 0" by (metis nat.distinct(1) unat_0)
  with True up assms show ?thesis
    by (auto simp: usb_function_deactivate_def do_ext_def func_attached_def pullup_def Let_def split: option.splits)
next
  case False
  have dn: "unat (deactivations s - 1) = unat (deactivations s) - 1" if "deactivations s \<noteq> 0"
    using that by (rule unat_minus_one)
  with False assms show ?thesis
    by (auto simp: usb_function_activate_def do_ext_def func_attached_def pullup_def Let_def split: option.splits)
qed

text \<open>C23: Deactivations are counted. With a controller that accepts to connect and disconnect, after any
  sequence of fewer than \<open>2 ^ 32\<close> deactivations and activations the device is on the bus exactly when
  each deactivation was taken back; an activation without one is refused and changes nothing.
\<close>

theorem activation_balance:
  assumes "\<forall>c h. c \<in> {GadgetConnect, GadgetDisconnect} \<longrightarrow> ext e c h = 0" and "func_attached s f"
    and "pullup (calls s) \<longleftrightarrow> deactivations s = 0" and "unat (deactivations s) + length ds < 2 ^ 32"
  shows "\<exists>s'. activation_run e f ds s = Some s' \<and>
           unat (deactivations s') = activation_count ds (unat (deactivations s)) \<and>
           (pullup (calls s') \<longleftrightarrow> activation_count ds (unat (deactivations s)) = 0)"
  using assms
proof (induction ds arbitrary: s)
  case Nil
  then show ?case by (simp add: unat_eq_zero)
next
  case (Cons d ds)
  have "unat (deactivations s) + 1 < 2 ^ 32" using Cons.prems(4) by simp
  from activation_one [OF Cons.prems(1-3) this, of d] obtain r s' where
    step: "(if d then usb_function_deactivate e f s else usb_function_activate e f s) = Some (r, s')"
      "func_attached s' f" "pullup (calls s') \<longleftrightarrow> deactivations s' = 0"
      "unat (deactivations s') = (if d then Suc (unat (deactivations s)) else unat (deactivations s) - 1)"
    by blast
  have "unat (deactivations s') + length ds < 2 ^ 32" using step(4) Cons.prems(4) by (simp split: if_splits)
  from Cons.IH [OF Cons.prems(1) step(2,3) this] step(1,4) show ?case by simp
qed

theorem activation_balance_witness:
  "\<exists>s'. activation_run demo_env 0 [True, True, False] demo_dev = Some s' \<and> unat (deactivations s') = 1 \<and>
     \<not> pullup (calls s')"
  using activation_balance [of demo_env demo_dev 0 "[True, True, False]"]
  by (simp add: func_attached_def pullup_def demo_defs)

end
