(* ===== verification/C2port.thy ===== *)
theory C2port
  imports Prelude "HOL-Library.State_Monad"
begin

text \<open>
  The Silicon Labs C2 port core, \<^verbatim>\<open>test_c2port/core.c\<close>: bit-banged access to the address and data
  registers of a C2 target, polling, and the sysfs handlers for reset, identification and flash
  programming. The state of the pins is a type \<open>'d\<close> that only the board's operations change; the
  code threads it through many calls, which is the state monad here. \<^verbatim>\<open>udelay\<close> is a parameter, so
  that the length of clock pulses can be observed; the disabling of interrupts around a pulse and
  the device mutex have no counterpart (a handler runs to its end).
\<close>

section \<open>Board operations\<close>

record 'd c2port_ops =
  block_size :: u16
  blocks_num :: u16
  access :: "'d \<Rightarrow> int \<Rightarrow> 'd"
  c2d_dir :: "'d \<Rightarrow> int \<Rightarrow> 'd"
  c2d_get :: "'d \<Rightarrow> int"
  c2d_set :: "'d \<Rightarrow> int \<Rightarrow> 'd"
  c2ck_set :: "'d \<Rightarrow> int \<Rightarrow> 'd"

text \<open>A board together with the kernel's busy-wait.\<close>

record 'd c2env =
  ops :: "'d c2port_ops"
  udelay :: "nat \<Rightarrow> 'd \<Rightarrow> 'd"

abbreviation (input) ret :: "'a \<Rightarrow> ('d, 'a) state" where
  "ret \<equiv> State_Monad.return"

definition op :: "('d \<Rightarrow> 'd) \<Rightarrow> ('d, unit) state" where
  "op f = State (\<lambda>d. ((), f d))"

definition c2d_get_m :: "'d c2env \<Rightarrow> ('d, bool) state" where
  "c2d_get_m e = State (\<lambda>d. (c2d_get (ops e) d \<noteq> 0, d))"

definition c2d_dir_m :: "'d c2env \<Rightarrow> int \<Rightarrow> ('d, unit) state" where
  "c2d_dir_m e v = op (\<lambda>d. c2d_dir (ops e) d v)"

definition c2d_set_m :: "'d c2env \<Rightarrow> int \<Rightarrow> ('d, unit) state" where
  "c2d_set_m e v = op (\<lambda>d. c2d_set (ops e) d v)"

definition c2ck_set_m :: "'d c2env \<Rightarrow> int \<Rightarrow> ('d, unit) state" where
  "c2ck_set_m e v = op (\<lambda>d. c2ck_set (ops e) d v)"

definition udelay_m :: "'d c2env \<Rightarrow> nat \<Rightarrow> ('d, unit) state" where
  "udelay_m e n = op (udelay e n)"

text \<open>The idiom \<^verbatim>\<open>ret = ...; if (ret < 0) return ret;\<close>.\<close>

definition checked :: "('d, int) state \<Rightarrow> ('d, int) state \<Rightarrow> ('d, int) state" where
  "checked m k = do { r \<leftarrow> m; if r < 0 then ret r else k }"

section \<open>Low-level signals\<close>

abbreviation (input) C2PORT_DEVICEID :: u8 where "C2PORT_DEVICEID \<equiv> 0x00"
abbreviation (input) C2PORT_REVID :: u8 where "C2PORT_REVID \<equiv> 0x01"
abbreviation (input) C2PORT_FPCTL :: u8 where "C2PORT_FPCTL \<equiv> 0x02"
abbreviation (input) C2PORT_FPDAT :: u8 where "C2PORT_FPDAT \<equiv> 0xB4"
abbreviation (input) C2PORT_DEVICE_ERASE :: u8 where "C2PORT_DEVICE_ERASE \<equiv> 0x03"
abbreviation (input) C2PORT_BLOCK_READ :: u8 where "C2PORT_BLOCK_READ \<equiv> 0x06"
abbreviation (input) C2PORT_BLOCK_WRITE :: u8 where "C2PORT_BLOCK_WRITE \<equiv> 0x07"
abbreviation (input) C2PORT_COMMAND_OK :: u8 where "C2PORT_COMMAND_OK \<equiv> 0x0d"

definition c2port_reset :: "'d c2env \<Rightarrow> ('d, unit) state" where
  "c2port_reset e = do {
     c2ck_set_m e 0;
     udelay_m e 25;
     c2ck_set_m e 1;
     udelay_m e 1 }"

definition c2port_strobe_ck :: "'d c2env \<Rightarrow> ('d, unit) state" where
  "c2port_strobe_ck e = do {
     c2ck_set_m e 0;
     udelay_m e 1;
     c2ck_set_m e 1;
     udelay_m e 1 }"

section \<open>Register frames\<close>

text \<open>The loop that shifts out \<open>n\<close> bits, least significant first.\<close>

primrec send_bits :: "'d c2env \<Rightarrow> nat \<Rightarrow> u8 \<Rightarrow> ('d, unit) state" where
  "send_bits e 0 x = ret ()"
| "send_bits e (Suc n) x = do {
     c2d_set_m e (uint (x AND 0x01));
     c2port_strobe_ck e;
     send_bits e n (drop_bit 1 x) }"

text \<open>The loop that shifts in \<open>n\<close> bits, least significant first.\<close>

primrec recv_bits :: "'d c2env \<Rightarrow> nat \<Rightarrow> u8 \<Rightarrow> ('d, u8) state" where
  "recv_bits e 0 x = ret x"
| "recv_bits e (Suc n) x = do {
     c2port_strobe_ck e;
     b \<leftarrow> c2d_get_m e;
     recv_bits e n (if b then drop_bit 1 x OR 0x80 else drop_bit 1 x) }"

text \<open>The WAIT field: at most \<open>n\<close> strobes until the target raises the data line.\<close>

primrec wait_field :: "'d c2env \<Rightarrow> nat \<Rightarrow> ('d, bool) state" where
  "wait_field e 0 = ret False"
| "wait_field e (Suc n) = do {
     c2port_strobe_ck e;
     b \<leftarrow> c2d_get_m e;
     if b then ret True else do { udelay_m e 1; wait_field e n } }"

definition c2port_write_ar :: "'d c2env \<Rightarrow> u8 \<Rightarrow> ('d, unit) state" where
  "c2port_write_ar e addr = do {
     c2port_strobe_ck e;
     c2d_dir_m e 0;
     c2d_set_m e 1;
     c2port_strobe_ck e;
     c2d_set_m e 1;
     c2port_strobe_ck e;
     send_bits e 8 addr;
     c2d_dir_m e 1;
     c2port_strobe_ck e }"

definition c2port_read_ar :: "'d c2env \<Rightarrow> ('d, int \<times> u8) state" where
  "c2port_read_ar e = do {
     c2port_strobe_ck e;
     c2d_dir_m e 0;
     c2d_set_m e 0;
     c2port_strobe_ck e;
     c2d_set_m e 1;
     c2port_strobe_ck e;
     c2d_dir_m e 1;
     addr \<leftarrow> recv_bits e 8 0;
     c2port_strobe_ck e;
     ret (0, addr) }"

definition c2port_write_dr :: "'d c2env \<Rightarrow> u8 \<Rightarrow> ('d, int) state" where
  "c2port_write_dr e data = do {
     c2port_strobe_ck e;
     c2d_dir_m e 0;
     c2d_set_m e 1;
     c2port_strobe_ck e;
     c2d_set_m e 0;
     c2port_strobe_ck e;
     c2d_set_m e 0;
     c2port_strobe_ck e;
     c2d_set_m e 0;
     c2port_strobe_ck e;
     send_bits e 8 data;
     c2d_dir_m e 1;
     ok \<leftarrow> wait_field e 20;
     if \<not> ok then ret (- EIO)
     else do { c2port_strobe_ck e; ret 0 } }"

definition c2port_read_dr :: "'d c2env \<Rightarrow> ('d, int \<times> u8) state" where
  "c2port_read_dr e = do {
     c2port_strobe_ck e;
     c2d_dir_m e 0;
     c2d_set_m e 0;
     c2port_strobe_ck e;
     c2d_set_m e 0;
     c2port_strobe_ck e;
     c2d_set_m e 0;
     c2port_strobe_ck e;
     c2d_set_m e 0;
     c2port_strobe_ck e;
     c2d_dir_m e 1;
     ok \<leftarrow> wait_field e 20;
     if \<not> ok then ret (- EIO, 0)
     else do {
       data \<leftarrow> recv_bits e 8 0;
       c2port_strobe_ck e;
       ret (0, data) } }"

text \<open>
  Polling of the address register, with the number of tries left. \<open>stop\<close> is the condition that
  leaves the loop: the InBusy bit is clear, or the OutReady bit is set.
\<close>

function poll_ar :: "'d c2env \<Rightarrow> (u8 \<Rightarrow> bool) \<Rightarrow> nat \<Rightarrow> ('d, int) state" where
  "poll_ar e stop timeout = do {
     (r, addr) \<leftarrow> c2port_read_ar e;
     if r < 0 then ret (- EIO)
     else if stop addr then ret 0
     else do {
       udelay_m e 1;
       if timeout \<le> 1 then ret (- EIO) else poll_ar e stop (timeout - 1) } }"
  by pat_completeness auto
termination
  by (relation "measure (\<lambda>(e, stop, t). t)") auto

declare poll_ar.simps [simp del]

definition c2port_poll_in_busy :: "'d c2env \<Rightarrow> ('d, int) state" where
  "c2port_poll_in_busy e = poll_ar e (\<lambda>addr. addr AND 0x02 = 0) 20"

definition c2port_poll_out_ready :: "'d c2env \<Rightarrow> ('d, int) state" where
  "c2port_poll_out_ready e = poll_ar e (\<lambda>addr. addr AND 0x01 \<noteq> 0) 10000"

section \<open>Device state and sysfs handlers\<close>

text \<open>
  A device: its two one-bit flags and the pins. \<open>on_hw\<close> runs a low-level operation on the pins.
  A store handler receives the result of \<^verbatim>\<open>sscanf(buf, "%d", ...)\<close> (\<open>None\<close> when nothing was
  converted) and the byte count it reports; a show handler returns the length and text of its
  \<^verbatim>\<open>sprintf\<close>.
\<close>

record 'd c2port_device =
  dev_id :: int
  dev_name :: string
  dev_access :: bool
  flash_access :: bool
  hw :: 'd

definition on_hw :: "('d, 'a) state \<Rightarrow> ('d c2port_device, 'a) state" where
  "on_hw m = State (\<lambda>s. case run_state m (hw s) of (a, d) \<Rightarrow> (a, s\<lparr>hw := d\<rparr>))"

definition dev_get :: "('d c2port_device, 'd c2port_device) state" where
  "dev_get = State (\<lambda>s. (s, s))"

definition dev_upd :: "('d c2port_device \<Rightarrow> 'd c2port_device) \<Rightarrow> ('d c2port_device, unit) state" where
  "dev_upd f = State (\<lambda>s. ((), f s))"

definition sprintf_d :: "int \<Rightarrow> int \<times> string" where
  "sprintf_d v = (let s = c_dec v @ [CHR 0x0A] in (int (length s), s))"

definition sprintf_s :: "string \<Rightarrow> int \<times> string" where
  "sprintf_s v = (let s = v @ [CHR 0x0A] in (int (length s), s))"

definition flash_bytes :: "'d c2env \<Rightarrow> int" where
  "flash_bytes e = uint (block_size (ops e)) * uint (blocks_num (ops e))"

definition c2port_show_name :: "'d c2port_device \<Rightarrow> int \<times> string" where
  "c2port_show_name c2dev = sprintf_s (dev_name c2dev)"

definition c2port_show_flash_blocks_num :: "'d c2env \<Rightarrow> int \<times> string" where
  "c2port_show_flash_blocks_num e = sprintf_d (uint (blocks_num (ops e)))"

definition c2port_show_flash_block_size :: "'d c2env \<Rightarrow> int \<times> string" where
  "c2port_show_flash_block_size e = sprintf_d (uint (block_size (ops e)))"

definition c2port_show_flash_size :: "'d c2env \<Rightarrow> int \<times> string" where
  "c2port_show_flash_size e = sprintf_d (uint (blocks_num (ops e)) * uint (block_size (ops e)))"

definition access_show :: "'d c2port_device \<Rightarrow> int \<times> string" where
  "access_show c2dev = sprintf_d (of_bool (dev_access c2dev))"

definition access_store :: "'d c2env \<Rightarrow> int option \<Rightarrow> nat \<Rightarrow> ('d c2port_device, int) state" where
  "access_store e scanned count =
     (case scanned of
        None \<Rightarrow> ret (- EINVAL)
      | Some status \<Rightarrow> do {
          dev_upd (\<lambda>s. s\<lparr>dev_access := (status \<noteq> 0)\<rparr>);
          s \<leftarrow> dev_get;
          (if dev_access s then on_hw (c2ck_set_m e 1) else ret ());
          on_hw (op (\<lambda>d. access (ops e) d (of_bool (dev_access s))));
          (if dev_access s then on_hw (c2d_dir_m e 1) else ret ());
          ret (int count) })"

definition c2port_store_reset :: "'d c2env \<Rightarrow> nat \<Rightarrow> ('d c2port_device, int) state" where
  "c2port_store_reset e count = do {
     s \<leftarrow> dev_get;
     if \<not> dev_access s then ret (- EBUSY)
     else do {
       on_hw (c2port_reset e);
       dev_upd (\<lambda>s. s\<lparr>flash_access := False\<rparr>);
       ret (int count) } }"

text \<open>Reading an identification register: select it, read it, print it.\<close>

definition show_id_reg :: "'d c2env \<Rightarrow> u8 \<Rightarrow> ('d, int \<times> string) state" where
  "show_id_reg e reg = do {
     c2port_write_ar e reg;
     (r, data) \<leftarrow> c2port_read_dr e;
     if r < 0 then ret (r, []) else ret (sprintf_d (uint data)) }"

definition c2port_show_dev_id :: "'d c2env \<Rightarrow> ('d c2port_device, int \<times> string) state" where
  "c2port_show_dev_id e = do {
     s \<leftarrow> dev_get;
     if \<not> dev_access s then ret (- EBUSY, []) else on_hw (show_id_reg e C2PORT_DEVICEID) }"

definition c2port_show_rev_id :: "'d c2env \<Rightarrow> ('d c2port_device, int \<times> string) state" where
  "c2port_show_rev_id e = do {
     s \<leftarrow> dev_get;
     if \<not> dev_access s then ret (- EBUSY, []) else on_hw (show_id_reg e C2PORT_REVID) }"

definition c2port_show_flash_access :: "'d c2port_device \<Rightarrow> int \<times> string" where
  "c2port_show_flash_access c2dev = sprintf_d (of_bool (flash_access c2dev))"

text \<open>The bus traffic that enables flash programming: the two key codes, then 25 ms.\<close>

definition flash_keys :: "'d c2env \<Rightarrow> ('d, int) state" where
  "flash_keys e = do {
     c2port_write_ar e C2PORT_FPCTL;
     checked (c2port_write_dr e 0x02)
       (checked (c2port_write_dr e 0x01) (do { udelay_m e 25000; ret 0 })) }"

definition store_flash_access :: "'d c2env \<Rightarrow> int \<Rightarrow> ('d c2port_device, int) state" where
  "store_flash_access e status = do {
     s \<leftarrow> dev_get;
     if \<not> dev_access s then ret (- EBUSY)
     else do {
       dev_upd (\<lambda>s. s\<lparr>flash_access := (status \<noteq> 0)\<rparr>);
       if status = 0 then ret 0 else on_hw (flash_keys e) } }"

definition c2port_store_flash_access ::
    "'d c2env \<Rightarrow> int option \<Rightarrow> nat \<Rightarrow> ('d c2port_device, int) state" where
  "c2port_store_flash_access e scanned count =
     (case scanned of
        None \<Rightarrow> ret (- EINVAL)
      | Some status \<Rightarrow> do {
          r \<leftarrow> store_flash_access e status;
          if r < 0 then ret r else ret (int count) })"

section \<open>Flash programming\<close>

text \<open>
  The steps shared by erase, block read and block write: wait for the status and require
  \<^verbatim>\<open>C2PORT_COMMAND_OK\<close>; send a byte (its own result is ignored) and wait until it is taken.
\<close>

definition status_ok :: "'d c2env \<Rightarrow> ('d, int) state \<Rightarrow> ('d, int) state" where
  "status_ok e k =
     checked (c2port_poll_out_ready e) (do {
       (r, status) \<leftarrow> c2port_read_dr e;
       if r < 0 then ret r else if status \<noteq> C2PORT_COMMAND_OK then ret (- EBUSY) else k })"

definition send_ack :: "'d c2env \<Rightarrow> u8 \<Rightarrow> ('d, int) state \<Rightarrow> ('d, int) state" where
  "send_ack e b k = do { c2port_write_dr e b; checked (c2port_poll_in_busy e) k }"

definition write_flash_erase :: "'d c2env \<Rightarrow> ('d, int) state" where
  "write_flash_erase e = do {
     c2port_write_ar e C2PORT_FPDAT;
     send_ack e C2PORT_DEVICE_ERASE
       (status_ok e
         (send_ack e 0xde (send_ack e 0xad (send_ack e 0xa5
           (checked (c2port_poll_out_ready e) (ret 0)))))) }"

definition c2port_store_flash_erase :: "'d c2env \<Rightarrow> nat \<Rightarrow> ('d c2port_device, int) state" where
  "c2port_store_flash_erase e count = do {
     s \<leftarrow> dev_get;
     if \<not> dev_access s \<or> \<not> flash_access s then ret (- EBUSY)
     else do {
       r \<leftarrow> on_hw (write_flash_erase e);
       if r < 0 then ret r else ret (int count) } }"

primrec read_block :: "'d c2env \<Rightarrow> nat \<Rightarrow> bytes \<Rightarrow> ('d, int \<times> bytes) state" where
  "read_block e 0 out = ret (0, out)"
| "read_block e (Suc n) out = do {
     r \<leftarrow> c2port_poll_out_ready e;
     if r < 0 then ret (r, out)
     else do {
       (r, b) \<leftarrow> c2port_read_dr e;
       if r < 0 then ret (r, out) else read_block e n (out @ [b]) } }"

definition block_command :: "'d c2env \<Rightarrow> u8 \<Rightarrow> int \<Rightarrow> u8 \<Rightarrow> ('d, int) state" where
  "block_command e cmd offset n = do {
     c2port_write_ar e C2PORT_FPDAT;
     send_ack e cmd
       (status_ok e
         (send_ack e (word_of_int (drop_bit 8 offset))
           (send_ack e (word_of_int (offset AND 0x00ff))
             (send_ack e n
               (status_ok e (ret 0)))))) }"

definition read_flash_data :: "'d c2env \<Rightarrow> int \<Rightarrow> nat \<Rightarrow> ('d, int \<times> bytes) state" where
  "read_flash_data e offset count =
     (if offset \<ge> flash_bytes e then ret (0, [])
      else
        let nread = 128 :: u8;
            nread = (if flash_bytes e - offset < uint nread
                     then word_of_int (flash_bytes e - offset) else nread);
            nread = (if int count < uint nread then of_nat count else nread)
        in if nread = 0 then ret (0, [])
           else do {
             r \<leftarrow> block_command e C2PORT_BLOCK_READ offset nread;
             if r < 0 then ret (r, [])
             else do {
               (r, bs) \<leftarrow> read_block e (unat nread) [];
               if r < 0 then ret (r, bs) else ret (uint nread, bs) } })"

definition c2port_read_flash_data ::
    "'d c2env \<Rightarrow> int \<Rightarrow> nat \<Rightarrow> ('d c2port_device, int \<times> bytes) state" where
  "c2port_read_flash_data e offset count = do {
     s \<leftarrow> dev_get;
     if \<not> dev_access s \<or> \<not> flash_access s then ret (- EBUSY, [])
     else on_hw (read_flash_data e offset count) }"

primrec write_block :: "'d c2env \<Rightarrow> bytes \<Rightarrow> ('d, int) state" where
  "write_block e [] = ret 0"
| "write_block e (b # bs) =
     checked (c2port_write_dr e b) (checked (c2port_poll_in_busy e) (write_block e bs))"

definition write_flash_data :: "'d c2env \<Rightarrow> bytes \<Rightarrow> int \<Rightarrow> nat \<Rightarrow> ('d, int) state" where
  "write_flash_data e buffer offset count =
     (let nwrite = 128 :: u8;
          nwrite = (if uint nwrite > int count then of_nat count else nwrite);
          nwrite = (if flash_bytes e - offset < uint nwrite
                    then word_of_int (flash_bytes e - offset) else nwrite)
      in if offset \<ge> flash_bytes e then ret (- EINVAL)
         else
           checked (block_command e C2PORT_BLOCK_WRITE offset nwrite)
             (checked (write_block e (take (unat nwrite) buffer))
               (checked (c2port_poll_out_ready e) (ret (uint nwrite)))))"

definition c2port_write_flash_data ::
    "'d c2env \<Rightarrow> bytes \<Rightarrow> int \<Rightarrow> nat \<Rightarrow> ('d c2port_device, int) state" where
  "c2port_write_flash_data e buffer offset count = do {
     s \<leftarrow> dev_get;
     if \<not> dev_access s \<or> \<not> flash_access s then ret (- EBUSY)
     else on_hw (write_flash_data e buffer offset count) }"

section \<open>Registration\<close>

text \<open>
  The tables a registration touches: allocated devices by address, the id table, the class devices
  with the device number they were created with, and the size of the binary attribute. The outcomes
  of \<^verbatim>\<open>kmalloc\<close>, \<^verbatim>\<open>idr_alloc\<close> and \<^verbatim>\<open>device_create\<close> are arguments, and so is the constant
  \<^verbatim>\<open>C2PORT_NAME_LEN\<close>. \<open>raw_ops\<close> is a board's table of function pointers with the non-null ones marked.
\<close>

record 'd raw_ops =
  r_ops :: "'d c2port_ops"
  has_access :: bool
  has_c2d_dir :: bool
  has_c2d_get :: bool
  has_c2d_set :: bool
  has_c2ck_set :: bool

record 'd c2sys =
  devs :: "nat \<rightharpoonup> 'd c2port_device"
  idr :: "nat \<rightharpoonup> nat"
  nodes :: "(nat \<times> nat) list"
  bin_size :: int

record c2kernel =
  k_malloc :: "nat option"
  k_idr_alloc :: int
  k_device_create :: "unit kptr"
  k_name_len :: nat

definition c2port_device_register ::
    "c2kernel \<Rightarrow> string \<Rightarrow> 'd raw_ops option \<Rightarrow> 'd \<Rightarrow> 'd c2sys \<Rightarrow> nat kptr \<times> 'd c2sys" where
  "c2port_device_register k name ops_ptr d sys = (case ops_ptr of
     None \<Rightarrow> (ERR (- EINVAL), sys)
   | Some o' \<Rightarrow>
       if \<not> has_access o' \<or> \<not> has_c2d_dir o' \<or> \<not> has_c2ck_set o' \<or> \<not> has_c2d_get o' \<or> \<not> has_c2d_set o'
       then (ERR (- EINVAL), sys)
       else (case k_malloc k of
         None \<Rightarrow> (ERR (- ENOMEM), sys)
       | Some a \<Rightarrow>
           if k_idr_alloc k < 0 then (ERR (k_idr_alloc k), sys)
           else let id = nat (k_idr_alloc k);
                    sys1 = sys\<lparr>idr := (idr sys)(id \<mapsto> a),
                               bin_size := uint (blocks_num (r_ops o')) * uint (block_size (r_ops o'))\<rparr>
                in if IS_ERR (k_device_create k)
                   then (ERR (PTR_ERR (k_device_create k)), sys1\<lparr>idr := (idr sys1)(id := None)\<rparr>)
                   else (PTR a,
                         sys1\<lparr>nodes := nodes sys1 @ [(0, a)],
                              devs := (devs sys1)(a \<mapsto>
                                \<lparr>dev_id = int id, dev_name = take (k_name_len k) name, dev_access = False,
                                 flash_access = False, hw = access (r_ops o') d 0\<rparr>)\<rparr>)))"

text \<open>
  Unregistering; an address that is not a device (an error pointer) is an invalid access. The effect
  of the kernel's \<^verbatim>\<open>device_destroy(class, devt)\<close> on the class devices is a parameter.
\<close>

definition c2port_device_unregister ::
    "(nat \<Rightarrow> (nat \<times> nat) list \<Rightarrow> (nat \<times> nat) list) \<Rightarrow> nat kptr \<Rightarrow> 'd c2sys \<Rightarrow> 'd c2sys option" where
  "c2port_device_unregister device_destroy p sys = (case p of
     NULL \<Rightarrow> Some sys
   | ERR _ \<Rightarrow> None
   | PTR a \<Rightarrow> (case devs sys a of
       None \<Rightarrow> None
     | Some c2dev \<Rightarrow>
         Some (sys\<lparr>idr := (idr sys)(nat (dev_id c2dev) := None),
                   nodes := device_destroy (nat (dev_id c2dev)) (nodes sys),
                   devs := (devs sys)(a := None)\<rparr>)))"

text \<open>Module initialisation: the class, or the error of \<^verbatim>\<open>class_create\<close>; and its exit.\<close>

definition c2port_init :: "unit kptr \<Rightarrow> int \<times> unit kptr" where
  "c2port_init cls = (if IS_ERR cls then (PTR_ERR cls, cls) else (0, cls))"

section \<open>Correctness of registration\<close>

text \<open>
  A registration either fails with a negative error and leaves no trace in the tables, or
  enters a new device under the allocated id with both access flags off, the pins released by the
  board's own operation and the name cut to its field.
\<close>

theorem c2port_device_register_spec:
  assumes "c2port_device_register k name ops_ptr d sys = (p, sys')"
    and "\<And>r. k_device_create k = ERR r \<Longrightarrow> r < 0"
  shows "(\<exists>r. p = ERR r \<and> r < 0 \<and> devs sys' = devs sys \<and> nodes sys' = nodes sys \<and>
            (k_idr_alloc k \<ge> 0 \<longrightarrow> idr sys (nat (k_idr_alloc k)) = None \<longrightarrow> idr sys' = idr sys)) \<or>
         (\<exists>a o' c. p = PTR a \<and> k_malloc k = Some a \<and> ops_ptr = Some o' \<and> devs sys' = (devs sys)(a \<mapsto> c) \<and>
            \<not> dev_access c \<and> \<not> flash_access c \<and> hw c = access (r_ops o') d 0 \<and>
            dev_name c = take (k_name_len k) name \<and>
            dev_id c = k_idr_alloc k \<and> idr sys' = (idr sys)(nat (dev_id c) \<mapsto> a) \<and> nodes sys' = nodes sys @ [(0, a)])"
  using assms
  by (cases "k_device_create k")
     (auto simp: c2port_device_register_def Let_def fun_upd_idem split: option.splits if_splits)

theorem c2port_device_register_spec_witness:
  "\<exists>p sys'. c2port_device_register \<lparr>k_malloc = Some 7, k_idr_alloc = 0, k_device_create = PTR (), k_name_len = 32\<rparr>
      ''uc'' None (0::nat) \<lparr>devs = Map.empty, idr = Map.empty, nodes = [], bin_size = 0\<rparr> = (p, sys') \<and>
     (\<exists>r. p = ERR r \<and> r < 0)"
  using c2port_device_register_spec [of "\<lparr>k_malloc = Some 7, k_idr_alloc = 0, k_device_create = PTR (), k_name_len = 32\<rparr>"
      "''uc''" None "0::nat" "\<lparr>devs = Map.empty, idr = Map.empty, nodes = [], bin_size = 0\<rparr>"]
  by (auto simp: c2port_device_register_def)

text \<open>
  Unregistering undoes a registration completely when the device has the id 0. With any other id
  the class device stays behind, since it was created with device number 0 and is looked up by id:
  all that is used of \<^verbatim>\<open>device_destroy\<close> is that it removes a device with the given number and nothing
  when there is none.
\<close>

theorem c2port_register_unregister:
  assumes "c2port_device_register k name ops_ptr d sys = (PTR a, sys1)"
    and "devs sys a = None" and "idr sys (nat (k_idr_alloc k)) = None" and "nodes sys = []"
    and destroys: "\<And>n a. device_destroy n [(n, a)] = []"
    and keeps_others: "\<And>n ns. n \<notin> fst ` set ns \<Longrightarrow> device_destroy n ns = ns"
  shows "\<exists>sys2. c2port_device_unregister device_destroy (PTR a) sys1 = Some sys2 \<and> devs sys2 = devs sys \<and>
           idr sys2 = idr sys \<and> nodes sys2 = (if k_idr_alloc k = 0 then [] else [(0, a)])"
  using assms
  by (auto simp: c2port_device_register_def c2port_device_unregister_def Let_def fun_upd_idem
      split: option.splits if_splits)

theorem c2port_register_unregister_witness:
  "\<exists>sys2. c2port_device_unregister (\<lambda>n. filter (\<lambda>x. fst x \<noteq> n)) (PTR 7)
     (snd (c2port_device_register \<lparr>k_malloc = Some 7, k_idr_alloc = 1, k_device_create = PTR (), k_name_len = 32\<rparr>
       ''uc'' (Some \<lparr>r_ops = \<lparr>block_size = 512, blocks_num = 16, access = (\<lambda>d v. d), c2d_dir = (\<lambda>d v. d), c2d_get = (\<lambda>d. 0),
          c2d_set = (\<lambda>d v. d), c2ck_set = (\<lambda>d v. d)\<rparr>, has_access = True, has_c2d_dir = True, has_c2d_get = True,
          has_c2d_set = True, has_c2ck_set = True\<rparr>) (0::nat)
       \<lparr>devs = Map.empty, idr = Map.empty, nodes = [], bin_size = 0\<rparr>)) = Some sys2 \<and> nodes sys2 = [(0, 7)]"
proof -
  let ?k = "\<lparr>k_malloc = Some 7, k_idr_alloc = 1, k_device_create = PTR (), k_name_len = 32\<rparr>"
  let ?o = "Some \<lparr>r_ops = \<lparr>block_size = 512, blocks_num = 16, access = (\<lambda>d v. d), c2d_dir = (\<lambda>d v. d), c2d_get = (\<lambda>d. 0),
          c2d_set = (\<lambda>d v. d), c2ck_set = (\<lambda>d v. d)\<rparr>, has_access = True, has_c2d_dir = True, has_c2d_get = True,
          has_c2d_set = True, has_c2ck_set = True\<rparr>"
  let ?s = "\<lparr>devs = Map.empty, idr = Map.empty, nodes = [], bin_size = 0\<rparr>"
  show ?thesis
    using c2port_register_unregister [of ?k "''uc''" ?o "0::nat" ?s 7
        "snd (c2port_device_register ?k ''uc'' ?o (0::nat) ?s)" "\<lambda>n. filter (\<lambda>x. fst x \<noteq> n)"]
    by (auto simp: c2port_device_register_def Let_def image_def filter_id_conv)
qed

end
