(* ===== verification/C2link.thy ===== *)
theory C2link
  imports C2port "HOL-Library.Sublist"
begin

text \<open>
  What the C2 port core puts on the two wires. The contract of a board with the core is the locale
  \<open>c2_link\<close>; inside it the frames of \<^verbatim>\<open>test_c2port/core.c\<close> are shown to be the C2 commands they are
  meant to be, on an idle bus and with clock pulses that a target does not take for a reset. The
  Hoare triples \<open>valid\<close> and \<open>keeps\<close> over the state monad carry the proofs.
\<close>

section \<open>Hoare triples over the state monad\<close>

definition valid :: "('d \<Rightarrow> bool) \<Rightarrow> ('d, 'a) state \<Rightarrow> ('a \<Rightarrow> 'd \<Rightarrow> bool) \<Rightarrow> bool" where
  "valid P m Q \<longleftrightarrow> (\<forall>d. P d \<longrightarrow> (case run_state m d of (a, d') \<Rightarrow> Q a d'))"

lemma validI: "(\<And>d a d'. P d \<Longrightarrow> run_state m d = (a, d') \<Longrightarrow> Q a d') \<Longrightarrow> valid P m Q"
  by (auto simp: valid_def)

lemma validD: "valid P m Q \<Longrightarrow> P d \<Longrightarrow> run_state m d = (a, d') \<Longrightarrow> Q a d'"
  by (force simp: valid_def)

lemma valid_bind: "valid P m R \<Longrightarrow> (\<And>a. valid (R a) (f a) Q) \<Longrightarrow> valid P (m \<bind> f) Q"
  by (fastforce simp: valid_def split: prod.splits)

lemma valid_ret: "(\<And>d. P d \<Longrightarrow> Q x d) \<Longrightarrow> valid P (ret x) Q"
  by (auto simp: valid_def)

lemma valid_op: "(\<And>d. P d \<Longrightarrow> Q () (f d)) \<Longrightarrow> valid P (op f) Q"
  by (auto simp: valid_def op_def)

lemma valid_post: "valid P m R \<Longrightarrow> (\<And>a d. R a d \<Longrightarrow> Q a d) \<Longrightarrow> valid P m Q"
  by (fastforce simp: valid_def)

lemma valid_pre: "valid R m Q \<Longrightarrow> (\<And>d. P d \<Longrightarrow> R d) \<Longrightarrow> valid P m Q"
  by (auto simp: valid_def)

text \<open>A state-independent part of the precondition is a hypothesis.\<close>

lemma valid_fact: "(A \<Longrightarrow> valid P m Q) \<Longrightarrow> valid (\<lambda>d. A \<and> P d) m Q"
  by (simp add: valid_def)

lemma valid_fact': "(A \<Longrightarrow> valid P m Q) \<Longrightarrow> valid (\<lambda>d. P d \<and> A) m Q"
  by (simp add: valid_def)

text \<open>Operations that keep a predicate of the state on every path.\<close>

definition keeps :: "('d \<Rightarrow> bool) \<Rightarrow> ('d, 'a) state \<Rightarrow> bool" where
  "keeps I m \<longleftrightarrow> valid I m (\<lambda>_. I)"

named_theorems keeps_rules \<open>operations that keep the bus idle\<close>

lemma keeps_ret [keeps_rules]: "keeps I (ret x)"
  by (simp add: keeps_def valid_ret)

lemma keeps_bind [keeps_rules]: "keeps I m \<Longrightarrow> (\<And>a. keeps I (f a)) \<Longrightarrow> keeps I (m \<bind> f)"
  by (auto simp: keeps_def intro: valid_bind)

lemma keeps_if [keeps_rules]: "(b \<Longrightarrow> keeps I m) \<Longrightarrow> (\<not> b \<Longrightarrow> keeps I n) \<Longrightarrow> keeps I (if b then m else n)"
  by simp

lemma keeps_case_prod [keeps_rules]:
  "(\<And>a b. keeps I (f a b)) \<Longrightarrow> keeps I (case p of (a, b) \<Rightarrow> f a b)"
  by (cases p) simp

lemma keeps_checked [keeps_rules]: "keeps I m \<Longrightarrow> keeps I k \<Longrightarrow> keeps I (checked m k)"
  unfolding checked_def by (intro keeps_rules)

section \<open>The two-wire link\<close>

text \<open>
  What a C2 target sees: the rising edges of the clock line, each with the length in microseconds
  of the low pulse before it and the level the host drives on the data line (\<open>None\<close> when the host
  has released it).
\<close>

datatype c2_event = Edge (low_us: nat) (host_bit: "bool option")

record c2_line =
  tr :: "c2_event list"
  en :: bool
  ck :: bool
  low :: nat
  out :: "bool option"

definition l_dir :: "bool \<Rightarrow> int \<Rightarrow> c2_line \<Rightarrow> c2_line" where
  "l_dir latch v l = l\<lparr>out := (if v \<noteq> 0 then None else Some latch)\<rparr>"

definition l_set :: "int \<Rightarrow> c2_line \<Rightarrow> c2_line" where
  "l_set v l = l\<lparr>out := map_option (\<lambda>_. v \<noteq> 0) (out l)\<rparr>"

definition l_ck :: "int \<Rightarrow> c2_line \<Rightarrow> c2_line" where
  "l_ck v l =
     (if v = 0 then l\<lparr>ck := False, low := (if ck l then 0 else low l)\<rparr>
      else l\<lparr>tr := (if en l \<and> \<not> ck l then tr l @ [Edge (low l) (out l)] else tr l), ck := True\<rparr>)"

definition l_delay :: "nat \<Rightarrow> c2_line \<Rightarrow> c2_line" where
  "l_delay n l = (if ck l then l else l\<lparr>low := low l + n\<rparr>)"

lemmas line_defs = l_dir_def l_set_def l_ck_def l_delay_def

text \<open>
  A target finds the commands in the driven bits: each maximal run of driven bits, between edges at
  which the host has released the data line, is one command. The instruction is the first two bits,
  least significant first; register writes carry eight more bits, data accesses a length of 00b.
\<close>

fun runs :: "bool option list \<Rightarrow> bool list list" where
  "runs [] = []"
| "runs (None # xs) = runs xs"
| "runs [Some b] = [[b]]"
| "runs (Some b # None # xs) = [b] # runs xs"
| "runs (Some b # Some c # xs) = (b # hd (runs (Some c # xs))) # tl (runs (Some c # xs))"

datatype c2_cmd = WriteAR u8 | ReadAR | WriteDR u8 | ReadDR | Malformed "bool list"

definition byte_of :: "bool list \<Rightarrow> u8" where
  "byte_of bs = horner_sum of_bool 2 bs"

fun c2_cmd_of :: "bool list \<Rightarrow> c2_cmd" where
  "c2_cmd_of [False, True] = ReadAR"
| "c2_cmd_of [False, False, False, False] = ReadDR"
| "c2_cmd_of (True # True # bs) = (if length bs = 8 then WriteAR (byte_of bs) else Malformed (True # True # bs))"
| "c2_cmd_of (True # False # False # False # bs) =
     (if length bs = 8 then WriteDR (byte_of bs) else Malformed (True # False # False # False # bs))"
| "c2_cmd_of bs = Malformed bs"

definition commands :: "c2_event list \<Rightarrow> c2_cmd list" where
  "commands t = map c2_cmd_of (runs (map host_bit t))"

fun is_write :: "c2_cmd \<Rightarrow> bool" where
  "is_write (WriteAR _) = True"
| "is_write (WriteDR _) = True"
| "is_write _ = False"

text \<open>Frames as the host emits them: edges after a low pulse of 1 microsecond, released or driven.\<close>

definition tick :: "bool option \<Rightarrow> c2_event" where
  "tick b = Edge 1 b"

lemma tick_simps [simp]: "host_bit (tick b) = b" "low_us (tick b) = 1"
  by (simp_all add: tick_def)

abbreviation rel :: "nat \<Rightarrow> c2_event list" where
  "rel n \<equiv> replicate n (tick None)"

abbreviation drive :: "bool list \<Rightarrow> c2_event list" where
  "drive bs \<equiv> map (\<lambda>b. tick (Some b)) bs"

definition bits_of :: "nat \<Rightarrow> u8 \<Rightarrow> bool list" where
  "bits_of n x = map (bit x) [0..<n]"

lemma runs_Some [simp]: "runs (Some b # xs) \<noteq> []"
  by (cases "Some b # xs" rule: runs.cases) simp_all

lemma runs_append_None: "runs (xs @ None # ys) = runs xs @ runs ys"
  by (induction xs rule: runs.induct) simp_all

lemma runs_replicate_None [simp]: "runs (replicate n None) = []"
  by (induction n) simp_all

lemma runs_driven: "runs (Some b # map Some bs) = [b # bs]"
  by (induction bs arbitrary: b) simp_all

lemma commands_frame:
  assumes "bs \<noteq> []"
  shows "commands (t @ rel 1 @ drive bs @ rel (Suc n)) = commands t @ [c2_cmd_of bs]"
proof -
  obtain b bs' where bs: "bs = b # bs'" using assms by (cases bs) auto
  have "runs (map host_bit (drive bs) @ None # replicate n None) = [bs]"
    using runs_append_None [of "Some b # map Some bs'" "replicate n None"]
    by (simp add: bs comp_def runs_driven)
  then show ?thesis
    by (simp add: commands_def runs_append_None)
qed

lemma byte_of_bits [simp]: "byte_of (bits_of 8 x) = x"
  unfolding byte_of_def bits_of_def horner_sum_bit_eq_take_bit
  by (simp add: take_bit_word_eq_self)

lemma length_bits_of [simp]: "length (bits_of n x) = n"
  by (simp add: bits_of_def)

text \<open>The number of released edges, at most \<open>n\<close>, after which the target first answers with 1.\<close>

primrec wait_answer :: "(c2_event list \<Rightarrow> bool) \<Rightarrow> c2_event list \<Rightarrow> nat \<Rightarrow> nat option" where
  "wait_answer g t 0 = None"
| "wait_answer g t (Suc n) =
     (if g (t @ rel 1) then Some 1 else map_option Suc (wait_answer g (t @ rel 1) n))"

text \<open>
  The contract between the core and a board: through an abstraction \<open>line\<close> the board's operations
  act as the line operations; reading gives the host's own level, or what the target \<open>tgt\<close> answers
  to the edges so far. \<open>latch\<close> is the level a board drives when it turns the data line around. The
  clock line is under the host's control only while access is on.
\<close>

locale c2_link =
  fixes e :: "'d c2env"
    and line :: "'d \<Rightarrow> c2_line"
    and latch :: "'d \<Rightarrow> bool"
    and tgt :: "c2_event list \<Rightarrow> bool"
  assumes line_dir: "line (c2d_dir (ops e) d v) = l_dir (latch d) v (line d)"
    and line_set: "en (line d) \<Longrightarrow> line (c2d_set (ops e) d v) = l_set v (line d)"
    and line_ck: "en (line d) \<or> v \<noteq> 0 \<Longrightarrow> line (c2ck_set (ops e) d v) = l_ck v (line d)"
    and line_delay: "line (udelay e n d) = l_delay n (line d)"
    and line_get: "en (line d) \<Longrightarrow> c2d_get (ops e) d \<noteq> 0 \<longleftrightarrow>
                     (case out (line d) of Some b \<Rightarrow> b | None \<Rightarrow> tgt (tr (line d)))"
    and line_access_on: "ck (line d) \<Longrightarrow>
           \<exists>b. line (access (ops e) d 1) = (line d)\<lparr>en := True, out := Some b\<rparr>"
    and line_access_off: "line (access (ops e) d 0) = (line d)\<lparr>en := False, out := None\<rparr>"
begin

definition bus :: "c2_event list \<Rightarrow> bool option \<Rightarrow> 'd \<Rightarrow> bool" where
  "bus t b d \<longleftrightarrow> en (line d) \<and> ck (line d) \<and> tr (line d) = t \<and> out (line d) = b"

definition idle :: "'d \<Rightarrow> bool" where
  "idle d \<longleftrightarrow> en (line d) \<and> ck (line d) \<and> out (line d) = None"

lemma idle_bus: "idle d \<longleftrightarrow> bus (tr (line d)) None d"
  by (simp add: idle_def bus_def)

lemma strobe_bus: "valid (bus t b) (c2port_strobe_ck e) (\<lambda>_. bus (t @ [tick b]) b)"
  by (rule validI)
     (auto simp: c2port_strobe_ck_def c2ck_set_m_def udelay_m_def op_def bus_def line_ck line_delay
        line_defs tick_def)

lemma dir_in_bus: "valid (bus t b) (c2d_dir_m e 1) (\<lambda>_. bus t None)"
  by (rule validI) (auto simp: c2d_dir_m_def op_def bus_def line_dir line_defs)

lemma dir_out_bus: "valid (bus t b) (c2d_dir_m e 0) (\<lambda>_ d. \<exists>b'. bus t (Some b') d)"
  by (rule validI) (auto simp: c2d_dir_m_def op_def bus_def line_dir line_defs)

lemma set_bus: "valid (bus t (Some b)) (c2d_set_m e v) (\<lambda>_. bus t (Some (v \<noteq> 0)))"
  by (rule validI) (auto simp: c2d_set_m_def op_def bus_def line_set line_defs)

lemma set_turned_bus:
  "valid (\<lambda>d. \<exists>b. bus t (Some b) d) (c2d_set_m e v) (\<lambda>_. bus t (Some (v \<noteq> 0)))"
  by (rule validI) (auto simp: c2d_set_m_def op_def bus_def line_set line_defs)

lemma get_bus: "valid (bus t None) (c2d_get_m e) (\<lambda>r d. r = tgt t \<and> bus t None d)"
  by (rule validI) (auto simp: c2d_get_m_def bus_def line_get)

lemma delay_bus: "valid (bus t b) (udelay_m e n) (\<lambda>_. bus t b)"
  by (rule validI) (auto simp: udelay_m_def op_def bus_def line_delay line_defs)

lemmas bus_rules = valid_bind strobe_bus dir_in_bus dir_out_bus set_turned_bus get_bus delay_bus

abbreviation turned :: "c2_event list \<Rightarrow> 'd \<Rightarrow> bool" where
  "turned t d \<equiv> \<exists>b. bus t (Some b) d"

lemma strobe_turned: "valid (turned t) (c2port_strobe_ck e) (\<lambda>_ d. \<exists>b. turned (t @ [tick (Some b)]) d)"
  by (rule validI) (use strobe_bus in \<open>blast dest: validD\<close>)

lemma send_bits_bus:
  "valid (turned t) (send_bits e n x) (\<lambda>_. turned (t @ drive (bits_of n x)))"
proof (induction n arbitrary: t x)
  case 0
  then show ?case by (simp add: bits_of_def valid_ret)
next
  case (Suc n)
  have b0: "(uint (x AND 0x01) \<noteq> 0) = bit x 0"
    by (simp add: and_one_eq uint_0_iff bit_0 odd_iff_mod_2_eq_one)
  have bits: "bits_of (Suc n) x = bit x 0 # bits_of n (drop_bit 1 x)"
    by (simp add: bits_of_def upt_conv_Cons bit_drop_bit_eq del: upt_Suc flip: map_Suc_upt)
  have last: "valid (bus (t @ [tick (Some (bit x 0))]) (Some (bit x 0)))
                (send_bits e n (drop_bit 1 x)) (\<lambda>_. turned (t @ drive (bits_of (Suc n) x)))"
    using Suc.IH [of "t @ [tick (Some (bit x 0))]" "drop_bit 1 x"]
    by (rule valid_post [OF valid_pre]) (auto simp: bits)
  show ?case
    unfolding send_bits.simps
    by (rule valid_bind [OF set_turned_bus], rule valid_bind [OF strobe_bus])
       (use last in \<open>simp add: b0\<close>)
qed

lemma recv_step:
  assumes y: "\<And>i. i < 8 \<Longrightarrow> bit y i = (if i = 7 then g (t @ rel 1) else bit (x::u8) (Suc i))"
    and r: "\<forall>i<8. bit r i = (if i + n < 8 then bit (y::u8) (i + n) else g ((t @ rel 1) @ rel (i + n - 7)))"
  shows "\<forall>i<8. bit (r::u8) i = (if i + Suc n < 8 then bit x (i + Suc n) else g (t @ rel (i + Suc n - 7)))"
proof (intro allI impI)
  fix i :: nat assume i: "i < 8"
  consider "i + n < 7" | "i + n = 7" | k where "i + n = 8 + k" by atomize_elim presburger
  then show "bit r i = (if i + Suc n < 8 then bit x (i + Suc n) else g (t @ rel (i + Suc n - 7)))"
    using r [rule_format, OF i] y [of "i + n"] by cases simp_all
qed

lemma recv_bits_bus:
  assumes "n \<le> 8"
  shows "valid (bus t None) (recv_bits e n x)
           (\<lambda>r d. bus (t @ rel n) None d \<and>
              (\<forall>i<8. bit r i = (if i + n < 8 then bit x (i + n) else tgt (t @ rel (i + n - 7)))))"
  using assms
proof (induction n arbitrary: t x)
  case 0
  then show ?case by (simp add: valid_ret)
next
  case (Suc n)
  define y where "y = (if tgt (t @ rel 1) then drop_bit 1 x OR 0x80 else drop_bit 1 x)"
  have y: "bit y i = (if i = 7 then tgt (t @ rel 1) else bit x (Suc i))" if "i < 8" for i
    using that unfolding y_def
    by (auto simp: bitwise less_Suc_eq numeral_eq_Suc)
  show ?case
    unfolding recv_bits.simps
  proof (rule valid_bind [OF strobe_bus], rule valid_bind [OF get_bus], goal_cases)
    case (1 _ b)
    show ?case
    proof (cases "b = tgt (t @ [tick None])")
      case True
      then have "(if b then drop_bit 1 x OR 0x80 else drop_bit 1 x) = y" by (simp add: y_def)
      moreover have "valid (bus (t @ rel 1) None) (recv_bits e n y)
          (\<lambda>r d. bus (t @ rel (Suc n)) None d \<and>
             (\<forall>i<8. bit r i = (if i + Suc n < 8 then bit x (i + Suc n) else tgt (t @ rel (i + Suc n - 7)))))"
        using Suc.prems
        by (intro valid_post [OF Suc.IH] conjI recv_step [where g = tgt and t = t and y = y] y) simp_all
      ultimately show ?thesis using True by simp
    next
      case False
      then show ?thesis by (simp add: valid_def)
    qed
  qed
qed

lemma wait_field_bus:
  "valid (bus t None) (wait_field e n)
     (\<lambda>ok d. case wait_answer tgt t n of
                Some k \<Rightarrow> ok \<and> bus (t @ rel k) None d
              | None \<Rightarrow> \<not> ok \<and> bus (t @ rel n) None d)"
proof (induction n arbitrary: t)
  case 0
  then show ?case by (simp add: valid_ret)
next
  case (Suc n)
  show ?case
    unfolding wait_field.simps
  proof (rule valid_bind [OF strobe_bus], rule valid_bind [OF get_bus], goal_cases)
    case (1 _ b)
    show ?case
    proof (cases "b = tgt (t @ [tick None])")
      case True
      show ?thesis
      proof (cases b)
        case b: True
        with True show ?thesis by (simp add: valid_ret)
      next
        case b: False
        have "valid (bus (t @ rel 1) None) (do { udelay_m e 1; wait_field e n })
          (\<lambda>ok d. case wait_answer tgt t (Suc n) of
                Some k \<Rightarrow> ok \<and> bus (t @ rel k) None d
              | None \<Rightarrow> \<not> ok \<and> bus (t @ rel (Suc n)) None d)"
          by (rule valid_bind [OF delay_bus], rule valid_post [OF Suc.IH])
             (use b True in \<open>auto split: option.splits\<close>)
        with b True show ?thesis by simp
      qed
    next
      case False
      then show ?thesis by (simp add: valid_def)
    qed
  qed
qed

text \<open>One driven bit of an instruction field.\<close>

lemma drive_bit:
  "valid (turned t) (do { c2d_set_m e v; c2port_strobe_ck e }) (\<lambda>_. turned (t @ drive [v \<noteq> 0]))"
  by (rule valid_bind [OF set_turned_bus], rule valid_post [OF strobe_bus]) auto

lemma drive_bit_k:
  assumes "\<And>a. valid (turned (t @ drive [v \<noteq> 0])) k Q"
  shows "valid (turned t) (do { c2d_set_m e v; c2port_strobe_ck e; k }) Q"
  using valid_bind [OF drive_bit [of t v], of "\<lambda>_. k" Q] assms by (simp add: State_Monad.bind_assoc)

lemma start_k:
  assumes "valid (turned (t @ rel 1)) k Q"
  shows "valid (bus t None) (do { c2port_strobe_ck e; c2d_dir_m e 0; k }) Q"
  by (rule valid_bind [OF strobe_bus], rule valid_bind [OF dir_out_bus]) (use assms in simp)

lemma dir_in_turned: "valid (turned t) (c2d_dir_m e 1) (\<lambda>_. bus t None)"
  by (rule validI) (use dir_in_bus in \<open>blast dest: validD\<close>)

lemmas release_k = valid_bind [OF dir_in_turned]

text \<open>A stop field, or any single strobe with the data line released, before the final result.\<close>

lemma stop_ret:
  "(\<And>d. bus (t @ rel 1) None d \<Longrightarrow> Q x d) \<Longrightarrow>
   valid (bus t None) (do { c2port_strobe_ck e; ret x }) Q"
  by (rule valid_bind [OF strobe_bus], rule valid_ret) simp

lemma write_ar_bus:
  "valid (bus t None) (c2port_write_ar e addr)
     (\<lambda>_. bus (t @ rel 1 @ drive ([True, True] @ bits_of 8 addr) @ rel 1) None)"
  unfolding c2port_write_ar_def
  by (rule start_k, rule drive_bit_k, rule drive_bit_k, rule valid_bind [OF send_bits_bus],
      rule release_k, rule valid_post [OF strobe_bus]) simp

lemma read_ar_bus:
  "valid (bus t None) (c2port_read_ar e)
     (\<lambda>(r, addr) d. r = 0 \<and> bus (t @ rel 1 @ drive [False, True] @ rel 9) None d \<and>
        (\<forall>i<8. bit addr i = tgt (t @ rel 1 @ drive [False, True] @ rel (Suc i))))"
  unfolding c2port_read_ar_def
  by (rule start_k, rule drive_bit_k, rule drive_bit_k, rule release_k,
      rule valid_bind [OF recv_bits_bus], simp, rule valid_fact', rule stop_ret)
     (simp add: numeral_eq_Suc flip: replicate_append_same)

text \<open>The WAIT field with its two continuations.\<close>

lemma wait_then:
  assumes "\<And>k. wait_answer tgt f n = Some k \<Longrightarrow> valid (bus (f @ rel k) None) yes Q"
    and "wait_answer tgt f n = None \<Longrightarrow> valid (bus (f @ rel n) None) no Q"
  shows "valid (bus f None) (do { ok \<leftarrow> wait_field e n; if \<not> ok then no else yes }) Q"
proof (rule valid_bind [OF wait_field_bus])
  fix ok
  show "valid (\<lambda>d. case wait_answer tgt f n of Some k \<Rightarrow> ok \<and> bus (f @ rel k) None d
                 | None \<Rightarrow> \<not> ok \<and> bus (f @ rel n) None d) (if \<not> ok then no else yes) Q"
    using assms by (cases "wait_answer tgt f n"; cases ok) (simp_all add: valid_def)
qed

lemma write_dr_bus:
  "valid (bus t None) (c2port_write_dr e data)
     (\<lambda>r d. let f = t @ rel 1 @ drive ([True, False, False, False] @ bits_of 8 data) in
        case wait_answer tgt f 20 of
          Some k \<Rightarrow> r = 0 \<and> bus (f @ rel (Suc k)) None d
        | None \<Rightarrow> r = - EIO \<and> bus (f @ rel 20) None d)"
  unfolding c2port_write_dr_def
  by (rule start_k, (rule drive_bit_k)+, rule valid_bind [OF send_bits_bus], rule release_k,
      rule wait_then)
     (auto intro!: valid_ret stop_ret simp flip: replicate_append_same)

lemma read_dr_data:
  "valid (bus (f @ rel k) None)
     (do { data \<leftarrow> recv_bits e 8 0; c2port_strobe_ck e; ret (0, data) })
     (\<lambda>(r, data) d. r = 0 \<and> bus (f @ rel (k + 9)) None d \<and>
        (\<forall>i<8. bit data i = tgt (f @ rel (Suc (k + i)))))"
proof (rule valid_bind [OF recv_bits_bus], goal_cases)
  case (2 data)
  have "((f @ rel k) @ rel 8) @ rel 1 = f @ rel (k + 9)"
    unfolding append_assoc by (simp only: replicate_add [symmetric]) simp
  moreover have "(f @ rel k) @ rel (i + 8 - 7) = f @ rel (Suc (k + i))" for i
    by (simp flip: replicate_add replicate.simps)
  ultimately show ?case
    by (intro valid_fact' stop_ret) simp
qed simp

lemma read_dr_bus:
  "valid (bus t None) (c2port_read_dr e)
     (\<lambda>(r, data) d. let f = t @ rel 1 @ drive [False, False, False, False] in
        case wait_answer tgt f 20 of
          Some k \<Rightarrow> r = 0 \<and> bus (f @ rel (k + 9)) None d \<and>
                    (\<forall>i<8. bit data i = tgt (f @ rel (Suc (k + i))))
        | None \<Rightarrow> r = - EIO \<and> bus (f @ rel 20) None d)"
  unfolding c2port_read_dr_def
  by (rule start_k, (rule drive_bit_k)+, rule release_k, rule wait_then)
     (use read_dr_data [of "t @ rel 1 @ drive [False, False, False, False]"] in \<open>auto intro!: valid_ret\<close>)

section \<open>Commands on an idle bus\<close>

text \<open>The bus is idle and the target has seen the commands \<open>cs\<close>.\<close>

definition seen :: "c2_cmd list \<Rightarrow> 'd \<Rightarrow> bool" where
  "seen cs d \<longleftrightarrow> idle d \<and> commands (tr (line d)) = cs"

lemma validI_seen:
  assumes "\<And>t. commands t = cs \<Longrightarrow> valid (bus t None) m Q"
  shows "valid (seen cs) m Q"
  by (rule validI) (use assms in \<open>auto simp: seen_def idle_bus dest: validD\<close>)

lemma seen_frame:
  assumes "bus (t @ rel 1 @ drive bs @ rel (Suc n)) None d" and "bs \<noteq> []" and "commands t = cs"
  shows "seen (cs @ [c2_cmd_of bs]) d"
  using assms commands_frame [of bs t n] by (simp add: bus_def idle_def seen_def)

lemma write_ar_seen: "valid (seen cs) (c2port_write_ar e a) (\<lambda>_. seen (cs @ [WriteAR a]))"
proof (rule validI_seen, rule valid_post [OF write_ar_bus])
  fix t d assume "commands t = cs" "bus (t @ rel 1 @ drive ([True, True] @ bits_of 8 a) @ rel 1) None d"
  then show "seen (cs @ [WriteAR a]) d"
    using seen_frame [of t "[True, True] @ bits_of 8 a" 0 d cs] by simp
qed

text \<open>A frame is complete as soon as the host has released the line for some edges.\<close>

lemma seen_frame_pos:
  assumes "bus (t @ rel 1 @ drive bs @ rel n) None d" and "0 < n" and "bs \<noteq> []" and "commands t = cs"
  shows "seen (cs @ [c2_cmd_of bs]) d"
  using assms seen_frame [of t bs "n - 1" d cs] by simp

lemma read_ar_seen: "valid (seen cs) (c2port_read_ar e) (\<lambda>p d. fst p = 0 \<and> seen (cs @ [ReadAR]) d)"
  by (rule validI_seen, rule valid_post [OF read_ar_bus])
     (use seen_frame_pos [of _ "[False, True]" 9 _ cs] in auto)

lemma write_dr_seen:
  "valid (seen cs) (c2port_write_dr e b) (\<lambda>r d. r \<in> {0, - EIO} \<and> seen (cs @ [WriteDR b]) d)"
proof (rule validI_seen, rule valid_post [OF write_dr_bus])
  fix t r d
  let ?bs = "[True, False, False, False] @ bits_of 8 b"
  assume "commands t = cs"
    and "let f = t @ rel 1 @ drive ?bs in
        case wait_answer tgt f 20 of
          Some k \<Rightarrow> r = 0 \<and> bus (f @ rel (Suc k)) None d
        | None \<Rightarrow> r = - EIO \<and> bus (f @ rel 20) None d"
  then show "r \<in> {0, - EIO} \<and> seen (cs @ [WriteDR b]) d"
    using seen_frame_pos [of t ?bs _ d cs] by (force simp: Let_def split: option.splits)
qed

lemma read_dr_seen:
  "valid (seen cs) (c2port_read_dr e) (\<lambda>p d. fst p \<in> {0, - EIO} \<and> seen (cs @ [ReadDR]) d)"
proof (rule validI_seen, rule valid_post [OF read_dr_bus], goal_cases)
  case (1 t p d)
  then show ?case
    using seen_frame_pos [of t "[False, False, False, False]" _ d cs]
    by (force simp: Let_def split: option.splits prod.splits)
qed

text \<open>The bus is idle and the register writes the target has seen are \<open>ws\<close>.\<close>

definition wrote :: "c2_cmd list \<Rightarrow> 'd \<Rightarrow> bool" where
  "wrote ws d \<longleftrightarrow> idle d \<and> filter is_write (commands (tr (line d))) = ws"

lemma validI_wrote:
  assumes "\<And>cs. filter is_write cs = ws \<Longrightarrow> valid (seen cs) m Q"
  shows "valid (wrote ws) m Q"
proof (rule validI)
  fix d a d' assume "wrote ws d" "run_state m d = (a, d')"
  then show "Q a d'"
    using validD [OF assms [of "commands (tr (line d))"], of d a d'] by (simp add: seen_def wrote_def)
qed

lemma seen_wrote: "seen (cs @ [c]) d \<Longrightarrow> wrote (filter is_write cs @ filter is_write [c]) d"
  by (simp add: seen_def wrote_def)

lemma write_ar_wrote: "valid (wrote ws) (c2port_write_ar e a) (\<lambda>_. wrote (ws @ [WriteAR a]))"
  by (rule validI_wrote, rule valid_post [OF write_ar_seen]) (auto dest: seen_wrote)

lemma read_ar_wrote: "valid (wrote ws) (c2port_read_ar e) (\<lambda>p d. fst p = 0 \<and> wrote ws d)"
  by (rule validI_wrote, rule valid_post [OF read_ar_seen]) (auto dest: seen_wrote)

lemma write_dr_wrote:
  "valid (wrote ws) (c2port_write_dr e b) (\<lambda>r d. r \<in> {0, - EIO} \<and> wrote (ws @ [WriteDR b]) d)"
  by (rule validI_wrote, rule valid_post [OF write_dr_seen]) (auto dest: seen_wrote)

lemma read_dr_wrote:
  "valid (wrote ws) (c2port_read_dr e) (\<lambda>p d. fst p \<in> {0, - EIO} \<and> wrote ws d)"
  by (rule validI_wrote, rule valid_post [OF read_dr_seen]) (auto dest: seen_wrote)

lemma delay_wrote: "valid (wrote ws) (udelay_m e n) (\<lambda>_. wrote ws)"
  by (rule validI)
     (auto simp: wrote_def idle_bus udelay_m_def op_def bus_def line_delay line_defs)

lemma poll_ar_wrote: "valid (wrote ws) (poll_ar e stop n) (\<lambda>r d. r \<in> {0, - EIO} \<and> wrote ws d)"
proof (induction n rule: less_induct)
  case (less n)
  show ?case
    by (subst poll_ar.simps, rule valid_bind [OF read_ar_wrote], clarsimp split: prod.splits)
       (use less in \<open>auto intro!: valid_fact valid_ret valid_bind [OF delay_wrote]\<close>)
qed

text \<open>
  \<open>m\<close> performs the register writes \<open>bs\<close>: all of them when it succeeds, the first few when it gives
  up with an error, and never anything else; the bus is idle again in both cases.
\<close>

definition sends :: "c2_cmd list \<Rightarrow> ('d, int) state \<Rightarrow> bool" where
  "sends bs m \<longleftrightarrow> (\<forall>ws. valid (wrote ws) m
     (\<lambda>r d. 0 \<le> r \<and> wrote (ws @ bs) d \<or>
            r \<in> {- EIO, - EBUSY} \<and> (\<exists>p. prefix p bs \<and> wrote (ws @ p) d)))"

lemma sends_ret: "0 \<le> r \<Longrightarrow> sends [] (ret r)"
  by (simp add: sends_def valid_ret)

lemma sends_checked:
  assumes "sends as m" and "sends bs k"
  shows "sends (as @ bs) (checked m k)"
  unfolding sends_def checked_def
proof (intro allI, rule valid_bind [OF assms(1) [unfolded sends_def, rule_format]], rule validI)
  fix ws r d r' d'
  assume 1: "0 \<le> r \<and> wrote (ws @ as) d \<or> r \<in> {- EIO, - EBUSY} \<and> (\<exists>p. prefix p as \<and> wrote (ws @ p) d)"
    and run: "run_state (if r < 0 then ret r else k) d = (r', d')"
  show "0 \<le> r' \<and> wrote (ws @ as @ bs) d' \<or>
        r' \<in> {- EIO, - EBUSY} \<and> (\<exists>p. prefix p (as @ bs) \<and> wrote (ws @ p) d')"
  proof (cases "r < 0")
    case True
    with 1 run show ?thesis by (auto intro: prefix_prefix)
  next
    case False
    with 1 run have "wrote (ws @ as) d" "run_state k d = (r', d')" by auto
    from validD [OF assms(2) [unfolded sends_def, rule_format] this] show ?thesis
      by (auto intro: exI [of _ "as @ _"])
  qed
qed

lemma sends_poll: "sends [] (poll_ar e stop n)"
  unfolding sends_def by (intro allI valid_post [OF poll_ar_wrote]) auto

lemma sends_write_dr: "sends [WriteDR b] (c2port_write_dr e b)"
  unfolding sends_def by (intro allI valid_post [OF write_dr_wrote]) auto

lemma sends_poll_in_busy: "sends [] (c2port_poll_in_busy e)"
  by (simp add: c2port_poll_in_busy_def sends_poll)

lemma sends_poll_out_ready: "sends [] (c2port_poll_out_ready e)"
  by (simp add: c2port_poll_out_ready_def sends_poll)

lemma sends_fail: "r \<in> {- EIO, - EBUSY} \<Longrightarrow> sends bs (ret r)"
  unfolding sends_def by (intro allI valid_ret) (auto intro: exI [of _ "[]"])

lemma sends_after:
  assumes m: "\<And>ws. valid (wrote ws) m (\<lambda>x d. R x \<and> wrote (ws @ as) d)"
    and k: "\<And>x. R x \<Longrightarrow> sends bs (k x)"
  shows "sends (as @ bs) (m \<bind> k)"
  unfolding sends_def
proof (intro allI, rule valid_bind [OF m], rule valid_fact)
  fix ws x assume "R x"
  then have "valid (wrote (ws @ as)) (k x) (\<lambda>r d. 0 \<le> r \<and> wrote ((ws @ as) @ bs) d \<or>
      r \<in> {- EIO, - EBUSY} \<and> (\<exists>p. prefix p bs \<and> wrote ((ws @ as) @ p) d))"
    using k [unfolded sends_def] by blast
  then show "valid (wrote (ws @ as)) (k x) (\<lambda>r d. 0 \<le> r \<and> wrote (ws @ as @ bs) d \<or>
      r \<in> {- EIO, - EBUSY} \<and> (\<exists>p. prefix p (as @ bs) \<and> wrote (ws @ p) d))"
    by (rule valid_post) (auto intro: exI [of _ "as @ _"])
qed

lemma sends_write_ar: "sends bs k \<Longrightarrow> sends (WriteAR a # bs) (do { c2port_write_ar e a; k })"
  using sends_after [of "c2port_write_ar e a" "\<lambda>_. True" "[WriteAR a]" bs] write_ar_wrote by simp

text \<open>\<open>send_ack\<close> ignores the result of the data write, so a write is counted in any case.\<close>

lemma sends_ack:
  assumes "sends bs k"
  shows "sends (WriteDR b # bs) (send_ack e b k)"
  unfolding send_ack_def
  using sends_after [of "c2port_write_dr e b" "\<lambda>r. r \<in> {0, - EIO}" "[WriteDR b]" bs] write_dr_wrote
    sends_checked [OF sends_poll_in_busy assms] by simp

lemma sends_status_ok:
  assumes "sends bs k"
  shows "sends bs (status_ok e k)"
proof -
  have "sends ([] @ bs) (do { (r, status) \<leftarrow> c2port_read_dr e;
          if r < 0 then ret r else if status \<noteq> C2PORT_COMMAND_OK then ret (- EBUSY) else k })"
    by (rule sends_after [of _ "\<lambda>p. fst p \<in> {0, - EIO}"])
       (use read_dr_wrote assms in \<open>auto intro: sends_fail\<close>)
  with sends_checked [OF sends_poll_out_ready] show ?thesis
    unfolding status_ok_def by fastforce
qed

lemma sends_delay: "sends bs k \<Longrightarrow> sends bs (do { udelay_m e n; k })"
  using sends_after [of "udelay_m e n" "\<lambda>_. True" "[]" bs] delay_wrote by simp

lemmas sends_rules = sends_ret sends_delay sends_checked sends_poll_in_busy sends_poll_out_ready
  sends_write_dr sends_write_ar sends_ack sends_status_ok

lemma sends_flash_keys: "sends [WriteAR 0x02, WriteDR 0x02, WriteDR 0x01] (flash_keys e)"
proof -
  have "sends ([WriteDR 0x02] @ [WriteDR 0x01] @ [])
     (checked (c2port_write_dr e 0x02)
       (checked (c2port_write_dr e 0x01) (do { udelay_m e 25000; ret 0 })))"
    by (intro sends_rules) simp
  then show ?thesis unfolding flash_keys_def by (intro sends_rules) simp
qed

lemma sends_flash_erase:
  "sends (WriteAR 0xB4 # map WriteDR [0x03, 0xde, 0xad, 0xa5]) (write_flash_erase e)"
proof -
  have "sends ([] @ []) (checked (c2port_poll_out_ready e) (ret 0))"
    by (intro sends_rules) simp
  then show ?thesis unfolding write_flash_erase_def list.map by (intro sends_rules) simp
qed

lemma sends_block_command:
  "sends (WriteAR 0xB4 # map WriteDR [cmd, word_of_int (drop_bit 8 off), word_of_int (off AND 0xff), n])
     (block_command e cmd off n)"
  unfolding block_command_def list.map by (intro sends_rules) simp

lemma sends_write_block: "sends (map WriteDR bs) (write_block e bs)"
proof (induction bs)
  case (Cons b bs)
  have "sends ([WriteDR b] @ [] @ map WriteDR bs) (write_block e (b # bs))"
    unfolding write_block.simps by (intro sends_rules Cons.IH)
  then show ?case by simp
qed (simp add: sends_ret)

text \<open>The whole read and write operations below the access check.\<close>

lemma write_flash_data_eq:
  assumes "off < flash_bytes e" and n: "n = min 128 (min count (nat (flash_bytes e - off)))"
  shows "write_flash_data e buf off count =
      checked (block_command e C2PORT_BLOCK_WRITE off (of_nat n))
        (checked (write_block e (take n buf)) (checked (c2port_poll_out_ready e) (ret (int n))))"
proof -
  define nw :: u8 where "nw = of_nat n"
  have unw: "unat nw = n" using n by (simp add: nw_def unat_of_nat take_bit_eq_mod)
  have c: "(if uint (128::u8) > int count then of_nat count else 128 :: u8) = of_nat (min 128 count)"
    by (auto simp: min_def)
  have u: "uint (of_nat (min 128 count) :: u8) = int (min 128 count)"
    by (simp add: uint_nat unat_of_nat take_bit_eq_mod)
  have w: "(if flash_bytes e - off < int (min 128 count) then word_of_int (flash_bytes e - off)
            else of_nat (min 128 count)) = nw"
    using assms unfolding nw_def by (auto simp: min_def of_nat_nat word_of_int_nat)
  show ?thesis
    using assms(1) unfolding write_flash_data_def Let_def c u w by (simp add: unw uint_nat nw_def [symmetric])
qed

lemma sends_write_flash_data:
  assumes "off < flash_bytes e" and n: "n = min 128 (min count (nat (flash_bytes e - off)))"
  shows "sends (WriteAR 0xB4 # map WriteDR ([0x07, word_of_int (drop_bit 8 off),
           word_of_int (off AND 0xff), of_nat n] @ take n buf))
         (write_flash_data e buf off count)"
proof -
  have "sends ((WriteAR 0xB4 # map WriteDR [0x07, word_of_int (drop_bit 8 off),
           word_of_int (off AND 0xff), of_nat n]) @ map WriteDR (take n buf) @ [] @ [])
         (write_flash_data e buf off count)"
    unfolding write_flash_data_eq [OF assms]
    by (intro sends_rules sends_block_command sends_write_block) simp
  then show ?thesis by simp
qed

lemma valid_conj:
  "valid P m Q \<Longrightarrow> valid P m R \<Longrightarrow> valid P m (\<lambda>a d. Q a d \<and> R a d)"
  by (auto simp: valid_def split: prod.splits)

lemma read_block_wrote:
  "valid (wrote ws) (read_block e n acc)
     (\<lambda>(r, bs) d. wrote ws d \<and> (r = 0 \<and> length bs = length acc + n \<or> r = - EIO))"
proof (induction n arbitrary: acc)
  case 0
  then show ?case by (simp add: valid_ret)
next
  case (Suc n)
  have poll: "valid (wrote ws) (c2port_poll_out_ready e) (\<lambda>r d. r \<in> {0, - EIO} \<and> wrote ws d)"
    unfolding c2port_poll_out_ready_def by (rule poll_ar_wrote)
  have next': "valid (wrote ws) (read_block e n (acc @ [b]))
     (\<lambda>(r, bs) d. wrote ws d \<and> (r = 0 \<and> length bs = length acc + Suc n \<or> r = - EIO))" for b
    using Suc.IH [of "acc @ [b]"] by simp
  show ?case
    unfolding read_block.simps
    by (rule valid_bind [OF poll], rule valid_fact, clarsimp, intro conjI impI valid_ret,
        simp, rule valid_bind [OF read_dr_wrote], rule valid_fact)
       (use next' in \<open>auto intro!: valid_ret split: prod.splits\<close>)
qed

lemma read_flash_data_wrote:
  assumes "off < flash_bytes e" and n: "n = min 128 (min count (nat (flash_bytes e - off)))" and "0 < count"
  defines "bs \<equiv> WriteAR 0xB4 # map WriteDR [0x06, word_of_int (drop_bit 8 off), word_of_int (off AND 0xff), of_nat n]"
  shows "valid (wrote ws) (read_flash_data e off count)
     (\<lambda>(r, data) d. r = int n \<and> length data = n \<and> wrote (ws @ bs) d \<or>
        r \<in> {- EIO, - EBUSY} \<and> (\<exists>p. prefix p bs \<and> wrote (ws @ p) d))"
proof -
  define nr :: u8 where "nr = of_nat n"
  have unr: "unat nr = n" using n by (simp add: nr_def unat_of_nat take_bit_eq_mod)
  have pos: "nr \<noteq> 0" using assms unr by (auto simp: min_def split: if_splits)
  have f: "(if flash_bytes e - off < uint (128::u8) then word_of_int (flash_bytes e - off) else 128 :: u8) =
      of_nat (min 128 (nat (flash_bytes e - off)))"
    using assms(1) by (auto simp: min_def word_of_int_nat)
  have u: "uint (of_nat (min 128 m) :: u8) = int (min 128 m)" for m
    by (simp add: uint_nat unat_of_nat take_bit_eq_mod)
  have w: "(if int count < int (min 128 (nat (flash_bytes e - off))) then of_nat count
            else of_nat (min 128 (nat (flash_bytes e - off)))) = nr"
    using n unfolding nr_def by (auto simp: min_def)
  have "read_flash_data e off count = do {
         r \<leftarrow> block_command e C2PORT_BLOCK_READ off nr;
         if r < 0 then ret (r, [])
         else do { (r, bs) \<leftarrow> read_block e n []; if r < 0 then ret (r, bs) else ret (uint nr, bs) } }"
    using assms(1) pos unfolding read_flash_data_def Let_def f u w unr by simp
  moreover have "valid (wrote ws) \<dots> (\<lambda>(r, data) d. r = int n \<and> length data = n \<and> wrote (ws @ bs) d \<or>
        r \<in> {- EIO, - EBUSY} \<and> (\<exists>p. prefix p bs \<and> wrote (ws @ p) d))"
  proof (rule valid_bind [OF sends_block_command [unfolded sends_def, rule_format]], goal_cases)
    case (1 r)
    show ?case
    proof (cases "r < 0")
      case True
      then show ?thesis by (auto intro!: valid_ret simp: bs_def nr_def)
    next
      case False
      have "valid (wrote (ws @ bs)) (do { (r, bs) \<leftarrow> read_block e n [];
              if r < 0 then ret (r, bs) else ret (uint nr, bs) })
         (\<lambda>(r, data) d. r = int n \<and> length data = n \<and> wrote (ws @ bs) d \<or>
            r = - EIO \<and> wrote (ws @ bs) d)"
        by (rule valid_bind [OF read_block_wrote])
           (auto intro!: valid_ret simp: unr uint_nat split: prod.splits)
      then have "valid (wrote (ws @ bs)) (do { (r, bs) \<leftarrow> read_block e n [];
              if r < 0 then ret (r, bs) else ret (uint nr, bs) })
         (\<lambda>(r, data) d. r = int n \<and> length data = n \<and> wrote (ws @ bs) d \<or>
            r \<in> {- EIO, - EBUSY} \<and> (\<exists>p. prefix p bs \<and> wrote (ws @ p) d))"
        by (rule valid_post) auto
      with False show ?thesis
        by (auto elim!: valid_pre simp: bs_def nr_def)
    qed
  qed
  ultimately show ?thesis by simp
qed

end

end
