(* ===== verification/C2sysfs.thy ===== *)
theory C2sysfs
  imports C2link
begin

text \<open>
  The sysfs attributes of a C2 port as requests, the states reachable through them, and what holds in
  all of them: access controls the pins, the data line is never left driven, and everything a target
  sees on the wires is a well-formed command with clock pulses of the specified lengths.
\<close>

section \<open>Requests\<close>

text \<open>
  One request per attribute of \<^verbatim>\<open>c2port_attrs\<close> and \<^verbatim>\<open>c2port_bin_attrs\<close>, with the parsed number or the
  buffer it carries and the byte count.
\<close>

datatype c2_req =
    ShowName | ShowBlocksNum | ShowBlockSize | ShowFlashSize
  | ShowAccess | StoreAccess "int option" nat
  | StoreReset nat
  | ShowDevId | ShowRevId
  | ShowFlashAccess | StoreFlashAccess "int option" nat
  | StoreFlashErase nat
  | ReadFlashData int nat
  | WriteFlashData bytes int nat

text \<open>The result of a handler, without the text or the bytes it delivers.\<close>

definition c2_handle :: "'d c2env \<Rightarrow> c2_req \<Rightarrow> ('d c2port_device, int) state" where
  "c2_handle e q = (case q of
      ShowName \<Rightarrow> do { s \<leftarrow> dev_get; ret (fst (c2port_show_name s)) }
    | ShowBlocksNum \<Rightarrow> ret (fst (c2port_show_flash_blocks_num e))
    | ShowBlockSize \<Rightarrow> ret (fst (c2port_show_flash_block_size e))
    | ShowFlashSize \<Rightarrow> ret (fst (c2port_show_flash_size e))
    | ShowAccess \<Rightarrow> do { s \<leftarrow> dev_get; ret (fst (access_show s)) }
    | StoreAccess v n \<Rightarrow> access_store e v n
    | StoreReset n \<Rightarrow> c2port_store_reset e n
    | ShowDevId \<Rightarrow> do { r \<leftarrow> c2port_show_dev_id e; ret (fst r) }
    | ShowRevId \<Rightarrow> do { r \<leftarrow> c2port_show_rev_id e; ret (fst r) }
    | ShowFlashAccess \<Rightarrow> do { s \<leftarrow> dev_get; ret (fst (c2port_show_flash_access s)) }
    | StoreFlashAccess v n \<Rightarrow> c2port_store_flash_access e v n
    | StoreFlashErase n \<Rightarrow> c2port_store_flash_erase e n
    | ReadFlashData off n \<Rightarrow> do { r \<leftarrow> c2port_read_flash_data e off n; ret (fst r) }
    | WriteFlashData buf off n \<Rightarrow> c2port_write_flash_data e buf off n)"

inductive c2_reach :: "'d c2env \<Rightarrow> 'd c2port_device \<Rightarrow> 'd c2port_device \<Rightarrow> bool" for e s0 where
  init: "c2_reach e s0 s0"
| step: "c2_reach e s0 s \<Longrightarrow> run_state (c2_handle e q) s = (r, s') \<Longrightarrow> c2_reach e s0 s'"

section \<open>Traces\<close>

text \<open>
  A trace a target accepts: a low pulse is either a strobe, shorter than the 5 microseconds that would
  be taken for a reset, or a reset of at least 20 microseconds; and every driven run is a command.
\<close>

fun malformed :: "c2_cmd \<Rightarrow> bool" where
  "malformed (Malformed _) = True"
| "malformed _ = False"

definition trace_ok :: "c2_event list \<Rightarrow> bool" where
  "trace_ok t \<longleftrightarrow> list_all (\<lambda>ev. low_us ev < 5 \<or> low_us ev \<ge> 20 \<and> host_bit ev = None) t \<and>
                  list_all (\<lambda>c. \<not> malformed c) (commands t)"

lemma trace_ok_frame:
  assumes "trace_ok t" and "\<not> malformed (c2_cmd_of bs)" and "bs \<noteq> []" and "0 < n"
  shows "trace_ok (t @ rel 1 @ drive bs @ rel n)"
  using assms commands_frame [of bs t "n - 1"] by (auto simp: trace_ok_def list_all_iff)

lemma trace_ok_reset:
  assumes "trace_ok t"
  shows "trace_ok (t @ [Edge 25 None])"
  using assms runs_append_None [of "map host_bit t" "[]"] by (auto simp: trace_ok_def commands_def)

section \<open>Every operation keeps the bus idle and the trace well-formed\<close>

text \<open>The state of the pins and flags between two requests.\<close>

definition c2_inv :: "('d \<Rightarrow> c2_line) \<Rightarrow> 'd c2port_device \<Rightarrow> bool" where
  "c2_inv line s \<longleftrightarrow> trace_ok (tr (line (hw s))) \<and> out (line (hw s)) = None \<and>
     en (line (hw s)) = dev_access s \<and> (dev_access s \<longrightarrow> ck (line (hw s)))"

text \<open>The register writes a target has seen.\<close>

definition reg_writes :: "('d \<Rightarrow> c2_line) \<Rightarrow> 'd c2port_device \<Rightarrow> c2_cmd list" where
  "reg_writes line s = filter is_write (commands (tr (line (hw s))))"

context c2_link
begin

definition clean :: "'d \<Rightarrow> bool" where
  "clean d \<longleftrightarrow> idle d \<and> trace_ok (tr (line d))"

lemma keeps_cleanI:
  assumes "\<And>t. trace_ok t \<Longrightarrow> valid (bus t None) m (\<lambda>_ d. \<exists>t'. trace_ok t' \<and> bus t' None d)"
  shows "keeps clean m"
  unfolding keeps_def
proof (rule validI)
  fix d a d' assume "clean d" "run_state m d = (a, d')"
  then show "clean d'"
    using validD [OF assms [of "tr (line d)"], of d a d'] by (auto simp: clean_def idle_def bus_def)
qed

lemma bus_frame:
  assumes "bus (t @ rel 1 @ drive bs @ rel n) None d" and "trace_ok t" and "\<not> malformed (c2_cmd_of bs)"
    and "bs \<noteq> []" and "0 < n"
  shows "\<exists>t'. trace_ok t' \<and> bus t' None d"
  using assms trace_ok_frame by blast

lemma keeps_write_ar [keeps_rules]: "keeps clean (c2port_write_ar e a)"
  by (rule keeps_cleanI, rule valid_post [OF write_ar_bus], erule bus_frame) simp_all

lemma keeps_read_ar [keeps_rules]: "keeps clean (c2port_read_ar e)"
proof (rule keeps_cleanI, rule valid_post [OF read_ar_bus], goal_cases)
  case (1 t p d)
  then show ?case using bus_frame [of t "[False, True]" 9 d] by auto
qed

lemma keeps_write_dr [keeps_rules]: "keeps clean (c2port_write_dr e b)"
proof (rule keeps_cleanI, rule valid_post [OF write_dr_bus], goal_cases)
  case (1 t r d)
  then show ?case
    using bus_frame [of t "[True, False, False, False] @ bits_of 8 b" 20 d]
      bus_frame [of t "[True, False, False, False] @ bits_of 8 b" "Suc _" d]
    by (auto simp: Let_def split: option.splits)
qed

lemma keeps_read_dr [keeps_rules]: "keeps clean (c2port_read_dr e)"
proof (rule keeps_cleanI, rule valid_post [OF read_dr_bus], goal_cases)
  case (1 t p d)
  then show ?case
    using bus_frame [of t "[False, False, False, False]" _ d]
    by (force simp: Let_def split: option.splits prod.splits)
qed

lemma keeps_delay [keeps_rules]: "keeps clean (udelay_m e n)"
  by (rule keeps_cleanI, rule valid_post [OF delay_bus]) blast

lemma reset_bus: "valid (bus t b) (c2port_reset e) (\<lambda>_. bus (t @ [Edge 25 b]) b)"
  by (rule validI)
     (auto simp: c2port_reset_def c2ck_set_m_def udelay_m_def op_def bus_def line_ck line_delay
        line_defs)

lemma keeps_reset [keeps_rules]: "keeps clean (c2port_reset e)"
  by (rule keeps_cleanI, rule valid_post [OF reset_bus]) (blast intro: trace_ok_reset)

lemma keeps_poll [keeps_rules]: "keeps clean (poll_ar e stop n)"
proof (induction n rule: less_induct)
  case (less n)
  show ?case
    by (subst poll_ar.simps) (intro keeps_rules less.IH, simp)
qed

lemma keeps_read_block [keeps_rules]: "keeps clean (read_block e n acc)"
  by (induction n arbitrary: acc)
     (auto intro!: keeps_rules simp: c2port_poll_out_ready_def)

lemma keeps_write_block [keeps_rules]: "keeps clean (write_block e bs)"
  by (induction bs) (auto intro!: keeps_rules simp: c2port_poll_in_busy_def)

lemmas c2_ops_defs = flash_keys_def write_flash_erase_def block_command_def read_flash_data_def
  write_flash_data_def status_ok_def send_ack_def show_id_reg_def c2port_poll_out_ready_def
  c2port_poll_in_busy_def Let_def

lemma keeps_ops [keeps_rules]:
  "keeps clean (show_id_reg e reg)"
  "keeps clean (flash_keys e)"
  "keeps clean (write_flash_erase e)"
  "keeps clean (read_flash_data e off n)"
  "keeps clean (write_flash_data e buf off n)"
  unfolding c2_ops_defs by (intro keeps_rules)+

text \<open>Lifting to the device: with access on, the pins are clean.\<close>

abbreviation inv_on :: "'d c2port_device \<Rightarrow> bool" where
  "inv_on s \<equiv> c2_inv line s \<and> dev_access s"

lemma inv_on_clean: "inv_on s \<longleftrightarrow> dev_access s \<and> clean (hw s)"
  by (auto simp: c2_inv_def clean_def idle_def)

lemma keeps_on_hw [keeps_rules]: "keeps clean m \<Longrightarrow> keeps inv_on (on_hw m)"
  unfolding keeps_def inv_on_clean
  by (rule validI) (auto simp: on_hw_def split: prod.splits dest: validD)

lemma keeps_flash_flag [keeps_rules]: "keeps inv_on (dev_upd (\<lambda>s. s\<lparr>flash_access := b\<rparr>))"
  unfolding keeps_def by (rule validI) (auto simp: dev_upd_def c2_inv_def)

text \<open>The common shape of the handlers: without access nothing happens.\<close>

lemma guarded_keeps:
  assumes "\<And>s. keeps inv_on (k s)"
  shows "keeps (c2_inv line) (do { s \<leftarrow> dev_get; if \<not> dev_access s \<or> b s then ret x else k s })"
  unfolding keeps_def
proof (rule validI)
  fix s a s'
  assume "c2_inv line s"
    and "run_state (do { s \<leftarrow> dev_get; if \<not> dev_access s \<or> b s then ret x else k s }) s = (a, s')"
  then show "c2_inv line s'"
    using validD [OF assms [of s, unfolded keeps_def], of s a s']
    by (auto simp: dev_get_def split: if_splits)
qed

lemma access_store_run:
  "run_state (access_store e (Some st) n) s =
     (int n, s\<lparr>dev_access := (st \<noteq> 0),
               hw := (if st \<noteq> 0 then c2d_dir (ops e) (access (ops e) (c2ck_set (ops e) (hw s) 1) 1) 1
                      else access (ops e) (hw s) 0)\<rparr>)"
  by (simp add: access_store_def dev_upd_def dev_get_def on_hw_def c2ck_set_m_def c2d_dir_m_def op_def)

lemma line_access_seq:
  assumes "out (line d) = None" and "en (line d) \<longrightarrow> ck (line d)"
  shows "line (c2d_dir (ops e) (access (ops e) (c2ck_set (ops e) d 1) 1) 1) =
           (line d)\<lparr>en := True, ck := True, out := None\<rparr>"
proof -
  have c: "line (c2ck_set (ops e) d 1) = (line d)\<lparr>ck := True\<rparr>"
    using assms(2) by (simp add: line_ck l_ck_def)
  then obtain b where "line (access (ops e) (c2ck_set (ops e) d 1) 1) =
      (line d)\<lparr>ck := True, en := True, out := Some b\<rparr>"
    using line_access_on [of "c2ck_set (ops e) d 1"] by auto
  then show ?thesis by (simp add: line_dir l_dir_def)
qed

lemma keeps_access_store: "keeps (c2_inv line) (access_store e v n)"
proof (cases v)
  case None
  then show ?thesis by (simp add: access_store_def keeps_ret)
next
  case (Some st)
  show ?thesis
    unfolding keeps_def Some
    by (rule validI) (auto simp: access_store_run c2_inv_def line_access_seq line_access_off)
qed

lemma keeps_dev_get: "keeps I dev_get"
  unfolding keeps_def by (rule validI) (auto simp: dev_get_def)

lemma keeps_store_flash_access: "keeps (c2_inv line) (store_flash_access e v)"
  unfolding store_flash_access_def
  using guarded_keeps [of "\<lambda>_. dev_upd (\<lambda>s. s\<lparr>flash_access := (v \<noteq> 0)\<rparr>) \<bind>
     (\<lambda>_. if v = 0 then ret 0 else on_hw (flash_keys e))" "\<lambda>_. False"]
  by (simp add: keeps_rules)

lemma keeps_store_reset: "keeps (c2_inv line) (c2port_store_reset e n)"
  unfolding c2port_store_reset_def
  using guarded_keeps [of "\<lambda>_. on_hw (c2port_reset e) \<bind>
     (\<lambda>_. dev_upd (\<lambda>s. s\<lparr>flash_access := False\<rparr>) \<bind> (\<lambda>_. ret (int n)))" "\<lambda>_. False"]
  by (simp add: keeps_rules)

lemma keeps_show_id:
  "keeps (c2_inv line) (c2port_show_dev_id e)" "keeps (c2_inv line) (c2port_show_rev_id e)"
  unfolding c2port_show_dev_id_def c2port_show_rev_id_def
  using guarded_keeps [of "\<lambda>_. on_hw (show_id_reg e _)" "\<lambda>_. False"] by (simp_all add: keeps_rules)

lemma keeps_flash:
  "keeps (c2_inv line) (c2port_store_flash_erase e n)"
  "keeps (c2_inv line) (c2port_read_flash_data e off n)"
  "keeps (c2_inv line) (c2port_write_flash_data e buf off n)"
  unfolding c2port_store_flash_erase_def c2port_read_flash_data_def c2port_write_flash_data_def
  by (intro guarded_keeps keeps_rules)+

lemma keeps_handle: "keeps (c2_inv line) (c2_handle e q)"
  by (cases q)
     (auto simp: c2_handle_def c2port_store_flash_access_def split: option.split
       intro!: keeps_ret keeps_bind keeps_dev_get keeps_access_store keeps_store_flash_access
         keeps_store_reset keeps_show_id keeps_flash)

theorem reach_inv: "c2_reach e s0 s \<Longrightarrow> c2_inv line s0 \<Longrightarrow> c2_inv line s"
  by (induction rule: c2_reach.induct) (use keeps_handle in \<open>auto simp: keeps_def dest: validD\<close>)

section \<open>What the flash handlers send\<close>

lemma inv_on_wrote: "c2_inv line s \<Longrightarrow> dev_access s \<Longrightarrow> wrote (reg_writes line s) (hw s)"
  by (simp add: c2_inv_def wrote_def idle_def reg_writes_def)

lemma wrote_reg_writes: "wrote ws (hw s) \<Longrightarrow> reg_writes line s = ws"
  by (simp add: wrote_def reg_writes_def)

lemma sends_on_hw:
  assumes "sends bs m" and "c2_inv line s" and "dev_access s" and "run_state (on_hw m) s = (r, s')"
  shows "0 \<le> r \<and> reg_writes line s' = reg_writes line s @ bs \<or>
         r \<in> {- EIO, - EBUSY} \<and> (\<exists>p. prefix p bs \<and> reg_writes line s' = reg_writes line s @ p)"
proof -
  obtain d where d: "run_state m (hw s) = (r, d)" and s': "s' = s\<lparr>hw := d\<rparr>"
    using assms(4) by (auto simp: on_hw_def split: prod.splits)
  have "0 \<le> r \<and> wrote (reg_writes line s @ bs) d \<or>
        r \<in> {- EIO, - EBUSY} \<and> (\<exists>p. prefix p bs \<and> wrote (reg_writes line s @ p) d)"
    using validD [OF assms(1) [unfolded sends_def, rule_format] inv_on_wrote [OF assms(2,3)] d] .
  with s' show ?thesis using wrote_reg_writes [of _ s'] by auto
qed

text \<open>A sequence of checked steps returns an error or its last result.\<close>

lemma checked_result:
  "run_state (checked m k) d = (r, d') \<Longrightarrow>
   (\<And>d a d'. run_state k d = (a, d') \<Longrightarrow> a < 0 \<or> a = n) \<Longrightarrow> r < 0 \<or> r = n"
  by (auto simp: checked_def split: prod.splits if_splits)

lemma write_flash_result:
  assumes "off < flash_bytes e" and "run_state (write_flash_data e buf off count) d = (r, d')"
  shows "r < 0 \<or> r = int (min 128 (min count (nat (flash_bytes e - off))))"
  using assms(2) unfolding write_flash_data_eq [OF assms(1) refl]
  by (elim checked_result) simp_all

lemma store_flash_erase_writes:
  assumes "c2_inv line s" and "dev_access s" and "flash_access s"
    and "run_state (c2port_store_flash_erase e n) s = (r, s')"
  shows "r = int n \<and> reg_writes line s' = reg_writes line s @ WriteAR 0xB4 # map WriteDR [0x03, 0xde, 0xad, 0xa5] \<or>
         r \<in> {- EIO, - EBUSY} \<and>
         (\<exists>p. prefix p (WriteAR 0xB4 # map WriteDR [0x03, 0xde, 0xad, 0xa5]) \<and> reg_writes line s' = reg_writes line s @ p)"
proof -
  obtain r0 where run: "run_state (on_hw (write_flash_erase e)) s = (r0, s')" and r: "r = (if r0 < 0 then r0 else int n)"
    using assms by (auto simp: c2port_store_flash_erase_def dev_get_def split: prod.splits if_splits)
  show ?thesis
    using sends_on_hw [OF sends_flash_erase assms(1,2) run] r by auto
qed

lemma write_flash_writes:
  assumes "c2_inv line s" and "dev_access s" and "flash_access s" and "off < flash_bytes e"
    and "n = min 128 (min count (nat (flash_bytes e - off)))"
    and "run_state (c2port_write_flash_data e buf off count) s = (r, s')"
  defines "bs \<equiv> WriteAR 0xB4 # map WriteDR ([0x07, word_of_int (drop_bit 8 off),
           word_of_int (off AND 0xff), of_nat n] @ take n buf)"
  shows "r = int n \<and> reg_writes line s' = reg_writes line s @ bs \<or>
         r \<in> {- EIO, - EBUSY} \<and> (\<exists>p. prefix p bs \<and> reg_writes line s' = reg_writes line s @ p)"
proof -
  have run: "run_state (on_hw (write_flash_data e buf off count)) s = (r, s')"
    using assms by (simp add: c2port_write_flash_data_def dev_get_def)
  then have "r < 0 \<or> r = int n"
    using write_flash_result [OF assms(4)] assms(5) by (auto simp: on_hw_def split: prod.splits)
  with sends_on_hw [OF sends_write_flash_data [OF assms(4,5)] assms(1,2) run] show ?thesis
    by (auto simp: bs_def)
qed

lemma read_flash_writes:
  assumes "c2_inv line s" and "dev_access s" and "flash_access s" and "off < flash_bytes e"
    and "n = min 128 (min count (nat (flash_bytes e - off)))" and "0 < count"
    and "run_state (c2port_read_flash_data e off count) s = ((r, data), s')"
  defines "bs \<equiv> WriteAR 0xB4 # map WriteDR [0x06, word_of_int (drop_bit 8 off), word_of_int (off AND 0xff), of_nat n]"
  shows "r = int n \<and> length data = n \<and> reg_writes line s' = reg_writes line s @ bs \<or>
         r \<in> {- EIO, - EBUSY} \<and> (\<exists>p. prefix p bs \<and> reg_writes line s' = reg_writes line s @ p)"
proof -
  obtain d where d: "run_state (read_flash_data e off count) (hw s) = ((r, data), d)" and s': "s' = s\<lparr>hw := d\<rparr>"
    using assms by (auto simp: c2port_read_flash_data_def dev_get_def on_hw_def split: prod.splits)
  show ?thesis
    using validD [OF read_flash_data_wrote [OF assms(4-6)] inv_on_wrote [OF assms(1,2)] d]
      wrote_reg_writes [of _ s'] s' by (auto simp: bs_def)
qed

end

end
