(* ===== verification/C2duramar.thy ===== *)
theory C2duramar
  imports C2sysfs
begin

text \<open>
  The Duramar 2150 board, \<^verbatim>\<open>test_c2port/c2port-duramar2150.c\<close>: the C2 lines are bits 0 and 1 of an
  I/O port with a direction register. The board's operations are shown to satisfy the contract of
  the C2 core, so everything proved of the core holds on this board.
\<close>

section \<open>The port\<close>

text \<open>
  The two port bytes and what the environment records: the rising clock edges and the length of the
  current low pulse. A line whose direction bit is 1 is an output and reads back what was written;
  an input reads the level outside: of the data line, what the C2 target \<open>tgt\<close> answers to the edges
  so far, of any other line, \<open>pins\<close>. \<^verbatim>\<open>inb\<close> and \<^verbatim>\<open>outb\<close> are the kernel's accesses to the port; the
  board behind it is described by a comment of the source (a direction bit of 1 makes an output), and what
  is not described, the target and the other pins, is an argument.
\<close>

record dura =
  data_byte :: u8
  dir_byte :: u8
  pins :: u8
  edges :: "c2_event list"
  low_time :: nat

abbreviation (input) DATA_PORT :: nat where "DATA_PORT \<equiv> 0x325"
abbreviation (input) DIR_PORT :: nat where "DIR_PORT \<equiv> 0x326"
abbreviation (input) C2D :: u8 where "C2D \<equiv> 1"
abbreviation (input) C2CK :: u8 where "C2CK \<equiv> 2"

definition outside :: "(c2_event list \<Rightarrow> bool) \<Rightarrow> dura \<Rightarrow> u8" where
  "outside tgt d = (if tgt (edges d) then pins d OR C2D else pins d AND NOT C2D)"

definition inb :: "(c2_event list \<Rightarrow> bool) \<Rightarrow> nat \<Rightarrow> dura \<Rightarrow> u8" where
  "inb tgt port d =
     (if port = DIR_PORT then dir_byte d
      else (data_byte d AND dir_byte d) OR (outside tgt d AND NOT (dir_byte d)))"

definition outb :: "u8 \<Rightarrow> nat \<Rightarrow> dura \<Rightarrow> dura" where
  "outb v port d =
     (if port = DIR_PORT then d\<lparr>dir_byte := v\<rparr>
      else d\<lparr>data_byte := v,
             edges := (if bit (dir_byte d) 1 \<and> \<not> bit (data_byte d) 1 \<and> bit v 1
                       then edges d @ [Edge (low_time d) (if bit (dir_byte d) 0 then Some (bit v 0) else None)]
                       else edges d),
             low_time := (if bit (data_byte d) 1 \<and> \<not> bit v 1 then 0 else low_time d)\<rparr>)"

definition dura_udelay :: "nat \<Rightarrow> dura \<Rightarrow> dura" where
  "dura_udelay n d = (if bit (data_byte d) 1 then d else d\<lparr>low_time := low_time d + n\<rparr>)"

section \<open>The board's operations\<close>

definition duramar2150_c2port_access :: "(c2_event list \<Rightarrow> bool) \<Rightarrow> dura \<Rightarrow> int \<Rightarrow> dura" where
  "duramar2150_c2port_access tgt d status =
     (let v = inb tgt DIR_PORT d
      in if status \<noteq> 0 then outb (v OR (C2D OR C2CK)) DIR_PORT d
         else outb (v AND NOT (C2D OR C2CK)) DIR_PORT d)"

definition duramar2150_c2port_c2d_dir :: "(c2_event list \<Rightarrow> bool) \<Rightarrow> dura \<Rightarrow> int \<Rightarrow> dura" where
  "duramar2150_c2port_c2d_dir tgt d dir =
     (let v = inb tgt DIR_PORT d
      in if dir \<noteq> 0 then outb (v AND NOT C2D) DIR_PORT d else outb (v OR C2D) DIR_PORT d)"

definition duramar2150_c2port_c2d_get :: "(c2_event list \<Rightarrow> bool) \<Rightarrow> dura \<Rightarrow> int" where
  "duramar2150_c2port_c2d_get tgt d = uint (inb tgt DATA_PORT d AND C2D)"

definition duramar2150_c2port_c2d_set :: "(c2_event list \<Rightarrow> bool) \<Rightarrow> dura \<Rightarrow> int \<Rightarrow> dura" where
  "duramar2150_c2port_c2d_set tgt d status =
     (let v = inb tgt DATA_PORT d
      in if status \<noteq> 0 then outb (v OR C2D) DATA_PORT d else outb (v AND NOT C2D) DATA_PORT d)"

definition duramar2150_c2port_c2ck_set :: "(c2_event list \<Rightarrow> bool) \<Rightarrow> dura \<Rightarrow> int \<Rightarrow> dura" where
  "duramar2150_c2port_c2ck_set tgt d status =
     (let v = inb tgt DATA_PORT d
      in if status \<noteq> 0 then outb (v OR C2CK) DATA_PORT d else outb (v AND NOT C2CK) DATA_PORT d)"

definition duramar2150_c2port_ops :: "(c2_event list \<Rightarrow> bool) \<Rightarrow> dura c2port_ops" where
  "duramar2150_c2port_ops tgt =
     \<lparr>block_size = 512, blocks_num = 30,
      access = duramar2150_c2port_access tgt, c2d_dir = duramar2150_c2port_c2d_dir tgt,
      c2d_get = duramar2150_c2port_c2d_get tgt, c2d_set = duramar2150_c2port_c2d_set tgt,
      c2ck_set = duramar2150_c2port_c2ck_set tgt\<rparr>"

definition duramar_env :: "(c2_event list \<Rightarrow> bool) \<Rightarrow> dura c2env" where
  "duramar_env tgt = \<lparr>ops = duramar2150_c2port_ops tgt, udelay = dura_udelay\<rparr>"

lemma duramar_env_simps [simp]:
  "block_size (ops (duramar_env tgt)) = 512"
  "blocks_num (ops (duramar_env tgt)) = 30"
  "access (ops (duramar_env tgt)) = duramar2150_c2port_access tgt"
  "c2d_dir (ops (duramar_env tgt)) = duramar2150_c2port_c2d_dir tgt"
  "c2d_get (ops (duramar_env tgt)) = duramar2150_c2port_c2d_get tgt"
  "c2d_set (ops (duramar_env tgt)) = duramar2150_c2port_c2d_set tgt"
  "c2ck_set (ops (duramar_env tgt)) = duramar2150_c2port_c2ck_set tgt"
  "udelay (duramar_env tgt) = dura_udelay"
  by (simp_all add: duramar_env_def duramar2150_c2port_ops_def)

section \<open>The board satisfies the contract of the core\<close>

definition dura_line :: "dura \<Rightarrow> c2_line" where
  "dura_line d = \<lparr>tr = edges d, en = bit (dir_byte d) 1, ck = bit (data_byte d) 1, low = low_time d,
                  out = (if bit (dir_byte d) 0 then Some (bit (data_byte d) 0) else None)\<rparr>"

lemmas dura_defs = duramar2150_c2port_access_def duramar2150_c2port_c2d_dir_def
  duramar2150_c2port_c2d_get_def duramar2150_c2port_c2d_set_def duramar2150_c2port_c2ck_set_def
  inb_def outb_def outside_def dura_udelay_def dura_line_def Let_def

lemma and_one_nonzero: "uint (x AND C2D) \<noteq> 0 \<longleftrightarrow> bit x 0"
  by (simp add: and_one_eq uint_0_iff bit_0 odd_iff_mod_2_eq_one)

lemma bit_two_u8 [simp]: "bit (2::u8) n \<longleftrightarrow> n = 1"
  using bit_2_iff [of n, where ?'a = u8] by (cases "n < 8") (auto simp: bit_beyond_u8)

lemma bit_one_u8 [simp]: "bit (1::u8) n \<longleftrightarrow> n = 0"
  by (simp add: bit_1_iff)

interpretation dura: c2_link "duramar_env tgt" dura_line "\<lambda>d. bit (data_byte d) 0" tgt for tgt
proof (unfold_locales, goal_cases)
  case (1 d v) then show ?case by (simp add: dura_defs line_defs bit_simps)
next
  case (2 d v) then show ?case by (simp add: dura_defs line_defs bit_simps)
next
  case (3 d v) then show ?case by (auto simp add: dura_defs line_defs bit_simps)
next
  case (4 n d) then show ?case by (simp add: dura_defs line_defs)
next
  case (5 d) then show ?case by (simp add: and_one_nonzero dura_defs bit_simps)
next
  case (6 d) then show ?case by (simp add: dura_defs bit_simps)
next
  case (7 d) then show ?case by (simp add: dura_defs bit_simps)
qed

section \<open>Module initialisation\<close>

text \<open>The I/O region is taken or free; the module keeps the pointer to its device.\<close>

record dura_mod =
  region :: bool
  c2port_dev :: "nat kptr"
  c2sys :: "dura c2sys"

definition duramar_raw_ops :: "(c2_event list \<Rightarrow> bool) \<Rightarrow> dura raw_ops" where
  "duramar_raw_ops tgt = \<lparr>r_ops = duramar2150_c2port_ops tgt, has_access = True, has_c2d_dir = True,
     has_c2d_get = True, has_c2d_set = True, has_c2ck_set = True\<rparr>"

definition duramar2150_c2port_init ::
    "(c2_event list \<Rightarrow> bool) \<Rightarrow> c2kernel \<Rightarrow> dura \<Rightarrow> dura_mod \<Rightarrow> int \<times> dura_mod" where
  "duramar2150_c2port_init tgt k d m =
     (if region m then (- EBUSY, m)
      else case c2port_device_register k ''uc'' (Some (duramar_raw_ops tgt)) d (c2sys m) of
        (p, sys) \<Rightarrow>
          let m1 = m\<lparr>region := True, c2port_dev := p, c2sys := sys\<rparr>
          in if IS_ERR p then (PTR_ERR p, m1\<lparr>region := False\<rparr>) else (0, m1))"

text \<open>Unloading: the pins become inputs, then the device goes; \<open>None\<close> is an invalid access.\<close>

definition duramar2150_c2port_exit ::
    "(c2_event list \<Rightarrow> bool) \<Rightarrow> (nat \<Rightarrow> (nat \<times> nat) list \<Rightarrow> (nat \<times> nat) list) \<Rightarrow> dura \<Rightarrow> dura_mod \<Rightarrow>
     (dura \<times> dura_mod) option" where
  "duramar2150_c2port_exit tgt device_destroy d m =
     (let d' = duramar2150_c2port_access tgt d 0
      in map_option (\<lambda>sys. (d', m\<lparr>region := False, c2sys := sys\<rparr>))
           (c2port_device_unregister device_destroy (c2port_dev m) (c2sys m)))"

text \<open>
  Loading the Duramar module returns 0 exactly when the device is registered and the region is
  held; every failure is a negative error and gives the region back.
\<close>

theorem duramar2150_c2port_init_spec:
  assumes "duramar2150_c2port_init tgt k d m = (r, m')" and "\<not> region m"
    and create_err: "\<And>r. k_device_create k = ERR r \<Longrightarrow> r < 0"
  shows "(r = 0 \<and> region m' \<and> (\<exists>a c. c2port_dev m' = PTR a \<and> devs (c2sys m') a = Some c \<and>
            \<not> dev_access c \<and> hw c = duramar2150_c2port_access tgt d 0)) \<or>
         (r < 0 \<and> \<not> region m' \<and> c2port_dev m' = ERR r \<and> devs (c2sys m') = devs (c2sys m))"
  using assms
  by (cases "k_device_create k")
     (auto simp: duramar2150_c2port_init_def c2port_device_register_def duramar_raw_ops_def
        duramar2150_c2port_ops_def Let_def split: option.splits if_splits)

theorem duramar2150_c2port_init_spec_witness:
  "\<exists>r m'. duramar2150_c2port_init (\<lambda>_. True)
       \<lparr>k_malloc = Some 7, k_idr_alloc = 0, k_device_create = PTR (), k_name_len = 32\<rparr>
       \<lparr>data_byte = 0, dir_byte = 3, pins = 0, edges = [], low_time = 0\<rparr>
       \<lparr>region = False, c2port_dev = NULL, c2sys = \<lparr>devs = Map.empty, idr = Map.empty, nodes = [], bin_size = 0\<rparr>\<rparr>
     = (r, m') \<and> (r = 0 \<and> region m' \<or> r < 0 \<and> \<not> region m')"
proof -
  let ?k = "\<lparr>k_malloc = Some 7, k_idr_alloc = 0, k_device_create = PTR (), k_name_len = 32\<rparr>"
  let ?d = "\<lparr>data_byte = 0, dir_byte = 3, pins = 0, edges = [], low_time = 0\<rparr>"
  let ?m = "\<lparr>region = False, c2port_dev = NULL, c2sys = \<lparr>devs = Map.empty, idr = Map.empty, nodes = [], bin_size = 0\<rparr>\<rparr>"
  show ?thesis
    using duramar2150_c2port_init_spec [of "\<lambda>_. True" ?k ?d ?m] by (metis c2kernel.select_convs(3)
      dura_mod.select_convs(1) kptr.distinct(5) prod.exhaust)
qed

section \<open>Correctness of the core on this board\<close>

text \<open>
  C6: Whatever sysfs requests are made after a device was registered, and whatever the target
  answers: between requests the host does not drive the data line, both lines are inputs whenever
  access is off, the clock rests high whenever access is on, and everything that was put on the
  wires is a sequence of well-formed C2 commands with strobes shorter than 5 microseconds and resets
  of at least 20.
\<close>

theorem duramar_reach_inv:
  assumes "c2_reach (duramar_env tgt) s0 s"
    and "hw s0 = duramar2150_c2port_access tgt d 0" and "\<not> dev_access s0" and "trace_ok (edges d)"
  shows "\<not> bit (dir_byte (hw s)) 0 \<and> bit (dir_byte (hw s)) 1 = dev_access s \<and>
         (dev_access s \<longrightarrow> bit (data_byte (hw s)) 1) \<and> trace_ok (edges (hw s))"
proof -
  have "c2_inv dura_line s0"
    using assms(2-4) dura.line_access_off [of tgt d] by (simp add: c2_inv_def dura_line_def)
  from dura.reach_inv [OF assms(1) this] show ?thesis
    by (simp add: c2_inv_def dura_line_def split: if_splits)
qed

theorem duramar_reach_inv_witness:
  "\<exists>s. run_state (c2_handle (duramar_env (\<lambda>_. True)) (StoreAccess (Some 1) 2))
      \<lparr>dev_id = 0, dev_name = ''uc'', dev_access = False, flash_access = False,
       hw = duramar2150_c2port_access (\<lambda>_. True)
              \<lparr>data_byte = 0, dir_byte = 3, pins = 0, edges = [], low_time = 0\<rparr> 0\<rparr> = (2, s) \<and>
      bit (data_byte (hw s)) 1 \<and> \<not> bit (dir_byte (hw s)) 0"
proof -
  let ?e = "duramar_env (\<lambda>_. True)"
  let ?d = "\<lparr>data_byte = 0, dir_byte = 3, pins = 0, edges = [], low_time = 0\<rparr>"
  let ?s0 = "\<lparr>dev_id = 0, dev_name = ''uc'', dev_access = False, flash_access = False,
       hw = duramar2150_c2port_access (\<lambda>_. True) ?d 0\<rparr>"
  obtain s where run: "run_state (c2_handle ?e (StoreAccess (Some 1) 2)) ?s0 = (2, s)" and "dev_access s"
    by (simp add: c2_handle_def dura.access_store_run)
  moreover have "c2_reach ?e ?s0 s"
    by (rule c2_reach.step [OF c2_reach.init run])
  ultimately show ?thesis
    using duramar_reach_inv [of "\<lambda>_. True" ?s0 s ?d] by (simp add: trace_ok_def commands_def)
qed

text \<open>
  C28: Writing flash data. With access and flash access on and the offset inside the 15360 bytes of
  flash, the handler either returns the number of bytes written, which is the largest possible up to
  128, and the target has received exactly the block-write command with the address, the count and
  those bytes; or it returns an I/O or busy error and the target has received a beginning of that
  sequence. In both cases nothing else was written to any register.
\<close>

theorem duramar_write_flash_data:
  assumes "c2_inv dura_line s" and "dev_access s" and "flash_access s" and "off < 15360"
    and "n = min 128 (min count (nat (15360 - off)))"
    and "run_state (c2port_write_flash_data (duramar_env tgt) buf off count) s = (r, s')"
  shows "let bs = WriteAR 0xB4 # map WriteDR ([0x07, word_of_int (drop_bit 8 off),
                    word_of_int (off AND 0xff), of_nat n] @ take n buf)
         in r = int n \<and> reg_writes dura_line s' = reg_writes dura_line s @ bs \<or>
            r \<in> {- EIO, - EBUSY} \<and> (\<exists>p. prefix p bs \<and> reg_writes dura_line s' = reg_writes dura_line s @ p)"
  unfolding Let_def
  using dura.write_flash_writes [OF assms(1-3) _ _ assms(6), of n] assms(4,5) by (simp add: flash_bytes_def)

text \<open>A device with both accesses on and its pins at rest.\<close>

definition dura_ready :: "dura c2port_device" where
  "dura_ready = \<lparr>dev_id = 0, dev_name = ''uc'', dev_access = True, flash_access = True,
     hw = \<lparr>data_byte = 2, dir_byte = 2, pins = 0, edges = [], low_time = 0\<rparr>\<rparr>"

lemma dura_ready_simps [simp]:
  "c2_inv dura_line dura_ready" "dev_access dura_ready" "flash_access dura_ready"
  "reg_writes dura_line dura_ready = []"
  by (simp_all add: dura_ready_def c2_inv_def dura_line_def trace_ok_def commands_def reg_writes_def)

theorem duramar_write_flash_data_witness:
  "\<exists>r s'. run_state (c2port_write_flash_data (duramar_env (\<lambda>_. True)) [1, 2, 3] 256 3) dura_ready = (r, s') \<and>
     (r = 3 \<and> reg_writes dura_line s' = WriteAR 0xB4 # map WriteDR [0x07, 0x01, 0x00, 3, 1, 2, 3] \<or>
      r \<in> {- EIO, - EBUSY})"
proof -
  obtain r s' where run: "run_state (c2port_write_flash_data (duramar_env (\<lambda>_. True)) [1, 2, 3] 256 3) dura_ready = (r, s')"
    by (rule prod.exhaust)
  show ?thesis
    using duramar_write_flash_data [of dura_ready 256 3 3, OF _ _ _ _ _ run] run
    by (auto simp: Let_def drop_bit_eq_div)
qed

text \<open>C29: Reading flash data. Under the same conditions the handler either returns the number of bytes
  read, again the largest possible up to 128, and delivers that many bytes after sending exactly the
  block-read command with the address and the count; or it returns an error after a beginning of it.
\<close>

theorem duramar_read_flash_data:
  assumes "c2_inv dura_line s" and "dev_access s" and "flash_access s" and "off < 15360"
    and "n = min 128 (min count (nat (15360 - off)))" and "0 < count"
    and "run_state (c2port_read_flash_data (duramar_env tgt) off count) s = ((r, data), s')"
  shows "let bs = WriteAR 0xB4 # map WriteDR [0x06, word_of_int (drop_bit 8 off),
                    word_of_int (off AND 0xff), of_nat n]
         in r = int n \<and> length data = n \<and> reg_writes dura_line s' = reg_writes dura_line s @ bs \<or>
            r \<in> {- EIO, - EBUSY} \<and> (\<exists>p. prefix p bs \<and> reg_writes dura_line s' = reg_writes dura_line s @ p)"
  unfolding Let_def
  using dura.read_flash_writes [OF assms(1-3) _ _ assms(6,7), of n] assms(4,5) by (simp add: flash_bytes_def)

theorem duramar_read_flash_data_witness:
  "\<exists>r data s'. run_state (c2port_read_flash_data (duramar_env (\<lambda>_. True)) 15350 64) dura_ready = ((r, data), s') \<and>
     (r = 10 \<and> length data = 10 \<or> r \<in> {- EIO, - EBUSY})"
proof -
  obtain r data s' where run:
    "run_state (c2port_read_flash_data (duramar_env (\<lambda>_. True)) 15350 64) dura_ready = ((r, data), s')"
    by (metis prod.exhaust)
  show ?thesis
    using duramar_read_flash_data [of dura_ready 15350 10 64, OF _ _ _ _ _ _ run] run
    by (auto simp: Let_def)
qed

text \<open>
  Erasing. The handler succeeds only after the erase command and the complete arming sequence
  DE AD A5 went to the flash data register; on an error a beginning of that sequence was sent. When
  access or flash access is off it returns a busy error and touches neither pins nor flags.
\<close>

theorem duramar_flash_erase:
  assumes "c2_inv dura_line s" and "run_state (c2port_store_flash_erase (duramar_env tgt) n) s = (r, s')"
  shows "let bs = WriteAR 0xB4 # map WriteDR [0x03, 0xde, 0xad, 0xa5]
         in if dev_access s \<and> flash_access s
            then r = int n \<and> reg_writes dura_line s' = reg_writes dura_line s @ bs \<or>
                 r \<in> {- EIO, - EBUSY} \<and> (\<exists>p. prefix p bs \<and> reg_writes dura_line s' = reg_writes dura_line s @ p)
            else r = - EBUSY \<and> s' = s"
proof (cases "dev_access s \<and> flash_access s")
  case True
  then show ?thesis using dura.store_flash_erase_writes [OF assms(1) _ _ assms(2)] by (simp add: Let_def)
next
  case False
  then show ?thesis
    using assms(2) by (auto simp: c2port_store_flash_erase_def dev_get_def split: if_splits)
qed

theorem duramar_flash_erase_witness:
  "\<exists>r s'. run_state (c2port_store_flash_erase (duramar_env (\<lambda>_. True)) 2) dura_ready = (r, s') \<and>
     (r = 2 \<and> reg_writes dura_line s' = WriteAR 0xB4 # map WriteDR [0x03, 0xde, 0xad, 0xa5] \<or> r \<in> {- EIO, - EBUSY})"
proof -
  obtain r s' where run: "run_state (c2port_store_flash_erase (duramar_env (\<lambda>_. True)) 2) dura_ready = (r, s')"
    by (rule prod.exhaust)
  show ?thesis
    using duramar_flash_erase [OF _ run] run by (auto simp: Let_def)
qed

text \<open>
  Reading the data register. On an idle bus the host sends the read instruction, waits at most 20
  strobes for the target to answer with 1, and then samples the eight bits the target presents, the
  least significant first; it returns an I/O error exactly when there was no answer. The bus is idle
  again afterwards and the target has seen one more command, ReadDR.
\<close>

theorem duramar_read_dr:
  assumes "bit (dir_byte d) 1" and "\<not> bit (dir_byte d) 0" and "bit (data_byte d) 1"
    and "run_state (c2port_read_dr (duramar_env tgt)) d = ((r, data), d')"
  shows "let f = edges d @ rel 1 @ drive [False, False, False, False] in
           (case wait_answer tgt f 20 of
              Some k \<Rightarrow> r = 0 \<and> edges d' = f @ rel (k + 9) \<and> (\<forall>i<8. bit data i = tgt (f @ rel (Suc (k + i))))
            | None \<Rightarrow> r = - EIO \<and> edges d' = f @ rel 20) \<and>
           commands (edges d') = commands (edges d) @ [ReadDR] \<and>
           bit (dir_byte d') 1 \<and> \<not> bit (dir_byte d') 0 \<and> bit (data_byte d') 1"
proof -
  have bus: "dura.bus (edges d) None d" and seen: "dura.seen (commands (edges d)) d"
    using assms by (simp_all add: dura.bus_def dura.seen_def dura.idle_def dura_line_def)
  have "dura.seen (commands (edges d) @ [ReadDR]) d'"
    using validD [OF dura.read_dr_seen seen assms(4)] by simp
  moreover have "let f = edges d @ rel 1 @ drive [False, False, False, False] in
      case wait_answer tgt f 20 of
        Some k \<Rightarrow> r = 0 \<and> dura.bus (f @ rel (k + 9)) None d' \<and> (\<forall>i<8. bit data i = tgt (f @ rel (Suc (k + i))))
      | None \<Rightarrow> r = - EIO \<and> dura.bus (f @ rel 20) None d'"
    using validD [OF dura.read_dr_bus bus assms(4)] by simp
  ultimately show ?thesis
    by (auto simp: Let_def dura.bus_def dura.seen_def dura.idle_def dura_line_def split: option.splits if_splits)
qed

theorem duramar_read_dr_witness:
  "\<exists>data d'. run_state (c2port_read_dr (duramar_env (\<lambda>t. length t \<noteq> 8)))
       \<lparr>data_byte = 2, dir_byte = 2, pins = 0, edges = [], low_time = 0\<rparr> = ((0, data), d') \<and>
     \<not> bit data 1 \<and> bit data 2 \<and> commands (edges d') = [ReadDR]"
proof -
  let ?tgt = "\<lambda>t. length (t :: c2_event list) \<noteq> 8"
  let ?d = "\<lparr>data_byte = 2, dir_byte = 2, pins = 0, edges = [], low_time = 0\<rparr>"
  have answer: "wait_answer ?tgt (rel 1 @ drive [False, False, False, False]) 20 = Some 1"
    by (simp add: numeral_eq_Suc)
  obtain r data d' where run: "run_state (c2port_read_dr (duramar_env ?tgt)) ?d = ((r, data), d')"
    by (metis prod.exhaust)
  from duramar_read_dr [OF _ _ _ run] answer
  have "r = 0" and bits: "\<forall>i<8. bit data i = (i \<noteq> 1)" and "commands (edges d') = [ReadDR]"
    by (auto simp: Let_def commands_def)
  moreover have "\<not> bit data 1" "bit data 2"
    using bits [rule_format, of 1] bits [rule_format, of 2] by simp_all
  ultimately show ?thesis using run by blast
qed

end
