(* ===== verification/C2efm.thy ===== *)
theory C2efm
  imports C2sysfs
begin

text \<open>
  The EFM8SB1 board, \<^verbatim>\<open>test_c2port/c2port-client.c\<close>: the C2 lines are two GPIOs. The kernel's GPIO
  functions are parameters; what the board relies on is the locale \<open>gpio_lib\<close>, under which the
  board's operations satisfy the contract of the C2 core.
\<close>

section \<open>The board's operations\<close>

record 'g gpio_api =
  gpio_direction_output :: "nat \<Rightarrow> int \<Rightarrow> 'g \<Rightarrow> 'g"
  gpio_direction_input :: "nat \<Rightarrow> 'g \<Rightarrow> 'g"
  gpio_set_value :: "nat \<Rightarrow> int \<Rightarrow> 'g \<Rightarrow> 'g"
  gpio_get_value :: "nat \<Rightarrow> 'g \<Rightarrow> int"

definition GPIO_TO_PIN :: "nat \<Rightarrow> nat" where
  "GPIO_TO_PIN gpio = 933 + gpio"

definition C2D_IO :: nat where "C2D_IO = GPIO_TO_PIN 20"
definition C2CK_IO :: nat where "C2CK_IO = GPIO_TO_PIN 21"

definition efm_access :: "'g gpio_api \<Rightarrow> 'g \<Rightarrow> int \<Rightarrow> 'g" where
  "efm_access io g status =
     (if status \<noteq> 0
      then gpio_direction_output io C2CK_IO 1 (gpio_direction_output io C2D_IO 1 g)
      else gpio_direction_input io C2CK_IO (gpio_direction_input io C2D_IO g))"

definition efm_c2d_dir :: "'g gpio_api \<Rightarrow> 'g \<Rightarrow> int \<Rightarrow> 'g" where
  "efm_c2d_dir io g dir =
     (if dir \<noteq> 0 then gpio_direction_input io C2D_IO g else gpio_direction_output io C2D_IO 1 g)"

definition efm_c2d_get :: "'g gpio_api \<Rightarrow> 'g \<Rightarrow> int" where
  "efm_c2d_get io g = gpio_get_value io C2D_IO g"

definition efm_c2d_set :: "'g gpio_api \<Rightarrow> 'g \<Rightarrow> int \<Rightarrow> 'g" where
  "efm_c2d_set io g status =
     (if status \<noteq> 0 then gpio_set_value io C2D_IO 1 g else gpio_set_value io C2D_IO 0 g)"

definition efm_c2ck_set :: "'g gpio_api \<Rightarrow> 'g \<Rightarrow> int \<Rightarrow> 'g" where
  "efm_c2ck_set io g status =
     (if status \<noteq> 0 then gpio_set_value io C2CK_IO 1 g else gpio_set_value io C2CK_IO 0 g)"

definition efm_c2port_ops :: "'g gpio_api \<Rightarrow> 'g c2port_ops" where
  "efm_c2port_ops io =
     \<lparr>block_size = 512, blocks_num = 16, access = efm_access io, c2d_dir = efm_c2d_dir io,
      c2d_get = efm_c2d_get io, c2d_set = efm_c2d_set io, c2ck_set = efm_c2ck_set io\<rparr>"

definition efm_env :: "'g gpio_api \<Rightarrow> (nat \<Rightarrow> 'g \<Rightarrow> 'g) \<Rightarrow> 'g c2env" where
  "efm_env io delay = \<lparr>ops = efm_c2port_ops io, udelay = delay\<rparr>"

lemma efm_env_simps [simp]:
  "block_size (ops (efm_env io delay)) = 512"
  "blocks_num (ops (efm_env io delay)) = 16"
  "access (ops (efm_env io delay)) = efm_access io"
  "c2d_dir (ops (efm_env io delay)) = efm_c2d_dir io"
  "c2d_get (ops (efm_env io delay)) = efm_c2d_get io"
  "c2d_set (ops (efm_env io delay)) = efm_c2d_set io"
  "c2ck_set (ops (efm_env io delay)) = efm_c2ck_set io"
  "udelay (efm_env io delay) = delay"
  by (simp_all add: efm_env_def efm_c2port_ops_def)

section \<open>What the board relies on\<close>

text \<open>
  The documented behaviour of the GPIO functions on two lines wired to a C2 target, through a view
  \<open>line\<close> of the two lines: making a line an output drives the given level without a glitch, an input
  is released, setting a value drives an output line, reading an output gives its level and reading
  an input what the target answers; a busy-wait only lets time pass. The clock line is enabled when
  it is an output.
\<close>

locale gpio_lib =
  fixes io :: "'g gpio_api"
    and delay :: "nat \<Rightarrow> 'g \<Rightarrow> 'g"
    and line :: "'g \<Rightarrow> c2_line"
    and tgt :: "c2_event list \<Rightarrow> bool"
  assumes data_out: "line (gpio_direction_output io C2D_IO v g) = (line g)\<lparr>out := Some (v \<noteq> 0)\<rparr>"
    and data_in: "line (gpio_direction_input io C2D_IO g) = (line g)\<lparr>out := None\<rparr>"
    and data_set: "line (gpio_set_value io C2D_IO v g) = l_set v (line g)"
    and data_get: "gpio_get_value io C2D_IO g \<noteq> 0 \<longleftrightarrow>
                     (case out (line g) of Some b \<Rightarrow> b | None \<Rightarrow> tgt (tr (line g)))"
    and clock_out: "ck (line g) \<Longrightarrow> line (gpio_direction_output io C2CK_IO 1 g) = (line g)\<lparr>en := True\<rparr>"
    and clock_in: "line (gpio_direction_input io C2CK_IO g) = (line g)\<lparr>en := False\<rparr>"
    and clock_set: "line (gpio_set_value io C2CK_IO v g) = l_ck v (line g)"
    and delays: "line (delay n g) = l_delay n (line g)"
begin

lemmas gpio_laws = data_out data_in data_set data_get clock_out clock_in clock_set delays

end

sublocale gpio_lib \<subseteq> efm: c2_link "efm_env io delay" line "\<lambda>_. True" tgt
  by unfold_locales
     (auto simp: efm_access_def efm_c2d_dir_def efm_c2d_get_def efm_c2d_set_def efm_c2ck_set_def
        gpio_laws line_defs intro!: exI [of _ True])

context gpio_lib
begin

lemma registered_inv:
  assumes "hw s0 = efm_access io g 0" and "\<not> dev_access s0" and "trace_ok (tr (line g))"
  shows "c2_inv line s0"
  using assms by (simp add: c2_inv_def efm_access_def data_in clock_in)

lemma registered_reach_inv:
  assumes "c2_reach (efm_env io delay) s0 s"
    and "hw s0 = efm_access io g 0" and "\<not> dev_access s0" and "trace_ok (tr (line g))"
  shows "c2_inv line s"
  by (rule efm.reach_inv [OF assms(1) registered_inv [OF assms(2-4)]])

end

section \<open>A GPIO controller\<close>

text \<open>
  A controller with a direction and an output level per line, which shows that the assumptions can
  be met. The lines are pulled up, so a clock line that is an input counts as high only through its
  output level.
\<close>

record gpio_bank =
  is_output :: "nat \<Rightarrow> bool"
  level :: "nat \<Rightarrow> bool"
  g_edges :: "c2_event list"
  g_low :: nat

definition bank_line :: "gpio_bank \<Rightarrow> c2_line" where
  "bank_line g = \<lparr>tr = g_edges g, en = is_output g C2CK_IO, ck = level g C2CK_IO, low = g_low g,
                  out = (if is_output g C2D_IO then Some (level g C2D_IO) else None)\<rparr>"

definition bank_set :: "nat \<Rightarrow> int \<Rightarrow> gpio_bank \<Rightarrow> gpio_bank" where
  "bank_set pin v g =
     (if pin = C2CK_IO then
        g\<lparr>level := (level g)(pin := (v \<noteq> 0)),
          g_edges := (if is_output g pin \<and> \<not> level g pin \<and> v \<noteq> 0
                      then g_edges g @ [Edge (g_low g) (out (bank_line g))] else g_edges g),
          g_low := (if level g pin \<and> v = 0 then 0 else g_low g)\<rparr>
      else g\<lparr>level := (level g)(pin := (v \<noteq> 0))\<rparr>)"

definition bank_api :: "(c2_event list \<Rightarrow> bool) \<Rightarrow> gpio_bank gpio_api" where
  "bank_api tgt =
     \<lparr>gpio_direction_output = (\<lambda>pin v g. (bank_set pin v g)\<lparr>is_output := (is_output g)(pin := True)\<rparr>),
      gpio_direction_input = (\<lambda>pin g. g\<lparr>is_output := (is_output g)(pin := False)\<rparr>),
      gpio_set_value = bank_set,
      gpio_get_value = (\<lambda>pin g. of_bool (if is_output g pin then level g pin else tgt (g_edges g)))\<rparr>"

definition bank_delay :: "nat \<Rightarrow> gpio_bank \<Rightarrow> gpio_bank" where
  "bank_delay n g = (if level g C2CK_IO then g else g\<lparr>g_low := g_low g + n\<rparr>)"

lemma pins_differ [simp]: "C2CK_IO \<noteq> C2D_IO" "C2D_IO \<noteq> C2CK_IO"
  by (simp_all add: C2CK_IO_def C2D_IO_def GPIO_TO_PIN_def)

interpretation bank: gpio_lib "bank_api tgt" bank_delay bank_line tgt for tgt
  by unfold_locales
     (auto simp: bank_api_def bank_set_def bank_delay_def bank_line_def line_defs)

section \<open>Module initialisation\<close>

text \<open>The requested GPIOs and the pointer the module keeps.\<close>

record 'g efm_mod =
  requested :: "nat set"
  efm_dev :: "nat kptr"
  efm_sys :: "'g c2sys"

definition efm_raw_ops :: "'g gpio_api \<Rightarrow> 'g raw_ops" where
  "efm_raw_ops io = \<lparr>r_ops = efm_c2port_ops io, has_access = True, has_c2d_dir = True,
     has_c2d_get = True, has_c2d_set = True, has_c2ck_set = True\<rparr>"

definition efm_c2port_init :: "'g gpio_api \<Rightarrow> c2kernel \<Rightarrow> 'g \<Rightarrow> 'g efm_mod \<Rightarrow> int \<times> 'g efm_mod" where
  "efm_c2port_init io k g m =
     (case c2port_device_register k ''uc'' (Some (efm_raw_ops io)) g (efm_sys m) of
        (p, sys) \<Rightarrow>
          let m1 = m\<lparr>requested := requested m \<union> {C2D_IO, C2CK_IO}, efm_dev := p, efm_sys := sys\<rparr>
          in (case p of
               NULL \<Rightarrow> (- 1, m1\<lparr>requested := requested m1 - {C2D_IO, C2CK_IO}\<rparr>)
             | _ \<Rightarrow> (0, m1)))"

definition efm_c2port_exit ::
    "'g gpio_api \<Rightarrow> (nat \<Rightarrow> (nat \<times> nat) list \<Rightarrow> (nat \<times> nat) list) \<Rightarrow> 'g \<Rightarrow> 'g efm_mod \<Rightarrow>
     ('g \<times> 'g efm_mod) option" where
  "efm_c2port_exit io device_destroy g m =
     (let g' = efm_access io g 0
      in map_option (\<lambda>sys. (g', m\<lparr>requested := requested m - {C2D_IO, C2CK_IO}, efm_sys := sys\<rparr>))
           (c2port_device_unregister device_destroy (efm_dev m) (efm_sys m)))"

section \<open>Correctness\<close>

text \<open>
  C30: On any GPIO controller that behaves as documented, every sequence of sysfs requests on the
  EFM8SB1 board leaves the data line released, both lines inputs while access is off, and has put
  only well-formed commands and pulses of the specified lengths on the wires.
\<close>

theorem efm_reach_inv:
  assumes "gpio_lib io delay line tgt" and "c2_reach (efm_env io delay) s0 s"
    and "hw s0 = efm_access io g 0" and "\<not> dev_access s0" and "trace_ok (tr (line g))"
  shows "c2_inv line s"
  by (rule gpio_lib.registered_reach_inv [OF assms])

theorem efm_reach_inv_witness:
  "\<exists>s. run_state (c2_handle (efm_env (bank_api (\<lambda>_. True)) bank_delay) (StoreAccess (Some 1) 2))
      \<lparr>dev_id = 0, dev_name = ''uc'', dev_access = False, flash_access = False,
       hw = efm_access (bank_api (\<lambda>_. True))
              \<lparr>is_output = (\<lambda>_. True), level = (\<lambda>_. False), g_edges = [], g_low = 0\<rparr> 0\<rparr> = (2, s) \<and>
      dev_access s \<and> c2_inv bank_line s"
proof -
  let ?e = "efm_env (bank_api (\<lambda>_. True)) bank_delay"
  let ?g = "\<lparr>is_output = (\<lambda>_. True), level = (\<lambda>_. False), g_edges = [], g_low = 0\<rparr>"
  let ?s0 = "\<lparr>dev_id = 0, dev_name = ''uc'', dev_access = False, flash_access = False,
       hw = efm_access (bank_api (\<lambda>_. True)) ?g 0\<rparr>"
  obtain s where run: "run_state (c2_handle ?e (StoreAccess (Some 1) 2)) ?s0 = (2, s)" and "dev_access s"
    by (simp add: c2_handle_def bank.efm.access_store_run)
  moreover have "c2_reach ?e ?s0 s"
    by (rule c2_reach.step [OF c2_reach.init run])
  ultimately show ?thesis
    using efm_reach_inv [OF bank.gpio_lib_axioms [of "\<lambda>_. True"], of ?s0 s ?g]
    by (simp add: bank_line_def trace_ok_def commands_def)
qed

text \<open>
  Loading the EFM8SB1 module reports success whatever the outcome of the registration, because
  the result is compared with the null pointer and an error pointer is not null; unloading it then
  uses the error pointer as a device.
\<close>

theorem efm_c2port_init_ignores_errors:
  assumes "efm_c2port_init io k g m = (r, m')"
  shows "r = 0 \<and> (IS_ERR (efm_dev m') \<longrightarrow> efm_c2port_exit io device_destroy g m' = None)"
  using assms
  by (auto simp: efm_c2port_init_def efm_c2port_exit_def c2port_device_register_def
      c2port_device_unregister_def Let_def split: option.splits if_splits kptr.splits prod.splits)

theorem efm_c2port_init_ignores_errors_witness:
  "IS_ERR (efm_dev (snd (efm_c2port_init (bank_api (\<lambda>_. True))
      \<lparr>k_malloc = None, k_idr_alloc = 0, k_device_create = PTR (), k_name_len = 32\<rparr>
      \<lparr>is_output = (\<lambda>_. True), level = (\<lambda>_. False), g_edges = [], g_low = 0\<rparr>
      \<lparr>requested = {}, efm_dev = NULL, efm_sys = \<lparr>devs = Map.empty, idr = Map.empty, nodes = [], bin_size = 0\<rparr>\<rparr>)))
   \<and> fst (efm_c2port_init (bank_api (\<lambda>_. True))
      \<lparr>k_malloc = None, k_idr_alloc = 0, k_device_create = PTR (), k_name_len = 32\<rparr>
      \<lparr>is_output = (\<lambda>_. True), level = (\<lambda>_. False), g_edges = [], g_low = 0\<rparr>
      \<lparr>requested = {}, efm_dev = NULL, efm_sys = \<lparr>devs = Map.empty, idr = Map.empty, nodes = [], bin_size = 0\<rparr>\<rparr>) = 0"
  using efm_c2port_init_ignores_errors [OF prod.collapse [symmetric]]
  by (simp add: efm_c2port_init_def c2port_device_register_def efm_raw_ops_def Let_def)

end
