(* ===== verification/Spi2apb.thy ===== *)
theory Spi2apb
  imports Prelude
begin

text \<open>
  The SPI-to-APB bridge driver, \<^verbatim>\<open>test_spi/spi2apb.c\<close>: commands to the bridge as SPI messages, bit
  reversal for a bridge that is still in LSB mode, writes and reads with a check of the bridge's
  state and a bounded number of tries, and writes of any length in chunks. \<^verbatim>\<open>spi_sync\<close> is a parameter:
  it maps a message and the state of the bus to a status, the bytes received (\<open>None\<close> when the
  receive buffer was not written) and the next state. Integers are stored little-endian.
\<close>

section \<open>Messages\<close>

datatype packet = Tx bytes | Rx nat

type_synonym 's spi = "packet list \<Rightarrow> 's \<Rightarrow> int \<times> bytes option \<times> 's"

abbreviation (input) APB_CMD_WRITE :: u32 where "APB_CMD_WRITE \<equiv> 0x11"
abbreviation (input) APB_CMD_WRITE_REG1 :: u32 where "APB_CMD_WRITE_REG1 \<equiv> 0x20011"
abbreviation (input) APB_CMD_READ :: u32 where "APB_CMD_READ \<equiv> 0x77"
abbreviation (input) APB_CMD_READ_BEGIN :: u32 where "APB_CMD_READ_BEGIN \<equiv> 0xAA"
abbreviation (input) APB_CMD_QUERY :: u32 where "APB_CMD_QUERY \<equiv> 0xFF"
abbreviation (input) APB_CMD_QUERY_REG2 :: u32 where "APB_CMD_QUERY_REG2 \<equiv> 0x1FF"
abbreviation (input) APB_OP_STATE_ID_MASK :: u32 where "APB_OP_STATE_ID_MASK \<equiv> 0xffff0000"
abbreviation (input) APB_OP_STATE_ID :: u32 where "APB_OP_STATE_ID \<equiv> 0x16080000"
abbreviation (input) APB_OP_STATE_MASK :: u32 where "APB_OP_STATE_MASK \<equiv> 0xffff"
abbreviation (input) APB_MAX_OP_BYTES :: nat where "APB_MAX_OP_BYTES \<equiv> 60000"
abbreviation (input) APB_SAFE_OPERATION_TRY_MAX :: nat where "APB_SAFE_OPERATION_TRY_MAX \<equiv> 3"

definition le32_bytes :: "u32 \<Rightarrow> bytes" where
  "le32_bytes w = [ucast w, ucast (drop_bit 8 w), ucast (drop_bit 16 w), ucast (drop_bit 24 w)]"

text \<open>The integer in a four-byte receive buffer; a buffer that was not written keeps its value.\<close>

definition le32_of :: "bytes \<Rightarrow> u32" where
  "le32_of bs = fold (\<lambda>b w. push_bit 8 w OR ucast b) (rev bs) 0"

definition received :: "u32 \<Rightarrow> bytes option \<Rightarrow> u32" where
  "received old rx = (case rx of None \<Rightarrow> old | Some bs \<Rightarrow> le32_of bs)"

section \<open>Bit order\<close>

definition int8_msb2lsb :: "u8 \<Rightarrow> u8" where
  "int8_msb2lsb src = fold (\<lambda>i dst. dst OR push_bit (7 - i) (drop_bit i src AND 1)) [0..<8] 0"

definition int32_msb2lsb :: "u32 \<Rightarrow> u32" where
  "int32_msb2lsb src =
     fold (\<lambda>i dst. dst OR push_bit (8 * i) (ucast (int8_msb2lsb (ucast (drop_bit (8 * i) src AND 0xff))))) [0..<4] 0"

section \<open>Commands\<close>

definition spi2apb_lsb_w32 :: "'s spi \<Rightarrow> u32 \<Rightarrow> u32 \<Rightarrow> 's \<Rightarrow> int \<times> 's" where
  "spi2apb_lsb_w32 spi_sync addr data s =
     (let (r, _, s') = spi_sync [Tx (le32_bytes (int32_msb2lsb APB_CMD_WRITE)),
                                 Tx (le32_bytes (int32_msb2lsb addr)), Tx (le32_bytes (int32_msb2lsb data))] s
      in (r, s'))"

definition spi2apb_switch_to_msb :: "'s spi \<Rightarrow> 's \<Rightarrow> 's" where
  "spi2apb_switch_to_msb spi_sync s =
     snd (spi2apb_lsb_w32 spi_sync 0x11060000 0x108002 (snd (spi2apb_lsb_w32 spi_sync 0x11060008 0 s)))"

definition write_message :: "u32 \<Rightarrow> bytes \<Rightarrow> packet list" where
  "write_message addr data = [Tx (le32_bytes APB_CMD_WRITE), Tx (le32_bytes addr), Tx data]"

definition spi2apb_write :: "'s spi \<Rightarrow> u32 \<Rightarrow> bytes \<Rightarrow> 's \<Rightarrow> int \<times> 's" where
  "spi2apb_write spi_sync addr data s = (let (r, _, s') = spi_sync (write_message addr data) s in (r, s'))"

definition spi2apb_w32 :: "'s spi \<Rightarrow> u32 \<Rightarrow> u32 \<Rightarrow> 's \<Rightarrow> int \<times> 's" where
  "spi2apb_w32 spi_sync addr data s = spi2apb_write spi_sync addr (le32_bytes data) s"

text \<open>The read command carries the number of words in its upper half.\<close>

definition read_command :: "nat \<Rightarrow> u32" where
  "read_command data_len =
     (let real_len = of_nat (min data_len APB_MAX_OP_BYTES) :: u32
      in APB_CMD_READ OR (push_bit 14 real_len AND 0xffff0000))"

definition read_message :: "u32 \<Rightarrow> nat \<Rightarrow> packet list" where
  "read_message addr data_len =
     [Tx (le32_bytes (read_command data_len)), Tx (le32_bytes addr), Tx (le32_bytes 0),
      Tx (le32_bytes APB_CMD_READ_BEGIN), Rx data_len]"

definition spi2apb_read :: "'s spi \<Rightarrow> u32 \<Rightarrow> bytes \<Rightarrow> nat \<Rightarrow> 's \<Rightarrow> int \<times> bytes \<times> 's" where
  "spi2apb_read spi_sync addr data data_len s =
     (let (r, rx, s') = spi_sync (read_message addr data_len) s
      in (r, case rx of None \<Rightarrow> data | Some bs \<Rightarrow> bs, s'))"

definition spi2apb_r32 :: "'s spi \<Rightarrow> u32 \<Rightarrow> bytes \<Rightarrow> 's \<Rightarrow> int \<times> bytes \<times> 's" where
  "spi2apb_r32 spi_sync addr data s = spi2apb_read spi_sync addr data 4 s"

definition query_message :: "packet list" where
  "query_message = [Tx (le32_bytes APB_CMD_QUERY), Rx 4]"

definition spi2apb_operation_query :: "'s spi \<Rightarrow> u32 \<Rightarrow> 's \<Rightarrow> int \<times> u32 \<times> 's" where
  "spi2apb_operation_query spi_sync state s =
     (let (_, rx, s') = spi_sync query_message s; state' = received state rx
      in (if state' AND APB_OP_STATE_ID_MASK = APB_OP_STATE_ID then 0 else - 1, state', s'))"

definition spi2apb_state_query :: "'s spi \<Rightarrow> u32 \<Rightarrow> 's \<Rightarrow> int \<times> u32 \<times> 's" where
  "spi2apb_state_query spi_sync state s =
     (let (r, rx, s') = spi_sync [Tx (le32_bytes APB_CMD_QUERY_REG2), Rx 4] s in (r, received state rx, s'))"

definition spi2apb_interrupt_request :: "'s spi \<Rightarrow> u32 \<Rightarrow> 's \<Rightarrow> int \<times> 's" where
  "spi2apb_interrupt_request spi_sync interrupt_num s =
     (let (r, _, s') = spi_sync [Tx (le32_bytes APB_CMD_WRITE_REG1), Tx (le32_bytes interrupt_num)] s in (r, s'))"

section \<open>Checked operations\<close>

text \<open>
  The loop of the checked operations around the transfer \<open>op\<close>, which may update the data \<open>d\<close>; \<open>left\<close>
  is \<^verbatim>\<open>APB_SAFE_OPERATION_TRY_MAX - try\<close>. The waiting time between two tries has no counterpart.
\<close>

primrec try_loop :: "'s spi \<Rightarrow> ('d \<Rightarrow> 's \<Rightarrow> 'd \<times> 's) \<Rightarrow> nat \<Rightarrow> u32 \<Rightarrow> 'd \<Rightarrow> 's \<Rightarrow> int \<times> 'd \<times> 's" where
  "try_loop spi_sync op 0 state d s =
     (let (d1, s1) = op d s; (q, state', s2) = spi2apb_operation_query spi_sync state s1
      in (if q \<noteq> 0 then - 1 else uint (state' AND APB_OP_STATE_MASK), d1, s2))"
| "try_loop spi_sync op (Suc left) state d s =
     (let (d1, s1) = op d s; (q, state', s2) = spi2apb_operation_query spi_sync state s1
      in if q \<noteq> 0 then (- 1, d1, s2)
         else if state' AND APB_OP_STATE_MASK = 0 then (uint (state' AND APB_OP_STATE_MASK), d1, s2)
         else try_loop spi_sync op left state' d1 s2)"

definition safe_write_chunk :: "'s spi \<Rightarrow> u32 \<Rightarrow> bytes \<Rightarrow> 's \<Rightarrow> int \<times> 's" where
  "safe_write_chunk spi_sync addr data s =
     (case try_loop spi_sync (\<lambda>_ t. ((), snd (spi2apb_write spi_sync addr data t))) APB_SAFE_OPERATION_TRY_MAX 0 () s of
        (r, _, s') \<Rightarrow> (r, s'))"

function spi2apb_safe_write :: "'s spi \<Rightarrow> u32 \<Rightarrow> bytes \<Rightarrow> 's \<Rightarrow> int \<times> 's" where
  "spi2apb_safe_write spi_sync addr data s =
     (if data = [] then (0, s)
      else
        let slen = min (length data) APB_MAX_OP_BYTES;
            (ret, s') = safe_write_chunk spi_sync addr (take slen data) s
        in if ret \<noteq> 0 then (ret, s')
           else spi2apb_safe_write spi_sync (addr + of_nat slen) (drop slen data) s')"
  by pat_completeness auto
termination by (relation "measure (\<lambda>(_, _, data, _). length data)") auto

declare spi2apb_safe_write.simps [simp del]

definition spi2apb_safe_w32 :: "'s spi \<Rightarrow> u32 \<Rightarrow> u32 \<Rightarrow> 's \<Rightarrow> int \<times> 's" where
  "spi2apb_safe_w32 spi_sync addr data s = spi2apb_safe_write spi_sync addr (le32_bytes data) s"

definition spi2apb_safe_read :: "'s spi \<Rightarrow> u32 \<Rightarrow> bytes \<Rightarrow> nat \<Rightarrow> 's \<Rightarrow> int \<times> bytes \<times> 's" where
  "spi2apb_safe_read spi_sync addr data data_len s =
     try_loop spi_sync (\<lambda>d t. snd (spi2apb_read spi_sync addr d data_len t)) APB_SAFE_OPERATION_TRY_MAX 0 data s"

definition spi2apb_safe_r32 :: "'s spi \<Rightarrow> u32 \<Rightarrow> bytes \<Rightarrow> 's \<Rightarrow> int \<times> bytes \<times> 's" where
  "spi2apb_safe_r32 spi_sync addr data s = spi2apb_safe_read spi_sync addr data 4 s"

section \<open>Bit reversal\<close>

lemma bit_fold_or:
  fixes a :: "'a::len word"
  shows "bit (fold (\<lambda>i d. d OR f i) xs a) n \<longleftrightarrow> bit a n \<or> (\<exists>i\<in>set xs. bit (f i) n)"
  by (induction xs arbitrary: a) (auto simp: bit_or_iff)

lemma bit_int8_msb2lsb: "bit (int8_msb2lsb x) n \<longleftrightarrow> n < 8 \<and> bit x (7 - n)"
proof -
  have "bit (push_bit (7 - i) (drop_bit i x AND 1)) n \<longleftrightarrow> n = 7 - i \<and> bit x i" if "i < 8" for i
    using that bit_beyond_u8 [of n "push_bit (7 - i) (drop_bit i x AND 1)"]
    by (auto simp: bit_push_bit_iff bit_and_iff bit_drop_bit_eq bit_1_iff bit_exp_iff)
  then show ?thesis
    unfolding int8_msb2lsb_def bit_fold_or by (auto intro!: bexI [of _ "7 - n"])
qed

lemma int8_msb2lsb_involution: "int8_msb2lsb (int8_msb2lsb x) = x"
  by (rule u8_eqI) (auto simp: bit_int8_msb2lsb)

lemma bit_beyond_u32: "32 \<le> n \<Longrightarrow> \<not> bit (x::u32) n"
  using bit_imp_le_length [of x n] by auto

lemma bit_int32_msb2lsb:
  assumes "k < 4" and "j < 8"
  shows "bit (int32_msb2lsb x) (8 * k + j) \<longleftrightarrow> bit x (8 * k + (7 - j))"
proof -
  have m: "bit (0xff :: u32) m \<longleftrightarrow> m < 8" for m
    using bit_mask_iff [of 8 m, where 'a = u32] by (auto simp: mask_numeral)
  have u: "ucast (y AND 0xff :: u32) = (ucast y :: u8)" for y
    by (rule bit_word_eqI) (simp only: bit_ucast_iff bit_and_iff m, simp)
  have "bit (push_bit (8 * i) (ucast (int8_msb2lsb (ucast (drop_bit (8 * i) x AND 0xff)))) :: u32) (8 * k + j) \<longleftrightarrow>
      i = k \<and> bit x (8 * i + (7 - j))" if "i < 4" for i
  proof -
    have "8 * i \<le> 8 * k + j \<and> 8 * k + j - 8 * i < 8 \<longleftrightarrow> i = k" using assms(2) by auto
    then show ?thesis
      unfolding u using that assms by (auto simp: bit_push_bit_iff bit_ucast_iff bit_int8_msb2lsb bit_drop_bit_eq)
  qed
  then show ?thesis
    unfolding int32_msb2lsb_def bit_fold_or using assms by auto
qed

lemma bytes_int32_msb2lsb:
  "le32_bytes (int32_msb2lsb x) = map int8_msb2lsb (le32_bytes x)"
proof -
  have b: "ucast (drop_bit (8 * k) (int32_msb2lsb x)) = int8_msb2lsb (ucast (drop_bit (8 * k) x))" if "k < 4" for k
    by (rule u8_eqI) (use that bit_int32_msb2lsb [of k _ x] in
        \<open>auto simp: bit_ucast_iff bit_drop_bit_eq bit_int8_msb2lsb\<close>)
  show ?thesis using b [of 0] b [of 1] b [of 2] b [of 3] by (simp add: le32_bytes_def)
qed

text \<open>
  The bit order of the first commands. Each of the twelve bytes of a write that is sent before
  the bridge is switched to MSB mode is the mirror image of the byte of the regular command, so a
  bridge that takes the bits of a byte in the opposite order sees exactly a regular write.
\<close>

theorem lsb_write_mirrors:
  "spi2apb_lsb_w32 spi_sync addr data s =
     (case spi_sync (map (\<lambda>p. case p of Tx bs \<Rightarrow> Tx (map int8_msb2lsb bs) | Rx n \<Rightarrow> Rx n)
                         (write_message addr (le32_bytes data))) s of
        (r, _, s') \<Rightarrow> (r, s')) \<and>
   int8_msb2lsb (int8_msb2lsb b) = b \<and> (\<forall>n. bit (int8_msb2lsb b) n = (n < 8 \<and> bit b (7 - n)))"
  by (simp add: spi2apb_lsb_w32_def write_message_def bytes_int32_msb2lsb int8_msb2lsb_involution bit_int8_msb2lsb Let_def)

section \<open>Reads\<close>

lemma read_command_fields:
  "unat (drop_bit 16 (read_command n)) = min n 60000 div 4" "read_command n AND 0xffff = APB_CMD_READ"
proof -
  define m where "m = min n 60000"
  have m: "m \<le> 60000" by (simp add: m_def)
  define w where "w = (of_nat m :: u32)"
  have wm: "unat w = m" using m by (simp add: w_def unat_of_nat)
  have lo: "bit (0xffff :: u32) k \<longleftrightarrow> k < 16" for k
    using bit_mask_iff [of 16 k, where 'a = u32] by (auto simp: mask_numeral)
  have hi: "bit (0xffff0000 :: u32) k \<longleftrightarrow> 16 \<le> k \<and> k < 32" for k
  proof -
    have e: "(0xffff0000 :: u32) = push_bit 16 (mask 16)" by (simp add: mask_numeral push_bit_eq_mult)
    show ?thesis unfolding e by (auto simp: bit_push_bit_iff bit_mask_iff)
  qed
  have small: "k < 16" if "bit w k" for k
    using bit_high_False [of w 16 k] that wm m by (cases "k < 16") simp_all
  have cmd: "\<not> bit (APB_CMD_READ :: u32) k" if "16 \<le> k" for k
    using bit_high_False [of "APB_CMD_READ" 16 k] that by simp
  have eq: "read_command n = APB_CMD_READ OR (push_bit 14 w AND 0xffff0000)"
    by (simp add: read_command_def m_def w_def)
  have "bit (drop_bit 16 (read_command n)) k \<longleftrightarrow> bit (drop_bit 2 w) k" for k
    unfolding eq bit_drop_bit_eq comp_def bit_or_iff bit_and_iff bit_push_bit_iff hi using cmd [of "16 + k"]
    by (auto dest: small)
  then have "drop_bit 16 (read_command n) = drop_bit 2 w" by (rule bit_word_eqI)
  then show "unat (drop_bit 16 (read_command n)) = min n 60000 div 4"
    by (simp add: drop_bit_eq_div unat_div wm m_def [symmetric])
  have "bit (read_command n AND 0xffff) k \<longleftrightarrow> bit (APB_CMD_READ :: u32) k" for k
    unfolding eq bit_and_iff bit_or_iff lo hi using cmd [of k] by (cases "k < 16") auto
  then show "read_command n AND 0xffff = APB_CMD_READ" by (rule bit_word_eqI)
qed

text \<open>
  The length a read announces. The upper half of the read command is the number of words the
  bridge is asked to deliver, the last packet the number of bytes that are clocked out of it: they
  agree exactly for a multiple of four bytes of at most 60000. A longer read clocks bytes the bridge
  was not asked for.
\<close>

theorem read_announced_length:
  "\<exists>hd. read_message addr n = hd @ [Rx n] \<and>
     unat (drop_bit 16 (read_command n)) = min n 60000 div 4 \<and> read_command n AND 0xffff = APB_CMD_READ \<and>
     (4 * unat (drop_bit 16 (read_command n)) = n \<longleftrightarrow> 4 dvd n \<and> n \<le> 60000)"
proof -
  have "4 * (min n 60000 div 4) = n \<longleftrightarrow> 4 dvd n \<and> n \<le> 60000" by (auto simp: min_def) presburger
  then show ?thesis using read_command_fields [of n] by (simp add: read_message_def)
qed

section \<open>Writes\<close>

text \<open>
  What the driver relies on: a write followed by a query of the operation state. \<open>mem\<close> is the memory
  behind the bridge. A write and a query leave the memory outside the written range alone, and a
  state that carries the bridge's identification and no error bit means that the write was done.
\<close>

definition in_range :: "u32 \<Rightarrow> nat \<Rightarrow> u32 \<Rightarrow> bool" where
  "in_range a n b \<longleftrightarrow> (\<exists>i<n. b = a + of_nat i)"

definition bridge_ok :: "'s spi \<Rightarrow> ('s \<Rightarrow> u32 \<Rightarrow> u8) \<Rightarrow> bool" where
  "bridge_ok spi_sync mem \<longleftrightarrow>
     (\<forall>a d s r x s1 r' rx s2. length d \<le> 60000 \<longrightarrow> spi_sync (write_message a d) s = (r, x, s1) \<longrightarrow>
        spi_sync query_message s1 = (r', rx, s2) \<longrightarrow>
        (\<forall>b. \<not> in_range a (length d) b \<longrightarrow> mem s2 b = mem s b) \<and>
        (\<forall>bs. rx = Some bs \<longrightarrow> le32_of bs AND APB_OP_STATE_ID_MASK = APB_OP_STATE_ID \<longrightarrow>
              le32_of bs AND APB_OP_STATE_MASK = 0 \<longrightarrow> (\<forall>i<length d. mem s2 (a + of_nat i) = d ! i)))"

text \<open>The state variable never looks like a success before the query has written it.\<close>

definition not_success :: "u32 \<Rightarrow> bool" where
  "not_success state \<longleftrightarrow> state AND APB_OP_STATE_ID_MASK \<noteq> APB_OP_STATE_ID \<or> state AND APB_OP_STATE_MASK \<noteq> 0"

lemma uint_zero_iff: "uint (w::u32) = 0 \<longleftrightarrow> w = 0"
  by (rule uint_0_iff)

lemma write_query:
  assumes "bridge_ok spi_sync mem" and "length d \<le> 60000" and "not_success state"
    and "spi2apb_operation_query spi_sync state (snd (spi2apb_write spi_sync a d s)) = (q, state', s2)"
  shows "(\<forall>b. \<not> in_range a (length d) b \<longrightarrow> mem s2 b = mem s b) \<and>
         (q = 0 \<longrightarrow> state' AND APB_OP_STATE_MASK = 0 \<longrightarrow> (\<forall>i<length d. mem s2 (a + of_nat i) = d ! i))"
proof -
  obtain r x s1 where w: "spi_sync (write_message a d) s = (r, x, s1)" by (rule prod_cases3)
  obtain r' rx s3 where qu: "spi_sync query_message s1 = (r', rx, s3)" by (rule prod_cases3)
  have s: "s3 = s2" "state' = received state rx" "q = (if state' AND APB_OP_STATE_ID_MASK = APB_OP_STATE_ID then 0 else - 1)"
    using assms(4) w qu by (auto simp: spi2apb_operation_query_def spi2apb_write_def Let_def)
  note law = assms(1) [unfolded bridge_ok_def, rule_format, OF assms(2) w qu]
  show ?thesis
    using law assms(3) s by (cases rx) (auto simp: received_def not_success_def split: if_splits)
qed

lemma try_write:
  fixes spi_sync :: "'s spi"
  assumes "bridge_ok spi_sync mem" and "length d \<le> 60000" and "not_success state"
    and "try_loop spi_sync (\<lambda>_ t. ((), snd (spi2apb_write spi_sync a d t))) left state () s = (r, u, s')"
  shows "(\<forall>b. \<not> in_range a (length d) b \<longrightarrow> mem s' b = mem s b) \<and>
         (r = 0 \<longrightarrow> (\<forall>i<length d. mem s' (a + of_nat i) = d ! i))"
  using assms(3,4)
proof (induction left arbitrary: state s)
  case 0
  obtain q state' s2 where q: "spi2apb_operation_query spi_sync state (snd (spi2apb_write spi_sync a d s)) = (q, state', s2)"
    by (rule prod_cases3)
  from write_query [OF assms(1,2) 0(1) q] 0(2) q show ?case by (auto simp: uint_0_iff split: if_splits)
next
  case (Suc left)
  obtain q state' s2 where q: "spi2apb_operation_query spi_sync state (snd (spi2apb_write spi_sync a d s)) = (q, state', s2)"
    by (rule prod_cases3)
  note wq = write_query [OF assms(1,2) Suc.prems(1) q]
  show ?case
  proof (cases "q \<noteq> 0 \<or> state' AND APB_OP_STATE_MASK = 0")
    case True
    with wq Suc.prems(2) q show ?thesis by (auto split: if_splits)
  next
    case False
    then have "try_loop spi_sync (\<lambda>_ t. ((), snd (spi2apb_write spi_sync a d t))) left state' () s2 = (r, u, s')"
      using Suc.prems(2) q by simp
    from Suc.IH [OF _ this] False wq show ?thesis by (simp add: not_success_def)
  qed
qed

lemma safe_write_chunk_stores:
  assumes "bridge_ok spi_sync mem" and "length d \<le> 60000" and "safe_write_chunk spi_sync a d s = (r, s')"
  shows "(\<forall>b. \<not> in_range a (length d) b \<longrightarrow> mem s' b = mem s b) \<and>
         (r = 0 \<longrightarrow> (\<forall>i<length d. mem s' (a + of_nat i) = d ! i))"
proof -
  obtain u where "try_loop spi_sync (\<lambda>_ t. ((), snd (spi2apb_write spi_sync a d t))) 3 0 () s = (r, u, s')"
    using assms(3) by (auto simp: safe_write_chunk_def split: prod.splits)
  then show ?thesis by (rule try_write [OF assms(1,2), rotated]) (simp add: not_success_def)
qed

text \<open>Ranges of addresses around the 32-bit address space.\<close>

lemma in_range_append: "in_range a (m + n) b \<longleftrightarrow> in_range a m b \<or> in_range (a + of_nat m) n b"
proof
  assume "in_range a (m + n) b"
  then obtain i where i: "i < m + n" "b = a + of_nat i" by (auto simp: in_range_def)
  show "in_range a m b \<or> in_range (a + of_nat m) n b"
  proof (cases "i < m")
    case False
    then have "b = (a + of_nat m) + of_nat (i - m)" "i - m < n" using i by (auto simp: algebra_simps of_nat_diff)
    then show ?thesis by (auto simp: in_range_def)
  qed (use i in \<open>auto simp: in_range_def\<close>)
next
  assume "in_range a m b \<or> in_range (a + of_nat m) n b"
  then show "in_range a (m + n) b"
  proof
    assume "in_range (a + of_nat m) n b"
    then obtain i where "i < n" "b = a + of_nat m + of_nat i" by (auto simp: in_range_def)
    then show ?thesis by (auto simp: in_range_def add.assoc intro!: exI [of _ "m + i"])
  next
    assume "in_range a m b"
    then obtain i where "i < m" "b = a + of_nat i" by (auto simp: in_range_def)
    then show ?thesis unfolding in_range_def by (intro exI [of _ i]) simp
  qed
qed

lemma not_in_later_range:
  assumes "i < m" and "m + n \<le> 2 ^ 32"
  shows "\<not> in_range (a + of_nat m) n (a + of_nat i :: u32)"
proof
  assume "in_range (a + of_nat m) n (a + of_nat i)"
  then obtain j where j: "j < n" "a + of_nat i = a + of_nat m + of_nat j" by (auto simp: in_range_def)
  then have "(of_nat i :: u32) = of_nat (m + j)" by (simp add: add.assoc)
  moreover have "i < 2 ^ 32" "m + j < 2 ^ 32" using assms j(1) by simp_all
  ultimately have "i = m + j" by (simp add: word_of_nat_eq_iff take_bit_nat_eq_self del: of_nat_add)
  with assms(1) show False by simp
qed

text \<open>
  C5: A checked write of any length. The data is split into chunks of at most 60000 bytes, each tried
  at most four times. If the bridge reports success, every byte of the data is in memory at its
  address; in every case nothing outside the range is changed.
\<close>

theorem safe_write_stores:
  assumes "bridge_ok spi_sync mem" and "length data \<le> 2 ^ 32" and "spi2apb_safe_write spi_sync addr data s = (r, s')"
  shows "(\<forall>b. \<not> in_range addr (length data) b \<longrightarrow> mem s' b = mem s b) \<and>
         (r = 0 \<longrightarrow> (\<forall>i<length data. mem s' (addr + of_nat i) = data ! i))"
  using assms(2,3)
proof (induction "length data" arbitrary: addr data s rule: less_induct)
  case less
  show ?case
  proof (cases "data = []")
    case True
    then show ?thesis using less.prems(2) by (simp add: spi2apb_safe_write.simps)
  next
    case False
    define n where "n = min (length data) 60000"
    have n: "0 < n" "n \<le> length data" "length (take n data) = n" "n \<le> 60000" using False by (simp_all add: n_def)
    obtain r1 s1 where chunk: "safe_write_chunk spi_sync addr (take n data) s = (r1, s1)" by (rule prod.exhaust)
    have c: "\<forall>b. \<not> in_range addr n b \<longrightarrow> mem s1 b = mem s b" "r1 = 0 \<Longrightarrow> \<forall>i<n. mem s1 (addr + of_nat i) = data ! i"
      using safe_write_chunk_stores [OF assms(1) _ chunk] n by simp_all
    have split: "in_range addr (length data) b \<longleftrightarrow> in_range addr n b \<or> in_range (addr + of_nat n) (length data - n) b" for b
      using in_range_append [of addr n "length data - n" b] n by simp
    have run: "(if r1 \<noteq> 0 then (r1, s1) else spi2apb_safe_write spi_sync (addr + of_nat n) (drop n data) s1) = (r, s')"
      using less.prems(2) False chunk by (subst (asm) spi2apb_safe_write.simps) (simp add: n_def [symmetric])
    show ?thesis
    proof (cases "r1 = 0")
      case False
      with run c split show ?thesis by simp
    next
      case True
      have ih: "(\<forall>b. \<not> in_range (addr + of_nat n) (length data - n) b \<longrightarrow> mem s' b = mem s1 b) \<and>
          (r = 0 \<longrightarrow> (\<forall>i<length data - n. mem s' (addr + of_nat n + of_nat i) = data ! (n + i)))"
        using less.hyps [of "drop n data" "addr + of_nat n" s1] less.prems(1) run True n by simp
      have "mem s' (addr + of_nat i) = data ! i" if r: "r = 0" and i: "i < length data" for i
      proof (cases "i < n")
        case lt: True
        have "\<not> in_range (addr + of_nat n) (length data - n) (addr + of_nat i)"
          by (rule not_in_later_range) (use lt n less.prems(1) in simp_all)
        with ih c(2) True lt show ?thesis by simp
      next
        case False
        then have "addr + of_nat n + of_nat (i - n) = addr + of_nat i" by (simp add: of_nat_diff)
        moreover have "i - n < length data - n" "n + (i - n) = i" using False i by auto
        ultimately show ?thesis using ih r by metis
      qed
      with ih c(1) split show ?thesis by simp
    qed
  qed
qed

text \<open>
  A bridge whose memory is written by every write command and which reports an unfinished write as
  often as a counter says.
\<close>

definition demo_bridge :: "((u32 \<Rightarrow> u8) \<times> nat) spi" where
  "demo_bridge m s =
     (case m of
        [Tx cmd, Tx a, Tx d] \<Rightarrow>
          (0, None,
           (\<lambda>b. let i = unat (b - le32_of a) in if i < length d then d ! i else fst s b), snd s - 1)
      | _ \<Rightarrow> (0, Some (le32_bytes (if snd s = 0 then APB_OP_STATE_ID else APB_OP_STATE_ID OR 4)), s))"

lemma le32_round_trip [simp]: "le32_of (le32_bytes w) = w"
proof (rule bit_word_eqI)
  fix n :: nat
  assume n: "n < LENGTH(32)"
  have b: "bit (ucast (ucast x :: u8) :: u32) k \<longleftrightarrow> k < 8 \<and> bit x k" for x :: u32 and k
    by (auto simp: bit_ucast_iff dest: bit_imp_le_length)
  show "bit (le32_of (le32_bytes w)) n = bit w n"
    using n unfolding le32_of_def le32_bytes_def
    by (cases "n < 8"; cases "n < 16"; cases "n < 24")
       (auto simp: bit_or_iff bit_push_bit_iff b bit_drop_bit_eq push_bit_push_bit)
qed

lemma in_range_offset:
  assumes "in_range a n b" and "n \<le> 2 ^ 32"
  shows "unat (b - a) < n"
  using assms by (auto simp: in_range_def unat_of_nat)

lemma demo_bridge_ok: "bridge_ok demo_bridge fst"
proof -
  have "unat (of_nat i :: u32) = i" if "i < 60000" for i :: nat
    using that by (simp add: unat_of_nat)
  then show ?thesis
    unfolding bridge_ok_def
    by (auto simp: demo_bridge_def write_message_def query_message_def in_range_def Let_def)
qed

theorem safe_write_stores_witness:
  "\<exists>s'. spi2apb_safe_write demo_bridge 0x1000 [1, 2, 3, 4] (\<lambda>_. 0, 2) = (0, s') \<and>
     fst s' 0x1002 = 3 \<and> fst s' 0x2000 = 0"
proof -
  obtain r s' where run: "spi2apb_safe_write demo_bridge 0x1000 [1, 2, 3, 4] (\<lambda>_. 0, 2) = (r, s')" by (rule prod.exhaust)
  have "r = fst (spi2apb_safe_write demo_bridge 0x1000 [1, 2, 3, 4] (\<lambda>_. 0, 2))" by (simp add: run)
  also have "\<dots> = 0"
    by (simp add: spi2apb_safe_write.simps safe_write_chunk_def spi2apb_write_def spi2apb_operation_query_def
        demo_bridge_def write_message_def query_message_def received_def numeral_3_eq_3 Let_def)
  finally have r: "r = 0" .
  have out: "\<not> in_range 0x1000 (length [1, 2, 3, 4 :: u8]) 0x2000"
    by (rule notI, drule in_range_offset, simp_all)
  note stored = safe_write_stores [OF demo_bridge_ok _ run]
  have "fst s' 0x2000 = 0" using stored out by simp
  moreover have "fst s' 0x1002 = 3" using stored r by (auto dest: spec [of _ 2])
  ultimately show ?thesis using run r by simp
qed

end
