(* ===== verification/QfpFuse.thy ===== *)
theory QfpFuse
  imports Prelude
begin

text \<open>
  The fuse driver, \<^verbatim>\<open>test_qfp_fuse/qfp_fuse.c\<close>: opening and releasing the device, reading words of the
  fuse memory, and blowing fuses word by word with a regulator that is on during the write only. The
  hardware is an environment that answers from the accesses before, and every access is recorded.
  \<open>None\<close> is an access outside the kernel buffer or through a null pointer.
\<close>

section \<open>Environment\<close>

datatype acc = READL u32 | WRITEL u32 u32 | REG_ENABLE int | REG_DISABLE int | DOWN | UP

record fuse_env =
  qfp_qfprom_base :: u32
  qfp_qfprom_end :: u32
  readl :: "u32 \<Rightarrow> acc list \<Rightarrow> u32"
  regulator_enable :: "acc list \<Rightarrow> int"
  regulator_disable :: "acc list \<Rightarrow> int"

abbreviation (input) QFPROM_BLOW_TIMEOUT_US :: nat where "QFPROM_BLOW_TIMEOUT_US \<equiv> 10"
abbreviation (input) QFPROM_BLOW_STATUS_BUSY :: u32 where "QFPROM_BLOW_STATUS_BUSY \<equiv> 1"
abbreviation (input) QFPROM_BLOW_STATUS_ERROR :: u32 where "QFPROM_BLOW_STATUS_ERROR \<equiv> 2"

definition blow_timer :: "fuse_env \<Rightarrow> u32" where
  "blow_timer e = qfp_qfprom_base e + 0x2038"

definition blow_status :: "fuse_env \<Rightarrow> u32" where
  "blow_status e = qfp_qfprom_base e + 0x204C"

section \<open>Open and release\<close>

text \<open>
  The private data of an open file, and the memory blocks and regulator references that are held.
  The arguments of \<^verbatim>\<open>qfp_fuse_open\<close> are the outcomes of \<^verbatim>\<open>kmalloc\<close> and \<^verbatim>\<open>regulator_get\<close>.
\<close>

abbreviation (input) QFP_FUSE_READY :: u8 where "QFP_FUSE_READY \<equiv> 1"

record fuse_private =
  lvs0 :: "unit kptr"
  fstate :: u8

record fuse_file =
  private_data :: "fuse_private option"
  blocks :: int
  regulators :: int

definition qfp_fuse_open :: "bool \<Rightarrow> unit kptr \<Rightarrow> fuse_file \<Rightarrow> int \<times> fuse_file" where
  "qfp_fuse_open kmalloc_ok regulator filp =
     (case private_data filp of
        Some p \<Rightarrow>
          if fstate p = QFP_FUSE_READY then (0, filp)
          else if \<not> kmalloc_ok then (- ENOMEM, filp)
          else if IS_ERR regulator then (PTR_ERR regulator, filp\<lparr>blocks := blocks filp + 1\<rparr>)
          else (0, filp\<lparr>blocks := blocks filp + 1, regulators := regulators filp + 1,
                        private_data := Some \<lparr>lvs0 = regulator, fstate = QFP_FUSE_READY\<rparr>\<rparr>)
      | None \<Rightarrow>
          if \<not> kmalloc_ok then (- ENOMEM, filp)
          else if IS_ERR regulator then (PTR_ERR regulator, filp\<lparr>blocks := blocks filp + 1\<rparr>)
          else (0, filp\<lparr>blocks := blocks filp + 1, regulators := regulators filp + 1,
                        private_data := Some \<lparr>lvs0 = regulator, fstate = QFP_FUSE_READY\<rparr>\<rparr>))"

definition qfp_fuse_release :: "fuse_file \<Rightarrow> int \<times> fuse_file" where
  "qfp_fuse_release filp =
     (0, (case private_data filp of
            None \<Rightarrow> filp
          | Some p \<Rightarrow> filp\<lparr>regulators := regulators filp - 1, blocks := blocks filp - 1\<rparr>)\<lparr>private_data := None\<rparr>)"

section \<open>Blowing one word\<close>

text \<open>The loop with \<open>timeout\<close> rounds left; the delay between two rounds has no counterpart.\<close>

primrec wait_blow :: "fuse_env \<Rightarrow> nat \<Rightarrow> u32 \<Rightarrow> acc list \<Rightarrow> int \<times> u32 \<times> acc list" where
  "wait_blow e 0 status h = (- ETIMEDOUT, status, h)"
| "wait_blow e (Suc timeout) status h =
     (let status' = readl e (blow_status e) h; h' = h @ [READL (blow_status e)]
      in if status' AND QFPROM_BLOW_STATUS_BUSY = 0 then (0, status', h') else wait_blow e timeout status' h')"

definition qfp_fuse_wait_for_fuse_blow :: "fuse_env \<Rightarrow> u32 \<Rightarrow> acc list \<Rightarrow> int \<times> u32 \<times> acc list" where
  "qfp_fuse_wait_for_fuse_blow e status h = wait_blow e QFPROM_BLOW_TIMEOUT_US status h"

definition qfp_fuse_write_word :: "fuse_env \<Rightarrow> u32 \<Rightarrow> u32 \<Rightarrow> acc list \<Rightarrow> int \<times> acc list" where
  "qfp_fuse_write_word e addr data h =
     (let h1 = h @ [WRITEL (blow_timer e) (of_nat (QFPROM_BLOW_TIMEOUT_US * 83))];
          err = regulator_enable e h1;
          h2 = h1 @ [REG_ENABLE err]
      in if err \<noteq> 0 then (- EFAULT, h2)
         else
           let h3 = h2 @ [WRITEL addr data];
               err = regulator_disable e h3;
               h4 = h3 @ [REG_DISABLE err]
           in if err \<noteq> 0 then (- EFAULT, h4)
              else
                let (err, status, h5) = qfp_fuse_wait_for_fuse_blow e QFPROM_BLOW_STATUS_BUSY h4
                in if err \<noteq> 0 then (err, h5)
                   else if status AND QFPROM_BLOW_STATUS_ERROR \<noteq> 0 then (- EFAULT, h5)
                   else
                     let read_data = readl e addr h5; h6 = h5 @ [READL addr]
                     in if read_data \<noteq> data then (- EFAULT, h6) else (0, h6))"

section \<open>Requests\<close>

text \<open>
  A request: whether an argument was given, the offset and size the user passed (\<open>None\<close> when they
  cannot be read), the outcome of the allocation, the words at the user's data pointer, whether the
  semaphore was interrupted, and whether the result can be copied out.
\<close>

record fuse_io =
  io_arg :: bool
  io_req :: "(u32 \<times> u32) option"
  io_kzalloc :: bool
  io_data :: "u32 list option"
  io_interrupted :: bool
  io_copy_out :: bool

text \<open>The checks both commands begin with; sums and products are those of 32-bit integers.\<close>

definition exceeds_limit :: "fuse_env \<Rightarrow> u32 \<Rightarrow> u32 \<Rightarrow> bool" where
  "exceeds_limit e off sz \<longleftrightarrow> qfp_qfprom_base e + off + sz * 4 > qfp_qfprom_end e"

definition check_request :: "fuse_env \<Rightarrow> fuse_io \<Rightarrow> int + (u32 \<times> u32)" where
  "check_request e io =
     (if \<not> io_arg io then Inl (- EFAULT)
      else case io_req io of
        None \<Rightarrow> Inl (- EFAULT)
      | Some (off, sz) \<Rightarrow>
          if sz = 0 then Inl (- EFAULT)
          else if exceeds_limit e off sz then Inl (- EFAULT)
          else if \<not> io_kzalloc io then Inl (- ENOMEM)
          else Inr (off, sz))"

text \<open>The number of words in a buffer of \<open>sz * 4\<close> bytes.\<close>

definition buf_words :: "u32 \<Rightarrow> nat" where
  "buf_words sz = unat (sz * 4) div 4"

primrec read_words :: "fuse_env \<Rightarrow> u32 \<Rightarrow> nat \<Rightarrow> nat \<Rightarrow> u32 list \<Rightarrow> acc list \<Rightarrow> (u32 list \<times> acc list) option" where
  "read_words e addr 0 i buf h = Some (buf, h)"
| "read_words e addr (Suc n) i buf h =
     (if length buf \<le> i then None
      else let a = addr + 4 * of_nat i
           in read_words e addr n (Suc i) (buf[i := readl e a h]) (h @ [READL a]))"

primrec write_words :: "fuse_env \<Rightarrow> u32 \<Rightarrow> nat \<Rightarrow> nat \<Rightarrow> u32 list \<Rightarrow> int \<Rightarrow> acc list \<Rightarrow> (int \<times> acc list) option" where
  "write_words e addr 0 i buf err h = Some (err, h)"
| "write_words e addr (Suc n) i buf err h =
     (if err \<noteq> 0 then Some (err, h)
      else if length buf \<le> i then None
      else let (err', h') = qfp_fuse_write_word e (addr + 4 * of_nat i) (buf ! i) h
           in write_words e addr n (Suc i) buf err' h')"

text \<open>The result of a command: return value, the words copied to the user, and the accesses.\<close>

definition ioc_read :: "fuse_env \<Rightarrow> fuse_private option \<Rightarrow> fuse_io \<Rightarrow> acc list \<Rightarrow> (int \<times> u32 list option \<times> acc list) option" where
  "ioc_read e priv io h =
     (case check_request e io of
        Inl err \<Rightarrow> Some (err, None, h)
      | Inr (off, sz) \<Rightarrow>
          if priv = None then None
          else if io_interrupted io then Some (- ERESTARTSYS, None, h)
          else
            map_option (\<lambda>(buf, h'). (if io_copy_out io then 0 else - EFAULT,
                                     if io_copy_out io then Some buf else None, h' @ [UP]))
              (read_words e (qfp_qfprom_base e + off) (unat sz) 0 (replicate (buf_words sz) 0) (h @ [DOWN])))"

definition ioc_write :: "fuse_env \<Rightarrow> fuse_private option \<Rightarrow> fuse_io \<Rightarrow> acc list \<Rightarrow> (int \<times> u32 list option \<times> acc list) option" where
  "ioc_write e priv io h =
     (case check_request e io of
        Inl err \<Rightarrow> Some (err, None, h)
      | Inr (off, sz) \<Rightarrow>
          (case io_data io of
             None \<Rightarrow> Some (- EFAULT, None, h)
           | Some ws \<Rightarrow>
               if length ws < buf_words sz then Some (- EFAULT, None, h)
               else if priv = None then None
               else if io_interrupted io then Some (- ERESTARTSYS, None, h)
               else
                 map_option (\<lambda>(err, h'). (err, None, h' @ [UP]))
                   (write_words e (qfp_qfprom_base e + off) (unat sz) 0 (take (buf_words sz) ws) 0 (h @ [DOWN]))))"

abbreviation (input) QFP_FUSE_IOC_WRITE :: u32 where "QFP_FUSE_IOC_WRITE \<equiv> 0x9201"
abbreviation (input) QFP_FUSE_IOC_READ :: u32 where "QFP_FUSE_IOC_READ \<equiv> 0x9202"

definition qfp_fuse_ioctl ::
    "fuse_env \<Rightarrow> fuse_private option \<Rightarrow> u32 \<Rightarrow> fuse_io \<Rightarrow> acc list \<Rightarrow> (int \<times> u32 list option \<times> acc list) option" where
  "qfp_fuse_ioctl e priv cmd io h =
     (if drop_bit 8 cmd AND 0xff \<noteq> 0x92 then Some (- ENOTTY, None, h)
      else if cmd = QFP_FUSE_IOC_READ then ioc_read e priv io h
      else if cmd = QFP_FUSE_IOC_WRITE then ioc_write e priv io h
      else Some (- ENOTTY, None, h))"

text \<open>The device is found by its memory resource; the result of \<^verbatim>\<open>misc_register\<close> is an argument.\<close>

definition qfp_fuse_probe :: "(u32 \<times> u32) option \<Rightarrow> int \<Rightarrow> fuse_env \<Rightarrow> int \<times> fuse_env" where
  "qfp_fuse_probe res misc_register e =
     (case res of
        None \<Rightarrow> (- ENODEV, e)
      | Some (start, end) \<Rightarrow>
          (if misc_register < 0 then misc_register else 0, e\<lparr>qfp_qfprom_base := start, qfp_qfprom_end := end\<rparr>))"

section \<open>The loops\<close>

lemma read_words_overrun: "length buf < i + n \<Longrightarrow> i \<le> length buf \<Longrightarrow> read_words e a n i buf h = None"
  by (induction n arbitrary: i buf h) (auto simp: Let_def)

lemma read_words_ok:
  "i + n \<le> length buf \<Longrightarrow> \<exists>buf'. read_words e a n i buf h =
     Some (buf', h @ map (\<lambda>k. READL (a + 4 * of_nat k)) [i..<i + n]) \<and> length buf' = length buf"
proof (induction n arbitrary: i buf h)
  case (Suc n)
  let ?a = "a + 4 * of_nat i"
  have "[i..<i + Suc n] = i # [Suc i..<Suc i + n]" by (simp add: upt_conv_Cons)
  with Suc.IH [of "Suc i" "buf[i := readl e ?a h]" "h @ [READL ?a]"] Suc.prems show ?case by (simp add: Let_def)
qed simp

text \<open>The accesses of a word that was blown, with \<open>k\<close> reads of the status, and of one that was not.\<close>

definition word_log :: "fuse_env \<Rightarrow> u32 \<Rightarrow> u32 \<Rightarrow> nat \<Rightarrow> acc list" where
  "word_log e a d k = [WRITEL (blow_timer e) 830, REG_ENABLE 0, WRITEL a d, REG_DISABLE 0] @
     replicate k (READL (blow_status e)) @ [READL a]"

definition word_attempt :: "fuse_env \<Rightarrow> u32 \<Rightarrow> u32 \<Rightarrow> acc list \<Rightarrow> bool" where
  "word_attempt e a d p \<longleftrightarrow>
     (\<exists>err. err \<noteq> 0 \<and> p = [WRITEL (blow_timer e) 830, REG_ENABLE err]) \<or>
     (\<exists>err. err \<noteq> 0 \<and> p = [WRITEL (blow_timer e) 830, REG_ENABLE 0, WRITEL a d, REG_DISABLE err]) \<or>
     (\<exists>k\<le>10. p = butlast (word_log e a d k) \<or> p = word_log e a d k)"

lemma wait_blow_log:
  "wait_blow e t st h = (r, st', h') \<Longrightarrow>
     \<exists>k\<le>t. h' = h @ replicate k (READL (blow_status e)) \<and> (r = 0 \<longrightarrow> 1 \<le> k)"
proof (induction t arbitrary: st h)
  case (Suc t)
  let ?st = "readl e (blow_status e) h" and ?h = "h @ [READL (blow_status e)]"
  show ?case
  proof (cases "?st AND 1 = 0")
    case True
    with Suc.prems show ?thesis by (intro exI [of _ 1]) (simp add: Let_def)
  next
    case False
    with Suc.prems have "wait_blow e t ?st ?h = (r, st', h')" by (simp add: Let_def)
    from Suc.IH [OF this] obtain k where "k \<le> t" "h' = ?h @ replicate k (READL (blow_status e))" by blast
    then show ?thesis by (intro exI [of _ "Suc k"]) simp
  qed
qed simp

lemma butlast_word_log: "butlast (word_log e a d k) =
    [WRITEL (blow_timer e) 830, REG_ENABLE 0, WRITEL a d, REG_DISABLE 0] @ replicate k (READL (blow_status e))"
  by (simp add: word_log_def butlast_append)

lemma write_word_log:
  assumes "qfp_fuse_write_word e a d h = (r, h')"
  shows "if r = 0 then \<exists>k. 1 \<le> k \<and> k \<le> 10 \<and> h' = h @ word_log e a d k \<and> readl e a (h @ butlast (word_log e a d k)) = d
         else \<exists>p. word_attempt e a d p \<and> h' = h @ p"
proof -
  let ?h1 = "h @ [WRITEL (blow_timer e) 830]"
  let ?h3 = "?h1 @ [REG_ENABLE 0, WRITEL a d]"
  define h4 where "h4 = h @ [WRITEL (blow_timer e) 830, REG_ENABLE 0, WRITEL a d, REG_DISABLE 0]"
  consider (enable) "regulator_enable e ?h1 \<noteq> 0" | (disable) "regulator_enable e ?h1 = 0" "regulator_disable e ?h3 \<noteq> 0"
    | (on) "regulator_enable e ?h1 = 0" "regulator_disable e ?h3 = 0" by blast
  then show ?thesis
  proof cases
    case enable
    with assms show ?thesis by (auto simp: qfp_fuse_write_word_def Let_def word_attempt_def)
  next
    case disable
    with assms show ?thesis by (auto simp: qfp_fuse_write_word_def Let_def word_attempt_def)
  next
    case on
    obtain err st h5 where w: "wait_blow e 10 1 h4 = (err, st, h5)" by (rule prod_cases3)
    from wait_blow_log [OF this] obtain k where k: "k \<le> 10" "h5 = h @ butlast (word_log e a d k)" "err = 0 \<longrightarrow> 1 \<le> k"
      by (auto simp: h4_def butlast_word_log)
    have "(if err \<noteq> 0 then (err, h5) else if st AND 2 \<noteq> 0 then (- EFAULT, h5)
        else if readl e a h5 \<noteq> d then (- EFAULT, h5 @ [READL a]) else (0, h5 @ [READL a])) = (r, h')"
      using assms on w
      by (simp add: qfp_fuse_write_word_def Let_def qfp_fuse_wait_for_fuse_blow_def h4_def cong: if_cong)
    moreover have "h5 @ [READL a] = h @ word_log e a d k" using k(2) by (simp add: word_log_def butlast_append)
    ultimately show ?thesis using k by (auto simp: word_attempt_def split: if_splits)
  qed
qed

text \<open>The accesses of consecutive words from index \<open>i\<close>, one for each number of status reads in \<open>ks\<close>.\<close>

primrec words_log :: "fuse_env \<Rightarrow> u32 \<Rightarrow> u32 list \<Rightarrow> nat \<Rightarrow> nat list \<Rightarrow> acc list" where
  "words_log e a buf i [] = []"
| "words_log e a buf i (k # ks) = word_log e (a + 4 * of_nat i) (buf ! i) k @ words_log e a buf (Suc i) ks"

primrec verified :: "fuse_env \<Rightarrow> u32 \<Rightarrow> u32 list \<Rightarrow> nat \<Rightarrow> acc list \<Rightarrow> nat list \<Rightarrow> bool" where
  "verified e a buf i h [] \<longleftrightarrow> True"
| "verified e a buf i h (k # ks) \<longleftrightarrow>
     readl e (a + 4 * of_nat i) (h @ butlast (word_log e (a + 4 * of_nat i) (buf ! i) k)) = buf ! i \<and>
     verified e a buf (Suc i) (h @ word_log e (a + 4 * of_nat i) (buf ! i) k) ks"

definition write_outcome :: "fuse_env \<Rightarrow> u32 \<Rightarrow> u32 list \<Rightarrow> nat \<Rightarrow> nat \<Rightarrow> acc list \<Rightarrow> int \<Rightarrow> acc list \<Rightarrow> bool" where
  "write_outcome e a buf i n h r h' \<longleftrightarrow>
     (\<exists>ks. set ks \<subseteq> {1..10} \<and> verified e a buf i h ks \<and>
        (if r = 0 then length ks = n \<and> h' = h @ words_log e a buf i ks
         else length ks < n \<and>
           (\<exists>p. word_attempt e (a + 4 * of_nat (i + length ks)) (buf ! (i + length ks)) p \<and>
                h' = h @ words_log e a buf i ks @ p)))"

lemma write_words_stop: "r \<noteq> 0 \<Longrightarrow> write_words e a n i buf r h = Some (r, h)"
  by (cases n) simp_all

lemma write_words_ok:
  "i + n \<le> length buf \<Longrightarrow> \<exists>r h'. write_words e a n i buf 0 h = Some (r, h') \<and> write_outcome e a buf i n h r h'"
proof (induction n arbitrary: i h)
  case 0
  show ?case by (auto simp: write_outcome_def intro!: exI [of _ "[]"])
next
  case (Suc n)
  let ?a = "a + 4 * of_nat i" and ?d = "buf ! i"
  obtain r1 h1 where w: "qfp_fuse_write_word e ?a ?d h = (r1, h1)" by (rule prod.exhaust)
  note log = write_word_log [OF w]
  show ?case
  proof (cases "r1 = 0")
    case False
    with log obtain p where "word_attempt e ?a ?d p" "h1 = h @ p" by auto
    moreover have "write_words e a (Suc n) i buf 0 h = Some (r1, h1)"
      using Suc.prems w False by (simp add: write_words_stop)
    ultimately show ?thesis
      using False unfolding write_outcome_def by (intro exI [of _ r1] exI [of _ h1] conjI exI [of _ "[]"]) auto
  next
    case True
    with log obtain k where k: "1 \<le> k" "k \<le> 10" "h1 = h @ word_log e ?a ?d k" "readl e ?a (h @ butlast (word_log e ?a ?d k)) = ?d"
      by auto
    obtain r h' where run: "write_words e a n (Suc i) buf 0 h1 = Some (r, h')" and out: "write_outcome e a buf (Suc i) n h1 r h'"
      using Suc.IH [of "Suc i" h1] Suc.prems by auto
    from out obtain ks where ks: "set ks \<subseteq> {1..10}" "verified e a buf (Suc i) h1 ks"
        "if r = 0 then length ks = n \<and> h' = h1 @ words_log e a buf (Suc i) ks
         else length ks < n \<and> (\<exists>p. word_attempt e (a + 4 * of_nat (Suc i + length ks)) (buf ! (Suc i + length ks)) p \<and>
                h' = h1 @ words_log e a buf (Suc i) ks @ p)"
      unfolding write_outcome_def by blast
    have "write_words e a (Suc n) i buf 0 h = Some (r, h')" using Suc.prems w True run by simp
    moreover have "write_outcome e a buf i (Suc n) h r h'"
      unfolding write_outcome_def using ks k by (intro exI [of _ "k # ks"]) (auto split: if_splits)
    ultimately show ?thesis by blast
  qed
qed

section \<open>Requests\<close>

text \<open>A request whose end does not go beyond the 32-bit address space.\<close>

definition no_wrap :: "fuse_env \<Rightarrow> u32 \<Rightarrow> u32 \<Rightarrow> bool" where
  "no_wrap e off sz \<longleftrightarrow> unat (qfp_qfprom_base e) + unat off + 4 * unat sz < 2 ^ 32"

lemma no_wrap_simps:
  assumes "no_wrap e off sz"
  shows "buf_words sz = unat sz"
    and "i < unat sz \<Longrightarrow> unat (qfp_qfprom_base e + off + 4 * of_nat i) = unat (qfp_qfprom_base e) + unat off + 4 * i"
    and "exceeds_limit e off sz \<longleftrightarrow> unat (qfp_qfprom_end e) < unat (qfp_qfprom_base e) + unat off + 4 * unat sz"
proof -
  have lt: "4 * unat sz < 2 ^ 32" "unat (qfp_qfprom_base e) + unat off < 2 ^ 32"
    using assms by (simp_all add: no_wrap_def)
  have s4: "unat (sz * 4) = 4 * unat sz" using lt(1) by (simp add: unat_word_ariths)
  show "buf_words sz = unat sz" by (simp add: buf_words_def s4)
  have b: "unat (qfp_qfprom_base e + off) = unat (qfp_qfprom_base e) + unat off"
    using lt(2) by (simp add: unat_word_ariths)
  show "unat (qfp_qfprom_base e + off + 4 * of_nat i) = unat (qfp_qfprom_base e) + unat off + 4 * i" if "i < unat sz"
    using that assms b by (simp add: no_wrap_def unat_word_ariths unat_of_nat)
  have "unat (qfp_qfprom_base e + off + sz * 4) = unat (qfp_qfprom_base e) + unat off + 4 * unat sz"
    using assms b s4 by (simp add: no_wrap_def unat_word_ariths)
  then show "exceeds_limit e off sz \<longleftrightarrow> unat (qfp_qfprom_end e) < unat (qfp_qfprom_base e) + unat off + 4 * unat sz"
    by (simp add: exceeds_limit_def word_less_nat_alt)
qed

text \<open>The buffer of a request has the words its 32-bit size in bytes leaves room for.\<close>

lemma buf_words_mod: "buf_words sz = unat sz mod 2 ^ 30"
  using mod_mult_mult2 [of "unat sz" 4 "2 ^ 30"] by (simp add: buf_words_def unat_word_ariths)

lemma write_words_add:
  "write_words e a (n + m) i buf err h =
     Option.bind (write_words e a n i buf err h) (\<lambda>(err', h'). write_words e a m (i + n) buf err' h')"
proof (induction n arbitrary: i err h)
  case (Suc n)
  then show ?case by (auto simp: write_words_stop split: prod.splits)
qed simp

lemma write_words_overrun:
  assumes "length buf = n"
  shows "\<exists>r h'. write_outcome e a buf 0 n h r h' \<and>
           write_words e a (n + m) 0 buf 0 h = (if r = 0 \<and> 0 < m then None else Some (r, h'))"
proof -
  obtain r h' where run: "write_words e a n 0 buf 0 h = Some (r, h')" "write_outcome e a buf 0 n h r h'"
    using write_words_ok [of 0 n buf e a h] assms by auto
  moreover have "write_words e a m n buf r h' = (if r = 0 \<and> 0 < m then None else Some (r, h'))"
    using assms by (cases m) (auto simp: write_words_stop)
  ultimately show ?thesis by (auto simp: write_words_add)
qed

text \<open>
  C7: Blowing fuses. A write request that passed the checks, whose data could be copied and whose
  wait for the semaphore was not interrupted, blows the words of its buffer in order, each with the
  regulator on exactly around the write and with between one and ten reads of the status. It reports
  success only if every word reads back as it was written; it stops at the first word that fails, and
  it releases the semaphore. The size in bytes is computed in 32 bits, so the buffer has as many words
  as the request up to \<open>2 ^ 30 - 1\<close> words, and the size modulo \<open>2 ^ 30\<close> beyond that: such a request
  either fails within the buffer or, once all its words are blown, reads behind the buffer.
\<close>

theorem qfp_write_blows:
  assumes "check_request e io = Inr (off, sz)" and "n = unat sz mod 2 ^ 30"
    and "io_data io = Some ws" and "n \<le> length ws" and "\<not> io_interrupted io"
  shows "\<exists>r h'. write_outcome e (qfp_qfprom_base e + off) (take n ws) 0 n (h @ [DOWN]) r h' \<and>
           qfp_fuse_ioctl e (Some priv) QFP_FUSE_IOC_WRITE io h =
             (if r = 0 \<and> 2 ^ 30 \<le> unat sz then None else Some (r, None, h' @ [UP]))"
proof -
  have sz: "unat sz = n + (unat sz - n)" using assms(2) by simp
  have m: "0 < unat sz - n \<longleftrightarrow> 2 ^ 30 \<le> unat sz"
    using assms(2) mod_less_divisor [of "2 ^ 30" "unat sz"] by (cases "unat sz < 2 ^ 30") simp_all
  have "length (take n ws) = n" using assms(4) by simp
  from write_words_overrun [OF this, of e "qfp_qfprom_base e + off" "h @ [DOWN]" "unat sz - n"] sz m
  obtain r h' where "write_outcome e (qfp_qfprom_base e + off) (take n ws) 0 n (h @ [DOWN]) r h'"
      "write_words e (qfp_qfprom_base e + off) (unat sz) 0 (take n ws) 0 (h @ [DOWN]) =
         (if r = 0 \<and> 2 ^ 30 \<le> unat sz then None else Some (r, h'))"
    by auto
  then show ?thesis
    using assms by (intro exI [of _ r] exI [of _ h']) (auto simp: qfp_fuse_ioctl_def ioc_write_def buf_words_mod)
qed

definition demo_fuses :: fuse_env where
  "demo_fuses = \<lparr>qfp_qfprom_base = 0x700000, qfp_qfprom_end = 0x708000,
     readl = (\<lambda>a h. if a = 0x70204C then 0 else (case filter (\<lambda>x. \<exists>d. x = WRITEL a d) h of
                 [] \<Rightarrow> 0 | xs \<Rightarrow> (case last xs of WRITEL _ d \<Rightarrow> d | _ \<Rightarrow> 0))),
     regulator_enable = (\<lambda>_. 0), regulator_disable = (\<lambda>_. 0)\<rparr>"

definition demo_io :: "u32 \<Rightarrow> u32 \<Rightarrow> fuse_io" where
  "demo_io off sz = \<lparr>io_arg = True, io_req = Some (off, sz), io_kzalloc = True, io_data = Some [5, 6],
     io_interrupted = False, io_copy_out = True\<rparr>"

lemma demo_io_checked: "check_request demo_fuses (demo_io 16 2) = Inr (16, 2)"
  by (simp add: check_request_def demo_io_def exceeds_limit_def demo_fuses_def)

theorem qfp_write_blows_witness:
  "\<exists>r h' priv. qfp_fuse_ioctl demo_fuses (Some priv) QFP_FUSE_IOC_WRITE (demo_io 16 2) [] = Some (r, None, h' @ [UP]) \<and>
     write_outcome demo_fuses 0x700010 [5, 6] 0 2 [DOWN] r h'"
  using qfp_write_blows [OF demo_io_checked, of 2 "[5, 6]" "[]" "\<lparr>lvs0 = PTR (), fstate = 1\<rparr>"]
  by (auto simp: demo_io_def demo_fuses_def)

text \<open>Which addresses an access may have, and the use of the semaphore.\<close>

definition acc_in :: "(u32 \<Rightarrow> bool) \<Rightarrow> acc \<Rightarrow> bool" where
  "acc_in P x = (case x of READL a \<Rightarrow> P a | WRITEL a _ \<Rightarrow> P a | _ \<Rightarrow> True)"

definition locks :: "acc list \<Rightarrow> acc list" where
  "locks h = filter (\<lambda>x. x = DOWN \<or> x = UP) h"

lemma locks_simps [simp]: "locks [] = []" "locks (xs @ ys) = locks xs @ locks ys"
  by (simp_all add: locks_def)

definition blow_accesses :: "fuse_env \<Rightarrow> u32 set \<Rightarrow> acc list \<Rightarrow> bool" where
  "blow_accesses e A p \<longleftrightarrow> locks p = [] \<and> (\<forall>x\<in>set p. acc_in (\<lambda>b. b \<in> {blow_timer e, blow_status e} \<union> A) x)"

lemma word_accesses:
  "a \<in> A \<Longrightarrow> blow_accesses e A (word_log e a d k)"
  "a \<in> A \<Longrightarrow> word_attempt e a d p \<Longrightarrow> blow_accesses e A p"
  by (auto simp: blow_accesses_def word_log_def word_attempt_def butlast_append locks_def acc_in_def)

lemma words_accesses:
  "(\<And>j. j < length ks \<Longrightarrow> a + 4 * of_nat (i + j) \<in> A) \<Longrightarrow> blow_accesses e A (words_log e a buf i ks)"
proof (induction ks arbitrary: i)
  case Nil
  then show ?case by (simp add: blow_accesses_def)
next
  case (Cons k ks)
  have "blow_accesses e A (words_log e a buf (Suc i) ks)"
    by (rule Cons.IH) (use Cons.prems [of "Suc _"] in simp)
  with word_accesses(1) [of "a + 4 * of_nat i" A e "buf ! i" k] Cons.prems [of 0] show ?case
    by (auto simp: blow_accesses_def)
qed

lemma write_outcome_accesses:
  assumes "write_outcome e a buf 0 n h r h'"
  shows "\<exists>p. h' = h @ p \<and> blow_accesses e {a + 4 * of_nat j | j. j < n} p"
proof -
  let ?A = "{a + 4 * of_nat j | j. j < n}"
  from assms obtain ks where ks: "if r = 0 then length ks = n \<and> h' = h @ words_log e a buf 0 ks
         else length ks < n \<and> (\<exists>p. word_attempt e (a + 4 * of_nat (length ks)) (buf ! length ks) p \<and>
                h' = h @ words_log e a buf 0 ks @ p)"
    unfolding write_outcome_def add_0 by blast
  then have "length ks \<le> n" by (auto split: if_splits)
  then have w: "blow_accesses e ?A (words_log e a buf 0 ks)" by (intro words_accesses) auto
  show ?thesis
  proof (cases "r = 0")
    case True
    with ks w show ?thesis by auto
  next
    case False
    with ks obtain p where p: "length ks < n" "word_attempt e (a + 4 * of_nat (length ks)) (buf ! length ks) p"
        "h' = h @ words_log e a buf 0 ks @ p" by auto
    have "blow_accesses e ?A p" by (rule word_accesses(2) [OF _ p(2)]) (use p(1) in auto)
    with w p(3) show ?thesis by (auto simp: blow_accesses_def)
  qed
qed

text \<open>The addresses of the fuse memory as numbers.\<close>

definition in_qfprom :: "fuse_env \<Rightarrow> u32 \<Rightarrow> bool" where
  "in_qfprom e a \<longleftrightarrow> unat (qfp_qfprom_base e) \<le> unat a \<and> unat a + 4 \<le> unat (qfp_qfprom_end e)"

lemma checked_in_qfprom:
  assumes "check_request e io = Inr (off, sz)" and "no_wrap e off sz" and "i < unat sz"
  shows "in_qfprom e (qfp_qfprom_base e + off + 4 * of_nat i)"
proof -
  have "\<not> exceeds_limit e off sz"
    using assms(1) by (auto simp: check_request_def split: if_splits option.splits)
  with no_wrap_simps(2,3) [OF assms(2)] assms(3) show ?thesis by (simp add: in_qfprom_def)
qed

lemma ioc_read_bounds:
  assumes "\<And>off sz. io_req io = Some (off, sz) \<Longrightarrow> no_wrap e off sz"
  shows "\<exists>r ret h'. ioc_read e (Some priv) io h = Some (r, ret, h @ h') \<and>
           (\<forall>x\<in>set h'. acc_in (in_qfprom e) x) \<and> locks h' \<in> {[], [DOWN, UP]}"
proof (cases "check_request e io")
  case (Inl err)
  then show ?thesis by (simp add: ioc_read_def)
next
  case (Inr p)
  obtain off sz where p: "p = (off, sz)" by (rule prod.exhaust)
  have nw: "no_wrap e off sz"
    using assms Inr p by (auto simp: check_request_def split: if_splits option.splits)
  let ?a = "qfp_qfprom_base e + off"
  obtain buf where run: "read_words e ?a (unat sz) 0 (replicate (unat sz) 0) (h @ [DOWN]) =
      Some (buf, (h @ [DOWN]) @ map (\<lambda>k. READL (?a + 4 * of_nat k)) [0..<unat sz])"
    using read_words_ok [of 0 "unat sz" "replicate (unat sz) 0" e ?a "h @ [DOWN]"] by auto
  let ?l = "map (\<lambda>k. READL (?a + 4 * of_nat k)) [0..<unat sz]"
  have "\<forall>x\<in>set ?l. acc_in (in_qfprom e) x"
    using checked_in_qfprom [OF Inr [unfolded p] nw] by (auto simp: acc_in_def)
  moreover have "locks ?l = []" by (auto simp: locks_def)
  ultimately show ?thesis
    using Inr p run no_wrap_simps(1) [OF nw]
    by (cases "io_interrupted io") (auto simp: ioc_read_def acc_in_def locks_def)
qed

lemma ioc_write_bounds:
  assumes "\<And>off sz. io_req io = Some (off, sz) \<Longrightarrow> no_wrap e off sz"
  shows "\<exists>r ret h'. ioc_write e (Some priv) io h = Some (r, ret, h @ h') \<and>
           (\<forall>x\<in>set h'. acc_in (\<lambda>a. in_qfprom e a \<or> a \<in> {blow_timer e, blow_status e}) x) \<and> locks h' \<in> {[], [DOWN, UP]}"
proof (cases "check_request e io")
  case (Inl err)
  then show ?thesis by (simp add: ioc_write_def)
next
  case (Inr q)
  obtain off sz where q: "q = (off, sz)" by (rule prod.exhaust)
  have nw: "no_wrap e off sz"
    using assms Inr q by (auto simp: check_request_def split: if_splits option.splits)
  let ?a = "qfp_qfprom_base e + off"
  show ?thesis
  proof (cases "\<exists>ws. io_data io = Some ws \<and> unat sz \<le> length ws \<and> \<not> io_interrupted io")
    case False
    then consider "io_data io = None" | ws where "io_data io = Some ws" "length ws < unat sz" | ws where "io_data io = Some ws" "io_interrupted io"
      by (cases "io_data io") (auto simp: not_le)
    then show ?thesis
      by cases (use Inr q no_wrap_simps(1) [OF nw] in \<open>simp_all add: ioc_write_def\<close>)
  next
    case True
    then obtain ws where ws: "io_data io = Some ws" "unat sz \<le> length ws" "\<not> io_interrupted io" by blast
    obtain r h' where run: "write_words e ?a (unat sz) 0 (take (unat sz) ws) 0 (h @ [DOWN]) = Some (r, h')"
        "write_outcome e ?a (take (unat sz) ws) 0 (unat sz) (h @ [DOWN]) r h'"
      using write_words_ok [of 0 "unat sz" "take (unat sz) ws" e ?a "h @ [DOWN]"] ws(2) by auto
    from write_outcome_accesses [OF run(2)] obtain p where
      p: "h' = (h @ [DOWN]) @ p" "blow_accesses e {?a + 4 * of_nat j | j. j < unat sz} p" by blast
    have "acc_in (\<lambda>a. in_qfprom e a \<or> a \<in> {blow_timer e, blow_status e}) x" if "x \<in> set p" for x
      using p(2) that checked_in_qfprom [OF Inr [unfolded q] nw]
      by (fastforce simp: blow_accesses_def acc_in_def split: acc.splits)
    moreover have "locks p = []" using p(2) by (simp add: blow_accesses_def)
    ultimately show ?thesis
      using Inr q ws run(1) p(1) no_wrap_simps(1) [OF nw]
      by (auto simp: ioc_write_def acc_in_def locks_def)
  qed
qed

text \<open>
  C31: Bounds. If the end of the request does not exceed the 32-bit address space, every command stays
  within its kernel buffer, touches only words of the fuse memory and the two control registers, and
  takes and releases the semaphore in pairs, whatever the user passes.
\<close>

theorem qfp_ioctl_in_bounds:
  assumes "\<And>off sz. io_req io = Some (off, sz) \<Longrightarrow> no_wrap e off sz"
  shows "\<exists>r ret h'. qfp_fuse_ioctl e (Some priv) cmd io h = Some (r, ret, h @ h') \<and>
           (\<forall>x\<in>set h'. acc_in (\<lambda>a. in_qfprom e a \<or> a \<in> {blow_timer e, blow_status e}) x) \<and> locks h' \<in> {[], [DOWN, UP]}"
proof -
  obtain r ret h' where rd: "ioc_read e (Some priv) io h = Some (r, ret, h @ h')"
      "\<forall>x\<in>set h'. acc_in (in_qfprom e) x" "locks h' \<in> {[], [DOWN, UP]}"
    using ioc_read_bounds [OF assms, of io priv h] by blast
  then have "\<forall>x\<in>set h'. acc_in (\<lambda>a. in_qfprom e a \<or> a \<in> {blow_timer e, blow_status e}) x"
    by (fastforce simp: acc_in_def split: acc.splits)
  with rd ioc_write_bounds [OF assms, of io priv h] show ?thesis
    unfolding qfp_fuse_ioctl_def by (cases "cmd = QFP_FUSE_IOC_READ"; cases "cmd = QFP_FUSE_IOC_WRITE") auto
qed

theorem qfp_ioctl_in_bounds_witness:
  "\<exists>r ret h' priv. qfp_fuse_ioctl demo_fuses (Some priv) QFP_FUSE_IOC_READ (demo_io 16 2) [] = Some (r, ret, h') \<and>
     locks h' \<in> {[], [DOWN, UP]}"
proof -
  have "no_wrap demo_fuses off sz" if "io_req (demo_io 16 2) = Some (off, sz)" for off sz
    using that by (auto simp: demo_io_def no_wrap_def demo_fuses_def)
  from qfp_ioctl_in_bounds [OF this, of "demo_io 16 2" "\<lparr>lvs0 = PTR (), fstate = 1\<rparr>" QFP_FUSE_IOC_READ "[]"] show ?thesis by auto
qed

text \<open>
  The limit check is done in 32-bit arithmetic. A request for \<open>2 ^ 30 + 1\<close> words passes it, gets a
  buffer of one word, and the loop that fills the buffer runs beyond it.
\<close>

theorem qfp_limit_wraps:
  assumes "qfp_qfprom_base e + 4 \<le> qfp_qfprom_end e" and "io_arg io" and "io_kzalloc io" and "\<not> io_interrupted io"
    and "io_req io = Some (0, 0x40000001)"
  shows "check_request e io = Inr (0, 0x40000001) \<and> qfp_fuse_ioctl e (Some priv) QFP_FUSE_IOC_READ io h = None"
proof -
  have four: "0x40000001 * 4 = (4 :: u32)" by code_simp
  have "\<not> exceeds_limit e 0 0x40000001" unfolding exceeds_limit_def four using assms(1) by (simp add: not_less)
  then have c: "check_request e io = Inr (0, 0x40000001)"
    using assms by (simp add: check_request_def)
  have "buf_words 0x40000001 = 1" by (simp add: buf_words_def)
  moreover have "read_words e a (unat (0x40000001 :: u32)) 0 [0] (h @ [DOWN]) = None" for a
    by (rule read_words_overrun) simp_all
  ultimately show ?thesis using c assms(4) by (simp add: qfp_fuse_ioctl_def ioc_read_def)
qed

theorem qfp_limit_wraps_witness:
  "\<exists>priv. qfp_fuse_ioctl demo_fuses (Some priv) QFP_FUSE_IOC_READ (demo_io 0 0x40000001) [] = None"
  using qfp_limit_wraps [of demo_fuses "demo_io 0 0x40000001"] by (auto simp: demo_io_def demo_fuses_def)

end
