(* ===== verification/TimedGpio.thy ===== *)
theory TimedGpio
  imports Prelude
begin

text \<open>
  The timed outputs of \<^verbatim>\<open>test_timedgpio\<close>: a pin that is switched on for a number of milliseconds
  (\<^verbatim>\<open>timed_gpio.c\<close>), the class of devices through which users do that (\<^verbatim>\<open>timed_output.c\<close>) and the board's
  table of pins (\<^verbatim>\<open>timed_gpiodev.c\<close>). Time is counted in nanoseconds. The kernel's registrations are
  parameters; \<open>None\<close> is the use of an error pointer as an object.
\<close>

section \<open>One output\<close>

text \<open>\<open>expires\<close> is the time at which the high-resolution timer fires, when it is running.\<close>

record timed_gpio_data =
  gpio :: nat
  max_timeout :: int
  active_low :: bool
  dev_index :: int
  expires :: "int option"

type_synonym pins = "nat \<Rightarrow> bool"

definition ktime_set :: "int \<Rightarrow> int \<Rightarrow> int" where
  "ktime_set secs nsecs = secs * 1000000000 + nsecs"

definition gpio_timer_func :: "timed_gpio_data \<times> pins \<Rightarrow> timed_gpio_data \<times> pins" where
  "gpio_timer_func = (\<lambda>(d, p). (d\<lparr>expires := None\<rparr>, p(gpio d := active_low d)))"

text \<open>The state when it is \<open>now\<close>: a timer that is due has fired.\<close>

definition at_time :: "int \<Rightarrow> timed_gpio_data \<times> pins \<Rightarrow> timed_gpio_data \<times> pins" where
  "at_time now st =
     (case expires (fst st) of
        None \<Rightarrow> st
      | Some t \<Rightarrow> if t \<le> now then gpio_timer_func st else st)"

text \<open>The remaining time as seconds and microseconds, and from there in milliseconds.
  \<^verbatim>\<open>ktime_to_timeval\<close> is the kernel's: it splits a time in nanoseconds into whole seconds and the whole
  microseconds of the rest, as its documentation says; the timer expires at the time it was set to.\<close>

definition ktime_to_timeval :: "int \<Rightarrow> int \<times> int" where
  "ktime_to_timeval r = (r div 1000000000, (r mod 1000000000) div 1000)"

definition gpio_get_time :: "int \<Rightarrow> timed_gpio_data \<Rightarrow> int" where
  "gpio_get_time now d =
     (case expires d of
        None \<Rightarrow> 0
      | Some t \<Rightarrow> (case ktime_to_timeval (t - now) of (tv_sec, tv_usec) \<Rightarrow> tv_sec * 1000 + cdiv tv_usec 1000))"

definition gpio_enable :: "int \<Rightarrow> int \<Rightarrow> timed_gpio_data \<times> pins \<Rightarrow> timed_gpio_data \<times> pins" where
  "gpio_enable now v = (\<lambda>(d, p).
     let d1 = d\<lparr>expires := None\<rparr>;
         p1 = p(gpio d := (if active_low d then v = 0 else v \<noteq> 0))
     in if v > 0 then
          let v1 = (if v > max_timeout d then max_timeout d else v)
          in (d1\<lparr>expires := Some (now + ktime_set (cdiv v1 1000) (cmod v1 1000 * 1000000))\<rparr>, p1)
        else (d1, p1))"

text \<open>The output is on when its pin differs from the level at rest.\<close>

definition is_on :: "timed_gpio_data \<times> pins \<Rightarrow> bool" where
  "is_on = (\<lambda>(d, p). p (gpio d) \<noteq> active_low d)"

lemma ktime_ms: "ktime_set (cdiv v 1000) (cmod v 1000 * 1000000) = v * 1000000"
  by (simp add: ktime_set_def cmod_def algebra_simps)

lemma gpio_enable_simps:
  "gpio_enable now v (d, p) =
     (d\<lparr>expires := (if 0 < v then Some (now + min v (max_timeout d) * 1000000) else None)\<rparr>,
      p(gpio d := (if active_low d then v = 0 else v \<noteq> 0)))"
  by (simp add: gpio_enable_def ktime_ms Let_def min_def)

section \<open>A history of commands\<close>

text \<open>Commands with the times at which they arrive; the timer fires in between.\<close>

fun run_enables :: "(int \<times> int) list \<Rightarrow> timed_gpio_data \<times> pins \<Rightarrow> timed_gpio_data \<times> pins" where
  "run_enables [] st = st"
| "run_enables ((t, v) # cs) st = run_enables cs (gpio_enable t v (at_time t st))"

text \<open>What the user sees: the output is on for the time asked for by the last command, but no longer than
  the maximum, and without end for a negative number.\<close>

definition on_at :: "int \<Rightarrow> int \<Rightarrow> int \<Rightarrow> int \<Rightarrow> bool" where
  "on_at mx t v now \<longleftrightarrow> v < 0 \<or> 0 < v \<and> now < t + min v mx * 1000000"

lemma at_time_static [simp]:
  "gpio (fst (at_time t st)) = gpio (fst st)" "active_low (fst (at_time t st)) = active_low (fst st)"
  "max_timeout (fst (at_time t st)) = max_timeout (fst st)"
  by (simp_all add: at_time_def gpio_timer_func_def split: option.split prod.split)

lemma enable_static [simp]:
  "gpio (fst (gpio_enable t v st)) = gpio (fst st)" "active_low (fst (gpio_enable t v st)) = active_low (fst st)"
  "max_timeout (fst (gpio_enable t v st)) = max_timeout (fst st)"
  by (cases st; simp add: gpio_enable_simps)+

lemma enables_static:
  "gpio (fst (run_enables cs st)) = gpio (fst st) \<and> active_low (fst (run_enables cs st)) = active_low (fst st) \<and>
   max_timeout (fst (run_enables cs st)) = max_timeout (fst st)"
  by (induction cs st rule: run_enables.induct) simp_all

lemma run_enables_append: "run_enables (cs @ cs') st = run_enables cs' (run_enables cs st)"
  by (induction cs st rule: run_enables.induct) simp_all

text \<open>Seconds and microseconds lose nothing of the milliseconds.\<close>

lemma timeval_ms:
  assumes "0 < (ms::int)"
  shows "ms div 1000000000 * 1000 + cdiv (ms mod 1000000000 div 1000) 1000 = ms div 1000000"
proof -
  define q r where "q = ms div 1000000000" and "r = ms mod 1000000000"
  have ms: "ms = r + q * 1000 * 1000000" and r: "0 \<le> r" by (simp_all add: q_def r_def)
  have "ms div 1000000 = r div 1000000 + q * 1000" 
    unfolding ms using div_mult_self1 [of 1000000 r "q * 1000"] by simp
  moreover have "cdiv (r div 1000) 1000 = r div 1000000"
    using r by (auto simp: cdiv_def sgn_if zdiv_zmult2_eq [symmetric] pos_imp_zdiv_nonneg_iff)
  ultimately show ?thesis by (simp add: q_def r_def)
qed

lemma enable_on_at: "is_on (at_time now (gpio_enable t v st)) \<longleftrightarrow> on_at (max_timeout (fst st)) t v now"
proof (cases st)
  case (Pair d p)
  then show ?thesis
    by (auto simp: gpio_enable_simps at_time_def gpio_timer_func_def is_on_def on_at_def min_def split: if_splits)
qed

text \<open>C34: Whatever commands an output was given, it is on exactly as long as the last one says: for its
  number of milliseconds, but at most for the maximum of the board, and without end for a negative number; the
  remaining time that is reported is the time until it goes off, in whole milliseconds.\<close>

theorem timed_output_last_command:
  assumes "st' = run_enables (cs @ [(t, v)]) (d, p)" and "t \<le> now"
  shows "is_on (at_time now st') = on_at (max_timeout d) t v now \<and>
         (0 < v \<and> on_at (max_timeout d) t v now \<longrightarrow>
            gpio_get_time now (fst (at_time now st')) = (t + min v (max_timeout d) * 1000000 - now) div 1000000)"
proof -
  define s where "s = at_time t (run_enables cs (d, p))"
  have st': "st' = gpio_enable t v s" using assms(1) by (simp add: run_enables_append s_def)
  have mx: "max_timeout (fst s) = max_timeout d" using enables_static [of cs "(d, p)"] by (simp add: s_def)
  have "gpio_get_time now (fst (at_time now st')) = (t + min v (max_timeout d) * 1000000 - now) div 1000000"
    if "0 < v" "on_at (max_timeout d) t v now"
    using that mx timeval_ms [of "t + min v (max_timeout d) * 1000000 - now"] unfolding st'
    by (cases s) (auto simp: gpio_enable_simps at_time_def gpio_get_time_def ktime_to_timeval_def on_at_def)
  then show ?thesis using enable_on_at [of now t v s] mx st' by simp
qed

definition demo_data :: timed_gpio_data where
  "demo_data = \<lparr>gpio = 7, max_timeout = 100000000, active_low = False, dev_index = 1, expires = None\<rparr>"

theorem timed_output_last_command_witness:
  "\<exists>st'. st' = run_enables [(0, 500), (1000, 2)] (demo_data, \<lambda>_. False) \<and> is_on (at_time 2000999 st') \<and>
         \<not> is_on (at_time 2001000 st') \<and> gpio_get_time 1000 (fst (at_time 1000 st')) = 2"
  using timed_output_last_command [of _ "[(0, 500)]" 1000 2 demo_data "\<lambda>_. False" 2000999, OF refl]
    timed_output_last_command [of _ "[(0, 500)]" 1000 2 demo_data "\<lambda>_. False" 2001000, OF refl]
    timed_output_last_command [of _ "[(0, 500)]" 1000 2 demo_data "\<lambda>_. False" 1000, OF refl]
  by (simp add: on_at_def demo_data_def)

section \<open>The class of timed outputs\<close>

text \<open>
  The devices of the class by index and name, the attribute files, the pins that were requested, and
  the blocks of memory in use.
\<close>

record tg_state =
  timed_output_class :: "unit kptr"
  device_count :: int
  devices :: "(int \<times> string) list"
  files :: "int list"
  requested :: "nat list"
  pins_now :: pins
  blocks :: nat

text \<open>
  The kernel: the error of \<^verbatim>\<open>class_create\<close> (0 for none), and the results of creating a device with a
  name, given the devices that exist, of creating its file, of requesting a pin, and of an allocation.
\<close>

record tg_env =
  class_error :: int
  device_error :: "string \<Rightarrow> (int \<times> string) list \<Rightarrow> int"
  file_error :: "int \<Rightarrow> int"
  request_error :: "nat \<Rightarrow> nat list \<Rightarrow> int"
  have_memory :: bool

definition create_timed_output_class :: "tg_env \<Rightarrow> tg_state \<Rightarrow> int \<times> tg_state" where
  "create_timed_output_class e s =
     (if timed_output_class s = NULL then
        let s1 = s\<lparr>timed_output_class := (if class_error e \<noteq> 0 then ERR (class_error e) else PTR ())\<rparr>
        in if IS_ERR (timed_output_class s1) then (PTR_ERR (timed_output_class s1), s1)
           else (0, s1\<lparr>device_count := 0\<rparr>)
      else (0, s))"

text \<open>The pointers to the two functions of a device are always set by the driver; its name comes from the board
  and may be missing.\<close>

definition timed_output_dev_register :: "tg_env \<Rightarrow> string option \<Rightarrow> tg_state \<Rightarrow> (int \<times> int \<times> tg_state) option" where
  "timed_output_dev_register e name_ptr s =
     (case name_ptr of None \<Rightarrow> Some (- EINVAL, 0, s) | Some name \<Rightarrow>
      case create_timed_output_class e s of (ret, s1) \<Rightarrow>
        if ret < 0 then Some (ret, 0, s1)
        else
          let i = device_count s1 + 1; s2 = s1\<lparr>device_count := i\<rparr>;
              err = device_error e name (devices s2)
          in if IS_ERR (timed_output_class s2) then None
             else if err \<noteq> 0 then Some (err, i, s2)
             else
               let s3 = s2\<lparr>devices := (i, name) # devices s2\<rparr>; ret = file_error e i
               in if ret < 0 then Some (ret, i, s3\<lparr>devices := filter (\<lambda>d. fst d \<noteq> i) (devices s3)\<rparr>)
                  else Some (0, i, s3\<lparr>files := i # files s3\<rparr>))"

definition timed_output_dev_unregister :: "int \<Rightarrow> timed_gpio_data \<Rightarrow> tg_state \<Rightarrow> tg_state" where
  "timed_output_dev_unregister now d s =
     (let s1 = s\<lparr>pins_now := snd (gpio_enable now 0 (d, pins_now s))\<rparr>;
          s2 = s1\<lparr>files := removeAll (dev_index d) (files s1)\<rparr>
      in s2\<lparr>devices := filter (\<lambda>x. fst x \<noteq> dev_index d) (devices s2)\<rparr>)"

definition gpio_free :: "nat \<Rightarrow> tg_state \<Rightarrow> tg_state" where
  "gpio_free g s = s\<lparr>requested := remove1 g (requested s)\<rparr>"

definition timed_output_init :: "tg_env \<Rightarrow> tg_state \<Rightarrow> int \<times> tg_state" where
  "timed_output_init e s = create_timed_output_class e s"

text \<open>The attribute file of a device: \<open>scanned\<close> is what \<^verbatim>\<open>sscanf\<close> found, if anything.\<close>

definition enable_show :: "int \<Rightarrow> timed_gpio_data \<Rightarrow> int \<times> string" where
  "enable_show now d = (let s = c_dec (gpio_get_time now d) @ [CHR 0x0A] in (int (length s), s))"

definition enable_store :: "int \<Rightarrow> int option \<Rightarrow> int \<Rightarrow> timed_gpio_data \<times> pins \<Rightarrow> int \<times> timed_gpio_data \<times> pins" where
  "enable_store now scanned len st =
     (case scanned of
        None \<Rightarrow> (- EINVAL, st)
      | Some v \<Rightarrow> (len, gpio_enable now v st))"

section \<open>Probing and removing the board's outputs\<close>

record timed_gpio =
  tg_name :: "string option"
  tg_gpio :: nat
  tg_max_timeout :: int
  tg_active_low :: bool

definition release_output :: "int \<Rightarrow> timed_gpio_data \<Rightarrow> tg_state \<Rightarrow> tg_state" where
  "release_output now d s = gpio_free (gpio d) (timed_output_dev_unregister now d s)"

text \<open>The loop: \<open>made\<close> are the outputs so far, the last one first, in the order in which they are given back.\<close>

fun probe_loop ::
    "tg_env \<Rightarrow> int \<Rightarrow> timed_gpio list \<Rightarrow> timed_gpio_data list \<Rightarrow> tg_state \<Rightarrow> (int \<times> timed_gpio_data list \<times> tg_state) option" where
  "probe_loop e now [] made s = Some (0, rev made, s)"
| "probe_loop e now (c # cs) made s =
     (let ret = request_error e (tg_gpio c) (requested s)
      in if ret < 0 then Some (ret, [], fold (release_output now) made s)
         else
           let s1 = s\<lparr>requested := tg_gpio c # requested s\<rparr>
           in Option.bind (timed_output_dev_register e (tg_name c) s1) (\<lambda>(ret, i, s2).
                if ret < 0 then Some (ret, [], fold (release_output now) made (gpio_free (tg_gpio c) s2))
                else
                  let d = \<lparr>gpio = tg_gpio c, max_timeout = tg_max_timeout c, active_low = tg_active_low c,
                           dev_index = i, expires = None\<rparr>
                  in probe_loop e now cs (d # made) (s2\<lparr>pins_now := (pins_now s2)(tg_gpio c := tg_active_low c)\<rparr>)))"

definition timed_gpio_probe ::
    "tg_env \<Rightarrow> int \<Rightarrow> timed_gpio list option \<Rightarrow> tg_state \<Rightarrow> (int \<times> timed_gpio_data list \<times> tg_state) option" where
  "timed_gpio_probe e now pdata s =
     (case pdata of
        None \<Rightarrow> Some (- EBUSY, [], s)
      | Some cs \<Rightarrow>
          if \<not> have_memory e then Some (- ENOMEM, [], s)
          else
            map_option (\<lambda>(ret, ds, s1). if ret < 0 then (ret, ds, s1\<lparr>blocks := blocks s1 - 1\<rparr>) else (ret, ds, s1))
              (probe_loop e now cs [] (s\<lparr>blocks := blocks s + 1\<rparr>)))"

definition timed_gpio_remove :: "int \<Rightarrow> timed_gpio_data list \<Rightarrow> tg_state \<Rightarrow> int \<times> tg_state" where
  "timed_gpio_remove now ds s =
     (let s1 = fold (release_output now) ds s in (0, s1\<lparr>blocks := blocks s1 - 1\<rparr>))"

text \<open>The table of the board.\<close>

definition tgpios :: "timed_gpio list" where
  "tgpios = [\<lparr>tg_name = Some ''vibrator'', tg_gpio = 7, tg_max_timeout = 100000000, tg_active_low = False\<rparr>,
             \<lparr>tg_name = Some ''vibrator'', tg_gpio = 8, tg_max_timeout = 100000000, tg_active_low = False\<rparr>]"

section \<open>Nothing is left behind\<close>

lemma release_simps [simp]:
  "devices (release_output now d s) = filter (\<lambda>x. fst x \<noteq> dev_index d) (devices s)"
  "files (release_output now d s) = removeAll (dev_index d) (files s)"
  "requested (release_output now d s) = remove1 (gpio d) (requested s)"
  "blocks (release_output now d s) = blocks s"
  by (simp_all add: release_output_def gpio_free_def timed_output_dev_unregister_def Let_def)

lemma release_all:
  "devices (fold (release_output now) ds s) = filter (\<lambda>x. fst x \<notin> dev_index ` set ds) (devices s)"
  "files (fold (release_output now) ds s) = filter (\<lambda>i. i \<notin> dev_index ` set ds) (files s)"
  "requested (fold (release_output now) ds s) = fold remove1 (map gpio ds) (requested s)"
  "blocks (fold (release_output now) ds s) = blocks s"
  by (induction ds arbitrary: s) (auto simp: removeAll_filter_not_eq conj_commute eq_commute intro: filter_cong)

text \<open>The indices in use, and a kernel whose errors are negative.\<close>

definition indices_ok :: "tg_state \<Rightarrow> bool" where
  "indices_ok s \<longleftrightarrow> (\<forall>x\<in>set (devices s). fst x \<le> device_count s) \<and> (\<forall>i\<in>set (files s). i \<le> device_count s) \<and>
     timed_output_class s = PTR ()"

definition negative_errors :: "tg_env \<Rightarrow> bool" where
  "negative_errors e \<longleftrightarrow> (\<forall>n ds. device_error e n ds \<le> 0)"

text \<open>The outputs made so far can be given back to reach the state \<open>s0\<close>.\<close>

definition undoable :: "tg_state \<Rightarrow> timed_gpio_data list \<Rightarrow> tg_state \<Rightarrow> bool" where
  "undoable s0 made s \<longleftrightarrow> filter (\<lambda>x. fst x \<notin> dev_index ` set made) (devices s) = devices s0 \<and>
     filter (\<lambda>i. i \<notin> dev_index ` set made) (files s) = files s0 \<and>
     fold remove1 (map gpio made) (requested s) = requested s0 \<and> blocks s = blocks s0 \<and> indices_ok s"

text \<open>A kernel that refuses a second device of the same name.\<close>

definition refuses_twins :: "tg_env \<Rightarrow> bool" where
  "refuses_twins e \<longleftrightarrow> (\<forall>n ds. n \<in> snd ` set ds \<longrightarrow> device_error e n ds < 0)"

abbreviation names_of :: "tg_state \<Rightarrow> string option set" where
  "names_of s \<equiv> (\<lambda>x. Some (snd x)) ` set (devices s)"

lemma register_cases:
  assumes "timed_output_dev_register e n s = Some (ret, i, s')" and "indices_ok s" and "negative_errors e"
  shows "indices_ok s' \<and> blocks s' = blocks s \<and> requested s' = requested s \<and>
         (if ret < 0 then devices s' = devices s \<and> files s' = files s
          else ret = 0 \<and> i = device_count s + 1 \<and> n \<noteq> None \<and> devices s' = (i, the n) # devices s \<and>
               files s' = i # files s \<and> (refuses_twins e \<longrightarrow> n \<notin> names_of s))"
proof (cases n)
  case None
  then show ?thesis using assms by (auto simp: timed_output_dev_register_def)
next
  case (Some nm)
  have c: "create_timed_output_class e s = (0, s)" using assms(2) by (simp add: create_timed_output_class_def indices_ok_def)
  have fresh: "filter (\<lambda>x. fst x \<noteq> device_count s + 1) (devices s) = devices s"
    using assms(2) by (auto simp: indices_ok_def filter_id_conv)
  have d: "device_error e nm (devices s) \<le> 0" using assms(3) by (simp add: negative_errors_def)
  have up: "x \<in> set (devices s) \<Longrightarrow> fst x \<le> device_count s + 1" "i \<in> set (files s) \<Longrightarrow> i \<le> device_count s + 1" for x i
    using assms(2) by (force simp: indices_ok_def)+
  consider "device_error e nm (devices s) \<noteq> 0" | "device_error e nm (devices s) = 0" "file_error e (device_count s + 1) < 0"
    | "device_error e nm (devices s) = 0" "\<not> file_error e (device_count s + 1) < 0" by blast
  then show ?thesis
  proof cases
    case 1
    then show ?thesis using assms c d up Some by (auto simp: timed_output_dev_register_def Let_def indices_ok_def)
  next
    case 2
    then show ?thesis
      using assms c fresh up Some by (auto simp: timed_output_dev_register_def Let_def indices_ok_def)
  next
    case 3
    then have "refuses_twins e \<longrightarrow> n \<notin> names_of s" using Some by (force simp: refuses_twins_def)
    then show ?thesis using 3 assms c up Some by (auto simp: timed_output_dev_register_def Let_def indices_ok_def)
  qed
qed

lemma register_total: "indices_ok s \<Longrightarrow> \<exists>r. timed_output_dev_register e n s = Some r"
  by (simp add: timed_output_dev_register_def create_timed_output_class_def indices_ok_def Let_def split: option.split)

definition same_resources :: "tg_state \<Rightarrow> tg_state \<Rightarrow> bool" where
  "same_resources s s' \<longleftrightarrow> devices s' = devices s \<and> files s' = files s \<and> requested s' = requested s \<and> blocks s' = blocks s"

lemma undo_made: "undoable s0 made s \<Longrightarrow> same_resources s0 (fold (release_output now) made s)"
  by (simp add: undoable_def same_resources_def release_all)

text \<open>One more output can be undone too.\<close>

lemma undoable_step:
  assumes "undoable s0 made s" and "devices s3 = (i, nm) # devices s" and "files s3 = i # files s"
    and "requested s3 = gpio d # requested s" and "blocks s3 = blocks s" and "indices_ok s3" and "dev_index d = i"
    and "device_count s < i"
  shows "undoable s0 (d # made) s3"
proof -
  have fr: "\<forall>x\<in>set (devices s). fst x \<noteq> i" "\<forall>j\<in>set (files s). j \<noteq> i"
    using assms(1,8) by (auto simp: undoable_def indices_ok_def)
  have "filter (\<lambda>x. fst x \<noteq> i \<and> fst x \<notin> dev_index ` set made) (devices s) = filter (\<lambda>x. fst x \<notin> dev_index ` set made) (devices s)"
    by (rule filter_cong) (use fr in auto)
  moreover have "filter (\<lambda>j. j \<noteq> i \<and> j \<notin> dev_index ` set made) (files s) = filter (\<lambda>j. j \<notin> dev_index ` set made) (files s)"
    by (rule filter_cong) (use fr in auto)
  ultimately show ?thesis using assms by (simp add: undoable_def)
qed

lemma probe_loop_ok:
  assumes "undoable s0 made s" and "negative_errors e"
  shows "\<exists>ret ds s'. probe_loop e now cs made s = Some (ret, ds, s') \<and>
           (if ret < 0 then ds = [] \<and> same_resources s0 s'
            else ret = 0 \<and> undoable s0 (rev ds) s' \<and> length ds = length made + length cs \<and>
                 (refuses_twins e \<longrightarrow> distinct (map tg_name cs) \<and> set (map tg_name cs) \<inter> names_of s = {}))"
  using assms(1)
proof (induction cs arbitrary: made s)
  case Nil
  then show ?case by simp
next
  case (Cons c cs)
  show ?case
  proof (cases "request_error e (tg_gpio c) (requested s) < 0")
    case True
    then show ?thesis using undo_made [OF Cons.prems] by simp
  next
    case False
    define s1 where "s1 = s\<lparr>requested := tg_gpio c # requested s\<rparr>"
    have i1: "indices_ok s1" using Cons.prems by (simp add: undoable_def indices_ok_def s1_def)
    obtain ret i s2 where r: "timed_output_dev_register e (tg_name c) s1 = Some (ret, i, s2)"
      using register_total [OF i1] by (metis prod_cases3)
    note k = register_cases [OF r i1 assms(2)]
    show ?thesis
    proof (cases "ret < 0")
      case True
      have "undoable s0 made (gpio_free (tg_gpio c) s2)"
        using True k Cons.prems by (simp add: gpio_free_def undoable_def indices_ok_def s1_def)
      then show ?thesis
        using undo_made False True r by (simp add: Let_def s1_def)
    next
      case ok: False
      define d where "d = \<lparr>gpio = tg_gpio c, max_timeout = tg_max_timeout c, active_low = tg_active_low c, dev_index = i, expires = None\<rparr>"
      define s3 where "s3 = s2\<lparr>pins_now := (pins_now s2)(tg_gpio c := tg_active_low c)\<rparr>"
      have "undoable s0 (d # made) s3"
        by (rule undoable_step [OF Cons.prems, of _ i "the (tg_name c)"])
          (use k ok in \<open>simp_all add: d_def s3_def s1_def indices_ok_def\<close>)
      from Cons.IH [OF this] obtain ret' ds s' where p: "probe_loop e now cs (d # made) s3 = Some (ret', ds, s')"
        and q: "if ret' < 0 then ds = [] \<and> same_resources s0 s'
            else ret' = 0 \<and> undoable s0 (rev ds) s' \<and> length ds = length (d # made) + length cs \<and>
                 (refuses_twins e \<longrightarrow> distinct (map tg_name cs) \<and> set (map tg_name cs) \<inter> names_of s3 = {})" by blast
      have n3: "names_of s3 = insert (tg_name c) (names_of s)" "refuses_twins e \<longrightarrow> tg_name c \<notin> names_of s"
        using k ok by (auto simp: s3_def s1_def)
      have "probe_loop e now (c # cs) made s = Some (ret', ds, s')"
        using False ok r p by (simp add: Let_def s1_def d_def s3_def)
      moreover have "distinct (map tg_name (c # cs)) \<and> set (map tg_name (c # cs)) \<inter> names_of s = {}"
        if "refuses_twins e" "\<not> ret' < 0"
      proof -
        have "set (map tg_name cs) \<inter> insert (tg_name c) (names_of s) = {}" "distinct (map tg_name cs)"
          using that q unfolding n3(1) by simp_all
        moreover have "tg_name c \<notin> names_of s" using n3(2) that by blast
        ultimately show ?thesis by simp
      qed
      ultimately show ?thesis using q by (intro exI conjI) (assumption, simp del: distinct.simps probe_loop.simps)
    qed
  qed
qed

text \<open>Probing, for a caller.\<close>

lemma probe_cases:
  assumes "indices_ok s" and "negative_errors e"
  shows "\<exists>ret ds s'. timed_gpio_probe e now (Some cs) s = Some (ret, ds, s') \<and>
           (if ret < 0 then ds = [] \<and> same_resources s s'
            else ret = 0 \<and> length ds = length cs \<and> same_resources s (snd (timed_gpio_remove now' ds s')) \<and>
                 (refuses_twins e \<longrightarrow> distinct (map tg_name cs)))"
proof (cases "have_memory e")
  case False
  then show ?thesis by (simp add: timed_gpio_probe_def same_resources_def)
next
  case True
  define s1 where "s1 = s\<lparr>blocks := blocks s + 1\<rparr>"
  have "undoable s1 [] s1" using assms(1) by (simp add: undoable_def s1_def indices_ok_def)
  from probe_loop_ok [OF this assms(2), of now cs]
  obtain ret ds s2 where p: "probe_loop e now cs [] s1 = Some (ret, ds, s2)"
      and k: "if ret < 0 then ds = [] \<and> same_resources s1 s2
              else ret = 0 \<and> undoable s1 (rev ds) s2 \<and> length ds = length cs \<and> (refuses_twins e \<longrightarrow> distinct (map tg_name cs))"
    by (auto split: if_splits)
  show ?thesis
  proof (cases "ret < 0")
    case True
    then show ?thesis using p k \<open>have_memory e\<close> by (simp add: timed_gpio_probe_def s1_def same_resources_def)
  next
    case False
    have "timed_gpio_probe e now (Some cs) s = Some (ret, ds, s2)"
      using False p \<open>have_memory e\<close> by (simp add: timed_gpio_probe_def s1_def)
    moreover have "same_resources s (snd (timed_gpio_remove now' ds s2))"
      using False k by (auto simp: timed_gpio_remove_def Let_def release_all undoable_def s1_def rev_map [symmetric] fold_remove1_rev same_resources_def)
    ultimately show ?thesis using False k by simp
  qed
qed

text \<open>Probing the outputs of a board returns; if it fails, at whichever pin and for whichever reason, the
  devices, files, pins and memory are as before, and if it succeeds, all outputs exist and removing them
  gives back all of it.\<close>

theorem timed_gpio_probe_undone:
  assumes "indices_ok s" and "negative_errors e"
  shows "\<exists>ret ds s'. timed_gpio_probe e now (Some cs) s = Some (ret, ds, s') \<and>
           (if ret < 0 then same_resources s s'
            else length ds = length cs \<and> same_resources s (snd (timed_gpio_remove now' ds s')))"
  using probe_cases [OF assms, of now cs now'] by (metis (full_types))

definition demo_kernel :: "tg_env" where
  "demo_kernel = \<lparr>class_error = 0, device_error = (\<lambda>n ds. if n \<in> snd ` set ds then - 17 else 0), file_error = (\<lambda>_. 0),
     request_error = (\<lambda>g gs. if g \<in> set gs then - EBUSY else 0), have_memory = True\<rparr>"

definition demo_state :: tg_state where
  "demo_state = \<lparr>timed_output_class = PTR (), device_count = 0, devices = [], files = [], requested = [],
     pins_now = (\<lambda>_. False), blocks = 0\<rparr>"

lemma demo_kernel_ok: "indices_ok demo_state" "negative_errors demo_kernel" "refuses_twins demo_kernel"
  by (simp_all add: indices_ok_def demo_state_def negative_errors_def demo_kernel_def refuses_twins_def)

theorem timed_gpio_probe_undone_witness:
  "\<exists>ret ds s'. timed_gpio_probe demo_kernel 0 (Some [hd tgpios]) demo_state = Some (ret, ds, s') \<and> ret = 0 \<and> length ds = 1 \<and>
     same_resources demo_state (snd (timed_gpio_remove 5 ds s'))"
proof -
  have "map_option fst (timed_gpio_probe demo_kernel 0 (Some [hd tgpios]) demo_state) = Some 0"
    by (simp add: timed_gpio_probe_def demo_kernel_def demo_state_def tgpios_def timed_output_dev_register_def
        create_timed_output_class_def)
  then show ?thesis
    using timed_gpio_probe_undone [OF demo_kernel_ok(1,2), of 0 "[hd tgpios]" 5] by auto
qed

text \<open>The outputs of the board have one name. Where the kernel refuses a second device of the same
  name in a class, the board's outputs cannot be probed, and nothing is left of the attempt.\<close>

theorem board_outputs_clash:
  assumes "refuses_twins e" and "indices_ok s" and "negative_errors e"
  shows "\<exists>ret s'. timed_gpio_probe e now (Some tgpios) s = Some (ret, [], s') \<and> ret < 0 \<and> same_resources s s'"
proof -
  have "\<not> distinct (map tg_name tgpios)" by (simp add: tgpios_def)
  then show ?thesis using probe_cases [OF assms(2,3), of now tgpios 0] assms(1) by (auto split: if_splits)
qed

theorem board_outputs_clash_witness:
  "\<exists>ret s'. timed_gpio_probe demo_kernel 0 (Some tgpios) demo_state = Some (ret, [], s') \<and> ret < 0 \<and> same_resources demo_state s'"
  by (rule board_outputs_clash [OF demo_kernel_ok(3,1,2)])

end
