(* ===== verification/Mirror.thy ===== *)
theory Mirror
  imports Prelude
begin

text \<open>
  The port mirror of \<^verbatim>\<open>net/mirror.c\<close>: a module parameter names the data ports and the mirror port, and
  every packet that arrives on a data port is sent out of the mirror port as well. Looking up a device by
  its name is a parameter; the references to devices that the module holds are a list, the newest first.
  \<open>None\<close> is undefined behaviour: a write behind the table of ports, a shift by 32 or more, a pointer outside
  its buffer, or the use of a null pointer.
\<close>

section \<open>Devices and the state of the module\<close>

record net_device =
  nd_name :: string
  ifindex :: nat

abbreviation (input) MAX_PORTS :: nat where "MAX_PORTS \<equiv> 32"

record mirror_state =
  mirror :: "net_device option"
  ports_dev :: "net_device option list"
  ifindex_bits :: u32
  held :: "net_device list"
  pack_added :: bool

definition ifindex_bit :: "nat \<Rightarrow> u32 option" where
  "ifindex_bit i = (if i < 32 then Some (push_bit i 1) else None)"

definition is_ports :: "net_device \<Rightarrow> mirror_state \<Rightarrow> bool option" where
  "is_ports dev s = map_option (\<lambda>b. ifindex_bits s AND b \<noteq> 0) (ifindex_bit (ifindex dev))"

definition dev_put :: "net_device option \<Rightarrow> net_device list \<Rightarrow> net_device list" where
  "dev_put p h = (case p of None \<Rightarrow> h | Some d \<Rightarrow> remove1 d h)"

definition free_ports :: "mirror_state \<Rightarrow> mirror_state" where
  "free_ports s = s\<lparr>held := fold dev_put (take 32 (ports_dev s)) (held s)\<rparr>"

section \<open>The handler of a packet\<close>

text \<open>
  A linear buffer, one piece of memory with the place and the length of the data in it; the lengths do not
  wrap. Packets with data in further pages, behind which the loop that prints the frame would read, are
  not modelled.
\<close>

record sk_buff =
  buf :: bytes
  data :: nat
  len :: nat
  mac_len :: nat
  skb_dev :: "net_device option"

datatype skb_event = Xmit sk_buff | Kfree sk_buff

definition frame :: "sk_buff \<Rightarrow> bytes option" where
  "frame b = mem_read (buf b) (data b) (len b)"

text \<open>The loop that prints the frame reads all of it.\<close>

definition mirror_func :: "bool \<Rightarrow> sk_buff \<Rightarrow> net_device \<Rightarrow> mirror_state \<Rightarrow> (int \<times> skb_event list) option" where
  "mirror_func cloned skb dev s =
     Option.bind (is_ports dev s) (\<lambda>p.
       if p then
         if \<not> cloned then Some (0, [Kfree skb])
         else if data skb < mac_len skb then None
         else
           let nskb = skb\<lparr>skb_dev := mirror s, len := len skb + mac_len skb, data := data skb - mac_len skb\<rparr>
           in Option.bind (frame nskb) (\<lambda>_. Some (0, [Xmit nskb, Kfree skb]))
       else Some (0, [Kfree skb]))"

section \<open>The module parameter\<close>

definition port_end :: "char \<Rightarrow> bool" where
  "port_end c \<longleftrightarrow> c = CHR ''/'' \<or> c = CHR ''@'' \<or> c = CHR '','' \<or> c = CHR 0x00"

text \<open>One name of a data port: the next state, or the error that ends the setup.\<close>

definition set_port ::
    "(string \<Rightarrow> net_device option) \<Rightarrow> string \<Rightarrow> string \<Rightarrow> nat \<Rightarrow> mirror_state \<Rightarrow> (int \<times> mirror_state) option" where
  "set_port dev_get_by_name to from count s =
     (if to = from then Some (- EBUSY, free_ports s)
      else
        case dev_get_by_name from of
          None \<Rightarrow> Some (- ENODEV, free_ports s)
        | Some dev \<Rightarrow>
            let s1 = s\<lparr>held := dev # held s\<rparr>
            in if length (ports_dev s1) \<le> count then None
               else
                 let s2 = s1\<lparr>ports_dev := (ports_dev s1)[count := Some dev]\<rparr>
                 in map_option (\<lambda>b. (0, s2\<lparr>ifindex_bits := ifindex_bits s2 OR b\<rparr>)) (ifindex_bit (ifindex dev)))"

text \<open>The loop over the characters: \<open>from\<close> is what was passed of the current name; the end of the string ends
  the last one.\<close>

fun ports_loop ::
    "(string \<Rightarrow> net_device option) \<Rightarrow> string \<Rightarrow> string \<Rightarrow> string \<Rightarrow> nat \<Rightarrow> mirror_state \<Rightarrow> (int \<times> mirror_state) option" where
  "ports_loop l to from [] count s = set_port l to from count s"
| "ports_loop l to from (c # cs) count s =
     (if port_end c then
        Option.bind (set_port l to from count s) (\<lambda>(ret, s1).
          if ret \<noteq> 0 then Some (ret, s1) else ports_loop l to [] cs (count + 1) s1)
      else ports_loop l to (from @ [c]) cs count s)"

definition option_setup ::
    "(string \<Rightarrow> net_device option) \<Rightarrow> string \<Rightarrow> mirror_state \<Rightarrow> (int \<times> mirror_state) option" where
  "option_setup dev_get_by_name opt s =
     (if CHR ''@'' \<notin> set opt then Some (- EINVAL, s)
      else
        let from = takeWhile (\<lambda>c. c \<noteq> CHR ''@'') opt;
            to = tl (dropWhile (\<lambda>c. c \<noteq> CHR ''@'') opt)
        in Option.bind (ports_loop dev_get_by_name to [] from 0 s) (\<lambda>(ret, s1).
             if ret \<noteq> 0 then Some (ret, s1)
             else
               case dev_get_by_name to of
                 None \<Rightarrow> Some (- ENODEV, s1\<lparr>mirror := None\<rparr>)
               | Some dev \<Rightarrow> Some (0, s1\<lparr>mirror := Some dev, held := dev # held s1, pack_added := True\<rparr>)))"

definition ainit_module ::
    "(string \<Rightarrow> net_device option) \<Rightarrow> string \<Rightarrow> mirror_state \<Rightarrow> (int \<times> mirror_state) option" where
  "ainit_module dev_get_by_name config s =
     (if config \<noteq> [] then option_setup dev_get_by_name config s else Some (- EINVAL, s))"

definition acleanup_module :: "mirror_state \<Rightarrow> mirror_state option" where
  "acleanup_module s =
     (case mirror s of
        None \<Rightarrow> None
      | Some dev \<Rightarrow> Some (free_ports (s\<lparr>pack_added := False, held := dev_put (Some dev) (held s)\<rparr>)))"

definition mirror_start :: "mirror_state" where
  "mirror_start = \<lparr>mirror = None, ports_dev = replicate MAX_PORTS None, ifindex_bits = 0, held = [], pack_added = False\<rparr>"

section \<open>The ports that were set\<close>

definition port_bits :: "net_device list \<Rightarrow> u32" where
  "port_bits ds = foldr (\<lambda>d w. push_bit (ifindex d) 1 OR w) ds 0"

lemma bit_port_bits: "i < 32 \<Longrightarrow> bit (port_bits ds) i \<longleftrightarrow> i \<in> ifindex ` set ds"
  unfolding port_bits_def by (induction ds) (auto simp: bit_simps)

text \<open>After the data ports \<open>ds\<close>, from a module that held \<open>h\<close>.\<close>

definition ports_set :: "net_device list \<Rightarrow> net_device list \<Rightarrow> mirror_state \<Rightarrow> bool" where
  "ports_set h ds s \<longleftrightarrow> length ds \<le> MAX_PORTS \<and> ports_dev s = map Some ds @ replicate (MAX_PORTS - length ds) None \<and>
     held s = rev ds @ h \<and> (\<forall>i<32. bit (ifindex_bits s) i \<longleftrightarrow> i \<in> ifindex ` set ds) \<and> (\<forall>d\<in>set ds. ifindex d < 32)"

lemma put_replicate_None [simp]: "(dev_put None ^^ n) h = h"
  by (induction n) (simp_all add: dev_put_def)

lemma put_map_Some [simp]: "fold dev_put (map Some ds) h = fold remove1 ds h"
  by (induction ds arbitrary: h) (simp_all add: dev_put_def)

lemma fold_remove1_prefix: "fold remove1 xs (xs @ h) = h"
  by (induction xs) simp_all

lemma free_ports_held: "ports_set h ds s \<Longrightarrow> held (free_ports s) = h"
  using fold_remove1_prefix [of "rev ds" h] by (simp add: ports_set_def free_ports_def fold_remove1_rev)

lemma ports_set_start: "ports_set [] [] mirror_start"
  by (simp add: ports_set_def mirror_start_def)

lemma is_ports_iff:
  assumes "ports_set h ds s" and "ifindex dev < 32"
  shows "is_ports dev s = Some (ifindex dev \<in> ifindex ` set ds)"
  using assms by (simp add: ports_set_def is_ports_def ifindex_bit_def push_bit_of_1 and_exp_eq_0_iff_not_bit)

lemma set_port_ok:
  assumes "ports_set h ds s" and "to \<noteq> from" and "l from = Some d" and "ifindex d < 32" and "length ds < MAX_PORTS"
  shows "\<exists>s'. set_port l to from (length ds) s = Some (0, s') \<and> ports_set h (ds @ [d]) s'"
proof -
  have "(map Some ds @ replicate (MAX_PORTS - length ds) None)[length ds := Some d] =
        map Some (ds @ [d]) @ replicate (MAX_PORTS - Suc (length ds)) None"
    using assms(5) by (simp add: list_update_append Suc_diff_Suc [symmetric])
  then show ?thesis
    using assms by (auto simp: set_port_def ports_set_def ifindex_bit_def bit_simps)
qed

lemma set_port_cases:
  assumes "ports_set h ds s" and "set_port l to from (length ds) s = Some (ret, s')"
  shows "if ret = 0 then \<exists>d. ports_set h (ds @ [d]) s' else held s' = h \<and> ret \<in> {- EBUSY, - ENODEV}"
proof (cases "to = from \<or> l from = None")
  case True
  then show ?thesis using assms free_ports_held [OF assms(1)] by (auto simp: set_port_def split: if_splits)
next
  case False
  then obtain d where d: "l from = Some d" "to \<noteq> from" by auto
  have i: "ifindex d < 32" "length ds < MAX_PORTS"
    using assms d by (auto simp: set_port_def ports_set_def ifindex_bit_def Let_def split: if_splits)
  from set_port_ok [where l = l, OF assms(1) d(2,1) i] show ?thesis using assms(2) by auto
qed

lemma ports_loop_cases:
  "ports_set h ds s \<Longrightarrow> ports_loop l to from cs (length ds) s = Some (ret, s') \<Longrightarrow>
   if ret = 0 then \<exists>ds'. ports_set h ds' s' \<and> ds' \<noteq> [] else held s' = h \<and> ret \<in> {- EBUSY, - ENODEV}"
proof (induction cs arbitrary: "from" ds s)
  case Nil
  then show ?case using set_port_cases [OF Nil.prems(1), of l to "from" ret s'] by (auto split: if_splits)
next
  case (Cons c cs)
  show ?case
  proof (cases "port_end c")
    case False
    then show ?thesis using Cons.IH [OF Cons.prems(1), of "from @ [c]"] Cons.prems(2) by simp
  next
    case True
    then obtain r s1 where r: "set_port l to from (length ds) s = Some (r, s1)"
      and rest: "(if r \<noteq> 0 then Some (r, s1) else ports_loop l to [] cs (length ds + 1) s1) = Some (ret, s')"
      using Cons.prems(2) by auto
    note k = set_port_cases [OF Cons.prems(1) r]
    show ?thesis
    proof (cases "r = 0")
      case True
      then obtain d where "ports_set h (ds @ [d]) s1" using k by auto
      from Cons.IH [OF this, of "[]"] show ?thesis using True rest by simp
    next
      case False
      then show ?thesis using k rest by auto
    qed
  qed
qed

section \<open>Properties\<close>

text \<open>
  A list of names as it is written in the parameter: the first name, and then each of the others with the
  separator before it. Every text without \<^verbatim>\<open>@\<close> is such a list of names.
\<close>

definition port_list :: "string \<Rightarrow> (char \<times> string) list \<Rightarrow> string" where
  "port_list n cns = n @ concat (map (\<lambda>(c, n). c # n) cns)"

definition plain :: "string \<Rightarrow> bool" where
  "plain n \<longleftrightarrow> (\<forall>c\<in>set n. \<not> port_end c)"

lemma port_list_Cons [simp]: "port_list n ((c, n') # cns) = n @ c # port_list n' cns" "port_list n [] = n"
  by (simp_all add: port_list_def)

lemma ports_loop_plain: "plain n \<Longrightarrow> ports_loop l to from (n @ cs) k s = ports_loop l to (from @ n) cs k s"
  by (induction n arbitrary: "from") (simp_all add: plain_def)

lemma ports_loop_list:
  assumes "ports_set h ds s" and "\<forall>c\<in>set (map fst cns). c = CHR ''/'' \<or> c = CHR '',''"
    and "\<forall>n'\<in>set (n # map snd cns). plain n' \<and> n' \<noteq> to" and "map l (n # map snd cns) = map Some es" and "\<forall>d\<in>set es. ifindex d < 32"
    and "length ds + length es \<le> MAX_PORTS"
  shows "\<exists>s'. ports_loop l to [] (port_list n cns) (length ds) s = Some (0, s') \<and> ports_set h (ds @ es) s'"
  using assms
proof (induction cns arbitrary: n ds s es)
  case Nil
  then obtain d where d: "es = [d]" "l n = Some d" by (cases es) auto
  have "to \<noteq> n" "ifindex d < 32" "length ds < MAX_PORTS" using Nil d by auto
  from set_port_ok [where l = l, OF Nil(1) this(1) d(2) this(2,3)] show ?case
    using ports_loop_plain [of n l to "[]" "[]"] Nil d by auto
next
  case (Cons cn cns)
  obtain c n' where cn: "cn = (c, n')" by (rule prod.exhaust)
  obtain d es' where d: "es = d # es'" "l n = Some d" "map l (n' # map snd cns) = map Some es'"
    using Cons.prems(4) by (cases es) (auto simp: cn)
  have "to \<noteq> n" "ifindex d < 32" "length ds < MAX_PORTS" using Cons.prems d by auto
  from set_port_ok [where l = l, OF Cons.prems(1) this(1) d(2) this(2,3)]
  obtain s1 where s1: "set_port l to n (length ds) s = Some (0, s1)" "ports_set h (ds @ [d]) s1" by blast
  have "\<exists>s'. ports_loop l to [] (port_list n' cns) (length (ds @ [d])) s1 = Some (0, s') \<and> ports_set h ((ds @ [d]) @ es') s'"
    by (rule Cons.IH [OF s1(2)]) (use Cons.prems d cn in auto)
  moreover have "plain n" "port_end c" using Cons.prems(2,3) by (auto simp: port_end_def cn)
  ultimately show ?case using ports_loop_plain [of n l to "[]"] s1 d by (auto simp: cn)
qed

lemma port_list_no_at:
  assumes "\<forall>c\<in>set (map fst cns). c = CHR ''/'' \<or> c = CHR '',''" and "\<forall>n'\<in>set (n # map snd cns). plain n'"
  shows "CHR ''@'' \<notin> set (port_list n cns)"
  using assms by (induction cns arbitrary: n) (auto simp: plain_def port_end_def)

lemma port_list_all:
  assumes "CHR ''@'' \<notin> set from" "CHR 0x00 \<notin> set from"
  shows "\<exists>n cns. from = port_list n cns \<and> (\<forall>c\<in>set (map fst cns). c = CHR ''/'' \<or> c = CHR '','') \<and> (\<forall>n'\<in>set (n # map snd cns). plain n')"
  using assms
proof (induction "from")
  case Nil
  show ?case by (rule exI [of _ "[]"], rule exI [of _ "[]"]) (simp add: plain_def)
next
  case (Cons c cs)
  then obtain n cns where i: "cs = port_list n cns" "\<forall>c\<in>set (map fst cns). c = CHR ''/'' \<or> c = CHR '',''" "\<forall>n'\<in>set (n # map snd cns). plain n'"
    by auto
  show ?case
  proof (cases "port_end c")
    case True
    then have "c = CHR ''/'' \<or> c = CHR '',''" using Cons.prems by (auto simp: port_end_def)
    then show ?thesis using i by (intro exI [of _ "[]"] exI [of _ "(c, n) # cns"]) (simp add: plain_def)
  next
    case False
    then show ?thesis using i by (intro exI [of _ "c # n"] exI [of _ cns]) (simp add: plain_def port_list_def)
  qed
qed

lemma setup_at:
  assumes "CHR ''@'' \<notin> set from"
  shows "option_setup l (from @ CHR ''@'' # to) s =
     Option.bind (ports_loop l to [] from 0 s) (\<lambda>(ret, s1).
       if ret \<noteq> 0 then Some (ret, s1)
       else case l to of None \<Rightarrow> Some (- ENODEV, s1\<lparr>mirror := None\<rparr>)
            | Some dev \<Rightarrow> Some (0, s1\<lparr>mirror := Some dev, held := dev # held s1, pack_added := True\<rparr>))"
proof -
  have "takeWhile (\<lambda>c. c \<noteq> CHR ''@'') (from @ CHR ''@'' # to) = from"
       "dropWhile (\<lambda>c. c \<noteq> CHR ''@'') (from @ CHR ''@'' # to) = CHR ''@'' # to"
    using assms by (auto simp: takeWhile_append dropWhile_append)
  then show ?thesis unfolding option_setup_def by (simp add: Let_def)
qed

lemma setup_list:
  assumes "\<forall>c\<in>set (map fst cns). c = CHR ''/'' \<or> c = CHR '',''" and "length ds \<le> MAX_PORTS"
    and "\<forall>n'\<in>set (n # map snd cns). plain n' \<and> n' \<noteq> to" and "map l (n # map snd cns) = map Some ds" and "\<forall>d\<in>set ds. ifindex d < 32"
  shows "\<exists>s'. ainit_module l (port_list n cns @ CHR ''@'' # to) mirror_start =
           (case l to of None \<Rightarrow> Some (- ENODEV, s'\<lparr>mirror := None\<rparr>)
            | Some m \<Rightarrow> Some (0, s'\<lparr>mirror := Some m, held := m # held s', pack_added := True\<rparr>)) \<and> ports_set [] ds s'"
proof -
  have "\<exists>s'. ports_loop l to [] (port_list n cns) (length ([] :: net_device list)) mirror_start = Some (0, s') \<and> ports_set [] ([] @ ds) s'"
    by (rule ports_loop_list [OF ports_set_start]) (use assms in auto)
  then show ?thesis
    using setup_at [OF port_list_no_at [OF assms(1), of n], of l to mirror_start] assms(3) by (auto simp: ainit_module_def)
qed

text \<open>A packet that arrived on \<open>dev\<close>, with its link header \<open>mac\<close> in front of the data, in a buffer with room on both sides.\<close>

definition packet :: "net_device \<Rightarrow> bytes \<Rightarrow> bytes \<Rightarrow> bytes \<Rightarrow> bytes \<Rightarrow> sk_buff" where
  "packet dev pre mac payload post = \<lparr>buf = pre @ mac @ payload @ post, data = length pre + length mac, len = length payload,
     mac_len = length mac, skb_dev = Some dev\<rparr>"

text \<open>What the module does with every packet when the devices \<open>ds\<close> are its data ports and \<open>m\<close> is its mirror port.\<close>

definition mirrors :: "net_device list \<Rightarrow> net_device \<Rightarrow> mirror_state \<Rightarrow> bool" where
  "mirrors ds m s \<longleftrightarrow> (\<forall>dev mac payload pre post cloned.
     let skb = packet dev pre mac payload post
     in if 32 \<le> ifindex dev then mirror_func cloned skb dev s = None
        else if ifindex dev \<in> ifindex ` set ds \<and> cloned
        then \<exists>nskb. mirror_func cloned skb dev s = Some (0, [Xmit nskb, Kfree skb]) \<and>
               skb_dev nskb = Some m \<and> frame nskb = Some (mac @ payload)
        else mirror_func cloned skb dev s = Some (0, [Kfree skb]))"

lemma mirrorsD:
  "mirrors ds m s \<Longrightarrow> ifindex dev < 32 \<Longrightarrow> ifindex dev \<in> ifindex ` set ds \<Longrightarrow>
   \<exists>nskb. mirror_func True (packet dev pre mac payload post) dev s = Some (0, [Xmit nskb, Kfree (packet dev pre mac payload post)]) \<and>
     skb_dev nskb = Some m \<and> frame nskb = Some (mac @ payload)"
  unfolding mirrors_def Let_def by (metis not_le)

text \<open>
  C33: A parameter that names at most 32 known data ports, separated by slashes or commas in any mixture,
  with interface indices below 32, and behind \<^verbatim>\<open>@\<close> a known mirror port whose name is none of theirs, is
  accepted. Afterwards, for a packet in a linear buffer with its link header in front of the data: if it
  arrived on a device with an index below 32, it is sent out of the mirror port, with its link header,
  exactly when the index is that of a listed port and the clone could be allocated, and in every case
  the packet itself is released; if it arrived on a device with an index from 32 on, the shift that
  computes its bit is undefined. Unloading gives back all references.
\<close>

theorem mirror_forwards:
  assumes "\<forall>c\<in>set (map fst cns). c = CHR ''/'' \<or> c = CHR '',''" and "length ds \<le> MAX_PORTS"
    and "\<forall>n'\<in>set (n # map snd cns). plain n' \<and> n' \<noteq> to" and "map l (n # map snd cns) = map Some ds" and "\<forall>d\<in>set ds. ifindex d < 32"
    and "l to = Some m"
  shows "\<exists>s. ainit_module l (port_list n cns @ CHR ''@'' # to) mirror_start = Some (0, s) \<and>
           mirrors ds m s \<and>
           map_option held (acleanup_module s) = Some []"
proof -
  obtain s' where i: "ainit_module l (port_list n cns @ CHR ''@'' # to) mirror_start =
      Some (0, s'\<lparr>mirror := Some m, held := m # held s', pack_added := True\<rparr>)" and p: "ports_set [] ds s'"
    using setup_list [OF assms(1-5)] assms(6) by auto
  define s where "s = s'\<lparr>mirror := Some m, held := m # held s', pack_added := True\<rparr>"
  have sent: "is_ports dev s = Some (ifindex dev \<in> ifindex ` set ds)" if "ifindex dev < 32" for dev
    using is_ports_iff [OF p that] by (simp add: s_def is_ports_def)
  have "ports_set [] ds (s\<lparr>pack_added := False, held := dev_put (Some m) (held s)\<rparr>)"
    using p by (simp add: ports_set_def s_def dev_put_def)
  from free_ports_held [OF this] have "map_option held (acleanup_module s) = Some []"
    by (simp add: acleanup_module_def s_def)
  moreover have "mirrors ds m s"
    unfolding mirrors_def Let_def
  proof (intro allI)
    fix dev mac payload pre post cloned
    show "if 32 \<le> ifindex dev then mirror_func cloned (packet dev pre mac payload post) dev s = None
       else if ifindex dev \<in> ifindex ` set ds \<and> cloned
       then \<exists>nskb. mirror_func cloned (packet dev pre mac payload post) dev s = Some (0, [Xmit nskb, Kfree (packet dev pre mac payload post)]) \<and>
              skb_dev nskb = Some m \<and> frame nskb = Some (mac @ payload)
       else mirror_func cloned (packet dev pre mac payload post) dev s = Some (0, [Kfree (packet dev pre mac payload post)])"
    proof (cases "32 \<le> ifindex dev")
      case True
      then show ?thesis by (simp add: mirror_func_def is_ports_def ifindex_bit_def)
    next
      case False
      then show ?thesis using sent [of dev] by (simp add: mirror_func_def frame_def mem_read_def Let_def s_def packet_def)
    qed
  qed
  ultimately show ?thesis using i unfolding s_def by blast
qed

text \<open>Whatever the parameter, a setup that fails on a data port, or for the lack of a mirror port in it,
  gives back every reference it took; one that fails because the mirror port is unknown keeps a reference to
  each data port, although the module is not loaded.\<close>

theorem mirror_setup_references:
  assumes "ainit_module l config mirror_start = Some (ret, s)" and "ret \<noteq> 0"
  shows "held s = [] \<and> ret \<in> {- EINVAL, - EBUSY, - ENODEV} \<or>
         ret = - ENODEV \<and> held s \<noteq> [] \<and> l (tl (dropWhile (\<lambda>c. c \<noteq> CHR ''@'') config)) = None"
proof (cases "CHR ''@'' \<in> set config")
  case False
  then show ?thesis using assms by (auto simp: ainit_module_def option_setup_def mirror_start_def split: if_splits)
next
  case True
  define to where "to = tl (dropWhile (\<lambda>c. c \<noteq> CHR ''@'') config)"
  define fs where "fs = takeWhile (\<lambda>c. c \<noteq> CHR ''@'') config"
  obtain r s1 where r: "ports_loop l to [] fs 0 mirror_start = Some (r, s1)"
    and rest: "(if r \<noteq> 0 then Some (r, s1)
       else case l to of None \<Rightarrow> Some (- ENODEV, s1\<lparr>mirror := None\<rparr>)
            | Some dev \<Rightarrow> Some (0, s1\<lparr>mirror := Some dev, held := dev # held s1, pack_added := True\<rparr>)) = Some (ret, s)"
    using assms(1) True unfolding ainit_module_def option_setup_def Let_def to_def [symmetric] fs_def [symmetric]
    by (auto split: if_splits)
  note k = ports_loop_cases [OF ports_set_start, of l to "[]" fs r s1]
  show ?thesis
  proof (cases "r = 0")
    case True
    then have "l to = None" "ret = - ENODEV" "held s = held s1" using rest assms(2) by (auto split: option.splits)
    moreover have "held s1 \<noteq> []" using k r True by (auto simp: ports_set_def)
    ultimately show ?thesis by (simp add: to_def)
  next
    case False
    then show ?thesis using k r rest by auto
  qed
qed

definition demo_net :: "string \<Rightarrow> net_device option" where
  "demo_net n = (if n = ''eth0'' then Some \<lparr>nd_name = n, ifindex = 2\<rparr> else
                 if n = ''eth1'' then Some \<lparr>nd_name = n, ifindex = 3\<rparr> else
                 if n = ''eth2'' then Some \<lparr>nd_name = n, ifindex = 4\<rparr> else None)"

theorem mirror_forwards_witness:
  "\<exists>s nskb. ainit_module demo_net ''eth1,eth2/eth1@eth0'' mirror_start = Some (0, s) \<and>
     mirror_func True (packet \<lparr>nd_name = ''eth2'', ifindex = 4\<rparr> [] [1, 2] [3] []) \<lparr>nd_name = ''eth2'', ifindex = 4\<rparr> s =
       Some (0, [Xmit nskb, Kfree (packet \<lparr>nd_name = ''eth2'', ifindex = 4\<rparr> [] [1, 2] [3] [])]) \<and>
     skb_dev nskb = Some \<lparr>nd_name = ''eth0'', ifindex = 2\<rparr> \<and> frame nskb = Some [1, 2, 3] \<and>
     map_option held (acleanup_module s) = Some []"
proof -
  let ?cns = "[(CHR '','', ''eth2''), (CHR ''/'', ''eth1'')]"
  let ?ds = "[\<lparr>nd_name = ''eth1'', ifindex = 3\<rparr>, \<lparr>nd_name = ''eth2'', ifindex = 4\<rparr>, \<lparr>nd_name = ''eth1'', ifindex = 3\<rparr>]"
  have l: "port_list ''eth1'' ?cns @ CHR ''@'' # ''eth0'' = ''eth1,eth2/eth1@eth0''" by simp
  have "\<forall>c\<in>set (map fst ?cns). c = CHR ''/'' \<or> c = CHR '',''" "length ?ds \<le> MAX_PORTS"
      "\<forall>n'\<in>set (''eth1'' # map snd ?cns). plain n' \<and> n' \<noteq> ''eth0''" "map demo_net (''eth1'' # map snd ?cns) = map Some ?ds"
      "\<forall>d\<in>set ?ds. ifindex d < 32" "demo_net ''eth0'' = Some \<lparr>nd_name = ''eth0'', ifindex = 2\<rparr>"
    by (auto simp: plain_def port_end_def demo_net_def)
  from mirror_forwards [OF this] obtain s where s: "ainit_module demo_net ''eth1,eth2/eth1@eth0'' mirror_start = Some (0, s)"
      "mirrors ?ds \<lparr>nd_name = ''eth0'', ifindex = 2\<rparr> s" "map_option held (acleanup_module s) = Some []"
    unfolding l by blast
  have "ifindex \<lparr>nd_name = ''eth2'', ifindex = 4\<rparr> \<in> ifindex ` set ?ds" by simp
  from mirrorsD [OF s(2) _ this, of "[]" "[1, 2]" "[3]" "[]"] s(1,3) show ?thesis by auto
qed

theorem mirror_setup_references_witness:
  "\<exists>s. ainit_module demo_net ''eth1@eth9'' mirror_start = Some (- ENODEV, s) \<and> held s \<noteq> [] \<and> demo_net ''eth9'' = None"
proof -
  obtain s where s: "ainit_module demo_net ''eth1@eth9'' mirror_start = Some (- ENODEV, s)" "held s = [\<lparr>nd_name = ''eth1'', ifindex = 3\<rparr>]"
    by (simp add: ainit_module_def option_setup_def demo_net_def port_end_def set_port_def mirror_start_def ifindex_bit_def)
  from mirror_setup_references [OF this(1)] s show ?thesis by auto
qed

end
