(* ===== verification/ListHead.thy ===== *)
theory ListHead
  imports Prelude
begin

text \<open>
  The blocking counter of \<^verbatim>\<open>test_list_head/test_list_head.c\<close>: a timer increments a counter, marks every open
  file and wakes the readers; a reader sleeps until its file is marked and prints the counter. The code runs
  concurrently, so the model is a machine whose steps are the atomic actions of one reader per open file, of
  the timer's callback, of signals, and of the attribute files, in any order. Readers are numbered; a step
  that cannot be taken now (a held lock, a sleeping task) is \<open>None\<close>. What the kernel would answer with a crash
  is recorded in \<open>fault\<close> and ends the run.
\<close>

section \<open>State\<close>

text \<open>
  Where a reader is in \<^verbatim>\<open>reg_read\<close>: \<open>Out\<close> carries \<^verbatim>\<open>retval\<close>, \<^verbatim>\<open>len\<close> and what was copied to the user. The last two
  fields of a reader are no state of the program; they are kept for the theorems: the counter at the time
  the file was opened, and the counter as it was last fetched by a read, if one has fetched it.
\<close>

datatype rpc =
    Closed | Idle | Check | Enqueue | Set_state | Test | Sleep | Clear | Fetch | Copy u64 | Out int int string

record reader =
  pc :: rpc
  has_data :: bool
  nonblock :: bool
  has_queue :: bool
  running :: bool
  sigpending :: bool
  opened_at :: u64
  fetched :: "u64 option"

text \<open>Where the callback of the timer is: it marks the files under the lock of the list and wakes the queue
  under the lock of the queue; the lists are what is left to do.\<close>

datatype tick = TIdle | TData | TFlag "nat list" | TUnlock | TWake "nat list" | TAdd

datatype fault = Null_pointer | Str_overrun | Timer_pending_bug

record lh_state =
  gld_data :: u64
  gld_list :: "nat list"
  gld_wait :: "nat list"
  ref_cnt :: int
  readers :: "nat \<Rightarrow> reader"
  tick :: tick
  armed :: bool
  timeperiod :: u32
  results :: "(nat \<times> int \<times> string) list"
  fault :: "fault option"

definition upd :: "nat \<Rightarrow> (reader \<Rightarrow> reader) \<Rightarrow> lh_state \<Rightarrow> lh_state" where
  "upd i f s = s\<lparr>readers := (readers s)(i := f (readers s i))\<rparr>"

definition goto_pc :: "rpc \<Rightarrow> reader \<Rightarrow> reader" where
  "goto_pc p r = r\<lparr>pc := p\<rparr>"

fun list_locked :: "tick \<Rightarrow> bool" where
  "list_locked (TFlag _) = True"
| "list_locked _ = False"

fun wait_locked :: "tick \<Rightarrow> bool" where
  "wait_locked (TWake _) = True"
| "wait_locked _ = False"

section \<open>The operations\<close>

definition reg_open :: "bool \<Rightarrow> nat \<Rightarrow> lh_state \<Rightarrow> lh_state option" where
  "reg_open allocated i s =
     (if pc (readers s i) \<noteq> Closed \<or> list_locked (tick s) then None
      else
        let s1 = s\<lparr>ref_cnt := ref_cnt s + 1\<rparr>
        in if \<not> allocated then Some (s1\<lparr>fault := Some Null_pointer\<rparr>)
           else Some (upd i (\<lambda>_. \<lparr>pc = Idle, has_data = False, nonblock = False, has_queue = False, running = True,
                                  sigpending = False, opened_at = gld_data s, fetched = None\<rparr>)
                        (s1\<lparr>gld_list := i # gld_list s1\<rparr>)))"

definition release :: "nat \<Rightarrow> lh_state \<Rightarrow> lh_state option" where
  "release i s =
     (if pc (readers s i) \<noteq> Idle \<or> list_locked (tick s) then None
      else Some (upd i (goto_pc Closed) (s\<lparr>ref_cnt := ref_cnt s - 1, gld_list := remove1 i (gld_list s)\<rparr>)))"

definition str_size :: nat where
  "str_size = 10"

definition data_str :: "u64 \<Rightarrow> string" where
  "data_str d = nat_dec (unat d) @ [CHR 0x0A]"

definition start_read :: "bool \<Rightarrow> nat \<Rightarrow> lh_state \<Rightarrow> lh_state option" where
  "start_read nb i s =
     (if pc (readers s i) \<noteq> Idle then None
      else Some (upd i (\<lambda>r. r\<lparr>pc := Check, nonblock := nb, has_queue := False\<rparr>) s))"

text \<open>One atomic action of a reader inside \<^verbatim>\<open>reg_read\<close>; \<open>copied\<close> is the success of \<^verbatim>\<open>copy_to_user\<close>. The call
  returns \<^verbatim>\<open>len\<close>.\<close>

definition reg_read :: "bool \<Rightarrow> nat \<Rightarrow> lh_state \<Rightarrow> lh_state option" where
  "reg_read copied i s =
     (let r = readers s i in
      case pc r of
        Closed \<Rightarrow> None
      | Idle \<Rightarrow> None
      | Check \<Rightarrow> Some (upd i (goto_pc (if \<not> has_data r then Enqueue else Clear)) s)
      | Enqueue \<Rightarrow>
          if wait_locked (tick s) then None
          else Some (upd i (\<lambda>r. r\<lparr>pc := Set_state, has_queue := True\<rparr>) (s\<lparr>gld_wait := i # gld_wait s\<rparr>))
      | Set_state \<Rightarrow> Some (upd i (\<lambda>r. r\<lparr>pc := Test, running := False\<rparr>) s)
      | Test \<Rightarrow>
          Some (upd i (goto_pc (if has_data r then Clear
                                else if nonblock r then Out (- EAGAIN) 0 []
                                else if sigpending r then Out (- ERESTARTSYS) 0 []
                                else Sleep)) s)
      | Sleep \<Rightarrow> if running r then Some (upd i (goto_pc Set_state) s) else None
      | Clear \<Rightarrow> Some (upd i (\<lambda>r. r\<lparr>pc := Fetch, has_data := False\<rparr>) s)
      | Fetch \<Rightarrow> Some (upd i (\<lambda>r. r\<lparr>pc := Copy (gld_data s), fetched := Some (gld_data s)\<rparr>) s)
      | Copy d \<Rightarrow>
          let str = data_str d; len = length str + 1
          in if str_size < len then Some (s\<lparr>fault := Some Str_overrun\<rparr>)
             else Some (upd i (goto_pc (if copied then Out 0 (int len) str else Out (- EFAULT) (int len) [])) s)
      | Out retval len str \<Rightarrow>
          if has_queue r then
            if wait_locked (tick s) then None
            else Some (upd i (\<lambda>r. r\<lparr>pc := Idle, running := True, sigpending := False\<rparr>)
                         (s\<lparr>gld_wait := remove1 i (gld_wait s), results := (i, len, str) # results s\<rparr>))
          else Some (upd i (\<lambda>r. r\<lparr>pc := Idle, sigpending := False\<rparr>) (s\<lparr>results := (i, len, str) # results s\<rparr>)))"

text \<open>One atomic action of the callback; the timer is no longer pending while it runs.\<close>

definition timer_func :: "lh_state \<Rightarrow> lh_state option" where
  "timer_func s =
     (case tick s of
        TIdle \<Rightarrow> if armed s then Some (s\<lparr>armed := False, gld_data := gld_data s + 1, tick := TData\<rparr>) else None
      | TData \<Rightarrow> Some (s\<lparr>tick := TFlag (gld_list s)\<rparr>)
      | TFlag [] \<Rightarrow> Some (s\<lparr>tick := TUnlock\<rparr>)
      | TFlag (x # xs) \<Rightarrow> Some (upd x (\<lambda>r. r\<lparr>has_data := True\<rparr>) (s\<lparr>tick := TFlag xs\<rparr>))
      | TUnlock \<Rightarrow> Some (s\<lparr>tick := TWake (gld_wait s)\<rparr>)
      | TWake [] \<Rightarrow> Some (s\<lparr>tick := TAdd\<rparr>)
      | TWake (x # xs) \<Rightarrow> Some (upd x (\<lambda>r. r\<lparr>running := True\<rparr>) (s\<lparr>tick := TWake xs\<rparr>))
      | TAdd \<Rightarrow>
          if armed s then Some (s\<lparr>fault := Some Timer_pending_bug\<rparr>)
          else Some (s\<lparr>armed := True, tick := TIdle\<rparr>))"

text \<open>The attribute files. \<open>scanned\<close> is what \<^verbatim>\<open>sscanf\<close> found; without it the variable stays 0.
  \<^verbatim>\<open>del_timer_sync\<close> waits for a running callback.\<close>

definition scanned_or_0 :: "u32 option \<Rightarrow> u32" where
  "scanned_or_0 v = (case v of None \<Rightarrow> 0 | Some x \<Rightarrow> x)"

definition on_show :: "lh_state \<Rightarrow> string" where
  "on_show s = (if armed s then ''true'' else ''false'') @ [CHR 0x0A]"

definition on_store :: "u32 option \<Rightarrow> lh_state \<Rightarrow> lh_state option" where
  "on_store scanned s =
     (let flag = scanned_or_0 scanned in
      if flag = 1 then Some (if timeperiod s \<noteq> 0 then s\<lparr>armed := True\<rparr> else s)
      else if flag = 0 then
        if armed s then (if tick s = TIdle then Some (s\<lparr>armed := False\<rparr>) else None) else Some s
      else Some s)"

definition value_store :: "u32 \<Rightarrow> u32 option \<Rightarrow> lh_state \<Rightarrow> lh_state option" where
  "value_store HZ scanned s =
     (let stime = scanned_or_0 scanned; mstime = stime * HZ div 1000
      in Some (s\<lparr>timeperiod := mstime, armed := True\<rparr>))"

definition signal_task :: "nat \<Rightarrow> lh_state \<Rightarrow> lh_state option" where
  "signal_task i s = Some (upd i (\<lambda>r. r\<lparr>sigpending := True, running := True\<rparr>) s)"

section \<open>Runs\<close>

datatype lh_event =
    Open nat bool | Release nat | Read nat bool | Reader nat bool | Signal nat | Timer
  | On_store "u32 option" | Value_store "u32 option"

fun lh_step :: "u32 \<Rightarrow> lh_event \<Rightarrow> lh_state \<Rightarrow> lh_state option" where
  "lh_step HZ ev s =
     (if fault s \<noteq> None then None
      else case ev of
        Open i ok \<Rightarrow> reg_open ok i s
      | Release i \<Rightarrow> release i s
      | Read i nb \<Rightarrow> start_read nb i s
      | Reader i ok \<Rightarrow> reg_read ok i s
      | Signal i \<Rightarrow> signal_task i s
      | Timer \<Rightarrow> timer_func s
      | On_store v \<Rightarrow> on_store v s
      | Value_store v \<Rightarrow> value_store HZ v s)"

fun lh_run :: "u32 \<Rightarrow> lh_event list \<Rightarrow> lh_state \<Rightarrow> lh_state option" where
  "lh_run HZ [] s = Some s"
| "lh_run HZ (e # es) s = Option.bind (lh_step HZ e s) (lh_run HZ es)"

definition example_init :: "lh_state" where
  "example_init =
     \<lparr>gld_data = 0, gld_list = [], gld_wait = [], ref_cnt = 0,
      readers = (\<lambda>_. \<lparr>pc = Closed, has_data = False, nonblock = False, has_queue = False, running = True,
                      sigpending = False, opened_at = 0, fetched = None\<rparr>),
      tick = TIdle, armed = False, timeperiod = 0, results = [], fault = None\<rparr>"

inductive reach :: "u32 \<Rightarrow> lh_state \<Rightarrow> bool" for HZ where
  reach_init: "reach HZ example_init"
| reach_step: "reach HZ s \<Longrightarrow> lh_step HZ ev s = Some s' \<Longrightarrow> reach HZ s'"

section \<open>The invariant\<close>

definition in_queue :: "reader \<Rightarrow> bool" where
  "in_queue r \<longleftrightarrow> has_queue r \<and> pc r \<notin> {Closed, Idle, Check, Enqueue}"

text \<open>The callback will still mark the file, or wake the reader.\<close>

fun to_mark :: "nat \<Rightarrow> tick \<Rightarrow> bool" where
  "to_mark i TData = True"
| "to_mark i (TFlag xs) = (i \<in> set xs)"
| "to_mark i _ = False"

fun to_wake :: "nat \<Rightarrow> tick \<Rightarrow> bool" where
  "to_wake i (TFlag _) = True"
| "to_wake i TUnlock = True"
| "to_wake i (TWake xs) = (i \<in> set xs)"
| "to_wake i _ = False"

text \<open>The last value of the counter that is no news for the reader of a file.\<close>

definition last_seen :: "reader \<Rightarrow> u64" where
  "last_seen r = (case fetched r of None \<Rightarrow> opened_at r | Some d \<Rightarrow> d)"

lemma last_seen_simps [simp]:
  "last_seen (r\<lparr>pc := p\<rparr>) = last_seen r" "last_seen (r\<lparr>has_data := b\<rparr>) = last_seen r" "last_seen (r\<lparr>nonblock := b\<rparr>) = last_seen r"
  "last_seen (r\<lparr>has_queue := b\<rparr>) = last_seen r" "last_seen (r\<lparr>running := b\<rparr>) = last_seen r"
  "last_seen (r\<lparr>sigpending := b\<rparr>) = last_seen r" "last_seen (r\<lparr>fetched := Some d\<rparr>) = d"
  "last_seen \<lparr>pc = p, has_data = b, nonblock = b1, has_queue = b2, running = b3, sigpending = c, opened_at = d, fetched = None\<rparr> = d"
  by (simp_all add: last_seen_def split: option.split)

definition reader_ok :: "lh_state \<Rightarrow> nat \<Rightarrow> bool" where
  "reader_ok s i \<longleftrightarrow>
     (let r = readers s i in
      (i \<in> set (gld_list s) \<longleftrightarrow> pc r \<noteq> Closed) \<and>
      (i \<in> set (gld_wait s) \<longleftrightarrow> in_queue r) \<and>
      (pc r \<in> {Set_state, Test, Sleep} \<longrightarrow> has_queue r) \<and>
      (pc r \<in> {Check, Enqueue} \<longrightarrow> \<not> has_queue r) \<and>
      (pc r = Sleep \<and> has_data r \<longrightarrow> running r \<or> to_wake i (tick s)) \<and>
      (pc r \<noteq> Closed \<and> pc r \<noteq> Fetch \<and> \<not> has_data r \<longrightarrow> last_seen r = gld_data s \<or> to_mark i (tick s)))"

definition lh_inv :: "lh_state \<Rightarrow> bool" where
  "lh_inv s \<longleftrightarrow> distinct (gld_list s) \<and> distinct (gld_wait s) \<and> ref_cnt s = int (length (gld_list s)) \<and> (\<forall>i. reader_ok s i)"

lemma upd_readers [simp]: "readers (upd i f s) j = (if j = i then f (readers s i) else readers s j)"
  by (simp add: upd_def)

lemma upd_sel [simp]:
  "gld_data (upd i f s) = gld_data s" "gld_list (upd i f s) = gld_list s" "gld_wait (upd i f s) = gld_wait s"
  "ref_cnt (upd i f s) = ref_cnt s" "tick (upd i f s) = tick s" "armed (upd i f s) = armed s"
  "timeperiod (upd i f s) = timeperiod s" "results (upd i f s) = results s" "fault (upd i f s) = fault s"
  by (simp_all add: upd_def)

lemma goto_pc_sel [simp]:
  "pc (goto_pc p r) = p" "has_data (goto_pc p r) = has_data r" "nonblock (goto_pc p r) = nonblock r"
  "has_queue (goto_pc p r) = has_queue r" "running (goto_pc p r) = running r" "sigpending (goto_pc p r) = sigpending r"
  "fetched (goto_pc p r) = fetched r" "opened_at (goto_pc p r) = opened_at r" "last_seen (goto_pc p r) = last_seen r"
  by (simp_all add: goto_pc_def)

lemma lh_inv_reader: "lh_inv s \<Longrightarrow> reader_ok s i"
  by (simp add: lh_inv_def)

text \<open>An action of one reader is judged by that reader alone.\<close>

lemma lh_inv_upd:
  assumes "lh_inv s" and "s' = upd i f s0" and "tick s0 = tick s" and "gld_data s0 = gld_data s"
    and "readers s0 = readers s" and "distinct (gld_list s0)" and "distinct (gld_wait s0)"
    and "ref_cnt s0 = int (length (gld_list s0))"
    and "\<And>j. j \<noteq> i \<Longrightarrow> (j \<in> set (gld_list s0)) = (j \<in> set (gld_list s)) \<and> (j \<in> set (gld_wait s0)) = (j \<in> set (gld_wait s))"
    and "reader_ok s' i"
  shows "lh_inv s'"
proof -
  have "reader_ok s' j" if "j \<noteq> i" for j
    using assms(9) [OF that] lh_inv_reader [OF assms(1), of j] that assms(2-5) by (simp add: reader_ok_def)
  then show ?thesis using assms by (metis lh_inv_def upd_sel(2-4))
qed

text \<open>The lists unchanged, or with the reader added or removed.\<close>

lemma lh_inv_pc:
  assumes "lh_inv s" and "reader_ok (upd i f s) i"
  shows "lh_inv (upd i f s)"
  by (rule lh_inv_upd [OF assms(1) refl _ _ _ _ _ _ _ assms(2)]) (use assms(1) in \<open>auto simp: lh_inv_def\<close>)

lemma reg_open_inv:
  assumes "lh_inv s" and "reg_open ok i s = Some s'" and "fault s' = None"
  shows "lh_inv s'"
proof -
  have c: "pc (readers s i) = Closed" and ok and
    s': "s' = upd i (\<lambda>_. \<lparr>pc = Idle, has_data = False, nonblock = False, has_queue = False, running = True,
      sigpending = False, opened_at = gld_data s, fetched = None\<rparr>) (s\<lparr>ref_cnt := ref_cnt s + 1, gld_list := i # gld_list s\<rparr>)"
    using assms(2,3) by (auto simp: reg_open_def Let_def split: if_splits)
  have n: "i \<notin> set (gld_list s)" "i \<notin> set (gld_wait s)"
    using lh_inv_reader [OF assms(1), of i] c by (simp_all add: reader_ok_def in_queue_def Let_def)
  have "reader_ok s' i" using n by (simp add: s' reader_ok_def in_queue_def Let_def)
  then show ?thesis
    by (intro lh_inv_upd [OF assms(1) s']) (use assms(1) n in \<open>simp_all add: lh_inv_def\<close>)
qed

lemma release_inv:
  assumes "lh_inv s" and "release i s = Some s'"
  shows "lh_inv s'"
proof -
  have c: "pc (readers s i) = Idle" and
    s': "s' = upd i (goto_pc Closed) (s\<lparr>ref_cnt := ref_cnt s - 1, gld_list := remove1 i (gld_list s)\<rparr>)"
    using assms(2) by (auto simp: release_def split: if_splits)
  have n: "i \<in> set (gld_list s)" "i \<notin> set (gld_wait s)" "distinct (gld_list s)" "ref_cnt s = int (length (gld_list s))"
    using lh_inv_reader [OF assms(1), of i] c assms(1) by (auto simp: reader_ok_def in_queue_def Let_def lh_inv_def)
  have "\<exists>k. length (gld_list s) = Suc k" using length_pos_if_in_set [OF n(1)] gr0_implies_Suc by blast
  then have "ref_cnt s - 1 = int (length (remove1 i (gld_list s)))" using n(1,4) by (auto simp: length_remove1)
  moreover have "reader_ok s' i" using n by (simp add: s' reader_ok_def in_queue_def Let_def)
  ultimately show ?thesis
    by (intro lh_inv_upd [OF assms(1) s']) (use assms(1) n in \<open>auto simp: lh_inv_def\<close>)
qed

lemma start_read_inv:
  assumes "lh_inv s" and "start_read nb i s = Some s'"
  shows "lh_inv s'"
proof -
  have c: "pc (readers s i) = Idle" and s': "s' = upd i (\<lambda>r. r\<lparr>pc := Check, nonblock := nb, has_queue := False\<rparr>) s"
    using assms(2) by (auto simp: start_read_def split: if_splits)
  show ?thesis
    unfolding s' by (rule lh_inv_pc [OF assms(1)]) (use lh_inv_reader [OF assms(1), of i] c in \<open>simp add: reader_ok_def in_queue_def Let_def\<close>)
qed

lemma enqueue_inv:
  assumes "lh_inv s" and "pc (readers s i) = Enqueue" and "\<not> wait_locked (tick s)"
  shows "lh_inv (upd i (\<lambda>r. r\<lparr>pc := Set_state, has_queue := True\<rparr>) (s\<lparr>gld_wait := i # gld_wait s\<rparr>))"
proof -
  have "reader_ok s i" by (rule lh_inv_reader [OF assms(1)])
  then have "i \<notin> set (gld_wait s)" "reader_ok (upd i (\<lambda>r. r\<lparr>pc := Set_state, has_queue := True\<rparr>) (s\<lparr>gld_wait := i # gld_wait s\<rparr>)) i"
    using assms(2) by (simp_all add: reader_ok_def in_queue_def Let_def)
  then show ?thesis
    by (intro lh_inv_upd [OF assms(1) refl]) (use assms(1) in \<open>simp_all add: lh_inv_def\<close>)
qed

lemma leave_inv:
  assumes "lh_inv s" and "pc (readers s i) = Out a b c"
  shows "lh_inv (upd i (\<lambda>r. r\<lparr>pc := Idle, running := True, sigpending := False\<rparr>)
           (s\<lparr>gld_wait := remove1 i (gld_wait s), results := rs\<rparr>))" (is "lh_inv ?t")
proof -
  have "reader_ok ?t i"
    using lh_inv_reader [OF assms(1), of i] assms by (simp add: reader_ok_def in_queue_def Let_def lh_inv_def)
  then show ?thesis
    by (intro lh_inv_upd [OF assms(1) refl]) (use assms(1) in \<open>simp_all add: lh_inv_def\<close>)
qed

lemma results_inv: "lh_inv s \<Longrightarrow> lh_inv (s\<lparr>results := rs\<rparr>)" "lh_inv s \<Longrightarrow> lh_inv (s\<lparr>fault := fl\<rparr>)"
  by (simp_all add: lh_inv_def reader_ok_def)

lemma reg_read_inv:
  assumes "lh_inv s" and "reg_read ok i s = Some s'"
  shows "lh_inv s'"
proof -
  note k = lh_inv_reader [OF assms(1), of i]
  have pcs: "lh_inv (upd i f s)" if "reader_ok (upd i f s) i" for f by (rule lh_inv_pc [OF assms(1) that])
  show ?thesis
  proof (cases "pc (readers s i)")
    case Enqueue
    then show ?thesis using assms(2) enqueue_inv [OF assms(1)] by (auto simp: reg_read_def split: if_splits)
  next
    case (Copy d)
    have "lh_inv (upd i (goto_pc p) s)" if "p = Out 0 a b \<or> p = Out (- EFAULT) a b" for p a b
      by (rule pcs) (use k Copy that in \<open>auto simp: reader_ok_def in_queue_def Let_def\<close>)
    then show ?thesis using assms Copy results_inv(2) by (fastforce simp: reg_read_def Let_def split: if_splits)
  next
    case (Out a b c)
    have "lh_inv (upd i (\<lambda>r. r\<lparr>pc := Idle, sigpending := False\<rparr>) (s\<lparr>results := rs\<rparr>))" if "\<not> has_queue (readers s i)" for rs
      by (rule lh_inv_pc [OF results_inv(1) [OF assms(1)]]) (use k Out that in \<open>simp add: reader_ok_def in_queue_def Let_def\<close>)
    then show ?thesis using assms Out leave_inv [OF assms(1) Out] by (auto simp: reg_read_def split: if_splits)
  qed (use assms(2) in \<open>auto simp: reg_read_def Let_def split: if_splits intro!: pcs\<close>,
       use k in \<open>auto simp: reader_ok_def in_queue_def Let_def\<close>)
qed

lemma mark_inv:
  assumes "lh_inv s" and "tick s = TFlag (x # xs)"
  shows "lh_inv (upd x (\<lambda>r. r\<lparr>has_data := True\<rparr>) (s\<lparr>tick := TFlag xs\<rparr>))" (is "lh_inv ?t")
proof -
  have "reader_ok ?t j" for j
    using lh_inv_reader [OF assms(1), of j] assms(2) by (auto simp: reader_ok_def in_queue_def Let_def)
  then show ?thesis using assms(1) by (simp add: lh_inv_def)
qed

lemma wake_inv:
  assumes "lh_inv s" and "tick s = TWake (x # xs)"
  shows "lh_inv (upd x (\<lambda>r. r\<lparr>running := True\<rparr>) (s\<lparr>tick := TWake xs\<rparr>))" (is "lh_inv ?t")
proof -
  have "reader_ok ?t j" for j
    using lh_inv_reader [OF assms(1), of j] assms(2) by (auto simp: reader_ok_def in_queue_def Let_def)
  then show ?thesis using assms(1) by (simp add: lh_inv_def)
qed

text \<open>The other actions of the callback change its place and the counter only.\<close>

lemma tick_inv:
  assumes "lh_inv s" and "\<And>j. reader_ok s j \<Longrightarrow> reader_ok (s\<lparr>gld_data := d, tick := t\<rparr>) j"
  shows "lh_inv (s\<lparr>gld_data := d, tick := t\<rparr>)"
  using assms by (simp add: lh_inv_def)

lemma armed_inv [simp]: "lh_inv (s\<lparr>armed := a\<rparr>) = lh_inv s" "lh_inv (s\<lparr>timeperiod := p\<rparr>) = lh_inv s"
  by (simp_all add: lh_inv_def reader_ok_def)

lemma timer_func_inv:
  assumes "lh_inv s" and "timer_func s = Some s'"
  shows "lh_inv s'"
proof -
  have go: "lh_inv (s\<lparr>gld_data := d, tick := t\<rparr>)"
    if "\<And>j. reader_ok s j \<Longrightarrow> reader_ok (s\<lparr>gld_data := d, tick := t\<rparr>) j" for d t
    by (rule tick_inv [OF assms(1) that])
  have same: "s\<lparr>tick := t\<rparr> = s\<lparr>gld_data := gld_data s, tick := t\<rparr>" for t by simp
  show ?thesis
  proof (cases "tick s")
    case TIdle
    then have "s' = (s\<lparr>gld_data := gld_data s + 1, tick := TData\<rparr>)\<lparr>armed := False\<rparr>"
      using assms(2) by (auto simp: timer_func_def split: if_splits)
    moreover have "lh_inv (s\<lparr>gld_data := gld_data s + 1, tick := TData\<rparr>)"
      by (rule go) (use TIdle in \<open>auto simp: reader_ok_def in_queue_def Let_def\<close>)
    ultimately show ?thesis by simp
  next
    case TData
    then have "s' = s\<lparr>gld_data := gld_data s, tick := TFlag (gld_list s)\<rparr>" using assms(2) by (simp add: timer_func_def)
    moreover have "lh_inv (s\<lparr>gld_data := gld_data s, tick := TFlag (gld_list s)\<rparr>)"
      by (rule go) (use TData in \<open>auto simp: reader_ok_def in_queue_def Let_def\<close>)
    ultimately show ?thesis by simp
  next
    case (TFlag xs)
    have "lh_inv (s\<lparr>gld_data := gld_data s, tick := TUnlock\<rparr>)" if "xs = []"
      by (rule go) (use TFlag that in \<open>auto simp: reader_ok_def in_queue_def Let_def\<close>)
    then show ?thesis
      using TFlag assms mark_inv [OF assms(1)] by (cases xs) (auto simp: timer_func_def)
  next
    case TUnlock
    then have "s' = s\<lparr>gld_data := gld_data s, tick := TWake (gld_wait s)\<rparr>" using assms(2) by (simp add: timer_func_def)
    moreover have "lh_inv (s\<lparr>gld_data := gld_data s, tick := TWake (gld_wait s)\<rparr>)"
      by (rule go) (use TUnlock in \<open>auto simp: reader_ok_def in_queue_def Let_def\<close>)
    ultimately show ?thesis by simp
  next
    case (TWake xs)
    have "lh_inv (s\<lparr>gld_data := gld_data s, tick := TAdd\<rparr>)" if "xs = []"
      by (rule go) (use TWake that in \<open>auto simp: reader_ok_def in_queue_def Let_def\<close>)
    then show ?thesis
      using TWake assms wake_inv [OF assms(1)] by (cases xs) (auto simp: timer_func_def)
  next
    case TAdd
    have "lh_inv (s\<lparr>gld_data := gld_data s, tick := TIdle\<rparr>)"
      by (rule go) (use TAdd in \<open>auto simp: reader_ok_def in_queue_def Let_def\<close>)
    then have "lh_inv ((s\<lparr>gld_data := gld_data s, tick := TIdle\<rparr>)\<lparr>armed := True\<rparr>)" by (simp only: armed_inv)
    moreover have "s' = (s\<lparr>gld_data := gld_data s, tick := TIdle\<rparr>)\<lparr>armed := True\<rparr>" if "\<not> armed s"
      using TAdd assms that by (auto simp: timer_func_def)
    ultimately show ?thesis using TAdd assms results_inv(2) by (cases "armed s") (auto simp: timer_func_def)
  qed
qed

lemma store_inv:
  "lh_inv s \<Longrightarrow> on_store v s = Some s' \<Longrightarrow> lh_inv s'"
  "lh_inv s \<Longrightarrow> value_store HZ v s = Some s' \<Longrightarrow> lh_inv s'"
  by (auto simp: on_store_def value_store_def Let_def split: if_splits)

lemma signal_inv:
  assumes "lh_inv s" and "signal_task i s = Some s'"
  shows "lh_inv s'"
proof -
  have s': "s' = upd i (\<lambda>r. r\<lparr>sigpending := True, running := True\<rparr>) s" using assms(2) by (simp add: signal_task_def)
  show ?thesis
    unfolding s' by (rule lh_inv_pc [OF assms(1)]) (use lh_inv_reader [OF assms(1), of i] in \<open>auto simp: reader_ok_def in_queue_def Let_def\<close>)
qed

lemma lh_step_inv:
  assumes "lh_inv s" and "lh_step HZ ev s = Some s'" and "fault s' = None"
  shows "lh_inv s'"
proof -
  have "fault s = None" using assms(2) by (auto split: if_splits)
  then show ?thesis
    using assms(2)
    by (cases ev) (auto intro: reg_open_inv [OF assms(1) _ assms(3)] release_inv [OF assms(1)] start_read_inv [OF assms(1)]
        reg_read_inv [OF assms(1)] timer_func_inv [OF assms(1)] store_inv [OF assms(1)] signal_inv [OF assms(1)])
qed

lemma lh_reach_inv: "reach HZ s \<Longrightarrow> fault s = None \<Longrightarrow> lh_inv s"
proof (induction rule: reach.induct)
  case reach_init
  then show ?case by (simp add: example_init_def lh_inv_def reader_ok_def in_queue_def)
next
  case (reach_step s ev s')
  then have "fault s = None" by (auto split: if_splits)
  with reach_step show ?case using lh_step_inv by blast
qed

section \<open>Readers sleep only when there is nothing new\<close>

text \<open>
  C12: In every interleaving of readers, timer, signals and attribute files: while the callback is not
  running, a reader that sleeps in a blocking read, or that is between two reads and not marked, has
  missed no increment of the counter. If one of its reads has fetched the counter, the last of them
  fetched the value the counter has now; if none has, the counter is what it was when the file was
  opened. So no wake-up and no latest value is lost.
\<close>

theorem sleeper_is_up_to_date:
  assumes "reach HZ s" and "fault s = None" and "tick s = TIdle"
    and "pc (readers s i) = Sleep \<and> \<not> running (readers s i) \<or> pc (readers s i) = Idle \<and> \<not> has_data (readers s i)"
  shows "\<not> has_data (readers s i) \<and>
     (case fetched (readers s i) of None \<Rightarrow> opened_at (readers s i) = gld_data s | Some d \<Rightarrow> d = gld_data s)"
proof -
  have "\<not> has_data (readers s i) \<and> last_seen (readers s i) = gld_data s"
    using lh_inv_reader [OF lh_reach_inv [OF assms(1,2)], of i] assms(3,4) by (auto simp: reader_ok_def Let_def)
  then show ?thesis by (simp add: last_seen_def split: option.splits)
qed

lemma reach_run: "reach HZ s \<Longrightarrow> lh_run HZ es s = Some s' \<Longrightarrow> reach HZ s'"
  by (induction es arbitrary: s) (auto simp del: lh_step.simps intro: reach.intros)

text \<open>
  A reader that blocks, is woken by the callback, fetches 1, and blocks in its next read, while another
  file that was opened at 1 blocks without having fetched anything.
\<close>

definition demo_events :: "lh_event list" where
  "demo_events =
     [Value_store (Some 1), Open 0 True, Read 0 False] @ replicate 4 (Reader 0 True) @ replicate 8 Timer @
     replicate 7 (Reader 0 True) @ [Open 1 True, Read 0 False, Read 1 False] @ replicate 4 (Reader 0 True) @
     replicate 4 (Reader 1 True)"

lemma demo_events_run:
  "\<exists>s. lh_run 100 demo_events example_init = Some s \<and> pc (readers s 0) = Sleep \<and> \<not> running (readers s 0) \<and>
     pc (readers s 1) = Sleep \<and> \<not> running (readers s 1) \<and> tick s = TIdle \<and> fault s = None \<and>
     fetched (readers s 0) = Some 1 \<and> fetched (readers s 1) = None \<and> gld_data s = 1"
proof -
  have "nat_dec 1 = [CHR ''1'']" by (subst nat_dec.simps) (simp add: char_of_def bit_0)
  then have d: "data_str 1 = [CHR ''1'', CHR 0x0A]" by (simp add: data_str_def)
  show ?thesis
    by (simp add: demo_events_def example_init_def reg_open_def start_read_def reg_read_def value_store_def timer_func_def
        scanned_or_0_def eval_nat_numeral d str_size_def)
qed

theorem sleeper_is_up_to_date_witness:
  "\<exists>s. reach 100 s \<and> pc (readers s 0) = Sleep \<and> \<not> has_data (readers s 0) \<and> fetched (readers s 0) = Some (gld_data s) \<and>
     pc (readers s 1) = Sleep \<and> fetched (readers s 1) = None \<and> opened_at (readers s 1) = gld_data s \<and> gld_data s = 1"
proof -
  obtain s where s: "lh_run 100 demo_events example_init = Some s" "pc (readers s 0) = Sleep" "\<not> running (readers s 0)"
      "pc (readers s 1) = Sleep" "\<not> running (readers s 1)" "tick s = TIdle" "fault s = None"
      "fetched (readers s 0) = Some 1" "fetched (readers s 1) = None" "gld_data s = 1"
    using demo_events_run by blast
  have r: "reach 100 s" by (rule reach_run [OF reach_init s(1)])
  show ?thesis
    using sleeper_is_up_to_date [OF r s(7,6), of 0] sleeper_is_up_to_date [OF r s(7,6), of 1] s r by auto
qed

section \<open>A blocked reader returns\<close>

lemma run_append: "lh_run HZ (es @ es') s = Option.bind (lh_run HZ es s) (lh_run HZ es')"
proof (induction es arbitrary: s)
  case (Cons e es)
  then show ?case by (cases "lh_step HZ e s") (simp_all del: lh_step.simps)
qed simp

text \<open>The two loops of the callback.\<close>

lemma run_marks:
  "fault s = None \<Longrightarrow> tick s = TFlag xs \<Longrightarrow>
   lh_run HZ (replicate (length xs) Timer) s =
     Some (s\<lparr>tick := TFlag [], readers := (\<lambda>j. if j \<in> set xs then (readers s j)\<lparr>has_data := True\<rparr> else readers s j)\<rparr>)"
proof (induction xs arbitrary: s)
  case Nil
  then show ?case by simp
next
  case (Cons x xs)
  define s1 where "s1 = upd x (\<lambda>r. r\<lparr>has_data := True\<rparr>) (s\<lparr>tick := TFlag xs\<rparr>)"
  have "lh_step HZ Timer s = Some s1" using Cons.prems by (simp add: timer_func_def s1_def)
  moreover have "fault s1 = None" "tick s1 = TFlag xs" using Cons.prems by (simp_all add: s1_def)
  ultimately show ?case using Cons.IH [of s1] by (auto simp del: lh_step.simps simp: s1_def upd_def fun_eq_iff)
qed

lemma run_wakes:
  "fault s = None \<Longrightarrow> tick s = TWake xs \<Longrightarrow>
   lh_run HZ (replicate (length xs) Timer) s =
     Some (s\<lparr>tick := TWake [], readers := (\<lambda>j. if j \<in> set xs then (readers s j)\<lparr>running := True\<rparr> else readers s j)\<rparr>)"
proof (induction xs arbitrary: s)
  case Nil
  then show ?case by simp
next
  case (Cons x xs)
  define s1 where "s1 = upd x (\<lambda>r. r\<lparr>running := True\<rparr>) (s\<lparr>tick := TWake xs\<rparr>)"
  have "lh_step HZ Timer s = Some s1" using Cons.prems by (simp add: timer_func_def s1_def)
  moreover have "fault s1 = None" "tick s1 = TWake xs" using Cons.prems by (simp_all add: s1_def)
  ultimately show ?case using Cons.IH [of s1] by (auto simp del: lh_step.simps simp: s1_def upd_def fun_eq_iff)
qed

definition callback_steps :: "lh_state \<Rightarrow> lh_event list" where
  "callback_steps s = replicate 2 Timer @ replicate (length (gld_list s)) Timer @ replicate 2 Timer @
     replicate (length (gld_wait s)) Timer @ replicate 2 Timer"

lemma two_timers: "lh_run HZ (replicate 2 Timer) s = Option.bind (lh_step HZ Timer s) (lh_step HZ Timer)"
  by (cases "lh_step HZ Timer s"; cases "lh_step HZ Timer (the (lh_step HZ Timer s))")
    (simp_all add: numeral_2_eq_2 del: lh_step.simps)

lemma callback_runs:
  assumes "fault s = None" and "tick s = TIdle" and "armed s"
  shows "lh_run HZ (callback_steps s) s =
     Some (s\<lparr>gld_data := gld_data s + 1,
             readers := (\<lambda>j. (readers s j)\<lparr>has_data := has_data (readers s j) \<or> j \<in> set (gld_list s),
                                          running := running (readers s j) \<or> j \<in> set (gld_wait s)\<rparr>)\<rparr>)"
proof -
  define s1 where "s1 = s\<lparr>armed := False, gld_data := gld_data s + 1, tick := TFlag (gld_list s)\<rparr>"
  define s2 where "s2 = s1\<lparr>tick := TFlag [],
    readers := (\<lambda>j. if j \<in> set (gld_list s) then (readers s1 j)\<lparr>has_data := True\<rparr> else readers s1 j)\<rparr>"
  define s3 where "s3 = s2\<lparr>tick := TWake (gld_wait s)\<rparr>"
  define s4 where "s4 = s3\<lparr>tick := TWake [],
    readers := (\<lambda>j. if j \<in> set (gld_wait s) then (readers s3 j)\<lparr>running := True\<rparr> else readers s3 j)\<rparr>"
  have "lh_run HZ (replicate 2 Timer) s = Some s1"
    using assms by (simp add: two_timers timer_func_def s1_def)
  moreover have "lh_run HZ (replicate (length (gld_list s)) Timer) s1 = Some s2"
    unfolding s2_def by (rule run_marks) (simp_all add: s1_def assms)
  moreover have "lh_run HZ (replicate 2 Timer) s2 = Some s3"
    using assms by (simp add: two_timers timer_func_def s1_def s2_def s3_def)
  moreover have "lh_run HZ (replicate (length (gld_wait s)) Timer) s3 = Some s4"
    unfolding s4_def by (rule run_wakes) (simp_all add: s1_def s2_def s3_def assms)
  moreover have "lh_run HZ (replicate 2 Timer) s4 = Some (s4\<lparr>armed := True, tick := TIdle\<rparr>)"
    using assms by (simp add: two_timers timer_func_def s1_def s2_def s3_def s4_def)
  ultimately have "lh_run HZ (callback_steps s) s = Some (s4\<lparr>armed := True, tick := TIdle\<rparr>)"
    by (simp add: callback_steps_def run_append)
  moreover have "s4\<lparr>armed := True, tick := TIdle\<rparr> =
     s\<lparr>gld_data := gld_data s + 1,
             readers := (\<lambda>j. (readers s j)\<lparr>has_data := has_data (readers s j) \<or> j \<in> set (gld_list s),
                                          running := running (readers s j) \<or> j \<in> set (gld_wait s)\<rparr>)\<rparr>"
    using assms by (auto simp: s1_def s2_def s3_def s4_def fun_eq_iff intro!: lh_state.equality reader.equality)
  ultimately show ?thesis by simp
qed

section \<open>The size of the text\<close>

lemma nat_dec_length: "length (nat_dec n) \<le> k \<longleftrightarrow> 0 < k \<and> n < 10 ^ k"
proof (induction k arbitrary: n)
  case 0
  have "nat_dec n \<noteq> []" by (subst nat_dec.simps) simp
  then show ?case by simp
next
  case (Suc k)
  show ?case
  proof (cases "n < 10")
    case True
    have "(10::nat) \<le> 10 ^ Suc k" by simp
    then have "n < 10 ^ Suc k" using True by linarith
    moreover have "length (nat_dec n) = 1" using True by (subst nat_dec.simps) simp
    ultimately show ?thesis by simp
  next
    case False
    then have "length (nat_dec n) \<le> Suc k \<longleftrightarrow> length (nat_dec (n div 10)) \<le> k" by (subst nat_dec.simps) simp
    also have "\<dots> \<longleftrightarrow> 0 < k \<and> n div 10 < 10 ^ k" by (rule Suc.IH)
    also have "\<dots> \<longleftrightarrow> n < 10 ^ Suc k" using False by (cases k) (auto simp: div_less_iff_less_mult mult.commute)
    finally show ?thesis by simp
  qed
qed

lemma data_str_fits: "length (data_str d) + 1 \<le> str_size \<longleftrightarrow> unat d < 10 ^ 8"
  using nat_dec_length [of "unat d" 8] by (simp add: data_str_def str_size_def)

text \<open>A woken reader goes on to the end without waiting for anybody.\<close>

lemma reader_finishes:
  assumes "fault s = None" and "tick s = TIdle" and "pc (readers s i) = Sleep" and "running (readers s i)"
    and "has_data (readers s i)" and "has_queue (readers s i)"
  shows "if unat (gld_data s) < 10 ^ 8
     then \<exists>s'. lh_run HZ (replicate 7 (Reader i ok)) s = Some s' \<and> pc (readers s' i) = Idle \<and> fetched (readers s' i) = Some (gld_data s) \<and>
            results s' = (i, int (length (data_str (gld_data s))) + 1, if ok then data_str (gld_data s) else []) # results s
     else \<exists>s'. lh_run HZ (replicate 6 (Reader i ok)) s = Some s' \<and> fault s' = Some Str_overrun"
proof (cases "unat (gld_data s) < 10 ^ 8")
  case True
  then have "\<not> str_size < length (data_str (gld_data s)) + 1" using data_str_fits [of "gld_data s"] by simp
  then have "\<exists>s'. lh_run HZ (replicate 7 (Reader i ok)) s = Some s' \<and> pc (readers s' i) = Idle \<and> fetched (readers s' i) = Some (gld_data s) \<and>
      results s' = (i, int (length (data_str (gld_data s))) + 1, if ok then data_str (gld_data s) else []) # results s"
    using assms by (cases ok) (simp_all add: eval_nat_numeral reg_read_def Let_def)
  with True show ?thesis by simp
next
  case False
  then have "str_size < length (data_str (gld_data s)) + 1" using data_str_fits [of "gld_data s"] by simp
  then have "\<exists>s'. lh_run HZ (replicate 6 (Reader i ok)) s = Some s' \<and> fault s' = Some Str_overrun"
    using assms by (simp add: eval_nat_numeral reg_read_def Let_def)
  with False show ?thesis by simp
qed

text \<open>What the steps of the others leave of a reader that sleeps.\<close>

lemma sleeper_kept_step:
  assumes "lh_step HZ ev s = Some s'" and "pc (readers s i) = Sleep" and "\<And>ok. ev \<noteq> Reader i ok"
  shows "pc (readers s' i) = Sleep \<and> last_seen (readers s' i) = last_seen (readers s i) \<and>
     (has_data (readers s i) \<longrightarrow> has_data (readers s' i))"
proof -
  have f: "fault s = None" using assms(1) by (auto split: if_splits)
  show ?thesis
  proof (cases ev)
    case (Reader j ok)
    then have "j \<noteq> i" using assms(3) by blast
    with assms(1,2) Reader f show ?thesis
      by (cases "pc (readers s j)") (auto simp: reg_read_def Let_def split: if_splits)
  next
    case Timer
    then show ?thesis
      using assms f by (cases "tick s") (auto simp: timer_func_def split: if_splits list.splits)
  qed (use assms f in \<open>auto simp: reg_open_def release_def start_read_def signal_task_def on_store_def value_store_def Let_def
         split: if_splits\<close>)
qed

lemma sleeper_kept:
  assumes "lh_run HZ es s = Some s'" and "pc (readers s i) = Sleep" and "\<And>ok. Reader i ok \<notin> set es"
  shows "pc (readers s' i) = Sleep \<and> last_seen (readers s' i) = last_seen (readers s i) \<and>
     (has_data (readers s i) \<longrightarrow> has_data (readers s' i))"
  using assms
proof (induction es arbitrary: s)
  case (Cons e es)
  then obtain t where t: "lh_step HZ e s = Some t" "lh_run HZ es t = Some s'" by (auto simp: bind_eq_Some_conv simp del: lh_step.simps)
  have "pc (readers t i) = Sleep \<and> last_seen (readers t i) = last_seen (readers s i) \<and> (has_data (readers s i) \<longrightarrow> has_data (readers t i))"
    by (rule sleeper_kept_step [OF t(1) Cons.prems(2)]) (use Cons.prems(3) in auto)
  moreover from this have "pc (readers s' i) = Sleep \<and> last_seen (readers s' i) = last_seen (readers t i) \<and>
      (has_data (readers t i) \<longrightarrow> has_data (readers s' i))"
    by (intro Cons.IH [OF t(2)]) (use Cons.prems(3) in auto)
  ultimately show ?case by auto
qed simp

text \<open>
  C32: A reader that sleeps is served by the callback, however the others run meanwhile. Let a reader
  sleep while the callback does not run, and let then anything happen but an action of that reader (runs
  of the callback, other readers, signals, attribute files) up to a state in which the callback does not
  run again and the counter has changed. Then the reader is not blocked any more: taking its actions one
  after the other, with none of the others in between, its call returns after seven of them the length of the
  counter's text, and has copied that text unless the copy to the user fails; but where the counter has
  reached \<open>10 ^ 8\<close> the sixth of them overruns the ten bytes of \<^verbatim>\<open>str\<close>.
\<close>

theorem blocked_reader_returns:
  assumes "reach HZ s" and "tick s = TIdle" and "pc (readers s i) = Sleep"
    and "lh_run HZ es s = Some s1" and "\<And>ok. Reader i ok \<notin> set es"
    and "fault s1 = None" and "tick s1 = TIdle" and "gld_data s1 \<noteq> gld_data s"
  shows "if unat (gld_data s1) < 10 ^ 8
     then \<exists>s'. lh_run HZ (replicate 7 (Reader i ok)) s1 = Some s' \<and> pc (readers s' i) = Idle \<and>
            fetched (readers s' i) = Some (gld_data s1) \<and>
            results s' = (i, int (length (data_str (gld_data s1))) + 1, if ok then data_str (gld_data s1) else []) # results s1
     else \<exists>s'. lh_run HZ (replicate 6 (Reader i ok)) s1 = Some s' \<and> fault s' = Some Str_overrun"
proof -
  have "fault s = None"
  proof (cases es)
    case Nil
    then show ?thesis using assms(4,6) by simp
  next
    case (Cons e es')
    then show ?thesis using assms(4) by (cases "fault s") auto
  qed
  then have ok: "reader_ok s i" "reader_ok s1 i"
    using lh_inv_reader lh_reach_inv assms(1,6) reach_run [OF assms(1,4)] by blast+
  have kept: "pc (readers s1 i) = Sleep" "last_seen (readers s1 i) = last_seen (readers s i)"
      "has_data (readers s i) \<longrightarrow> has_data (readers s1 i)"
    using sleeper_kept [OF assms(4,3,5)] by simp_all
  have "has_data (readers s1 i)"
    using ok kept assms(2,3,7,8) by (auto simp: reader_ok_def Let_def)
  moreover from this have "running (readers s1 i)" "has_queue (readers s1 i)"
    using ok(2) kept(1) assms(7) by (auto simp: reader_ok_def Let_def)
  ultimately show ?thesis by (intro reader_finishes) (use assms kept in simp_all)
qed

theorem blocked_reader_returns_witness:
  "\<exists>s s1 s'. reach 100 s \<and> pc (readers s 0) = Sleep \<and> lh_run 100 (callback_steps s) s = Some s1 \<and>
     lh_run 100 (replicate 7 (Reader 0 True)) s1 = Some s' \<and> results s' = [(0, 3, [CHR ''1'', CHR 0x0A])]"
proof -
  let ?es = "[Value_store (Some 1), Open 0 True, Read 0 False, Reader 0 True, Reader 0 True, Reader 0 True, Reader 0 True]"
  have "\<exists>s. lh_run 100 ?es example_init = Some s \<and> pc (readers s 0) = Sleep \<and> armed s \<and> tick s = TIdle \<and> fault s = None \<and>
          gld_data s = 0 \<and> results s = []"
    by (simp add: example_init_def reg_open_def start_read_def reg_read_def value_store_def)
  then obtain s where s: "lh_run 100 ?es example_init = Some s" "pc (readers s 0) = Sleep" "armed s" "tick s = TIdle"
      "fault s = None" "gld_data s = 0" "results s = []" by blast
  have r: "reach 100 s" by (rule reach_run [OF reach_init s(1)])
  obtain s1 where s1: "lh_run 100 (callback_steps s) s = Some s1" "gld_data s1 = 1" "tick s1 = TIdle" "fault s1 = None" "results s1 = []"
    using callback_runs [OF s(5,4,3), of 100] s by auto
  have "nat_dec 1 = [CHR ''1'']" by (subst nat_dec.simps) (simp add: char_of_def bit_0)
  then have "data_str (gld_data s1) = [CHR ''1'', CHR 0x0A]" by (simp add: data_str_def s1)
  moreover have "Reader 0 ok \<notin> set (callback_steps s)" for ok by (simp add: callback_steps_def)
  ultimately show ?thesis
    using blocked_reader_returns [OF r s(4,2) s1(1) _ s1(4,3), of True] s s1 r by fastforce
qed

text \<open>The text of the counter overruns its buffer of ten bytes exactly when the counter has nine digits or
  more: then the reader that prints it writes outside the buffer, and otherwise it does not.\<close>

theorem str_overrun_iff:
  assumes "pc (readers s i) = Copy d" and "fault s = None"
  shows "map_option fault (lh_step HZ (Reader i ok) s) = Some (if unat d < 10 ^ 8 then None else Some Str_overrun)"
  using assms data_str_fits [of d] by (auto simp: reg_read_def Let_def not_less)

theorem str_overrun_iff_witness:
  "map_option fault (lh_step 100 (Reader 0 True) (upd 0 (goto_pc (Copy 100000000)) example_init)) = Some (Some Str_overrun)"
  using str_overrun_iff [of "upd 0 (goto_pc (Copy 100000000)) example_init" 0 100000000 100 True]
  by (simp add: example_init_def)

section \<open>What goes wrong\<close>

fun out_ok :: "rpc \<Rightarrow> bool" where
  "out_ok (Out a b c) \<longleftrightarrow> 0 \<le> b"
| "out_ok _ \<longleftrightarrow> True"

lemma results_ok:
  "reach HZ s \<Longrightarrow> (\<forall>i. out_ok (pc (readers s i))) \<and> (\<forall>x\<in>set (results s). 0 \<le> fst (snd x))"
proof (induction rule: reach.induct)
  case reach_init
  then show ?case by (simp add: example_init_def)
next
  case (reach_step s ev s')
  have "fault s = None" using reach_step(2) by (auto split: if_splits)
  then show ?case
  proof (cases ev)
    case (Reader i ok)
    have "out_ok (pc (readers s i))" using reach_step.IH by blast
    then show ?thesis
      using reach_step Reader \<open>fault s = None\<close>
      by (cases "pc (readers s i)") (auto simp: reg_read_def Let_def split: if_splits)
  next
    case Timer
    then show ?thesis
      using reach_step \<open>fault s = None\<close>
      by (cases "tick s") (auto simp: timer_func_def split: if_splits list.splits)
  qed (use reach_step in \<open>auto simp: reg_open_def release_def start_read_def signal_task_def on_store_def value_store_def Let_def
         split: if_splits\<close>)
qed

text \<open>No read ever reports an error: what a call returns is never negative, although a read that would block,
  one that is interrupted and one whose copy fails set an error number. A read of a file without data that must
  not block returns 0, the end of the file.\<close>

theorem read_hides_errors:
  "(\<forall>s. reach HZ s \<longrightarrow> (\<forall>x\<in>set (results s). 0 \<le> fst (snd x))) \<and>
   map_option results (lh_run HZ (Open 0 True # Read 0 True # replicate 5 (Reader 0 True)) example_init) = Some [(0, 0, [])]"
  using results_ok [of HZ] by (auto simp: example_init_def reg_open_def start_read_def reg_read_def eval_nat_numeral)

text \<open>Writing a period while the callback runs arms the timer, and the callback then adds a timer that is
  pending, which the kernel treats as a bug; switching the timer off while the callback runs has no effect: it is
  armed again at the end.\<close>

theorem timer_races:
  "map_option fault (lh_run HZ (Value_store (Some 1) # Timer # Value_store (Some 1) # replicate 5 Timer) example_init) =
     Some (Some Timer_pending_bug) \<and>
   map_option armed (lh_run HZ (Value_store (Some 1) # Timer # On_store (Some 0) # replicate 5 Timer) example_init) = Some True"
  by (simp add: example_init_def value_store_def on_store_def scanned_or_0_def timer_func_def eval_nat_numeral)

theorem read_hides_errors_witness:
  "\<exists>s. reach 100 s \<and> results s = [(0, 0, [])] \<and> 0 \<le> fst (snd (hd (results s)))"
proof -
  let ?es = "Open 0 True # Read 0 True # replicate 5 (Reader 0 True)"
  obtain s where s: "lh_run 100 ?es example_init = Some s" "results s = [(0, 0, [])]"
    using read_hides_errors [of 100] by auto
  have r: "reach 100 s" by (rule reach_run [OF reach_init s(1)])
  then have "\<forall>x\<in>set (results s). 0 \<le> fst (snd x)" using read_hides_errors [of 100] by blast
  with r s(2) show ?thesis by auto
qed

end
