(* ===== verification/Fbgrab.thy ===== *)
theory Fbgrab
  imports Prelude
begin

text \<open>
  The screen grabber \<^verbatim>\<open>test_framebuffer/fbgrab-1.3/fbgrab.c\<close>: it reads the memory of a framebuffer, converts
  the pixels to four bytes each and hands them to the PNG library, if asked to after switching to another
  console. The system (files, consoles, memory) is the record \<open>fb_env\<close>; the result of \<^verbatim>\<open>getopt\<close> is an argument of
  \<open>fbgrab_main\<close>, and what the PNG library is asked to write is recorded: the header, the rows and the
  transformations that are switched on. A run is undefined (\<open>Undef\<close>), is aborted by the PNG library (\<open>Abort\<close>), exits,
  or goes on. The stack is taken to hold the row pointers of \<^verbatim>\<open>write_PNG\<close>.
\<close>

section \<open>Runs\<close>

datatype 'a run = Undef | Abort | Exit int | Ok 'a

fun run_bind :: "'a run \<Rightarrow> ('a \<Rightarrow> 'b run) \<Rightarrow> 'b run" where
  "run_bind Undef f = Undef"
| "run_bind Abort f = Abort"
| "run_bind (Exit n) f = Exit n"
| "run_bind (Ok x) f = f x"

definition defined_or :: "'a option \<Rightarrow> 'a run" where
  "defined_or x = (case x of None \<Rightarrow> Undef | Some y \<Rightarrow> Ok y)"

abbreviation (input) EXIT_FAILURE :: int where "EXIT_FAILURE \<equiv> 1"
abbreviation (input) UNDEFINED :: int where "UNDEFINED \<equiv> - 1"
abbreviation (input) MAX_LEN :: nat where "MAX_LEN \<equiv> 512"

text \<open>Unsigned 32-bit arithmetic on indices.\<close>

definition u32 :: "int \<Rightarrow> nat" where
  "u32 n = nat (n mod 2 ^ 32)"

definition fits_int :: "int \<Rightarrow> bool" where
  "fits_int n \<longleftrightarrow> - (2 ^ 31) \<le> n \<and> n < 2 ^ 31"

section \<open>Conversion of pixels\<close>

record fb_src =
  srcBlue :: int
  srcGreen :: int
  srcRed :: int
  srcAlpha :: int

definition put_pixel :: "nat \<Rightarrow> u8 \<Rightarrow> u8 \<Rightarrow> u8 \<Rightarrow> u8 \<Rightarrow> bytes \<Rightarrow> bytes option" where
  "put_pixel i b g r a out =
     Option.bind (store i b out) (\<lambda>out. Option.bind (store (i + 1) g out) (\<lambda>out.
       Option.bind (store (i + 2) r out) (store (i + 3) a)))"

definition convert1555to32 :: "int \<Rightarrow> int \<Rightarrow> bytes \<Rightarrow> bytes \<Rightarrow> bytes option" where
  "convert1555to32 width height inbuffer outbuffer =
     c_for (u32 (height * width * 2)) 2 (\<lambda>i out.
       Option.bind (fetch inbuffer i) (\<lambda>lo. Option.bind (fetch inbuffer (i + 1)) (\<lambda>hi.
         put_pixel (u32 (2 * int i))
           (push_bit 1 (hi AND 0x7C))
           (push_bit 3 (push_bit 3 (hi AND 0x3) OR drop_bit 5 (lo AND 0xE0)))
           (push_bit 3 (lo AND 0x1F))
           0 out))) outbuffer"

definition convert565to32 :: "int \<Rightarrow> int \<Rightarrow> bytes \<Rightarrow> bytes \<Rightarrow> bytes option" where
  "convert565to32 width height inbuffer outbuffer =
     c_for (u32 (height * width * 2)) 2 (\<lambda>i out.
       Option.bind (fetch inbuffer i) (\<lambda>lo. Option.bind (fetch inbuffer (i + 1)) (\<lambda>hi.
         put_pixel (u32 (2 * int i))
           (push_bit 3 (lo AND 0x1F))
           (push_bit 2 (push_bit 3 (hi AND 0x7) OR drop_bit 5 (lo AND 0xE0)))
           (hi AND 0xF8)
           0 out))) outbuffer"

definition convert888to32 :: "fb_src \<Rightarrow> int \<Rightarrow> int \<Rightarrow> bytes \<Rightarrow> bytes \<Rightarrow> bytes option" where
  "convert888to32 src width height inbuffer outbuffer =
     c_for (u32 (height * width)) 1 (\<lambda>i out.
       Option.bind (fetch inbuffer (u32 (int i * 3 + srcBlue src))) (\<lambda>b.
       Option.bind (fetch inbuffer (u32 (int i * 3 + srcGreen src))) (\<lambda>g.
       Option.bind (fetch inbuffer (u32 (int i * 3 + srcRed src))) (\<lambda>r.
         put_pixel (u32 (4 * int i)) b g r 0 out)))) outbuffer"

definition convert8888to32 :: "fb_src \<Rightarrow> int \<Rightarrow> int \<Rightarrow> bytes \<Rightarrow> bytes \<Rightarrow> bytes option" where
  "convert8888to32 src width height inbuffer outbuffer =
     c_for (u32 (height * width)) 1 (\<lambda>i out.
       Option.bind (fetch inbuffer (u32 (int i * 4 + srcBlue src))) (\<lambda>b.
       Option.bind (fetch inbuffer (u32 (int i * 4 + srcGreen src))) (\<lambda>g.
       Option.bind (fetch inbuffer (u32 (int i * 4 + srcRed src))) (\<lambda>r.
       Option.bind (if 0 \<le> srcAlpha src then fetch inbuffer (u32 (int i * 4 + srcAlpha src)) else Some 0xFF) (\<lambda>a.
         put_pixel (u32 (4 * int i)) b g r a out))))) outbuffer"

section \<open>The system\<close>

record fb_var_screeninfo =
  fb_xres :: u32
  fb_yres :: u32
  fb_yoffset :: u32
  fb_bpp :: u32
  fb_red :: u32
  fb_green :: u32
  fb_blue :: u32
  fb_transp :: u32
  fb_transp_length :: u32

text \<open>
  What the PNG library is given. The two flags are its documented transformations: with \<^verbatim>\<open>png_set_bgr\<close> the
  three colours of a pixel are handed over in the order blue, green, red, and with
  \<^verbatim>\<open>png_set_invert_alpha\<close> the fourth byte is the transparency and not the opacity.
\<close>

record png_image =
  png_name :: string
  png_width :: int
  png_height :: int
  png_bit_depth :: nat
  png_rgb_alpha :: bool
  png_interlace :: bool
  png_level :: int
  png_invert_alpha :: bool
  png_bgr :: bool
  png_rows :: "bytes list"

record fb_env =
  console_opens :: bool
  vt_ok :: "u16 \<Rightarrow> bool"
  screeninfo :: "string \<Rightarrow> fb_var_screeninfo option"
  opens :: "string \<Rightarrow> bool"
  read_at :: "string \<Rightarrow> int \<Rightarrow> nat \<Rightarrow> bytes"
  malloc_ok :: "nat \<Rightarrow> bool"
  getenv_FRAMEBUFFER :: "string option"
  creates :: "string \<Rightarrow> bool"
  png_starts :: bool
  png_accepts :: "int \<Rightarrow> int \<Rightarrow> bool"

text \<open>What a run changes: the active console, with the switches in order, and the image written.\<close>

record fb_world =
  active_vt :: u16
  switches :: "u16 list"
  png_file :: "png_image option"

definition chvt :: "fb_env \<Rightarrow> u16 \<Rightarrow> fb_world \<Rightarrow> fb_world run" where
  "chvt e num w =
     (if \<not> console_opens e then Exit EXIT_FAILURE
      else if \<not> vt_ok e num then Exit EXIT_FAILURE
      else Ok (w\<lparr>active_vt := num, switches := switches w @ [num]\<rparr>))"

definition change_to_vt :: "fb_env \<Rightarrow> u16 \<Rightarrow> fb_world \<Rightarrow> (u16 \<times> fb_world) run" where
  "change_to_vt e vt_num w =
     (if \<not> console_opens e then Exit EXIT_FAILURE
      else let old_vt = active_vt w in run_bind (chvt e vt_num w) (\<lambda>w. Ok (old_vt, w)))"

definition get_framebufferdata :: "fb_env \<Rightarrow> string \<Rightarrow> bool \<Rightarrow> (fb_var_screeninfo \<times> fb_src) run" where
  "get_framebufferdata e device verbose =
     (if \<not> opens e device then Exit EXIT_FAILURE
      else case screeninfo e device of
        None \<Rightarrow> Exit EXIT_FAILURE
      | Some v \<Rightarrow>
          if verbose \<and> uint (fb_bpp v) div 8 = 0 then Undef
          else Ok (v, \<lparr>srcBlue = uint (drop_bit 3 (fb_blue v)), srcGreen = uint (drop_bit 3 (fb_green v)),
                       srcRed = uint (drop_bit 3 (fb_red v)),
                       srcAlpha = (if 0 < fb_transp_length v then uint (drop_bit 3 (fb_transp v)) else - 1)\<rparr>))"

definition read_framebuffer :: "fb_env \<Rightarrow> string \<Rightarrow> nat \<Rightarrow> int \<Rightarrow> bytes run" where
  "read_framebuffer e device n skip_bytes =
     (if \<not> opens e device then Exit EXIT_FAILURE
      else
        let data = read_at e device skip_bytes n
        in if length data \<noteq> n then Exit EXIT_FAILURE else Ok data)"

abbreviation (input) Z_BEST_COMPRESSION :: int where "Z_BEST_COMPRESSION \<equiv> 9"

text \<open>
  The row pointers are computed in the type \<^verbatim>\<open>int\<close>. A size that the library does not accept, as 0, ends in
  its error handler, which aborts the program because none was set.
\<close>

definition write_PNG :: "fb_env \<Rightarrow> bytes \<Rightarrow> string \<Rightarrow> int \<Rightarrow> int \<Rightarrow> bool \<Rightarrow> fb_world \<Rightarrow> fb_world run" where
  "write_PNG e outbuffer filename width height interlace w =
     (if height \<le> 0 then Undef
      else if filename \<noteq> ''-'' \<and> \<not> creates e filename then Exit EXIT_FAILURE
      else if list_ex (\<lambda>i. \<not> fits_int (int i * 4) \<or> \<not> fits_int (int i * 4 * width) \<or> int i * 4 * width < 0 \<or>
                           int (length outbuffer) < int i * 4 * width) [0..<nat height] then Undef
      else if \<not> png_starts e then Exit EXIT_FAILURE
      else if \<not> png_accepts e width height then Abort
      else
        let rows = map (\<lambda>i. mem_read outbuffer (nat (int i * 4 * width)) (4 * nat width)) [0..<nat height]
        in if None \<in> set rows then Undef
           else Ok (w\<lparr>png_file := Some \<lparr>png_name = filename, png_width = width, png_height = height, png_bit_depth = 8,
                                   png_rgb_alpha = True, png_interlace = interlace, png_level = Z_BEST_COMPRESSION,
                                   png_invert_alpha = True, png_bgr = True, png_rows = map the rows\<rparr>\<rparr>))"

definition convert_and_write ::
    "fb_env \<Rightarrow> fb_src \<Rightarrow> bytes \<Rightarrow> string \<Rightarrow> int \<Rightarrow> int \<Rightarrow> int \<Rightarrow> bool \<Rightarrow> fb_world \<Rightarrow> fb_world run" where
  "convert_and_write e src inbuffer filename width height bits interlace w =
     (let bufsize = nat (width * height * 4 mod 2 ^ 64);
          outbuffer = replicate bufsize 0;
          write = (\<lambda>r. run_bind (defined_or r) (\<lambda>out. write_PNG e out filename width height interlace w))
      in if \<not> malloc_ok e bufsize then Exit EXIT_FAILURE
         else if bits = 15 then write (convert1555to32 width height inbuffer outbuffer)
         else if bits = 16 then write (convert565to32 width height inbuffer outbuffer)
         else if bits = 24 then write (convert888to32 src width height inbuffer outbuffer)
         else if bits = 32 then write (convert8888to32 src width height inbuffer outbuffer)
         else Exit EXIT_FAILURE)"

section \<open>Options and the main program\<close>

text \<open>\<^verbatim>\<open>atoi\<close> of the C library: blanks, a sign, digits; the value is cut to an \<^verbatim>\<open>int\<close>.\<close>

definition signed32 :: "int \<Rightarrow> int" where
  "signed32 n = (n + 2 ^ 31) mod 2 ^ 32 - 2 ^ 31"

definition c_digits :: "string \<Rightarrow> int" where
  "c_digits s = foldl (\<lambda>n c. 10 * n + (of_char c - 48)) 0 (takeWhile isdigit s)"

definition isspace :: "char \<Rightarrow> bool" where
  "isspace c \<longleftrightarrow> of_char c = (32 :: nat) \<or> 9 \<le> (of_char c :: nat) \<and> (of_char c :: nat) \<le> 13"

definition atoi :: "string \<Rightarrow> int" where
  "atoi s =
     (let s = dropWhile isspace s;
          n = (case s of
                 [] \<Rightarrow> 0
               | c # cs \<Rightarrow> if c = CHR ''-'' then - c_digits cs else if c = CHR ''+'' then c_digits cs else c_digits s)
      in signed32 (max (- (2 ^ 63)) (min (2 ^ 63 - 1) n)))"

record fb_opts =
  device :: "string option"
  vt_num :: int
  bitdepth :: int
  height :: int
  width :: int
  infile :: string
  waitbfg :: bool
  interlace :: bool
  verbose :: bool
  png_compression :: int

definition fb_defaults :: fb_opts where
  "fb_defaults = \<lparr>device = None, vt_num = UNDEFINED, bitdepth = UNDEFINED, height = UNDEFINED, width = UNDEFINED,
     infile = [], waitbfg = False, interlace = False, verbose = False, png_compression = - 1\<rparr>"

text \<open>One option as \<^verbatim>\<open>getopt\<close> reports it; \<^verbatim>\<open>?\<close> ends the program with 1.\<close>

definition fb_option :: "char \<Rightarrow> string \<Rightarrow> fb_opts \<Rightarrow> fb_opts run" where
  "fb_option optc optarg p =
     (if optc = CHR ''b'' then Ok (p\<lparr>bitdepth := atoi optarg\<rparr>)
      else if optc = CHR ''C'' then Ok (p\<lparr>waitbfg := True, vt_num := atoi optarg\<rparr>)
      else if optc = CHR ''c'' then Ok (p\<lparr>vt_num := atoi optarg\<rparr>)
      else if optc = CHR ''d'' then Ok (p\<lparr>device := Some optarg\<rparr>)
      else if optc = CHR ''f'' then Ok (p\<lparr>infile := take MAX_LEN optarg\<rparr>)
      else if optc = CHR ''h'' then Ok (p\<lparr>height := atoi optarg\<rparr>)
      else if optc = CHR ''?'' then Exit 1
      else if optc = CHR ''i'' then Ok (p\<lparr>interlace := True\<rparr>)
      else if optc = CHR ''v'' then Ok (p\<lparr>verbose := True\<rparr>)
      else if optc = CHR ''s'' then Ok p
      else if optc = CHR ''w'' then Ok (p\<lparr>width := atoi optarg\<rparr>)
      else if optc = CHR ''z'' then Ok (p\<lparr>png_compression := atoi optarg\<rparr>)
      else Ok p)"

fun fb_options :: "(char \<times> string) list \<Rightarrow> fb_opts \<Rightarrow> fb_opts run" where
  "fb_options [] p = Ok p"
| "fb_options ((c, arg) # cs) p = run_bind (fb_option c arg p) (fb_options cs)"

text \<open>The source of the pixels: a file with all sizes given, or the framebuffer device.\<close>

definition fb_source :: "fb_env \<Rightarrow> fb_opts \<Rightarrow> (fb_opts \<times> fb_src \<times> int) run" where
  "fb_source e p =
     (if MAX_LEN \<le> length (infile p) then Undef
      else if infile p \<noteq> [] then
        if bitdepth p = UNDEFINED \<or> width p = UNDEFINED \<or> height p = UNDEFINED then Exit EXIT_FAILURE
        else Ok (p, \<lparr>srcBlue = 0, srcGreen = 1, srcRed = 2, srcAlpha = 3\<rparr>, 0)
      else
        let dev = (case device p of
                     Some d \<Rightarrow> d
                   | None \<Rightarrow> (case getenv_FRAMEBUFFER e of Some d \<Rightarrow> d | None \<Rightarrow> ''/dev/fb0''))
        in run_bind (get_framebufferdata e dev (verbose p)) (\<lambda>(v, src).
             Ok (p\<lparr>bitdepth := (if bitdepth p = UNDEFINED then signed32 (uint (fb_bpp v)) else bitdepth p),
                   width := (if width p = UNDEFINED then signed32 (uint (fb_xres v)) else width p),
                   height := (if height p = UNDEFINED then signed32 (uint (fb_yres v)) else height p),
                   infile := take (MAX_LEN - 1) dev\<rparr>,
                 src, sint ((fb_yoffset v * fb_xres v) * drop_bit 3 (fb_bpp v)))))"

text \<open>The product of two numbers of type \<^verbatim>\<open>int\<close> must not overflow; the rest of \<^verbatim>\<open>buf_size\<close> is unsigned.\<close>

definition fb_buf_size :: "int \<Rightarrow> int \<Rightarrow> int \<Rightarrow> nat option" where
  "fb_buf_size wd ht depth =
     (if fits_int (wd * ht) then Some (u32 (wd * ht * int (u32 depth div 8))) else None)"

definition fbgrab_main ::
    "fb_env \<Rightarrow> (char \<times> string) list \<Rightarrow> nat \<Rightarrow> string \<Rightarrow> fb_world \<Rightarrow> (int \<times> fb_world) run" where
  "fbgrab_main e opts args outfile w =
     run_bind (fb_options opts fb_defaults) (\<lambda>p.
     if args \<noteq> 1 then Ok (1, w)
     else
       run_bind (if vt_num p \<noteq> UNDEFINED then run_bind (change_to_vt e (word_of_int (vt_num p)) w) (\<lambda>(old, w). Ok (Some old, w))
                 else Ok (None, w)) (\<lambda>(old_vt, w).
       run_bind (fb_source e p) (\<lambda>(p, src, skip_bytes).
       run_bind (defined_or (fb_buf_size (width p) (height p) (bitdepth p))) (\<lambda>buf_size.
       if \<not> malloc_ok e buf_size then Exit EXIT_FAILURE
       else
         run_bind (read_framebuffer e (infile p) buf_size skip_bytes) (\<lambda>buf.
         run_bind (case old_vt of None \<Rightarrow> Ok w | Some old \<Rightarrow> run_bind (change_to_vt e old w) (\<lambda>(_, w). Ok w)) (\<lambda>w.
         run_bind (convert_and_write e src buf outfile (width p) (height p) (bitdepth p) (interlace p) w) (\<lambda>w.
           Ok (0, w))))))))"

section \<open>The loops write every pixel once\<close>

lemma put_pixel_append:
  "length A = i \<Longrightarrow> 4 \<le> length rest \<Longrightarrow> put_pixel i b g r a (A @ rest) = Some (A @ [b, g, r, a] @ drop 4 rest)"
proof -
  assume "length A = i" "4 \<le> length rest"
  then obtain w x y z rest' where "rest = w # x # y # z # rest'"
    by (auto simp: Suc_le_length_iff eval_nat_numeral)
  with \<open>length A = i\<close> show ?thesis
    by (simp add: put_pixel_def store_def list_update_append nth_append)
qed

text \<open>A loop whose round \<open>k\<close> puts the pixel \<open>pix k\<close> at its place converts the whole image.\<close>

lemma c_for_pixels:
  assumes "\<And>k A rest. k < N \<Longrightarrow> length A = 4 * k \<Longrightarrow> 4 \<le> length rest \<Longrightarrow> body (s * k) (A @ rest) = Some (A @ pix k @ drop 4 rest)"
    and "\<And>k. length (pix k) = 4" and "length out = 4 * N" and "(n + s - 1) div s = N"
  shows "c_for n s body out = Some (concat (map pix [0..<N]))"
proof -
  let ?I = "\<lambda>k o'. k \<le> N \<and> o' = concat (map pix [0..<k]) @ drop (4 * k) out"
  have len: "length (concat (map pix [0..<k])) = 4 * k" for k
    using assms(2) by (induction k) simp_all
  have "\<exists>o'. c_for n s body out = Some o' \<and> ?I ((n + s - 1) div s) o'"
  proof (rule c_for_inv [where I = ?I])
    fix k o'
    assume k: "k < (n + s - 1) div s" and o': "?I k o'"
    have "4 \<le> length (drop (4 * k) out)" using k assms(3,4) by simp
    then show "\<exists>o''. body (s * k) o' = Some o'' \<and> ?I (Suc k) o''"
      using o' k assms(4) assms(1) [OF _ len, of k "drop (4 * k) out"] by (simp add: add.commute)
  qed simp
  then show ?thesis using assms(3,4) by simp
qed

text \<open>The pixel \<open>k\<close> of each format: blue, green, red and alpha.\<close>

definition pixel1555 :: "bytes \<Rightarrow> nat \<Rightarrow> bytes" where
  "pixel1555 inb k = (let p = unat (inb ! (2 * k)) + 256 * unat (inb ! (2 * k + 1)) in
     [of_nat (8 * (p div 1024 mod 32)), of_nat (8 * (p div 32 mod 32)), of_nat (8 * (p mod 32)), 0])"

definition pixel565 :: "bytes \<Rightarrow> nat \<Rightarrow> bytes" where
  "pixel565 inb k = (let p = unat (inb ! (2 * k)) + 256 * unat (inb ! (2 * k + 1)) in
     [of_nat (8 * (p mod 32)), of_nat (4 * (p div 32 mod 64)), of_nat (8 * (p div 2048)), 0])"

definition pixel888 :: "fb_src \<Rightarrow> bytes \<Rightarrow> nat \<Rightarrow> bytes" where
  "pixel888 src inb k =
     [inb ! (3 * k + nat (srcBlue src)), inb ! (3 * k + nat (srcGreen src)), inb ! (3 * k + nat (srcRed src)), 0]"

definition pixel8888 :: "fb_src \<Rightarrow> bytes \<Rightarrow> nat \<Rightarrow> bytes" where
  "pixel8888 src inb k =
     [inb ! (4 * k + nat (srcBlue src)), inb ! (4 * k + nat (srcGreen src)), inb ! (4 * k + nat (srcRed src)),
      (if 0 \<le> srcAlpha src then inb ! (4 * k + nat (srcAlpha src)) else 0xFF)]"

lemma u8_parts:
  fixes w :: u8
  shows "w AND 0x1F = of_nat (unat w mod 32)" "w AND 0x7 = of_nat (unat w mod 8)" "w AND 0x3 = of_nat (unat w mod 4)"
    and "drop_bit 5 w = of_nat (unat w div 32)" "drop_bit 3 w = of_nat (unat w div 8)"
    and "take_bit 5 (drop_bit 2 w) = of_nat (unat w div 4 mod 32)"
proof -
  have eqI: "v = of_nat k" if "unat v = k" for v :: u8 and k using that by auto
  have u: "take_bit 8 (unat w) = unat w" using unsigned_less [of w] by (simp add: take_bit_nat_eq_self_iff)
  have m: "w AND mask n = of_nat (unat w mod 2 ^ n)" for n
    unfolding take_bit_eq_mask [symmetric] by (rule eqI) (simp add: unsigned_take_bit_eq flip: take_bit_eq_mod)
  have d: "drop_bit n w = of_nat (unat w div 2 ^ n)" for n
    by (rule eqI) (simp add: unsigned_drop_bit_eq u flip: drop_bit_eq_div)
  have td: "take_bit k (drop_bit n w) = of_nat (unat w div 2 ^ n mod 2 ^ k)" for k n
    by (rule eqI) (simp add: unsigned_take_bit_eq unsigned_drop_bit_eq u flip: drop_bit_eq_div take_bit_eq_mod)
  show "w AND 0x1F = of_nat (unat w mod 32)" using m [of 5] by (simp add: mask_eq_exp_minus_1)
  show "w AND 0x7 = of_nat (unat w mod 8)" using m [of 3] by (simp add: mask_eq_exp_minus_1)
  show "w AND 0x3 = of_nat (unat w mod 4)" using m [of 2] by (simp add: mask_eq_exp_minus_1)
  show "drop_bit 5 w = of_nat (unat w div 32)" using d [of 5] by simp
  show "drop_bit 3 w = of_nat (unat w div 8)" using d [of 3] by simp
  show "take_bit 5 (drop_bit 2 w) = of_nat (unat w div 4 mod 32)" using td [of 5 2] by simp
qed

lemma u8_masks:
  fixes lo hi :: u8
  shows "hi AND 0xF8 = push_bit 3 (drop_bit 3 hi)" and "push_bit 1 (hi AND 0x7C) = push_bit 3 (take_bit 5 (drop_bit 2 hi))"
    and "push_bit 3 hi OR drop_bit 5 (lo AND 0xE0) = push_bit 3 hi + drop_bit 5 lo"
proof -
  show "hi AND 0xF8 = push_bit 3 (drop_bit 3 hi)" by (rule u8_eqI) (simp add: bitwise)
  have "hi AND 0x7C = push_bit 2 (take_bit 5 (drop_bit 2 hi))" by (rule u8_eqI) (simp add: bitwise, simp add: numeral_2_eq_2 numeral_3_eq_3)
  then show "push_bit 1 (hi AND 0x7C) = push_bit 3 (take_bit 5 (drop_bit 2 hi))"
    by (simp only: push_bit_push_bit) (simp add: push_bit_eq_mult)
  have "drop_bit 5 (lo AND 0xE0) = drop_bit 5 lo" by (rule u8_eqI) (simp add: bitwise)
  moreover have "push_bit 3 hi + drop_bit 5 lo = push_bit 3 hi OR drop_bit 5 lo"
    by (rule disjunctive_add) (auto simp: bit_simps bit_beyond_u8)
  ultimately show "push_bit 3 hi OR drop_bit 5 (lo AND 0xE0) = push_bit 3 hi + drop_bit 5 lo" by simp
qed

lemma push_u8: "push_bit n (of_nat m :: u8) = of_nat (2 ^ n * m)"
  by (simp add: push_bit_eq_mult mult.commute)

text \<open>The two bytes of a pixel as one number.\<close>

lemma pair_div:
  fixes lo hi :: nat
  assumes "lo < 256"
  shows "(lo + 256 * hi) mod 32 = lo mod 32" "(lo + 256 * hi) div 32 = lo div 32 + 8 * hi"
    "(lo + 256 * hi) div 1024 = hi div 4" "(lo + 256 * hi) div 2048 = hi div 8"
proof -
  have "lo + 256 * hi = lo + 32 * (8 * hi)" by simp
  then show "(lo + 256 * hi) mod 32 = lo mod 32" "(lo + 256 * hi) div 32 = lo div 32 + 8 * hi"
    by (metis mod_mult_self2, metis add.commute div_mult_self2 zero_neq_numeral)
  have d: "(lo + 256 * hi) div 256 = hi" using assms by simp
  show "(lo + 256 * hi) div 1024 = hi div 4" using div_mult2_eq [of "lo + 256 * hi" 256 4] d by simp
  show "(lo + 256 * hi) div 2048 = hi div 8" using div_mult2_eq [of "lo + 256 * hi" 256 8] d by simp
qed

lemma mix_mod: "a < 8 \<Longrightarrow> (a + 8 * b) mod 64 = 8 * (b mod 8) + (a::nat)" "a < 8 \<Longrightarrow> (a + 8 * b) mod 32 = 8 * (b mod 4) + (a::nat)"
  using mod_mult2_eq [of "a + 8 * b" 8 8] mod_mult2_eq [of "a + 8 * b" 8 4] by simp_all

text \<open>The bytes that the code computes from the two bytes of a pixel.\<close>

lemma unat_u8_less: "unat (w :: u8) < 256"
  using unsigned_less [of w] by simp

lemma parts565:
  fixes lo hi :: u8
  defines "p \<equiv> unat lo + 256 * unat hi"
  shows "push_bit 3 (lo AND 0x1F) = of_nat (8 * (p mod 32))"
    and "push_bit 2 (push_bit 3 (hi AND 0x7) OR drop_bit 5 (lo AND 0xE0)) = of_nat (4 * (p div 32 mod 64))"
    and "hi AND 0xF8 = of_nat (8 * (p div 2048))"
proof -
  note p = pair_div [OF unat_u8_less [of lo], of "unat hi"]
  have "unat lo div 32 < 8" using unat_u8_less [of lo] by simp
  then show "push_bit 2 (push_bit 3 (hi AND 0x7) OR drop_bit 5 (lo AND 0xE0)) = of_nat (4 * (p div 32 mod 64))"
    unfolding u8_masks(3) unfolding u8_parts push_u8 p_def p by (simp add: mix_mod push_bit_eq_mult)
  show "push_bit 3 (lo AND 0x1F) = of_nat (8 * (p mod 32))" unfolding u8_parts push_u8 p_def p by simp
  show "hi AND 0xF8 = of_nat (8 * (p div 2048))" unfolding u8_masks u8_parts push_u8 p_def p by simp
qed

lemma parts1555:
  fixes lo hi :: u8
  defines "p \<equiv> unat lo + 256 * unat hi"
  shows "push_bit 1 (hi AND 0x7C) = of_nat (8 * (p div 1024 mod 32))"
    and "push_bit 3 (push_bit 3 (hi AND 0x3) OR drop_bit 5 (lo AND 0xE0)) = of_nat (8 * (p div 32 mod 32))"
proof -
  note p = pair_div [OF unat_u8_less [of lo], of "unat hi"]
  have "unat lo div 32 < 8" using unat_u8_less [of lo] by simp
  then show "push_bit 3 (push_bit 3 (hi AND 0x3) OR drop_bit 5 (lo AND 0xE0)) = of_nat (8 * (p div 32 mod 32))"
    unfolding u8_masks(3) unfolding u8_parts push_u8 p_def p by (simp add: mix_mod push_bit_eq_mult)
  show "push_bit 1 (hi AND 0x7C) = of_nat (8 * (p div 1024 mod 32))" unfolding u8_masks u8_parts push_u8 p_def p by simp
qed

lemma u32_small: "0 \<le> n \<Longrightarrow> n < 2 ^ 32 \<Longrightarrow> u32 n = nat n"
  by (simp add: u32_def)

text \<open>The indices of a pixel of an image of less than 4 GB do not wrap.\<close>

lemma u32_pixel:
  assumes "k < nat (w * h)" and "4 * (w * h) < 2 ^ 32"
  shows "u32 (2 * int (2 * k)) = 4 * k" "u32 (4 * int (1 * k)) = 4 * k"
    and "0 \<le> d \<Longrightarrow> d < 3 \<Longrightarrow> u32 (int (1 * k) * 3 + d) = 3 * k + nat d"
    and "0 \<le> d \<Longrightarrow> d < 4 \<Longrightarrow> u32 (int (1 * k) * 4 + d) = 4 * k + nat d"
proof -
  have "int k + 1 \<le> w * h" using assms(1) by linarith
  then have "4 * int k + 4 \<le> 4 * (w * h)" by linarith
  then have k: "4 * int k + 3 < 2 ^ 32" using assms(2) by linarith
  show "u32 (2 * int (2 * k)) = 4 * k" "u32 (4 * int (1 * k)) = 4 * k"
    using k by (subst u32_small; simp)+
  show "u32 (int (1 * k) * 3 + d) = 3 * k + nat d" if "0 \<le> d" "d < 3"
    using k that by (subst u32_small; simp add: nat_add_distrib nat_mult_distrib)
  show "u32 (int (1 * k) * 4 + d) = 4 * k + nat d" if "0 \<le> d" "d < 4"
    using k that by (subst u32_small; simp add: nat_add_distrib nat_mult_distrib)
qed

lemma u32_count:
  assumes "0 \<le> w" "0 \<le> h" and "4 * (w * h) < 2 ^ 32"
  shows "(u32 (h * w * 2) + 2 - 1) div 2 = nat (w * h)" "(u32 (h * w) + 1 - 1) div 1 = nat (w * h)"
proof -
  have n: "0 \<le> w * h" using assms(1,2) by simp
  have "u32 (h * w * 2) = 2 * nat (w * h)" "u32 (h * w) = nat (w * h)"
    using n assms(3) by (subst u32_small; simp add: mult.commute nat_mult_distrib)+
  then show "(u32 (h * w * 2) + 2 - 1) div 2 = nat (w * h)" "(u32 (h * w) + 1 - 1) div 1 = nat (w * h)" by simp_all
qed

section \<open>The four conversions\<close>

lemma convert565_ok:
  assumes "0 \<le> w" "0 \<le> h" and b: "4 * (w * h) < 2 ^ 32" and "2 * nat (w * h) \<le> length inb" and "length out = 4 * nat (w * h)"
  shows "convert565to32 w h inb out = Some (concat (map (pixel565 inb) [0..<nat (w * h)]))"
  unfolding convert565to32_def
proof (rule c_for_pixels [OF _ _ assms(5) u32_count(1) [OF assms(1-3)]])
  fix k :: nat and A rest :: bytes
  assume k: "k < nat (w * h)" and A: "length A = 4 * k" and r: "4 \<le> length rest"
  have pix: "pixel565 inb k =
      [push_bit 3 (inb ! (2 * k) AND 0x1F), push_bit 2 (push_bit 3 (inb ! (2 * k + 1) AND 0x7) OR drop_bit 5 (inb ! (2 * k) AND 0xE0)), inb ! (2 * k + 1) AND 0xF8, 0]"
    by (simp only: pixel565_def Let_def parts565 [where lo = "inb ! (2 * k)" and hi = "inb ! (2 * k + 1)"])
  show "Option.bind (fetch inb (2 * k)) (\<lambda>lo. Option.bind (fetch inb (2 * k + 1)) (\<lambda>hi.
       put_pixel (u32 (2 * int (2 * k))) (push_bit 3 (lo AND 0x1F))
         (push_bit 2 (push_bit 3 (hi AND 0x7) OR drop_bit 5 (lo AND 0xE0))) (hi AND 0xF8) 0 (A @ rest))) =
     Some (A @ pixel565 inb k @ drop 4 rest)"
    using put_pixel_append [OF A r] assms(4) k unfolding u32_pixel(1) [OF k b] pix by (simp add: fetch_def)
qed (simp add: pixel565_def Let_def)

lemma convert1555_ok:
  assumes "0 \<le> w" "0 \<le> h" and b: "4 * (w * h) < 2 ^ 32" and "2 * nat (w * h) \<le> length inb" and "length out = 4 * nat (w * h)"
  shows "convert1555to32 w h inb out = Some (concat (map (pixel1555 inb) [0..<nat (w * h)]))"
  unfolding convert1555to32_def
proof (rule c_for_pixels [OF _ _ assms(5) u32_count(1) [OF assms(1-3)]])
  fix k :: nat and A rest :: bytes
  assume k: "k < nat (w * h)" and A: "length A = 4 * k" and r: "4 \<le> length rest"
  have pix: "pixel1555 inb k =
      [push_bit 1 (inb ! (2 * k + 1) AND 0x7C), push_bit 3 (push_bit 3 (inb ! (2 * k + 1) AND 0x3) OR drop_bit 5 (inb ! (2 * k) AND 0xE0)), push_bit 3 (inb ! (2 * k) AND 0x1F), 0]"
    by (simp only: pixel1555_def Let_def parts1555 [where lo = "inb ! (2 * k)" and hi = "inb ! (2 * k + 1)"] parts565(1) [where lo = "inb ! (2 * k)" and hi = "inb ! (2 * k + 1)"])
  show "Option.bind (fetch inb (2 * k)) (\<lambda>lo. Option.bind (fetch inb (2 * k + 1)) (\<lambda>hi.
       put_pixel (u32 (2 * int (2 * k))) (push_bit 1 (hi AND 0x7C))
         (push_bit 3 (push_bit 3 (hi AND 0x3) OR drop_bit 5 (lo AND 0xE0))) (push_bit 3 (lo AND 0x1F)) 0 (A @ rest))) =
     Some (A @ pixel1555 inb k @ drop 4 rest)"
    using put_pixel_append [OF A r] assms(4) k unfolding u32_pixel(1) [OF k b] pix by (simp add: fetch_def)
qed (simp add: pixel1555_def Let_def)

text \<open>The places of the colours inside a pixel of \<open>n\<close> bytes.\<close>

definition src_within :: "int \<Rightarrow> fb_src \<Rightarrow> bool" where
  "src_within n src \<longleftrightarrow> (\<forall>d\<in>{srcBlue src, srcGreen src, srcRed src}. 0 \<le> d \<and> d < n) \<and> srcAlpha src < n"

lemma convert888_ok:
  assumes "0 \<le> w" "0 \<le> h" and b: "4 * (w * h) < 2 ^ 32" and "3 * nat (w * h) \<le> length inb" and "length out = 4 * nat (w * h)"
    and s: "src_within 3 src"
  shows "convert888to32 src w h inb out = Some (concat (map (pixel888 src inb) [0..<nat (w * h)]))"
  unfolding convert888to32_def
proof (rule c_for_pixels [OF _ _ assms(5) u32_count(2) [OF assms(1-3)]])
  fix k :: nat and A rest :: bytes
  assume k: "k < nat (w * h)" and A: "length A = 4 * k" and r: "4 \<le> length rest"
  have f: "fetch inb (u32 (int (1 * k) * 3 + d)) = Some (inb ! (3 * k + nat d))" if "0 \<le> d" "d < 3" for d
    unfolding u32_pixel(3) [OF k b that] using that k assms(4) by (auto simp: fetch_def)
  show "Option.bind (fetch inb (u32 (int (1 * k) * 3 + srcBlue src))) (\<lambda>b.
       Option.bind (fetch inb (u32 (int (1 * k) * 3 + srcGreen src))) (\<lambda>g.
       Option.bind (fetch inb (u32 (int (1 * k) * 3 + srcRed src))) (\<lambda>r.
         put_pixel (u32 (4 * int (1 * k))) b g r 0 (A @ rest)))) = Some (A @ pixel888 src inb k @ drop 4 rest)"
    using s put_pixel_append [OF A r] f unfolding u32_pixel(2) [OF k b] by (simp add: src_within_def pixel888_def)
qed (simp add: pixel888_def)

lemma convert8888_ok:
  assumes "0 \<le> w" "0 \<le> h" and b: "4 * (w * h) < 2 ^ 32" and "4 * nat (w * h) \<le> length inb" and "length out = 4 * nat (w * h)"
    and s: "src_within 4 src"
  shows "convert8888to32 src w h inb out = Some (concat (map (pixel8888 src inb) [0..<nat (w * h)]))"
  unfolding convert8888to32_def
proof (rule c_for_pixels [OF _ _ assms(5) u32_count(2) [OF assms(1-3)]])
  fix k :: nat and A rest :: bytes
  assume k: "k < nat (w * h)" and A: "length A = 4 * k" and r: "4 \<le> length rest"
  have f: "fetch inb (u32 (int (1 * k) * 4 + d)) = Some (inb ! (4 * k + nat d))" if "0 \<le> d" "d < 4" for d
    unfolding u32_pixel(4) [OF k b that] using that k assms(4) by (auto simp: fetch_def)
  have a: "(if 0 \<le> srcAlpha src then fetch inb (u32 (int (1 * k) * 4 + srcAlpha src)) else Some 0xFF) =
      Some (if 0 \<le> srcAlpha src then inb ! (4 * k + nat (srcAlpha src)) else 0xFF)"
    using s f by (simp add: src_within_def)
  show "Option.bind (fetch inb (u32 (int (1 * k) * 4 + srcBlue src))) (\<lambda>b.
       Option.bind (fetch inb (u32 (int (1 * k) * 4 + srcGreen src))) (\<lambda>g.
       Option.bind (fetch inb (u32 (int (1 * k) * 4 + srcRed src))) (\<lambda>r.
       Option.bind (if 0 \<le> srcAlpha src then fetch inb (u32 (int (1 * k) * 4 + srcAlpha src)) else Some 0xFF) (\<lambda>a.
         put_pixel (u32 (4 * int (1 * k))) b g r a (A @ rest))))) = Some (A @ pixel8888 src inb k @ drop 4 rest)"
    using s put_pixel_append [OF A r] f unfolding u32_pixel(2) [OF k b] a by (simp add: src_within_def pixel8888_def)
qed (simp add: pixel8888_def)

section \<open>The whole program\<close>

text \<open>A system on which nothing fails, with the limits that the PNG library has by default.\<close>

definition env_ok :: "fb_env \<Rightarrow> bool" where
  "env_ok e \<longleftrightarrow> console_opens e \<and> png_starts e \<and> (\<forall>v. vt_ok e v) \<and> (\<forall>f. opens e f) \<and> (\<forall>n. malloc_ok e n) \<and> (\<forall>f. creates e f) \<and>
     (\<forall>w h. 0 < w \<and> w \<le> 1000000 \<and> 0 < h \<and> h \<le> 1000000 \<longrightarrow> png_accepts e w h)"

definition back_again :: "fb_opts \<Rightarrow> fb_world \<Rightarrow> fb_world" where
  "back_again p w = (if vt_num p = UNDEFINED then w else w\<lparr>switches := switches w @ [word_of_int (vt_num p), active_vt w]\<rparr>)"

lemma main_ok:
  assumes "env_ok e" and "fb_options opts fb_defaults = Ok p" and "fb_source e p = Ok (q, src, skip)"
    and "fb_buf_size (width q) (height q) (bitdepth q) = Some n" and "length (read_at e (infile q) skip n) = n"
  shows "fbgrab_main e opts 1 outfile w =
     run_bind (convert_and_write e src (read_at e (infile q) skip n) outfile (width q) (height q) (bitdepth q) (interlace q)
       (back_again p w)) (\<lambda>w. Ok (0, w))"
  using assms
  by (simp add: fbgrab_main_def change_to_vt_def chvt_def env_ok_def defined_or_def read_framebuffer_def back_again_def Let_def)

text \<open>The pixels of the formats with full bytes; the rows of an image.\<close>

definition pixel_of :: "int \<Rightarrow> fb_src \<Rightarrow> bytes \<Rightarrow> nat \<Rightarrow> bytes" where
  "pixel_of bits src inb = (if bits = 16 then pixel565 inb else if bits = 24 then pixel888 src inb else pixel8888 src inb)"

definition picture :: "int \<Rightarrow> int \<Rightarrow> (nat \<Rightarrow> bytes) \<Rightarrow> bytes list" where
  "picture w h pix = map (\<lambda>y. concat (map pix [y * nat w..<(y + 1) * nat w])) [0..<nat h]"

lemma length_pixel_of [simp]: "length (pixel_of bits src inb k) = 4"
  by (simp add: pixel_of_def pixel565_def pixel888_def pixel8888_def Let_def)

lemma length_concat_pixels: "(\<And>k. length (pix k) = 4) \<Longrightarrow> length (concat (map pix xs)) = 4 * length xs"
  by (induction xs) simp_all

lemma upt_split: "a \<le> b \<Longrightarrow> b \<le> c \<Longrightarrow> [a..<c] = [a..<b] @ [b..<c]"
  by (metis le_add_diff_inverse upt_add_eq_append)

lemma read_row:
  assumes "\<And>k. length (pix k) = 4" and "y < h"
  shows "mem_read (concat (map pix [0..<w * h])) (y * 4 * w) (4 * w) = Some (concat (map pix [y * w..<(y + 1) * w]))"
proof -
  have "(y + 1) * w \<le> w * h" using assms(2) by (metis Suc_eq_plus1 Suc_leI mult.commute mult_le_mono1)
  moreover from this have "[0..<w * h] = [0..<y * w] @ [y * w..<(y + 1) * w] @ [(y + 1) * w..<w * h]"
    using upt_split [of 0 "y * w" "w * h"] upt_split [of "y * w" "(y + 1) * w" "w * h"] assms(2) by simp
  ultimately show ?thesis
    using length_concat_pixels [OF assms(1), where xs = "[0..<y * w]"] length_concat_pixels [OF assms(1), where xs = "[y * w..<(y + 1) * w]"]
      length_concat_pixels [OF assms(1), where xs = "[(y + 1) * w..<w * h]"]
    by (simp add: mem_read_def algebra_simps)
qed

lemma write_PNG_picture:
  assumes "env_ok e" and "0 < h" "h \<le> 1000000" "0 < w" "w \<le> 1000000" and small: "4 * (w * h) < 2 ^ 31"
    and "\<And>k. length (pix k) = 4"
  shows "write_PNG e (concat (map pix [0..<nat (w * h)])) f w h il st =
    Ok (st\<lparr>png_file := Some \<lparr>png_name = f, png_width = w, png_height = h, png_bit_depth = 8, png_rgb_alpha = True,
      png_interlace = il, png_level = 9, png_invert_alpha = True, png_bgr = True, png_rows = picture w h pix\<rparr>\<rparr>)"
proof -
  have n: "nat (w * h) = nat w * nat h" using assms(4) by (simp add: nat_mult_distrib)
  have off: "nat (int i * 4 * w) = i * 4 * nat w" for i using assms(4) by (simp add: nat_mult_distrib)
  have r: "map (\<lambda>i. mem_read (concat (map pix [0..<nat (w * h)])) (nat (int i * 4 * w)) (4 * nat w)) [0..<nat h] =
      map Some (picture w h pix)"
    using read_row [OF assms(7)] by (simp add: picture_def n off)
  have "fits_int (int i * 4) \<and> fits_int (int i * 4 * w) \<and> 0 \<le> int i * 4 * w \<and>
      int i * 4 * w \<le> int (length (concat (map pix [0..<nat (w * h)])))" if "i < nat h" for i
  proof -
    have i: "int i \<le> h" using that by linarith
    then have le: "int i * 4 * w \<le> 4 * (w * h)" using assms(4) mult_left_mono [of "int i" h "4 * w"] by (simp add: mult.commute mult.left_commute)
    have "length (concat (map pix [0..<nat (w * h)])) = 4 * nat (w * h)" using length_concat_pixels [OF assms(7), where xs = "[0..<nat (w * h)]"] by simp
    then have "int (length (concat (map pix [0..<nat (w * h)]))) = 4 * (w * h)" using assms(2,4) by simp
    moreover have fit: "fits_int x" if "0 \<le> x" "x < 2 ^ 31" for x using that by (simp add: fits_int_def)
    moreover have nonneg: "0 \<le> int i * 4 * w" using assms(4) by simp
    moreover have "fits_int (int i * 4)" using i assms(3) by (intro fit) simp_all
    moreover have "fits_int (int i * 4 * w)" using le small nonneg by (intro fit) linarith+
    ultimately show ?thesis using le by linarith
  qed
  then have ok: "\<not> list_ex (\<lambda>i. \<not> fits_int (int i * 4) \<or> \<not> fits_int (int i * 4 * w) \<or> int i * 4 * w < 0 \<or>
      int (length (concat (map pix [0..<nat (w * h)]))) < int i * 4 * w) [0..<nat h]"
    by (auto simp: list_ex_iff not_less)
  show ?thesis
    unfolding write_PNG_def if_not_P [OF ok] r using assms(1-5) by (simp add: env_ok_def)
qed

text \<open>
  The colours red, green and blue and the opacity of a pixel of the image, by the documented meaning of
  the two flags; and those of pixel \<open>k\<close> of the screen. Without a field for transparency the program stores
  255, which is no opacity at all.
\<close>

definition png_rgba :: "png_image \<Rightarrow> nat \<Rightarrow> nat \<Rightarrow> bytes" where
  "png_rgba img x y =
     (let p = take 4 (drop (4 * x) (png_rows img ! y))
      in [if png_bgr img then p ! 2 else p ! 0, p ! 1, if png_bgr img then p ! 0 else p ! 2,
          if png_invert_alpha img then 255 - p ! 3 else p ! 3])"

definition screen_rgba :: "int \<Rightarrow> fb_src \<Rightarrow> bytes \<Rightarrow> nat \<Rightarrow> bytes" where
  "screen_rgba bits src data k =
     (if bits = 16 then
        let p = unat (data ! (2 * k)) + 256 * unat (data ! (2 * k + 1))
        in [of_nat (8 * (p div 2048)), of_nat (4 * (p div 32 mod 64)), of_nat (8 * (p mod 32)), 255]
      else if bits = 24 then
        [data ! (3 * k + nat (srcRed src)), data ! (3 * k + nat (srcGreen src)), data ! (3 * k + nat (srcBlue src)), 255]
      else
        [data ! (4 * k + nat (srcRed src)), data ! (4 * k + nat (srcGreen src)), data ! (4 * k + nat (srcBlue src)),
         if 0 \<le> srcAlpha src then 255 - data ! (4 * k + nat (srcAlpha src)) else 0])"

lemma nth_pixels: "(\<And>k. length (pix k) = 4) \<Longrightarrow> x < length xs \<Longrightarrow> take 4 (drop (4 * x) (concat (map pix xs))) = pix (xs ! x)"
proof (induction xs arbitrary: x)
  case (Cons k xs)
  then show ?case by (cases x) simp_all
qed simp

lemma picture_rgba:
  assumes "png_rows img = picture w h (pixel_of bits src data)" "png_bgr img" "png_invert_alpha img" and "x < nat w" "y < nat h"
  shows "png_rgba img x y = screen_rgba bits src data (y * nat w + x)"
proof -
  have "take 4 (drop (4 * x) (png_rows img ! y)) = pixel_of bits src data (y * nat w + x)"
    using nth_pixels [OF length_pixel_of, of x "[y * nat w..<(y + 1) * nat w]"] assms(1,4,5) by (simp add: picture_def)
  then show ?thesis
    using assms(2,3) by (simp add: png_rgba_def screen_rgba_def pixel_of_def pixel565_def pixel888_def pixel8888_def Let_def)
qed

lemma bufsize_small:
  assumes "0 \<le> w" "0 \<le> h" and "4 * (w * h) < 2 ^ 32"
  shows "nat (w * h * 4 mod 2 ^ 64) = 4 * nat (w * h)"
proof -
  have "0 \<le> w * h" using assms(1,2) by simp
  moreover have "w * h * 4 < 2 ^ 64" using assms(3) power_increasing [of 32 64 "2 :: int"] by linarith
  ultimately show ?thesis by (simp add: nat_mult_distrib)
qed

text \<open>
  C35: When nothing fails in the system, a picture of 16, 24 or 32 bits a pixel, from a device or a file,
  of at most a million pixels in each direction and fewer than \<open>2 ^ 31\<close> bytes after conversion, whose
  colour fields lie inside a pixel, is grabbed: the program ends with 0, the PNG library is given an image
  of that size with eight bits for each of red, green, blue and alpha, every pixel of which has, as the
  library is told to read it, the colours of that pixel of the screen (full opacity for 16 and 24 bits),
  and the console that was active is active again.
\<close>

theorem fbgrab_screenshot:
  assumes "env_ok e" and "fb_options opts fb_defaults = Ok p" and "fb_source e p = Ok (q, src, skip)"
    and "bitdepth q \<in> {16, 24, 32}" and "bitdepth q \<noteq> 16 \<longrightarrow> src_within (bitdepth q div 8) src"
    and "0 < width q" "0 < height q" and "4 * (width q * height q) < 2 ^ 31" and "width q \<le> 1000000" "height q \<le> 1000000"
    and "data = read_at e (infile q) skip (nat (width q * height q * (bitdepth q div 8)))"
    and "length data = nat (width q * height q * (bitdepth q div 8))"
  shows "\<exists>w' img. fbgrab_main e opts 1 outfile w = Ok (0, w') \<and> active_vt w' = active_vt w \<and> png_file w' = Some img \<and>
           png_name img = outfile \<and> png_width img = width q \<and> png_height img = height q \<and> png_bit_depth img = 8 \<and>
           png_rgb_alpha img \<and> png_interlace img = interlace q \<and>
           (\<forall>x y. x < nat (width q) \<and> y < nat (height q) \<longrightarrow>
              png_rgba img x y = screen_rgba (bitdepth q) src data (y * nat (width q) + x))"
proof -
  let ?N = "nat (width q * height q)"
  have pos: "0 \<le> width q * height q" using assms(6,7) by simp
  have wide: "4 * (width q * height q) < 2 ^ 32" using assms(8) by simp
  have b: "u32 (bitdepth q) div 8 = nat (bitdepth q div 8)" "1 \<le> bitdepth q div 8" "bitdepth q div 8 \<le> 4"
    using assms(4) by (auto simp: u32_def)
  have "width q * height q * (bitdepth q div 8) \<le> width q * height q * 4" using pos b(3) by (rule mult_left_mono [rotated])
  then have le: "0 \<le> width q * height q * (bitdepth q div 8)" "width q * height q * (bitdepth q div 8) < 2 ^ 32"
    using wide pos b(2) by (simp, linarith)
  have small: "width q * height q < 2 ^ 31" using assms(8) pos by (simp add: mult.commute)
  have n: "fb_buf_size (width q) (height q) (bitdepth q) = Some (nat (width q * height q * (bitdepth q div 8)))"
    using small pos le b by (simp add: fb_buf_size_def fits_int_def u32_small)
  have len: "length (replicate (4 * ?N) (0::u8)) = 4 * ?N" by simp
  have d: "length data = nat (bitdepth q div 8) * ?N" using assms(12) pos by (simp add: nat_mult_distrib mult.commute)
  have h0: "0 \<le> width q" "0 \<le> height q" using assms(6,7) by simp_all
  note c = h0 wide _ len
  have conv: "write_PNG e (concat (map (pixel_of (bitdepth q) src data) [0..<?N])) outfile (width q) (height q) (interlace q) (back_again p w) =
     convert_and_write e src data outfile (width q) (height q) (bitdepth q) (interlace q) (back_again p w)"
    using assms(4)
  proof (elim insertE emptyE)
    assume s: "bitdepth q = 16"
    then show ?thesis using convert565_ok [OF c, of data] d assms(1) bufsize_small [OF h0 wide]
      by (simp add: convert_and_write_def env_ok_def defined_or_def pixel_of_def)
  next
    assume s: "bitdepth q = 24"
    then show ?thesis using convert888_ok [OF c, of data src] d assms(1,5) bufsize_small [OF h0 wide]
      by (simp add: convert_and_write_def env_ok_def defined_or_def pixel_of_def)
  next
    assume s: "bitdepth q = 32"
    then show ?thesis using convert8888_ok [OF c, of data src] d assms(1,5) bufsize_small [OF h0 wide]
      by (simp add: convert_and_write_def env_ok_def defined_or_def pixel_of_def)
  qed
  show ?thesis
    using main_ok [OF assms(1-3) n, of outfile w] assms(12) picture_rgba
      write_PNG_picture [OF assms(1,7,10,6,9,8), of "pixel_of (bitdepth q) src data" outfile "interlace q" "back_again p w"]
    unfolding assms(11) [symmetric] conv [symmetric] by (simp add: back_again_def)
qed

definition demo_env :: fb_env where
  "demo_env = \<lparr>console_opens = True, vt_ok = (\<lambda>_. True),
     screeninfo = (\<lambda>_. Some \<lparr>fb_xres = 2, fb_yres = 1, fb_yoffset = 0, fb_bpp = 16, fb_red = 11, fb_green = 5, fb_blue = 0,
       fb_transp = 0, fb_transp_length = 0\<rparr>),
     opens = (\<lambda>_. True), read_at = (\<lambda>_ _ n. take n [0x1F, 0, 0, 0xF8]), malloc_ok = (\<lambda>_. True),
     getenv_FRAMEBUFFER = None, creates = (\<lambda>_. True), png_starts = True,
     png_accepts = (\<lambda>w h. 0 < w \<and> w \<le> 1000000 \<and> 0 < h \<and> h \<le> 1000000)\<rparr>"

definition demo_world :: fb_world where
  "demo_world = \<lparr>active_vt = 1, switches = [], png_file = None\<rparr>"

theorem fbgrab_screenshot_witness:
  "\<exists>w' img. fbgrab_main demo_env [] 1 ''a.png'' demo_world = Ok (0, w') \<and> png_file w' = Some img \<and>
     png_rgba img 0 0 = [0, 0, 0xF8, 255] \<and> png_rgba img 1 0 = [0xF8, 0, 0, 255]"
proof -
  define q where "q = fb_defaults\<lparr>bitdepth := 16, width := 2, height := 1, infile := ''/dev/fb0''\<rparr>"
  define src where "src = \<lparr>srcBlue = 0, srcGreen = 0, srcRed = 1, srcAlpha = - 1\<rparr>"
  have q: "bitdepth q = 16" "width q = 2" "height q = 1" "infile q = ''/dev/fb0''" by (simp_all add: q_def)
  have o: "fb_options [] fb_defaults = Ok fb_defaults" by simp
  have s: "fb_source demo_env fb_defaults = Ok (q, src, 0)"
    by (simp add: fb_source_def fb_defaults_def demo_env_def get_framebufferdata_def signed32_def q_def src_def)
  have ok: "env_ok demo_env" by (simp add: env_ok_def demo_env_def)
  have d: "read_at demo_env (infile q) 0 (nat (width q * height q * (bitdepth q div 8))) = [0x1F, 0, 0, 0xF8]"
    by (simp add: demo_env_def q)
  have "screen_rgba 16 src [0x1F, 0, 0, 0xF8] 0 = [0, 0, 0xF8, 255]" "screen_rgba 16 src [0x1F, 0, 0, 0xF8] 1 = [0xF8, 0, 0, 255]"
    by (simp_all add: screen_rgba_def)
  then show ?thesis
    using fbgrab_screenshot [OF ok o s, of "[0x1F, 0, 0, 0xF8]" "''a.png''" demo_world] d by (force simp: q)
qed

section \<open>Fifteen bits\<close>

lemma rounds_add: "rounds s body i (a + b) st = Option.bind (rounds s body i a st) (rounds s body (i + s * a) b)"
proof (induction a arbitrary: i st)
  case (Suc a)
  then show ?case by (cases "body i st") (simp_all add: algebra_simps)
qed simp

lemma convert1555_short:
  assumes "0 \<le> w" "0 \<le> h" and "4 * (w * h) < 2 ^ 32" and "length inb = nat (w * h)" and "0 < w * h"
  shows "convert1555to32 w h inb out = None"
proof -
  let ?N = "nat (w * h)"
  define body where "body = (\<lambda>i out.
       Option.bind (fetch inb i) (\<lambda>lo. Option.bind (fetch inb (i + 1)) (\<lambda>hi.
         put_pixel (u32 (2 * int i)) (push_bit 1 (hi AND 0x7C))
           (push_bit 3 (push_bit 3 (hi AND 0x3) OR drop_bit 5 (lo AND 0xE0))) (push_bit 3 (lo AND 0x1F)) 0 out)))"
  have fail: "body (2 * (?N div 2)) o' = None" for o'
    by (cases "even ?N") (auto simp: body_def fetch_def assms(4) bind_eq_None_conv)
  have N: "?N = ?N div 2 + (?N - ?N div 2)" "0 < ?N - ?N div 2" using assms(5) by auto
  have "convert1555to32 w h inb out = rounds 2 body 0 ?N out"
    unfolding convert1555to32_def c_for_def u32_count(1) [OF assms(1-3)] body_def ..
  also have "\<dots> = Option.bind (rounds 2 body 0 (?N div 2) out) (rounds 2 body (0 + 2 * (?N div 2)) (?N - ?N div 2))"
    using rounds_add [of 2 body 0 "?N div 2" "?N - ?N div 2" out] N(1) by simp
  also have "\<dots> = None"
    using rounds_fail [where body = body and i = "2 * (?N div 2)" and s = 2, OF fail N(2)] by (cases "rounds 2 body 0 (?N div 2) out") simp_all
  finally show ?thesis .
qed

text \<open>With 15 bits a pixel the buffer has one byte a pixel, but the conversion reads two: every grab of a screen that
  is not empty reads behind the buffer.\<close>

theorem fbgrab_15_bits_overread:
  assumes "env_ok e" and "fb_options opts fb_defaults = Ok p" and "fb_source e p = Ok (q, src, skip)"
    and "bitdepth q = 15" and "0 < width q" "0 < height q" and "4 * (width q * height q) < 2 ^ 32"
    and "length (read_at e (infile q) skip (nat (width q * height q))) = nat (width q * height q)"
  shows "fbgrab_main e opts 1 outfile w = Undef"
proof -
  have pos: "0 < width q * height q" using assms(5,6) by simp
  have small: "width q * height q < 2 ^ 31" using assms(7) pos by (simp add: mult.commute)
  have n: "fb_buf_size (width q) (height q) (bitdepth q) = Some (nat (width q * height q))"
    using small pos assms(4) by (simp add: fb_buf_size_def fits_int_def u32_def)
  have "convert1555to32 (width q) (height q) (read_at e (infile q) skip (nat (width q * height q))) out = None" for out
    by (rule convert1555_short) (use assms(5-8) pos in simp_all)
  then show ?thesis
    using main_ok [OF assms(1-3) n, of outfile w] assms(1,4,8) by (simp add: convert_and_write_def env_ok_def defined_or_def)
qed

theorem fbgrab_15_bits_overread_witness:
  "fbgrab_main demo_env [(CHR ''b'', ''15'')] 1 ''a.png'' demo_world = Undef"
proof -
  define q where "q = fb_defaults\<lparr>bitdepth := 15, width := 2, height := 1, infile := ''/dev/fb0''\<rparr>"
  define src where "src = \<lparr>srcBlue = 0, srcGreen = 0, srcRed = 1, srcAlpha = - 1\<rparr>"
  have o: "fb_options [(CHR ''b'', ''15'')] fb_defaults = Ok (fb_defaults\<lparr>bitdepth := 15\<rparr>)"
    by (simp add: fb_option_def atoi_def isspace_def c_digits_def isdigit_def signed32_def)
  have s: "fb_source demo_env (fb_defaults\<lparr>bitdepth := 15\<rparr>) = Ok (q, src, 0)"
    by (simp add: fb_source_def fb_defaults_def demo_env_def get_framebufferdata_def signed32_def q_def src_def)
  have ok: "env_ok demo_env" by (simp add: env_ok_def demo_env_def)
  show ?thesis by (rule fbgrab_15_bits_overread [OF ok o s]) (simp_all add: q_def demo_env_def)
qed

end
