(* ===== verification/Bmp.thy ===== *)
theory Bmp
  imports Fbgrab
begin

text \<open>
  Bitmap files: \<^verbatim>\<open>test_framebuffer/test_fd_app1.c\<close> saves the framebuffer as a bitmap, its rows from the last to the
  first, and \<^verbatim>\<open>show_bmp\<close> of \<^verbatim>\<open>test_framebuffer/test_fb_app.c\<close> copies the rows of a bitmap back to the
  framebuffer. The main program of that file has its call of \<^verbatim>\<open>show_bmp\<close>, and those of the two functions
  for the terminal, under \<^verbatim>\<open>#if 0\<close>: they are functions of the file that \<open>fb_app_main\<close> does not run. A file is
  a list of bytes; \<open>None\<close> is an access outside a buffer, an overflow of a signed number, or a loop without
  end. The machine is little endian; the size of a \<^verbatim>\<open>long\<close>, which is 4 on 32-bit Linux and 8 on 64-bit
  Linux, is a parameter, because the header that is written has fields of this type.
\<close>

section \<open>Little-endian fields\<close>

definition le_field :: "nat \<Rightarrow> int \<Rightarrow> bytes" where
  "le_field n v = map (\<lambda>i. word_of_int (v div 256 ^ i)) [0..<n]"

definition le_number :: "bytes \<Rightarrow> int" where
  "le_number bs = foldr (\<lambda>b n. uint b + 256 * n) bs 0"

section \<open>Saving the screen\<close>

record bmp_head =
  bfType :: int
  bfSize :: int
  bfOffBits :: int
  biWidth :: int
  biHeight :: int
  biBitCount :: int

text \<open>
  The two packed structures as they are written; the other fields are constants. Four fields of the
  second have the type \<^verbatim>\<open>long\<close>, of \<open>l\<close> bytes: only with 4 of them is it the 40-byte header of a bitmap.
\<close>

definition file_head_bytes :: "bmp_head \<Rightarrow> bytes" where
  "file_head_bytes b = le_field 2 (bfType b) @ le_field 4 (bfSize b) @ le_field 2 0 @ le_field 2 0 @ le_field 4 (bfOffBits b)"

definition info_head_size :: "nat \<Rightarrow> nat" where
  "info_head_size l = 24 + 4 * l"

definition info_head_bytes :: "nat \<Rightarrow> bmp_head \<Rightarrow> bytes" where
  "info_head_bytes l b = le_field 4 (int (info_head_size l)) @ le_field l (biWidth b) @ le_field l (biHeight b) @ le_field 2 1 @
     le_field 2 (biBitCount b) @ le_field 4 0 @ le_field 4 0 @ le_field l 0 @ le_field l 0 @ le_field 4 0 @ le_field 4 0"

text \<open>The system: the size of a \<^verbatim>\<open>long\<close>, the framebuffer, the bytes it delivers, the contents of fresh memory, and the image file.\<close>

record bmp_env =
  long_size :: nat
  fb_opens :: bool
  fb_var :: "fb_var_screeninfo option"
  img_opens :: bool
  have_heap :: bool
  fb_bytes :: bytes
  heap :: "nat \<Rightarrow> bytes"

definition bmp_data_size :: "fb_var_screeninfo \<Rightarrow> int" where
  "bmp_data_size v = sint (fb_xres v * fb_yres v * (fb_bpp v div 8))"

text \<open>A file that is opened without truncation keeps what lies behind the bytes written.\<close>

definition overwrite :: "bytes \<Rightarrow> bytes \<Rightarrow> bytes" where
  "overwrite new old = new @ drop (length new) old"

text \<open>The loop over the rows, from the last one.\<close>

fun save_rows :: "fb_var_screeninfo \<Rightarrow> bytes \<Rightarrow> nat \<Rightarrow> nat \<Rightarrow> bytes \<Rightarrow> bytes option" where
  "save_rows v buf i 0 out = Some out"
| "save_rows v buf i (Suc k) out =
     Option.bind (mem_read buf (unat (fb_xres v * (fb_yres v - of_nat i - 1) * (fb_bpp v div 8)))
                               (unat (fb_xres v * (fb_bpp v div 8))))
       (\<lambda>row. save_rows v buf (i + 1) k (out @ row))"

definition fd_app1_main :: "bmp_env \<Rightarrow> nat \<Rightarrow> bytes \<Rightarrow> (int \<times> bytes) option" where
  "fd_app1_main e argc old =
     (if argc \<noteq> 2 then Some (- 1, old)
      else if \<not> fb_opens e then Some (- 1, old)
      else case fb_var e of
        None \<Rightarrow> Some (0, old)
      | Some v \<Rightarrow>
          if \<not> img_opens e then Some (- 1, old)
          else
            let data_size = bmp_data_size v;
                hd = int (14 + info_head_size (long_size e));
                b = \<lparr>bfType = 0x4D42, bfSize = hd + data_size, bfOffBits = hd, biWidth = uint (fb_xres v),
                     biHeight = uint (fb_yres v), biBitCount = uint (fb_bpp v)\<rparr>
            in if \<not> have_heap e \<or> data_size < 0 then Some (- 1, old)
               else
                 let n = nat data_size;
                     got = take n (fb_bytes e);
                     buf = got @ drop (length got) (heap e n)
                 in map_option (\<lambda>out. (0, overwrite out old))
                      (save_rows v buf 0 (unat (fb_yres v)) (file_head_bytes b @ info_head_bytes (long_size e) b)))"

section \<open>Showing a bitmap\<close>

definition chartolong :: "bytes \<Rightarrow> int" where
  "chartolong bs = le_number bs"

text \<open>The screen of the program: its size in pixels, the bits of a pixel, and its memory.\<close>

record fb_screen =
  scr_xres :: int
  scr_bpp :: int
  fbp :: bytes

abbreviation (input) TMP_SIZE :: nat where "TMP_SIZE \<equiv> 10240"

text \<open>The loop over the lines of the file. \<open>fread\<close> delivers what is left, at most a line.\<close>

function show_lines :: "fb_screen \<Rightarrow> int \<Rightarrow> int \<Rightarrow> int \<Rightarrow> bytes \<Rightarrow> fb_screen option" where
  "show_lines s ciHeight line_y BytesPerLine rest =
     (let got = (if BytesPerLine < 0 then rest else take (nat BytesPerLine) rest) in
      if TMP_SIZE < length got then None
      else if int (length got) \<noteq> BytesPerLine then Some s
      else if BytesPerLine = 0 then None
      else
        let location = cdiv ((ciHeight - line_y - 1) * scr_xres s * scr_bpp s) 8
        in if location < 0 \<or> \<not> fits_int ((ciHeight - line_y - 1) * scr_xres s * scr_bpp s) then None
           else
             Option.bind (mem_write (fbp s) (nat location) got) (\<lambda>m.
               show_lines (s\<lparr>fbp := m\<rparr>) ciHeight (line_y + 1) BytesPerLine (drop (length got) rest)))"
  by pat_completeness auto
termination
  by (relation "measure (\<lambda>(s, h, y, n, rest). length rest)") (auto split: if_splits simp: min_def)

declare show_lines.simps [simp del]

definition show_bmp :: "bytes option \<Rightarrow> fb_screen \<Rightarrow> (int \<times> fb_screen) option" where
  "show_bmp bmpfile s =
     (case bmpfile of
        None \<Rightarrow> Some (- 1, s)
      | Some f \<Rightarrow>
          if length f < 14 then Some (- 2, s)
          else if take 2 f \<noteq> [0x42, 0x4D] then Some (- 3, s)
          else if length f < 14 + 40 then Some (- 4, s)
          else
            let info = take 40 (drop 14 f);
                ciWidth = signed32 (chartolong (take 4 (drop 4 info)));
                ciHeight = signed32 (chartolong (take 4 (drop 8 info)));
                ciBitCount = signed32 (chartolong (take 4 (drop 14 info)))
            in if \<not> fits_int (ciWidth * ciBitCount + 31) then None
               else
                 let BytesPerLine = cdiv (ciWidth * ciBitCount + 31) 32 * 4
                 in map_option (\<lambda>s. (0, s)) (show_lines s ciHeight 0 BytesPerLine (drop (14 + 40) f)))"

section \<open>The terminal and the main program\<close>

datatype kd_mode = KD_TEXT | KD_GRAPHICS | KD_OTHER int

text \<open>What the system calls on the terminal return, the mode of the terminal, and the mode that was saved.\<close>

record tty_env =
  tty_opens :: bool
  getmode_ok :: bool
  setmode_ok :: bool

record tty_state =
  tty_mode :: kd_mode
  tty_mode_was :: kd_mode

definition set_tty_graphics :: "tty_env \<Rightarrow> tty_state \<Rightarrow> int \<times> tty_state" where
  "set_tty_graphics e t =
     (if \<not> tty_opens e then (0, t)
      else if \<not> getmode_ok e then (0, t)
      else
        let t1 = t\<lparr>tty_mode_was := tty_mode t\<rparr>
        in if tty_mode_was t1 \<noteq> KD_GRAPHICS \<and> \<not> setmode_ok e then (0, t1)
           else (1, if tty_mode_was t1 \<noteq> KD_GRAPHICS then t1\<lparr>tty_mode := KD_GRAPHICS\<rparr> else t1))"

definition set_tty_text :: "tty_env \<Rightarrow> tty_state \<Rightarrow> int \<times> tty_state" where
  "set_tty_text e t =
     (if \<not> tty_opens e then (0, t)
      else if \<not> setmode_ok e then (0, t)
      else (1, t\<lparr>tty_mode := tty_mode_was t\<rparr>))"

lemma tty_restored:
  "set_tty_graphics e t = (1, t1) \<Longrightarrow> set_tty_text e t1 = (1, t2) \<Longrightarrow> tty_mode t1 = KD_GRAPHICS \<and> tty_mode t2 = tty_mode t"
  by (auto simp: set_tty_graphics_def set_tty_text_def Let_def split: if_splits)

text \<open>The main program only maps and unmaps the framebuffer, because what it would do in between is under \<^verbatim>\<open>#if 0\<close>; \<open>Inl\<close> is the status of an early exit. The test of the
  descriptor misses the \<^verbatim>\<open>-1\<close> of a failed \<^verbatim>\<open>open\<close>, so the next call fails instead.\<close>

record fb_app_env =
  app_open :: int
  fix_ok :: bool
  app_var :: "fb_var_screeninfo option"
  mmap_ok :: "int \<Rightarrow> bool"

definition fb_app_main :: "fb_app_env \<Rightarrow> int + int" where
  "fb_app_main e =
     (if app_open e = 0 then Inl 1
      else if app_open e < 0 \<or> \<not> fix_ok e then Inl 2
      else case app_var e of
        None \<Rightarrow> Inl 3
      | Some v \<Rightarrow>
          let screensize = uint (fb_xres v * fb_yres v * fb_bpp v div 8)
          in if \<not> mmap_ok e screensize then Inl 4 else Inr 0)"

section \<open>Fields\<close>

lemma length_le_field [simp]: "length (le_field n v) = n"
  by (simp add: le_field_def)

lemma le_field_Suc: "le_field (Suc n) v = word_of_int v # le_field n (v div 256)"
proof -
  have "[0..<Suc n] = 0 # map Suc [0..<n]" by (metis map_Suc_upt upt_conv_Cons zero_less_Suc)
  then show ?thesis by (simp add: le_field_def zdiv_zmult2_eq)
qed

lemma le_number_field: "0 \<le> v \<Longrightarrow> le_number (le_field n v) = v mod 256 ^ n"
proof (induction n arbitrary: v)
  case 0
  then show ?case by (simp add: le_number_def le_field_def)
next
  case (Suc n)
  have "le_number (le_field (Suc n) v) = v mod 256 + 256 * le_number (le_field n (v div 256))"
    by (simp add: le_field_Suc le_number_def uint_word_of_int)
  then show ?case using Suc by (simp add: pos_imp_zdiv_nonneg_iff zmod_zmult2_eq)
qed

lemma le_number_append0: "le_number (bs @ replicate n 0) = le_number bs"
proof -
  have "le_number (replicate n 0) = 0" by (induction n) (simp_all add: le_number_def)
  then show ?thesis by (simp add: le_number_def)
qed

lemma magic_field: "le_field 2 0x4D42 = [0x42, 0x4D]"
  by (simp add: le_field_def upt_rec)

lemma head_lengths [simp]: "length (file_head_bytes b) = 14" "length (info_head_bytes l b) = info_head_size l"
  by (simp_all add: file_head_bytes_def info_head_bytes_def info_head_size_def)

lemma le_field_zero: "le_field n 0 = replicate n 0"
  by (simp add: le_field_def map_replicate_const)

lemma le_field_wide:
  assumes "0 \<le> v" and "v < 256 ^ k"
  shows "le_field (k + n) v = le_field k v @ replicate n 0"
  using assms
proof (induction k arbitrary: v)
  case 0
  then have "v = 0" by simp
  then show ?case by (simp add: le_field_zero)
next
  case (Suc k)
  have "v div 256 < 256 ^ k" using Suc.prems by (simp add: div_less_iff_less_mult mult.commute)
  then show ?case using Suc by (simp add: le_field_Suc pos_imp_zdiv_nonneg_iff)
qed

text \<open>
  The fields of the header that the other program reads; the number of bits is read with the two bytes
  behind it. With longer fields it finds parts of them in these places: nothing of the height and of the
  number of bits.
\<close>

lemma info_fields:
  shows "take 4 (drop 4 (info_head_bytes 4 b)) = le_field 4 (biWidth b)"
    and "take 4 (drop 8 (info_head_bytes 4 b)) = le_field 4 (biHeight b)"
    and "take 4 (drop 14 (info_head_bytes 4 b)) = le_field 2 (biBitCount b) @ replicate 2 0"
proof -
  show "take 4 (drop 14 (info_head_bytes 4 b)) = le_field 2 (biBitCount b) @ replicate 2 0"
    by (simp add: info_head_bytes_def le_field_zero)
qed (simp_all add: info_head_bytes_def)

lemma info_fields_wide:
  assumes "0 \<le> biWidth b" "biWidth b < 256 ^ 4" "0 \<le> biHeight b" "biHeight b < 256 ^ 2"
  shows "take 4 (drop 4 (info_head_bytes 8 b)) = le_field 4 (biWidth b)"
    and "take 4 (drop 8 (info_head_bytes 8 b)) = replicate 4 0"
    and "take 4 (drop 14 (info_head_bytes 8 b)) = replicate 4 0"
proof -
  have "info_head_bytes 8 b = le_field 4 56 @ (le_field 4 (biWidth b) @ replicate 4 0) @ (le_field 2 (biHeight b) @ replicate 6 0) @
      drop 20 (info_head_bytes 8 b)"
    using le_field_wide [OF assms(1,2), of 4] le_field_wide [OF assms(3,4), of 6]
    by (simp add: info_head_bytes_def info_head_size_def)
  then obtain r where "info_head_bytes 8 b = le_field 4 56 @ (le_field 4 (biWidth b) @ replicate 4 0) @
      (le_field 2 (biHeight b) @ replicate 6 0) @ r" by blast
  then show "take 4 (drop 4 (info_head_bytes 8 b)) = le_field 4 (biWidth b)"
    and "take 4 (drop 8 (info_head_bytes 8 b)) = replicate 4 0"
    and "take 4 (drop 14 (info_head_bytes 8 b)) = replicate 4 0"
    by simp_all
qed

section \<open>Rows\<close>

abbreviation row :: "nat \<Rightarrow> bytes \<Rightarrow> nat \<Rightarrow> bytes" where
  "row n scr y \<equiv> take n (drop (y * n) scr)"

text \<open>What \<open>save_rows\<close> writes, and what \<open>show_lines\<close> does with it.\<close>

lemma save_rows_ok:
  assumes v: "X = unat (fb_xres v)" "Y = unat (fb_yres v)" "B = unat (fb_bpp v div 8)"
    and len: "length buf = X * Y * B" and small: "X * Y * B < 2 ^ 32" and "i + k = Y"
  shows "save_rows v buf i k out = Some (out @ concat (map (\<lambda>j. row (X * B) buf (Y - 1 - j)) [i..<Y]))"
  using assms(6)
proof (induction k arbitrary: i out)
  case 0
  then show ?case by simp
next
  case (Suc k)
  have w: "fb_xres v = of_nat X" "fb_yres v - of_nat i - 1 = of_nat (Y - 1 - i)" "fb_bpp v div 8 = of_nat B"
    using Suc.prems by (simp_all add: v)
  have le: "X * (Y - 1 - i) * B + X * B \<le> X * Y * B"
  proof -
    have "Y - 1 - i + 1 \<le> Y" using Suc.prems by simp
    then have "X * B * (Y - 1 - i + 1) \<le> X * B * Y" by (rule mult_le_mono2)
    then show ?thesis by (simp add: algebra_simps)
  qed
  have u: "unat (of_nat n :: u32) = n" if "n < 2 ^ 32" for n
    using that by (simp add: unsigned_of_nat take_bit_nat_eq_self)
  have "fb_xres v * (fb_yres v - of_nat i - 1) * (fb_bpp v div 8) = of_nat (X * (Y - 1 - i) * B)"
    "fb_xres v * (fb_bpp v div 8) = of_nat (X * B)" unfolding w by simp_all
  then have "unat (fb_xres v * (fb_yres v - of_nat i - 1) * (fb_bpp v div 8)) = (Y - 1 - i) * (X * B)"
    "unat (fb_xres v * (fb_bpp v div 8)) = X * B"
    using le small u [of "X * (Y - 1 - i) * B"] u [of "X * B"] by (simp_all add: algebra_simps)
  then have "save_rows v buf i (Suc k) out = save_rows v buf (i + 1) k (out @ row (X * B) buf (Y - 1 - i))"
    using le len by (simp add: mem_read_def algebra_simps)
  also have "\<dots> = Some ((out @ row (X * B) buf (Y - 1 - i)) @ concat (map (\<lambda>j. row (X * B) buf (Y - 1 - j)) [i + 1..<Y]))"
    by (rule Suc.IH) (use Suc.prems in simp)
  finally show ?case using Suc.prems by (simp add: upt_conv_Cons)
qed

lemma fits_int_nat: "8 * n < 2 ^ 31 \<Longrightarrow> fits_int (8 * int n)"
  by (simp add: fits_int_def)

lemma show_lines_ok:
  assumes XB: "0 < XB" "XB \<le> TMP_SIZE" and len: "length scr = Y * XB" "length m = Y * XB"
    and scr: "scr_xres s * scr_bpp s = 8 * int XB" and small: "8 * (Y * XB) < 2 ^ 31"
    and "y \<le> Y" and "fbp s = take ((Y - y) * XB) m @ drop ((Y - y) * XB) scr"
  shows "show_lines s (int Y) (int y) (int XB) (concat (map (\<lambda>j. row XB scr (Y - 1 - j)) [y..<Y])) = Some (s\<lparr>fbp := scr\<rparr>)"
  using assms(5,7,8)
proof (induction "Y - y" arbitrary: y s)
  case 0
  then show ?case using XB by (subst show_lines.simps) simp
next
  case (Suc d)
  define r where "r = row XB scr (Y - 1 - y)"
  define rest where "rest = concat (map (\<lambda>j. row XB scr (Y - 1 - j)) [Suc y..<Y])"
  have yY: "y < Y" using Suc(2) by simp
  have d: "Y - 1 - y = d" "Y - y = Suc d" "Y - Suc y = d" "int Y - int y - 1 = int d" using Suc(2) by simp_all
  have dXB: "d * XB + XB \<le> Y * XB" using d(2) yY by (metis diff_le_self mult_Suc mult_le_mono1 add.commute)
  have lr: "length r = XB" using dXB len(1) unfolding r_def d(1) by simp
  have all: "concat (map (\<lambda>j. row XB scr (Y - 1 - j)) [y..<Y]) = r @ rest" using yY by (simp add: upt_conv_Cons r_def rest_def)
  have p: "(int Y - int y - 1) * scr_xres s * scr_bpp s = 8 * int (d * XB)"
    using Suc.prems(1) by (simp add: d(4) mult.assoc)
  have "8 * (d * XB) < 2 ^ 31" using dXB small by linarith
  then have fit: "fits_int (8 * int (d * XB))" by (rule fits_int_nat)
  have loc: "cdiv (8 * int (d * XB)) 8 = int (d * XB)" by (cases "d * XB = 0") (simp_all add: cdiv_def)
  have scr_split: "drop (d * XB) scr = r @ drop (Suc d * XB) scr"
    unfolding r_def d(1) using append_take_drop_id [of XB "drop (d * XB) scr"] by (simp add: add.commute)
  have m_len: "d * XB \<le> length m" "length (take (Suc d * XB) m) = Suc d * XB" using dXB unfolding len(2) by (linarith, simp add: len(2))
  have w: "mem_write (fbp s) (d * XB) r = Some (take (d * XB) m @ drop (d * XB) scr)"
    using m_len dXB lr len Suc.prems(3) unfolding scr_split d(2) mem_write_def by (simp add: add.commute)
  have "show_lines (s\<lparr>fbp := take (d * XB) m @ drop (d * XB) scr\<rparr>) (int Y) (int (Suc y)) (int XB) rest =
      Some ((s\<lparr>fbp := take (d * XB) m @ drop (d * XB) scr\<rparr>)\<lparr>fbp := scr\<rparr>)"
    unfolding rest_def by (rule Suc(1)) (use d yY Suc.prems(1) in simp_all)
  then show ?case
    unfolding all by (subst show_lines.simps) (use XB in \<open>simp add: lr p loc fit w Let_def add.commute del: of_nat_mult\<close>)
qed

section \<open>Saving and showing\<close>

lemma sint_of_nat_small: "n < 2 ^ 31 \<Longrightarrow> sint (of_nat n :: u32) = int n"
  by (simp add: signed_of_nat signed_take_bit_int_eq_self)

definition saved :: "nat \<Rightarrow> nat \<Rightarrow> nat \<Rightarrow> nat \<Rightarrow> bytes \<Rightarrow> bytes" where
  "saved l X Y B scr =
     (let hd = int (14 + info_head_size l);
          b = \<lparr>bfType = 0x4D42, bfSize = hd + int (Y * (X * B)), bfOffBits = hd, biWidth = int X, biHeight = int Y,
               biBitCount = 8 * int B\<rparr>
      in file_head_bytes b @ info_head_bytes l b @ concat (map (\<lambda>j. row (X * B) scr (Y - 1 - j)) [0..<Y]))"

lemma fd_app1_saves:
  assumes "fb_opens e" "img_opens e" "have_heap e" and v: "fb_var e = Some v" and heap: "\<And>n. length (heap e n) = n"
    and dims: "X = unat (fb_xres v)" "Y = unat (fb_yres v)" "B = unat (fb_bpp v) div 8" and bpp: "uint (fb_bpp v) = 8 * int B"
    and small: "8 * (Y * (X * B)) < 2 ^ 31" and len: "length (fb_bytes e) = Y * (X * B)"
  shows "fd_app1_main e 2 old = Some (0, overwrite (saved (long_size e) X Y B (fb_bytes e)) old)"
proof -
  let ?n = "Y * (X * B)"
  have u: "unat (fb_bpp v div 8) = B" by (simp add: dims unat_div)
  have "fb_bpp v div 8 = of_nat B" using u by auto
  then have w: "fb_xres v * fb_yres v * (fb_bpp v div 8) = of_nat ?n" by (simp add: dims(1,2) mult.commute mult.left_commute)
  have size: "bmp_data_size v = int ?n" unfolding bmp_data_size_def w by (rule sint_of_nat_small) (use small in linarith)
  have "save_rows v (fb_bytes e) 0 Y out = Some (out @ concat (map (\<lambda>j. row (X * B) (fb_bytes e) (Y - 1 - j)) [0..<Y]))" for out
    by (rule save_rows_ok [OF dims(1,2)]) (use u len small in \<open>simp_all add: mult.commute mult.left_commute\<close>)
  moreover have xy: "uint (fb_xres v) = int X" "uint (fb_yres v) = int Y" by (simp_all add: dims)
  ultimately show ?thesis
    using assms(1-3) v len heap [of ?n] xy dims(2) [symmetric]
    by (simp add: fd_app1_main_def size saved_def Let_def bpp del: of_nat_mult)
qed

lemma show_bmp_saved:
  assumes "0 < X" "0 < Y" and B: "B \<in> {1, 2, 3, 4}" and "X * B \<le> TMP_SIZE" "4 dvd X * B" and small: "8 * (Y * (X * B)) < 2 ^ 31"
    and "length scr = Y * (X * B)"
    and "scr_xres s = int X" "scr_bpp s = 8 * int B" "length (fbp s) = Y * (X * B)"
  shows "show_bmp (Some (saved 4 X Y B scr)) s = Some (0, s\<lparr>fbp := scr\<rparr>)"
proof -
  define XB where "XB = X * B"
  define b where "b = \<lparr>bfType = 0x4D42, bfSize = int (14 + info_head_size 4) + int (Y * XB), bfOffBits = int (14 + info_head_size 4), biWidth = int X, biHeight = int Y,
     biBitCount = 8 * int B\<rparr>"
  define body where "body = concat (map (\<lambda>j. row XB scr (Y - 1 - j)) [0..<Y])"
  have f: "saved 4 X Y B scr = file_head_bytes b @ info_head_bytes 4 b @ body" by (simp add: saved_def b_def body_def XB_def Let_def)
  have XB: "0 < XB" "X \<le> XB" "XB \<le> Y * XB" "Y \<le> Y * XB" using assms(1,2) B by (auto simp: XB_def)
  have "n < 2 ^ 28" if "8 * n < 2 ^ 31" for n :: nat using that by simp
  then have "Y * XB < 2 ^ 28" using small unfolding XB_def .
  then have lt: "X < 2 ^ 28" "Y < 2 ^ 28" "XB < 2 ^ 28" using XB by linarith+
  have n: "le_number (le_field 4 (int X)) = int X" "le_number (le_field 4 (int Y)) = int Y"
    using lt by (simp_all add: le_number_field)
  have nb: "le_number (le_field 2 (8 * int B) @ replicate 2 0) = 8 * int B"
    unfolding le_number_append0 using B by (auto simp: le_number_field)
  have s: "signed32 (int X) = int X" "signed32 (int Y) = int Y" "signed32 (8 * int B) = 8 * int B"
    using lt B by (auto simp: signed32_def)
  have magic: "take 2 (saved 4 X Y B scr) = [0x42, 0x4D]" by (simp add: f file_head_bytes_def b_def magic_field)
  obtain q where q: "XB = 4 * q" using assms(5) unfolding XB_def by (auto elim: dvdE)
  have "int X * (8 * int B) = 8 * int (X * B)" by simp
  then have e: "int X * (8 * int B) = 32 * int q" using q unfolding XB_def by linarith
  have bpl: "cdiv (int X * (8 * int B) + 31) 32 * 4 = int XB" "fits_int (int X * (8 * int B) + 31)"
    unfolding e using lt(3) by (simp_all add: q cdiv_def fits_int_def sgn_if)
  have lines: "show_lines s (int Y) (int 0) (int XB) body = Some (s\<lparr>fbp := scr\<rparr>)"
    unfolding body_def
    by (rule show_lines_ok [where m = "fbp s"]) (use XB assms in \<open>simp_all add: XB_def mult.commute\<close>)
  show ?thesis
    using lines magic bpl unfolding show_bmp_def
    by (simp add: f Let_def chartolong_def info_fields b_def n nb s info_head_size_def)
qed

text \<open>With eight-byte fields a line has no bytes for the reader, which then never comes to the end of the file.\<close>

lemma show_bmp_wide:
  assumes "int X < 256 ^ 4" "int Y < 256 ^ 2"
  shows "show_bmp (Some (saved 8 X Y B scr)) s = None"
proof -
  define b where "b = \<lparr>bfType = 0x4D42, bfSize = 70 + int (Y * (X * B)), bfOffBits = 70, biWidth = int X, biHeight = int Y,
     biBitCount = 8 * int B\<rparr>"
  define body where "body = concat (map (\<lambda>j. row (X * B) scr (Y - 1 - j)) [0..<Y])"
  have f: "saved 8 X Y B scr = file_head_bytes b @ info_head_bytes 8 b @ body"
    by (simp add: saved_def b_def body_def Let_def info_head_size_def)
  have fields: "take 4 (drop 8 (info_head_bytes 8 b)) = replicate 4 0" "take 4 (drop 14 (info_head_bytes 8 b)) = replicate 4 0"
    using info_fields_wide [of b] assms by (simp_all add: b_def)
  have "take 40 (info_head_bytes 8 b @ body) = take 40 (info_head_bytes 8 b)" by (simp add: info_head_size_def)
  moreover have "take 4 (drop k (take 40 xs)) = take 4 (drop k xs)" if "k \<le> 36" for k and xs :: bytes
    using that by (simp add: drop_take min_def)
  moreover have zero: "le_number (replicate n 0) = 0" for n using le_number_append0 [of "[]" n] by (simp add: le_number_def)
  moreover have "take 2 (saved 8 X Y B scr) = [0x42, 0x4D]" by (simp add: f file_head_bytes_def b_def magic_field)
  moreover have "show_lines s h 0 0 rest = None" for h rest by (subst show_lines.simps) simp
  ultimately show ?thesis
    using fields unfolding show_bmp_def
    by (simp add: f Let_def chartolong_def info_head_size_def signed32_def cdiv_def fits_int_def)
qed

text \<open>
  C15: A screen of 8, 16, 24 or 32 bits a pixel, with rows that are a multiple of four bytes and at most
  10240, and with fewer than \<open>2 ^ 31\<close> bits in all, is saved without error, over a file that is not longer
  than the new one. Where a \<^verbatim>\<open>long\<close> has four bytes the file is a bitmap from which \<^verbatim>\<open>show_bmp\<close> of the other
  program, called with a screen of the same size whatever it shows, restores the screen exactly. Where
  a \<^verbatim>\<open>long\<close> has eight bytes (and the screen fewer than 65536 rows) the header is not that of a bitmap: the
  same function finds no bytes in a line and does not return.
\<close>

theorem bmp_round_trip:
  assumes "fb_opens e" "img_opens e" "have_heap e" and v: "fb_var e = Some v" and heap: "\<And>n. length (heap e n) = n"
    and dims: "X = unat (fb_xres v)" "Y = unat (fb_yres v)" "B = unat (fb_bpp v) div 8" and bpp: "fb_bpp v \<in> {8, 16, 24, 32}"
    and XY: "0 < X" "0 < Y" and row: "X * B \<le> TMP_SIZE" "4 dvd X * B" and small: "8 * (Y * (X * B)) < 2 ^ 31"
    and len: "length (fb_bytes e) = Y * (X * B)" and old: "length old \<le> 54 + Y * (X * B)"
    and scr: "scr_xres s = int X" "scr_bpp s = 8 * int B" "length (fbp s) = Y * (X * B)"
  shows "\<exists>f. fd_app1_main e 2 old = Some (0, f) \<and>
           (long_size e = 4 \<longrightarrow> show_bmp (Some f) s = Some (0, s\<lparr>fbp := fb_bytes e\<rparr>)) \<and>
           (long_size e = 8 \<and> Y < 2 ^ 16 \<longrightarrow> show_bmp (Some f) s = None)"
proof -
  have B: "B \<in> {1, 2, 3, 4}" "uint (fb_bpp v) = 8 * int B" using bpp by (auto simp: dims)
  let ?f = "saved (long_size e) X Y B (fb_bytes e)"
  have "length (concat (map (\<lambda>j. row (X * B) (fb_bytes e) (Y - 1 - j)) [0..<k])) = k * (X * B)" if "k \<le> Y" for k
    using that
  proof (induction k)
    case (Suc k)
    have "(Y - 1 - k + 1) * (X * B) \<le> Y * (X * B)" using Suc.prems by (intro mult_le_mono1) simp
    then show ?case using Suc len by (simp add: algebra_simps)
  qed simp
  then have "length ?f = 14 + info_head_size (long_size e) + Y * (X * B)" by (simp add: saved_def Let_def)
  then have over: "overwrite ?f old = ?f" if "4 \<le> long_size e" using old that by (simp add: overwrite_def info_head_size_def)
  have run: "fd_app1_main e 2 old = Some (0, overwrite ?f old)"
    by (rule fd_app1_saves [OF assms(1-3) v heap dims B(2) small len])
  have "int X < 256 ^ 4" using uint_lt2p [of "fb_xres v"] by (simp add: dims)
  then have "show_bmp (Some (saved 8 X Y B (fb_bytes e))) s = None" if "Y < 2 ^ 16"
    using that by (intro show_bmp_wide) simp_all
  then show ?thesis
    using run over show_bmp_saved [OF XY B(1) row small len scr] by auto
qed

definition demo_bmp :: bmp_env where
  "demo_bmp = \<lparr>long_size = 4, fb_opens = True,
     fb_var = Some \<lparr>fb_xres = 1, fb_yres = 2, fb_yoffset = 0, fb_bpp = 32, fb_red = 16, fb_green = 8, fb_blue = 0, fb_transp = 0,
       fb_transp_length = 0\<rparr>,
     img_opens = True, have_heap = True, fb_bytes = [1, 2, 3, 4, 5, 6, 7, 8], heap = (\<lambda>n. replicate n 0)\<rparr>"

definition demo_screen :: fb_screen where
  "demo_screen = \<lparr>scr_xres = 1, scr_bpp = 32, fbp = [0, 0, 0, 0, 0, 0, 0, 0]\<rparr>"

theorem bmp_round_trip_witness:
  "\<exists>f. fd_app1_main demo_bmp 2 [] = Some (0, f) \<and> show_bmp (Some f) demo_screen = Some (0, demo_screen\<lparr>fbp := [1, 2, 3, 4, 5, 6, 7, 8]\<rparr>)"
  using bmp_round_trip [of demo_bmp _ 1 2 4 "[]" demo_screen] by (simp add: demo_bmp_def demo_screen_def)

text \<open>A line of a bitmap that is longer than the buffer of 10240 bytes is read over its end, if the file is long
  enough.\<close>

theorem show_bmp_long_line:
  assumes "0 < w" "w < 2 ^ 25" and "f = file_head_bytes b @ info_head_bytes 4 b @ body" and "bfType b = 0x4D42"
    and "biWidth b = w" and "biBitCount b = 32" and "TMP_SIZE < 4 * nat w" and "TMP_SIZE < length body"
  shows "show_bmp (Some f) s = None"
proof -
  have n: "le_number (le_field 4 w) = w" "le_number (le_field 2 32 @ replicate 2 0) = 32"
    using assms(1,2) unfolding le_number_append0 by (simp_all add: le_number_field)
  have s: "signed32 w = w" "signed32 32 = 32" using assms(1,2) by (simp_all add: signed32_def)
  have magic: "take 2 f = [0x42, 0x4D]" by (simp add: assms(3,4) file_head_bytes_def magic_field)
  have bpl: "cdiv (w * 32 + 31) 32 * 4 = 4 * w" "fits_int (w * 32 + 31)" using assms(1,2) by (simp_all add: cdiv_def fits_int_def)
  have "show_lines s h 0 (w * 4) body = None" for h
    using assms(1,7,8) by (subst show_lines.simps) (simp add: nat_mult_distrib Let_def)
  then show ?thesis
    using magic bpl assms(3,5,6) unfolding show_bmp_def by (simp add: Let_def chartolong_def info_fields n s info_head_size_def)
qed

theorem show_bmp_long_line_witness:
  "show_bmp (Some (let b = \<lparr>bfType = 0x4D42, bfSize = 0, bfOffBits = 54, biWidth = 4000, biHeight = 1, biBitCount = 32\<rparr>
     in file_head_bytes b @ info_head_bytes 4 b @ replicate 16000 0)) demo_screen = None"
  unfolding Let_def by (rule show_bmp_long_line [where w = 4000, OF _ _ refl]) simp_all

end
