(* ===== verification/Drm.thy ===== *)
theory Drm
  imports Fbgrab
begin

text \<open>
  The DRM demo \<^verbatim>\<open>testdrm.c\<close>: it makes four dumb buffers, converts four RGBA files to BGR frames and shows one of them again
  and again. The kernel's answers are the record \<open>drm_env\<close>; the ones the program does not look at (every ioctl but the
  resources) are given as they come, among them a mapping that failed (\<open>None\<close>). An access outside an object is \<open>None\<close>.
\<close>

section \<open>Modes and buffers\<close>

record drm_mode =
  hdisplay :: nat
  hsync_start :: nat
  hsync_end :: nat
  htotal :: nat
  vdisplay :: nat
  vsync_start :: nat
  vsync_end :: nat
  vtotal :: nat
  clock :: nat

record buffer_object =
  bo_width :: nat
  bo_height :: nat
  pitch :: nat
  handle :: nat
  bo_size :: nat
  vaddr :: "bytes option"
  fb_id :: nat

definition mk_mode :: "nat \<Rightarrow> nat \<Rightarrow> nat \<Rightarrow> nat \<Rightarrow> nat \<Rightarrow> nat \<Rightarrow> nat \<Rightarrow> nat \<Rightarrow> nat \<Rightarrow> drm_mode" where
  "mk_mode h h1 h2 h3 v v1 v2 v3 c =
     \<lparr>hdisplay = h, hsync_start = h1, hsync_end = h2, htotal = h3, vdisplay = v, vsync_start = v1, vsync_end = v2, vtotal = v3,
      clock = c\<rparr>"

definition mminfo :: "drm_mode list" where
  "mminfo =
     [mk_mode 800 852 864 916 480 488 538 588 32316,
      mk_mode 800 808 850 861 480 488 558 588 30376,
      mk_mode 848 864 976 1088 480 486 494 517 33750,
      mk_mode 1920 2008 2052 2200 1080 1084 1089 1125 148500,
      mk_mode 1920 2008 2052 2200 1080 1084 1089 1125 148500,
      mk_mode 600 608 658 661 240 288 338 388 33750]"

definition pixels :: "nat \<Rightarrow> nat" where
  "pixels timing = hdisplay (mminfo ! timing) * vdisplay (mminfo ! timing)"

section \<open>Filling\<close>

text \<open>\<^verbatim>\<open>pread\<close> of four bytes keeps what the file does not have.\<close>

definition pread4 :: "bytes \<Rightarrow> nat \<Rightarrow> bytes \<Rightarrow> bytes" where
  "pread4 rgba off buffer = (let got = take 4 (drop off rgba) in got @ drop (length got) buffer)"

definition fill_pixel :: "bytes \<Rightarrow> nat \<Rightarrow> bytes \<times> bytes \<Rightarrow> (bytes \<times> bytes) option" where
  "fill_pixel rgba i st =
     (let buffer = pread4 rgba (i * 4) (fst st)
      in Option.bind (store (i * 3 + 0) (buffer ! 2) (snd st)) (\<lambda>frame.
           Option.bind (store (i * 3 + 1) (buffer ! 1) frame) (\<lambda>frame.
             Option.bind (store (i * 3 + 2) (buffer ! 0) frame) (\<lambda>frame. Some (buffer, frame)))))"

definition fill_frame_buffer :: "bytes \<Rightarrow> nat \<Rightarrow> bytes \<Rightarrow> bytes option" where
  "fill_frame_buffer rgba timing frame =
     Option.bind (c_for (pixels timing) 1 (fill_pixel rgba) (replicate 4 0, frame)) (\<lambda>(buffer, frame). Some frame)"

definition fill_drm :: "buffer_object \<Rightarrow> bytes \<Rightarrow> nat \<Rightarrow> buffer_object option" where
  "fill_drm bo frame timing =
     Option.bind (vaddr bo) (\<lambda>mem. Option.bind (mem_read frame 0 (pixels timing * 3)) (\<lambda>bs.
       Option.bind (mem_write mem 0 bs) (\<lambda>mem. Some (bo\<lparr>vaddr := Some mem\<rparr>))))"

section \<open>The program\<close>

text \<open>The dumb buffer the kernel makes for a width and height of 24 bits a pixel: pitch, size, handle, the id of its
  frame buffer object, and the mapping of that size.\<close>

record drm_env =
  create_dumb :: "nat \<Rightarrow> nat \<Rightarrow> nat \<times> nat \<times> nat"
  add_fb :: "nat \<Rightarrow> nat"
  map_dumb :: "nat \<Rightarrow> bytes option"
  malloc :: "nat \<Rightarrow> bytes option"
  connector_modes :: "drm_mode list"
  files :: "string \<Rightarrow> bytes"

definition modeset_create_fb :: "drm_env \<Rightarrow> buffer_object \<Rightarrow> buffer_object" where
  "modeset_create_fb e bo =
     (case create_dumb e (bo_width bo) (bo_height bo) of (p, sz, h) \<Rightarrow>
        bo\<lparr>pitch := p, bo_size := sz, handle := h, fb_id := add_fb e h, vaddr := map_dumb e sz\<rparr>)"

definition init_timing :: "nat \<Rightarrow> drm_mode \<Rightarrow> drm_mode" where
  "init_timing i m =
     m\<lparr>hdisplay := hdisplay (mminfo ! i), hsync_start := hsync_start (mminfo ! i), hsync_end := hsync_end (mminfo ! i),
       htotal := htotal (mminfo ! i), vdisplay := vdisplay (mminfo ! i), vsync_start := vsync_start (mminfo ! i),
       vsync_end := vsync_end (mminfo ! i), vtotal := vtotal (mminfo ! i)\<rparr>"

definition mode_at :: "drm_mode list \<Rightarrow> int \<Rightarrow> drm_mode option" where
  "mode_at modes i = (if i < 0 then None else fetch modes (nat i))"

text \<open>The size asked for one buffer: that of the chosen timing for 800 and 600, else that of the connector's mode.\<close>

definition choose_size :: "drm_env \<Rightarrow> nat \<Rightarrow> int \<Rightarrow> (nat \<times> nat) option" where
  "choose_size e timing mode_id =
     (if hdisplay (mminfo ! timing) = 800 then Some (800, 480)
      else if hdisplay (mminfo ! timing) = 600 then Some (600, 240)
      else Option.bind (mode_at (connector_modes e) mode_id) (\<lambda>m. Some (hdisplay m, vdisplay m)))"

text \<open>One turn of the endless loop, with the value of \<^verbatim>\<open>random\<close>, which stays 0: the modes the buffer is shown with.\<close>

definition show_buffer :: "nat \<Rightarrow> int \<Rightarrow> drm_mode list \<Rightarrow> buffer_object \<Rightarrow> (nat \<times> drm_mode) list option" where
  "show_buffer timing mode_id modes bo =
     (if hdisplay (mminfo ! timing) = 600 then Option.bind (mode_at modes 3) (\<lambda>m. Some [(fb_id bo, m)])
      else Option.bind (mode_at modes mode_id) (\<lambda>m.
             Some ((if hdisplay (mminfo ! timing) = 800 then [(fb_id bo, m)] else []) @ [(fb_id bo, m)])))"

fun drm_turns :: "nat \<Rightarrow> nat \<Rightarrow> int \<Rightarrow> drm_mode list \<Rightarrow> bytes \<Rightarrow> buffer_object \<Rightarrow> (buffer_object \<times> (nat \<times> drm_mode) list) option" where
  "drm_turns 0 timing mode_id modes frame bo = Some (bo, [])"
| "drm_turns (Suc n) timing mode_id modes frame bo =
     Option.bind (fill_drm bo frame timing) (\<lambda>bo. Option.bind (show_buffer timing mode_id modes bo) (\<lambda>now.
       Option.bind (drm_turns n timing mode_id modes frame bo) (\<lambda>(bo, later). Some (bo, now @ later))))"

definition new_buffer :: "nat \<times> nat \<Rightarrow> buffer_object" where
  "new_buffer wh = \<lparr>bo_width = fst wh, bo_height = snd wh, pitch = 0, handle = 0, bo_size = 0, vaddr = None, fb_id = 0\<rparr>"

text \<open>The preparation of one of the four buffers with its file.\<close>

definition prepare :: "drm_env \<Rightarrow> nat \<Rightarrow> int \<Rightarrow> string \<Rightarrow> (buffer_object \<times> bytes) option" where
  "prepare e timing mode_id name =
     Option.bind (choose_size e timing mode_id) (\<lambda>wh. Option.bind (malloc e (pixels timing * 4)) (\<lambda>frame.
       let bo = modeset_create_fb e (new_buffer wh)
       in Option.bind (fill_frame_buffer (files e name) timing frame) (\<lambda>frame. Some (bo, frame))))"

text \<open>The connector's mode takes the timing over for the width 800.\<close>

definition set_timing :: "nat \<Rightarrow> int \<Rightarrow> drm_mode list \<Rightarrow> drm_mode list option" where
  "set_timing t m modes =
     (if hdisplay (mminfo ! t) = 800 then Option.bind (mode_at modes m) (\<lambda>cm. Some (modes[nat m := init_timing t cm]))
      else Some modes)"

text \<open>The arguments after the usage check, which asks for three of the ten that are used, and \<open>n\<close> turns of the loop.\<close>

definition drm_main :: "drm_env \<Rightarrow> string list \<Rightarrow> nat \<Rightarrow> (int + buffer_object \<times> (nat \<times> drm_mode) list) option" where
  "drm_main e argv n =
     (if length argv < 3 then Some (Inl 2)
      else if length argv < 10 then None
      else
        let timing = atoi (argv ! 8); m = atoi (argv ! 9)
        in if timing < 0 \<or> int (length mminfo) \<le> timing then None
           else
             let t = nat timing
             in Option.bind (prepare e t m (argv ! 4)) (\<lambda>(bo, frame).
                  Option.bind (prepare e t m (argv ! 5)) (\<lambda>_. Option.bind (prepare e t m (argv ! 6)) (\<lambda>_.
                    Option.bind (prepare e t m (argv ! 7)) (\<lambda>_. Option.bind (set_timing t m (connector_modes e)) (\<lambda>modes.
                      Option.bind (drm_turns n t m modes frame bo) (\<lambda>r. Some (Inr r))))))))"

section \<open>What is shown\<close>

text \<open>The colours of a pixel of the file, blue first.\<close>

definition bgr :: "bytes \<Rightarrow> nat \<Rightarrow> bytes" where
  "bgr rgba i = [rgba ! (4 * i + 2), rgba ! (4 * i + 1), rgba ! (4 * i)]"

lemma pread4_full: "off + 4 \<le> length rgba \<Longrightarrow> length buffer = 4 \<Longrightarrow> pread4 rgba off buffer = take 4 (drop off rgba)"
  by (simp add: pread4_def Let_def)

lemma three_stores:
  assumes "length pre = 3 * k" and "3 \<le> length rest"
  shows "Option.bind (store (k * 3 + 0) a (pre @ rest)) (\<lambda>frame. Option.bind (store (k * 3 + 1) b frame) (\<lambda>frame.
           Option.bind (store (k * 3 + 2) c frame) (\<lambda>frame. Some (buffer, frame)))) = Some (buffer, pre @ [a, b, c] @ drop 3 rest)"
proof -
  obtain x y z tl where "rest = x # y # z # tl" using assms(2) by (auto simp: numeral_3_eq_3 Suc_le_length_iff)
  then show ?thesis using assms(1) by (simp add: store_def list_update_append mult.commute)
qed

lemma fill_frame_buffer_bgr:
  assumes "4 * pixels timing \<le> length rgba" and "3 * pixels timing \<le> length frame"
  shows "fill_frame_buffer rgba timing frame = Some (concat (map (bgr rgba) [0..<pixels timing]) @ drop (3 * pixels timing) frame)"
proof -
  let ?n = "pixels timing"
  let ?I = "\<lambda>k st. length (fst st) = 4 \<and> snd st = concat (map (bgr rgba) [0..<k]) @ drop (3 * k) frame"
  have len: "length (concat (map (bgr rgba) [0..<k])) = 3 * k" for k by (induction k) (simp_all add: bgr_def)
  have "\<exists>st. c_for ?n 1 (fill_pixel rgba) (replicate 4 0, frame) = Some st \<and> ?I ((?n + 1 - 1) div 1) st"
  proof (rule c_for_inv [where I = ?I])
    fix k and st :: "bytes \<times> bytes"
    assume k: "k < (?n + 1 - 1) div 1" and st: "?I k st"
    have p: "pread4 rgba (k * 4) (fst st) = take 4 (drop (k * 4) rgba)" using k st assms(1) by (intro pread4_full) simp_all
    let ?B = "take 4 (drop (k * 4) rgba)"
    have r: "3 \<le> length (drop (3 * k) frame)" using k assms(2) by simp
    have s: "snd st = concat (map (bgr rgba) [0..<k]) @ drop (3 * k) frame" using st by simp
    have "fill_pixel rgba k st = Some (?B, concat (map (bgr rgba) [0..<k]) @ [?B ! 2, ?B ! 1, ?B ! 0] @ drop 3 (drop (3 * k) frame))"
      unfolding fill_pixel_def Let_def p s by (rule three_stores [OF len r])
    moreover have "[?B ! 2, ?B ! 1, ?B ! 0] = bgr rgba k" using k assms(1) by (simp add: bgr_def mult.commute)
    moreover have "length ?B = 4" using k assms(1) by simp
    ultimately show "\<exists>st'. fill_pixel rgba (1 * k) st = Some st' \<and> ?I (Suc k) st'" by (simp add: add.commute)
  qed simp
  then show ?thesis by (auto simp: fill_frame_buffer_def)
qed

text \<open>The conversion stays inside the frame for every file, however short.\<close>

lemma fill_frame_buffer_total:
  assumes "3 * pixels timing \<le> length frame"
  shows "\<exists>frame'. fill_frame_buffer rgba timing frame = Some frame'"
proof -
  let ?I = "\<lambda>(k :: nat) st. length (fst st) = 4 \<and> length (snd st) = length frame"
  have "\<exists>st. c_for (pixels timing) 1 (fill_pixel rgba) (replicate 4 0, frame) = Some st \<and> ?I ((pixels timing + 1 - 1) div 1) st"
    by (rule c_for_inv [where I = ?I])
      (use assms in \<open>auto simp: fill_pixel_def store_def pread4_def Let_def\<close>)
  then show ?thesis by (auto simp: fill_frame_buffer_def)
qed

lemma fill_drm_copies:
  assumes "vaddr bo = Some mem" and "3 * pixels timing \<le> length frame" and "3 * pixels timing \<le> length mem"
  shows "fill_drm bo frame timing = Some (bo\<lparr>vaddr := Some (take (3 * pixels timing) frame @ drop (3 * pixels timing) mem)\<rparr>)"
  using assms by (simp add: fill_drm_def mem_read_def mem_write_def mult.commute)

lemma show_buffer_vaddr [simp]: "show_buffer timing mode_id modes (bo\<lparr>vaddr := v\<rparr>) = show_buffer timing mode_id modes bo"
  by (cases "mode_at modes mode_id"; cases "mode_at modes 3") (simp_all add: show_buffer_def)

lemma drm_turns_shows:
  assumes "3 * pixels timing \<le> length frame" and "show_buffer timing mode_id modes bo = Some now"
  shows "vaddr bo = Some mem \<Longrightarrow> 3 * pixels timing \<le> length mem \<Longrightarrow>
           drm_turns (Suc n) timing mode_id modes frame bo =
             Some (bo\<lparr>vaddr := Some (take (3 * pixels timing) frame @ drop (3 * pixels timing) mem)\<rparr>, concat (replicate (Suc n) now))"
proof (induction n)
  case (Suc n)
  let ?mem = "take (3 * pixels timing) frame @ drop (3 * pixels timing) mem"
  let ?bo = "bo\<lparr>vaddr := Some ?mem\<rparr>"
  have f: "fill_drm bo frame timing = Some ?bo" using Suc.prems assms(1) by (simp add: fill_drm_copies)
  have f': "fill_drm ?bo frame timing = Some ?bo" 
    using fill_drm_copies [of ?bo ?mem timing frame] Suc.prems(2) assms(1) by simp
  have "drm_turns (Suc n) timing mode_id modes frame ?bo = drm_turns (Suc n) timing mode_id modes frame bo"
    using f f' by simp
  then show ?case using Suc.IH [OF Suc.prems] f assms(2) by simp
qed (use assms fill_drm_copies in simp)

text \<open>The program runs with these arguments and answers: a timing of the table, a mode of the connector, memory for the frames.\<close>

definition drm_args :: "drm_env \<Rightarrow> string list \<Rightarrow> nat \<Rightarrow> int \<Rightarrow> bool" where
  "drm_args e argv t m \<longleftrightarrow>
     10 \<le> length argv \<and> atoi (argv ! 8) = int t \<and> atoi (argv ! 9) = m \<and> t < length mminfo \<and>
     0 \<le> m \<and> m < int (length (connector_modes e)) \<and> 3 < length (connector_modes e) \<and>
     (case malloc e (pixels t * 4) of None \<Rightarrow> False | Some frame \<Rightarrow> length frame = pixels t * 4)"

text \<open>The mapping behind each buffer, once its size is chosen.\<close>

definition drm_mapping :: "drm_env \<Rightarrow> nat \<Rightarrow> int \<Rightarrow> bytes option" where
  "drm_mapping e t m =
     Option.bind (choose_size e t m) (\<lambda>(w, h). map_dumb e (fst (snd (create_dumb e w h))))"

lemma prepare_result:
  assumes "drm_args e argv t m" and "drm_mapping e t m = Some mem"
  shows "\<exists>bo frame. prepare e t m name = Some (bo, frame) \<and> vaddr bo = Some mem"
proof -
  obtain frame where f: "malloc e (pixels t * 4) = Some frame" "length frame = pixels t * 4"
    using assms(1) by (auto simp: drm_args_def split: option.splits)
  obtain frame' where fr: "fill_frame_buffer (files e name) t frame = Some frame'"
    using fill_frame_buffer_total [of t frame "files e name"] f(2) by auto
  obtain w h where wh: "choose_size e t m = Some (w, h)" "map_dumb e (fst (snd (create_dumb e w h))) = Some mem"
    using assms(2) by (auto simp: drm_mapping_def)
  let ?bo = "modeset_create_fb e (new_buffer (w, h))"
  have "vaddr ?bo = Some mem" using wh(2) by (auto simp: modeset_create_fb_def new_buffer_def split: prod.splits)
  moreover have "prepare e t m name = Some (?bo, frame')" using wh(1) f(1) fr by (simp add: prepare_def Let_def)
  ultimately show ?thesis by blast
qed

lemma prepare_frame:
  assumes "drm_args e argv t m" and "prepare e t m name = Some (bo, frame)" and "4 * pixels t \<le> length (files e name)"
  shows "take (3 * pixels t) frame = concat (map (bgr (files e name)) [0..<pixels t]) \<and> 3 * pixels t \<le> length frame"
proof -
  obtain fr where f: "malloc e (pixels t * 4) = Some fr" "length fr = pixels t * 4"
    using assms(1) by (auto simp: drm_args_def split: option.splits)
  have len: "length (concat (map (bgr (files e name)) [0..<k])) = 3 * k" for k by (induction k) (simp_all add: bgr_def)
  have "frame = concat (map (bgr (files e name)) [0..<pixels t]) @ drop (3 * pixels t) fr"
    using assms(2,3) f fill_frame_buffer_bgr [of t "files e name" fr] by (auto simp: prepare_def Let_def)
  then show ?thesis using len f(2) by simp
qed

lemma show_buffer_result:
  assumes "drm_args e argv t m" and "length modes = length (connector_modes e)"
  shows "\<exists>now. show_buffer t m modes bo = Some now \<and> now \<noteq> [] \<and> (\<forall>x\<in>set now. fst x = fb_id bo)"
  using assms by (auto simp: show_buffer_def drm_args_def mode_at_def fetch_def nat_less_iff)

lemma drm_main_turns:
  assumes "drm_args e argv t m" and "drm_mapping e t m = Some mem"
  shows "\<exists>bo frame modes. prepare e t m (argv ! 4) = Some (bo, frame) \<and> vaddr bo = Some mem \<and>
           length modes = length (connector_modes e) \<and>
           drm_main e argv n = Option.bind (drm_turns n t m modes frame bo) (\<lambda>r. Some (Inr r))"
proof -
  obtain bo frame where p: "prepare e t m (argv ! 4) = Some (bo, frame)" "vaddr bo = Some mem"
    using prepare_result [OF assms] by blast
  obtain r5 r6 r7 where q: "prepare e t m (argv ! 5) = Some r5" "prepare e t m (argv ! 6) = Some r6" "prepare e t m (argv ! 7) = Some r7"
    using prepare_result [OF assms] by meson
  obtain modes where s: "set_timing t m (connector_modes e) = Some modes" "length modes = length (connector_modes e)"
    using assms(1) by (cases "hdisplay (mminfo ! t) = 800") (auto simp: drm_args_def set_timing_def mode_at_def fetch_def nat_less_iff)
  have "drm_main e argv n = Option.bind (drm_turns n t m modes frame bo) (\<lambda>r. Some (Inr r))"
    using assms(1) p(1) q s(1) by (simp add: drm_main_def drm_args_def Let_def)
  then show ?thesis using p s(2) by blast
qed

text \<open>With enough memory behind the buffer, the DRM demo shows, however long it runs, the first of its four files only: the
  mapped memory holds the file's pixels in order, blue, green and red, one after the other without regard to the pitch, and
  every mode set refers to that buffer.\<close>

theorem drm_shows_first_file:
  assumes "drm_args e argv t m" and "drm_mapping e t m = Some mem" and "3 * pixels t \<le> length mem"
    and "4 * pixels t \<le> length (files e (argv ! 4))"
  shows "\<exists>bo shown. drm_main e argv (Suc n) = Some (Inr (bo, shown)) \<and>
           vaddr bo = Some (concat (map (bgr (files e (argv ! 4))) [0..<pixels t]) @ drop (3 * pixels t) mem) \<and>
           shown \<noteq> [] \<and> (\<forall>x\<in>set shown. fst x = fb_id bo)"
proof -
  obtain bo frame modes where p: "prepare e t m (argv ! 4) = Some (bo, frame)" "vaddr bo = Some mem"
      "length modes = length (connector_modes e)"
      "drm_main e argv (Suc n) = Option.bind (drm_turns (Suc n) t m modes frame bo) (\<lambda>r. Some (Inr r))"
    using drm_main_turns [OF assms(1,2)] by blast
  obtain now where now: "show_buffer t m modes bo = Some now" "now \<noteq> []" "\<forall>x\<in>set now. fst x = fb_id bo"
    using show_buffer_result [OF assms(1) p(3)] by blast
  have fr: "take (3 * pixels t) frame = concat (map (bgr (files e (argv ! 4))) [0..<pixels t])" "3 * pixels t \<le> length frame"
    using prepare_frame [OF assms(1) p(1) assms(4)] by simp_all
  show ?thesis
    unfolding p(4) drm_turns_shows [OF fr(2) now(1) p(2) assms(3)] using fr(1) now(2,3) by auto
qed

text \<open>The size of the mapping comes from the connector's mode but the size of the copy from the table of timings: where the
  mapping is smaller, the first frame runs over it.\<close>

theorem drm_small_mode_overflow:
  assumes "drm_args e argv t m" and "drm_mapping e t m = Some mem" and "length mem < 3 * pixels t"
  shows "drm_main e argv (Suc n) = None"
proof -
  obtain bo frame modes where p: "vaddr bo = Some mem"
      "drm_main e argv (Suc n) = Option.bind (drm_turns (Suc n) t m modes frame bo) (\<lambda>r. Some (Inr r))"
    using drm_main_turns [OF assms(1,2)] by blast
  have "fill_drm bo frame t = None" using p(1) assms(3) by (auto simp: fill_drm_def mem_read_def mem_write_def mult.commute)
  then show ?thesis using p(2) by simp
qed

definition demo_drm :: drm_env where
  "demo_drm = \<lparr>create_dumb = (\<lambda>w h. (3 * w, 3 * w * h, 1)), add_fb = (\<lambda>h. 40), map_dumb = (\<lambda>n. Some (replicate n 0)),
     malloc = (\<lambda>n. Some (replicate n 0)), connector_modes = replicate 4 (mk_mode 848 864 976 1088 480 486 494 517 33750),
     files = (\<lambda>name. replicate 576000 7)\<rparr>"

definition demo_argv :: "string \<Rightarrow> string list" where
  "demo_argv timing = [''testdrm'', ''/dev/dri/card0'', ''86'', ''5000'', ''a'', ''b'', ''c'', ''d'', timing, ''0'']"

lemma demo_drm_args: "drm_args demo_drm (demo_argv ''5'') 5 0" "drm_args demo_drm (demo_argv ''3'') 3 0"
  by (simp_all add: drm_args_def demo_drm_def demo_argv_def mminfo_def pixels_def mk_mode_def atoi_def isspace_def c_digits_def
      isdigit_def signed32_def)

theorem drm_shows_first_file_witness:
  "\<exists>bo shown. drm_main demo_drm (demo_argv ''5'') 3 = Some (Inr (bo, shown)) \<and> shown \<noteq> [] \<and>
     vaddr bo = Some (concat (map (bgr (replicate 576000 7)) [0..<144000]))"
proof -
  have p: "pixels 5 = 144000" by (simp add: pixels_def mminfo_def mk_mode_def)
  have "drm_mapping demo_drm 5 0 = Some (replicate 432000 0)"
    by (simp add: drm_mapping_def choose_size_def demo_drm_def mminfo_def mk_mode_def)
  from drm_shows_first_file [OF demo_drm_args(1) this, of 2] show ?thesis
    unfolding p by (auto simp: demo_drm_def numeral_3_eq_3 numeral_2_eq_2)
qed

theorem drm_small_mode_overflow_witness: "drm_main demo_drm (demo_argv ''3'') 1 = None"
proof -
  have p: "pixels 3 = 2073600" by (simp add: pixels_def mminfo_def mk_mode_def)
  have "drm_mapping demo_drm 3 0 = Some (replicate 1221120 0)"
    by (simp add: drm_mapping_def choose_size_def demo_drm_def mminfo_def mk_mode_def mode_at_def fetch_def)
  from drm_small_mode_overflow [OF demo_drm_args(2) this, of 0] show ?thesis unfolding p by simp
qed

end
