(* ===== verification/Tap.thy ===== *)
theory Tap
  imports Prelude
begin

text \<open>
  The TAP programs: \<^verbatim>\<open>test_tap_tcp_udp_file.c\<close>, which prints the frames it reads from a TAP device and sends every ARP
  request back with the two IP addresses exchanged, and \<^verbatim>\<open>test_tap_file.c\<close>, which sends every frame back as an ICMP
  answer. Both keep one buffer of 4096 bytes, so that what lies behind a frame is what earlier frames left there. An
  access outside the buffer is \<open>None\<close>.
\<close>

section \<open>Opening the device\<close>

text \<open>\<^verbatim>\<open>tun_creat\<close>: the results of \<^verbatim>\<open>open\<close> and of \<^verbatim>\<open>TUNSETIFF\<close>, with the name the kernel makes of the one asked for; the descriptors that stay
  open are a list.\<close>

record tun_env =
  open_result :: int
  tunsetiff_result :: int
  kernel_name :: "string \<Rightarrow> string"

definition tun_creat :: "tun_env \<Rightarrow> string \<Rightarrow> int \<times> string \<times> int list" where
  "tun_creat e dev =
     (let fd = open_result e
      in if fd < 0 then (fd, dev, [])
         else
           let ifr_name = (if dev \<noteq> [] then take 16 dev else []);
               err = tunsetiff_result e
           in if err < 0 then (err, dev, [])
              else (fd, kernel_name e ifr_name, [fd]))"

section \<open>Dotted addresses\<close>

text \<open>\<^verbatim>\<open>inet_ntoa\<close> prints the four bytes of an address; \<^verbatim>\<open>inet_addr\<close> reads such a text.\<close>

definition inet_ntoa :: "bytes \<Rightarrow> string" where
  "inet_ntoa a = nat_dec (unat (a ! 0)) @ ''.'' @ nat_dec (unat (a ! 1)) @ ''.'' @ nat_dec (unat (a ! 2)) @ ''.'' @
     nat_dec (unat (a ! 3))"

fun dotted :: "string \<Rightarrow> nat \<Rightarrow> nat list" where
  "dotted [] n = [n]"
| "dotted (c # cs) n = (if c = CHR ''.'' then n # dotted cs 0 else dotted cs (10 * n + (of_char c - 48)))"

definition inet_addr :: "string \<Rightarrow> bytes" where
  "inet_addr s = map word_of_nat (dotted s 0)"

section \<open>One frame\<close>

definition be16_at :: "bytes \<Rightarrow> nat \<Rightarrow> nat option" where
  "be16_at b i = Option.bind (mem_read b i 2) (\<lambda>h. Some (256 * unat (h ! 0) + unat (h ! 1)))"

text \<open>What is printed about a frame: the bytes of a UDP packet with its header, or the two addresses of an ARP packet.\<close>

datatype tap_note = Udp bytes | Icmp | Ip | Tcp | Arp string string

definition tap_ip :: "bytes \<Rightarrow> tap_note list option" where
  "tap_ip buf =
     Option.bind (mem_read buf 14 20) (\<lambda>ihdr.
       let protocol = ihdr ! 9; udp = 14 + unat (ihdr ! 0 AND 15) * 4
       in if protocol = 0x11 then
            Option.bind (be16_at buf (udp + 4)) (\<lambda>len. Option.bind (mem_read buf udp len) (\<lambda>bs. Some [Udp bs]))
          else if protocol = 1 then Some [Icmp]
          else if protocol = 4 then Some [Ip]
          else if protocol = 6 then Some [Tcp]
          else Some [])"

text \<open>The ARP packet behind the Ethernet header: the operation at offset 20, the sender's hardware address at 22 and IP
  address at 28, the target's at 32 and 38. A request is changed in place.\<close>

definition arp_request :: "bytes \<Rightarrow> (bytes \<times> tap_note) option" where
  "arp_request buf =
     Option.bind (mem_read buf 28 4) (\<lambda>sip. Option.bind (mem_read buf 38 4) (\<lambda>tip.
       let source = inet_ntoa sip; target = inet_ntoa tip
       in Option.bind (fetch buf 27) (\<lambda>m. Option.bind (store 27 (m + 1) buf) (\<lambda>buf.
            Option.bind (mem_write buf 28 (inet_addr target)) (\<lambda>buf.
              Option.bind (mem_write buf 38 (inet_addr source)) (\<lambda>buf.
                Option.bind (fetch buf 11) (\<lambda>m. Option.bind (store 11 (m + 1) buf) (\<lambda>buf.
                  Some (buf, Arp source target)))))))))"

text \<open>The body of the loop for a frame of \<open>ret\<close> bytes: the buffer, the notes and the frame written back, if any.\<close>

definition tap_frame :: "bytes \<Rightarrow> nat \<Rightarrow> (bytes \<times> tap_note list \<times> bytes option) option" where
  "tap_frame buf ret =
     (if \<not> 14 < ret then Some (buf, [], None)
      else Option.bind (be16_at buf 12) (\<lambda>h_proto.
             if h_proto = 0x0800 then Option.bind (tap_ip buf) (\<lambda>notes. Some (buf, notes, None))
             else if h_proto = 0x0806 then
               Option.bind (be16_at buf 20) (\<lambda>ar_op.
                 if ar_op = 1 then
                   Option.bind (arp_request buf) (\<lambda>(buf', note). Some (buf', [note], Some (take ret buf')))
                 else if ar_op = 2 then
                   Option.bind (mem_read buf 28 4) (\<lambda>sip. Option.bind (mem_read buf 38 4) (\<lambda>tip.
                     Some (buf, [Arp (inet_ntoa sip) (inet_ntoa tip)], None)))
                 else Some (buf, [], None))
             else Some (buf, [], None)))"

text \<open>The loop: \<open>None\<close> in the list is a read that fails, which ends the program; the list holds the reads in order. The
  frames written back are collected.\<close>

fun tap_loop :: "bytes option list \<Rightarrow> bytes \<Rightarrow> bytes list option" where
  "tap_loop [] buf = Some []"
| "tap_loop (None # reads) buf = Some []"
| "tap_loop (Some frame # reads) buf =
     Option.bind (mem_write buf 0 frame) (\<lambda>buf.
       Option.bind (tap_frame buf (length frame)) (\<lambda>(buf, notes, sent).
         Option.bind (tap_loop reads buf) (\<lambda>rest. Some (case sent of Some f \<Rightarrow> f # rest | None \<Rightarrow> rest))))"

definition tap_main :: "tun_env \<Rightarrow> bytes \<Rightarrow> bytes option list \<Rightarrow> (int \<times> bytes list) option" where
  "tap_main e buf reads =
     (case tun_creat e [] of (tun, name, fds) \<Rightarrow>
        if tun < 0 then Some (1, []) else Option.bind (tap_loop reads buf) (\<lambda>sent. Some (0, sent)))"

section \<open>The ICMP program\<close>

text \<open>
  \<^verbatim>\<open>test_tap_file.c\<close>: the four bytes at the offsets 12 and 16 are exchanged, the byte at 20 becomes 0 and the
  16-bit number at 22, in the machine's little-endian order, grows by 8. Then the frame is sent. In an IP
  packet these would be the addresses, the type and the checksum of an ICMP message; the program
  opens the device with \<^verbatim>\<open>IFF_TAP\<close>, so that what it reads are frames with an Ethernet header of 14 bytes.
\<close>

definition icmp_frame :: "bytes \<Rightarrow> bytes option" where
  "icmp_frame buf =
     Option.bind (mem_read buf 12 4) (\<lambda>ip. Option.bind (mem_read buf 16 4) (\<lambda>dst.
       Option.bind (mem_write buf 12 dst) (\<lambda>buf. Option.bind (mem_write buf 16 ip) (\<lambda>buf.
         Option.bind (store 20 0 buf) (\<lambda>buf. Option.bind (mem_read buf 22 2) (\<lambda>sum.
           mem_write buf 22 (le16_bytes (le16_of (sum ! 0) (sum ! 1) + 8))))))))"

fun icmp_loop :: "bytes option list \<Rightarrow> bytes \<Rightarrow> bytes list option" where
  "icmp_loop [] buf = Some []"
| "icmp_loop (None # reads) buf = Some []"
| "icmp_loop (Some frame # reads) buf =
     Option.bind (mem_write buf 0 frame) (\<lambda>buf. Option.bind (icmp_frame buf) (\<lambda>buf.
       Option.bind (icmp_loop reads buf) (\<lambda>rest. Some (take (length frame) buf # rest))))"

definition icmp_main :: "tun_env \<Rightarrow> bytes \<Rightarrow> bytes option list \<Rightarrow> (int \<times> bytes list) option" where
  "icmp_main e buf reads =
     (case tun_creat e [] of (tun, name, fds) \<Rightarrow>
        if tun < 0 then Some (1, []) else Option.bind (icmp_loop reads buf) (\<lambda>sent. Some (0, sent)))"

section \<open>Addresses come back as they were\<close>

lemma nat_dec_chars: "c \<in> set (nat_dec n) \<Longrightarrow> isdigit c"
proof (induction n rule: nat_dec.induct)
  case (1 n)
  show ?case using 1 by (subst (asm) (2) nat_dec.simps) (auto simp: isdigit_def split: if_splits)
qed

lemma isdigit_not_dot: "isdigit c \<Longrightarrow> c \<noteq> CHR ''.''"
  by (auto simp: isdigit_def)

lemma dotted_append:
  "(\<And>c. c \<in> set s \<Longrightarrow> isdigit c) \<Longrightarrow> dotted (s @ t) n = dotted t (foldl (\<lambda>n c. 10 * n + (of_char c - 48)) n s)"
  by (induction s arbitrary: n) (simp_all add: isdigit_not_dot)

lemma foldl_nat_dec: "foldl (\<lambda>n c. 10 * n + (of_char c - 48)) 0 (nat_dec n) = n"
proof (induction n rule: nat_dec.induct)
  case (1 n)
  show ?case
  proof (cases "n < 10")
    case False
    have "foldl (\<lambda>n c. 10 * n + (of_char c - 48)) 0 (nat_dec n) = 10 * (n div 10) + n mod 10"
      using 1 [OF False] False by (subst nat_dec.simps) simp
    then show ?thesis by simp
  qed (subst nat_dec.simps, simp)
qed

lemma dotted_nat_dec: "dotted (nat_dec n @ t) 0 = dotted t n"
  using dotted_append [of "nat_dec n" t 0] nat_dec_chars foldl_nat_dec by simp

lemma inet_addr_ntoa: "length a = 4 \<Longrightarrow> inet_addr (inet_ntoa a) = a"
  using dotted_nat_dec [where t = "[]"]
  by (auto simp: inet_addr_def inet_ntoa_def dotted_nat_dec numeral_eq_Suc length_Suc_conv)

section \<open>The ARP program\<close>

lemma mem_write_nth:
  assumes "i + length bs \<le> length m"
  shows "\<exists>m'. mem_write m i bs = Some m' \<and> length m' = length m \<and>
           (\<forall>j<length m. m' ! j = (if i \<le> j \<and> j < i + length bs then bs ! (j - i) else m ! j))"
  using assms by (auto simp: mem_write_def nth_append)

lemma arp_request_result:
  assumes "length buf = 4096"
  shows "\<exists>buf'. arp_request buf = Some (buf', Arp (inet_ntoa (take 4 (drop 28 buf))) (inet_ntoa (take 4 (drop 38 buf)))) \<and>
           length buf' = 4096 \<and>
           (\<forall>j<4096. buf' ! j = (if j = 11 \<or> j = 27 then buf ! j + 1 else if 28 \<le> j \<and> j < 32 then buf ! (j + 10)
                                  else if 38 \<le> j \<and> j < 42 then buf ! (j - 10) else buf ! j))"
proof -
  let ?sip = "take 4 (drop 28 buf)" and ?tip = "take 4 (drop 38 buf)"
  have ip: "inet_addr (inet_ntoa ?sip) = ?sip" "inet_addr (inet_ntoa ?tip) = ?tip" using assms by (simp_all add: inet_addr_ntoa)
  define b1 where "b1 = buf[27 := buf ! 27 + 1]"
  obtain b2 where b2: "mem_write b1 28 ?tip = Some b2" "length b2 = 4096"
      "\<forall>j<4096. b2 ! j = (if 28 \<le> j \<and> j < 32 then ?tip ! (j - 28) else b1 ! j)"
    using mem_write_nth [of 28 ?tip b1] assms by (auto simp: b1_def)
  obtain b3 where b3: "mem_write b2 38 ?sip = Some b3" "length b3 = 4096"
      "\<forall>j<4096. b3 ! j = (if 38 \<le> j \<and> j < 42 then ?sip ! (j - 38) else b2 ! j)"
    using mem_write_nth [of 38 ?sip b2] assms b2(2) by auto
  have "arp_request buf = Some (b3[11 := b3 ! 11 + 1], Arp (inet_ntoa ?sip) (inet_ntoa ?tip))"
    using assms b2(1) b3(1,2) by (simp add: arp_request_def mem_read_def fetch_def store_def b1_def ip)
  moreover have "b3[11 := b3 ! 11 + 1] ! j = (if j = 11 \<or> j = 27 then buf ! j + 1 else if 28 \<le> j \<and> j < 32 then buf ! (j + 10)
      else if 38 \<le> j \<and> j < 42 then buf ! (j - 10) else buf ! j)" if "j < 4096" for j
    using that b2(3) b3(2,3) assms by (auto simp: b1_def nth_list_update add.commute)
  ultimately show ?thesis using b3(2) by auto
qed

text \<open>C14: An ARP request that arrives is sent back with the same length: the IP addresses of sender and target are exchanged,
  the last byte of the two sender hardware addresses (in the Ethernet and in the ARP header) is one more, and every other
  byte is the same. The addresses survive their way through the dotted notation.\<close>

theorem arp_request_answered:
  assumes "length buf = 4096" and "14 < ret" "ret \<le> 4096" and "be16_at buf 12 = Some 0x0806" "be16_at buf 20 = Some 1"
  shows "\<exists>buf' notes sent. tap_frame buf ret = Some (buf', notes, Some sent) \<and> length sent = ret \<and>
           (\<forall>j<ret. sent ! j = (if j = 11 \<or> j = 27 then buf ! j + 1 else if 28 \<le> j \<and> j < 32 then buf ! (j + 10)
                                  else if 38 \<le> j \<and> j < 42 then buf ! (j - 10) else buf ! j))"
proof -
  obtain buf' note1 where r: "arp_request buf = Some (buf', note1)" "length buf' = 4096"
      "\<forall>j<4096. buf' ! j = (if j = 11 \<or> j = 27 then buf ! j + 1 else if 28 \<le> j \<and> j < 32 then buf ! (j + 10)
                                  else if 38 \<le> j \<and> j < 42 then buf ! (j - 10) else buf ! j)"
    using arp_request_result [OF assms(1)] by blast
  then have "tap_frame buf ret = Some (buf', [note1], Some (take ret buf'))" using assms by (simp add: tap_frame_def)
  then show ?thesis using r assms(3) by auto
qed

definition demo_arp :: bytes where
  "demo_arp = replicate 6 255 @ [2, 0, 0, 0, 0, 1] @ [8, 6] @ [0, 1, 8, 0, 6, 4, 0, 1] @ [2, 0, 0, 0, 0, 1] @ [10, 0, 0, 1] @
     replicate 6 0 @ [10, 0, 0, 2] @ replicate 4054 0"

theorem arp_request_answered_witness:
  "\<exists>buf' notes sent. tap_frame demo_arp 42 = Some (buf', notes, Some sent) \<and> length sent = 42 \<and> sent ! 31 = 2 \<and> sent ! 41 = 1"
proof -
  have l: "length demo_arp = 4096" by (simp add: demo_arp_def)
  have v: "demo_arp ! 12 = 8" "demo_arp ! 13 = 6" "demo_arp ! 20 = 0" "demo_arp ! 21 = 1" "demo_arp ! 41 = 2" "demo_arp ! 31 = 1"
    by (simp_all add: demo_arp_def nth_append)
  have d: "be16_at demo_arp 12 = Some 0x0806" "be16_at demo_arp 20 = Some 1"
    using l v by (simp_all add: be16_at_def mem_read_def)
  obtain buf' ns sent where s: "tap_frame demo_arp 42 = Some (buf', ns, Some sent)" "length sent = 42"
      "\<forall>j<42. sent ! j = (if j = 11 \<or> j = 27 then demo_arp ! j + 1 else if 28 \<le> j \<and> j < 32 then demo_arp ! (j + 10)
                                  else if 38 \<le> j \<and> j < 42 then demo_arp ! (j - 10) else demo_arp ! j)"
    using arp_request_answered [OF l _ _ d, of 42] by auto
  then show ?thesis using v by auto
qed

text \<open>The program stays inside its buffer for every frame but one kind: a UDP packet whose length field, which the sender
  chooses, reaches past the end of the buffer is read out of bounds.\<close>

theorem tap_frame_overread:
  assumes "length buf = 4096"
  shows "tap_frame buf ret = None \<longleftrightarrow>
           14 < ret \<and> be16_at buf 12 = Some 0x0800 \<and> buf ! 23 = 0x11 \<and>
           (\<exists>len. be16_at buf (18 + unat (buf ! 14 AND 15) * 4) = Some len \<and> 4096 < 14 + unat (buf ! 14 AND 15) * 4 + len)"
proof -
  have b: "\<exists>v. be16_at buf i = Some v" if "i + 2 \<le> 4096" for i using that assms by (simp add: be16_at_def mem_read_def)
  have ihl: "unat (buf ! 14 AND 15) \<le> 15" using unat_and_mask_less [of "buf ! 14" 15] by simp
  obtain len where len: "be16_at buf (18 + unat (buf ! 14 AND 15) * 4) = Some len"
    using b [of "18 + unat (buf ! 14 AND 15) * 4"] ihl by auto
  obtain p op where p: "be16_at buf 12 = Some p" "be16_at buf 20 = Some op" using b [of 12] b [of 20] by auto
  have ip: "tap_ip buf = None \<longleftrightarrow> buf ! 23 = 0x11 \<and> 4096 < 14 + unat (buf ! 14 AND 15) * 4 + len"
    using assms ihl len by (auto simp: tap_ip_def mem_read_def Let_def add.commute)
  obtain buf' n where arp: "arp_request buf = Some (buf', n)" using arp_request_result [OF assms] by blast
  show ?thesis using p len ip arp assms by (cases "tap_ip buf") (auto simp: tap_frame_def mem_read_def)
qed

definition demo_udp :: bytes where
  "demo_udp = replicate 12 0 @ [8, 0] @ [0x45, 0, 0, 0, 0, 0, 0, 0, 0, 0x11] @ replicate 10 0 @ replicate 4 0 @ [255, 255] @ replicate 4056 0"

theorem tap_frame_overread_witness: "tap_frame demo_udp 60 = None"
proof -
  have l: "length demo_udp = 4096" by (simp add: demo_udp_def)
  have v: "demo_udp ! 12 = 8" "demo_udp ! 13 = 0" "demo_udp ! 14 = 0x45" "demo_udp ! 23 = 0x11" "demo_udp ! 38 = 255" "demo_udp ! 39 = 255"
    by (simp_all add: demo_udp_def nth_append)
  have "unat (demo_udp ! 14 AND 15) = 5" using v(3) by simp
  then show ?thesis using tap_frame_overread [OF l, of 60] l v by (simp add: be16_at_def mem_read_def)
qed

section \<open>The ICMP program's checksums\<close>

text \<open>The sum of 16-bit words over which the Internet checksum is taken, in the machine's order.\<close>

fun sum16 :: "bytes \<Rightarrow> nat" where
  "sum16 (a # b # xs) = unat a + 256 * unat b + sum16 xs"
| "sum16 [a] = unat a"
| "sum16 [] = 0"

lemma sum16_append: "even (length xs) \<Longrightarrow> sum16 (xs @ ys) = sum16 xs + sum16 ys"
  by (induction xs rule: sum16.induct) auto

lemma sum16_le16: "sum16 (le16_bytes w) = unat w"
proof -
  have "unat (ucast w :: u8) = unat w mod 256"
    by (simp add: unsigned_ucast_eq unsigned_take_bit_eq take_bit_eq_mod)
  moreover have "unat (ucast (drop_bit 8 w) :: u8) = unat w div 256"
    using unsigned_less [of w, where 'a = nat]
    by (simp add: unsigned_ucast_eq unsigned_take_bit_eq take_bit_eq_mod drop_bit_eq_div unat_div_distrib)
  ultimately show ?thesis by (simp add: le16_bytes_def)
qed

lemma le16_bytes_of: "le16_bytes (le16_of a b) = [a, b]"
  unfolding le16_bytes_def le16_of_def by (auto intro!: u8_eqI simp: bitwise)

lemma unat_le16_of: "unat (le16_of a b) = unat a + 256 * unat b"
  using sum16_le16 [of "le16_of a b"] by (simp add: le16_bytes_of)

text \<open>The buffer in its parts: header, source, destination, type, code, checksum, rest.\<close>

lemma icmp_frame_parts:
  assumes "length h = 12" "length src = 4" "length dst = 4"
  shows "icmp_frame (h @ src @ dst @ [ty, code, s0, s1] @ rest) =
           Some (h @ dst @ src @ [0, code] @ le16_bytes (le16_of s0 s1 + 8) @ rest)"
  using assms by (simp add: icmp_frame_def mem_read_def mem_write_def store_def le16_bytes_def nth_append list_update_append)

lemma split_parts:
  assumes "24 \<le> length buf"
  shows "\<exists>h src dst ty code s0 s1 rest. buf = h @ src @ dst @ [ty, code, s0, s1] @ rest \<and> length h = 12 \<and> length src = 4 \<and>
           length dst = 4"
proof -
  have d: "drop 20 buf = buf ! 20 # buf ! 21 # buf ! 22 # buf ! 23 # drop 24 buf"
    using assms Cons_nth_drop_Suc [of 20 buf] Cons_nth_drop_Suc [of 21 buf] Cons_nth_drop_Suc [of 22 buf]
      Cons_nth_drop_Suc [of 23 buf] by simp
  have "buf = take 12 buf @ take 4 (drop 12 buf) @ take 4 (drop 16 buf) @ drop 20 buf"
    using append_take_drop_id [of 12 buf] append_take_drop_id [of 4 "drop 12 buf"] append_take_drop_id [of 4 "drop 16 buf"] by simp
  then show ?thesis unfolding d using assms
    by (intro exI [of _ "take 12 buf"] exI [of _ "take 4 (drop 12 buf)"] exI [of _ "take 4 (drop 16 buf)"] exI conjI) auto
qed

text \<open>
  What the offsets are made for: of a packet without an Ethernet header, as \<^verbatim>\<open>IFF_TUN\<close> would give it, an
  echo request (type 8) would become an echo reply with source and destination exchanged, and without
  computing a checksum both sums that the IP and ICMP checksums protect would be kept, as long as adding
  8 does not wrap the ICMP checksum.
\<close>

theorem icmp_answer_keeps_checksums:
  assumes "length buf = 4096" and "buf ! 20 = 8" and "unat (buf ! 22) + 256 * unat (buf ! 23) < 65528" and "4 \<le> n"
  shows "\<exists>buf'. icmp_frame buf = Some buf' \<and> length buf' = 4096 \<and> buf' ! 20 = 0 \<and>
           take 4 (drop 12 buf') = take 4 (drop 16 buf) \<and> take 4 (drop 16 buf') = take 4 (drop 12 buf) \<and>
           sum16 (take 20 buf') = sum16 (take 20 buf) \<and> sum16 (take n (drop 20 buf')) = sum16 (take n (drop 20 buf))"
proof -
  obtain h src dst ty code s0 s1 rest where b: "buf = h @ src @ dst @ [ty, code, s0, s1] @ rest"
      and l: "length h = 12" "length src = 4" "length dst = 4"
    using split_parts [of buf] assms(1) by auto
  let ?buf' = "h @ dst @ src @ [0, code] @ le16_bytes (le16_of s0 s1 + 8) @ rest"
  have f: "icmp_frame buf = Some ?buf'" unfolding b using l by (rule icmp_frame_parts)
  have ty: "ty = 8" using assms(2) l by (simp add: b nth_append)
  have nowrap: "unat (le16_of s0 s1) + 8 < 65536" using assms(3) l by (simp add: b nth_append unat_le16_of)
  have ws: "unat (le16_of s0 s1 + 8) = unat (le16_of s0 s1) + 8"
    using nowrap by (subst unat_word_ariths(1)) simp
  obtain m where n: "n = Suc (Suc (Suc (Suc m)))" using le_Suc_ex [OF assms(4)] by auto
  have "sum16 (take n (drop 20 ?buf')) = sum16 ([0, code] @ le16_bytes (le16_of s0 s1 + 8)) + sum16 (take m rest)"
    using l n by (simp add: le16_bytes_def)
  also have "\<dots> = sum16 [ty, code, s0, s1] + sum16 (take m rest)"
    by (simp add: sum16_append sum16_le16 ws ty unat_le16_of)
  also have "\<dots> = sum16 (take n (drop 20 buf))" using l n by (simp add: b)
  finally have icmp: "sum16 (take n (drop 20 ?buf')) = sum16 (take n (drop 20 buf))" .
  have ip: "sum16 (take 20 ?buf') = sum16 (take 20 buf)" using l by (simp add: b sum16_append)
  have len: "length ?buf' = 4096" using assms(1) by (simp add: b)
  show ?thesis using f icmp ip len l by (intro exI [of _ ?buf']) (simp add: b nth_append)
qed

definition demo_ping :: bytes where
  "demo_ping = replicate 12 0 @ [10, 0, 0, 1] @ [10, 0, 0, 2] @ [8, 0, 1, 2] @ replicate 4072 0"

theorem icmp_answer_keeps_checksums_witness:
  "\<exists>buf'. icmp_frame demo_ping = Some buf' \<and> buf' ! 20 = 0 \<and> take 4 (drop 12 buf') = [10, 0, 0, 2] \<and>
     sum16 (take 64 (drop 20 buf')) = sum16 (take 64 (drop 20 demo_ping))"
proof -
  have v: "length demo_ping = 4096" "demo_ping ! 20 = 8" "demo_ping ! 22 = 1" "demo_ping ! 23 = 2" "take 4 (drop 16 demo_ping) = [10, 0, 0, 2]"
    by (simp_all add: demo_ping_def nth_append)
  then show ?thesis using icmp_answer_keeps_checksums [of demo_ping 64] by auto
qed

text \<open>What the program makes of the frames it really reads.\<close>

definition ether_type :: "bytes \<Rightarrow> nat" where
  "ether_type f = 256 * unat (f ! 12) + unat (f ! 13)"

definition ip_total_length :: "bytes \<Rightarrow> nat" where
  "ip_total_length f = 256 * unat (f ! 16) + unat (f ! 17)"

definition icmp_sent :: "bytes \<Rightarrow> bytes \<Rightarrow> bool" where
  "icmp_sent f g \<longleftrightarrow> length g = length f \<and> take 12 g = take 12 f \<and> take 4 (drop 12 g) = take 4 (drop 16 f) \<and>
     take 4 (drop 16 g) = take 4 (drop 12 f) \<and> g ! 20 = 0 \<and> g ! 21 = f ! 21 \<and>
     le16_of (g ! 22) (g ! 23) = le16_of (f ! 22) (f ! 23) + 8 \<and> drop 24 g = drop 24 f"

lemma icmp_frame_sent:
  assumes "24 \<le> length f" and "length f \<le> length buf"
  shows "\<exists>buf'. Option.bind (mem_write buf 0 f) icmp_frame = Some buf' \<and> length buf' = length buf \<and> icmp_sent f (take (length f) buf')"
proof -
  obtain h src dst ty code s0 s1 rest where f: "f = h @ src @ dst @ [ty, code, s0, s1] @ rest"
      and l: "length h = 12" "length src = 4" "length dst = 4"
    using split_parts [OF assms(1)] by blast
  define r where "r = rest @ drop (length f) buf"
  let ?g = "h @ dst @ src @ [0, code] @ le16_bytes (le16_of s0 s1 + 8) @ r"
  have "mem_write buf 0 f = Some (h @ src @ dst @ [ty, code, s0, s1] @ r)"
    using assms(2) by (simp add: mem_write_def f r_def)
  then have "Option.bind (mem_write buf 0 f) icmp_frame = Some ?g" by (simp only: icmp_frame_parts [OF l] bind.bind_lunit)
  moreover have "length ?g = length buf" using assms(2) l by (simp add: f r_def le16_bytes_def)
  moreover have "take (length f) ?g = h @ dst @ src @ [0, code] @ le16_bytes (le16_of s0 s1 + 8) @ rest"
  proof -
    have "length f = length (h @ dst @ src @ [0, code] @ le16_bytes (le16_of s0 s1 + 8) @ rest)"
      using l by (simp add: f le16_bytes_def)
    moreover have "?g = (h @ dst @ src @ [0, code] @ le16_bytes (le16_of s0 s1 + 8) @ rest) @ drop (length f) buf"
      by (simp add: r_def)
    ultimately show ?thesis by (metis append_eq_conv_conj)
  qed
  then have "icmp_sent f (take (length f) ?g)"
    using l by (simp add: icmp_sent_def f nth_append le16_bytes_def)
  ultimately show ?thesis by blast
qed

lemma icmp_loop_sent:
  assumes "\<forall>f\<in>set frames. 24 \<le> length f \<and> length f \<le> length buf"
  shows "\<exists>sent. icmp_loop (map Some frames @ [None]) buf = Some sent \<and> list_all2 icmp_sent frames sent"
  using assms
proof (induction frames arbitrary: buf)
  case (Cons f frames)
  obtain buf' where b: "Option.bind (mem_write buf 0 f) icmp_frame = Some buf'" "length buf' = length buf" "icmp_sent f (take (length f) buf')"
    using icmp_frame_sent [of f buf] Cons.prems by auto
  moreover obtain sent where "icmp_loop (map Some frames @ [None]) buf' = Some sent" "list_all2 icmp_sent frames sent"
    using Cons.IH [of buf'] Cons.prems b(2) by auto
  ultimately show ?case by (auto simp: bind_eq_Some_conv)
qed simp

lemma icmp_sent_type:
  assumes "icmp_sent f g" and "24 \<le> length f"
  shows "ether_type g = ip_total_length f"
proof -
  have "take 4 (drop 12 g) ! 0 = take 4 (drop 16 f) ! 0" "take 4 (drop 12 g) ! 1 = take 4 (drop 16 f) ! 1"
    using assms(1) by (simp_all add: icmp_sent_def)
  moreover have "24 \<le> length g" using assms by (simp add: icmp_sent_def)
  ultimately show ?thesis using assms(2) by (simp add: ether_type_def ip_total_length_def)
qed

text \<open>
  C36: What the ICMP program does with the Ethernet frames that its device delivers, whatever number of
  them, each of 24 to 4096 bytes, until a read fails: each is written back with its length and its
  hardware addresses unchanged, the EtherType and the first two bytes of the IP header exchanged with the
  total length and the identification, a zero in the byte at 20, which belongs to the fragment offset, and
  8 more in the two bytes at 22 (time to live and protocol). The EtherType of what is sent is the total length of
  the packet, so an IPv4 frame is sent as an IPv4 frame only if its packet has exactly 2048 bytes: no other echo
  request is answered.
\<close>

theorem icmp_tap_garbles_frames:
  assumes "0 \<le> open_result e" "0 \<le> tunsetiff_result e" and "length buf = 4096"
    and "\<forall>f\<in>set frames. 24 \<le> length f \<and> length f \<le> 4096"
  shows "\<exists>sent. icmp_main e buf (map Some frames @ [None]) = Some (0, sent) \<and> list_all2 icmp_sent frames sent \<and>
           map ether_type sent = map ip_total_length frames"
proof -
  obtain sent where s: "icmp_loop (map Some frames @ [None]) buf = Some sent" "list_all2 icmp_sent frames sent"
    using icmp_loop_sent [of frames buf] assms(3,4) by auto
  have "map ether_type sent = map ip_total_length frames"
    using s(2) assms(4) by (induction rule: list_all2_induct) (auto simp: icmp_sent_type)
  with s assms(1,2) show ?thesis by (simp add: icmp_main_def tun_creat_def Let_def)
qed

definition demo_tun :: tun_env where
  "demo_tun = \<lparr>open_result = 3, tunsetiff_result = 0, kernel_name = (\<lambda>_. ''tap0'')\<rparr>"

text \<open>A ping of 84 bytes: it comes back with the EtherType 84.\<close>

definition demo_echo :: bytes where
  "demo_echo = replicate 6 0xff @ [2, 0, 0, 0, 0, 1] @ [8, 0] @ [0x45, 0, 0, 84, 0, 1, 0x40, 0, 64, 1, 0, 0] @
     [10, 0, 0, 1] @ [10, 0, 0, 2] @ [8, 0, 1, 2] @ replicate 60 0"

theorem icmp_tap_garbles_frames_witness:
  "\<exists>sent. icmp_main demo_tun (replicate 4096 0) [Some demo_echo, None] = Some (0, [sent]) \<and> icmp_sent demo_echo sent \<and>
     ether_type demo_echo = 0x0800 \<and> ether_type sent = 84"
proof -
  have d: "24 \<le> length demo_echo" "length demo_echo \<le> 4096" "ether_type demo_echo = 0x0800" "ip_total_length demo_echo = 84"
    by (simp_all add: demo_echo_def ether_type_def ip_total_length_def nth_append)
  then show ?thesis
    using icmp_tap_garbles_frames [of demo_tun "replicate 4096 0" "[demo_echo]"]
    by (auto simp: demo_tun_def list_all2_Cons1)
qed

section \<open>The raw socket program\<close>

text \<open>
  \<^verbatim>\<open>test_tap_socket.c\<close>: it binds a raw socket to \<^verbatim>\<open>tap0\<close>, takes the interface out of promiscuous mode and sends every frame
  back. The fields \<^verbatim>\<open>ifr_ifindex\<close>, \<^verbatim>\<open>ifr_hwaddr\<close> and \<^verbatim>\<open>ifr_flags\<close> of \<^verbatim>\<open>struct ifreq\<close> share their storage, 16 bytes: the
  flags are the first two bytes, where the hardware address has its type. The kernel's answers are the record \<open>sock_env\<close>;
  \<open>set_flags\<close> are the flags the program sets.
\<close>

record sock_env =
  socket_result :: int
  ifindex_result :: "int + bytes"
  hwaddr_result :: "int + bytes"
  bind_result :: int
  setflags_result :: int

definition IFF_PROMISC :: u16 where "IFF_PROMISC = 0x100"

datatype frame_kind = IP_frame | ARP_frame | RARP_frame | Other_frame

definition kind_of_frame :: "bytes \<Rightarrow> frame_kind" where
  "kind_of_frame buf =
     (if buf ! 12 = 0x08 \<and> buf ! 13 = 0x00 then IP_frame
      else if buf ! 12 = 0x08 \<and> buf ! 13 = 0x06 then ARP_frame
      else if buf ! 12 = 0x80 \<and> buf ! 13 = 0x35 then RARP_frame
      else Other_frame)"

text \<open>The loop reads into 2048 bytes and writes what it has read; a read that fails or is empty is repeated.\<close>

fun sock_loop :: "bytes option list \<Rightarrow> bytes \<Rightarrow> (frame_kind \<times> bytes) list option" where
  "sock_loop [] buf = Some []"
| "sock_loop (None # reads) buf = sock_loop reads buf"
| "sock_loop (Some frame # reads) buf =
     (if frame = [] then sock_loop reads buf
      else Option.bind (mem_write buf 0 frame) (\<lambda>buf.
             Option.bind (sock_loop reads buf) (\<lambda>rest. Some ((kind_of_frame buf, take (length frame) buf) # rest))))"

definition sock_main :: "sock_env \<Rightarrow> bytes option list \<Rightarrow> bytes \<Rightarrow> (int \<times> u16 option \<times> (frame_kind \<times> bytes) list) option" where
  "sock_main e reads buf =
     (if socket_result e < 0 then Some (1, None, [])
      else case ifindex_result e of Inl err \<Rightarrow> Some (-1, None, [])
      | Inr ifidx \<Rightarrow>
        (case hwaddr_result e of Inl err \<Rightarrow> Some (1, None, [])
         | Inr hwaddr \<Rightarrow>
           if bind_result e < 0 then Some (-3, None, [])
           else let flags = le16_of (hwaddr ! 0) (hwaddr ! 1) AND NOT IFF_PROMISC
                in if setflags_result e < 0 then Some (-2, Some flags, [])
                   else Option.bind (sock_loop reads buf) (\<lambda>sent. Some (0, Some flags, sent))))"

text \<open>Every frame is sent back as it came.\<close>

lemma sock_loop_echo:
  "length buf = 2048 \<Longrightarrow> (\<forall>f. Some f \<in> set reads \<longrightarrow> length f \<le> 2048) \<Longrightarrow>
     \<exists>sent. sock_loop reads buf = Some sent \<and> map snd sent = filter (\<lambda>f. f \<noteq> []) (List.map_filter (\<lambda>r. r) reads)"
proof (induction reads buf rule: sock_loop.induct)
  case (3 frame reads buf)
  show ?case
  proof (cases "frame = []")
    case False
    have "length frame \<le> 2048" using 3 by auto
    then obtain buf' where b: "mem_write buf 0 frame = Some buf'" using 3 by (auto simp: mem_write_def)
    have l: "length buf' = 2048" "take (length frame) buf' = frame"
      using mem_write_length [OF b] mem_write_take_end [OF b] 3 by auto
    obtain sent where "sock_loop reads buf' = Some sent" "map snd sent = filter (\<lambda>f. f \<noteq> []) (List.map_filter (\<lambda>r. r) reads)"
      using 3 False b l by auto
    then show ?thesis using False b l by (simp add: map_filter_simps)
  qed (use 3 in \<open>simp add: map_filter_simps\<close>)
qed (simp_all add: map_filter_simps)

text \<open>The raw socket program does not keep the interface's flags: what it sets is the type of the hardware address, which
  lies in the same storage, with the promiscuous bit cleared, whatever the flags were. For an Ethernet device that is the
  up flag alone.\<close>

theorem sock_sets_wrong_flags:
  assumes "sock_main e reads buf = Some (0, flags, sent)" and "hwaddr_result e = Inr (1 # 0 # mac)"
  shows "flags = Some 1"
proof -
  have "le16_of 1 0 AND NOT IFF_PROMISC = 1"
    unfolding le16_of_def IFF_PROMISC_def by simp
  then show ?thesis using assms by (auto simp: sock_main_def Let_def split: if_splits sum.splits)
qed

theorem sock_sets_wrong_flags_witness:
  "\<exists>flags sent. sock_main \<lparr>socket_result = 3, ifindex_result = Inr [5], hwaddr_result = Inr [1, 0, 2, 0, 0, 0, 0, 1], bind_result = 0,
     setflags_result = 0\<rparr> [Some [1, 2]] (replicate 2048 0) = Some (0, flags, sent) \<and> flags = Some 1"
proof -
  let ?e = "\<lparr>socket_result = 3, ifindex_result = Inr [5], hwaddr_result = Inr [1, 0, 2, 0, 0, 0, 0, 1], bind_result = 0,
     setflags_result = 0\<rparr>"
  obtain flags sent where s: "sock_main ?e [Some [1, 2]] (replicate 2048 0) = Some (0, flags, sent)"
    by (simp add: sock_main_def Let_def mem_write_def)
  show ?thesis using sock_sets_wrong_flags [OF s] s by auto
qed

end
