(* ===== verification/SyncDemo.thy ===== *)
theory SyncDemo
  imports Prelude
begin

text \<open>
  The blocking and deferring demos: the completion demo, the wait-queue demo with its copy in the blocking-I/O
  demo, the two loops that sleep by hand (\<^verbatim>\<open>hpet_read\<close> and the \<^verbatim>\<open>reg_read\<close> of the schedule demo), and the tasklet
  and work demos. Processes interleave: a system call that can block is a pair of steps, the call and its
  passage, and every interleaving of the steps is a run. The kernel's completion counter is the one quoted in the
  header comment of \<^verbatim>\<open>test_completion.c\<close>.
\<close>

section \<open>The completion demo\<close>

text \<open>\<^verbatim>\<open>done\<close> is the counter of the completion, \<^verbatim>\<open>str\<close> the message of 100 bytes; \<open>waiting\<close> counts the readers inside
  \<^verbatim>\<open>wait_for_completion\<close>, \<open>writes\<close> and \<open>returned\<close> the calls that are over. The counter is unbounded here;
  the kernel's is an \<^verbatim>\<open>unsigned int\<close>, so the model is that of fewer than \<open>2 ^ 32\<close> writes ahead of the readers.\<close>

record completion_state =
  done_count :: nat
  str :: bytes
  waiting :: nat
  writes :: nat
  returned :: nat

definition text_bytes :: "string \<Rightarrow> bytes" where
  "text_bytes s = map of_char s @ [0]"

text \<open>\<^verbatim>\<open>reg_write\<close>: the last \<open>missing\<close> bytes of the user's buffer cannot be read and arrive as zeroes.\<close>

definition completion_message :: "nat \<Rightarrow> bytes \<Rightarrow> bytes" where
  "completion_message missing buf =
     (if length buf < 100 then take (length buf - missing) buf @ replicate (min missing (length buf)) 0
      else text_bytes ''over flow...'')"

definition completion_reg_write :: "nat \<Rightarrow> bytes \<Rightarrow> completion_state \<Rightarrow> (nat \<times> completion_state) option" where
  "completion_reg_write missing buf s =
     Option.bind (mem_write (str s) 0 (completion_message missing buf))
       (\<lambda>str'. Some (length buf, s\<lparr>str := str', done_count := done_count s + 1, writes := writes s + 1\<rparr>))"

text \<open>\<^verbatim>\<open>reg_read\<close>: the call, and its passage through the completion, after which it prints the message.\<close>

definition completion_read_call :: "completion_state \<Rightarrow> completion_state" where
  "completion_read_call s = s\<lparr>waiting := waiting s + 1\<rparr>"

definition completion_read_pass :: "completion_state \<Rightarrow> (bytes \<times> completion_state) option" where
  "completion_read_pass s =
     (if done_count s = 0 \<or> waiting s = 0 then None
      else Some (takeWhile (\<lambda>b. b \<noteq> 0) (str s),
             s\<lparr>done_count := done_count s - 1, waiting := waiting s - 1, returned := returned s + 1\<rparr>))"

definition completion_start :: completion_state where
  "completion_start = \<lparr>done_count = 0, str = replicate 100 0, waiting = 0, writes = 0, returned = 0\<rparr>"

inductive completion_step :: "completion_state \<Rightarrow> completion_state \<Rightarrow> bool" where
  wr: "completion_reg_write missing buf s = Some (n, s') \<Longrightarrow> completion_step s s'"
| call: "completion_step s (completion_read_call s)"
| pass: "completion_read_pass s = Some (out, s') \<Longrightarrow> completion_step s s'"

inductive completion_reach :: "completion_state \<Rightarrow> bool" where
  init: "completion_reach completion_start"
| step: "completion_reach s \<Longrightarrow> completion_step s s' \<Longrightarrow> completion_reach s'"

inductive_cases completion_stepE: "completion_step s s'"

definition completion_inv :: "completion_state \<Rightarrow> bool" where
  "completion_inv s \<longleftrightarrow> writes s = done_count s + returned s \<and> length (str s) = 100 \<and> str s ! 99 = 0"

lemma mem_write_keeps_last:
  assumes "mem_write m 0 bs = Some m'" and "length bs \<le> i" and "i < length m"
  shows "length m' = length m \<and> m' ! i = m ! i"
  using assms by (auto simp: mem_write_def nth_append split: if_splits)

lemma length_completion_message: "length (completion_message missing buf) \<le> 99"
  by (auto simp: completion_message_def text_bytes_def)

lemma completion_write_inv:
  assumes "completion_inv s" and "completion_reg_write missing buf s = Some (n, s')"
  shows "completion_inv s'"
proof -
  obtain str' where w: "mem_write (str s) 0 (completion_message missing buf) = Some str'"
    and s': "s' = s\<lparr>str := str', done_count := done_count s + 1, writes := writes s + 1\<rparr>"
    using assms(2) by (auto simp: completion_reg_write_def)
  show ?thesis using mem_write_keeps_last [OF w length_completion_message] assms(1) s' by (simp add: completion_inv_def)
qed

lemma completion_read_inv:
  "completion_inv s \<Longrightarrow> completion_inv (completion_read_call s)"
  "completion_inv s \<Longrightarrow> completion_read_pass s = Some (out, s') \<Longrightarrow> completion_inv s'"
  by (auto simp: completion_read_call_def completion_read_pass_def completion_inv_def split: if_splits)

lemma completion_inv_reach: "completion_reach s \<Longrightarrow> completion_inv s"
proof (induction rule: completion_reach.induct)
  case (step s s')
  from step.hyps(2) step.IH show ?case
    by cases (blast intro: completion_write_inv completion_read_inv)+
qed (simp add: completion_inv_def completion_start_def)

lemma takeWhile_nonzero_length: "i < length xs \<Longrightarrow> xs ! i = 0 \<Longrightarrow> length (takeWhile (\<lambda>b. b \<noteq> 0) xs) \<le> (i::nat)"
  by (metis (mono_tags, lifting) not_le nth_mem set_takeWhileD takeWhile_nth)

text \<open>C13: In every run of the completion demo, however writers and readers interleave, the number of reads that have
  returned never exceeds the number of writes, every write that no read has consumed yet is kept for one, and the
  message stays a terminated string inside its 100 bytes.\<close>

theorem completion_counts:
  assumes "completion_reach s"
  shows "returned s \<le> writes s \<and> done_count s = writes s - returned s \<and> length (str s) = 100 \<and>
         length (takeWhile (\<lambda>b. b \<noteq> 0) (str s)) \<le> 99"
  using completion_inv_reach [OF assms] takeWhile_nonzero_length [of 99 "str s"] by (auto simp: completion_inv_def)

lemma completion_demo_reach:
  "completion_reach (completion_read_call (snd (the (completion_reg_write 0 [65, 66] completion_start))))"
proof -
  have "completion_reg_write 0 [65, 66] completion_start = Some (the (completion_reg_write 0 [65, 66] completion_start))"
    by (simp add: completion_reg_write_def completion_start_def completion_message_def mem_write_def)
  then have "completion_step completion_start (snd (the (completion_reg_write 0 [65, 66] completion_start)))"
    by (metis completion_step.wr prod.collapse)
  then show ?thesis by (blast intro: completion_reach.intros completion_step.call)
qed

theorem completion_counts_witness:
  "\<exists>s. completion_reach s \<and> writes s = 1 \<and> returned s = 0 \<and> done_count s = 1"
proof -
  let ?s = "completion_read_call (snd (the (completion_reg_write 0 [65, 66] completion_start)))"
  have "writes ?s = 1" "returned ?s = 0"
    by (simp_all add: completion_read_call_def completion_reg_write_def completion_start_def completion_message_def mem_write_def)
  then show ?thesis using completion_demo_reach completion_counts [OF completion_demo_reach] by auto
qed

text \<open>A write always completes and reports all its bytes, and afterwards a waiting reader can return at once; if the
  write was shorter than 100 bytes, could be read completely and holds no zero byte, and nobody writes in between, the
  message it prints starts with it.\<close>

theorem completion_write_wakes:
  assumes "completion_reach s" and "0 < waiting s"
  shows "\<exists>s'. completion_reg_write missing buf s = Some (length buf, s') \<and>
           (\<exists>out s''. completion_read_pass s' = Some (out, s'') \<and> waiting s'' = waiting s - 1 \<and>
              (length buf < 100 \<and> missing = 0 \<and> 0 \<notin> set buf \<longrightarrow> take (length buf) out = buf))"
proof -
  have len: "length (str s) = 100" using completion_inv_reach [OF assms(1)] by (simp add: completion_inv_def)
  obtain str' where w: "mem_write (str s) 0 (completion_message missing buf) = Some str'"
    using len length_completion_message [of missing buf] by (auto simp: mem_write_def)
  let ?s' = "s\<lparr>str := str', done_count := done_count s + 1, writes := writes s + 1\<rparr>"
  have c: "completion_reg_write missing buf s = Some (length buf, ?s')"
    using w by (simp add: completion_reg_write_def)
  have "take (length buf) (takeWhile (\<lambda>b. b \<noteq> 0) str') = buf"
    if "length buf < 100 \<and> missing = 0 \<and> 0 \<notin> set buf"
  proof -
    have "str' = buf @ drop (length buf) (str s)" using that w len by (simp add: mem_write_def completion_message_def split: if_splits)
    moreover have "takeWhile (\<lambda>b. b \<noteq> 0) (buf @ ys) = buf @ takeWhile (\<lambda>b. b \<noteq> 0) ys" for ys
      using that by (auto intro!: takeWhile_append2)
    ultimately show ?thesis by simp
  qed
  then show ?thesis using c assms(2) by (auto simp: completion_read_pass_def)
qed

theorem completion_write_wakes_witness:
  "\<exists>s s' out s''. waiting s = 1 \<and> completion_reg_write 0 [67, 68] s = Some (2, s') \<and> completion_read_pass s' = Some (out, s'') \<and>
     waiting s'' = 0 \<and> take 2 out = [67, 68]"
proof -
  let ?s = "completion_read_call (snd (the (completion_reg_write 0 [65, 66] completion_start)))"
  have w: "waiting ?s = 1"
    by (simp add: completion_read_call_def completion_reg_write_def completion_start_def completion_message_def mem_write_def)
  obtain s' out s'' where "completion_reg_write 0 [67, 68] ?s = Some (length [67, 68 :: u8], s')"
      "completion_read_pass s' = Some (out, s'')" "waiting s'' = waiting ?s - 1" "take (length [67, 68 :: u8]) out = [67, 68]"
    using completion_write_wakes [OF completion_demo_reach, of 0 "[67, 68]"] w by auto
  then show ?thesis using w by (intro exI [of _ ?s] exI [of _ s'] exI [of _ out] exI [of _ s'']) (simp add: numeral_2_eq_2)
qed

section \<open>The wait-queue demos\<close>

text \<open>
  A writer toggles the static \<^verbatim>\<open>test\<close>, publishes it in \<^verbatim>\<open>ready\<close> and wakes the queue; a reader checks \<^verbatim>\<open>ready\<close>
  whenever it is woken, and clears it once it has passed. \<^verbatim>\<open>wait_event\<close> enters the queue before it checks, so that
  checking and falling asleep are one step with respect to the wake-ups. \<open>toggled\<close> and \<open>published\<close> are the writers
  in the middle of a call.
\<close>

datatype wq_reader = Checking | Asleep | Passed | Returned

record wq_state =
  ready :: bool
  test :: bool
  toggled :: nat
  published :: nat
  toggles :: nat
  readers :: "wq_reader list"

datatype wq_event = WToggle | WPublish | WWake | RCall | RCheck nat | RClear nat

definition wq_wake :: "wq_reader \<Rightarrow> wq_reader" where
  "wq_wake r = (if r = Asleep then Checking else r)"

text \<open>\<^verbatim>\<open>reg_write\<close>, statement by statement.\<close>

fun waitqueue_reg_write :: "wq_event \<Rightarrow> wq_state \<Rightarrow> wq_state option" where
  "waitqueue_reg_write WToggle s = Some (s\<lparr>test := \<not> test s, toggled := toggled s + 1, toggles := toggles s + 1\<rparr>)"
| "waitqueue_reg_write WPublish s =
     (if toggled s = 0 then None else Some (s\<lparr>ready := test s, toggled := toggled s - 1, published := published s + 1\<rparr>))"
| "waitqueue_reg_write WWake s =
     (if published s = 0 then None else Some (s\<lparr>published := published s - 1, readers := map wq_wake (readers s)\<rparr>))"
| "waitqueue_reg_write _ s = None"

text \<open>\<^verbatim>\<open>reg_read\<close> of the \<open>i\<close>-th reader, step by step.\<close>

fun waitqueue_reg_read :: "wq_event \<Rightarrow> wq_state \<Rightarrow> wq_state option" where
  "waitqueue_reg_read RCall s = Some (s\<lparr>readers := readers s @ [Checking]\<rparr>)"
| "waitqueue_reg_read (RCheck i) s =
     (if fetch (readers s) i = Some Checking
      then Some (s\<lparr>readers := (readers s)[i := if ready s then Passed else Asleep]\<rparr>) else None)"
| "waitqueue_reg_read (RClear i) s =
     (if fetch (readers s) i = Some Passed then Some (s\<lparr>ready := False, readers := (readers s)[i := Returned]\<rparr>) else None)"
| "waitqueue_reg_read _ s = None"

definition wq_step :: "wq_event \<Rightarrow> wq_state \<Rightarrow> wq_state option" where
  "wq_step ev s = (if ev \<in> {WToggle, WPublish, WWake} then waitqueue_reg_write ev s else waitqueue_reg_read ev s)"

fun wq_run :: "wq_event list \<Rightarrow> wq_state \<Rightarrow> wq_state option" where
  "wq_run [] s = Some s"
| "wq_run (ev # evs) s = Option.bind (wq_step ev s) (wq_run evs)"

definition wq_start :: wq_state where
  "wq_start = \<lparr>ready = False, test = True, toggled = 0, published = 0, toggles = 0, readers = []\<rparr>"

definition wq_write :: "wq_event list" where
  "wq_write = [WToggle, WPublish, WWake]"

definition wq_inv :: "wq_state \<Rightarrow> bool" where
  "wq_inv s \<longleftrightarrow> test s = even (toggles s) \<and> toggled s \<le> toggles s \<and> (ready s \<longrightarrow> 2 \<le> toggles s) \<and>
     (Passed \<in> set (readers s) \<or> Returned \<in> set (readers s) \<longrightarrow> 2 \<le> toggles s)"

lemma wq_run_append: "wq_run (xs @ ys) s = Option.bind (wq_run xs s) (wq_run ys)"
  by (induction xs arbitrary: s) (auto simp: Option.bind_assoc split: Option.bind_splits)

lemma wq_wake_iff: "wq_wake r = Passed \<longleftrightarrow> r = Passed" "wq_wake r = Returned \<longleftrightarrow> r = Returned"
  by (auto simp: wq_wake_def)

lemma wq_wake_set: "Passed \<in> wq_wake ` A \<longleftrightarrow> Passed \<in> A" "Returned \<in> wq_wake ` A \<longleftrightarrow> Returned \<in> A"
  by (auto simp: wq_wake_def image_iff split: if_splits)

lemma even_positive: "even n \<Longrightarrow> 0 < k \<Longrightarrow> k \<le> n \<Longrightarrow> 2 \<le> (n::nat)"
  by (cases "n = 1") auto

lemma wq_inv_step: "wq_inv s \<Longrightarrow> wq_step ev s = Some s' \<Longrightarrow> wq_inv s'"
proof (cases ev)
  case (RCheck i)
  assume "wq_inv s" "wq_step ev s = Some s'"
  then show ?thesis using RCheck
    by (auto simp: wq_inv_def wq_step_def split: if_splits dest: subsetD [OF set_update_subset_insert])
next
  case (RClear i)
  assume i: "wq_inv s" and w: "wq_step ev s = Some s'"
  have "Passed \<in> set (readers s)" using w RClear by (auto simp: wq_step_def fetch_def split: if_splits) (metis nth_mem)
  then have "2 \<le> toggles s" using i by (simp add: wq_inv_def)
  then show ?thesis using RClear i w by (auto simp: wq_inv_def wq_step_def split: if_splits)
qed (auto simp: wq_inv_def wq_step_def wq_wake_set split: if_splits intro: even_positive)

lemma wq_inv_run: "wq_run evs s = Some s' \<Longrightarrow> wq_inv s \<Longrightarrow> wq_inv s'"
  by (induction evs arbitrary: s) (auto dest: wq_inv_step)

text \<open>However readers and writers of the wait-queue demo interleave, no reader gets past the wait before the second
  write: the first write of all publishes the condition as false.\<close>

theorem waitqueue_needs_two_writes:
  assumes "wq_run evs wq_start = Some s" and "Passed \<in> set (readers s) \<or> Returned \<in> set (readers s)"
  shows "2 \<le> length (filter (\<lambda>ev. ev = WToggle) evs)"
proof -
  have count: "toggles s' = toggles s + length (filter (\<lambda>ev. ev = WToggle) evs)" if "wq_run evs s = Some s'" for evs s s'
    using that
  proof (induction evs arbitrary: s)
    case (Cons ev evs)
    then obtain s1 where s1: "wq_step ev s = Some s1" "wq_run evs s1 = Some s'" by auto
    have "toggles s1 = toggles s + (if ev = WToggle then 1 else 0)"
      using s1(1) by (cases ev) (auto simp: wq_step_def split: if_splits)
    then show ?case using Cons.IH [OF s1(2)] by simp
  qed simp
  have "wq_inv wq_start" by (simp add: wq_inv_def wq_start_def)
  then have "2 \<le> toggles s" using wq_inv_run [OF assms(1)] assms(2) by (simp add: wq_inv_def)
  then show ?thesis using count [OF assms(1)] by (simp add: wq_start_def)
qed

lemmas wq_eval = wq_write_def wq_start_def wq_step_def fetch_def wq_wake_def

theorem waitqueue_needs_two_writes_witness:
  "\<exists>s. wq_run ([RCall, RCheck 0] @ wq_write @ wq_write @ [RCheck 0, RClear 0]) wq_start = Some s \<and> readers s = [Returned] \<and>
     2 \<le> length (filter (\<lambda>ev. ev = WToggle) ([RCall, RCheck 0] @ wq_write @ wq_write @ [RCheck 0, RClear 0]))"
proof -
  obtain s where s: "wq_run ([RCall, RCheck 0] @ wq_write @ wq_write @ [RCheck 0, RClear 0]) wq_start = Some s" "readers s = [Returned]"
    by (simp add: wq_eval)
  from waitqueue_needs_two_writes [OF s(1)] s show ?thesis by auto
qed

text \<open>Every reader that checks before the first one clears the condition passes.\<close>

lemma wq_all_check:
  "ready s \<Longrightarrow> readers s = replicate k Passed @ replicate n Checking \<Longrightarrow>
     wq_run (map RCheck [k..<k + n]) s = Some (s\<lparr>readers := replicate (k + n) Passed\<rparr>)"
proof (induction n arbitrary: k s)
  case (Suc n)
  let ?s1 = "s\<lparr>readers := replicate (Suc k) Passed @ replicate n Checking\<rparr>"
  have st: "wq_step (RCheck k) s = Some ?s1"
    using Suc.prems by (simp add: wq_step_def fetch_def nth_append list_update_append replicate_append_same)
  have "wq_run (map RCheck [Suc k..<Suc k + n]) ?s1 = Some (?s1\<lparr>readers := replicate (Suc k + n) Passed\<rparr>)"
    by (rule Suc.IH) (use Suc.prems in simp_all)
  moreover have "[k..<k + Suc n] = k # [Suc k..<Suc k + n]" by (simp add: upt_conv_Cons)
  ultimately show ?case using st by simp
qed simp

lemma wq_calls: "wq_run (replicate n RCall) s = Some (s\<lparr>readers := readers s @ replicate n Checking\<rparr>)"
  by (induction n arbitrary: s) (simp_all add: wq_step_def)

text \<open>Passing the wait and clearing the condition are not one step: two writes can release any number of readers at
  once, whereas the clearing is meant to let one reader through per wake-up.\<close>

theorem waitqueue_releases_all:
  "\<exists>evs s. length (filter (\<lambda>ev. ev = WToggle) evs) = 2 \<and> wq_run evs wq_start = Some s \<and> readers s = replicate n Passed"
proof -
  let ?evs = "wq_write @ wq_write @ replicate n RCall @ map RCheck [0..<n]"
  obtain s where s: "wq_run (wq_write @ wq_write) wq_start = Some s" "ready s" "readers s = []" by (simp add: wq_eval)
  have "wq_run (map RCheck [0..<0 + n]) (s\<lparr>readers := replicate n Checking\<rparr>) = Some (s\<lparr>readers := replicate (0 + n) Passed\<rparr>)"
    by (subst wq_all_check) (use s in simp_all)
  then have "wq_run ?evs wq_start = Some (s\<lparr>readers := replicate n Passed\<rparr>)"
    using s wq_calls [of n s] by (auto simp: wq_run_append)
  moreover have "length (filter (\<lambda>ev. ev = WToggle) ?evs) = 2" by (simp add: wq_write_def comp_def)
  ultimately show ?thesis by fastforce
qed

text \<open>A sleeping reader returns after one more write, or two, when no other writer or reader interferes.\<close>

lemma wq_write_publishes:
  assumes "toggled s = 0" "published s = 0"
  shows "wq_run wq_write s = Some (s\<lparr>test := \<not> test s, ready := \<not> test s, toggles := toggles s + 1, readers := map wq_wake (readers s)\<rparr>)"
  using assms by (simp add: wq_eval)

lemma waitqueue_reader_returns:
  assumes "toggled s = 0" "published s = 0" and "i < length (readers s)" "readers s ! i = Asleep"
  shows "\<exists>s'. wq_run ((if test s then wq_write @ wq_write else wq_write) @ [RCheck i, RClear i]) s = Some s' \<and>
           readers s' ! i = Returned"
  using assms by (auto simp: wq_run_append wq_write_publishes) (simp_all add: wq_step_def fetch_def wq_wake_def)

section \<open>Sleeping by hand\<close>

text \<open>
  The two loops set the task's state, look for a reason to stop, and call \<^verbatim>\<open>schedule\<close>. What each turn sees is a list:
  the loop is still asleep when the list ends.
\<close>

locale sleep_loop =
  fixes loop :: "'o list \<Rightarrow> 'r option"
    and poll :: "'o \<Rightarrow> 'r option"
  assumes loop_Nil: "loop [] = None"
    and loop_Cons: "loop (x # xs) = (case poll x of Some r \<Rightarrow> Some r | None \<Rightarrow> loop xs)"
begin

lemma loop_returns_iff: "loop xs \<noteq> None \<longleftrightarrow> (\<exists>x\<in>set xs. poll x \<noteq> None)"
  by (induction xs) (auto simp: loop_Nil loop_Cons split: option.splits)

lemma loop_first: "loop xs = Some r \<longleftrightarrow> (\<exists>i<length xs. poll (xs ! i) = Some r \<and> (\<forall>j<i. poll (xs ! j) = None))"
proof (induction xs)
  case (Cons x xs)
  show ?case using Cons.IH by (cases "poll x") (auto simp: loop_Cons Ex_less_Suc2 All_less_Suc2)
qed (simp add: loop_Nil)

end

datatype task_state = TASK_RUNNING | TASK_INTERRUPTIBLE

text \<open>The schedule demo: a turn sees whether a signal is pending.\<close>

fun schedule_loop :: "bool list \<Rightarrow> int option" where
  "schedule_loop [] = None"
| "schedule_loop (pending # turns) = (if pending then Some 0 else schedule_loop turns)"

definition schedule_reg_read :: "bool list \<Rightarrow> (int \<times> task_state) option" where
  "schedule_reg_read turns = Option.bind (schedule_loop turns) (\<lambda>r. Some (r, TASK_RUNNING))"

interpretation schedule: sleep_loop schedule_loop "\<lambda>pending. if pending then Some 0 else None"
  by unfold_locales simp_all

text \<open>\<^verbatim>\<open>hpet_read\<close>: a turn takes the interrupt's data and sees whether a signal is pending.\<close>

definition hpet_poll :: "bool \<Rightarrow> u64 \<times> bool \<Rightarrow> (int + u64) option" where
  "hpet_poll nonblock turn =
     (if fst turn \<noteq> 0 then Some (Inr (fst turn))
      else if nonblock then Some (Inl (- EAGAIN))
      else if snd turn then Some (Inl (- ERESTARTSYS))
      else None)"

fun hpet_loop :: "bool \<Rightarrow> (u64 \<times> bool) list \<Rightarrow> (int + u64) option" where
  "hpet_loop nonblock [] = None"
| "hpet_loop nonblock (turn # turns) =
     (case hpet_poll nonblock turn of Some r \<Rightarrow> Some r | None \<Rightarrow> hpet_loop nonblock turns)"

text \<open>The result, and whether the caller is running and still in the queue.\<close>

definition hpet_read ::
    "nat \<Rightarrow> nat \<Rightarrow> bool \<Rightarrow> (u64 \<Rightarrow> int) \<Rightarrow> (u64 \<times> bool) list \<Rightarrow> (int \<times> task_state \<times> bool) option" where
  "hpet_read hd_ireqfreq count nonblock put_user turns =
     (if hd_ireqfreq = 0 then Some (- EIO, TASK_RUNNING, False)
      else if count < 8 then Some (- EINVAL, TASK_RUNNING, False)
      else Option.bind (hpet_loop nonblock turns) (\<lambda>r.
             let retval = (case r of Inl e \<Rightarrow> e | Inr data \<Rightarrow> if put_user data = 0 then 8 else put_user data)
             in Some (retval, TASK_RUNNING, False)))"

interpretation hpet: sleep_loop "hpet_loop nonblock" "hpet_poll nonblock"
  by unfold_locales simp_all

lemma hpet_poll_quiet: "hpet_poll nonblock turn = None \<longleftrightarrow> \<not> nonblock \<and> fst turn = 0 \<and> \<not> snd turn"
  by (auto simp: hpet_poll_def)

lemma hpet_poll_data: "hpet_poll nonblock turn = Some (Inr d) \<longleftrightarrow> fst turn = d \<and> d \<noteq> 0"
  by (auto simp: hpet_poll_def)

text \<open>The hand-written wait of the blocking-I/O demo returns as soon as a turn brings data or a signal, at once if the
  file does not block, and only then; it returns running and off the queue, and delivers the first data if no signal
  came earlier.\<close>

theorem hpet_read_returns:
  assumes "hd_ireqfreq \<noteq> 0" and "8 \<le> count" and "\<And>d. put_user d = 0"
  shows "(hpet_read hd_ireqfreq count nonblock put_user turns \<noteq> None \<longleftrightarrow>
            (\<exists>turn\<in>set turns. nonblock \<or> fst turn \<noteq> 0 \<or> snd turn)) \<and>
         (hpet_read hd_ireqfreq count nonblock put_user turns = Some (8, TASK_RUNNING, False) \<longleftrightarrow>
            (\<exists>i<length turns. fst (turns ! i) \<noteq> 0 \<and> (\<forall>j<i. \<not> nonblock \<and> fst (turns ! j) = 0 \<and> \<not> snd (turns ! j))))"
proof
  have r: "hpet_read hd_ireqfreq count nonblock put_user turns =
      map_option (\<lambda>r. (case r of Inl e \<Rightarrow> e | Inr data \<Rightarrow> 8, TASK_RUNNING, False)) (hpet_loop nonblock turns)"
    using assms by (cases "hpet_loop nonblock turns") (auto simp: hpet_read_def Let_def split: sum.splits)
  then show "hpet_read hd_ireqfreq count nonblock put_user turns \<noteq> None \<longleftrightarrow>
      (\<exists>turn\<in>set turns. nonblock \<or> fst turn \<noteq> 0 \<or> snd turn)"
    using hpet.loop_returns_iff [of nonblock turns] hpet_poll_quiet by auto
  have "hpet_read hd_ireqfreq count nonblock put_user turns = Some (8, TASK_RUNNING, False) \<longleftrightarrow>
      (\<exists>d. hpet_loop nonblock turns = Some (Inr d))"
  proof -
    have "e \<noteq> 8" if "hpet_loop nonblock turns = Some (Inl e)" for e
      using that unfolding hpet.loop_first by (auto simp: hpet_poll_def split: if_splits)
    then show ?thesis unfolding r by (cases "hpet_loop nonblock turns") (auto split: sum.splits)
  qed
  then show "hpet_read hd_ireqfreq count nonblock put_user turns = Some (8, TASK_RUNNING, False) \<longleftrightarrow>
      (\<exists>i<length turns. fst (turns ! i) \<noteq> 0 \<and> (\<forall>j<i. \<not> nonblock \<and> fst (turns ! j) = 0 \<and> \<not> snd (turns ! j)))"
    unfolding hpet.loop_first hpet_poll_quiet hpet_poll_data by blast
qed

theorem hpet_read_returns_witness:
  "hpet_read 1 8 False (\<lambda>_. 0) [(0, False), (7, True)] = Some (8, TASK_RUNNING, False)"
proof -
  have "\<exists>i<length [(0 :: u64, False), (7, True)]. fst ([(0 :: u64, False), (7, True)] ! i) \<noteq> 0 \<and>
      (\<forall>j<i. \<not> False \<and> fst ([(0 :: u64, False), (7, True)] ! j) = 0 \<and> \<not> snd ([(0 :: u64, False), (7, True)] ! j))"
    by (rule exI [of _ 1]) simp
  then show ?thesis using hpet_read_returns [of 1 8 "\<lambda>_. 0" False "[(0, False), (7, True)]"] by blast
qed

lemma schedule_reg_read_returns: "schedule_reg_read turns = Some (0, TASK_RUNNING) \<longleftrightarrow> True \<in> set turns"
proof -
  have "schedule_loop turns \<noteq> None \<longleftrightarrow> True \<in> set turns" unfolding schedule.loop_returns_iff by auto
  moreover have "schedule_loop turns = Some r \<Longrightarrow> r = 0" for r unfolding schedule.loop_first by (auto split: if_splits)
  ultimately show ?thesis by (cases "schedule_loop turns") (auto simp: schedule_reg_read_def)
qed

section \<open>Tasklets and work items\<close>

text \<open>
  A write asks the kernel to run the handler once more; an item that is already scheduled is not scheduled twice.
  The handler prints the time of the clock, or a fixed line.
\<close>

record deferred_state =
  scheduled :: bool
  asked :: nat
  runs :: nat

definition schedule_item :: "deferred_state \<Rightarrow> deferred_state" where
  "schedule_item s = s\<lparr>scheduled := True, asked := asked s + 1\<rparr>"

definition run_item :: "deferred_state \<Rightarrow> deferred_state option" where
  "run_item s = (if scheduled s then Some (s\<lparr>scheduled := False, runs := runs s + 1\<rparr>) else None)"

definition tasklet_reg_write :: "nat \<Rightarrow> deferred_state \<Rightarrow> nat \<times> deferred_state" where
  "tasklet_reg_write count s = (count, schedule_item s)"

definition tasklet_handler :: "deferred_state \<Rightarrow> deferred_state option" where
  "tasklet_handler s = run_item s"

definition tasklet_hi_reg_write :: "nat \<Rightarrow> deferred_state \<Rightarrow> nat \<times> deferred_state" where
  "tasklet_hi_reg_write count s = (count, schedule_item s)"

definition tasklet_hi_handler :: "deferred_state \<Rightarrow> deferred_state option" where
  "tasklet_hi_handler s = run_item s"

definition work_reg_write :: "nat \<Rightarrow> deferred_state \<Rightarrow> nat \<times> deferred_state" where
  "work_reg_write count s = (count, schedule_item s)"

definition work_func :: "deferred_state \<Rightarrow> deferred_state option" where
  "work_func s = run_item s"

text \<open>A run of writes (\<open>Some count\<close>) and handlers (\<open>None\<close>).\<close>

fun deferred_run :: "(nat \<Rightarrow> 's \<Rightarrow> nat \<times> 's) \<Rightarrow> ('s \<Rightarrow> 's option) \<Rightarrow> nat option list \<Rightarrow> 's \<Rightarrow> 's option" where
  "deferred_run wr handler [] s = Some s"
| "deferred_run wr handler (Some count # evs) s = deferred_run wr handler evs (snd (wr count s))"
| "deferred_run wr handler (None # evs) s = Option.bind (handler s) (deferred_run wr handler evs)"

locale deferred_item =
  fixes wr :: "nat \<Rightarrow> deferred_state \<Rightarrow> nat \<times> deferred_state"
    and handler :: "deferred_state \<Rightarrow> deferred_state option"
  assumes wr_schedules: "wr count s = (count, schedule_item s)"
    and handler_runs: "handler s = run_item s"
begin

text \<open>The handler runs at most once per write, and a write that it has not followed yet keeps it scheduled.\<close>

lemma deferred_counts:
  "deferred_run wr handler evs s = Some s' \<Longrightarrow> runs s + (if scheduled s then 1 else 0) \<le> asked s \<Longrightarrow>
     runs s' + (if scheduled s' then 1 else 0) \<le> asked s'"
proof (induction evs arbitrary: s)
  case (Cons ev evs)
  show ?case
  proof (cases ev)
    case None
    then obtain s1 where s1: "handler s = Some s1" "deferred_run wr handler evs s1 = Some s'"
      using Cons.prems(1) by auto
    show ?thesis by (rule Cons.IH [OF s1(2)]) (use s1(1) Cons.prems(2) in \<open>auto simp: handler_runs run_item_def split: if_splits\<close>)
  next
    case (Some count)
    have "deferred_run wr handler evs (schedule_item s) = Some s'" using Cons.prems(1) Some wr_schedules [of count s] by simp
    then show ?thesis by (rule Cons.IH) (use Cons.prems(2) in \<open>auto simp: schedule_item_def split: if_splits\<close>)
  qed
qed simp

text \<open>Writes without a run of the handler in between amount to one request.\<close>

lemma writes_coalesce:
  "deferred_run wr handler (map Some counts) s =
     Some (s\<lparr>scheduled := scheduled s \<or> counts \<noteq> [], asked := asked s + length counts\<rparr>)"
  by (induction counts arbitrary: s) (simp_all add: wr_schedules schedule_item_def)

end

interpretation tasklet: deferred_item tasklet_reg_write tasklet_handler
  by unfold_locales (simp_all add: tasklet_reg_write_def tasklet_handler_def)

interpretation tasklet_hi: deferred_item tasklet_hi_reg_write tasklet_hi_handler
  by unfold_locales (simp_all add: tasklet_hi_reg_write_def tasklet_hi_handler_def)

interpretation work: deferred_item work_reg_write work_func
  by unfold_locales (simp_all add: work_reg_write_def work_func_def)

end
