(* ===== verification/Demos.thy ===== *)
theory Demos
  imports Prelude
begin

text \<open>
  The small interfaces of the demos: the proc file, the sysfs attribute \<^verbatim>\<open>value\<close> in its three copies, the timer with its
  attributes, the misc device, the netlink echo, the register echo's files, and the C-library stubs of the bare-metal
  application. Text is a string of characters, \<open>None\<close> an access outside an object or undefined behaviour; what \<^verbatim>\<open>sscanf\<close>
  found is an argument, \<open>None\<close> when it found nothing.
\<close>

section \<open>The proc file\<close>

text \<open>\<^verbatim>\<open>str\<close> is null or an allocated, terminated string; \<open>blocks\<close> counts the allocations that are not freed.\<close>

record proc_state =
  proc_str :: "string option"
  blocks :: nat

definition until_nul :: "string \<Rightarrow> string" where
  "until_nul s = takeWhile (\<lambda>c. c \<noteq> CHR 0x00) s"

text \<open>The result, the text written to the user's buffer, whatever its size, and the new offset.\<close>

definition my_proc_read :: "int \<Rightarrow> nat \<Rightarrow> nat \<Rightarrow> proc_state \<Rightarrow> nat \<times> string \<times> nat" where
  "my_proc_read jiffies count off s =
     (if off > 0 then (0, [], off)
      else
        let line1 = ''current kernel time is '' @ c_dec jiffies @ [CHR 0x0A];
            line2 = ''str is '' @ (case proc_str s of None \<Rightarrow> ''(null)'' | Some m \<Rightarrow> until_nul m) @ [CHR 0x0A];
            total = length line1 + length line2
        in (total, line1 @ line2, off + total))"

definition my_proc_write :: "bool \<Rightarrow> bool \<Rightarrow> string \<Rightarrow> proc_state \<Rightarrow> int \<times> proc_state" where
  "my_proc_write kzalloc_ok copy_ok buf s =
     (if \<not> kzalloc_ok then (- ENOMEM, s)
      else
        let s1 = s\<lparr>blocks := blocks s + 1\<rparr>
        in if \<not> copy_ok then (- EFAULT, s1\<lparr>blocks := blocks s1 - 1\<rparr>)
           else
             let s2 = (if proc_str s1 = None then s1 else s1\<lparr>blocks := blocks s1 - 1\<rparr>)
             in (int (length buf), s2\<lparr>proc_str := Some (buf @ [CHR 0x00])\<rparr>))"

definition my_exit :: "proc_state \<Rightarrow> proc_state" where
  "my_exit s = (if proc_str s = None then s else s\<lparr>blocks := blocks s - 1\<rparr>)"

definition proc_inv :: "proc_state \<Rightarrow> bool" where
  "proc_inv s \<longleftrightarrow> blocks s = (if proc_str s = None then 0 else 1)"

fun proc_writes :: "(bool \<times> bool \<times> string) list \<Rightarrow> proc_state \<Rightarrow> proc_state" where
  "proc_writes [] s = s"
| "proc_writes ((kzalloc_ok, copy_ok, buf) # ws) s = proc_writes ws (snd (my_proc_write kzalloc_ok copy_ok buf s))"

lemma proc_inv_write: "proc_inv s \<Longrightarrow> proc_inv (snd (my_proc_write a c buf s))"
  by (auto simp: proc_inv_def my_proc_write_def Let_def)

lemma proc_inv_writes: "proc_inv s \<Longrightarrow> proc_inv (proc_writes ws s)"
  by (induction ws s rule: proc_writes.induct) (simp_all add: proc_inv_write)

text \<open>After any writes to the proc file, some of which may have failed, a text that is written successfully is what the
  next read from the start shows, up to its first zero byte, and what a failed write leaves is what was shown before. There
  is never more than one allocation, and unloading the module frees it.\<close>

theorem proc_write_read:
  fixes ws :: "(bool \<times> bool \<times> string) list"
  defines "s \<equiv> proc_writes ws \<lparr>proc_str = None, blocks = 0\<rparr>"
  shows "(\<exists>s' n out off. my_proc_write True True buf s = (int (length buf), s') \<and> my_proc_read j count 0 s' = (n, out, off) \<and>
            n = length out \<and> off = n \<and>
            out = ''current kernel time is '' @ c_dec j @ [CHR 0x0A] @ ''str is '' @ until_nul buf @ [CHR 0x0A]) \<and>
         proc_str (snd (my_proc_write True False buf s)) = proc_str s \<and> proc_str (snd (my_proc_write False c buf s)) = proc_str s \<and>
         blocks s \<le> 1 \<and> blocks (my_exit s) = 0"
proof -
  have "proc_inv s" unfolding s_def by (rule proc_inv_writes) (simp add: proc_inv_def)
  moreover have "until_nul (buf @ [CHR 0x00]) = until_nul buf" unfolding until_nul_def by (rule takeWhile_tail) simp
  ultimately show ?thesis
    by (auto simp: my_proc_write_def my_proc_read_def my_exit_def proc_inv_def Let_def)
qed

section \<open>The attribute value of the sysfs example\<close>

definition foo_show :: "32 word \<Rightarrow> string" where
  "foo_show foo = c_dec (sint foo) @ [CHR 0x0A]"

definition foo_store :: "32 word option \<Rightarrow> nat \<Rightarrow> 32 word \<Rightarrow> nat \<times> 32 word" where
  "foo_store scanned count foo =
     (let foo = (case scanned of None \<Rightarrow> foo | Some v \<Rightarrow> v);
          foo = foo - 1
      in if sint foo < 0 \<or> sint foo > 1 then (0, foo) else (count, foo))"

text \<open>The attribute does not return the number that was written, as the comment of the example says, but one less; the
  write is accepted for 1 and 2 only, and a rejected number is stored all the same.\<close>

theorem foo_round_trip_off_by_one:
  assumes "- (2 ^ 31) < v" "v < 2 ^ 31"
  shows "foo_show (snd (foo_store (Some (word_of_int v)) count foo)) = c_dec (v - 1) @ [CHR 0x0A] \<and>
         (fst (foo_store (Some (word_of_int v)) count foo) = (if v = 1 \<or> v = 2 then count else 0))"
proof -
  have "sint (word_of_int v - 1 :: 32 word) = v - 1"
  proof -
    have "(word_of_int v - 1 :: 32 word) = word_of_int (v - 1)" by simp
    then show ?thesis using assms by (simp only: sint_sbintrunc') (simp add: signed_take_bit_int_eq_self)
  qed
  then show ?thesis using assms by (auto simp: foo_show_def foo_store_def Let_def)
qed

theorem foo_round_trip_off_by_one_witness:
  "foo_show (snd (foo_store (Some (word_of_int 2)) 2 0)) = c_dec 1 @ [CHR 0x0A]"
  using foo_round_trip_off_by_one [of 2 2 0] by simp

section \<open>The timer\<close>

text \<open>
  The timer is off or armed for a time; \<^verbatim>\<open>timeperiod\<close> is the time between two runs of its function. Times count the
  kernel's ticks, \<open>HZ\<close> of them a second.
\<close>

record timer_state =
  expires :: "u64 option"
  timeperiod :: u32

definition timer_on_show :: "timer_state \<Rightarrow> string" where
  "timer_on_show s = (if expires s \<noteq> None then ''true'' else ''false'') @ [CHR 0x0A]"

definition timer_on_store :: "u64 \<Rightarrow> u32 option \<Rightarrow> nat \<Rightarrow> timer_state \<Rightarrow> nat \<times> timer_state" where
  "timer_on_store jiffies scanned count s =
     (let flag = (case scanned of None \<Rightarrow> 0 | Some v \<Rightarrow> v)
      in (count,
          if flag = 1 then (if timeperiod s \<noteq> 0 then s\<lparr>expires := Some (jiffies + ucast (timeperiod s))\<rparr> else s)
          else if flag = 0 then (if expires s \<noteq> None then s\<lparr>expires := None\<rparr> else s)
          else s))"

definition timer_value_store :: "u32 \<Rightarrow> u64 \<Rightarrow> u32 option \<Rightarrow> nat \<Rightarrow> timer_state \<Rightarrow> nat \<times> timer_state" where
  "timer_value_store HZ jiffies scanned count s =
     (let stime = (case scanned of None \<Rightarrow> 0 | Some v \<Rightarrow> v);
          mstime = stime * HZ div 1000
      in (count, s\<lparr>timeperiod := mstime, expires := Some (jiffies + ucast (stime * HZ))\<rparr>))"

text \<open>The kernel takes the timer off before it calls the function; arming an armed timer with \<^verbatim>\<open>add_timer\<close> is a bug.\<close>

definition timer_demo_func :: "u64 \<Rightarrow> timer_state \<Rightarrow> timer_state option" where
  "timer_demo_func jiffies s =
     (if expires s \<noteq> None then None else Some (s\<lparr>expires := Some (jiffies + ucast (timeperiod s))\<rparr>))"

definition timer_fire :: "timer_state \<Rightarrow> timer_state option" where
  "timer_fire s = Option.bind (expires s) (\<lambda>t. timer_demo_func t (s\<lparr>expires := None\<rparr>))"

definition timer_exit :: "timer_state \<Rightarrow> timer_state" where
  "timer_exit s = (if expires s \<noteq> None then s\<lparr>expires := None\<rparr> else s)"

fun timer_fires :: "nat \<Rightarrow> timer_state \<Rightarrow> timer_state option" where
  "timer_fires 0 s = Some s"
| "timer_fires (Suc n) s = Option.bind (timer_fire s) (timer_fires n)"

lemma timer_fires_period:
  "expires s = Some t \<Longrightarrow> timer_fires n s = Some (s\<lparr>expires := Some (t + of_nat n * ucast (timeperiod s))\<rparr>)"
proof (induction n arbitrary: s t)
  case (Suc n)
  have "timer_fire s = Some (s\<lparr>expires := Some (t + ucast (timeperiod s))\<rparr>)"
    using Suc.prems by (simp add: timer_fire_def timer_demo_func_def)
  then show ?case using Suc.IH [of "s\<lparr>expires := Some (t + ucast (timeperiod s))\<rparr>"] by (simp add: algebra_simps)
qed simp

lemma unat_mult_div: "unat x * unat y < 2 ^ 32 \<Longrightarrow> unat (x * y div 1000 :: u32) = unat x * unat y div 1000"
  by (simp add: unat_div_distrib unat_word_ariths(2))

text \<open>A number of seconds written to the timer's value arms it for that many seconds, but what it repeats with is the
  thousandth part: it runs after v seconds and then every v milliseconds, rounded down to ticks; and for less than 1000 ticks it repeats
  without any time in between.\<close>

theorem timer_repeats_in_milliseconds:
  assumes "unat v * unat HZ < 2 ^ 32"
  shows "timer_fires n (snd (timer_value_store HZ jiffies (Some v) count s)) =
           Some (s\<lparr>timeperiod := v * HZ div 1000,
                   expires := Some (jiffies + of_nat (unat v * unat HZ + n * (unat v * unat HZ div 1000)))\<rparr>)"
proof -
  have m: "unat (v * HZ) = unat v * unat HZ" using assms by (simp add: unat_word_ariths(2))
  have d: "unat (v * HZ div 1000) = unat v * unat HZ div 1000" by (rule unat_mult_div [OF assms])
  have c: "(ucast w :: u64) = of_nat (unat w)" for w :: u32 by simp
  let ?st = "snd (timer_value_store HZ jiffies (Some v) count s)"
  have st: "?st = s\<lparr>timeperiod := v * HZ div 1000, expires := Some (jiffies + of_nat (unat v * unat HZ))\<rparr>"
    by (simp only: timer_value_store_def Let_def option.case snd_conv c m)
  then have e: "expires ?st = Some (jiffies + of_nat (unat v * unat HZ))" by simp
  have p: "ucast (timeperiod ?st) = (of_nat (unat v * unat HZ div 1000) :: u64)" unfolding st using c [of "v * HZ div 1000"] d by simp
  have "jiffies + of_nat (unat v * unat HZ) + of_nat n * of_nat (unat v * unat HZ div 1000) =
      jiffies + of_nat (unat v * unat HZ + n * (unat v * unat HZ div 1000))" by (simp only: of_nat_add of_nat_mult add.assoc)
  then show ?thesis using timer_fires_period [OF e, of n] unfolding p by (simp add: st)
qed

theorem timer_repeats_in_milliseconds_witness:
  "timer_fires 2 (snd (timer_value_store 100 1000 (Some 20) 2 \<lparr>expires = None, timeperiod = 0\<rparr>)) =
     Some \<lparr>expires = Some 3004, timeperiod = 2\<rparr>"
  using timer_repeats_in_milliseconds [of 20 100 2 1000 2 "\<lparr>expires = None, timeperiod = 0\<rparr>"] by simp

section \<open>The misc device\<close>

text \<open>Reading: 14 bytes from the start, whatever the user's buffer holds.\<close>

definition misc_text :: string where
  "misc_text = ''this is buf!'' @ [CHR 0x0A]"

definition misc_my_read :: "nat \<Rightarrow> nat \<Rightarrow> nat \<times> string \<times> nat" where
  "misc_my_read count off = (if off > 0 then (0, [], off) else let len = length misc_text + 1 in (len, misc_text @ [CHR 0x00], off + len))"

text \<open>Writing: a command in a buffer of 100 bytes. Its effect is what is printed: the lines of \<^verbatim>\<open>readall\<close>, or that the
  address is out of range. \<open>scan1\<close> is the address \<^verbatim>\<open>sscanf\<close> finds.\<close>

datatype misc_note = Dump nat | Bad_address

definition misc_write :: "(string \<Rightarrow> u32 option) \<Rightarrow> (string \<Rightarrow> u32 option) \<Rightarrow> bool \<Rightarrow> string \<Rightarrow> (nat \<times> misc_note list) option" where
  "misc_write scan_read scan_write copy_ok src =
     Option.bind (mem_write (replicate 100 (CHR 0x00)) 0 src) (\<lambda>buf.
       let address = (\<lambda>scanned. case scanned of None \<Rightarrow> 0 | Some (a :: u32) \<Rightarrow> a);
           checked = (\<lambda>addr. if addr \<ge> 0x3fff then [Bad_address] else [])
       in Some
         (if \<not> copy_ok then (0, [])
          else if take 7 buf = ''readall'' then (length src, [Dump (length (filter (\<lambda>i. i mod 20 = 0) [0..<0x320f]))])
          else if take 5 buf = ''read '' then (length src, checked (address (scan_read buf)))
          else if take 6 buf = ''write '' then (length src, checked (address (scan_write buf)))
          else (length src, [])))"

text \<open>The module is loaded even if the device cannot be registered.\<close>

definition my_miscdev_init :: "int \<Rightarrow> int" where
  "my_miscdev_init register_result = 0"

text \<open>A command of at most 100 bytes is taken whole; a longer one, which the length of the write alone decides, runs over the
  buffer on the stack.\<close>

lemma misc_write_bounds:
  "misc_write scan_read scan_write copy_ok src = None \<longleftrightarrow> 100 < length src"
  "length src \<le> 100 \<Longrightarrow> \<exists>ns. misc_write scan_read scan_write True src = Some (length src, ns)"
  by (auto simp: misc_write_def mem_write_def Let_def)

section \<open>The netlink echo\<close>

text \<open>
  \<open>refs\<close> are the references to received buffers that the module holds; \<open>sent\<close> are the messages sent, with their receiver.
  A buffer is its message with the length the header counts and the bytes it has room for.
\<close>

record nl_state =
  nl_sk :: bool
  nl_pid :: nat
  nl_flag :: bool
  refs :: nat
  sent :: "(nat \<times> bytes) list"

record nl_skb =
  skb_len :: nat
  skb_room :: bytes
  nlmsg_pid :: nat

text \<open>The reply has a payload of 100 bytes of which one is set; \<open>stale\<close> is what the allocation held before.\<close>

definition sendnlmsg :: "bytes option \<Rightarrow> bytes \<Rightarrow> nl_state \<Rightarrow> nl_state option" where
  "sendnlmsg stale message s =
     (if \<not> nl_sk s then Some s
      else Option.bind stale (\<lambda>room. Option.bind (mem_read message 0 1) (\<lambda>b. Option.bind (mem_write room 0 b) (\<lambda>payload.
             Some (s\<lparr>sent := sent s @ [(nl_pid s, payload)]\<rparr>)))))"

definition nl_data_ready :: "bytes option \<Rightarrow> nl_skb \<Rightarrow> nl_state \<Rightarrow> nl_state option" where
  "nl_data_ready stale skb s =
     (let s = s\<lparr>refs := refs s + 1\<rparr>
      in if skb_len skb \<ge> 16 then
           Option.bind (mem_read (skb_room skb) 16 100) (\<lambda>str.
             Option.bind (sendnlmsg stale (map of_char ''I am from kernel'' @ [10, 0]) (s\<lparr>nl_pid := nlmsg_pid skb\<rparr>)) (\<lambda>s.
               Some (s\<lparr>nl_flag := True, refs := refs s - 1\<rparr>)))
         else Some s)"

definition netlink_init :: "bool \<Rightarrow> nl_state \<Rightarrow> int \<times> nl_state" where
  "netlink_init created s = (if created then (0, s\<lparr>nl_sk := True\<rparr>) else (1, s\<lparr>nl_sk := False\<rparr>))"

fun nl_messages :: "(bytes option \<times> nl_skb) list \<Rightarrow> nl_state \<Rightarrow> nl_state option" where
  "nl_messages [] s = Some s"
| "nl_messages ((stale, skb) # ms) s = Option.bind (nl_data_ready stale skb s) (nl_messages ms)"

lemma nl_data_ready_refs:
  "nl_data_ready stale skb s = Some s' \<Longrightarrow> refs s' = refs s + (if skb_len skb < 16 then 1 else 0)"
  by (auto simp: nl_data_ready_def sendnlmsg_def Let_def split: if_splits)

text \<open>Every message shorter than a netlink header leaves a reference to its buffer behind, so that its memory is never
  freed; the others are released.\<close>

theorem netlink_leaks_short_messages:
  assumes "nl_messages ms s = Some s'"
  shows "refs s' = refs s + length (filter (\<lambda>(stale, skb). skb_len skb < 16) ms)"
  using assms
proof (induction ms s rule: nl_messages.induct)
  case (2 stale skb ms s)
  then obtain s1 where s1: "nl_data_ready stale skb s = Some s1" "nl_messages ms s1 = Some s'" by auto
  show ?case using 2(1) [OF s1] nl_data_ready_refs [OF s1(1)] by simp
qed simp

theorem netlink_leaks_short_messages_witness:
  "\<exists>s'. nl_messages [(None, \<lparr>skb_len = 4, skb_room = [], nlmsg_pid = 0\<rparr>), (Some (replicate 100 7), \<lparr>skb_len = 16, skb_room = replicate 116 0, nlmsg_pid = 9\<rparr>)]
     \<lparr>nl_sk = True, nl_pid = 0, nl_flag = False, refs = 0, sent = []\<rparr> = Some s' \<and> refs s' = 1"
proof -
  let ?ms = "[(None, \<lparr>skb_len = 4, skb_room = [], nlmsg_pid = 0\<rparr>), (Some (replicate 100 7), \<lparr>skb_len = 16, skb_room = replicate 116 0, nlmsg_pid = 9\<rparr>)]"
  obtain s' where s': "nl_messages ?ms \<lparr>nl_sk = True, nl_pid = 0, nl_flag = False, refs = 0, sent = []\<rparr> = Some s'"
    by (simp add: nl_data_ready_def sendnlmsg_def mem_read_def mem_write_def Let_def)
  show ?thesis using netlink_leaks_short_messages [OF s'] s' by auto
qed

text \<open>All but the first byte of a reply are what the memory held before.\<close>

lemma netlink_reply_stale:
  assumes "nl_sk s" and "length room = 100"
  shows "\<exists>s'. sendnlmsg (Some room) (b # message) s = Some s' \<and> sent s' = sent s @ [(nl_pid s, b # drop 1 room)]"
  using assms by (cases room) (simp_all add: sendnlmsg_def mem_read_def mem_write_def)

section \<open>The register echo's files\<close>

text \<open>Opening allocates the private data, which may fail; closing frees it. \<open>testdata\<close> is the private data, \<open>live\<close> the number of
  allocations.\<close>

record testdata =
  field_a :: int
  field_b :: int
  field_c :: int

definition echo_reg_open :: "bool \<Rightarrow> nat \<Rightarrow> testdata option \<times> nat" where
  "echo_reg_open kzalloc_ok live =
     (if kzalloc_ok then (Some \<lparr>field_a = 0, field_b = 0, field_c = 0\<rparr>, live + 1) else (None, live))"

definition echo_release :: "testdata option \<Rightarrow> nat \<Rightarrow> nat" where
  "echo_release pri live = (if pri \<noteq> None then live - 1 else live)"

text \<open>Reading prints the private data without looking whether there is any.\<close>

definition echo_reg_read :: "testdata option \<Rightarrow> (nat \<times> string) option" where
  "echo_reg_read pri =
     Option.bind pri (\<lambda>d. Some (0, ''a['' @ c_dec (field_a d) @ '']b['' @ c_dec (field_b d) @ '']c['' @ c_dec (field_c d) @ '']''))"

text \<open>Writing copies into 100 bytes, and after a mapping that succeeds assigns twice to each of two fields in one expression,
  which C leaves undefined.\<close>

definition echo_reg_write :: "bool \<Rightarrow> (string \<Rightarrow> u32 option) \<Rightarrow> (u32 \<Rightarrow> bool) \<Rightarrow> string \<Rightarrow> nat option" where
  "echo_reg_write copy_ok scan ioremap_ok buf =
     Option.bind (mem_write (replicate 100 (CHR 0x00)) 0 buf) (\<lambda>text.
       if \<not> copy_ok then Some 0
       else
         let reg_addr = (case scan text of None \<Rightarrow> 0 | Some a \<Rightarrow> a)
         in if \<not> ioremap_ok reg_addr then Some (length buf) else None)"

definition TEST_IOC_WRITE :: u32 where "TEST_IOC_WRITE = push_bit 8 97 OR 10"
definition TEST_IOC_READ :: u32 where "TEST_IOC_READ = push_bit 8 97 OR 11"

text \<open>The result of the command, and the byte put into user memory.\<close>

definition reg_ioctl :: "u32 \<Rightarrow> int \<Rightarrow> int \<Rightarrow> int \<times> u8 option" where
  "reg_ioctl cmd get_user put_user =
     (if cmd = TEST_IOC_WRITE then (get_user, None)
      else if cmd = TEST_IOC_READ then (put_user, if put_user = 0 then Some 1 else None)
      else (0, None))"

lemma echo_open_release: "echo_release (fst (echo_reg_open ok live)) (snd (echo_reg_open ok live)) = live"
  by (simp add: echo_release_def echo_reg_open_def)

lemma echo_write_returns:
  "echo_reg_write copy_ok scan ioremap_ok buf \<noteq> None \<Longrightarrow>
     length buf \<le> 100 \<and> (\<not> copy_ok \<or> (\<exists>a. \<not> ioremap_ok a))"
  by (auto simp: echo_reg_write_def mem_write_def Let_def split: if_splits)

section \<open>The bare-metal application\<close>

text \<open>\<^verbatim>\<open>uart_putc_polled\<close> waits until the transmitter is empty: \<open>status\<close> is what the status register shows, read by read; without
  an answer the wait has not ended. The result is the rest of the reads and the output.\<close>

fun uart_wait :: "u32 list \<Rightarrow> u32 list option" where
  "uart_wait [] = None"
| "uart_wait (tsr # status) = (if tsr AND 0x20 \<noteq> 0x20 then uart_wait status else Some status)"

definition uart_putc_polled :: "char \<Rightarrow> u32 list \<times> string \<Rightarrow> (u32 list \<times> string) option" where
  "uart_putc_polled c st = Option.bind (uart_wait (fst st)) (\<lambda>status. Some (status, snd st @ [c]))"

fun uboot_write :: "string \<Rightarrow> u32 list \<times> string \<Rightarrow> (u32 list \<times> string) option" where
  "uboot_write [] st = Some st"
| "uboot_write (c # ptr) st =
     Option.bind (if c = CHR 0x0A then uart_putc_polled (CHR 0x0D) st else Some st) (\<lambda>st.
       Option.bind (uart_putc_polled c st) (uboot_write ptr))"

text \<open>\<^verbatim>\<open>_sbrk\<close>: the old end of the heap, and the new one.\<close>

definition uboot_sbrk :: "int \<Rightarrow> u64 \<Rightarrow> u64 \<times> u64" where
  "uboot_sbrk increment heap_end = (heap_end, heap_end + word_of_int increment)"

definition crlf :: "string \<Rightarrow> string" where
  "crlf s = concat (map (\<lambda>c. if c = CHR 0x0A then [CHR 0x0D, c] else [c]) s)"

definition uart_ready :: "u32 \<Rightarrow> bool" where
  "uart_ready tsr \<longleftrightarrow> tsr AND 0x20 = 0x20"

lemma uart_wait_ready:
  "0 < length (filter uart_ready status) \<Longrightarrow>
     \<exists>status'. uart_wait status = Some status' \<and> length (filter uart_ready status') = length (filter uart_ready status) - 1"
  by (induction status) (auto simp: uart_ready_def)

lemma uart_putc_ready:
  "0 < length (filter uart_ready status) \<Longrightarrow>
     \<exists>status'. uart_putc_polled c (status, out) = Some (status', out @ [c]) \<and>
       length (filter uart_ready status') = length (filter uart_ready status) - 1"
  using uart_wait_ready [of status] by (auto simp: uart_putc_polled_def)

text \<open>If the transmitter becomes ready often enough, the output function of the bare-metal application returns and has sent
  exactly its text with every line feed preceded by a carriage return, one character for each time it was ready.\<close>

theorem uboot_write_sends:
  assumes "length (crlf ptr) \<le> length (filter uart_ready status)"
  shows "\<exists>status'. uboot_write ptr (status, out) = Some (status', out @ crlf ptr) \<and>
           length (filter uart_ready status') = length (filter uart_ready status) - length (crlf ptr)"
  using assms
proof (induction ptr arbitrary: status out)
  case (Cons c ptr)
  let ?k = "length (filter uart_ready status)"
  have pos: "0 < ?k" using Cons.prems by (auto simp: crlf_def split: if_splits)
  obtain st1 out1 where p: "(if c = CHR 0x0A then uart_putc_polled (CHR 0x0D) (status, out) else Some (status, out)) = Some (st1, out1)"
      "out1 @ [c] = out @ crlf [c]" "length (filter uart_ready st1) + length (crlf [c]) = ?k + 1"
    using uart_putc_ready [OF pos, of "CHR 0x0D" out] pos by (cases "c = CHR 0x0A") (auto simp: crlf_def)
  have "0 < length (filter uart_ready st1)" using p(3) Cons.prems by (auto simp: crlf_def split: if_splits)
  then obtain st2 where q: "uart_putc_polled c (st1, out1) = Some (st2, out @ crlf [c])"
      "length (filter uart_ready st2) = length (filter uart_ready st1) - 1"
    using uart_putc_ready [of st1 c out1] p(2) by auto
  have c: "crlf (c # ptr) = crlf [c] @ crlf ptr" by (simp add: crlf_def)
  have "length (crlf ptr) \<le> length (filter uart_ready st2)" using Cons.prems p(3) q(2) c by simp
  from Cons.IH [OF this, of "out @ crlf [c]"] show ?case using p q c by auto
qed (simp add: crlf_def)

theorem uboot_write_sends_witness:
  "\<exists>status'. uboot_write (CHR ''a'' # [CHR 0x0A]) ([0, 0x20, 0x60, 0, 0x20], []) = Some (status', CHR ''a'' # CHR 0x0D # [CHR 0x0A])"
  using uboot_write_sends [of "CHR ''a'' # [CHR 0x0A]" "[0, 0x20, 0x60, 0, 0x20]" "[]"] by (auto simp: crlf_def uart_ready_def)

end
