(* ===== verification/CharDev.thy ===== *)
theory CharDev
  imports Prelude
begin

text \<open>
  Loading and unloading of the modules that register a character device or a class: the demos with a \<^verbatim>\<open>reg_init\<close>
  (completion, wait queue, tasklets, work, schedule, spinlock, register echo, mmap, SPI, blocking I/O), the sysfs
  examples, the blocking counter and the scale gadget. What the kernel answers is the record \<open>chr_env\<close>. The state is
  the module's static variables and a ledger of the kernel calls that took something and were not followed by the
  call that gives it back, with the same arguments: regions of device numbers, character devices, classes, device
  nodes and memory (locks, tasklets and work items that are only initialised have no counterpart, and \<^verbatim>\<open>device_del\<close>
  gives back a node like \<^verbatim>\<open>device_destroy\<close>). \<open>None\<close> is the use of an error pointer as an object.
\<close>

section \<open>The ledger of kernel objects\<close>

record chr_env =
  region_result :: int
  alloc_result :: int
  alloc_major :: nat
  cdev_ok :: bool
  class_result :: int
  timer_class_result :: int
  node_ok :: bool
  group_result :: int
  kmalloc_ok :: bool

text \<open>The static variables of a module come first: they are set anew whenever it is loaded.\<close>

record chr_state =
  major :: nat
  housir_class :: "unit kptr"
  other_class :: "unit kptr"
  has_buffer :: bool
  regions :: "(nat \<times> nat) list"
  cdevs :: "(nat \<times> nat) list"
  classes :: nat
  nodes :: "nat list"
  blocks :: nat

definition resources :: "chr_state \<Rightarrow> (nat \<times> nat) list \<times> (nat \<times> nat) list \<times> nat \<times> nat list \<times> nat" where
  "resources s = (regions s, cdevs s, classes s, nodes s, blocks s)"

definition fresh :: "nat \<Rightarrow> chr_state \<Rightarrow> chr_state" where
  "fresh m s = s\<lparr>major := m, housir_class := NULL, other_class := NULL, has_buffer := False\<rparr>"

text \<open>A region is released only with the number of devices it was taken with.\<close>

definition register_chrdev_region :: "chr_env \<Rightarrow> nat \<Rightarrow> nat \<Rightarrow> chr_state \<Rightarrow> int \<times> chr_state" where
  "register_chrdev_region e m cnt s =
     (region_result e, if region_result e < 0 then s else s\<lparr>regions := (m, cnt) # regions s\<rparr>)"

definition alloc_chrdev_region :: "chr_env \<Rightarrow> nat \<Rightarrow> chr_state \<Rightarrow> int \<times> chr_state" where
  "alloc_chrdev_region e cnt s =
     (alloc_result e, if alloc_result e < 0 then s else s\<lparr>regions := (alloc_major e, cnt) # regions s\<rparr>)"

definition unregister_chrdev_region :: "nat \<Rightarrow> nat \<Rightarrow> chr_state \<Rightarrow> chr_state" where
  "unregister_chrdev_region m cnt s = s\<lparr>regions := remove1 (m, cnt) (regions s)\<rparr>"

definition cdev_add :: "chr_env \<Rightarrow> nat \<Rightarrow> nat \<Rightarrow> chr_state \<Rightarrow> chr_state" where
  "cdev_add e m cnt s = (if cdev_ok e then s\<lparr>cdevs := (m, cnt) # cdevs s\<rparr> else s)"

definition cdev_del :: "nat \<Rightarrow> nat \<Rightarrow> chr_state \<Rightarrow> chr_state" where
  "cdev_del m cnt s = s\<lparr>cdevs := remove1 (m, cnt) (cdevs s)\<rparr>"

definition class_create :: "int \<Rightarrow> chr_state \<Rightarrow> unit kptr \<times> chr_state" where
  "class_create result s = (if result < 0 then (ERR result, s) else (PTR (), s\<lparr>classes := classes s + 1\<rparr>))"

definition class_destroy :: "unit kptr \<Rightarrow> chr_state \<Rightarrow> chr_state" where
  "class_destroy c s = (if c = PTR () then s\<lparr>classes := classes s - 1\<rparr> else s)"

definition device_create :: "chr_env \<Rightarrow> unit kptr \<Rightarrow> nat \<Rightarrow> chr_state \<Rightarrow> unit kptr \<times> chr_state" where
  "device_create e c m s = (if c = PTR () \<and> node_ok e then (PTR (), s\<lparr>nodes := m # nodes s\<rparr>) else (ERR (- ENODEV), s))"

definition device_destroy :: "nat \<Rightarrow> chr_state \<Rightarrow> chr_state" where
  "device_destroy m s = s\<lparr>nodes := remove1 m (nodes s)\<rparr>"

section \<open>The demos with a character device\<close>

text \<open>The common steps of \<^verbatim>\<open>reg_init\<close> with \<open>cnt\<close> device numbers, and of \<^verbatim>\<open>reg_exit\<close>.\<close>

definition chr_region :: "nat \<Rightarrow> chr_env \<Rightarrow> chr_state \<Rightarrow> int \<times> nat \<times> chr_state" where
  "chr_region cnt e s =
     (if major s \<noteq> 0 then case register_chrdev_region e (major s) cnt s of (result, s) \<Rightarrow> (result, major s, s)
      else case alloc_chrdev_region e cnt s of (result, s) \<Rightarrow> (result, alloc_major e, s\<lparr>major := alloc_major e\<rparr>))"

definition chr_init :: "nat \<Rightarrow> chr_env \<Rightarrow> chr_state \<Rightarrow> int \<times> chr_state" where
  "chr_init cnt e s =
     (case chr_region cnt e s of (result, devid, s1) \<Rightarrow>
        if result < 0 then (result, s1)
        else
          let s2 = (if major s1 = 0 then s1\<lparr>major := nat result\<rparr> else s1);
              s3 = cdev_add e devid cnt s2
          in case class_create (class_result e) s3 of (c, s4) \<Rightarrow>
               let s5 = s4\<lparr>housir_class := c\<rparr>
               in if IS_ERR c then (PTR_ERR c, unregister_chrdev_region (major s5) cnt s5)
                  else (0, snd (device_create e c (major s5) s5)))"

definition chr_exit :: "nat \<Rightarrow> chr_state \<Rightarrow> chr_state" where
  "chr_exit cnt s =
     (let s1 = device_destroy (major s) s;
          s2 = (if housir_class s1 \<noteq> NULL then class_destroy (housir_class s1) s1 else s1);
          s3 = cdev_del (major s2) cnt s2
      in if major s3 \<noteq> 0 then unregister_chrdev_region (major s3) cnt s3 else s3)"

definition completion_reg_init :: "chr_env \<Rightarrow> chr_state \<Rightarrow> int \<times> chr_state" where
  "completion_reg_init e s = chr_init 32 e s"

definition completion_reg_exit :: "chr_state \<Rightarrow> chr_state" where
  "completion_reg_exit s = chr_exit 32 s"

definition waitqueue_reg_init :: "chr_env \<Rightarrow> chr_state \<Rightarrow> int \<times> chr_state" where
  "waitqueue_reg_init e s = chr_init 33 e s"

definition waitqueue_reg_exit :: "chr_state \<Rightarrow> chr_state" where
  "waitqueue_reg_exit s = chr_exit 33 s"

definition blockread_reg_init :: "chr_env \<Rightarrow> chr_state \<Rightarrow> int \<times> chr_state" where
  "blockread_reg_init e s = chr_init 33 e s"

definition blockread_reg_exit :: "chr_state \<Rightarrow> chr_state" where
  "blockread_reg_exit s = chr_exit 33 s"

definition tasklet_reg_init :: "chr_env \<Rightarrow> chr_state \<Rightarrow> int \<times> chr_state" where
  "tasklet_reg_init e s = chr_init 32 e s"

definition tasklet_reg_exit :: "chr_state \<Rightarrow> chr_state" where
  "tasklet_reg_exit s = chr_exit 32 s"

definition tasklet_hi_reg_init :: "chr_env \<Rightarrow> chr_state \<Rightarrow> int \<times> chr_state" where
  "tasklet_hi_reg_init e s = chr_init 32 e s"

definition tasklet_hi_reg_exit :: "chr_state \<Rightarrow> chr_state" where
  "tasklet_hi_reg_exit s = chr_exit 32 s"

definition work_reg_init :: "chr_env \<Rightarrow> chr_state \<Rightarrow> int \<times> chr_state" where
  "work_reg_init e s = chr_init 32 e s"

definition work_reg_exit :: "chr_state \<Rightarrow> chr_state" where
  "work_reg_exit s = chr_exit 32 s"

definition schedule_reg_init :: "chr_env \<Rightarrow> chr_state \<Rightarrow> int \<times> chr_state" where
  "schedule_reg_init e s = chr_init 32 e s"

definition schedule_reg_exit :: "chr_state \<Rightarrow> chr_state" where
  "schedule_reg_exit s = chr_exit 32 s"

definition spinlock1_reg_init :: "chr_env \<Rightarrow> chr_state \<Rightarrow> int \<times> chr_state" where
  "spinlock1_reg_init e s = chr_init 32 e s"

definition spinlock1_reg_exit :: "chr_state \<Rightarrow> chr_state" where
  "spinlock1_reg_exit s = chr_exit 32 s"

definition spi_drv_reg_init :: "chr_env \<Rightarrow> chr_state \<Rightarrow> int \<times> chr_state" where
  "spi_drv_reg_init e s = chr_init 32 e s"

definition spi_drv_reg_exit :: "chr_state \<Rightarrow> chr_state" where
  "spi_drv_reg_exit s = chr_exit 32 s"

text \<open>The modules with the value of \<^verbatim>\<open>major\<close> that each starts with.\<close>

definition chr_modules :: "(nat \<times> (chr_env \<Rightarrow> chr_state \<Rightarrow> int \<times> chr_state) \<times> (chr_state \<Rightarrow> chr_state)) list" where
  "chr_modules = [(227, completion_reg_init, completion_reg_exit), (0, waitqueue_reg_init, waitqueue_reg_exit),
     (0, blockread_reg_init, blockread_reg_exit), (0, tasklet_reg_init, tasklet_reg_exit),
     (0, tasklet_hi_reg_init, tasklet_hi_reg_exit), (244, work_reg_init, work_reg_exit),
     (244, schedule_reg_init, schedule_reg_exit), (244, spinlock1_reg_init, spinlock1_reg_exit),
     (244, spi_drv_reg_init, spi_drv_reg_exit)]"

text \<open>The register echo keeps its device and adds attributes to it; the result of that is not used.\<close>

definition echo_reg_init :: "chr_env \<Rightarrow> chr_state \<Rightarrow> (int \<times> chr_state) option" where
  "echo_reg_init e s =
     (case chr_init 32 e s of (result, s1) \<Rightarrow>
        if result < 0 then Some (result, s1)
        else if \<not> node_ok e then None
        else Some (0, s1))"

definition echo_reg_exit :: "chr_state \<Rightarrow> chr_state" where
  "echo_reg_exit s = chr_exit 32 s"

text \<open>The mmap demo allocates a buffer; without memory it undoes the device, the class and the region, and returns
  the result of the region. On unloading the buffer is freed only if there is none.\<close>

definition mmap_reg_init :: "chr_env \<Rightarrow> chr_state \<Rightarrow> int \<times> chr_state" where
  "mmap_reg_init e s =
     (case chr_region 32 e s of (result, devid, s1) \<Rightarrow>
        if result < 0 then (result, s1)
        else
          let s2 = (if major s1 = 0 then s1\<lparr>major := nat result\<rparr> else s1);
              s3 = cdev_add e devid 32 s2
          in case class_create (class_result e) s3 of (c, s4) \<Rightarrow>
               let s5 = s4\<lparr>housir_class := c\<rparr>
               in if IS_ERR c then (PTR_ERR c, unregister_chrdev_region (major s5) 32 s5)
                  else
                    let s6 = snd (device_create e c (major s5) s5)
                    in if \<not> kmalloc_ok e then
                         let s7 = device_destroy (major s6) s6;
                             s8 = (if housir_class s7 \<noteq> NULL then class_destroy (housir_class s7) s7 else s7)
                         in (result, unregister_chrdev_region (major s8) 32 s8)
                       else (0, s6\<lparr>has_buffer := True, blocks := blocks s6 + 1\<rparr>))"

definition mmap_reg_exit :: "chr_state \<Rightarrow> chr_state" where
  "mmap_reg_exit s =
     (let s1 = chr_exit 32 s in if \<not> has_buffer s1 then s1 else s1)"

section \<open>Modules with classes only\<close>

text \<open>The sysfs example and its copy with a spinlock: one class with two devices, both with the number 0.\<close>

definition sysfs_example_init :: "chr_env \<Rightarrow> chr_state \<Rightarrow> (int \<times> chr_state) option" where
  "sysfs_example_init e s =
     (case class_create (class_result e) s of (c, s1) \<Rightarrow>
        case device_create e c 0 (s1\<lparr>housir_class := c\<rparr>) of (d1, s2) \<Rightarrow>
          case device_create e c 0 s2 of (d2, s3) \<Rightarrow>
            if IS_ERR d1 \<or> IS_ERR d2 then None else Some (group_result e, s3))"

definition sysfs_example_exit :: "chr_state \<Rightarrow> chr_state" where
  "sysfs_example_exit s =
     (let s1 = device_destroy 0 (device_destroy 0 s)
      in if housir_class s1 \<noteq> NULL then class_destroy (housir_class s1) s1 else s1)"

text \<open>The timer example: one class with one device; its timer is in the theory \<open>Demos\<close>.\<close>

definition timer_example_init :: "chr_env \<Rightarrow> chr_state \<Rightarrow> (int \<times> chr_state) option" where
  "timer_example_init e s =
     (case class_create (timer_class_result e) s of (c, s1) \<Rightarrow>
        case device_create e c 0 (s1\<lparr>other_class := c\<rparr>) of (d, s2) \<Rightarrow>
          if IS_ERR d then None else Some (group_result e, s2))"

definition timer_example_exit :: "chr_state \<Rightarrow> chr_state" where
  "timer_example_exit s =
     (let s1 = device_destroy 0 s in if other_class s1 \<noteq> NULL then class_destroy (other_class s1) s1 else s1)"

text \<open>The blocking counter does both.\<close>

definition list_head_init :: "chr_env \<Rightarrow> chr_state \<Rightarrow> (int \<times> chr_state) option" where
  "list_head_init e s =
     Option.bind (timer_example_init e s) (\<lambda>(retval, s0).
       case alloc_chrdev_region e 33 s0 of (result, s0) \<Rightarrow>
         let s1 = s0\<lparr>major := alloc_major e\<rparr>
         in if result < 0 then Some (result, s1)
            else
              let s2 = (if major s1 = 0 then s1\<lparr>major := nat result\<rparr> else s1);
                  s3 = cdev_add e (alloc_major e) 33 s2
              in case class_create (class_result e) s3 of (c, s4) \<Rightarrow>
                   let s5 = s4\<lparr>housir_class := c\<rparr>
                   in if IS_ERR c then Some (PTR_ERR c, unregister_chrdev_region (major s5) 33 s5)
                      else Some (retval, snd (device_create e c (major s5) s5)))"

definition list_head_exit :: "chr_state \<Rightarrow> chr_state" where
  "list_head_exit s = chr_exit 33 (timer_example_exit s)"

section \<open>The scale gadget\<close>

text \<open>One device number is taken, two are released; the result of \<^verbatim>\<open>usb_composite_probe\<close> is not used.\<close>

definition scale_module_init :: "chr_env \<Rightarrow> chr_state \<Rightarrow> int \<times> chr_state" where
  "scale_module_init e s =
     (case class_create (class_result e) s of (c, s1) \<Rightarrow>
        let s2 = s1\<lparr>housir_class := c\<rparr>
        in if IS_ERR c then (PTR_ERR c, s2)
           else
             case alloc_chrdev_region e 1 s2 of (status, s3) \<Rightarrow>
               let s4 = s3\<lparr>major := alloc_major e\<rparr>
               in if status \<noteq> 0 then (status, class_destroy c s4) else (0, s4))"

definition scale_module_cleanup :: "chr_state \<Rightarrow> chr_state" where
  "scale_module_cleanup s = class_destroy (housir_class s) (unregister_chrdev_region (major s) 2 s)"

section \<open>The contract of a module\<close>

text \<open>Loading and unloading, again and again; the result of a load that fails ends it.\<close>

fun cycles :: "('s \<Rightarrow> 's) \<Rightarrow> ('e \<Rightarrow> 's \<Rightarrow> (int \<times> 's) option) \<Rightarrow> ('s \<Rightarrow> 's) \<Rightarrow> 'e list \<Rightarrow> 's \<Rightarrow> (int \<times> 's) option" where
  "cycles init load unload [] s = Some (0, s)"
| "cycles init load unload (e # es) s =
     Option.bind (load e (init s)) (\<lambda>(r, s1). if r \<noteq> 0 then Some (r, s1) else cycles init load unload es (unload s1))"

locale kernel_module =
  fixes init :: "'s \<Rightarrow> 's"
    and load :: "'e \<Rightarrow> 's \<Rightarrow> (int \<times> 's) option"
    and unload :: "'s \<Rightarrow> 's"
    and res :: "'s \<Rightarrow> 'r"
    and good :: "'e \<Rightarrow> bool"
  assumes init_res: "res (init s) = res s"
    and load_unload: "good e \<Longrightarrow> load e (init s) = Some (0, s') \<Longrightarrow> res (unload s') = res s"
begin

lemma cycles_res:
  "\<forall>e\<in>set es. good e \<Longrightarrow> cycles init load unload es s = Some (0, s') \<Longrightarrow> res s' = res s"
proof (induction es arbitrary: s)
  case (Cons e es)
  then obtain s1 where l: "load e (init s) = Some (0, s1)" and c: "cycles init load unload es (unload s1) = Some (0, s')"
    by (auto split: if_splits)
  have "res s' = res (unload s1)" using Cons.IH [OF _ c] Cons.prems(1) by simp
  then show ?case using load_unload [OF _ l] Cons.prems(1) by simp
qed simp

end

text \<open>A kernel that can add devices and nodes, and whose dynamic major numbers are not 0.\<close>

definition kernel_ok :: "chr_env \<Rightarrow> bool" where
  "kernel_ok e \<longleftrightarrow> cdev_ok e \<and> node_ok e \<and> alloc_major e \<noteq> 0"

lemmas chr_defs = chr_init_def chr_exit_def chr_region_def register_chrdev_region_def alloc_chrdev_region_def
  unregister_chrdev_region_def cdev_add_def cdev_del_def class_create_def class_destroy_def device_create_def
  device_destroy_def fresh_def resources_def kernel_ok_def Let_def

lemma fresh_resources [simp]: "resources (fresh m s) = resources s"
  by (simp add: chr_defs)

lemma chr_cycle: "kernel_ok e \<Longrightarrow> chr_init cnt e (fresh m s) = (0, s') \<Longrightarrow> resources (chr_exit cnt s') = resources s"
  by (auto simp: chr_defs split: if_splits)

lemma chr_init_result: "chr_init cnt e s = (r, s') \<Longrightarrow> \<not> r < 0 \<Longrightarrow> r = 0"
  by (auto simp: chr_defs split: if_splits)

lemma echo_cycle: "kernel_ok e \<Longrightarrow> echo_reg_init e (fresh m s) = Some (0, s') \<Longrightarrow> resources (echo_reg_exit s') = resources s"
  unfolding echo_reg_init_def echo_reg_exit_def
  by (auto split: prod.splits if_splits) (metis chr_init_result chr_cycle)

lemma chr_module: "kernel_module (fresh m) (\<lambda>e s. Some (chr_init cnt e s)) (chr_exit cnt) resources kernel_ok"
  by unfold_locales (simp_all add: chr_cycle)

lemmas reg_defs = completion_reg_init_def completion_reg_exit_def waitqueue_reg_init_def waitqueue_reg_exit_def
  blockread_reg_init_def blockread_reg_exit_def tasklet_reg_init_def tasklet_reg_exit_def tasklet_hi_reg_init_def
  tasklet_hi_reg_exit_def work_reg_init_def work_reg_exit_def schedule_reg_init_def schedule_reg_exit_def
  spinlock1_reg_init_def spinlock1_reg_exit_def spi_drv_reg_init_def spi_drv_reg_exit_def

interpretation completion_module: kernel_module "fresh 227" "\<lambda>e s. Some (completion_reg_init e s)" completion_reg_exit resources kernel_ok
  unfolding reg_defs by (rule chr_module)

interpretation waitqueue_module: kernel_module "fresh 0" "\<lambda>e s. Some (waitqueue_reg_init e s)" waitqueue_reg_exit resources kernel_ok
  unfolding reg_defs by (rule chr_module)

interpretation blockread_module: kernel_module "fresh 0" "\<lambda>e s. Some (blockread_reg_init e s)" blockread_reg_exit resources kernel_ok
  unfolding reg_defs by (rule chr_module)

interpretation tasklet_module: kernel_module "fresh 0" "\<lambda>e s. Some (tasklet_reg_init e s)" tasklet_reg_exit resources kernel_ok
  unfolding reg_defs by (rule chr_module)

interpretation tasklet_hi_module: kernel_module "fresh 0" "\<lambda>e s. Some (tasklet_hi_reg_init e s)" tasklet_hi_reg_exit resources kernel_ok
  unfolding reg_defs by (rule chr_module)

interpretation work_module: kernel_module "fresh 244" "\<lambda>e s. Some (work_reg_init e s)" work_reg_exit resources kernel_ok
  unfolding reg_defs by (rule chr_module)

interpretation schedule_module: kernel_module "fresh 244" "\<lambda>e s. Some (schedule_reg_init e s)" schedule_reg_exit resources kernel_ok
  unfolding reg_defs by (rule chr_module)

interpretation spinlock1_module: kernel_module "fresh 244" "\<lambda>e s. Some (spinlock1_reg_init e s)" spinlock1_reg_exit resources kernel_ok
  unfolding reg_defs by (rule chr_module)

interpretation spi_drv_module: kernel_module "fresh 244" "\<lambda>e s. Some (spi_drv_reg_init e s)" spi_drv_reg_exit resources kernel_ok
  unfolding reg_defs by (rule chr_module)

interpretation echo_module: kernel_module "fresh 244" echo_reg_init echo_reg_exit resources kernel_ok
  by unfold_locales (simp_all add: echo_cycle)

interpretation sysfs_module: kernel_module "fresh 0" sysfs_example_init sysfs_example_exit resources kernel_ok
  by unfold_locales (auto simp: sysfs_example_init_def sysfs_example_exit_def chr_defs split: if_splits)

interpretation timer_module: kernel_module "fresh 0" timer_example_init timer_example_exit resources kernel_ok
  by unfold_locales (auto simp: timer_example_init_def timer_example_exit_def chr_defs split: if_splits)

interpretation list_head_module: kernel_module "fresh 0" list_head_init list_head_exit resources kernel_ok
  by unfold_locales (auto simp: list_head_init_def list_head_exit_def timer_example_init_def timer_example_exit_def chr_defs
      split: if_splits)

section \<open>Properties\<close>

text \<open>Each of the nine character-device demos can be loaded and unloaded any number of times, with dynamic or fixed
  device numbers: as long as the loads succeed, the regions, devices, classes, nodes and memory afterwards are those
  before.\<close>

theorem demo_modules_reload:
  assumes "(m, load, unload) \<in> set chr_modules" and "\<forall>e\<in>set es. kernel_ok e"
    and "cycles (fresh m) (\<lambda>e s. Some (load e s)) unload es s = Some (0, s')"
  shows "resources s' = resources s"
  using assms(1,3) completion_module.cycles_res [OF assms(2), of s s'] waitqueue_module.cycles_res [OF assms(2), of s s']
    blockread_module.cycles_res [OF assms(2), of s s'] tasklet_module.cycles_res [OF assms(2), of s s']
    tasklet_hi_module.cycles_res [OF assms(2), of s s'] work_module.cycles_res [OF assms(2), of s s']
    schedule_module.cycles_res [OF assms(2), of s s'] spinlock1_module.cycles_res [OF assms(2), of s s']
    spi_drv_module.cycles_res [OF assms(2), of s s']
  unfolding chr_modules_def by auto

definition demo_chr_env :: chr_env where
  "demo_chr_env = \<lparr>region_result = 0, alloc_result = 0, alloc_major = 250, cdev_ok = True, class_result = 0, timer_class_result = 0,
     node_ok = True, group_result = 0, kmalloc_ok = True\<rparr>"

definition demo_chr :: chr_state where
  "demo_chr = \<lparr>major = 0, housir_class = NULL, other_class = NULL, has_buffer = False, regions = [], cdevs = [], classes = 0,
     nodes = [], blocks = 0\<rparr>"

theorem demo_modules_reload_witness:
  "\<exists>s'. cycles (fresh 0) (\<lambda>e s. Some (tasklet_reg_init e s)) tasklet_reg_exit [demo_chr_env, demo_chr_env] demo_chr = Some (0, s') \<and>
     resources s' = resources demo_chr"
proof -
  have "\<exists>s'. cycles (fresh 0) (\<lambda>e s. Some (tasklet_reg_init e s)) tasklet_reg_exit [demo_chr_env, demo_chr_env] demo_chr = Some (0, s')"
    by (simp add: reg_defs chr_defs demo_chr_env_def demo_chr_def)
  then obtain s' where s': "cycles (fresh 0) (\<lambda>e s. Some (tasklet_reg_init e s)) tasklet_reg_exit [demo_chr_env, demo_chr_env] demo_chr = Some (0, s')"
    by blast
  have "(0, tasklet_reg_init, tasklet_reg_exit) \<in> set chr_modules" by (simp add: chr_modules_def)
  from demo_modules_reload [OF this _ s'] s' show ?thesis by (auto simp: kernel_ok_def demo_chr_env_def)
qed

text \<open>When the class cannot be created, each of these demos reports the error and gives back its device numbers, but
  leaves its character device behind.\<close>

theorem class_failure_leaves_cdev:
  assumes "(m, load, unload) \<in> set chr_modules" and "kernel_ok e" and "class_result e < 0"
    and "region_result e = 0" "alloc_result e = 0" and "load e (fresh m s) = (r, s')"
  shows "r = class_result e \<and> regions s' = regions s \<and> (\<exists>d. cdevs s' = d # cdevs s)"
  using assms unfolding chr_modules_def by (auto simp: reg_defs chr_defs)

theorem class_failure_leaves_cdev_witness:
  "\<exists>r s'. completion_reg_init (demo_chr_env\<lparr>class_result := - ENOMEM\<rparr>) (fresh 227 demo_chr) = (r, s') \<and> r = - ENOMEM \<and> cdevs s' \<noteq> []"
proof -
  obtain r s' where l: "completion_reg_init (demo_chr_env\<lparr>class_result := - ENOMEM\<rparr>) (fresh 227 demo_chr) = (r, s')"
    by (cases "completion_reg_init (demo_chr_env\<lparr>class_result := - ENOMEM\<rparr>) (fresh 227 demo_chr)")
  have "(227, completion_reg_init, completion_reg_exit) \<in> set chr_modules" by (simp add: chr_modules_def)
  from class_failure_leaves_cdev [OF this _ _ _ _ l] l show ?thesis by (auto simp: demo_chr_env_def kernel_ok_def)
qed

text \<open>The mmap demo: without memory the load succeeds although nothing but the character device is left of it; and with
  memory, unloading keeps the buffer.\<close>

lemma mmap_init_hides_failure:
  assumes "kernel_ok e" and "class_result e = 0" "region_result e = 0" "alloc_result e = 0" and "\<not> kmalloc_ok e"
  shows "\<exists>s' d. mmap_reg_init e (fresh 0 s) = (0, s') \<and> regions s' = regions s \<and> nodes s' = nodes s \<and> classes s' = classes s \<and>
           cdevs s' = d # cdevs s"
  using assms by (auto simp: mmap_reg_init_def chr_defs)

lemma mmap_exit_leaks:
  assumes "kernel_ok e" and "kmalloc_ok e" and "mmap_reg_init e (fresh 0 s) = (0, s')"
  shows "blocks (mmap_reg_exit s') = blocks s + 1 \<and> regions (mmap_reg_exit s') = regions s"
  using assms by (auto simp: mmap_reg_init_def mmap_reg_exit_def chr_defs split: if_splits)

text \<open>Loading and unloading the scale gadget leaves one region of device numbers behind each time, since it is released
  with another size than it was taken with; classes are balanced.\<close>

theorem scale_module_leaks_region:
  assumes "alloc_result e = 0" and "(alloc_major e, 2) \<notin> set (regions s)" and "scale_module_init e (fresh 0 s) = (0, s')"
  shows "regions (scale_module_cleanup s') = (alloc_major e, 1) # regions s \<and> classes (scale_module_cleanup s') = classes s"
  using assms by (auto simp: scale_module_init_def scale_module_cleanup_def chr_defs remove1_idem split: if_splits)

theorem scale_module_leaks_region_witness:
  "\<exists>s'. scale_module_init demo_chr_env (fresh 0 demo_chr) = (0, s') \<and> regions (scale_module_cleanup s') = [(250, 1)]"
proof -
  have "\<exists>s'. scale_module_init demo_chr_env (fresh 0 demo_chr) = (0, s')"
    by (simp add: scale_module_init_def chr_defs demo_chr_env_def demo_chr_def)
  then obtain s' where s': "scale_module_init demo_chr_env (fresh 0 demo_chr) = (0, s')" by blast
  from scale_module_leaks_region [OF _ _ s'] s' show ?thesis by (auto simp: demo_chr_env_def demo_chr_def)
qed

end
