(* ===== verification/PlatDemo.thy ===== *)
theory PlatDemo
  imports CharDev
begin

text \<open>
  The demos that register drivers, devices, interrupts and regulators: the platform driver, the key and the input driver,
  the firmware demo, and the regulator with its client. As for the character devices, the state is a ledger of what the
  kernel has handed out, the kernel's answers are a record, and a module is an instance of the contract \<open>kernel_module\<close>.
\<close>

section \<open>The ledger\<close>

record plat_env =
  device_result :: int
  driver_result :: int
  rbuff_ok :: bool
  irq1_result :: int
  irq2_result :: int
  input_alloc_ok :: bool
  input_register_result :: int
  firmware_result :: int
  regulator :: "unit kptr"
  enable_result :: int
  disable_result :: int

record plat_state =
  drvdata :: "string option"
  bound :: bool
  work_pending :: bool
  digital :: "unit kptr"
  devices :: nat
  drivers :: nat
  allocs :: nat
  irqs :: "nat list"
  inputs :: nat
  reports :: "nat list"
  firmwares :: nat
  handles :: nat
  enables :: int

definition plat_resources :: "plat_state \<Rightarrow> nat \<times> nat \<times> nat \<times> nat list \<times> nat \<times> nat \<times> nat \<times> int" where
  "plat_resources s = (devices s, drivers s, allocs s, irqs s, inputs s, firmwares s, handles s, enables s)"

definition plat_fresh :: "plat_state \<Rightarrow> plat_state" where
  "plat_fresh s = s\<lparr>drvdata := None, bound := False, work_pending := False, digital := NULL, reports := []\<rparr>"

section \<open>The platform driver\<close>

text \<open>The driver's callbacks: the probe schedules the work that restarts the machine before it allocates.\<close>

definition ENOBUFS :: int where "ENOBUFS = 105"

definition dm90001_probe :: "plat_env \<Rightarrow> plat_state \<Rightarrow> int \<times> plat_state" where
  "dm90001_probe e s =
     (let s = s\<lparr>work_pending := True\<rparr>
      in if \<not> rbuff_ok e then (- ENOBUFS, s)
         else (0, s\<lparr>allocs := allocs s + 1, drvdata := Some ''just test set/get drv data!!''\<rparr>))"

definition dm9000_drv_remove :: "plat_state \<Rightarrow> int \<times> plat_state" where
  "dm9000_drv_remove s =
     (let s = (if drvdata s \<noteq> None then s\<lparr>allocs := allocs s - 1\<rparr> else s) in (0, s\<lparr>drvdata := None\<rparr>))"

text \<open>Registering the driver probes the device, if it is there; a probe that fails leaves it unbound. Unregistering the
  device removes a bound one.\<close>

definition platform_driver_register :: "plat_env \<Rightarrow> plat_state \<Rightarrow> int \<times> plat_state" where
  "platform_driver_register e s =
     (if driver_result e \<noteq> 0 then (driver_result e, s)
      else let s = s\<lparr>drivers := drivers s + 1\<rparr>
           in if device_result e \<noteq> 0 then (0, s)
              else case dm90001_probe e s of (r, s) \<Rightarrow> (0, s\<lparr>bound := (r = 0)\<rparr>))"

definition test_platform_init :: "plat_env \<Rightarrow> plat_state \<Rightarrow> int \<times> plat_state" where
  "test_platform_init e s =
     platform_driver_register e (if device_result e = 0 then s\<lparr>devices := devices s + 1\<rparr> else s)"

definition test_platform_exit :: "plat_state \<Rightarrow> plat_state" where
  "test_platform_exit s =
     (let s = (if bound s then snd (dm9000_drv_remove s) else s);
          s = s\<lparr>bound := False, devices := devices s - 1\<rparr>
      in s\<lparr>drivers := drivers s - 1\<rparr>)"

section \<open>The key and the input driver\<close>

text \<open>The interrupts of the two pins.\<close>

definition key_button_init :: "nat \<Rightarrow> nat \<Rightarrow> plat_env \<Rightarrow> plat_state \<Rightarrow> int \<times> plat_state" where
  "key_button_init irq1 irq2 e s =
     (if irq1_result e \<noteq> 0 then (- EBUSY, s)
      else let s = s\<lparr>irqs := irq1 # irqs s\<rparr>
           in if irq2_result e \<noteq> 0 then (- EBUSY, s) else (0, s\<lparr>irqs := irq2 # irqs s\<rparr>))"

definition key_button_exit :: "nat \<Rightarrow> nat \<Rightarrow> plat_state \<Rightarrow> plat_state" where
  "key_button_exit irq1 irq2 s = s\<lparr>irqs := remove1 irq2 (remove1 irq1 (irqs s))\<rparr>"

text \<open>The input device reports the key five times while it is loaded.\<close>

definition input_button_init :: "plat_env \<Rightarrow> plat_state \<Rightarrow> int \<times> plat_state" where
  "input_button_init e s =
     (if \<not> input_alloc_ok e then (- ENOMEM, s)
      else let s = s\<lparr>inputs := inputs s + 1\<rparr>
           in if input_register_result e \<noteq> 0 then (input_register_result e, s\<lparr>inputs := inputs s - 1\<rparr>)
              else (0, s\<lparr>reports := reports s @ [1, 1, 1, 0, 1]\<rparr>))"

definition input_button_exit :: "plat_state \<Rightarrow> plat_state" where
  "input_button_exit s = s\<lparr>inputs := inputs s - 1\<rparr>"

section \<open>The firmware demo\<close>

definition burn_fw :: "bytes \<Rightarrow> int" where
  "burn_fw fw = 0"

definition fw_work_func :: "plat_env \<Rightarrow> bytes \<Rightarrow> plat_state \<Rightarrow> plat_state" where
  "fw_work_func e fw s =
     (if firmware_result e < 0 then s
      else let s = s\<lparr>firmwares := firmwares s + 1\<rparr>; ret = burn_fw fw in s\<lparr>firmwares := firmwares s - 1\<rparr>)"

definition fw_example_init :: "plat_env \<Rightarrow> bytes \<Rightarrow> plat_state \<Rightarrow> int \<times> plat_state" where
  "fw_example_init e fw s = (0, fw_work_func e fw s)"

section \<open>The regulator and its client\<close>

text \<open>The client turns the regulator on and off. Only a null pointer counts as a failure, for which the error number is 0;
  an error pointer is used as a regulator, which is \<open>None\<close>.\<close>

definition regulator_client_probe :: "plat_env \<Rightarrow> plat_state \<Rightarrow> (int \<times> plat_state) option" where
  "regulator_client_probe e s =
     (let s = s\<lparr>digital := regulator e\<rparr>
      in case regulator e of
           NULL \<Rightarrow> Some (0, s)
         | ERR err \<Rightarrow> None
         | PTR _ \<Rightarrow>
             let s = s\<lparr>handles := handles s + 1\<rparr>
             in if enable_result e \<noteq> 0 then Some (- EFAULT, s)
                else let s = s\<lparr>enables := enables s + 1\<rparr>
                     in if disable_result e \<noteq> 0 then Some (- EFAULT, s) else Some (0, s\<lparr>enables := enables s - 1\<rparr>))"

definition regulator_client_remove :: "plat_state \<Rightarrow> plat_state" where
  "regulator_client_remove s = (if digital s \<noteq> NULL then s\<lparr>handles := handles s - 1\<rparr> else s)"

text \<open>The regulator's own callbacks.\<close>

definition ab3100_enable_regulator :: "int \<Rightarrow> int \<times> int" where
  "ab3100_enable_regulator is_enabled = (0, 1)"

definition ab3100_disable_regulator :: "int \<Rightarrow> int \<times> int" where
  "ab3100_disable_regulator is_enabled = (0, 0)"

definition ab3100_is_enabled_regulator :: "int \<Rightarrow> int" where
  "ab3100_is_enabled_regulator is_enabled = (if is_enabled \<noteq> 0 then 1 else 0)"

text \<open>The regulator's module: whatever fails, it loads; what it leaves is consistent.\<close>

definition regulator_dummy_init :: "bool \<Rightarrow> plat_env \<Rightarrow> plat_state \<Rightarrow> int \<times> plat_state" where
  "regulator_dummy_init alloc_ok e s =
     (if \<not> alloc_ok then (0, s)
      else let s = s\<lparr>allocs := allocs s + 1\<rparr>
           in if device_result e \<noteq> 0 then (0, s\<lparr>allocs := allocs s - 1\<rparr>)
              else let s = s\<lparr>devices := devices s + 1\<rparr>
                   in if driver_result e \<noteq> 0 then (0, s\<lparr>devices := devices s - 1, allocs := allocs s - 1\<rparr>)
                      else (0, s\<lparr>drivers := drivers s + 1\<rparr>))"

section \<open>Loading and unloading\<close>

lemmas plat_defs = plat_fresh_def plat_resources_def Let_def dm90001_probe_def dm9000_drv_remove_def platform_driver_register_def
  test_platform_init_def test_platform_exit_def key_button_init_def key_button_exit_def input_button_init_def input_button_exit_def
  burn_fw_def fw_work_func_def fw_example_init_def regulator_client_probe_def regulator_client_remove_def

interpretation platform_module: kernel_module plat_fresh "\<lambda>e s. Some (test_platform_init e s)" test_platform_exit plat_resources
  "\<lambda>e. device_result e = 0"
  by unfold_locales (auto simp: plat_defs split: if_splits prod.splits)

interpretation key_module: kernel_module plat_fresh "\<lambda>e s. Some (key_button_init irq1 irq2 e s)" "key_button_exit irq1 irq2" plat_resources
  "\<lambda>e. True"
  by unfold_locales (auto simp: plat_defs split: if_splits)

interpretation input_module: kernel_module plat_fresh "\<lambda>e s. Some (input_button_init e s)" input_button_exit plat_resources "\<lambda>e. True"
  by unfold_locales (auto simp: plat_defs split: if_splits)

interpretation fw_module: kernel_module plat_fresh "\<lambda>e s. Some (fw_example_init e fw s)" "\<lambda>s. s" plat_resources "\<lambda>e. True"
  by unfold_locales (auto simp: plat_defs split: if_splits)

interpretation regulator_client_module: kernel_module plat_fresh regulator_client_probe regulator_client_remove plat_resources "\<lambda>e. True"
  by unfold_locales (auto simp: plat_defs split: if_splits kptr.splits)

text \<open>The platform driver's demo can be loaded and unloaded again and again, even when its probe fails for want of memory:
  as long as its device can be registered, devices, drivers and memory are afterwards what they were.\<close>

theorem platform_demo_reload:
  assumes "\<forall>e\<in>set es. device_result e = 0"
    and "cycles plat_fresh (\<lambda>e s. Some (test_platform_init e s)) test_platform_exit es s = Some (0, s')"
  shows "plat_resources s' = plat_resources s"
  using assms by (rule platform_module.cycles_res)

definition demo_plat_env :: plat_env where
  "demo_plat_env = \<lparr>device_result = 0, driver_result = 0, rbuff_ok = True, irq1_result = 0, irq2_result = 0, input_alloc_ok = True,
     input_register_result = 0, firmware_result = 0, regulator = PTR (), enable_result = 0, disable_result = 0\<rparr>"

definition demo_plat :: plat_state where
  "demo_plat = \<lparr>drvdata = None, bound = False, work_pending = False, digital = NULL, devices = 0, drivers = 0, allocs = 0, irqs = [],
     inputs = 0, reports = [], firmwares = 0, handles = 0, enables = 0\<rparr>"

theorem platform_demo_reload_witness:
  "\<exists>s'. cycles plat_fresh (\<lambda>e s. Some (test_platform_init e s)) test_platform_exit [demo_plat_env, demo_plat_env\<lparr>rbuff_ok := False\<rparr>] demo_plat =
     Some (0, s') \<and> plat_resources s' = plat_resources demo_plat"
proof -
  obtain s' where s': "cycles plat_fresh (\<lambda>e s. Some (test_platform_init e s)) test_platform_exit
      [demo_plat_env, demo_plat_env\<lparr>rbuff_ok := False\<rparr>] demo_plat = Some (0, s')"
    by (simp add: plat_defs demo_plat_env_def demo_plat_def)
  show ?thesis using platform_demo_reload [OF _ s'] s' by (auto simp: demo_plat_env_def)
qed

text \<open>A load that fails half-way keeps what it had: the first interrupt of the key driver, the platform device, the client's
  regulator. And the platform driver's work survives its unloading.\<close>

lemma key_second_irq_leaks:
  "irq1_result e = 0 \<Longrightarrow> irq2_result e \<noteq> 0 \<Longrightarrow> key_button_init irq1 irq2 e s = (- EBUSY, s\<lparr>irqs := irq1 # irqs s\<rparr>)"
  by (simp add: plat_defs)

lemma platform_init_leaks_device:
  "device_result e = 0 \<Longrightarrow> driver_result e \<noteq> 0 \<Longrightarrow> test_platform_init e s = (driver_result e, s\<lparr>devices := devices s + 1\<rparr>)"
  by (simp add: plat_defs)

lemma regulator_client_leaks:
  "regulator e = PTR () \<Longrightarrow> enable_result e \<noteq> 0 \<Longrightarrow>
     regulator_client_probe e s = Some (- EFAULT, s\<lparr>digital := PTR (), handles := handles s + 1\<rparr>)"
  by (simp add: plat_defs)

lemma platform_work_survives:
  "device_result e = 0 \<Longrightarrow> test_platform_init e s = (0, s') \<Longrightarrow> work_pending (test_platform_exit s')"
  by (auto simp: plat_defs split: if_splits prod.splits)

lemma regulator_dummy_consistent:
  "regulator_dummy_init alloc_ok e s = (r, s') \<Longrightarrow>
     r = 0 \<and> (plat_resources s' = plat_resources s \<or>
              allocs s' = allocs s + 1 \<and> devices s' = devices s + 1 \<and> drivers s' = drivers s + 1)"
  by (auto simp: regulator_dummy_init_def plat_resources_def Let_def split: if_splits)

end
