(* ===== verification/RegField.thy ===== *)
theory RegField
  imports Prelude
begin

text \<open>
  Bit fields of device registers. The headers of the USB controllers describe a register by named fields, either by a mask
  with an offset or by an offset with a size, and by single bits, and they read and replace a field with macros. Here is
  what such macros have to do, as the interface \<open>register_fields\<close>, with its consequences for sequences of writes, and the
  proof that the two ways of describing a field implement it. The collection \<open>field_bits\<close> holds the bit-level facts.
\<close>

named_theorems field_bits \<open>bits of masks, fields and their insertion\<close>

section \<open>The interface\<close>

text \<open>
  A field has a width; \<open>get\<close> reads it and \<open>put f v w\<close> is the word \<open>w\<close> with \<open>v\<close> in the field. Two fields that do not
  overlap are \<open>apart\<close>. What is read after a write is the value cut to the width, and a field apart from it keeps its value.
\<close>

locale register_fields =
  fixes get :: "'f \<Rightarrow> u32 \<Rightarrow> u32"
    and put :: "'f \<Rightarrow> u32 \<Rightarrow> u32 \<Rightarrow> u32"
    and width :: "'f \<Rightarrow> nat"
    and wf :: "'f \<Rightarrow> bool"
    and apart :: "'f \<Rightarrow> 'f \<Rightarrow> bool"
  assumes get_put: "wf f \<Longrightarrow> get f (put f v w) = take_bit (width f) v"
    and get_put_apart: "wf f \<Longrightarrow> wf g \<Longrightarrow> apart f g \<Longrightarrow> get g (put f v w) = get g w"
    and put_put: "wf f \<Longrightarrow> put f v (put f u w) = put f v w"
    and put_apart: "wf f \<Longrightarrow> wf g \<Longrightarrow> apart f g \<Longrightarrow> put f u (put g v w) = put g v (put f u w)"
    and put_get: "wf f \<Longrightarrow> put f (get f w) w = w"
begin

text \<open>A layout is a list of fields; the register's abstract value is what each of its fields holds.\<close>

fun layout :: "'f list \<Rightarrow> bool" where
  "layout [] = True"
| "layout (f # fs) = (wf f \<and> list_all (\<lambda>g. apart f g \<and> apart g f) fs \<and> layout fs)"

lemma layout_wf: "layout fs \<Longrightarrow> f \<in> set fs \<Longrightarrow> wf f"
  by (induction fs) auto

lemma layout_apart: "layout fs \<Longrightarrow> f \<in> set fs \<Longrightarrow> g \<in> set fs \<Longrightarrow> f \<noteq> g \<Longrightarrow> apart f g"
  by (induction fs) (auto simp: list_all_iff)

lemma layout_get_put:
  assumes "layout fs" and "f \<in> set fs" and "g \<in> set fs"
  shows "get g (put f v w) = (if g = f then take_bit (width f) v else get g w)"
  using assms get_put [of f v w] get_put_apart [of f g v w] layout_wf [OF assms(1)] layout_apart [OF assms(1-3)] by auto

text \<open>After any sequence of writes a field holds the last value written to it, cut to its width, or what it held before.\<close>

lemma get_puts:
  assumes "layout fs" and "list_all (\<lambda>p. fst p \<in> set fs) ps" and "g \<in> set fs"
  shows "get g (fold (\<lambda>p. put (fst p) (snd p)) ps w) =
     (case map_of (rev ps) g of None \<Rightarrow> get g w | Some v \<Rightarrow> take_bit (width g) v)"
  using assms(2)
proof (induction ps arbitrary: w)
  case (Cons p ps)
  then show ?case
    using layout_get_put [OF assms(1) _ assms(3), of "fst p" "snd p" w] by (cases p) (auto split: option.splits)
qed simp

text \<open>Writes to different fields can be done in either order, and writing back what was read changes nothing.\<close>

lemma layout_put_commute:
  "layout fs \<Longrightarrow> f \<in> set fs \<Longrightarrow> g \<in> set fs \<Longrightarrow> f \<noteq> g \<Longrightarrow> put f u (put g v w) = put g v (put f u w)"
  using put_apart layout_wf layout_apart by metis

end

section \<open>Words, masks and offsets\<close>

text \<open>The number of bits that are set in a mask.\<close>

definition ones :: "u32 \<Rightarrow> nat" where
  "ones m = length (filter (bit m) [0..<32])"

text \<open>A field given by its mask and its offset: the mask is a run of set bits that starts at the offset.\<close>

definition mo_wf :: "u32 \<times> nat \<Rightarrow> bool" where
  "mo_wf f \<longleftrightarrow> fst f = push_bit (snd f) (mask (ones (fst f))) \<and> snd f + ones (fst f) \<le> 32"

definition mo_apart :: "u32 \<times> nat \<Rightarrow> u32 \<times> nat \<Rightarrow> bool" where
  "mo_apart f g \<longleftrightarrow> fst f AND fst g = 0"

text \<open>A field given by its offset and its size.\<close>

definition os_wf :: "nat \<times> nat \<Rightarrow> bool" where
  "os_wf f \<longleftrightarrow> fst f + snd f \<le> 32"

definition os_apart :: "nat \<times> nat \<Rightarrow> nat \<times> nat \<Rightarrow> bool" where
  "os_apart f g \<longleftrightarrow> fst f + snd f \<le> fst g \<or> fst g + snd g \<le> fst f"

lemma bit_u32_high [field_bits]: "32 \<le> n \<Longrightarrow> \<not> bit (w :: u32) n"
  using bit_imp_le_length [of w n] by auto

lemma u32_eqI: "(\<And>n. n < 32 \<Longrightarrow> bit x n = bit y n) \<Longrightarrow> x = (y::u32)"
  by (rule bit_word_eqI) auto

lemma apart_bits: "m AND k = 0 \<Longrightarrow> bit (m :: u32) n \<Longrightarrow> \<not> bit k n"
  by (metis bit_0_eq bit_and_iff bot_apply bot_bool_def)

lemma mo_wf_bit:
  assumes "mo_wf f"
  shows "bit (fst f) n \<longleftrightarrow> snd f \<le> n \<and> n < snd f + ones (fst f)"
proof -
  define m k where "m = fst f" and "k = ones m"
  have "m = push_bit (snd f) (mask k)" "snd f + k \<le> 32" using assms by (simp_all add: mo_wf_def m_def k_def)
  then have "bit m n \<longleftrightarrow> snd f \<le> n \<and> n < snd f + k" by (auto simp: bit_simps)
  then show ?thesis by (simp add: m_def k_def)
qed

lemma mo_wf_32: "mo_wf f \<Longrightarrow> snd f + ones (fst f) \<le> 32"
  by (simp add: mo_wf_def)

text \<open>Disjointness of a list of masks, with the bits that are used so far.\<close>

fun masks_apart :: "u32 \<Rightarrow> (u32 \<times> nat) list \<Rightarrow> bool" where
  "masks_apart used [] = True"
| "masks_apart used (f # fs) = (used AND fst f = 0 \<and> masks_apart (used OR fst f) fs)"

lemma masks_apart_used: "masks_apart used fs \<Longrightarrow> f \<in> set fs \<Longrightarrow> used AND fst f = 0"
  by (induction used fs rule: masks_apart.induct) (auto simp: word_ao_dist or_eq_0_iff)

section \<open>Structures over registers\<close>

text \<open>
  A structure is the list of its members with the size of an element and the number of elements. Members lie at the next
  multiple of the size of their elements; \<open>c_offsets\<close> gives where, from the offset that is free.
\<close>

fun c_offsets :: "int \<Rightarrow> (string \<times> int \<times> int) list \<Rightarrow> (string \<times> int) list" where
  "c_offsets free [] = []"
| "c_offsets free ((n, sz, k) # ms) = (let a = (free + sz - 1) div sz * sz in (n, a) # c_offsets (a + sz * k) ms)"

text \<open>The bytes a structure needs, without what may be added behind it.\<close>

fun c_extent :: "int \<Rightarrow> (string \<times> int \<times> int) list \<Rightarrow> int" where
  "c_extent free [] = free"
| "c_extent free ((n, sz, k) # ms) = (let a = (free + sz - 1) div sz * sz in c_extent (a + sz * k) ms)"

text \<open>Members do not overlap and stay in order: every offset is at or behind the end of the members before it.\<close>

lemma c_offsets_ge:
  "(n, a) \<in> set (c_offsets free ms) \<Longrightarrow> list_all (\<lambda>m. 0 < fst (snd m) \<and> 0 \<le> snd (snd m)) ms \<Longrightarrow> free \<le> a"
proof (induction free ms rule: c_offsets.induct)
  case (2 free m sz k ms)
  define b where "b = (free + sz - 1) div sz * sz"
  have pos: "0 < sz" "0 \<le> sz * k" using 2(3) by simp_all
  have "free + sz - 1 = b + (free + sz - 1) mod sz" by (simp add: b_def)
  then have "free \<le> b" using pos_mod_bound [OF pos(1), of "free + sz - 1"] by linarith
  moreover have "b + sz * k \<le> a" if "(n, a) \<in> set (c_offsets (b + sz * k) ms)"
    using 2(1) [OF refl, folded b_def, OF that] 2(3) by simp
  ultimately show ?case using 2(2) pos by (auto simp: Let_def simp flip: b_def)
qed simp

end
