(* ===== verification/AmdUdc.thy ===== *)
theory AmdUdc
  imports RegField
begin

text \<open>
  \<^verbatim>\<open>src/test_gadget/amd5536udc.h\<close>: the fields of the controller's registers and of its DMA descriptors, register by register
  in the order of the header, the macros that read and write them, the structures that lie over the registers, and the
  SETUP packets the driver builds for requests that the hardware answers itself. Registers are words of 32 bits.
\<close>

section \<open>Reading and writing fields\<close>

text \<open>The stub name of a field stands for its mask and its offset.\<close>

definition AMD_ADDBITS :: "u32 \<Rightarrow> u32 \<Rightarrow> u32 \<times> nat \<Rightarrow> u32" where
  "AMD_ADDBITS u32Val bitfield_val f =
     ((u32Val AND NOT (fst f)) OR (push_bit (snd f) bitfield_val AND fst f))"

definition AMD_INIT_SETBITS :: "u32 \<Rightarrow> u32 \<Rightarrow> u32 \<times> nat \<Rightarrow> u32" where
  "AMD_INIT_SETBITS u32Val bitfield_val f = (u32Val OR (push_bit (snd f) bitfield_val AND fst f))"

definition AMD_GETBITS :: "u32 \<Rightarrow> u32 \<times> nat \<Rightarrow> u32" where
  "AMD_GETBITS u32Val f = drop_bit (snd f) (u32Val AND fst f)"

definition AMD_BIT :: "nat \<Rightarrow> u32" where
  "AMD_BIT n = push_bit n 1"

definition AMD_CLEAR_BIT :: "nat \<Rightarrow> u32" where
  "AMD_CLEAR_BIT n = NOT (AMD_BIT n)"

section \<open>The registers\<close>

text \<open>
  What the header says of a register: fields with mask and offset, single bits, values of the field before them, and bits
  that are already in place.
\<close>

datatype amd_item = Amd_field string u32 nat | Amd_bit string nat | Amd_value string u32 | Amd_bits string u32

definition amd_csr_ne :: "amd_item list" where
  "amd_csr_ne =
    [Amd_field ''UDC_CSR_NE_NUM'' 0xf 0,
     Amd_field ''UDC_CSR_NE_DIR'' 0x10 4,
     Amd_field ''UDC_CSR_NE_TYPE'' 0x60 5,
     Amd_field ''UDC_CSR_NE_CFG'' 0x780 7,
     Amd_field ''UDC_CSR_NE_INTF'' 0x7800 11,
     Amd_field ''UDC_CSR_NE_ALT'' 0x78000 15,
     Amd_field ''UDC_CSR_NE_MAX_PKT'' 0x3ff80000 19]"

definition amd_devcfg :: "amd_item list" where
  "amd_devcfg =
    [Amd_bit ''UDC_DEVCFG_SOFTRESET'' 31,
     Amd_bit ''UDC_DEVCFG_HNPSFEN'' 30,
     Amd_bit ''UDC_DEVCFG_DMARST'' 29,
     Amd_bit ''UDC_DEVCFG_SET_DESC'' 18,
     Amd_bit ''UDC_DEVCFG_CSR_PRG'' 17,
     Amd_bit ''UDC_DEVCFG_STATUS'' 7,
     Amd_bit ''UDC_DEVCFG_DIR'' 6,
     Amd_bit ''UDC_DEVCFG_PI'' 5,
     Amd_bit ''UDC_DEVCFG_SS'' 4,
     Amd_bit ''UDC_DEVCFG_SP'' 3,
     Amd_bit ''UDC_DEVCFG_RWKP'' 2,
     Amd_field ''UDC_DEVCFG_SPD'' 0x3 0,
     Amd_value ''UDC_DEVCFG_SPD_HS'' 0x0,
     Amd_value ''UDC_DEVCFG_SPD_FS'' 0x1,
     Amd_value ''UDC_DEVCFG_SPD_LS'' 0x2]"

definition amd_devctl :: "amd_item list" where
  "amd_devctl =
    [Amd_field ''UDC_DEVCTL_THLEN'' 0xff000000 24,
     Amd_field ''UDC_DEVCTL_BRLEN'' 0xff0000 16,
     Amd_bit ''UDC_DEVCTL_CSR_DONE'' 13,
     Amd_bit ''UDC_DEVCTL_DEVNAK'' 12,
     Amd_bit ''UDC_DEVCTL_SD'' 10,
     Amd_bit ''UDC_DEVCTL_MODE'' 9,
     Amd_bit ''UDC_DEVCTL_BREN'' 8,
     Amd_bit ''UDC_DEVCTL_THE'' 7,
     Amd_bit ''UDC_DEVCTL_BF'' 6,
     Amd_bit ''UDC_DEVCTL_BE'' 5,
     Amd_bit ''UDC_DEVCTL_DU'' 4,
     Amd_bit ''UDC_DEVCTL_TDE'' 3,
     Amd_bit ''UDC_DEVCTL_RDE'' 2,
     Amd_bit ''UDC_DEVCTL_RES'' 0]"

definition amd_devsts :: "amd_item list" where
  "amd_devsts =
    [Amd_field ''UDC_DEVSTS_TS'' 0xfffc0000 18,
     Amd_bit ''UDC_DEVSTS_SESSVLD'' 17,
     Amd_bit ''UDC_DEVSTS_PHY_ERROR'' 16,
     Amd_bit ''UDC_DEVSTS_RXFIFO_EMPTY'' 15,
     Amd_field ''UDC_DEVSTS_ENUM_SPEED'' 0x6000 13,
     Amd_value ''UDC_DEVSTS_ENUM_SPEED_FULL'' 1,
     Amd_value ''UDC_DEVSTS_ENUM_SPEED_HIGH'' 0,
     Amd_bit ''UDC_DEVSTS_SUSP'' 12,
     Amd_field ''UDC_DEVSTS_ALT'' 0xf00 8,
     Amd_field ''UDC_DEVSTS_INTF'' 0xf0 4,
     Amd_field ''UDC_DEVSTS_CFG'' 0xf 0]"

definition amd_devint :: "amd_item list" where
  "amd_devint =
    [Amd_bit ''UDC_DEVINT_SVC'' 7,
     Amd_bit ''UDC_DEVINT_ENUM'' 6,
     Amd_bit ''UDC_DEVINT_SOF'' 5,
     Amd_bit ''UDC_DEVINT_US'' 4,
     Amd_bit ''UDC_DEVINT_UR'' 3,
     Amd_bit ''UDC_DEVINT_ES'' 2,
     Amd_bit ''UDC_DEVINT_SI'' 1,
     Amd_bit ''UDC_DEVINT_SC'' 0]"

definition amd_epint :: "amd_item list" where
  "amd_epint =
    [Amd_field ''UDC_EPINT_OUT'' 0xffff0000 16,
     Amd_field ''UDC_EPINT_IN'' 0xffff 0]"

definition amd_epint_bits :: "amd_item list" where
  "amd_epint_bits =
    [Amd_bit ''UDC_EPINT_IN_EP0'' 0,
     Amd_bit ''UDC_EPINT_IN_EP1'' 1,
     Amd_bit ''UDC_EPINT_IN_EP2'' 2,
     Amd_bit ''UDC_EPINT_IN_EP3'' 3,
     Amd_bit ''UDC_EPINT_OUT_EP0'' 16,
     Amd_bit ''UDC_EPINT_OUT_EP1'' 17,
     Amd_bit ''UDC_EPINT_OUT_EP2'' 18,
     Amd_bit ''UDC_EPINT_OUT_EP3'' 19]"

definition amd_epint_msk :: "amd_item list" where
  "amd_epint_msk =
    [Amd_field ''UDC_EPINT_OUT_MSK'' 0xffff0000 16,
     Amd_field ''UDC_EPINT_IN_MSK'' 0xffff 0]"

definition amd_epctl :: "amd_item list" where
  "amd_epctl =
    [Amd_bit ''UDC_EPCTL_RRDY'' 9,
     Amd_bit ''UDC_EPCTL_CNAK'' 8,
     Amd_bit ''UDC_EPCTL_SNAK'' 7,
     Amd_bit ''UDC_EPCTL_NAK'' 6,
     Amd_field ''UDC_EPCTL_ET'' 0x30 4,
     Amd_value ''UDC_EPCTL_ET_CONTROL'' 0,
     Amd_value ''UDC_EPCTL_ET_ISO'' 1,
     Amd_value ''UDC_EPCTL_ET_BULK'' 2,
     Amd_value ''UDC_EPCTL_ET_INTERRUPT'' 3,
     Amd_bit ''UDC_EPCTL_P'' 3,
     Amd_bit ''UDC_EPCTL_SN'' 2,
     Amd_bit ''UDC_EPCTL_F'' 1,
     Amd_bit ''UDC_EPCTL_S'' 0]"

definition amd_epsts :: "amd_item list" where
  "amd_epsts =
    [Amd_field ''UDC_EPSTS_RX_PKT_SIZE'' 0x7ff800 11,
     Amd_bit ''UDC_EPSTS_TDC'' 10,
     Amd_bit ''UDC_EPSTS_HE'' 9,
     Amd_bit ''UDC_EPSTS_BNA'' 7,
     Amd_bit ''UDC_EPSTS_IN'' 6,
     Amd_field ''UDC_EPSTS_OUT'' 0x30 4,
     Amd_value ''UDC_EPSTS_OUT_DATA'' 1,
     Amd_bits ''UDC_EPSTS_OUT_DATA_CLEAR'' 0x10,
     Amd_value ''UDC_EPSTS_OUT_SETUP'' 2,
     Amd_bits ''UDC_EPSTS_OUT_SETUP_CLEAR'' 0x20,
     Amd_bits ''UDC_EPSTS_OUT_CLEAR'' 0x30]"

definition amd_epin_buff :: "amd_item list" where
  "amd_epin_buff =
    [Amd_field ''UDC_EPIN_BUFF_SIZE'' 0xffff 0]"

definition amd_epout_frame :: "amd_item list" where
  "amd_epout_frame =
    [Amd_field ''UDC_EPOUT_FRAME_NUMBER'' 0xffff 0]"

definition amd_epout_buff :: "amd_item list" where
  "amd_epout_buff =
    [Amd_field ''UDC_EPOUT_BUFF_SIZE'' 0xffff0000 16,
     Amd_field ''UDC_EP_MAX_PKT_SIZE'' 0xffff 0]"

definition amd_stp_sts :: "amd_item list" where
  "amd_stp_sts =
    [Amd_field ''UDC_DMA_STP_STS_CFG_ALT'' 0xf0000 16,
     Amd_field ''UDC_DMA_STP_STS_CFG_INTF'' 0xf00000 20,
     Amd_field ''UDC_DMA_STP_STS_CFG_NUM'' 0xf000000 24,
     Amd_field ''UDC_DMA_STP_STS_RX'' 0x30000000 28,
     Amd_field ''UDC_DMA_STP_STS_BS'' 0xc0000000 30,
     Amd_value ''UDC_DMA_STP_STS_BS_HOST_READY'' 0,
     Amd_value ''UDC_DMA_STP_STS_BS_DMA_BUSY'' 1,
     Amd_value ''UDC_DMA_STP_STS_BS_DMA_DONE'' 2,
     Amd_value ''UDC_DMA_STP_STS_BS_HOST_BUSY'' 3]"

definition amd_in_sts :: "amd_item list" where
  "amd_in_sts =
    [Amd_field ''UDC_DMA_IN_STS_TXBYTES'' 0xffff 0,
     Amd_field ''UDC_DMA_IN_STS_FRAMENUM'' 0x7ff0000 0,
     Amd_bit ''UDC_DMA_IN_STS_L'' 27,
     Amd_field ''UDC_DMA_IN_STS_TX'' 0x30000000 28,
     Amd_field ''UDC_DMA_IN_STS_BS'' 0xc0000000 30,
     Amd_value ''UDC_DMA_IN_STS_BS_HOST_READY'' 0,
     Amd_value ''UDC_DMA_IN_STS_BS_DMA_BUSY'' 1,
     Amd_value ''UDC_DMA_IN_STS_BS_DMA_DONE'' 2,
     Amd_value ''UDC_DMA_IN_STS_BS_HOST_BUSY'' 3]"

definition amd_out_sts :: "amd_item list" where
  "amd_out_sts =
    [Amd_field ''UDC_DMA_OUT_STS_RXBYTES'' 0xffff 0,
     Amd_field ''UDC_DMA_OUT_STS_FRAMENUM'' 0x7ff0000 0,
     Amd_bit ''UDC_DMA_OUT_STS_L'' 27,
     Amd_field ''UDC_DMA_OUT_STS_RX'' 0x30000000 28,
     Amd_field ''UDC_DMA_OUT_STS_BS'' 0xc0000000 30,
     Amd_value ''UDC_DMA_OUT_STS_BS_HOST_READY'' 0,
     Amd_value ''UDC_DMA_OUT_STS_BS_DMA_BUSY'' 1,
     Amd_value ''UDC_DMA_OUT_STS_BS_DMA_DONE'' 2,
     Amd_value ''UDC_DMA_OUT_STS_BS_HOST_BUSY'' 3]"

definition amd_registers :: "amd_item list list" where
  "amd_registers =
    [amd_csr_ne, amd_devcfg, amd_devctl, amd_devsts, amd_devint, amd_epint, amd_epint_bits, amd_epint_msk, amd_epctl, amd_epsts,
     amd_epin_buff, amd_epout_frame, amd_epout_buff, amd_stp_sts, amd_in_sts, amd_out_sts]"

text \<open>The fields of a register, its single bits among them.\<close>

fun amd_fields :: "amd_item list \<Rightarrow> (u32 \<times> nat) list" where
  "amd_fields [] = []"
| "amd_fields (Amd_field n m ofs # r) = (m, ofs) # amd_fields r"
| "amd_fields (Amd_bit n b # r) = (AMD_BIT b, b) # amd_fields r"
| "amd_fields (Amd_value n v # r) = amd_fields r"
| "amd_fields (Amd_bits n v # r) = amd_fields r"

text \<open>The fields whose mask is not a run of bits from their offset on.\<close>

fun amd_misplaced :: "amd_item list \<Rightarrow> string list" where
  "amd_misplaced [] = []"
| "amd_misplaced (Amd_field n m ofs # r) = (if mo_wf (m, ofs) then amd_misplaced r else n # amd_misplaced r)"
| "amd_misplaced (_ # r) = amd_misplaced r"

text \<open>Values fit into the field they follow, and bits in place lie inside it.\<close>

fun amd_values_fit :: "u32 \<times> nat \<Rightarrow> amd_item list \<Rightarrow> bool" where
  "amd_values_fit f [] = True"
| "amd_values_fit f (Amd_field n m ofs # r) = amd_values_fit (m, ofs) r"
| "amd_values_fit f (Amd_bit n b # r) = amd_values_fit f r"
| "amd_values_fit f (Amd_value n v # r) = (push_bit (snd f) v AND fst f = push_bit (snd f) v \<and> amd_values_fit f r)"
| "amd_values_fit f (Amd_bits n v # r) = (v AND fst f = v \<and> amd_values_fit f r)"

section \<open>The macros implement the interface\<close>

lemma AMD_GETBITS_bit:
  "bit (AMD_GETBITS w f) n \<longleftrightarrow> bit w (snd f + n) \<and> bit (fst f) (snd f + n)"
  by (simp add: AMD_GETBITS_def bit_simps add.commute)

lemma AMD_ADDBITS_bit:
  "bit (AMD_ADDBITS w v f) n \<longleftrightarrow> n < 32 \<and> (if bit (fst f) n then snd f \<le> n \<and> bit v (n - snd f) else bit w n)"
  by (auto simp: AMD_ADDBITS_def bit_simps dest: bit_imp_le_length)

lemmas amd_bits = AMD_GETBITS_bit AMD_ADDBITS_bit mo_wf_bit

interpretation amd: register_fields "\<lambda>f w. AMD_GETBITS w f" "\<lambda>f v w. AMD_ADDBITS w v f" "\<lambda>f. ones (fst f)" mo_wf mo_apart
proof
  fix f g :: "u32 \<times> nat" and u v w :: u32
  show "mo_wf f \<Longrightarrow> AMD_GETBITS (AMD_ADDBITS w v f) f = take_bit (ones (fst f)) v"
    by (rule u32_eqI) (auto simp: amd_bits bit_take_bit_iff dest: mo_wf_32)
  show "AMD_GETBITS (AMD_ADDBITS w v f) g = AMD_GETBITS w g" if "mo_apart f g"
    using that by (intro u32_eqI) (auto simp: amd_bits mo_apart_def dest: apart_bits bit_imp_le_length)
  show "AMD_ADDBITS (AMD_ADDBITS w u f) v f = AMD_ADDBITS w v f"
    by (rule u32_eqI) (auto simp: AMD_ADDBITS_bit)
  show "AMD_ADDBITS (AMD_ADDBITS w v g) u f = AMD_ADDBITS (AMD_ADDBITS w u f) v g" if "mo_apart f g"
    using that by (intro u32_eqI) (auto simp: AMD_ADDBITS_bit mo_apart_def dest: apart_bits)
  show "mo_wf f \<Longrightarrow> AMD_ADDBITS w (AMD_GETBITS w f) f = w"
    by (rule u32_eqI) (auto simp: amd_bits)
qed

lemma masks_apart_layout: "masks_apart used fs \<Longrightarrow> amd.layout (filter mo_wf fs)"
proof (induction used fs rule: masks_apart.induct)
  case (2 used f fs)
  have "mo_apart f g" "mo_apart g f" if "g \<in> set fs" for g
    using masks_apart_used [OF _ that, of "used OR fst f"] 2 by (simp_all add: mo_apart_def word_ao_dist word_ao_dist2 or_eq_0_iff and.commute)
  then show ?case using 2 by (auto simp: list_all_iff)
qed simp

section \<open>The header's registers\<close>

text \<open>The fields, bits and values of the controller's registers and DMA descriptors are well formed: within a register no two
  fields overlap, every named value fits into its field, and every mask is a run of bits that starts at the field's offset,
  but for the frame number of the two data descriptors, whose offset is 0 under a mask that starts at bit 16.\<close>

theorem amd_registers_well_formed:
  "list_all (\<lambda>r. masks_apart 0 (amd_fields r) \<and> amd_values_fit (0, 0) r) amd_registers \<and>
   concat (map amd_misplaced amd_registers) = [''UDC_DMA_IN_STS_FRAMENUM'', ''UDC_DMA_OUT_STS_FRAMENUM'']"
  by code_simp

lemma amd_registers_layout: "r \<in> set amd_registers \<Longrightarrow> amd.layout (filter mo_wf (amd_fields r))"
proof -
  have "list_all (\<lambda>r. masks_apart 0 (amd_fields r)) amd_registers" by code_simp
  then show "r \<in> set amd_registers \<Longrightarrow> amd.layout (filter mo_wf (amd_fields r))"
    by (auto simp: list_all_iff intro: masks_apart_layout)
qed

text \<open>C40: The macros of the header treat a register as the collection of its fields. After any sequence of writes to well-formed
  fields of a register, each of them reads as the last value written to it, cut to the field's width, and the fields that were
  not written read as before.\<close>

theorem amd_fields_refine:
  assumes "r \<in> set amd_registers" and "list_all (\<lambda>p. fst p \<in> set (amd_fields r) \<and> mo_wf (fst p)) ps"
    and "g \<in> set (amd_fields r)" and "mo_wf g"
  shows "AMD_GETBITS (fold (\<lambda>p w. AMD_ADDBITS w (snd p) (fst p)) ps w) g =
     (case map_of (rev ps) g of None \<Rightarrow> AMD_GETBITS w g | Some v \<Rightarrow> take_bit (ones (fst g)) v)"
  using amd.get_puts [OF amd_registers_layout [OF assms(1)], of ps g w] assms(2-4) by (simp add: list_all_iff)

theorem amd_fields_refine_witness:
  "AMD_GETBITS (fold (\<lambda>p w. AMD_ADDBITS w (snd p) (fst p)) [((0xf, 0), 3), ((0x60, 5), 2), ((0xf, 0), 0x15)] 0xffffffff) (0xf, 0) = 5"
proof -
  let ?ps = "[((0xf, 0), 3), ((0x60, 5), 2), ((0xf, 0), 0x15)] :: ((u32 \<times> nat) \<times> u32) list"
  have r: "amd_csr_ne \<in> set amd_registers" by (simp add: amd_registers_def)
  have ps: "list_all (\<lambda>p. fst p \<in> set (amd_fields amd_csr_ne) \<and> mo_wf (fst p)) ?ps" by code_simp
  have g: "(0xf, 0) \<in> set (amd_fields amd_csr_ne)" "mo_wf (0xf, 0)" "ones 0xf = 4" by code_simp+
  have t: "take_bit 4 (0x15 :: u32) = 5" by simp
  show ?thesis using amd_fields_refine [OF r ps g(1,2), of "0xffffffff"] g(3) t by simp
qed

text \<open>The frame number is lost: writing any frame number of 11 bits into the status of a data descriptor stores zero, and what
  reading yields is the frame number of the descriptor moved by 16 bits.\<close>

theorem amd_frame_number_lost:
  assumes "n < 2 ^ 11" and "k < 2 ^ 11"
  shows "AMD_ADDBITS w n (0x7ff0000, 0) = w AND NOT 0x7ff0000 \<and>
     AMD_GETBITS (AMD_ADDBITS w k (0x7ff0000, 16)) (0x7ff0000, 0) = push_bit 16 k \<and>
     Amd_field ''UDC_DMA_IN_STS_FRAMENUM'' 0x7ff0000 0 \<in> set amd_in_sts \<and> Amd_field ''UDC_DMA_OUT_STS_FRAMENUM'' 0x7ff0000 0 \<in> set amd_out_sts"
proof -
  define M :: u32 where "M = 0x7ff0000"
  have M: "mo_wf (M, 16)" "ones M = 11" unfolding M_def by code_simp+
  have m: "bit M i \<longleftrightarrow> 16 \<le> i \<and> i < 27" for i
    using mo_wf_bit [OF M(1), of i] M(2) by (auto simp: add.commute)
  have low: "i < 11" if "bit (x :: u32) i" "x < 2 ^ 11" for x i
    using that bit_high_False [of x 11 i] by (cases "i < 11") (auto simp: word_less_nat_alt)
  have "AMD_ADDBITS w n (M, 0) = w AND NOT M"
    by (rule u32_eqI) (auto simp: AMD_ADDBITS_bit m bit_simps dest: low [OF _ assms(1)])
  moreover have "AMD_GETBITS (AMD_ADDBITS w k (M, 16)) (M, 0) = push_bit 16 k"
    by (rule u32_eqI) (auto simp: AMD_GETBITS_bit AMD_ADDBITS_bit m bit_simps dest: low [OF _ assms(2)])
  ultimately show ?thesis unfolding M_def by (simp add: amd_in_sts_def amd_out_sts_def)
qed

theorem amd_frame_number_lost_witness:
  "AMD_ADDBITS 0xffffffff 0x123 (0x7ff0000, 0) = 0xf800ffff"
  using amd_frame_number_lost [of "0x123" 0 "0xffffffff"] by simp

section \<open>The layout of the register block\<close>

text \<open>The registers of the structures, in order; each is a word.\<close>

definition udc_csrs :: "string list" where
  "udc_csrs = ''sca'' # replicate 9 ''ne''"

definition udc_regs :: "string list" where
  "udc_regs = [''cfg'', ''ctl'', ''sts'', ''irqsts'', ''irqmsk'', ''ep_irqsts'', ''ep_irqmsk'']"

definition udc_ep_regs :: "string list" where
  "udc_ep_regs = [''ctl'', ''sts'', ''bufin_framenum'', ''bufout_maxpkt'', ''subptr'', ''desptr'', ''reserved'', ''confirm'']"

text \<open>The addresses the header gives to the device's registers, and to those of an endpoint.\<close>

definition amd_device_addrs :: "(string \<times> nat) list" where
  "amd_device_addrs =
    [(''cfg'', 0x400), (''ctl'', 0x404), (''sts'', 0x408), (''irqsts'', 0x40c), (''irqmsk'', 0x410), (''ep_irqsts'', 0x414),
     (''ep_irqmsk'', 0x418)]"

definition amd_ep_addrs :: "(string \<times> nat) list" where
  "amd_ep_addrs =
    [(''ctl'', 0x0), (''sts'', 0x4), (''bufin_framenum'', 0x8), (''bufout_maxpkt'', 0x0c), (''subptr'', 0x10), (''desptr'', 0x14),
     (''confirm'', 0x1c)]"

definition struct_addrs :: "nat \<Rightarrow> string list \<Rightarrow> (string \<times> nat) list" where
  "struct_addrs base rs = zip rs (map (\<lambda>i. base + 4 * i) [0..<length rs])"

text \<open>The blocks of the address space with their lengths: the registers of the 16 IN and the 16 OUT endpoints, the device's
  registers, the global ones, and the two fifos.\<close>

definition amd_blocks :: "(nat \<times> nat) list" where
  "amd_blocks =
    [(0x0, 16 * (4 * length udc_ep_regs)), (0x200, 16 * (4 * length udc_ep_regs)), (0x400, 4 * length udc_regs),
     (0x500, 4 * length udc_csrs), (0x800, 0x400), (0xc00, 0x600)]"

fun blocks_apart :: "nat \<Rightarrow> (nat \<times> nat) list \<Rightarrow> bool" where
  "blocks_apart end [] = True"
| "blocks_apart end ((a, n) # bs) = (end \<le> a \<and> blocks_apart (a + n) bs)"

text \<open>The structures put every register at the address the header gives to it, and the blocks do not overlap.\<close>

lemma amd_struct_addrs:
  "set amd_device_addrs = set (struct_addrs 0x400 udc_regs)"
  "set amd_ep_addrs = set (struct_addrs 0 udc_ep_regs) - {(''reserved'', 0x18)}"
  "blocks_apart 0 amd_blocks"
  by code_simp+

section \<open>SETUP packets built by the driver\<close>

text \<open>The two words of a SETUP packet lie over its eight bytes, the first byte lowest.\<close>

definition udc_setup_data :: "u32 \<Rightarrow> u32 \<Rightarrow> bytes" where
  "udc_setup_data d0 d1 = map (\<lambda>i. ucast (drop_bit (8 * i) d0)) [0..<4] @ map (\<lambda>i. ucast (drop_bit (8 * i) d1)) [0..<4]"

definition UDC_SETCONFIG_DWORD0 :: u32 where "UDC_SETCONFIG_DWORD0 = 0x900"
definition UDC_SETCONFIG_DWORD0_VALUE :: "u32 \<times> nat" where "UDC_SETCONFIG_DWORD0_VALUE = (0xffff0000, 16)"
definition UDC_SETCONFIG_DWORD1 :: u32 where "UDC_SETCONFIG_DWORD1 = 0"
definition UDC_SETINTF_DWORD0 :: u32 where "UDC_SETINTF_DWORD0 = 0xb00"
definition UDC_SETINTF_DWORD0_ALT :: "u32 \<times> nat" where "UDC_SETINTF_DWORD0_ALT = (0xffff0000, 16)"
definition UDC_SETINTF_DWORD1 :: u32 where "UDC_SETINTF_DWORD1 = 0"
definition UDC_SETINTF_DWORD1_INTF :: "u32 \<times> nat" where "UDC_SETINTF_DWORD1_INTF = (0xffff, 0)"

lemma setup_words:
  "udc_setup_data (AMD_ADDBITS d (ucast (v :: u16)) (0xffff0000, 16)) e =
     [ucast d, ucast (drop_bit 8 d)] @ le16_bytes v @ map (\<lambda>i. ucast (drop_bit (8 * i) e)) [0..<4]"
proof -
  let ?w = "AMD_ADDBITS d (ucast v) (0xffff0000, 16)"
  have "ucast ?w = (ucast d :: u8)" "ucast (drop_bit 8 ?w) = (ucast (drop_bit 8 d) :: u8)"
    "ucast (drop_bit 16 ?w) = (ucast v :: u8)" "ucast (drop_bit 24 ?w) = (ucast (drop_bit 8 v) :: u8)"
    by (rule u8_eqI; simp add: bitwise AMD_ADDBITS_def)+
  then show ?thesis by (simp add: udc_setup_data_def le16_bytes_def upt_conv_Cons)
qed

lemma low_word:
  "map (\<lambda>i. ucast (drop_bit (8 * i) (AMD_ADDBITS 0 (ucast (v :: u16)) (0xffff, 0)))) [0..<4] = le16_bytes v @ [0, 0 :: u8]"
proof -
  let ?w = "AMD_ADDBITS 0 (ucast v) (0xffff, 0)"
  have "ucast ?w = (ucast v :: u8)" "ucast (drop_bit 8 ?w) = (ucast (drop_bit 8 v) :: u8)"
    "ucast (drop_bit 16 ?w) = (0 :: u8)" "ucast (drop_bit 24 ?w) = (0 :: u8)"
    by (rule u8_eqI; simp add: bitwise AMD_ADDBITS_def)+
  then show ?thesis by (simp add: le16_bytes_def upt_conv_Cons)
qed

text \<open>The constants are the packets of the two requests: with the configuration, or the interface and its setting, put into
  the fields, the bytes are the request type, the request and the little-endian value, index and length.\<close>

lemma amd_setconfig_packet:
  "udc_setup_data (AMD_ADDBITS UDC_SETCONFIG_DWORD0 (ucast (cfg :: u16)) UDC_SETCONFIG_DWORD0_VALUE) UDC_SETCONFIG_DWORD1 =
     [0, 9] @ le16_bytes cfg @ [0, 0, 0, 0]"
  by (simp add: UDC_SETCONFIG_DWORD0_def UDC_SETCONFIG_DWORD0_VALUE_def UDC_SETCONFIG_DWORD1_def setup_words upt_conv_Cons)

lemma amd_setintf_packet:
  "udc_setup_data (AMD_ADDBITS UDC_SETINTF_DWORD0 (ucast (alt :: u16)) UDC_SETINTF_DWORD0_ALT)
     (AMD_ADDBITS UDC_SETINTF_DWORD1 (ucast (intf :: u16)) UDC_SETINTF_DWORD1_INTF) =
     [0, 11] @ le16_bytes alt @ le16_bytes intf @ [0, 0]"
  by (simp only: UDC_SETINTF_DWORD0_def UDC_SETINTF_DWORD0_ALT_def UDC_SETINTF_DWORD1_def UDC_SETINTF_DWORD1_INTF_def setup_words low_word) simp

end
