(* ===== verification/AtmelUsba.thy ===== *)
theory AtmelUsba
  imports RegField
begin

text \<open>
  \<^verbatim>\<open>src/test_gadget/atmel_usba_udc.h\<close>: the fields and bits of the controller's registers, the macros that build, extract and
  insert a field, the addresses of the register blocks, and the constants for packet sizes and banks.
\<close>

section \<open>Reading and writing fields\<close>

text \<open>The name of a field stands for its offset and its size.\<close>

definition USBA_BF :: "nat \<times> nat \<Rightarrow> u32 \<Rightarrow> u32" where
  "USBA_BF f v = push_bit (fst f) (v AND (push_bit (snd f) 1 - 1))"

definition USBA_BFEXT :: "nat \<times> nat \<Rightarrow> u32 \<Rightarrow> u32" where
  "USBA_BFEXT f v = drop_bit (fst f) v AND (push_bit (snd f) 1 - 1)"

definition USBA_BFINS :: "nat \<times> nat \<Rightarrow> u32 \<Rightarrow> u32 \<Rightarrow> u32" where
  "USBA_BFINS f v old = (old AND NOT (push_bit (fst f) (push_bit (snd f) 1 - 1))) OR USBA_BF f v"

section \<open>The registers\<close>

datatype usba_item = Usba_field string nat nat | Usba_bit string nat

definition usba_ctrl :: "usba_item list" where
  "usba_ctrl =
    [Usba_field ''USBA_DEV_ADDR'' 0 7,
     Usba_bit ''USBA_FADDR_EN'' 7,
     Usba_bit ''USBA_EN_USBA'' 8,
     Usba_bit ''USBA_DETACH'' 9,
     Usba_bit ''USBA_REMOTE_WAKE_UP'' 10,
     Usba_bit ''USBA_PULLD_DIS'' 11]"

definition usba_fnum :: "usba_item list" where
  "usba_fnum =
    [Usba_field ''USBA_MICRO_FRAME_NUM'' 0 3,
     Usba_field ''USBA_FRAME_NUMBER'' 3 11,
     Usba_bit ''USBA_FRAME_NUM_ERROR'' 31]"

definition usba_int :: "usba_item list" where
  "usba_int =
    [Usba_bit ''USBA_HIGH_SPEED'' 0,
     Usba_bit ''USBA_DET_SUSPEND'' 1,
     Usba_bit ''USBA_MICRO_SOF'' 2,
     Usba_bit ''USBA_SOF'' 3,
     Usba_bit ''USBA_END_OF_RESET'' 4,
     Usba_bit ''USBA_WAKE_UP'' 5,
     Usba_bit ''USBA_END_OF_RESUME'' 6,
     Usba_bit ''USBA_UPSTREAM_RESUME'' 7,
     Usba_field ''USBA_EPT_INT'' 8 16,
     Usba_field ''USBA_DMA_INT'' 24 8]"

definition usba_ept_rst :: "usba_item list" where
  "usba_ept_rst =
    [Usba_field ''USBA_RST'' 0 16]"

definition usba_tst :: "usba_item list" where
  "usba_tst =
    [Usba_field ''USBA_SPEED_CFG'' 0 2,
     Usba_bit ''USBA_TST_J_MODE'' 2,
     Usba_bit ''USBA_TST_K_MODE'' 3,
     Usba_bit ''USBA_TST_PKT_MODE'' 4,
     Usba_bit ''USBA_OPMODE2'' 5]"

definition usba_ept_cfg :: "usba_item list" where
  "usba_ept_cfg =
    [Usba_field ''USBA_EPT_SIZE'' 0 3,
     Usba_bit ''USBA_EPT_DIR_IN'' 3,
     Usba_field ''USBA_EPT_TYPE'' 4 2,
     Usba_field ''USBA_BK_NUMBER'' 6 2,
     Usba_field ''USBA_NB_TRANS'' 8 2,
     Usba_bit ''USBA_EPT_MAPPED'' 31]"

definition usba_ept_ctl :: "usba_item list" where
  "usba_ept_ctl =
    [Usba_bit ''USBA_EPT_ENABLE'' 0,
     Usba_bit ''USBA_AUTO_VALID'' 1,
     Usba_bit ''USBA_INTDIS_DMA'' 3,
     Usba_bit ''USBA_NYET_DIS'' 4,
     Usba_bit ''USBA_DATAX_RX'' 6,
     Usba_bit ''USBA_MDATA_RX'' 7,
     Usba_bit ''USBA_BUSY_BANK_IE'' 18]"

definition usba_ept_sta :: "usba_item list" where
  "usba_ept_sta =
    [Usba_bit ''USBA_FORCE_STALL'' 5,
     Usba_bit ''USBA_TOGGLE_CLR'' 6,
     Usba_field ''USBA_TOGGLE_SEQ'' 6 2,
     Usba_bit ''USBA_ERR_OVFLW'' 8,
     Usba_bit ''USBA_RX_BK_RDY'' 9,
     Usba_bit ''USBA_KILL_BANK'' 9,
     Usba_bit ''USBA_TX_COMPLETE'' 10,
     Usba_bit ''USBA_TX_PK_RDY'' 11,
     Usba_bit ''USBA_ISO_ERR_TRANS'' 11,
     Usba_bit ''USBA_RX_SETUP'' 12,
     Usba_bit ''USBA_ISO_ERR_FLOW'' 12,
     Usba_bit ''USBA_STALL_SENT'' 13,
     Usba_bit ''USBA_ISO_ERR_CRC'' 13,
     Usba_bit ''USBA_ISO_ERR_NBTRANS'' 13,
     Usba_bit ''USBA_NAK_IN'' 14,
     Usba_bit ''USBA_ISO_ERR_FLUSH'' 14,
     Usba_bit ''USBA_NAK_OUT'' 15,
     Usba_field ''USBA_CURRENT_BANK'' 16 2,
     Usba_field ''USBA_BUSY_BANKS'' 18 2,
     Usba_field ''USBA_BYTE_COUNT'' 20 11,
     Usba_bit ''USBA_SHORT_PACKET'' 31]"

definition usba_dma_control :: "usba_item list" where
  "usba_dma_control =
    [Usba_bit ''USBA_DMA_CH_EN'' 0,
     Usba_bit ''USBA_DMA_LINK'' 1,
     Usba_bit ''USBA_DMA_END_TR_EN'' 2,
     Usba_bit ''USBA_DMA_END_BUF_EN'' 3,
     Usba_bit ''USBA_DMA_END_TR_IE'' 4,
     Usba_bit ''USBA_DMA_END_BUF_IE'' 5,
     Usba_bit ''USBA_DMA_DESC_LOAD_IE'' 6,
     Usba_bit ''USBA_DMA_BURST_LOCK'' 7,
     Usba_field ''USBA_DMA_BUF_LEN'' 16 16]"

definition usba_dma_status :: "usba_item list" where
  "usba_dma_status =
    [Usba_bit ''USBA_DMA_CH_ACTIVE'' 1,
     Usba_bit ''USBA_DMA_END_TR_ST'' 4,
     Usba_bit ''USBA_DMA_END_BUF_ST'' 5,
     Usba_bit ''USBA_DMA_DESC_LOAD_ST'' 6]"

definition usba_registers :: "usba_item list list" where
  "usba_registers =
    [usba_ctrl, usba_fnum, usba_int, usba_ept_rst, usba_tst, usba_ept_cfg, usba_ept_ctl, usba_ept_sta, usba_dma_control,
     usba_dma_status]"

text \<open>The fields of a register, on which the macros work, and its single bits.\<close>

fun usba_fields :: "usba_item list \<Rightarrow> (nat \<times> nat) list" where
  "usba_fields [] = []"
| "usba_fields (Usba_field n ofs sz # r) = (ofs, sz) # usba_fields r"
| "usba_fields (Usba_bit n b # r) = usba_fields r"

fun usba_bits :: "usba_item list \<Rightarrow> (string \<times> nat) list" where
  "usba_bits [] = []"
| "usba_bits (Usba_field n ofs sz # r) = usba_bits r"
| "usba_bits (Usba_bit n b # r) = (n, b) # usba_bits r"

text \<open>The single bits that lie inside a field of the register.\<close>

definition usba_bits_in_fields :: "usba_item list \<Rightarrow> string list" where
  "usba_bits_in_fields r =
     map fst (filter (\<lambda>(n, b). \<not> list_all (\<lambda>f. os_apart (b, 1) f) (usba_fields r)) (usba_bits r))"

section \<open>The macros implement the interface\<close>

lemma ones_mask: "push_bit k 1 - 1 = (mask k :: u32)"
  by (simp add: mask_eq_decr_exp push_bit_eq_mult)

lemma USBA_BFEXT_bit: "bit (USBA_BFEXT f w) n \<longleftrightarrow> bit w (fst f + n) \<and> n < snd f"
  unfolding USBA_BFEXT_def ones_mask by (auto simp: bit_simps dest: bit_imp_le_length)

lemma USBA_BFINS_bit:
  "bit (USBA_BFINS f v w) n \<longleftrightarrow> n < 32 \<and> (if fst f \<le> n \<and> n < fst f + snd f then bit v (n - fst f) else bit w n)"
  unfolding USBA_BFINS_def USBA_BF_def ones_mask by (auto simp: bit_simps dest: bit_imp_le_length)

interpretation usba: register_fields USBA_BFEXT USBA_BFINS snd os_wf os_apart
proof
  fix f g :: "nat \<times> nat" and u v w :: u32
  show "os_wf f \<Longrightarrow> USBA_BFEXT f (USBA_BFINS f v w) = take_bit (snd f) v"
    by (rule u32_eqI) (auto simp: USBA_BFEXT_bit USBA_BFINS_bit bit_take_bit_iff os_wf_def)
  show "USBA_BFEXT g (USBA_BFINS f v w) = USBA_BFEXT g w" if "os_apart f g"
    using that by (intro u32_eqI) (auto simp: USBA_BFEXT_bit USBA_BFINS_bit os_apart_def dest: bit_imp_le_length)
  show "USBA_BFINS f v (USBA_BFINS f u w) = USBA_BFINS f v w"
    by (rule u32_eqI) (auto simp: USBA_BFINS_bit)
  show "USBA_BFINS f u (USBA_BFINS g v w) = USBA_BFINS g v (USBA_BFINS f u w)" if "os_apart f g"
    using that by (intro u32_eqI) (auto simp: USBA_BFINS_bit os_apart_def)
  show "USBA_BFINS f (USBA_BFEXT f w) w = w"
    by (rule u32_eqI) (auto simp: USBA_BFEXT_bit USBA_BFINS_bit)
qed

lemma usba_registers_layout: "r \<in> set usba_registers \<Longrightarrow> usba.layout (usba_fields r)"
  by (auto simp: usba_registers_def usba_ctrl_def usba_fnum_def usba_int_def usba_ept_rst_def usba_tst_def usba_ept_cfg_def
      usba_ept_ctl_def usba_ept_sta_def usba_dma_control_def usba_dma_status_def os_wf_def os_apart_def)

text \<open>The macros of the header treat a register as the collection of its fields: after any sequence of insertions into fields
  of a register, each field is extracted as the last value inserted into it, cut to the field's size, and the other fields are
  extracted as before.\<close>

theorem usba_fields_refine:
  assumes "r \<in> set usba_registers" and "list_all (\<lambda>p. fst p \<in> set (usba_fields r)) ps" and "g \<in> set (usba_fields r)"
  shows "USBA_BFEXT g (fold (\<lambda>p. USBA_BFINS (fst p) (snd p)) ps w) =
     (case map_of (rev ps) g of None \<Rightarrow> USBA_BFEXT g w | Some v \<Rightarrow> take_bit (snd g) v)"
  by (rule usba.get_puts [OF usba_registers_layout [OF assms(1)] assms(2,3)])

theorem usba_fields_refine_witness:
  "USBA_BFEXT (4, 2) (fold (\<lambda>p. USBA_BFINS (fst p) (snd p)) [((0, 3), 6), ((4, 2), 7), ((6, 2), 1)] 0x80000000) = 3"
  using usba_fields_refine [of usba_ept_cfg "[((0, 3), 6), ((4, 2), 7), ((6, 2), 1)]" "(4, 2)" "0x80000000"]
  by (simp add: usba_registers_def usba_ept_cfg_def)

text \<open>A register's single bits are not touched by insertions into its fields, except for the bit that clears the data toggle: it
  lies inside the field with the toggle sequence.\<close>

lemma usba_bits_apart:
  "concat (map usba_bits_in_fields usba_registers) = [''USBA_TOGGLE_CLR'']"
  by code_simp

lemma usba_bit_kept: "os_apart (b, 1) f \<Longrightarrow> b < 32 \<Longrightarrow> bit (USBA_BFINS f v w) b = bit w b"
  by (auto simp: USBA_BFINS_bit os_apart_def)

text \<open>A field that is built is what an insertion into zero gives.\<close>

lemma USBA_BF_BFINS: "USBA_BF f v = USBA_BFINS f v 0"
  by (simp add: USBA_BFINS_def)

section \<open>Enabling the controller\<close>

datatype usba_arch = AVR32 | AT91

text \<open>Bits 8, 9 and 11 of the control register enable the controller, detach it and disable the pull-downs.\<close>

fun USBA_ENABLE_MASK :: "usba_arch \<Rightarrow> u32" where
  "USBA_ENABLE_MASK AVR32 = push_bit 8 1"
| "USBA_ENABLE_MASK AT91 = push_bit 8 1 OR push_bit 11 1"

fun USBA_DISABLE_MASK :: "usba_arch \<Rightarrow> u32" where
  "USBA_DISABLE_MASK AVR32 = 0"
| "USBA_DISABLE_MASK AT91 = push_bit 9 1"

lemma usba_masks_apart: "USBA_ENABLE_MASK a AND USBA_DISABLE_MASK a = 0" "bit (USBA_ENABLE_MASK a) 8" "\<not> bit (USBA_DISABLE_MASK a) 8"
  by (cases a; simp add: bit_simps)+

section \<open>Addresses\<close>

definition usba_dev_offsets :: "nat list" where
  "usba_dev_offsets = [0x0000, 0x0004, 0x0010, 0x0014, 0x0018, 0x001c, 0x00e0]"

definition usba_ept_offsets :: "nat list" where
  "usba_ept_offsets = [0x0000, 0x0004, 0x0008, 0x000c, 0x0014, 0x0018, 0x001c]"

definition usba_dma_offsets :: "nat list" where
  "usba_dma_offsets = [0x0000, 0x0004, 0x0008, 0x000c]"

definition USBA_EPT_BASE :: "nat \<Rightarrow> nat" where "USBA_EPT_BASE x = 0x100 + x * 0x20"
definition USBA_DMA_BASE :: "nat \<Rightarrow> nat" where "USBA_DMA_BASE x = 0x300 + x * 0x10"
definition USBA_FIFO_BASE :: "nat \<Rightarrow> nat" where "USBA_FIFO_BASE x = x * 2 ^ 16"

text \<open>The addresses of the registers of the device, of the first \<open>n\<close> endpoints and of the first \<open>n\<close> DMA channels.\<close>

definition usba_addresses :: "nat \<Rightarrow> nat list" where
  "usba_addresses n =
     usba_dev_offsets @ concat (map (\<lambda>i. map ((+) (USBA_EPT_BASE i)) usba_ept_offsets) [0..<n]) @
     concat (map (\<lambda>i. map ((+) (USBA_DMA_BASE i)) usba_dma_offsets) [0..<n])"

text \<open>All registers have addresses of their own as long as there are no more than 16 endpoints; a seventeenth would lie over the
  DMA channels. The header has 7.\<close>

lemma usba_addresses_sorted: "sorted_wrt (<) (usba_addresses 16)"
  by (simp add: usba_addresses_def usba_dev_offsets_def usba_ept_offsets_def usba_dma_offsets_def USBA_EPT_BASE_def USBA_DMA_BASE_def
      upt_conv_Cons sorted_wrt2 sorted_wrt1 del: sorted_wrt.simps)

lemma usba_addresses_distinct: "distinct (usba_addresses 16)" "USBA_EPT_BASE 16 = USBA_DMA_BASE 0"
  using usba_addresses_sorted by (simp_all add: strict_sorted_iff USBA_EPT_BASE_def USBA_DMA_BASE_def)

section \<open>Packet sizes and banks\<close>

text \<open>The code of a packet size, as the header lists them, with the endpoint 0 constants.\<close>

definition usba_ept_sizes :: "(nat \<times> u32) list" where
  "usba_ept_sizes = [(8, 0), (16, 1), (32, 2), (64, 3), (128, 4), (256, 5), (512, 6), (1024, 7)]"

definition EP0_FIFO_SIZE :: nat where "EP0_FIFO_SIZE = 64"
definition EP0_EPT_SIZE :: u32 where "EP0_EPT_SIZE = 3"

text \<open>A code is the binary logarithm of the size in units of eight bytes, fits into its field of three bits, and the one of
  endpoint 0 is that of its fifo.\<close>

lemma usba_ept_sizes_ok:
  "list_all (\<lambda>(sz, c). sz = 8 * 2 ^ unat c \<and> take_bit 3 c = c) usba_ept_sizes" "map_of usba_ept_sizes EP0_FIFO_SIZE = Some EP0_EPT_SIZE"
  by code_simp+

end
