(* ===== verification/FslUdc.thy ===== *)
theory FslUdc
  imports RegField
begin

text \<open>
  \<^verbatim>\<open>src/test_gadget/fsl_usb2_udc.h\<close> and \<^verbatim>\<open>src/test_gadget/arcotg_udc.h\<close> describe the same dual-role controller, the second for
  later chips. Here are the bits and field values of both, register by register, the structures over the registers and over
  the queue heads and transfer descriptors, and the numbering of the pipes. The frames of the QUICC engine's controller,
  \<^verbatim>\<open>src/test_gadget/fsl_qe_udc.h\<close>, follow.
\<close>

section \<open>Register bits and field values of the first header\<close>

definition fsl_usbcmd :: "(string \<times> u32) list" where
  "fsl_usbcmd =
    [(''USB_CMD_RUN_STOP'', 0x1),
     (''USB_CMD_CTRL_RESET'', 0x2),
     (''USB_CMD_PERIODIC_SCHEDULE_EN'', 0x10),
     (''USB_CMD_ASYNC_SCHEDULE_EN'', 0x20),
     (''USB_CMD_INT_AA_DOORBELL'', 0x40),
     (''USB_CMD_ASP'', 0x300),
     (''USB_CMD_ASYNC_SCH_PARK_EN'', 0x800),
     (''USB_CMD_SUTW'', 0x2000),
     (''USB_CMD_ATDTW'', 0x4000),
     (''USB_CMD_ITC'', 0xff0000)]"

definition fsl_frame_size :: "(string \<times> u32) list" where
  "fsl_frame_size =
    [(''USB_CMD_FRAME_SIZE_1024'', 0x0),
     (''USB_CMD_FRAME_SIZE_512'', 0x4),
     (''USB_CMD_FRAME_SIZE_256'', 0x8),
     (''USB_CMD_FRAME_SIZE_128'', 0xc),
     (''USB_CMD_FRAME_SIZE_64'', 0x8000),
     (''USB_CMD_FRAME_SIZE_32'', 0x8004),
     (''USB_CMD_FRAME_SIZE_16'', 0x8008),
     (''USB_CMD_FRAME_SIZE_8'', 0x800c)]"

definition fsl_asp :: "(string \<times> u32) list" where
  "fsl_asp =
    [(''USB_CMD_ASP_00'', 0x0),
     (''USB_CMD_ASP_01'', 0x100),
     (''USB_CMD_ASP_10'', 0x200),
     (''USB_CMD_ASP_11'', 0x300)]"

definition fsl_itc :: "(string \<times> u32) list" where
  "fsl_itc =
    [(''USB_CMD_ITC_NO_THRESHOLD'', 0x0),
     (''USB_CMD_ITC_1_MICRO_FRM'', 0x10000),
     (''USB_CMD_ITC_2_MICRO_FRM'', 0x20000),
     (''USB_CMD_ITC_4_MICRO_FRM'', 0x40000),
     (''USB_CMD_ITC_8_MICRO_FRM'', 0x80000),
     (''USB_CMD_ITC_16_MICRO_FRM'', 0x100000),
     (''USB_CMD_ITC_32_MICRO_FRM'', 0x200000),
     (''USB_CMD_ITC_64_MICRO_FRM'', 0x400000)]"

definition fsl_usbsts :: "(string \<times> u32) list" where
  "fsl_usbsts =
    [(''USB_STS_INT'', 0x1),
     (''USB_STS_ERR'', 0x2),
     (''USB_STS_PORT_CHANGE'', 0x4),
     (''USB_STS_FRM_LST_ROLL'', 0x8),
     (''USB_STS_SYS_ERR'', 0x10),
     (''USB_STS_IAA'', 0x20),
     (''USB_STS_RESET'', 0x40),
     (''USB_STS_SOF'', 0x80),
     (''USB_STS_SUSPEND'', 0x100),
     (''USB_STS_HC_HALTED'', 0x1000),
     (''USB_STS_RCL'', 0x2000),
     (''USB_STS_PERIODIC_SCHEDULE'', 0x4000),
     (''USB_STS_ASYNC_SCHEDULE'', 0x8000)]"

definition fsl_usbintr :: "(string \<times> u32) list" where
  "fsl_usbintr =
    [(''USB_INTR_INT_EN'', 0x1),
     (''USB_INTR_ERR_INT_EN'', 0x2),
     (''USB_INTR_PTC_DETECT_EN'', 0x4),
     (''USB_INTR_FRM_LST_ROLL_EN'', 0x8),
     (''USB_INTR_SYS_ERR_EN'', 0x10),
     (''USB_INTR_ASYN_ADV_EN'', 0x20),
     (''USB_INTR_RESET_EN'', 0x40),
     (''USB_INTR_SOF_EN'', 0x80),
     (''USB_INTR_DEVICE_SUSPEND'', 0x100)]"

definition fsl_portsc :: "(string \<times> u32) list" where
  "fsl_portsc =
    [(''PORTSCX_CURRENT_CONNECT_STATUS'', 0x1),
     (''PORTSCX_CONNECT_STATUS_CHANGE'', 0x2),
     (''PORTSCX_PORT_ENABLE'', 0x4),
     (''PORTSCX_PORT_EN_DIS_CHANGE'', 0x8),
     (''PORTSCX_OVER_CURRENT_ACT'', 0x10),
     (''PORTSCX_OVER_CURRENT_CHG'', 0x20),
     (''PORTSCX_PORT_FORCE_RESUME'', 0x40),
     (''PORTSCX_PORT_SUSPEND'', 0x80),
     (''PORTSCX_PORT_RESET'', 0x100),
     (''PORTSCX_LINE_STATUS_BITS'', 0xc00),
     (''PORTSCX_PORT_POWER'', 0x1000),
     (''PORTSCX_PORT_INDICTOR_CTRL'', 0xc000),
     (''PORTSCX_PORT_TEST_CTRL'', 0xf0000),
     (''PORTSCX_WAKE_ON_CONNECT_EN'', 0x100000),
     (''PORTSCX_WAKE_ON_CONNECT_DIS'', 0x200000),
     (''PORTSCX_WAKE_ON_OVER_CURRENT'', 0x400000),
     (''PORTSCX_PHY_LOW_POWER_SPD'', 0x800000),
     (''PORTSCX_PORT_FORCE_FULL_SPEED'', 0x1000000),
     (''PORTSCX_PORT_SPEED_MASK'', 0xc000000),
     (''PORTSCX_PORT_WIDTH'', 0x10000000),
     (''PORTSCX_PHY_TYPE_SEL'', 0xc0000000)]"

definition fsl_line_status :: "(string \<times> u32) list" where
  "fsl_line_status =
    [(''PORTSCX_LINE_STATUS_SE0'', 0x0),
     (''PORTSCX_LINE_STATUS_JSTATE'', 0x400),
     (''PORTSCX_LINE_STATUS_KSTATE'', 0x800),
     (''PORTSCX_LINE_STATUS_UNDEF'', 0xc00)]"

definition fsl_pic :: "(string \<times> u32) list" where
  "fsl_pic =
    [(''PORTSCX_PIC_OFF'', 0x0),
     (''PORTSCX_PIC_AMBER'', 0x4000),
     (''PORTSCX_PIC_GREEN'', 0x8000),
     (''PORTSCX_PIC_UNDEF'', 0xc000)]"

definition fsl_ptc :: "(string \<times> u32) list" where
  "fsl_ptc =
    [(''PORTSCX_PTC_DISABLE'', 0x0),
     (''PORTSCX_PTC_JSTATE'', 0x10000),
     (''PORTSCX_PTC_KSTATE'', 0x20000),
     (''PORTSCX_PTC_SEQNAK'', 0x30000),
     (''PORTSCX_PTC_PACKET'', 0x40000),
     (''PORTSCX_PTC_FORCE_EN'', 0x50000)]"

definition fsl_port_speed :: "(string \<times> u32) list" where
  "fsl_port_speed =
    [(''PORTSCX_PORT_SPEED_FULL'', 0x0),
     (''PORTSCX_PORT_SPEED_LOW'', 0x4000000),
     (''PORTSCX_PORT_SPEED_HIGH'', 0x8000000),
     (''PORTSCX_PORT_SPEED_UNDEF'', 0xc000000)]"

definition fsl_ptw :: "(string \<times> u32) list" where
  "fsl_ptw =
    [(''PORTSCX_PTW_8BIT'', 0x0),
     (''PORTSCX_PTW_16BIT'', 0x10000000)]"

definition fsl_pts :: "(string \<times> u32) list" where
  "fsl_pts =
    [(''PORTSCX_PTS_UTMI'', 0x0),
     (''PORTSCX_PTS_ULPI'', 0x80000000),
     (''PORTSCX_PTS_FSLS'', 0xc0000000)]"

definition fsl_usbmode :: "(string \<times> u32) list" where
  "fsl_usbmode =
    [(''USB_MODE_ES'', 0x4),
     (''USB_MODE_SETUP_LOCK_OFF'', 0x8),
     (''USB_MODE_STREAM_DISABLE'', 0x10)]"

definition fsl_ctrl_mode :: "(string \<times> u32) list" where
  "fsl_ctrl_mode =
    [(''USB_MODE_CTRL_MODE_IDLE'', 0x0),
     (''USB_MODE_CTRL_MODE_DEVICE'', 0x2),
     (''USB_MODE_CTRL_MODE_HOST'', 0x3),
     (''USB_MODE_CTRL_MODE_MASK'', 0x3),
     (''USB_MODE_CTRL_MODE_RSV'', 0x1)]"

definition fsl_epctrl :: "(string \<times> u32) list" where
  "fsl_epctrl =
    [(''EPCTRL_TX_ENABLE'', 0x800000),
     (''EPCTRL_TX_DATA_TOGGLE_RST'', 0x400000),
     (''EPCTRL_TX_DATA_TOGGLE_INH'', 0x200000),
     (''EPCTRL_TX_TYPE'', 0xc0000),
     (''EPCTRL_TX_DATA_SOURCE'', 0x20000),
     (''EPCTRL_TX_EP_STALL'', 0x10000),
     (''EPCTRL_RX_ENABLE'', 0x80),
     (''EPCTRL_RX_DATA_TOGGLE_RST'', 0x40),
     (''EPCTRL_RX_DATA_TOGGLE_INH'', 0x20),
     (''EPCTRL_RX_TYPE'', 0xc),
     (''EPCTRL_RX_DATA_SINK'', 0x2),
     (''EPCTRL_RX_EP_STALL'', 0x1)]"

definition fsl_ep_type :: "(string \<times> u32) list" where
  "fsl_ep_type =
    [(''EPCTRL_EP_TYPE_CONTROL'', 0),
     (''EPCTRL_EP_TYPE_ISO'', 1),
     (''EPCTRL_EP_TYPE_BULK'', 2),
     (''EPCTRL_EP_TYPE_INTERRUPT'', 3)]"

definition fsl_snoop :: "(string \<times> u32) list" where
  "fsl_snoop =
    [(''SNOOP_SIZE_ZERO'', 0x0),
     (''SNOOP_SIZE_4KB'', 0xb),
     (''SNOOP_SIZE_8KB'', 0xc),
     (''SNOOP_SIZE_16KB'', 0xd),
     (''SNOOP_SIZE_32KB'', 0xe),
     (''SNOOP_SIZE_64KB'', 0xf),
     (''SNOOP_SIZE_128KB'', 0x10),
     (''SNOOP_SIZE_256KB'', 0x11),
     (''SNOOP_SIZE_512KB'', 0x12),
     (''SNOOP_SIZE_1MB'', 0x13),
     (''SNOOP_SIZE_2MB'', 0x14),
     (''SNOOP_SIZE_4MB'', 0x15),
     (''SNOOP_SIZE_8MB'', 0x16),
     (''SNOOP_SIZE_16MB'', 0x17),
     (''SNOOP_SIZE_32MB'', 0x18),
     (''SNOOP_SIZE_64MB'', 0x19),
     (''SNOOP_SIZE_128MB'', 0x1a),
     (''SNOOP_SIZE_256MB'', 0x1b),
     (''SNOOP_SIZE_512MB'', 0x1c),
     (''SNOOP_SIZE_1GB'', 0x1d),
     (''SNOOP_SIZE_2GB'', 0x1e)]"

definition fsl_pri_ctrl :: "(string \<times> u32) list" where
  "fsl_pri_ctrl =
    [(''PRI_CTRL_PRI_LVL1'', 0xc),
     (''PRI_CTRL_PRI_LVL0'', 0x3)]"

definition fsl_si_ctrl :: "(string \<times> u32) list" where
  "fsl_si_ctrl =
    [(''SI_CTRL_ERR_DISABLE'', 0x10),
     (''SI_CTRL_IDRC_DISABLE'', 0x8),
     (''SI_CTRL_RD_SAFE_EN'', 0x4),
     (''SI_CTRL_RD_PREFETCH_DISABLE'', 0x2),
     (''SI_CTRL_RD_PREFEFETCH_VAL'', 0x1)]"

definition fsl_otgsc :: "(string \<times> u32) list" where
  "fsl_otgsc =
    [(''OTGSC_CTRL_VUSB_DISCHARGE'', 0x1),
     (''OTGSC_CTRL_VUSB_CHARGE'', 0x2),
     (''OTGSC_CTRL_OTG_TERM'', 0x8),
     (''OTGSC_CTRL_DATA_PULSING'', 0x10),
     (''OTGSC_STS_USB_ID'', 0x100),
     (''OTGSC_STS_A_VBUS_VALID'', 0x200),
     (''OTGSC_STS_A_SESSION_VALID'', 0x400),
     (''OTGSC_STS_B_SESSION_VALID'', 0x800),
     (''OTGSC_STS_B_SESSION_END'', 0x1000),
     (''OTGSC_STS_1MS_TOGGLE'', 0x2000),
     (''OTGSC_STS_DATA_PULSING'', 0x4000),
     (''OTGSC_INTSTS_USB_ID'', 0x10000),
     (''OTGSC_INTSTS_A_VBUS_VALID'', 0x20000),
     (''OTGSC_INTSTS_A_SESSION_VALID'', 0x40000),
     (''OTGSC_INTSTS_B_SESSION_VALID'', 0x80000),
     (''OTGSC_INTSTS_B_SESSION_END'', 0x100000),
     (''OTGSC_INTSTS_1MS'', 0x200000),
     (''OTGSC_INTSTS_DATA_PULSING'', 0x400000),
     (''OTGSC_INTR_USB_ID'', 0x1000000),
     (''OTGSC_INTR_A_VBUS_VALID'', 0x2000000),
     (''OTGSC_INTR_A_SESSION_VALID'', 0x4000000),
     (''OTGSC_INTR_B_SESSION_VALID'', 0x8000000),
     (''OTGSC_INTR_B_SESSION_END'', 0x10000000),
     (''OTGSC_INTR_1MS_TIMER'', 0x20000000),
     (''OTGSC_INTR_DATA_PULSING'', 0x40000000)]"

section \<open>What the tables have to satisfy\<close>

text \<open>The tables of bits and masks, in each of which the entries belong to one register.\<close>

definition fsl_masks :: "(string \<times> u32) list list" where
  "fsl_masks = [fsl_usbcmd, fsl_usbsts, fsl_usbintr, fsl_portsc, fsl_otgsc, fsl_usbmode, fsl_epctrl, fsl_pri_ctrl, fsl_si_ctrl]"

text \<open>The tables of values, each with the mask of its field.\<close>

definition fsl_values :: "(u32 \<times> (string \<times> u32) list) list" where
  "fsl_values =
    [(0x800c, fsl_frame_size), (0x300, fsl_asp), (0xff0000, fsl_itc), (0xc00, fsl_line_status), (0xc000, fsl_pic), (0xf0000, fsl_ptc),
     (0xc000000, fsl_port_speed), (0x10000000, fsl_ptw), (0xc0000000, fsl_pts)]"

definition in_field :: "u32 \<times> (string \<times> u32) list \<Rightarrow> bool" where
  "in_field t \<longleftrightarrow> list_all (\<lambda>(n, v). v AND fst t = v) (snd t)"

definition table_apart :: "(string \<times> u32) list \<Rightarrow> bool" where
  "table_apart t \<longleftrightarrow> masks_apart 0 (map (\<lambda>(n, m). (m, 0)) t)"

lemmas fsl_table_defs = fsl_usbcmd_def fsl_usbsts_def fsl_usbintr_def fsl_portsc_def fsl_otgsc_def fsl_usbmode_def fsl_epctrl_def
  fsl_pri_ctrl_def fsl_si_ctrl_def fsl_frame_size_def fsl_asp_def fsl_itc_def fsl_line_status_def fsl_pic_def fsl_ptc_def
  fsl_port_speed_def fsl_ptw_def fsl_pts_def

lemma fsl_tables_ok: "list_all table_apart fsl_masks" "list_all in_field fsl_values"
  by (simp_all add: fsl_masks_def fsl_values_def fsl_table_defs table_apart_def in_field_def)

text \<open>The size a snoop code stands for: zero for none, and from 4 KB on a power of two.\<close>

definition snoop_bytes :: "u32 \<Rightarrow> nat" where
  "snoop_bytes c = (if c = 0 then 0 else 2 ^ (unat c + 1))"

lemma fsl_snoop_sizes:
  "map (\<lambda>(n, c). snoop_bytes c) fsl_snoop = 0 # map (\<lambda>k. 2 ^ k) [12..<32]"
  by (simp add: fsl_snoop_def snoop_bytes_def upt_conv_Cons)

text \<open>The word of a transfer descriptor with its length, its flags and its status: the packet size, the interrupt flag, the
  multiplier, the status and the reserved bits.\<close>

definition dtd_fields :: "u32 list" where
  "dtd_fields = [0x7fff0000, 0x8000, 0xc00, 0xff, 0x80007300]"

definition DTD_ERROR_MASK :: u32 where
  "DTD_ERROR_MASK = 0x40 OR 0x20 OR 0x8"

definition EP_QUEUE_HEAD_MAX_PKT_LEN :: "u32 \<Rightarrow> u32" where
  "EP_QUEUE_HEAD_MAX_PKT_LEN ep_info = drop_bit 16 ep_info AND 0x7ff"

text \<open>The fields partition the word, and every error bit is a status bit.\<close>

lemma dtd_fields_partition:
  "masks_apart 0 (map (\<lambda>m. (m, 0)) dtd_fields)" "fold (OR) dtd_fields 0 = NOT 0" "DTD_ERROR_MASK AND 0xff = DTD_ERROR_MASK"
  by code_simp+

text \<open>A packet length of 11 bits that is put at its place in a queue head, beside the multiplier and the flags, is read back.\<close>

lemma max_pkt_len_round_trip:
  assumes "len < 0x800"
  shows "EP_QUEUE_HEAD_MAX_PKT_LEN (push_bit 30 mult OR 0x20000000 OR push_bit 16 len OR 0x8000) = len"
proof -
  have low: "i < 11" if "bit len i" for i
    using that assms bit_high_False [of len 11 i] by (cases "i < 11") (auto simp: word_less_nat_alt)
  define z i where "z = (0x20000000 :: u32)" and "i = (0x8000 :: u32)"
  have "z = 2 ^ 29" "i = 2 ^ 15" by (simp_all add: z_def i_def)
  then have b: "bit z n \<longleftrightarrow> n = 29" "bit i n \<longleftrightarrow> n = 15" for n by (simp_all only: bit_exp_iff possible_bit_word) auto
  have m: "(0x7ff :: u32) = mask 11" by (simp add: mask_eq_exp_minus_1)
  have "EP_QUEUE_HEAD_MAX_PKT_LEN (push_bit 30 mult OR z OR push_bit 16 len OR i) = len"
    unfolding EP_QUEUE_HEAD_MAX_PKT_LEN_def m by (rule u32_eqI) (auto simp: bit_simps b dest: low)
  then show ?thesis by (simp only: z_def i_def)
qed

section \<open>The second header\<close>

definition arcotg_usbcmd :: "(string \<times> u32) list" where
  "arcotg_usbcmd =
    [(''USB_CMD_RUN_STOP'', 0x1),
     (''USB_CMD_CTRL_RESET'', 0x2),
     (''USB_CMD_PERIODIC_SCHEDULE_EN'', 0x10),
     (''USB_CMD_ASYNC_SCHEDULE_EN'', 0x20),
     (''USB_CMD_INT_AA_DOORBELL'', 0x40),
     (''USB_CMD_ASP'', 0x300),
     (''USB_CMD_ASYNC_SCH_PARK_EN'', 0x800),
     (''USB_CMD_SUTW'', 0x2000),
     (''USB_CMD_ATDTW'', 0x4000),
     (''USB_CMD_ITC'', 0xff0000)]"

definition arcotg_frame_size :: "(string \<times> u32) list" where
  "arcotg_frame_size =
    [(''USB_CMD_FRAME_SIZE_1024'', 0x0),
     (''USB_CMD_FRAME_SIZE_512'', 0x4),
     (''USB_CMD_FRAME_SIZE_256'', 0x8),
     (''USB_CMD_FRAME_SIZE_128'', 0xc),
     (''USB_CMD_FRAME_SIZE_64'', 0x8000),
     (''USB_CMD_FRAME_SIZE_32'', 0x8004),
     (''USB_CMD_FRAME_SIZE_16'', 0x8008),
     (''USB_CMD_FRAME_SIZE_8'', 0x800c)]"

definition arcotg_asp :: "(string \<times> u32) list" where
  "arcotg_asp =
    [(''USB_CMD_ASP_00'', 0x0),
     (''USB_CMD_ASP_01'', 0x100),
     (''USB_CMD_ASP_10'', 0x200),
     (''USB_CMD_ASP_11'', 0x300)]"

definition arcotg_itc :: "(string \<times> u32) list" where
  "arcotg_itc =
    [(''USB_CMD_ITC_NO_THRESHOLD'', 0x0),
     (''USB_CMD_ITC_1_MICRO_FRM'', 0x10000),
     (''USB_CMD_ITC_2_MICRO_FRM'', 0x20000),
     (''USB_CMD_ITC_4_MICRO_FRM'', 0x40000),
     (''USB_CMD_ITC_8_MICRO_FRM'', 0x80000),
     (''USB_CMD_ITC_16_MICRO_FRM'', 0x100000),
     (''USB_CMD_ITC_32_MICRO_FRM'', 0x200000),
     (''USB_CMD_ITC_64_MICRO_FRM'', 0x400000)]"

definition arcotg_usbsts :: "(string \<times> u32) list" where
  "arcotg_usbsts =
    [(''USB_STS_INT'', 0x1),
     (''USB_STS_ERR'', 0x2),
     (''USB_STS_PORT_CHANGE'', 0x4),
     (''USB_STS_FRM_LST_ROLL'', 0x8),
     (''USB_STS_SYS_ERR'', 0x10),
     (''USB_STS_IAA'', 0x20),
     (''USB_STS_RESET'', 0x40),
     (''USB_STS_SOF'', 0x80),
     (''USB_STS_SUSPEND'', 0x100),
     (''USB_STS_HC_HALTED'', 0x1000),
     (''USB_STS_RCL'', 0x2000),
     (''USB_STS_PERIODIC_SCHEDULE'', 0x4000),
     (''USB_STS_ASYNC_SCHEDULE'', 0x8000)]"

definition arcotg_usbintr :: "(string \<times> u32) list" where
  "arcotg_usbintr =
    [(''USB_INTR_INT_EN'', 0x1),
     (''USB_INTR_ERR_INT_EN'', 0x2),
     (''USB_INTR_PTC_DETECT_EN'', 0x4),
     (''USB_INTR_FRM_LST_ROLL_EN'', 0x8),
     (''USB_INTR_SYS_ERR_EN'', 0x10),
     (''USB_INTR_ASYN_ADV_EN'', 0x20),
     (''USB_INTR_RESET_EN'', 0x40),
     (''USB_INTR_SOF_EN'', 0x80),
     (''USB_INTR_DEVICE_SUSPEND'', 0x100)]"

definition arcotg_portsc :: "(string \<times> u32) list" where
  "arcotg_portsc =
    [(''PORTSCX_CURRENT_CONNECT_STATUS'', 0x1),
     (''PORTSCX_CONNECT_STATUS_CHANGE'', 0x2),
     (''PORTSCX_PORT_ENABLE'', 0x4),
     (''PORTSCX_PORT_EN_DIS_CHANGE'', 0x8),
     (''PORTSCX_OVER_CURRENT_ACT'', 0x10),
     (''PORTSCX_OVER_CURRENT_CHG'', 0x20),
     (''PORTSCX_PORT_FORCE_RESUME'', 0x40),
     (''PORTSCX_PORT_SUSPEND'', 0x80),
     (''PORTSCX_PORT_RESET'', 0x100),
     (''PORTSCX_LINE_STATUS_BITS'', 0xc00),
     (''PORTSCX_PORT_POWER'', 0x1000),
     (''PORTSCX_PORT_INDICTOR_CTRL'', 0xc000),
     (''PORTSCX_PORT_TEST_CTRL'', 0xf0000),
     (''PORTSCX_WAKE_ON_CONNECT_EN'', 0x100000),
     (''PORTSCX_WAKE_ON_CONNECT_DIS'', 0x200000),
     (''PORTSCX_WAKE_ON_OVER_CURRENT'', 0x400000),
     (''PORTSCX_PHY_LOW_POWER_SPD'', 0x800000),
     (''PORTSCX_PORT_FORCE_FULL_SPEED'', 0x1000000),
     (''PORTSCX_PORT_SPEED_MASK'', 0xc000000),
     (''PORTSCX_PORT_WIDTH'', 0x10000000),
     (''PORTSCX_PHY_TYPE_SEL'', 0xc0000000)]"

definition arcotg_line_status :: "(string \<times> u32) list" where
  "arcotg_line_status =
    [(''PORTSCX_LINE_STATUS_SE0'', 0x0),
     (''PORTSCX_LINE_STATUS_KSTATE'', 0x400),
     (''PORTSCX_LINE_STATUS_JSTATE'', 0x800),
     (''PORTSCX_LINE_STATUS_UNDEF'', 0xc00)]"

definition arcotg_pic :: "(string \<times> u32) list" where
  "arcotg_pic =
    [(''PORTSCX_PIC_OFF'', 0x0),
     (''PORTSCX_PIC_AMBER'', 0x4000),
     (''PORTSCX_PIC_GREEN'', 0x8000),
     (''PORTSCX_PIC_UNDEF'', 0xc000)]"

definition arcotg_ptc :: "(string \<times> u32) list" where
  "arcotg_ptc =
    [(''PORTSCX_PTC_DISABLE'', 0x0),
     (''PORTSCX_PTC_JSTATE'', 0x10000),
     (''PORTSCX_PTC_KSTATE'', 0x20000),
     (''PORTSCX_PTC_SEQNAK'', 0x30000),
     (''PORTSCX_PTC_PACKET'', 0x40000),
     (''PORTSCX_PTC_FORCE_EN'', 0x50000)]"

definition arcotg_port_speed :: "(string \<times> u32) list" where
  "arcotg_port_speed =
    [(''PORTSCX_PORT_SPEED_FULL'', 0x0),
     (''PORTSCX_PORT_SPEED_LOW'', 0x4000000),
     (''PORTSCX_PORT_SPEED_HIGH'', 0x8000000),
     (''PORTSCX_PORT_SPEED_UNDEF'', 0xc000000)]"

definition arcotg_ptw :: "(string \<times> u32) list" where
  "arcotg_ptw =
    [(''PORTSCX_PTW_8BIT'', 0x0),
     (''PORTSCX_PTW_16BIT'', 0x10000000)]"

definition arcotg_pts :: "(string \<times> u32) list" where
  "arcotg_pts =
    [(''PORTSCX_PTS_UTMI'', 0x0),
     (''PORTSCX_PTS_ULPI'', 0x80000000),
     (''PORTSCX_PTS_FSLS'', 0xc0000000)]"

definition arcotg_usbmode :: "(string \<times> u32) list" where
  "arcotg_usbmode =
    [(''USB_MODE_ES'', 0x4),
     (''USB_MODE_SETUP_LOCK_OFF'', 0x8),
     (''USB_MODE_STREAM_DISABLE'', 0x10)]"

definition arcotg_ctrl_mode :: "(string \<times> u32) list" where
  "arcotg_ctrl_mode =
    [(''USB_MODE_CTRL_MODE_IDLE'', 0x0),
     (''USB_MODE_CTRL_MODE_DEVICE'', 0x2),
     (''USB_MODE_CTRL_MODE_HOST'', 0x3),
     (''USB_MODE_CTRL_MODE_MASK'', 0x3),
     (''USB_MODE_CTRL_MODE_RSV'', 0x1)]"

definition arcotg_epctrl :: "(string \<times> u32) list" where
  "arcotg_epctrl =
    [(''EPCTRL_TX_ENABLE'', 0x800000),
     (''EPCTRL_TX_DATA_TOGGLE_RST'', 0x400000),
     (''EPCTRL_TX_DATA_TOGGLE_INH'', 0x200000),
     (''EPCTRL_TX_TYPE'', 0xc0000),
     (''EPCTRL_TX_DATA_SOURCE'', 0x20000),
     (''EPCTRL_TX_EP_STALL'', 0x10000),
     (''EPCTRL_RX_ENABLE'', 0x80),
     (''EPCTRL_RX_DATA_TOGGLE_RST'', 0x40),
     (''EPCTRL_RX_DATA_TOGGLE_INH'', 0x20),
     (''EPCTRL_RX_TYPE'', 0xc),
     (''EPCTRL_RX_DATA_SINK'', 0x2),
     (''EPCTRL_RX_EP_STALL'', 0x1)]"

definition arcotg_ep_type :: "(string \<times> u32) list" where
  "arcotg_ep_type =
    [(''EPCTRL_EP_TYPE_CONTROL'', 0),
     (''EPCTRL_EP_TYPE_ISO'', 1),
     (''EPCTRL_EP_TYPE_BULK'', 2),
     (''EPCTRL_EP_TYPE_INTERRUPT'', 3)]"

definition arcotg_snoop :: "(string \<times> u32) list" where
  "arcotg_snoop =
    [(''SNOOP_SIZE_ZERO'', 0x0),
     (''SNOOP_SIZE_4KB'', 0xb),
     (''SNOOP_SIZE_8KB'', 0xc),
     (''SNOOP_SIZE_16KB'', 0xd),
     (''SNOOP_SIZE_32KB'', 0xe),
     (''SNOOP_SIZE_64KB'', 0xf),
     (''SNOOP_SIZE_128KB'', 0x10),
     (''SNOOP_SIZE_256KB'', 0x11),
     (''SNOOP_SIZE_512KB'', 0x12),
     (''SNOOP_SIZE_1MB'', 0x13),
     (''SNOOP_SIZE_2MB'', 0x14),
     (''SNOOP_SIZE_4MB'', 0x15),
     (''SNOOP_SIZE_8MB'', 0x16),
     (''SNOOP_SIZE_16MB'', 0x17),
     (''SNOOP_SIZE_32MB'', 0x18),
     (''SNOOP_SIZE_64MB'', 0x19),
     (''SNOOP_SIZE_128MB'', 0x1a),
     (''SNOOP_SIZE_256MB'', 0x1b),
     (''SNOOP_SIZE_512MB'', 0x1c),
     (''SNOOP_SIZE_1GB'', 0x1d),
     (''SNOOP_SIZE_2GB'', 0x1e)]"

definition arcotg_pri_ctrl :: "(string \<times> u32) list" where
  "arcotg_pri_ctrl =
    [(''PRI_CTRL_PRI_LVL1'', 0xc),
     (''PRI_CTRL_PRI_LVL0'', 0x3)]"

definition arcotg_si_ctrl :: "(string \<times> u32) list" where
  "arcotg_si_ctrl =
    [(''SI_CTRL_ERR_DISABLE'', 0x10),
     (''SI_CTRL_IDRC_DISABLE'', 0x8),
     (''SI_CTRL_RD_SAFE_EN'', 0x4),
     (''SI_CTRL_RD_PREFETCH_DISABLE'', 0x2),
     (''SI_CTRL_RD_PREFEFETCH_VAL'', 0x1)]"

definition fsl_shared :: "(string \<times> u32) list list" where
  "fsl_shared =
    [fsl_usbcmd, fsl_frame_size, fsl_asp, fsl_itc, fsl_usbsts, fsl_usbintr, fsl_portsc, fsl_pic, fsl_ptc, fsl_port_speed, fsl_ptw, fsl_pts,
     fsl_usbmode, fsl_ctrl_mode, fsl_epctrl, fsl_ep_type, fsl_snoop, fsl_pri_ctrl, fsl_si_ctrl]"

definition arcotg_shared :: "(string \<times> u32) list list" where
  "arcotg_shared =
    [arcotg_usbcmd, arcotg_frame_size, arcotg_asp, arcotg_itc, arcotg_usbsts, arcotg_usbintr, arcotg_portsc, arcotg_pic, arcotg_ptc,
     arcotg_port_speed, arcotg_ptw, arcotg_pts, arcotg_usbmode, arcotg_ctrl_mode, arcotg_epctrl, arcotg_ep_type, arcotg_snoop,
     arcotg_pri_ctrl, arcotg_si_ctrl]"

section \<open>Structures\<close>

definition fsl_usb_dr_device :: "(string \<times> int \<times> int) list" where
  "fsl_usb_dr_device =
    [(''res1'', 1, 256), (''caplength'', 2, 1), (''hciversion'', 2, 1), (''hcsparams'', 4, 1), (''hccparams'', 4, 1),
     (''res2'', 1, 20), (''dciversion'', 4, 1), (''dccparams'', 4, 1), (''res3'', 1, 24), (''usbcmd'', 4, 1), (''usbsts'', 4,
     1), (''usbintr'', 4, 1), (''frindex'', 4, 1), (''res4'', 1, 4), (''deviceaddr'', 4, 1), (''endpointlistaddr'', 4, 1),
     (''res5'', 1, 4), (''burstsize'', 4, 1), (''txttfilltuning'', 4, 1), (''res6'', 1, 24), (''configflag'', 4, 1),
     (''portsc1'', 4, 1), (''res7'', 1, 28), (''otgsc'', 4, 1), (''usbmode'', 4, 1), (''endptsetupstat'', 4, 1),
     (''endpointprime'', 4, 1), (''endptflush'', 4, 1), (''endptstatus'', 4, 1), (''endptcomplete'', 4, 1), (''endptctrl'', 4,
     6)]"

definition fsl_usb_dr_host :: "(string \<times> int \<times> int) list" where
  "fsl_usb_dr_host =
    [(''res1'', 1, 256), (''caplength'', 2, 1), (''hciversion'', 2, 1), (''hcsparams'', 4, 1), (''hccparams'', 4, 1),
     (''res2'', 1, 20), (''dciversion'', 4, 1), (''dccparams'', 4, 1), (''res3'', 1, 24), (''usbcmd'', 4, 1), (''usbsts'', 4,
     1), (''usbintr'', 4, 1), (''frindex'', 4, 1), (''res4'', 1, 4), (''periodiclistbase'', 4, 1), (''asynclistaddr'', 4, 1),
     (''res5'', 1, 4), (''burstsize'', 4, 1), (''txttfilltuning'', 4, 1), (''res6'', 1, 24), (''configflag'', 4, 1),
     (''portsc1'', 4, 1), (''res7'', 1, 28), (''otgsc'', 4, 1), (''usbmode'', 4, 1), (''endptsetupstat'', 4, 1),
     (''endpointprime'', 4, 1), (''endptflush'', 4, 1), (''endptstatus'', 4, 1), (''endptcomplete'', 4, 1), (''endptctrl'', 4,
     6)]"

definition fsl_usb_sys_interface :: "(string \<times> int \<times> int) list" where
  "fsl_usb_sys_interface =
    [(''snoop1'', 4, 1), (''snoop2'', 4, 1), (''age_cnt_thresh'', 4, 1), (''pri_ctrl'', 4, 1), (''si_ctrl'', 4, 1), (''res'',
     1, 236), (''control'', 4, 1)]"

definition fsl_ep_queue_head :: "(string \<times> int \<times> int) list" where
  "fsl_ep_queue_head =
    [(''max_pkt_length'', 4, 1), (''curr_dtd_ptr'', 4, 1), (''next_dtd_ptr'', 4, 1), (''size_ioc_int_sts'', 4, 1),
     (''buff_ptr0'', 4, 1), (''buff_ptr1'', 4, 1), (''buff_ptr2'', 4, 1), (''buff_ptr3'', 4, 1), (''buff_ptr4'', 4, 1),
     (''res1'', 4, 1), (''setup_buffer'', 1, 8), (''res2'', 4, 4)]"

definition arcotg_device_regs :: "(string \<times> int \<times> int) list" where
  "arcotg_device_regs =
    [(''id'', 4, 1), (''res1'', 4, 35), (''sbuscfg'', 4, 1), (''res11'', 4, 27), (''caplength'', 2, 1), (''hciversion'', 2,
     1), (''hcsparams'', 4, 1), (''hccparams'', 4, 1), (''res2'', 4, 5), (''dciversion'', 4, 1), (''dccparams'', 4, 1),
     (''res3'', 4, 6), (''usbcmd'', 4, 1), (''usbsts'', 4, 1), (''usbintr'', 4, 1), (''frindex'', 4, 1), (''res4'', 4, 1),
     (''deviceaddr'', 4, 1), (''endpointlistaddr'', 4, 1), (''res5'', 4, 1), (''burstsize'', 4, 1), (''txttfilltuning'', 4, 1),
     (''res6'', 4, 6), (''configflag'', 4, 1), (''portsc1'', 4, 1), (''res7'', 4, 7), (''otgsc'', 4, 1), (''usbmode'', 4, 1),
     (''endptsetupstat'', 4, 1), (''endpointprime'', 4, 1), (''endptflush'', 4, 1), (''endptstatus'', 4, 1),
     (''endptcomplete'', 4, 1), (''endptctrl'', 4, 8 * 2)]"

definition registers_of :: "(string \<times> int) list \<Rightarrow> (string \<times> int) list" where
  "registers_of os = filter (\<lambda>(n, a). take 3 n \<noteq> ''res'') os"

text \<open>The chip's own registers follow those of the controller, on the MX5 with a gap.\<close>

definition arcotg_usb_dr_device :: "bool \<Rightarrow> (string \<times> int \<times> int) list" where
  "arcotg_usb_dr_device arch_mx5 =
     arcotg_device_regs @ [(''res8'', 4, 256)] @ (if arch_mx5 then [(''res9'', 4, 128)] else []) @
     [(''usbctrl'', 4, 1), (''otgmirror'', 4, 1), (''phyctrl0'', 4, 1), (''phyctrl1'', 4, 1), (''ctrl1'', 4, 1), (''uh2ctrl'', 4, 1)]"

text \<open>Device and host registers share the block; the system interface is 0x400 bytes into it, and its control register 0x500.
  The queue head has 64 bytes, and on the MX5 the chip's registers start at 0x800, as the header says.\<close>

lemma fsl_struct_offsets:
  "map snd (c_offsets 0 fsl_usb_dr_host) = map snd (c_offsets 0 fsl_usb_dr_device)"
  "c_extent 0 fsl_usb_dr_device \<le> 0x400" "map_of (c_offsets 0x400 fsl_usb_sys_interface) ''control'' = Some 0x500"
  "c_extent 0 fsl_ep_queue_head = 64"
  "map_of (c_offsets 0 (arcotg_usb_dr_device True)) ''usbctrl'' = Some 0x800"
  "map_of (c_offsets 0 (arcotg_usb_dr_device False)) ''usbctrl'' = Some 0x600"
  by code_simp+

text \<open>The two headers of the dual-role controller agree. The registers of the first are registers of the second at the same
  offsets, and every bit and field value that both name has the same value, with one exception: the values of the line
  status for the J and the K state are exchanged.\<close>

theorem fsl_headers_agree:
  "registers_of (c_offsets 0 arcotg_device_regs) = (''id'', 0) # (''sbuscfg'', 0x90) # registers_of (c_offsets 0 fsl_usb_dr_device) \<and>
   fsl_shared = arcotg_shared \<and>
   map snd fsl_line_status = map snd arcotg_line_status \<and>
   map_of fsl_line_status ''PORTSCX_LINE_STATUS_JSTATE'' = map_of arcotg_line_status ''PORTSCX_LINE_STATUS_KSTATE'' \<and>
   map_of fsl_line_status ''PORTSCX_LINE_STATUS_KSTATE'' = map_of arcotg_line_status ''PORTSCX_LINE_STATUS_JSTATE'' \<and>
   map_of fsl_line_status ''PORTSCX_LINE_STATUS_JSTATE'' \<noteq> map_of fsl_line_status ''PORTSCX_LINE_STATUS_KSTATE''"
proof (intro conjI)
  show "fsl_shared = arcotg_shared"
    unfolding fsl_shared_def arcotg_shared_def fsl_usbcmd_def arcotg_usbcmd_def fsl_frame_size_def arcotg_frame_size_def fsl_asp_def arcotg_asp_def fsl_itc_def
      arcotg_itc_def fsl_usbsts_def arcotg_usbsts_def fsl_usbintr_def arcotg_usbintr_def fsl_portsc_def arcotg_portsc_def
      fsl_pic_def arcotg_pic_def fsl_ptc_def arcotg_ptc_def fsl_port_speed_def arcotg_port_speed_def fsl_ptw_def
      arcotg_ptw_def fsl_pts_def arcotg_pts_def fsl_usbmode_def arcotg_usbmode_def fsl_ctrl_mode_def arcotg_ctrl_mode_def
      fsl_epctrl_def arcotg_epctrl_def fsl_ep_type_def arcotg_ep_type_def fsl_snoop_def arcotg_snoop_def fsl_pri_ctrl_def
      arcotg_pri_ctrl_def fsl_si_ctrl_def arcotg_si_ctrl_def by (rule refl)
  show "registers_of (c_offsets 0 arcotg_device_regs) = (''id'', 0) # (''sbuscfg'', 0x90) # registers_of (c_offsets 0 fsl_usb_dr_device)"
    by code_simp
qed (simp_all add: fsl_line_status_def arcotg_line_status_def)

section \<open>Pipes\<close>

text \<open>An endpoint is known by its address; endpoint 0 has the direction of the transfer that is under way.\<close>

definition fsl_ep_index :: "u8 \<Rightarrow> nat" where
  "fsl_ep_index addr = unat (addr AND 0xF)"

definition fsl_ep_is_in :: "u8 \<Rightarrow> u8 \<Rightarrow> bool" where
  "fsl_ep_is_in ep0_dir addr = (if fsl_ep_index addr = 0 then ep0_dir = 0x80 else addr AND 0x80 = 0x80)"

definition get_pipe_by_windex :: "u16 \<Rightarrow> nat" where
  "get_pipe_by_windex windex = unat (windex AND 0xF) * 2 + (if windex AND 0x80 \<noteq> 0 then 1 else 0)"

definition get_pipe_by_ep :: "u8 \<Rightarrow> u8 \<Rightarrow> nat" where
  "get_pipe_by_ep ep0_dir addr = fsl_ep_index addr * 2 + of_bool (fsl_ep_is_in ep0_dir addr)"

text \<open>The endpoint of a pipe, by the table of the controller's endpoints.\<close>

definition get_ep_by_pipe :: "'e list \<Rightarrow> nat \<Rightarrow> 'e option" where
  "get_ep_by_pipe eps pipe = (if pipe = 1 then fetch eps 0 else fetch eps pipe)"

lemma windex_low: "(ucast (a :: u8) :: u16) AND 0xF = ucast (a AND 0xF)"
  by (rule u16_eqI) (simp add: bitwise)

lemma windex_dir: "(ucast (a :: u8) :: u16) AND 0x80 \<noteq> 0 \<longleftrightarrow> bit a 7"
proof -
  have "(ucast a :: u16) AND 0x80 = (if bit a 7 then 0x80 else 0)"
    by (rule u16_eqI) (simp add: bitwise)
  then show ?thesis by simp
qed

lemma addr_dir: "(a :: u8) AND 0x80 = 0x80 \<longleftrightarrow> bit a 7"
proof -
  have "a AND 0x80 = (if bit a 7 then 0x80 else 0)"
    by (rule u8_eqI) (simp add: bitwise)
  then show ?thesis by simp
qed

lemma pipe_of_address: "get_pipe_by_windex (ucast a) = fsl_ep_index a * 2 + of_bool (bit a 7)"
  by (simp add: get_pipe_by_windex_def windex_low windex_dir fsl_ep_index_def)

lemma ep_index_less: "fsl_ep_index a < 16"
  using unat_and_mask_less [of a "0xF"] by (simp add: fsl_ep_index_def)

lemma address_eqI:
  assumes "a AND 0x70 = 0" and "b AND 0x70 = 0" and "a AND 0xF = b AND 0xF" and "bit a 7 = bit b 7"
  shows "a = (b :: u8)"
proof -
  have "\<not> bit x n" if "x AND 0x70 = 0" "n \<in> {4, 5, 6}" for x :: u8 and n
    using arg_cong [OF that(1), of "\<lambda>w. bit w n"] that(2) by (auto simp: bit_simps)
  moreover have "bit a n = bit b n" if "n \<in> {0, 1, 2, 3}" for n
    using arg_cong [OF assms(3), of "\<lambda>w. bit w n"] that by (auto simp: bit_simps)
  ultimately show ?thesis using assms by (intro u8_eqI) (simp add: all_less_8)
qed

text \<open>Pipes number the endpoints of the dual-role controller. Different endpoint addresses have different pipes; the pipe an
  endpoint computes from its descriptor is the one that the index of a control request for its address gives; a pipe is below
  twice the number of endpoints exactly if the endpoint number is in range, so that a request for an endpoint that does not
  exist would reach behind the table; and both pipes of endpoint 0 lead to the same entry.\<close>

theorem fsl_pipes_number_endpoints:
  assumes "a AND 0x70 = 0" and "b AND 0x70 = 0"
  shows "(get_pipe_by_windex (ucast a) = get_pipe_by_windex (ucast b) \<longleftrightarrow> a = b) \<and>
     (fsl_ep_index a \<noteq> 0 \<longrightarrow> get_pipe_by_ep ep0_dir a = get_pipe_by_windex (ucast a)) \<and>
     (get_pipe_by_windex (ucast a) < 2 * max_ep \<longleftrightarrow> fsl_ep_index a < max_ep) \<and>
     get_ep_by_pipe eps (get_pipe_by_windex 0x80) = get_ep_by_pipe eps (get_pipe_by_windex 0)"
proof (intro conjI impI)
  have "a = b" if "get_pipe_by_windex (ucast a) = get_pipe_by_windex (ucast b)"
  proof -
    have e: "fsl_ep_index a * 2 + of_bool (bit a 7) = fsl_ep_index b * 2 + of_bool (bit b 7)"
      using that by (simp only: pipe_of_address)
    then have d: "bit a 7 = bit b 7" by (cases "bit a 7"; cases "bit b 7"; simp; presburger)
    with e have "fsl_ep_index a = fsl_ep_index b" by simp
    then have "a AND 0xF = b AND 0xF" by (simp only: fsl_ep_index_def word_unat_eq_iff)
    then show ?thesis by (rule address_eqI [OF assms _ d])
  qed
  then show "get_pipe_by_windex (ucast a) = get_pipe_by_windex (ucast b) \<longleftrightarrow> a = b" by auto
  show "get_pipe_by_ep ep0_dir a = get_pipe_by_windex (ucast a)" if "fsl_ep_index a \<noteq> 0"
    using that by (simp add: get_pipe_by_ep_def pipe_of_address fsl_ep_is_in_def addr_dir)
  show "get_pipe_by_windex (ucast a) < 2 * max_ep \<longleftrightarrow> fsl_ep_index a < max_ep"
    by (cases "bit a 7") (auto simp: pipe_of_address)
  show "get_ep_by_pipe eps (get_pipe_by_windex 0x80) = get_ep_by_pipe eps (get_pipe_by_windex 0)"
    by (simp add: get_pipe_by_windex_def get_ep_by_pipe_def)
qed

theorem fsl_pipes_number_endpoints_witness:
  "get_pipe_by_windex (ucast (0x83 :: u8)) \<noteq> get_pipe_by_windex (ucast (0x03 :: u8)) \<and> \<not> get_pipe_by_windex (ucast (0x88 :: u8)) < 2 * 8"
  using fsl_pipes_number_endpoints [of "0x83" "0x03" 0 8 "[()]"] fsl_pipes_number_endpoints [of "0x88" "0x03" 0 8 "[()]"]
  by (simp add: fsl_ep_index_def)

section \<open>Frames of the QUICC engine's controller\<close>

text \<open>A frame's data and private data are pointers; \<open>linked\<close> says where its list node is: outside of any list, it points to
  itself.\<close>

datatype list_node = Unset | Self | Linked

record 'p qe_frame =
  f_data :: "'p option"
  f_len :: u32
  f_status :: u32
  f_info :: u32
  f_privdata :: "'p option"
  f_node :: list_node

definition FRAME_OK :: u32 where "FRAME_OK = 0"

definition qe_frame_clean :: "'p qe_frame \<Rightarrow> 'p qe_frame" where
  "qe_frame_clean frm = frm\<lparr>f_data := None, f_len := 0, f_status := FRAME_OK, f_info := 0, f_privdata := None\<rparr>"

definition qe_frame_init :: "'p qe_frame \<Rightarrow> 'p qe_frame" where
  "qe_frame_init frm = (qe_frame_clean frm)\<lparr>f_node := Self\<rparr>"

text \<open>Whatever a frame held, initialising it gives the same frame; cleaning it again keeps it, and cleaning alone leaves a frame
  in its list.\<close>

lemma qe_frame_init_unique: "qe_frame_init f = qe_frame_init (g :: 'p qe_frame)"
  by (cases f; cases g) (simp add: qe_frame_init_def qe_frame_clean_def)

lemma qe_frame_clean_init: "qe_frame_clean (qe_frame_init f) = qe_frame_init f" "f_node (qe_frame_clean f) = f_node f"
  by (simp_all add: qe_frame_init_def qe_frame_clean_def)

definition qe_mode :: "(string \<times> u32) list" where
  "qe_mode =
    [(''USB_MODE_EN'', 0x1),
     (''USB_MODE_HOST'', 0x2),
     (''USB_MODE_TEST'', 0x4),
     (''USB_MODE_SFTE'', 0x8),
     (''USB_MODE_RESUME'', 0x40),
     (''USB_MODE_LSS'', 0x80)]"

definition qe_events :: "(string \<times> u32) list" where
  "qe_events =
    [(''USB_E_MSF_MASK'', 0x800),
     (''USB_E_SFT_MASK'', 0x400),
     (''USB_E_RESET_MASK'', 0x200),
     (''USB_E_IDLE_MASK'', 0x100),
     (''USB_E_TXE4_MASK'', 0x80),
     (''USB_E_TXE3_MASK'', 0x40),
     (''USB_E_TXE2_MASK'', 0x20),
     (''USB_E_TXE1_MASK'', 0x10),
     (''USB_E_SOF_MASK'', 0x8),
     (''USB_E_BSY_MASK'', 0x4),
     (''USB_E_TXB_MASK'', 0x2),
     (''USB_E_RXB_MASK'', 0x1)]"

definition qe_info :: "(string \<times> u32) list" where
  "qe_info =
    [(''PID_DATA0'', 0x80000000),
     (''PID_DATA1'', 0x40000000),
     (''PID_SETUP'', 0x20000000),
     (''SETUP_STATUS'', 0x10000000),
     (''SETADDR_STATUS'', 0x8000000),
     (''NO_REQ'', 0x4000000),
     (''HOST_DATA'', 0x2000000),
     (''FIRST_PACKET_IN_FRAME'', 0x1000000),
     (''TOKEN_FRAME'', 0x800000),
     (''ZLP'', 0x400000),
     (''IN_TOKEN_FRAME'', 0x200000),
     (''OUT_TOKEN_FRAME'', 0x100000),
     (''SETUP_TOKEN_FRAME'', 0x80000),
     (''STALL_FRAME'', 0x40000),
     (''NACK_FRAME'', 0x20000),
     (''NO_PID'', 0x10000),
     (''NO_CRC'', 0x8000),
     (''HOST_COMMAND'', 0x4000)]"

definition qe_frame_status :: "(string \<times> u32) list" where
  "qe_frame_status =
    [(''FRAME_ERROR'', 0x80000000),
     (''START_FRAME_LOST'', 0x40000000),
     (''END_FRAME_LOST'', 0x20000000),
     (''RX_ER_NONOCT'', 0x10000000),
     (''RX_ER_BITSTUFF'', 0x8000000),
     (''RX_ER_CRC'', 0x4000000),
     (''RX_ER_OVERUN'', 0x2000000),
     (''RX_ER_PID'', 0x1000000),
     (''TX_ER_NAK'', 0x800000),
     (''TX_ER_STALL'', 0x400000),
     (''TX_ER_TIMEOUT'', 0x200000),
     (''TX_ER_UNDERUN'', 0x100000),
     (''FRAME_INPROGRESS'', 0x80000),
     (''ER_DATA_UNDERUN'', 0x40000),
     (''ER_DATA_OVERUN'', 0x20000)]"

definition qe_tx_status :: "(string \<times> u32) list" where
  "qe_tx_status =
    [(''T_R'', 0x80000000),
     (''T_W'', 0x20000000),
     (''T_I'', 0x10000000),
     (''T_L'', 0x8000000),
     (''T_TC'', 0x4000000),
     (''T_CNF'', 0x2000000),
     (''T_LSP'', 0x1000000),
     (''T_PID'', 0xc00000),
     (''T_NAK'', 0x100000),
     (''T_STAL'', 0x80000),
     (''T_TO'', 0x40000),
     (''T_UN'', 0x20000)]"

definition qe_rx_status :: "(string \<times> u32) list" where
  "qe_rx_status =
    [(''R_E'', 0x80000000),
     (''R_W'', 0x20000000),
     (''R_I'', 0x10000000),
     (''R_L'', 0x8000000),
     (''R_F'', 0x4000000),
     (''R_PID'', 0xc00000),
     (''R_NO'', 0x100000),
     (''R_AB'', 0x80000),
     (''R_CR'', 0x40000),
     (''R_OV'', 0x20000)]"

definition qe_masks :: "(string \<times> u32) list list" where
  "qe_masks = [qe_mode, qe_events, qe_info, qe_frame_status, qe_tx_status, qe_rx_status]"

lemma qe_tables_ok: "list_all table_apart qe_masks"
  by (simp add: qe_masks_def qe_mode_def qe_events_def qe_info_def qe_frame_status_def qe_tx_status_def qe_rx_status_def table_apart_def)

text \<open>The default events of a device are all the events but those of the frame timer, the frame and the idle state; every bit
  is one of the events that are cleared together.\<close>

definition USB_E_DEFAULT_DEVICE :: u32 where
  "USB_E_DEFAULT_DEVICE = 0x200 OR 0x80 OR 0x40 OR 0x20 OR 0x10 OR 0x4 OR 0x2 OR 0x1"

lemma qe_default_events: "USB_E_DEFAULT_DEVICE = 0xfff AND NOT (0x800 OR 0x400 OR 0x100 OR 0x8)"
  by (simp add: USB_E_DEFAULT_DEVICE_def)

end
