(* ===== verification/Renesas.thy ===== *)
theory Renesas
  imports RegField
begin

text \<open>
  \<^verbatim>\<open>src/test_gadget/m66592-udc.h\<close> and \<^verbatim>\<open>src/test_gadget/r8a66597-udc.h\<close>: the accessors of two related controllers. They have
  registers of 16 bits, which are read, modified and written back, and fifos that are read and written with accesses of 32 or 16
  bits and, at the end of a buffer, byte by byte. A fifo that is read is the list of the words it will return; what is written
  to one is the list of the accesses. \<open>None\<close> is an access outside of a buffer, or a read from a fifo that is empty.
\<close>

section \<open>Registers\<close>

type_synonym regfile = "nat \<Rightarrow> u16"

definition m66592_read :: "regfile \<Rightarrow> nat \<Rightarrow> u16" where
  "m66592_read reg ofs = reg ofs"

definition m66592_write :: "u16 \<Rightarrow> nat \<Rightarrow> regfile \<Rightarrow> regfile" where
  "m66592_write val ofs reg = reg(ofs := val)"

definition m66592_mdfy :: "u16 \<Rightarrow> u16 \<Rightarrow> nat \<Rightarrow> regfile \<Rightarrow> regfile" where
  "m66592_mdfy val pat ofs reg =
     (let tmp = m66592_read reg ofs;
          tmp = tmp AND NOT pat;
          tmp = tmp OR val
      in m66592_write tmp ofs reg)"

definition m66592_bclr :: "u16 \<Rightarrow> nat \<Rightarrow> regfile \<Rightarrow> regfile" where
  "m66592_bclr val ofs reg = m66592_mdfy 0 val ofs reg"

definition m66592_bset :: "u16 \<Rightarrow> nat \<Rightarrow> regfile \<Rightarrow> regfile" where
  "m66592_bset val ofs reg = m66592_mdfy val 0 ofs reg"

definition r8a66597_read :: "regfile \<Rightarrow> nat \<Rightarrow> u16" where
  "r8a66597_read reg ofs = reg ofs"

definition r8a66597_write :: "u16 \<Rightarrow> nat \<Rightarrow> regfile \<Rightarrow> regfile" where
  "r8a66597_write val ofs reg = reg(ofs := val)"

definition r8a66597_mdfy :: "u16 \<Rightarrow> u16 \<Rightarrow> nat \<Rightarrow> regfile \<Rightarrow> regfile" where
  "r8a66597_mdfy val pat ofs reg =
     (let tmp = r8a66597_read reg ofs;
          tmp = tmp AND NOT pat;
          tmp = tmp OR val
      in r8a66597_write tmp ofs reg)"

definition r8a66597_bclr :: "u16 \<Rightarrow> nat \<Rightarrow> regfile \<Rightarrow> regfile" where
  "r8a66597_bclr val ofs reg = r8a66597_mdfy 0 val ofs reg"

definition r8a66597_bset :: "u16 \<Rightarrow> nat \<Rightarrow> regfile \<Rightarrow> regfile" where
  "r8a66597_bset val ofs reg = r8a66597_mdfy val 0 ofs reg"

text \<open>What a modification does to a register, and that it leaves the other registers alone; the two headers do the same.\<close>

lemma mdfy_bit:
  "bit (m66592_mdfy val pat ofs reg i) n \<longleftrightarrow> (if i = ofs then bit val n \<or> (bit (reg i) n \<and> \<not> bit pat n) else bit (reg i) n)"
  by (auto simp: m66592_mdfy_def m66592_read_def m66592_write_def Let_def bit_simps dest: bit_imp_le_length)

lemma mdfy_same: "m66592_mdfy = r8a66597_mdfy" "m66592_bclr = r8a66597_bclr" "m66592_bset = r8a66597_bset"
  by (simp_all add: fun_eq_iff m66592_mdfy_def r8a66597_mdfy_def m66592_read_def r8a66597_read_def m66592_write_def r8a66597_write_def
      m66592_bclr_def r8a66597_bclr_def m66592_bset_def r8a66597_bset_def)

section \<open>Pipes\<close>

definition get_pipectr_addr :: "nat \<Rightarrow> nat" where
  "get_pipectr_addr pipenum = 0x70 + (pipenum - 1) * 2"

definition is_bulk_pipe :: "nat \<Rightarrow> bool" where "is_bulk_pipe pipenum \<longleftrightarrow> pipenum \<ge> 3 \<and> pipenum < 3 + 3"
definition is_interrupt_pipe :: "nat \<Rightarrow> bool" where "is_interrupt_pipe pipenum \<longleftrightarrow> pipenum \<ge> 6 \<and> pipenum < 6 + 2"
definition is_isoc_pipe :: "nat \<Rightarrow> bool" where "is_isoc_pipe pipenum \<longleftrightarrow> pipenum \<ge> 1 \<and> pipenum < 1 + 2"

text \<open>Each of the pipes 1 to 7 is of exactly one kind, pipe 0 and those from 8 on are of none, and the control registers of the
  seven pipes are those the header names.\<close>

lemma pipe_kinds:
  "(is_bulk_pipe p \<or> is_interrupt_pipe p \<or> is_isoc_pipe p) \<longleftrightarrow> p \<in> {1..7}"
  "\<not> (is_bulk_pipe p \<and> is_interrupt_pipe p)" "\<not> (is_bulk_pipe p \<and> is_isoc_pipe p)" "\<not> (is_interrupt_pipe p \<and> is_isoc_pipe p)"
  by (auto simp: is_bulk_pipe_def is_interrupt_pipe_def is_isoc_pipe_def)

lemma pipectr_addrs: "map get_pipectr_addr [1..<8] = [0x70, 0x72, 0x74, 0x76, 0x78, 0x7A, 0x7C]"
  by (simp add: get_pipectr_addr_def upt_conv_Cons)

text \<open>The code of a buffer size, in blocks of 64 bytes.\<close>

definition M66592_BUF_SIZE :: "int \<Rightarrow> int" where
  "M66592_BUF_SIZE x = (x div 64 - 1) * 2 ^ 10"

lemma buf_size_fits:
  assumes "64 \<le> x" and "x < 64 * 33"
  shows "0 \<le> M66592_BUF_SIZE x \<and> M66592_BUF_SIZE x \<le> 0x7C00 \<and> (M66592_BUF_SIZE x div 2 ^ 10 + 1) * 64 = x - x mod 64"
proof -
  have "x div 64 \<ge> 1" "x div 64 \<le> 32" using assms by auto
  moreover have "x - x mod 64 = x div 64 * 64" by (simp add: minus_mod_eq_div_mult)
  ultimately show ?thesis by (simp add: M66592_BUF_SIZE_def)
qed

section \<open>Reading a fifo\<close>

text \<open>The bytes of a word as memory holds them, the lowest first; \<open>n\<close> is 4 or 2.\<close>

definition word_bytes :: "nat \<Rightarrow> u32 \<Rightarrow> bytes" where
  "word_bytes n w = map (\<lambda>k. ucast (drop_bit (8 * k) w)) [0..<n]"

definition fifo_bytes :: "nat \<Rightarrow> u32 list \<Rightarrow> bytes" where
  "fifo_bytes n ws = concat (map (word_bytes n) ws)"

text \<open>\<^verbatim>\<open>ioread32_rep\<close> and \<^verbatim>\<open>ioread16_rep\<close>: \<open>count\<close> words are stored from \<open>buf\<close> on. The state is the memory and the fifo.\<close>

definition ioread_rep :: "nat \<Rightarrow> nat \<Rightarrow> nat \<Rightarrow> bytes \<times> u32 list \<Rightarrow> (bytes \<times> u32 list) option" where
  "ioread_rep n buf count st =
     (if length (snd st) < count then None
      else Option.bind (mem_write (fst st) buf (fifo_bytes n (take count (snd st)))) (\<lambda>m. Some (m, drop count (snd st))))"

definition m66592_read_fifo :: "bool \<Rightarrow> nat \<Rightarrow> nat \<Rightarrow> bytes \<times> u32 list \<Rightarrow> (bytes \<times> u32 list) option" where
  "m66592_read_fifo on_chip buf len st =
     (if on_chip then ioread_rep 4 buf ((len + 3) div 4) st else ioread_rep 2 buf ((len + 1) div 2) st)"

text \<open>The loop over single bytes: every \<open>n\<close>-th turn reads a word.\<close>

definition fifo_byte :: "nat \<Rightarrow> nat \<Rightarrow> nat \<Rightarrow> u32 \<times> bytes \<times> u32 list \<Rightarrow> (u32 \<times> bytes \<times> u32 list) option" where
  "fifo_byte n buf i s =
     (case s of (data, m, ws) \<Rightarrow>
        Option.bind (if i mod n = 0 then (case ws of [] \<Rightarrow> None | w # ws' \<Rightarrow> Some (w, ws')) else Some (data, ws)) (\<lambda>(data, ws).
          Option.bind (store (buf + i) (ucast (drop_bit ((i mod n) * 8) data AND 0xff)) m) (\<lambda>m. Some (data, m, ws))))"

definition r8a_read_loop :: "nat \<Rightarrow> nat \<Rightarrow> nat \<Rightarrow> bytes \<times> u32 list \<Rightarrow> (bytes \<times> u32 list) option" where
  "r8a_read_loop n buf len st = map_option snd (c_for len 1 (fifo_byte n buf) (0, st))"

text \<open>\<open>base\<close> is the address of the memory, so that the alignment of \<open>buf\<close> is that of \<open>base + buf\<close>.\<close>

definition r8a66597_read_fifo :: "nat \<Rightarrow> bool \<Rightarrow> nat \<Rightarrow> nat \<Rightarrow> bytes \<times> u32 list \<Rightarrow> (bytes \<times> u32 list) option" where
  "r8a66597_read_fifo base on_chip buf len st =
     (let n = (if on_chip then 4 else 2)
      in if len \<ge> n \<and> (base + buf) mod n = 0
         then Option.bind (ioread_rep n buf (len div n) st) (r8a_read_loop n (buf + (len - len mod n)) (len mod n))
         else r8a_read_loop n buf len st)"

lemma length_word_bytes [simp]: "length (word_bytes n w) = n"
  by (simp add: word_bytes_def)

lemma length_fifo_bytes [simp]: "length (fifo_bytes n ws) = n * length ws"
  by (induction ws) (simp_all add: fifo_bytes_def)

lemma fifo_bytes_append: "fifo_bytes n (us @ ws) = fifo_bytes n us @ fifo_bytes n ws"
  by (simp add: fifo_bytes_def)

lemma fifo_bytes_nth:
  "k < length ws \<Longrightarrow> j < n \<Longrightarrow> fifo_bytes n ws ! (n * k + j) = word_bytes n (ws ! k) ! j"
proof (induction ws arbitrary: k)
  case (Cons w ws)
  then show ?case by (cases k) (auto simp: fifo_bytes_def nth_append algebra_simps)
qed simp

lemma ucast_low_byte: "ucast (x AND 0xff :: u32) = (ucast x :: u8)"
  by (rule u8_eqI) (simp add: bitwise)

lemma fifo_byte_value:
  assumes "0 < n" and "i div n < length ws"
  shows "ucast (drop_bit (i mod n * 8) (ws ! (i div n)) AND 0xff) = fifo_bytes n ws ! i"
proof -
  have "fifo_bytes n ws ! (n * (i div n) + i mod n) = word_bytes n (ws ! (i div n)) ! (i mod n)"
    using assms by (intro fifo_bytes_nth) simp_all
  then show ?thesis using assms(1) by (simp add: ucast_low_byte word_bytes_def mult.commute)
qed

text \<open>The memory with the first \<open>i\<close> of the bytes \<open>bs\<close> in place.\<close>

lemma store_next:
  assumes "buf + length bs \<le> length m" and "i < length bs"
  shows "store (buf + i) (bs ! i) (take buf m @ take i bs @ drop (buf + i) m) = Some (take buf m @ take (Suc i) bs @ drop (buf + Suc i) m)"
proof -
  have "drop (buf + i) m = m ! (buf + i) # drop (buf + Suc i) m"
    using assms by (simp add: Cons_nth_drop_Suc)
  then show ?thesis using assms by (simp add: store_def list_update_append take_Suc_conv_app_nth)
qed

definition ceil_div :: "nat \<Rightarrow> nat \<Rightarrow> nat" where
  "ceil_div i n = (i + n - 1) div n"

lemma ceil_div_0: "0 < n \<Longrightarrow> i mod n = 0 \<Longrightarrow> ceil_div i n = i div n"
proof -
  assume n: "0 < n" "i mod n = 0"
  then obtain k where k: "i = n * k" by auto
  have "(n * k + (n - 1)) div n = k" using n by (subst div_mult_self4) simp_all
  then show ?thesis using n k by (simp add: ceil_div_def)
qed

lemma ceil_div_Suc: "0 < n \<Longrightarrow> ceil_div (Suc i) n = Suc (i div n)"
  by (simp add: ceil_div_def div_add_self2)

lemma ceil_div_less: "0 < n \<Longrightarrow> i < len \<Longrightarrow> i div n < ceil_div len n"
proof -
  assume "0 < n" "i < len"
  then have "Suc (i div n) = (i + n) div n" by (simp add: div_add_self2)
  also have "\<dots> \<le> (len + n - 1) div n" using \<open>i < len\<close> by (intro div_le_mono) simp
  finally show ?thesis by (simp add: ceil_div_def)
qed

lemma ceil_div_rest: "0 < n \<Longrightarrow> i mod n \<noteq> 0 \<Longrightarrow> ceil_div i n = Suc (i div n)"
proof -
  assume n: "0 < n" "i mod n \<noteq> 0"
  then obtain j where j: "i = Suc j" by (cases i) auto
  then have "j div n = i div n" using n by (metis div_Suc)
  then show ?thesis using ceil_div_Suc [OF n(1), of j] j by simp
qed

lemma ceil_div_ge: "0 < n \<Longrightarrow> len \<le> n * ceil_div len n"
  by (cases "len mod n = 0") (auto simp: ceil_div_0 ceil_div_rest dest: less_imp_le [OF dividend_less_times_div])

lemma ceil_div_exact: "0 < n \<Longrightarrow> n * ceil_div len n \<le> len \<longleftrightarrow> len mod n = 0"
  by (cases "len mod n = 0") (auto simp: ceil_div_0 ceil_div_rest not_le dividend_less_times_div)

definition read_inv :: "nat \<Rightarrow> nat \<Rightarrow> bytes \<Rightarrow> u32 list \<Rightarrow> bytes \<Rightarrow> nat \<Rightarrow> u32 \<times> bytes \<times> u32 list \<Rightarrow> bool" where
  "read_inv n buf m ws bs i s \<longleftrightarrow>
     fst (snd s) = take buf m @ take i bs @ drop (buf + i) m \<and> snd (snd s) = drop (ceil_div i n) ws \<and>
     (i mod n \<noteq> 0 \<longrightarrow> fst s = ws ! (i div n))"

lemma fifo_byte_step:
  assumes n: "0 < n" and bs: "bs = take len (fifo_bytes n ws)" and fit: "buf + len \<le> length m" and words: "ceil_div len n \<le> length ws"
    and i: "i < len" and inv: "read_inv n buf m ws bs i s"
  shows "\<exists>s'. fifo_byte n buf i s = Some s' \<and> read_inv n buf m ws bs (Suc i) s'"
proof -
  obtain data m' ws' where s: "s = (data, m', ws')" by (cases s) auto
  have k: "i div n < length ws" using ceil_div_less [OF n i] words by simp
  have len: "len \<le> n * length ws"
  proof -
    have "len \<le> n * ceil_div len n" by (rule ceil_div_ge [OF n])
    then show ?thesis using words mult_le_mono2 [OF words, of n] by linarith
  qed
  have byte: "ucast (drop_bit (i mod n * 8) (ws ! (i div n)) AND 0xff) = bs ! i"
    using fifo_byte_value [OF n k] bs i by simp
  have bl: "length bs = len" using bs len by simp
  have fetch: "(if i mod n = 0 then (case ws' of [] \<Rightarrow> None | w # ws' \<Rightarrow> Some (w, ws')) else Some (data, ws')) =
      Some (ws ! (i div n), drop (ceil_div (Suc i) n) ws)"
  proof (cases "i mod n = 0")
    case True
    then have "ws' = ws ! (i div n) # drop (Suc (i div n)) ws"
      using inv k n by (simp add: read_inv_def s ceil_div_0 Cons_nth_drop_Suc)
    then show ?thesis using True n by (simp add: ceil_div_Suc)
  next
    case False
    then show ?thesis using inv n by (simp add: read_inv_def s ceil_div_Suc ceil_div_rest)
  qed
  have st: "store (buf + i) (bs ! i) m' = Some (take buf m @ take (Suc i) bs @ drop (buf + Suc i) m)"
    using store_next [of buf bs m i] inv fit i bl by (simp add: read_inv_def s)
  have "Suc i mod n \<noteq> 0 \<longrightarrow> Suc i div n = i div n" by (simp add: div_Suc mod_Suc)
  then show ?thesis using fetch st byte by (simp add: fifo_byte_def s read_inv_def)
qed

lemma read_loop_reads:
  assumes "0 < n" and "buf + len \<le> length m" and "ceil_div len n \<le> length ws"
  shows "r8a_read_loop n buf len (m, ws) = Some (take buf m @ take len (fifo_bytes n ws) @ drop (buf + len) m, drop (ceil_div len n) ws)"
proof -
  let ?bs = "take len (fifo_bytes n ws)"
  have "\<exists>s'. c_for len 1 (fifo_byte n buf) (0, m, ws) = Some s' \<and> read_inv n buf m ws ?bs ((len + 1 - 1) div 1) s'"
  proof (rule c_for_inv)
    show "read_inv n buf m ws ?bs 0 (0, m, ws)" using assms(1) by (simp add: read_inv_def ceil_div_def)
    show "\<exists>s'. fifo_byte n buf (1 * k) s = Some s' \<and> read_inv n buf m ws ?bs (Suc k) s'"
      if "k < (len + 1 - 1) div 1" "read_inv n buf m ws ?bs k s" for k s
      using that fifo_byte_step [OF assms(1) refl assms(2,3)] by simp
  qed
  then obtain s' where s': "c_for len 1 (fifo_byte n buf) (0, m, ws) = Some s'" "read_inv n buf m ws ?bs len s'" by auto
  then show ?thesis by (cases s') (auto simp: r8a_read_loop_def read_inv_def)
qed

lemma ioread_rep_reads:
  assumes "buf + n * count \<le> length m" and "count \<le> length ws"
  shows "ioread_rep n buf count (m, ws) =
     Some (take buf m @ fifo_bytes n (take count ws) @ drop (buf + n * count) m, drop count ws)"
  using assms by (simp add: ioread_rep_def mem_write_def)

lemma ceil_div_split: "0 < n \<Longrightarrow> ceil_div len n = len div n + ceil_div (len mod n) n"
  by (cases "len mod n = 0") (simp_all add: ceil_div_0 ceil_div_rest)

lemma aligned_read:
  assumes n: "0 < n" and fit: "buf + len \<le> length m" and words: "ceil_div len n \<le> length ws"
  shows "Option.bind (ioread_rep n buf (len div n) (m, ws)) (r8a_read_loop n (buf + (len - len mod n)) (len mod n)) = r8a_read_loop n buf len (m, ws)"
proof -
  define q r where "q = len div n" and "r = len mod n"
  have len: "len = n * q + r" "len - len mod n = n * q" by (simp_all add: q_def r_def minus_mod_eq_mult_div)
  have w: "q + ceil_div r n \<le> length ws" "ceil_div len n = q + ceil_div r n"
    using ceil_div_split [OF n, of len] words by (simp_all add: q_def r_def)
  let ?m = "take buf m @ fifo_bytes n (take q ws) @ drop (buf + n * q) m"
  have rep: "ioread_rep n buf q (m, ws) = Some (?m, drop q ws)"
    using fit len w by (intro ioread_rep_reads) simp_all
  have ml: "length (take buf m) = buf" "length (fifo_bytes n (take q ws)) = n * q" "length ?m = length m"
    using fit len w by simp_all
  have "r8a_read_loop n (buf + n * q) r (?m, drop q ws) =
      Some (take (buf + n * q) ?m @ take r (fifo_bytes n (drop q ws)) @ drop (buf + n * q + r) ?m, drop (ceil_div r n) (drop q ws))"
    using fit len w ml(3) by (intro read_loop_reads [OF n]) simp_all
  moreover have "take (buf + n * q) ?m = take buf m @ fifo_bytes n (take q ws)" "drop (buf + n * q + r) ?m = drop (buf + len) m"
    using ml fit len w by (simp_all add: ac_simps)
  moreover have "take len (fifo_bytes n ws) = fifo_bytes n (take q ws) @ take r (fifo_bytes n (drop q ws))"
    using arg_cong [OF fifo_bytes_append [of n "take q ws" "drop q ws"], of "take len"] ml(2) len w by simp
  moreover have "len - r = n * q" using len(1) by simp
  ultimately show ?thesis
    using rep read_loop_reads [OF n fit words] w by (simp add: q_def [symmetric] r_def [symmetric] add.commute)
qed

lemma r8a66597_read_fifo_safe:
  assumes "buf + len \<le> length m" and "ceil_div len (if on_chip then 4 else 2) \<le> length ws"
  shows "r8a66597_read_fifo base on_chip buf len (m, ws) =
     Some (take buf m @ take len (fifo_bytes (if on_chip then 4 else 2) ws) @ drop (buf + len) m, drop (ceil_div len (if on_chip then 4 else 2)) ws)"
proof -
  define n :: nat where "n = (if on_chip then 4 else 2)"
  have n: "0 < n" by (simp add: n_def)
  have words: "ceil_div len n \<le> length ws" using assms(2) by (simp add: n_def)
  have "r8a66597_read_fifo base on_chip buf len (m, ws) = r8a_read_loop n buf len (m, ws)"
    using aligned_read [OF n assms(1) words] unfolding r8a66597_read_fifo_def Let_def n_def [symmetric] by simp
  then show ?thesis using read_loop_reads [OF n assms(1) words] by (simp add: n_def)
qed

text \<open>C16: The second controller's read fills exactly the requested bytes of the buffer with the next bytes of the fifo, in order,
  whatever the alignment of the buffer, the width of the fifo and the length, and it takes exactly the words that hold them;
  nothing else in memory changes.\<close>

theorem r8a66597_read_fifo_exact:
  assumes "buf + len \<le> length m" and "ceil_div len (if on_chip then 4 else 2) \<le> length ws"
  shows "r8a66597_read_fifo base on_chip buf len (m, ws) =
     Some (take buf m @ take len (fifo_bytes (if on_chip then 4 else 2) ws) @ drop (buf + len) m, drop (ceil_div len (if on_chip then 4 else 2)) ws)"
  using assms by (rule r8a66597_read_fifo_safe)

theorem r8a66597_read_fifo_exact_witness:
  "r8a66597_read_fifo 1 True 0 5 ([1, 2, 3, 4, 5, 6], [0x44332211, 0x55, 0x66]) = Some ([0x11, 0x22, 0x33, 0x44, 0x55, 6], [0x66])"
proof -
  have "take 5 (fifo_bytes 4 [0x44332211, 0x55, 0x66]) = [0x11, 0x22, 0x33, 0x44, 0x55]" "ceil_div 5 4 = 2" by code_simp+
  then show ?thesis
    using r8a66597_read_fifo_exact [of 0 5 "[1, 2, 3, 4, 5, 6]" True "[0x44332211, 0x55, 0x66]" 1] by simp
qed

text \<open>C39: The first controller's read stores whole words: with enough words in the fifo it succeeds exactly if the buffer has room
  for the length rounded up to a multiple of the word, so that a buffer of just the requested length is overrun unless the
  length is such a multiple; where both succeed, the requested bytes are those of the second controller's read.\<close>

theorem m66592_read_fifo_rounds_up:
  assumes "ceil_div len (if on_chip then 4 else 2) \<le> length ws"
  defines "n \<equiv> (if on_chip then 4 else 2 :: nat)"
  shows "(m66592_read_fifo on_chip buf len (m, ws) \<noteq> None \<longleftrightarrow> buf + n * ceil_div len n \<le> length m) \<and>
     (length m = buf + len \<longrightarrow> (m66592_read_fifo on_chip buf len (m, ws) = None \<longleftrightarrow> len mod n \<noteq> 0)) \<and>
     (buf + n * ceil_div len n \<le> length m \<longrightarrow>
        (\<exists>m1 m2 ws'. m66592_read_fifo on_chip buf len (m, ws) = Some (m1, ws') \<and> r8a66597_read_fifo base on_chip buf len (m, ws) = Some (m2, ws') \<and>
           take (buf + len) m1 = take (buf + len) m2))"
proof (intro conjI impI)
  have n: "0 < n" and words: "ceil_div len n \<le> length ws" using assms by (simp_all add: n_def)
  have read: "m66592_read_fifo on_chip buf len (m, ws) = ioread_rep n buf (ceil_div len n) (m, ws)"
    by (simp add: m66592_read_fifo_def n_def ceil_div_def add.commute)
  have up: "len \<le> n * ceil_div len n" by (rule ceil_div_ge [OF n])
  show iff: "m66592_read_fifo on_chip buf len (m, ws) \<noteq> None \<longleftrightarrow> buf + n * ceil_div len n \<le> length m"
    using words unfolding read by (auto simp: ioread_rep_def mem_write_def min_def)
  show "m66592_read_fifo on_chip buf len (m, ws) = None \<longleftrightarrow> len mod n \<noteq> 0" if "length m = buf + len"
  proof -
    have "m66592_read_fifo on_chip buf len (m, ws) = None \<longleftrightarrow> \<not> buf + n * ceil_div len n \<le> length m" using iff by blast
    then show ?thesis using that up ceil_div_exact [OF n, of len] by simp
  qed
  show "\<exists>m1 m2 ws'. m66592_read_fifo on_chip buf len (m, ws) = Some (m1, ws') \<and> r8a66597_read_fifo base on_chip buf len (m, ws) = Some (m2, ws') \<and>
     take (buf + len) m1 = take (buf + len) m2" if fit: "buf + n * ceil_div len n \<le> length m"
  proof -
    have "take len (fifo_bytes n (take (ceil_div len n) ws)) = take len (fifo_bytes n ws)"
      using fifo_bytes_append [of n "take (ceil_div len n) ws" "drop (ceil_div len n) ws"] up words by (simp add: min_def)
    moreover have "buf + len \<le> length m" using fit up by linarith
    moreover have "len \<le> n * length ws" using up mult_le_mono2 [OF words, of n] by linarith
    ultimately show ?thesis
      using r8a66597_read_fifo_safe [of buf len m on_chip ws base] ioread_rep_reads [OF fit words] words up assms(1) unfolding read
      by (simp add: n_def [symmetric] min_def)
  qed
qed

theorem m66592_read_fifo_rounds_up_witness:
  "m66592_read_fifo True 0 5 (replicate 5 0, [1, 2]) = None"
  using m66592_read_fifo_rounds_up [of 5 True "[1, 2]" 0 "replicate 5 0" 0] by (simp add: ceil_div_def)

section \<open>Writing a fifo\<close>

text \<open>What reaches the fifo: words, or single bytes at an address inside its first word.\<close>

datatype fifo_access = is_Words: Words nat bytes | Byte nat u8

definition iowrite_rep :: "nat \<Rightarrow> bytes \<Rightarrow> nat \<Rightarrow> nat \<Rightarrow> fifo_access list option" where
  "iowrite_rep n m buf count = map_option (\<lambda>bs. [Words n bs]) (mem_read m buf (n * count))"

text \<open>The bytes at the end of the buffer, each at its address.\<close>

definition write_bytes :: "bytes \<Rightarrow> nat \<Rightarrow> nat \<Rightarrow> (nat \<Rightarrow> nat) \<Rightarrow> fifo_access list option" where
  "write_bytes m buf len lane = map_option (\<lambda>bs. map2 (\<lambda>i b. Byte (lane i) b) [0..<len] bs) (mem_read m buf len)"

definition both :: "fifo_access list option \<Rightarrow> fifo_access list option \<Rightarrow> fifo_access list option" where
  "both x y = Option.bind x (\<lambda>a. Option.bind y (\<lambda>b. Some (a @ b)))"

definition m66592_write_fifo :: "bool \<Rightarrow> u16 \<Rightarrow> bytes \<Rightarrow> nat \<Rightarrow> nat \<Rightarrow> fifo_access list option" where
  "m66592_write_fifo on_chip cfbcfg m buf len =
     (if on_chip then
        let count = len div 4
        in both (iowrite_rep 4 m buf count)
             (if len mod 4 \<noteq> 0 then write_bytes m (buf + count * 4) (len mod 4) (\<lambda>i. if cfbcfg \<noteq> 0 then 3 - i else i) else Some [])
      else
        let odd = len mod 2; len = len div 2
        in both (iowrite_rep 2 m buf len) (if odd \<noteq> 0 then write_bytes m (buf + len * 2) 1 (\<lambda>i. 0) else Some []))"

text \<open>\<open>bigend\<close> is the bit that the fifo's selection register shows.\<close>

definition r8a66597_write_fifo :: "nat \<Rightarrow> bool \<Rightarrow> bool \<Rightarrow> bytes \<Rightarrow> nat \<Rightarrow> nat \<Rightarrow> fifo_access list option" where
  "r8a66597_write_fifo base on_chip bigend m buf len =
     (let n = (if on_chip then 4 else 2);
          adj = (if bigend then 0 else if on_chip then 3 else 1);
          lane = (\<lambda>i. adj - (i AND adj))
      in if len \<ge> n \<and> (base + buf) mod n = 0
         then both (iowrite_rep n m buf (len div n)) (write_bytes m (buf + (len - len mod n)) (len mod n) lane)
         else write_bytes m buf len lane)"

fun access_bytes :: "fifo_access \<Rightarrow> bytes" where
  "access_bytes (Words n bs) = bs"
| "access_bytes (Byte a b) = [b]"

fun access_in :: "nat \<Rightarrow> fifo_access \<Rightarrow> bool" where
  "access_in w (Words n bs) = (n = w)"
| "access_in w (Byte a b) = (a < w)"

fun byte_lane :: "fifo_access \<Rightarrow> nat list" where
  "byte_lane (Words n bs) = []"
| "byte_lane (Byte a b) = [a]"

text \<open>
  What accesses carry to a fifo with words of \<open>w\<close> bytes, if they are made: the bytes \<open>bs\<close> in order, first in whole
  words of that width, then as single bytes, the addresses of which inside the word are \<open>lanes\<close>.
\<close>

definition sent_in :: "nat \<Rightarrow> nat list \<Rightarrow> bytes \<Rightarrow> fifo_access list option \<Rightarrow> bool" where
  "sent_in w lanes bs x \<longleftrightarrow>
     (\<exists>as. x = Some as \<and> concat (map access_bytes as) = bs \<and> concat (map byte_lane as) = lanes \<and>
           as = filter is_Words as @ filter (Not \<circ> is_Words) as \<and> list_all (access_in w) as)"

lemma sent_words: "buf + n * count \<le> length m \<Longrightarrow> sent_in n [] (take (n * count) (drop buf m)) (iowrite_rep n m buf count)"
  by (simp add: sent_in_def iowrite_rep_def mem_read_def)

lemma map2_bytes:
  assumes "length is = length bs"
  shows "concat (map access_bytes (map2 (\<lambda>i b. Byte (lane i) b) is bs)) = bs \<and>
     concat (map byte_lane (map2 (\<lambda>i b. Byte (lane i) b) is bs)) = map lane is \<and>
     filter is_Words (map2 (\<lambda>i b. Byte (lane i) b) is bs) = [] \<and>
     filter (Not \<circ> is_Words) (map2 (\<lambda>i b. Byte (lane i) b) is bs) = map2 (\<lambda>i b. Byte (lane i) b) is bs"
  using assms by (induction "is" bs rule: list_induct2) simp_all

lemma sent_bytes:
  assumes "buf + len \<le> length m" and "\<And>i. i < len \<Longrightarrow> lane i < w"
  shows "sent_in w (map lane [0..<len]) (take len (drop buf m)) (write_bytes m buf len lane)"
  using assms map2_bytes [of "[0..<len]" "take len (drop buf m)" lane]
  by (auto simp: sent_in_def write_bytes_def mem_read_def list_all_iff set_zip)

lemma sent_both:
  assumes "sent_in w [] bs (Some [Words w bs])" and "sent_in w ls cs y" and "y = write_bytes m' buf' len' lane"
  shows "sent_in w ls (bs @ cs) (both (Some [Words w bs]) y)"
proof -
  obtain as where as: "y = Some as" "concat (map access_bytes as) = cs" "concat (map byte_lane as) = ls" "list_all (access_in w) as"
    using assms(2) by (auto simp: sent_in_def)
  have "list_all (Not \<circ> is_Words) as" using as(1) assms(3) by (auto simp: write_bytes_def list_all_iff set_zip)
  then have "filter is_Words as = []" "filter (Not \<circ> is_Words) as = as" by (simp_all add: list_all_iff filter_empty_conv)
  with as show ?thesis by (simp add: sent_in_def both_def)
qed

lemma take_both: "take n (drop buf m) @ take k (drop (buf + n) m) = take (n + k) (drop buf (m :: bytes))"
  by (metis add.commute drop_drop take_add)

lemma write_no_bytes: "buf \<le> length m \<Longrightarrow> write_bytes m buf 0 lane = Some []"
  by (simp add: write_bytes_def mem_read_def)

lemma sent_split:
  assumes "buf + len \<le> length m" and "\<And>i. i < len mod w \<Longrightarrow> lane i < w"
  shows "sent_in w (map lane [0..<len mod w]) (take len (drop buf m))
     (both (iowrite_rep w m buf (len div w)) (write_bytes m (buf + w * (len div w)) (len mod w) lane))"
proof -
  let ?bs = "take (w * (len div w)) (drop buf m)"
  have len: "w * (len div w) + len mod w = len" by simp
  then have fit: "buf + w * (len div w) \<le> length m" using assms(1) by linarith
  then have it: "iowrite_rep w m buf (len div w) = Some [Words w ?bs]"
    by (simp add: iowrite_rep_def mem_read_def)
  have "sent_in w (map lane [0..<len mod w]) (take (len mod w) (drop (buf + w * (len div w)) m))
      (write_bytes m (buf + w * (len div w)) (len mod w) lane)"
    using assms len by (intro sent_bytes) linarith+
  from sent_both [OF _ this refl, of ?bs] it sent_words [of buf w "len div w" m] show ?thesis
    using fit len take_both [of "w * (len div w)" buf m "len mod w"] by simp
qed

text \<open>
  C18: Writing a buffer to a fifo sends exactly its bytes, in order, with accesses that stay inside the
  fifo's word and inside the buffer. Whole words of 4 bytes on chip or 2 otherwise come first; the
  first controller sends the remaining bytes one by one, the second too, or all of them when the
  buffer is short or not aligned to the word. The single bytes are written at the addresses of their
  byte lane: on chip the first controller puts byte \<open>i\<close> at \<open>3 - i\<close> when the register \<^verbatim>\<open>CFBCFG\<close> says little
  endian and at \<open>i\<close> otherwise, and off chip at 0; the second puts byte \<open>i\<close> at the mirrored place in its
  word when the fifo is little endian, and at 0 when it is big endian.
\<close>

theorem renesas_write_fifo_sends:
  assumes "buf + len \<le> length m" and "w = (if on_chip then 4 else 2)"
  shows "sent_in w (map (\<lambda>i. if \<not> on_chip then 0 else if cfbcfg \<noteq> 0 then 3 - i else i) [0..<len mod w])
       (take len (drop buf m)) (m66592_write_fifo on_chip cfbcfg m buf len) \<and>
     sent_in w (map (\<lambda>i. if bigend then 0 else w - 1 - i mod w) [0..<if w \<le> len \<and> (base + buf) mod w = 0 then len mod w else len])
       (take len (drop buf m)) (r8a66597_write_fifo base on_chip bigend m buf len)"
proof
  let ?lane1 = "\<lambda>i. if \<not> on_chip then 0 else if cfbcfg \<noteq> 0 then 3 - i else i"
  have "m66592_write_fifo on_chip cfbcfg m buf len =
      both (iowrite_rep w m buf (len div w)) (write_bytes m (buf + w * (len div w)) (len mod w) ?lane1)"
  proof (cases "len mod w = 0")
    case True
    then have "w * (len div w) = len" using mult_div_mod_eq [of w len] by simp
    with True assms show ?thesis by (auto simp: m66592_write_fifo_def Let_def write_no_bytes mult.commute split: if_splits)
  next
    case False
    then show ?thesis using assms(2) by (auto simp: m66592_write_fifo_def Let_def mult.commute not_mod_2_eq_0_eq_1)
  qed
  moreover have "?lane1 i < w" if "i < len mod w" for i
    using that mod_less_divisor [of w len] assms(2) by (auto split: if_splits)
  ultimately show "sent_in w (map ?lane1 [0..<len mod w]) (take len (drop buf m)) (m66592_write_fifo on_chip cfbcfg m buf len)"
    using sent_split [OF assms(1)] by presburger
next
  define adj where "adj = (if bigend then 0 else if on_chip then 3 else 1 :: nat)"
  let ?lane2 = "\<lambda>i. if bigend then 0 else w - 1 - i mod w"
  have "i AND 1 = i mod 2" "i AND 3 = i mod 4" for i :: nat
    using take_bit_eq_mask [of 1 i] take_bit_eq_mask [of 2 i] by (simp_all add: take_bit_eq_mod mask_eq_exp_minus_1)
  then have adj: "(\<lambda>i. adj - (i AND adj)) = ?lane2"
    using assms(2) by (auto simp: adj_def fun_eq_iff)
  have lane: "?lane2 i < w" for i using assms(2) by auto
  have "r8a66597_write_fifo base on_chip bigend m buf len =
      (if w \<le> len \<and> (base + buf) mod w = 0
       then both (iowrite_rep w m buf (len div w)) (write_bytes m (buf + w * (len div w)) (len mod w) ?lane2)
       else write_bytes m buf len ?lane2)"
    unfolding r8a66597_write_fifo_def Let_def adj_def [symmetric] adj assms(2) [symmetric] minus_mod_eq_mult_div by simp
  then show "sent_in w (map ?lane2 [0..<if w \<le> len \<and> (base + buf) mod w = 0 then len mod w else len])
      (take len (drop buf m)) (r8a66597_write_fifo base on_chip bigend m buf len)"
    using sent_bytes [OF assms(1) lane] sent_split [OF assms(1) lane] by simp
qed

theorem renesas_write_fifo_sends_witness:
  "sent_in 4 [3] [2, 3, 4, 5, 6] (r8a66597_write_fifo 3 True False [1, 2, 3, 4, 5, 6] 1 5) \<and>
   sent_in 4 [0] [2, 3, 4, 5, 6] (m66592_write_fifo True 0 [1, 2, 3, 4, 5, 6] 1 5)"
  using renesas_write_fifo_sends [of 1 5 "[1, 2, 3, 4, 5, 6]" 4 True 0 False 3] by simp

section \<open>The clock of the platform data\<close>

text \<open>The values of the platform data and of the clock register are another header's; each choice is a pair of them.\<close>

definition get_xtal_from_pdata :: "'x \<times> u16 \<Rightarrow> 'x \<times> u16 \<Rightarrow> 'x \<times> u16 \<Rightarrow> 'x \<Rightarrow> u16" where
  "get_xtal_from_pdata mhz12 mhz24 mhz48 xtal =
     (if xtal = fst mhz12 then snd mhz12 else if xtal = fst mhz24 then snd mhz24 else if xtal = fst mhz48 then snd mhz48 else 0)"

section \<open>The registers of the first controller\<close>

text \<open>
  The header's lines: a register with its address, a field of it with its mask and the bit numbers the comment gives, a mask without
  bit numbers, and a value of the field before it.
\<close>

datatype m66592_item = M_reg string nat | M_field string u32 nat nat | M_mask string u32 | M_value string u32

definition m66592_items_a :: "m66592_item list" where
  "m66592_items_a =
    [M_reg ''M66592_SYSCFG'' 0x0,
     M_field ''M66592_XTAL'' 0xc000 15 14,
     M_value ''M66592_XTAL48'' 0x8000,
     M_value ''M66592_XTAL24'' 0x4000,
     M_value ''M66592_XTAL12'' 0x0,
     M_field ''M66592_XCKE'' 0x2000 13 13,
     M_field ''M66592_RCKE'' 0x1000 12 12,
     M_field ''M66592_PLLC'' 0x800 11 11,
     M_field ''M66592_SCKE'' 0x400 10 10,
     M_field ''M66592_ATCKM'' 0x100 8 8,
     M_field ''M66592_HSE'' 0x80 7 7,
     M_field ''M66592_DCFM'' 0x40 6 6,
     M_field ''M66592_DMRPD'' 0x20 5 5,
     M_field ''M66592_DPRPU'' 0x10 4 4,
     M_field ''M66592_FSRPC'' 0x4 2 2,
     M_field ''M66592_PCUT'' 0x2 1 1,
     M_field ''M66592_USBE'' 0x1 0 0,
     M_reg ''M66592_SYSSTS'' 0x2,
     M_field ''M66592_LNST'' 0x3 1 0,
     M_value ''M66592_SE1'' 0x3,
     M_value ''M66592_KSTS'' 0x2,
     M_value ''M66592_JSTS'' 0x1,
     M_value ''M66592_SE0'' 0x0,
     M_reg ''M66592_DVSTCTR'' 0x4,
     M_field ''M66592_WKUP'' 0x100 8 8,
     M_field ''M66592_RWUPE'' 0x80 7 7,
     M_field ''M66592_USBRST'' 0x40 6 6,
     M_field ''M66592_RESUME'' 0x20 5 5,
     M_field ''M66592_UACT'' 0x10 4 4,
     M_field ''M66592_RHST'' 0x3 1 0,
     M_value ''M66592_HSMODE'' 0x3,
     M_value ''M66592_FSMODE'' 0x2,
     M_value ''M66592_HSPROC'' 0x1,
     M_reg ''M66592_TESTMODE'' 0x6,
     M_field ''M66592_UTST'' 0xf 4 0,
     M_value ''M66592_H_TST_PACKET'' 0xc,
     M_value ''M66592_H_TST_SE0_NAK'' 0xb,
     M_value ''M66592_H_TST_K'' 0xa,
     M_value ''M66592_H_TST_J'' 0x9,
     M_value ''M66592_H_TST_NORMAL'' 0x0,
     M_value ''M66592_P_TST_PACKET'' 0x4,
     M_value ''M66592_P_TST_SE0_NAK'' 0x3,
     M_value ''M66592_P_TST_K'' 0x2,
     M_value ''M66592_P_TST_J'' 0x1,
     M_value ''M66592_P_TST_NORMAL'' 0x0,
     M_reg ''M66592_CFBCFG'' 0xa,
     M_reg ''M66592_D0FBCFG'' 0xc,
     M_field ''M66592_LITTLE'' 0x100 8 8,
     M_reg ''M66592_PINCFG'' 0xa,
     M_field ''M66592_LDRV'' 0x8000 15 15,
     M_field ''M66592_BIGEND'' 0x100 8 8,
     M_reg ''M66592_DMA0CFG'' 0xc,
     M_reg ''M66592_DMA1CFG'' 0xe,
     M_field ''M66592_DREQA'' 0x4000 14 14,
     M_field ''M66592_BURST'' 0x2000 13 13,
     M_field ''M66592_DACKA'' 0x400 10 10,
     M_field ''M66592_DFORM'' 0x380 9 7,
     M_value ''M66592_CPU_ADR_RD_WR'' 0x0,
     M_value ''M66592_CPU_DACK_RD_WR'' 0x100,
     M_value ''M66592_CPU_DACK_ONLY'' 0x180,
     M_value ''M66592_SPLIT_DACK_ONLY'' 0x200,
     M_value ''M66592_SPLIT_DACK_DSTB'' 0x300,
     M_field ''M66592_DENDA'' 0x40 6 6,
     M_field ''M66592_PKTM'' 0x20 5 5,
     M_field ''M66592_DENDE'' 0x10 4 4,
     M_field ''M66592_OBUS'' 0x4 2 2,
     M_reg ''M66592_CFIFO'' 0x10,
     M_reg ''M66592_D0FIFO'' 0x14,
     M_reg ''M66592_D1FIFO'' 0x18,
     M_reg ''M66592_CFIFOSEL'' 0x1e,
     M_reg ''M66592_D0FIFOSEL'' 0x24,
     M_reg ''M66592_D1FIFOSEL'' 0x2a,
     M_field ''M66592_RCNT'' 0x8000 15 15,
     M_field ''M66592_REW'' 0x4000 14 14,
     M_field ''M66592_DCLRM'' 0x2000 13 13,
     M_field ''M66592_DREQE'' 0x1000 12 12,
     M_mask ''M66592_MBW_8'' 0x0,
     M_mask ''M66592_MBW_16'' 0x400,
     M_mask ''M66592_MBW_32'' 0x800,
     M_field ''M66592_TRENB'' 0x200 9 9,
     M_field ''M66592_TRCLR'' 0x100 8 8,
     M_field ''M66592_DEZPM'' 0x80 7 7,
     M_field ''M66592_ISEL'' 0x20 5 5,
     M_field ''M66592_CURPIPE'' 0x7 2 0,
     M_reg ''M66592_CFIFOCTR'' 0x20,
     M_reg ''M66592_D0FIFOCTR'' 0x26,
     M_reg ''M66592_D1FIFOCTR'' 0x2c,
     M_field ''M66592_BVAL'' 0x8000 15 15,
     M_field ''M66592_BCLR'' 0x4000 14 14,
     M_field ''M66592_FRDY'' 0x2000 13 13,
     M_field ''M66592_DTLN'' 0xfff 11 0,
     M_reg ''M66592_CFIFOSIE'' 0x22,
     M_field ''M66592_TGL'' 0x8000 15 15,
     M_field ''M66592_SCLR'' 0x4000 14 14,
     M_field ''M66592_SBUSY'' 0x2000 13 13,
     M_reg ''M66592_D0FIFOTRN'' 0x28,
     M_reg ''M66592_D1FIFOTRN'' 0x2e,
     M_field ''M66592_TRNCNT'' 0xffff 15 0]"

definition m66592_items_b :: "m66592_item list" where
  "m66592_items_b =
    [M_reg ''M66592_INTENB0'' 0x30,
     M_field ''M66592_VBSE'' 0x8000 15 15,
     M_field ''M66592_RSME'' 0x4000 14 14,
     M_field ''M66592_SOFE'' 0x2000 13 13,
     M_field ''M66592_DVSE'' 0x1000 12 12,
     M_field ''M66592_CTRE'' 0x800 11 11,
     M_field ''M66592_BEMPE'' 0x400 10 10,
     M_field ''M66592_NRDYE'' 0x200 9 9,
     M_field ''M66592_BRDYE'' 0x100 8 8,
     M_field ''M66592_URST'' 0x80 7 7,
     M_field ''M66592_SADR'' 0x40 6 6,
     M_field ''M66592_SCFG'' 0x20 5 5,
     M_field ''M66592_SUSP'' 0x10 4 4,
     M_field ''M66592_WDST'' 0x8 3 3,
     M_field ''M66592_RDST'' 0x4 2 2,
     M_field ''M66592_CMPL'' 0x2 1 1,
     M_field ''M66592_SERR'' 0x1 0 0,
     M_reg ''M66592_INTENB1'' 0x32,
     M_field ''M66592_BCHGE'' 0x4000 14 14,
     M_field ''M66592_DTCHE'' 0x1000 12 12,
     M_field ''M66592_SIGNE'' 0x20 5 5,
     M_field ''M66592_SACKE'' 0x10 4 4,
     M_field ''M66592_BRDYM'' 0x4 2 2,
     M_field ''M66592_INTL'' 0x2 1 1,
     M_field ''M66592_PCSE'' 0x1 0 0,
     M_reg ''M66592_BRDYENB'' 0x36,
     M_reg ''M66592_BRDYSTS'' 0x46,
     M_field ''M66592_BRDY7'' 0x80 7 7,
     M_field ''M66592_BRDY6'' 0x40 6 6,
     M_field ''M66592_BRDY5'' 0x20 5 5,
     M_field ''M66592_BRDY4'' 0x10 4 4,
     M_field ''M66592_BRDY3'' 0x8 3 3,
     M_field ''M66592_BRDY2'' 0x4 2 2,
     M_field ''M66592_BRDY1'' 0x2 1 1,
     M_field ''M66592_BRDY0'' 0x1 1 1,
     M_reg ''M66592_NRDYENB'' 0x38,
     M_reg ''M66592_NRDYSTS'' 0x48,
     M_field ''M66592_NRDY7'' 0x80 7 7,
     M_field ''M66592_NRDY6'' 0x40 6 6,
     M_field ''M66592_NRDY5'' 0x20 5 5,
     M_field ''M66592_NRDY4'' 0x10 4 4,
     M_field ''M66592_NRDY3'' 0x8 3 3,
     M_field ''M66592_NRDY2'' 0x4 2 2,
     M_field ''M66592_NRDY1'' 0x2 1 1,
     M_field ''M66592_NRDY0'' 0x1 1 1,
     M_reg ''M66592_BEMPENB'' 0x3a,
     M_reg ''M66592_BEMPSTS'' 0x4a,
     M_field ''M66592_BEMP7'' 0x80 7 7,
     M_field ''M66592_BEMP6'' 0x40 6 6,
     M_field ''M66592_BEMP5'' 0x20 5 5,
     M_field ''M66592_BEMP4'' 0x10 4 4,
     M_field ''M66592_BEMP3'' 0x8 3 3,
     M_field ''M66592_BEMP2'' 0x4 2 2,
     M_field ''M66592_BEMP1'' 0x2 1 1,
     M_field ''M66592_BEMP0'' 0x1 0 0,
     M_reg ''M66592_SOFCFG'' 0x3c,
     M_field ''M66592_SOFM'' 0xc 3 2,
     M_value ''M66592_SOF_125US'' 0x8,
     M_value ''M66592_SOF_1MS'' 0x4,
     M_value ''M66592_SOF_DISABLE'' 0x0]"

definition m66592_items_c :: "m66592_item list" where
  "m66592_items_c =
    [M_reg ''M66592_INTSTS0'' 0x40,
     M_field ''M66592_VBINT'' 0x8000 15 15,
     M_field ''M66592_RESM'' 0x4000 14 14,
     M_field ''M66592_SOFR'' 0x2000 13 13,
     M_field ''M66592_DVST'' 0x1000 12 12,
     M_field ''M66592_CTRT'' 0x800 11 11,
     M_field ''M66592_BEMP'' 0x400 10 10,
     M_field ''M66592_NRDY'' 0x200 9 9,
     M_field ''M66592_BRDY'' 0x100 8 8,
     M_field ''M66592_VBSTS'' 0x80 7 7,
     M_field ''M66592_DVSQ'' 0x70 6 4,
     M_value ''M66592_DS_SPD_CNFG'' 0x70,
     M_value ''M66592_DS_SPD_ADDR'' 0x60,
     M_value ''M66592_DS_SPD_DFLT'' 0x50,
     M_value ''M66592_DS_SPD_POWR'' 0x40,
     M_value ''M66592_DS_SUSP'' 0x40,
     M_value ''M66592_DS_CNFG'' 0x30,
     M_value ''M66592_DS_ADDS'' 0x20,
     M_value ''M66592_DS_DFLT'' 0x10,
     M_value ''M66592_DS_POWR'' 0x0,
     M_field ''M66592_DVSQS'' 0x30 5 4,
     M_field ''M66592_VALID'' 0x8 3 3,
     M_field ''M66592_CTSQ'' 0x7 2 0,
     M_value ''M66592_CS_SQER'' 0x6,
     M_value ''M66592_CS_WRND'' 0x5,
     M_value ''M66592_CS_WRSS'' 0x4,
     M_value ''M66592_CS_WRDS'' 0x3,
     M_value ''M66592_CS_RDSS'' 0x2,
     M_value ''M66592_CS_RDDS'' 0x1,
     M_value ''M66592_CS_IDST'' 0x0,
     M_reg ''M66592_INTSTS1'' 0x42,
     M_field ''M66592_BCHG'' 0x4000 14 14,
     M_field ''M66592_DTCH'' 0x1000 12 12,
     M_field ''M66592_SIGN'' 0x20 5 5,
     M_field ''M66592_SACK'' 0x10 4 4,
     M_reg ''M66592_FRMNUM'' 0x4c,
     M_field ''M66592_OVRN'' 0x8000 15 15,
     M_field ''M66592_CRCE'' 0x4000 14 14,
     M_field ''M66592_SOFRM'' 0x800 11 11,
     M_field ''M66592_FRNM'' 0x7ff 10 0,
     M_reg ''M66592_UFRMNUM'' 0x4e,
     M_field ''M66592_UFRNM'' 0x7 2 0,
     M_reg ''M66592_RECOVER'' 0x50,
     M_mask ''M66592_STSRECOV'' 0x700,
     M_value ''M66592_STSR_HI'' 0x400,
     M_value ''M66592_STSR_DEFAULT'' 0x100,
     M_value ''M66592_STSR_ADDRESS'' 0x200,
     M_value ''M66592_STSR_CONFIG'' 0x300,
     M_field ''M66592_USBADDR'' 0x7f 6 0]"

definition m66592_items_d :: "m66592_item list" where
  "m66592_items_d =
    [M_reg ''M66592_USBREQ'' 0x54,
     M_field ''M66592_bRequest'' 0xff00 15 8,
     M_value ''M66592_GET_STATUS'' 0x0,
     M_value ''M66592_CLEAR_FEATURE'' 0x100,
     M_value ''M66592_ReqRESERVED'' 0x200,
     M_value ''M66592_SET_FEATURE'' 0x300,
     M_value ''M66592_ReqRESERVED1'' 0x400,
     M_value ''M66592_SET_ADDRESS'' 0x500,
     M_value ''M66592_GET_DESCRIPTOR'' 0x600,
     M_value ''M66592_SET_DESCRIPTOR'' 0x700,
     M_value ''M66592_GET_CONFIGURATION'' 0x800,
     M_value ''M66592_SET_CONFIGURATION'' 0x900,
     M_value ''M66592_GET_INTERFACE'' 0xa00,
     M_value ''M66592_SET_INTERFACE'' 0xb00,
     M_value ''M66592_SYNCH_FRAME'' 0xc00,
     M_field ''M66592_bmRequestType'' 0xff 7 0,
     M_field ''M66592_bmRequestTypeDir'' 0x80 7 7,
     M_value ''M66592_HOST_TO_DEVICE'' 0x0,
     M_value ''M66592_DEVICE_TO_HOST'' 0x80,
     M_field ''M66592_bmRequestTypeType'' 0x60 6 5,
     M_value ''M66592_STANDARD'' 0x0,
     M_value ''M66592_CLASS'' 0x20,
     M_value ''M66592_VENDOR'' 0x40,
     M_field ''M66592_bmRequestTypeRecip'' 0x1f 4 0,
     M_value ''M66592_DEVICE'' 0x0,
     M_value ''M66592_INTERFACE'' 0x1,
     M_value ''M66592_ENDPOINT'' 0x2]"

definition m66592_items_e :: "m66592_item list" where
  "m66592_items_e =
    [M_reg ''M66592_USBINDEX'' 0x58,
     M_field ''M66592_wIndex'' 0xffff 15 0,
     M_field ''M66592_TEST_SELECT'' 0xff00 15 8,
     M_value ''M66592_TEST_J'' 0x100,
     M_value ''M66592_TEST_K'' 0x200,
     M_value ''M66592_TEST_SE0_NAK'' 0x300,
     M_value ''M66592_TEST_PACKET'' 0x400,
     M_value ''M66592_TEST_FORCE_ENABLE'' 0x500,
     M_value ''M66592_TEST_STSelectors'' 0x600,
     M_value ''M66592_TEST_Reserved'' 0x4000,
     M_value ''M66592_TEST_VSTModes'' 0xc000,
     M_field ''M66592_EP_DIR'' 0x80 7 7,
     M_value ''M66592_EP_DIR_IN'' 0x80,
     M_value ''M66592_EP_DIR_OUT'' 0x0,
     M_reg ''M66592_USBLENG'' 0x5a,
     M_field ''M66592_wLength'' 0xffff 15 0,
     M_reg ''M66592_DCPCFG'' 0x5c,
     M_field ''M66592_CNTMD'' 0x100 8 8,
     M_field ''M66592_DIR'' 0x10 4 4,
     M_reg ''M66592_DCPMAXP'' 0x5e,
     M_field ''M66592_DEVSEL'' 0xc000 15 14,
     M_value ''M66592_DEVICE_0'' 0x0,
     M_value ''M66592_DEVICE_1'' 0x4000,
     M_value ''M66592_DEVICE_2'' 0x8000,
     M_value ''M66592_DEVICE_3'' 0xc000,
     M_field ''M66592_MAXP'' 0x7f 6 0]"

definition m66592_items_f :: "m66592_item list" where
  "m66592_items_f =
    [M_reg ''M66592_DCPCTR'' 0x60,
     M_field ''M66592_BSTS'' 0x8000 15 15,
     M_field ''M66592_SUREQ'' 0x4000 14 14,
     M_field ''M66592_SQCLR'' 0x100 8 8,
     M_field ''M66592_SQSET'' 0x80 7 7,
     M_field ''M66592_SQMON'' 0x40 6 6,
     M_field ''M66592_CCPL'' 0x4 2 2,
     M_field ''M66592_PID'' 0x3 1 0,
     M_value ''M66592_PID_STALL'' 0x2,
     M_value ''M66592_PID_BUF'' 0x1,
     M_value ''M66592_PID_NAK'' 0x0,
     M_reg ''M66592_PIPESEL'' 0x64,
     M_field ''M66592_PIPENM'' 0x7 2 0,
     M_value ''M66592_PIPE0'' 0x0,
     M_value ''M66592_PIPE1'' 0x1,
     M_value ''M66592_PIPE2'' 0x2,
     M_value ''M66592_PIPE3'' 0x3,
     M_value ''M66592_PIPE4'' 0x4,
     M_value ''M66592_PIPE5'' 0x5,
     M_value ''M66592_PIPE6'' 0x6,
     M_value ''M66592_PIPE7'' 0x7,
     M_reg ''M66592_PIPECFG'' 0x66,
     M_field ''M66592_TYP'' 0xc000 15 14,
     M_value ''M66592_ISO'' 0xc000,
     M_value ''M66592_INT'' 0x8000,
     M_value ''M66592_BULK'' 0x4000,
     M_field ''M66592_BFRE'' 0x400 10 10,
     M_field ''M66592_DBLB'' 0x200 9 9,
     M_field ''M66592_CNTMD'' 0x100 8 8,
     M_field ''M66592_SHTNAK'' 0x80 7 7,
     M_field ''M66592_DIR'' 0x10 4 4,
     M_value ''M66592_DIR_H_OUT'' 0x10,
     M_value ''M66592_DIR_P_IN'' 0x10,
     M_value ''M66592_DIR_H_IN'' 0x0,
     M_value ''M66592_DIR_P_OUT'' 0x0,
     M_field ''M66592_EPNUM'' 0xf 3 0,
     M_value ''M66592_EP1'' 0x1,
     M_value ''M66592_EP2'' 0x2,
     M_value ''M66592_EP3'' 0x3,
     M_value ''M66592_EP4'' 0x4,
     M_value ''M66592_EP5'' 0x5,
     M_value ''M66592_EP6'' 0x6,
     M_value ''M66592_EP7'' 0x7,
     M_value ''M66592_EP8'' 0x8,
     M_value ''M66592_EP9'' 0x9,
     M_value ''M66592_EP10'' 0xa,
     M_value ''M66592_EP11'' 0xb,
     M_value ''M66592_EP12'' 0xc,
     M_value ''M66592_EP13'' 0xd,
     M_value ''M66592_EP14'' 0xe,
     M_value ''M66592_EP15'' 0xf,
     M_reg ''M66592_PIPEBUF'' 0x68,
     M_field ''M66592_BUFSIZE'' 0x7c00 14 10,
     M_field ''M66592_BUFNMB'' 0xff 7 0,
     M_reg ''M66592_PIPEMAXP'' 0x6a,
     M_field ''M66592_MXPS'' 0x7ff 10 0,
     M_reg ''M66592_PIPEPERI'' 0x6c,
     M_field ''M66592_IFIS'' 0x1000 12 12,
     M_field ''M66592_IITV'' 0x7 2 0,
     M_reg ''M66592_PIPE1CTR'' 0x70,
     M_reg ''M66592_PIPE2CTR'' 0x72,
     M_reg ''M66592_PIPE3CTR'' 0x74,
     M_reg ''M66592_PIPE4CTR'' 0x76,
     M_reg ''M66592_PIPE5CTR'' 0x78,
     M_reg ''M66592_PIPE6CTR'' 0x7a,
     M_reg ''M66592_PIPE7CTR'' 0x7c,
     M_field ''M66592_BSTS'' 0x8000 15 15,
     M_field ''M66592_INBUFM'' 0x4000 14 14,
     M_field ''M66592_ACLRM'' 0x200 9 9,
     M_field ''M66592_SQCLR'' 0x100 8 8,
     M_field ''M66592_SQSET'' 0x80 7 7,
     M_field ''M66592_SQMON'' 0x40 6 6,
     M_field ''M66592_PID'' 0x3 1 0]"

definition m66592_items :: "m66592_item list list" where
  "m66592_items = [m66592_items_a, m66592_items_b, m66592_items_c, m66592_items_d, m66592_items_e, m66592_items_f]"

text \<open>The fields whose mask is not what their comment says.\<close>

fun m_misdocumented :: "m66592_item list \<Rightarrow> string list" where
  "m_misdocumented [] = []"
| "m_misdocumented (M_field n m hi lo # r) =
     (if m = push_bit lo (mask (hi + 1 - lo)) then m_misdocumented r else n # m_misdocumented r)"
| "m_misdocumented (_ # r) = m_misdocumented r"

text \<open>The values that do not lie inside the field before them.\<close>

fun m_stray :: "u32 \<Rightarrow> m66592_item list \<Rightarrow> string list" where
  "m_stray f [] = []"
| "m_stray f (M_reg n a # r) = m_stray f r"
| "m_stray f (M_field n m hi lo # r) = m_stray m r"
| "m_stray f (M_mask n m # r) = m_stray m r"
| "m_stray f (M_value n v # r) = (if v AND f = v then m_stray f r else n # m_stray f r)"

text \<open>The fields that overlap a field before them in their register.\<close>

fun m_overlaps :: "u32 \<Rightarrow> m66592_item list \<Rightarrow> string list" where
  "m_overlaps used [] = []"
| "m_overlaps used (M_reg n a # r) = m_overlaps 0 r"
| "m_overlaps used (M_field n m hi lo # r) = (if used AND m = 0 then m_overlaps (used OR m) r else n # m_overlaps (used OR m) r)"
| "m_overlaps used (_ # r) = m_overlaps used r"

text \<open>The registers of the first controller are well formed, as documented. In all of them every mask has the bits that its comment
  names, with three exceptions: the test selection, whose comment has a bit too many, and the interrupts of pipe 0 for ready
  and not ready, whose comments say bit 1. Every value lies inside its field, and no two fields overlap but for the parts of a
  field that the header names again.\<close>

theorem m66592_registers_documented:
  "concat (map m_misdocumented m66592_items) = [''M66592_UTST'', ''M66592_BRDY0'', ''M66592_NRDY0''] \<and>
   concat (map (m_stray 0) m66592_items) = [] \<and>
   concat (map (m_overlaps 0) m66592_items) =
     [''M66592_DVSQS'', ''M66592_bmRequestTypeDir'', ''M66592_bmRequestTypeType'', ''M66592_bmRequestTypeRecip'',
      ''M66592_TEST_SELECT'', ''M66592_EP_DIR'']"
  by code_simp

end
