(* ===== verification/Fusb300.thy ===== *)
theory Fusb300
  imports RegField
begin

text \<open>
  \<^verbatim>\<open>src/test_gadget/fusb300_udc.h\<close>: the addresses of the registers, the bits and the fields of them, and the macros that compute
  addresses and bits from the number of an endpoint. A bit is its number; a macro that shifts by a computed amount has no value
  when the amount is outside of the word, which C leaves undefined.
\<close>

section \<open>Addresses\<close>

definition FUSB300_OFFSET_EPSET0 :: "nat \<Rightarrow> nat" where "FUSB300_OFFSET_EPSET0 n = 0x20 + (n - 1) * 0x30"
definition FUSB300_OFFSET_EPSET1 :: "nat \<Rightarrow> nat" where "FUSB300_OFFSET_EPSET1 n = 0x24 + (n - 1) * 0x30"
definition FUSB300_OFFSET_EPSET2 :: "nat \<Rightarrow> nat" where "FUSB300_OFFSET_EPSET2 n = 0x28 + (n - 1) * 0x30"
definition FUSB300_OFFSET_EPFFR :: "nat \<Rightarrow> nat" where "FUSB300_OFFSET_EPFFR n = 0x2c + (n - 1) * 0x30"
definition FUSB300_OFFSET_EPSTRID :: "nat \<Rightarrow> nat" where "FUSB300_OFFSET_EPSTRID n = 0x40 + (n - 1) * 0x30"
definition FUSB300_OFFSET_EPPRD_W0 :: "nat \<Rightarrow> nat" where "FUSB300_OFFSET_EPPRD_W0 n = 0x520 + (n - 1) * 0x10"
definition FUSB300_OFFSET_EPPRD_W1 :: "nat \<Rightarrow> nat" where "FUSB300_OFFSET_EPPRD_W1 n = 0x524 + (n - 1) * 0x10"
definition FUSB300_OFFSET_EPPRD_W2 :: "nat \<Rightarrow> nat" where "FUSB300_OFFSET_EPPRD_W2 n = 0x528 + (n - 1) * 0x10"
definition FUSB300_OFFSET_EPRD_PTR :: "nat \<Rightarrow> nat" where "FUSB300_OFFSET_EPRD_PTR n = 0x52C + (n - 1) * 0x10"
definition FUSB300_OFFSET_EPPORT :: "nat \<Rightarrow> nat" where "FUSB300_OFFSET_EPPORT n = 0x1010 + (n - 1) * 0x10"

definition fusb_low_offsets :: "nat list" where
  "fusb_low_offsets = [0x00, 0x04, 0x08, 0x0C, 0x10]"

definition fusb_mid_offsets :: "nat list" where
  "fusb_mid_offsets =
    [0x300, 0x304, 0x308, 0x30C, 0x310, 0x314, 0x318, 0x31C, 0x324, 0x328,
     0x400, 0x404, 0x408, 0x40C, 0x410, 0x414, 0x420, 0x424, 0x428, 0x42C, 0x430, 0x434,
     0x500, 0x504, 0x508, 0x50C, 0x510, 0x514]"

text \<open>All registers, in the order of their addresses, for the endpoints 1 to 15.\<close>

definition fusb_addresses :: "nat list" where
  "fusb_addresses =
     fusb_low_offsets @
     concat (map (\<lambda>n. [FUSB300_OFFSET_EPSET0 n, FUSB300_OFFSET_EPSET1 n, FUSB300_OFFSET_EPSET2 n, FUSB300_OFFSET_EPFFR n, FUSB300_OFFSET_EPSTRID n]) [1..<16]) @
     fusb_mid_offsets @
     concat (map (\<lambda>n. [FUSB300_OFFSET_EPPRD_W0 n, FUSB300_OFFSET_EPPRD_W1 n, FUSB300_OFFSET_EPPRD_W2 n, FUSB300_OFFSET_EPRD_PTR n]) [1..<16]) @
     map FUSB300_OFFSET_EPPORT [1..<16]"

lemmas fusb_offset_defs = FUSB300_OFFSET_EPSET0_def FUSB300_OFFSET_EPSET1_def FUSB300_OFFSET_EPSET2_def FUSB300_OFFSET_EPFFR_def
  FUSB300_OFFSET_EPSTRID_def FUSB300_OFFSET_EPPRD_W0_def FUSB300_OFFSET_EPPRD_W1_def FUSB300_OFFSET_EPPRD_W2_def
  FUSB300_OFFSET_EPRD_PTR_def FUSB300_OFFSET_EPPORT_def fusb_low_offsets_def fusb_mid_offsets_def

text \<open>No two registers share an address.\<close>

lemma fusb_addresses_distinct: "sorted_wrt (<) fusb_addresses" "distinct fusb_addresses"
proof -
  show s: "sorted_wrt (<) fusb_addresses"
    by (simp add: fusb_addresses_def fusb_offset_defs upt_conv_Cons sorted_wrt2 sorted_wrt1 del: sorted_wrt.simps)
  show "distinct fusb_addresses" using s by (simp add: strict_sorted_iff)
qed

section \<open>Bits\<close>

definition fusb_gcr :: "(string \<times> nat) list" where
  "fusb_gcr =
    [(''FUSB300_GCR_SF_RST'', 8),
     (''FUSB300_GCR_VBUS_STATUS'', 7),
     (''FUSB300_GCR_FORCE_HS_SUSP'', 6),
     (''FUSB300_GCR_SYNC_FIFO1_CLR'', 5),
     (''FUSB300_GCR_SYNC_FIFO0_CLR'', 4),
     (''FUSB300_GCR_FIFOCLR'', 3),
     (''FUSB300_GCR_GLINTEN'', 2)]"

definition fusb_csr :: "(string \<times> nat) list" where
  "fusb_csr =
    [(''FUSB300_CSR_EMP'', 4),
     (''FUSB300_CSR_FUL'', 3),
     (''FUSB300_CSR_CLR'', 2),
     (''FUSB300_CSR_STL'', 1),
     (''FUSB300_CSR_DONE'', 0)]"

definition fusb_epset0 :: "(string \<times> nat) list" where
  "fusb_epset0 =
    [(''FUSB300_EPSET0_CLRSEQNUM'', 2),
     (''FUSB300_EPSET0_EPn_TX0BYTE'', 1),
     (''FUSB300_EPSET0_STL'', 0)]"

definition fusb_ffr :: "(string \<times> nat) list" where
  "fusb_ffr =
    [(''FUSB300_FFR_RST'', 31),
     (''FUSB300_FF_FUL'', 30),
     (''FUSB300_FF_EMPTY'', 29)]"

definition fusb_hsptm :: "(string \<times> nat) list" where
  "fusb_hsptm =
    [(''FUSB300_HSPTM_TSTPKDONE'', 4),
     (''FUSB300_HSPTM_TSTPKT'', 3),
     (''FUSB300_HSPTM_TSTSET0NAK'', 2),
     (''FUSB300_HSPTM_TSTKSTA'', 1),
     (''FUSB300_HSPTM_TSTJSTA'', 0)]"

definition fusb_hscr :: "(string \<times> nat) list" where
  "fusb_hscr =
    [(''FUSB300_HSCR_HS_LPM_PERMIT'', 8),
     (''FUSB300_HSCR_HS_LPM_RMWKUP'', 7),
     (''FUSB300_HSCR_CAP_LPM_RMWKUP'', 6),
     (''FUSB300_HSCR_HS_GOSUSP'', 5),
     (''FUSB300_HSCR_HS_GORMWKU'', 4),
     (''FUSB300_HSCR_CAP_RMWKUP'', 3)]"

definition fusb_sscr1 :: "(string \<times> nat) list" where
  "fusb_sscr1 =
    [(''FUSB300_SSCR1_GO_U3_DONE'', 8),
     (''FUSB300_SSCR1_TXDEEMPH_LEVEL'', 7),
     (''FUSB300_SSCR1_DIS_SCRMB'', 6),
     (''FUSB300_SSCR1_FORCE_RECOVERY'', 5),
     (''FUSB300_SSCR1_U3_WAKEUP_EN'', 4),
     (''FUSB300_SSCR1_U2_EXIT_EN'', 3),
     (''FUSB300_SSCR1_U1_EXIT_EN'', 2),
     (''FUSB300_SSCR1_U2_ENTRY_EN'', 1),
     (''FUSB300_SSCR1_U1_ENTRY_EN'', 0)]"

definition fusb_igr0_prd :: "(string \<times> nat) list" where
  "fusb_igr0_prd =
    [(''FUSB300_IGR0_EP15_PRD_INT'', 31),
     (''FUSB300_IGR0_EP14_PRD_INT'', 30),
     (''FUSB300_IGR0_EP13_PRD_INT'', 29),
     (''FUSB300_IGR0_EP12_PRD_INT'', 28),
     (''FUSB300_IGR0_EP11_PRD_INT'', 27),
     (''FUSB300_IGR0_EP10_PRD_INT'', 26),
     (''FUSB300_IGR0_EP9_PRD_INT'', 25),
     (''FUSB300_IGR0_EP8_PRD_INT'', 24),
     (''FUSB300_IGR0_EP7_PRD_INT'', 23),
     (''FUSB300_IGR0_EP6_PRD_INT'', 22),
     (''FUSB300_IGR0_EP5_PRD_INT'', 21),
     (''FUSB300_IGR0_EP4_PRD_INT'', 20),
     (''FUSB300_IGR0_EP3_PRD_INT'', 19),
     (''FUSB300_IGR0_EP2_PRD_INT'', 18),
     (''FUSB300_IGR0_EP1_PRD_INT'', 17)]"

definition fusb_igr0_fifo :: "(string \<times> nat) list" where
  "fusb_igr0_fifo =
    [(''FUSB300_IGR0_EP15_FIFO_INT'', 15),
     (''FUSB300_IGR0_EP14_FIFO_INT'', 14),
     (''FUSB300_IGR0_EP13_FIFO_INT'', 13),
     (''FUSB300_IGR0_EP12_FIFO_INT'', 12),
     (''FUSB300_IGR0_EP11_FIFO_INT'', 11),
     (''FUSB300_IGR0_EP10_FIFO_INT'', 10),
     (''FUSB300_IGR0_EP9_FIFO_INT'', 9),
     (''FUSB300_IGR0_EP8_FIFO_INT'', 8),
     (''FUSB300_IGR0_EP7_FIFO_INT'', 7),
     (''FUSB300_IGR0_EP6_FIFO_INT'', 6),
     (''FUSB300_IGR0_EP5_FIFO_INT'', 5),
     (''FUSB300_IGR0_EP4_FIFO_INT'', 4),
     (''FUSB300_IGR0_EP3_FIFO_INT'', 3),
     (''FUSB300_IGR0_EP2_FIFO_INT'', 2),
     (''FUSB300_IGR0_EP1_FIFO_INT'', 1)]"

definition fusb_igr1 :: "(string \<times> nat) list" where
  "fusb_igr1 =
    [(''FUSB300_IGR1_INTGRP5'', 31),
     (''FUSB300_IGR1_VBUS_CHG_INT'', 30),
     (''FUSB300_IGR1_SYNF1_EMPTY_INT'', 29),
     (''FUSB300_IGR1_SYNF0_EMPTY_INT'', 28),
     (''FUSB300_IGR1_U3_EXIT_FAIL_INT'', 27),
     (''FUSB300_IGR1_U2_EXIT_FAIL_INT'', 26),
     (''FUSB300_IGR1_U1_EXIT_FAIL_INT'', 25),
     (''FUSB300_IGR1_U2_ENTRY_FAIL_INT'', 24),
     (''FUSB300_IGR1_U1_ENTRY_FAIL_INT'', 23),
     (''FUSB300_IGR1_U3_EXIT_INT'', 22),
     (''FUSB300_IGR1_U2_EXIT_INT'', 21),
     (''FUSB300_IGR1_U1_EXIT_INT'', 20),
     (''FUSB300_IGR1_U3_ENTRY_INT'', 19),
     (''FUSB300_IGR1_U2_ENTRY_INT'', 18),
     (''FUSB300_IGR1_U1_ENTRY_INT'', 17),
     (''FUSB300_IGR1_HOT_RST_INT'', 16),
     (''FUSB300_IGR1_WARM_RST_INT'', 15),
     (''FUSB300_IGR1_RESM_INT'', 14),
     (''FUSB300_IGR1_SUSP_INT'', 13),
     (''FUSB300_IGR1_HS_LPM_INT'', 12),
     (''FUSB300_IGR1_USBRST_INT'', 11),
     (''FUSB300_IGR1_DEV_MODE_CHG_INT'', 9),
     (''FUSB300_IGR1_CX_COMABT_INT'', 8),
     (''FUSB300_IGR1_CX_COMFAIL_INT'', 7),
     (''FUSB300_IGR1_CX_CMDEND_INT'', 6),
     (''FUSB300_IGR1_CX_OUT_INT'', 5),
     (''FUSB300_IGR1_CX_IN_INT'', 4),
     (''FUSB300_IGR1_CX_SETUP_INT'', 3),
     (''FUSB300_IGR1_INTGRP4'', 2),
     (''FUSB300_IGR1_INTGRP3'', 1),
     (''FUSB300_IGR1_INTGRP2'', 0)]"

definition fusb_igr2 :: "(string \<times> nat) list" where
  "fusb_igr2 =
    [(''FUSB300_IGR2_EP6_STR_ACCEPT_INT'', 29),
     (''FUSB300_IGR2_EP6_STR_RESUME_INT'', 28),
     (''FUSB300_IGR2_EP6_STR_REQ_INT'', 27),
     (''FUSB300_IGR2_EP6_STR_NOTRDY_INT'', 26),
     (''FUSB300_IGR2_EP6_STR_PRIME_INT'', 25),
     (''FUSB300_IGR2_EP5_STR_ACCEPT_INT'', 24),
     (''FUSB300_IGR2_EP5_STR_RESUME_INT'', 23),
     (''FUSB300_IGR2_EP5_STR_REQ_INT'', 22),
     (''FUSB300_IGR2_EP5_STR_NOTRDY_INT'', 21),
     (''FUSB300_IGR2_EP5_STR_PRIME_INT'', 20),
     (''FUSB300_IGR2_EP4_STR_ACCEPT_INT'', 19),
     (''FUSB300_IGR2_EP4_STR_RESUME_INT'', 18),
     (''FUSB300_IGR2_EP4_STR_REQ_INT'', 17),
     (''FUSB300_IGR2_EP4_STR_NOTRDY_INT'', 16),
     (''FUSB300_IGR2_EP4_STR_PRIME_INT'', 15),
     (''FUSB300_IGR2_EP3_STR_ACCEPT_INT'', 14),
     (''FUSB300_IGR2_EP3_STR_RESUME_INT'', 13),
     (''FUSB300_IGR2_EP3_STR_REQ_INT'', 12),
     (''FUSB300_IGR2_EP3_STR_NOTRDY_INT'', 11),
     (''FUSB300_IGR2_EP3_STR_PRIME_INT'', 10),
     (''FUSB300_IGR2_EP2_STR_ACCEPT_INT'', 9),
     (''FUSB300_IGR2_EP2_STR_RESUME_INT'', 8),
     (''FUSB300_IGR2_EP2_STR_REQ_INT'', 7),
     (''FUSB300_IGR2_EP2_STR_NOTRDY_INT'', 6),
     (''FUSB300_IGR2_EP2_STR_PRIME_INT'', 5),
     (''FUSB300_IGR2_EP1_STR_ACCEPT_INT'', 4),
     (''FUSB300_IGR2_EP1_STR_RESUME_INT'', 3),
     (''FUSB300_IGR2_EP1_STR_REQ_INT'', 2),
     (''FUSB300_IGR2_EP1_STR_NOTRDY_INT'', 1),
     (''FUSB300_IGR2_EP1_STR_PRIME_INT'', 0)]"

definition fusb_igr3 :: "(string \<times> nat) list" where
  "fusb_igr3 =
    [(''FUSB300_IGR3_EP12_STR_ACCEPT_INT'', 29),
     (''FUSB300_IGR3_EP12_STR_RESUME_INT'', 28),
     (''FUSB300_IGR3_EP12_STR_REQ_INT'', 27),
     (''FUSB300_IGR3_EP12_STR_NOTRDY_INT'', 26),
     (''FUSB300_IGR3_EP12_STR_PRIME_INT'', 25),
     (''FUSB300_IGR3_EP11_STR_ACCEPT_INT'', 24),
     (''FUSB300_IGR3_EP11_STR_RESUME_INT'', 23),
     (''FUSB300_IGR3_EP11_STR_REQ_INT'', 22),
     (''FUSB300_IGR3_EP11_STR_NOTRDY_INT'', 21),
     (''FUSB300_IGR3_EP11_STR_PRIME_INT'', 20),
     (''FUSB300_IGR3_EP10_STR_ACCEPT_INT'', 19),
     (''FUSB300_IGR3_EP10_STR_RESUME_INT'', 18),
     (''FUSB300_IGR3_EP10_STR_REQ_INT'', 17),
     (''FUSB300_IGR3_EP10_STR_NOTRDY_INT'', 16),
     (''FUSB300_IGR3_EP10_STR_PRIME_INT'', 15),
     (''FUSB300_IGR3_EP9_STR_ACCEPT_INT'', 14),
     (''FUSB300_IGR3_EP9_STR_RESUME_INT'', 13),
     (''FUSB300_IGR3_EP9_STR_REQ_INT'', 12),
     (''FUSB300_IGR3_EP9_STR_NOTRDY_INT'', 11),
     (''FUSB300_IGR3_EP9_STR_PRIME_INT'', 10),
     (''FUSB300_IGR3_EP8_STR_ACCEPT_INT'', 9),
     (''FUSB300_IGR3_EP8_STR_RESUME_INT'', 8),
     (''FUSB300_IGR3_EP8_STR_REQ_INT'', 7),
     (''FUSB300_IGR3_EP8_STR_NOTRDY_INT'', 6),
     (''FUSB300_IGR3_EP8_STR_PRIME_INT'', 5),
     (''FUSB300_IGR3_EP7_STR_ACCEPT_INT'', 4),
     (''FUSB300_IGR3_EP7_STR_RESUME_INT'', 3),
     (''FUSB300_IGR3_EP7_STR_REQ_INT'', 2),
     (''FUSB300_IGR3_EP7_STR_NOTRDY_INT'', 1),
     (''FUSB300_IGR3_EP7_STR_PRIME_INT'', 0)]"

definition fusb_igr4_rx0 :: "(string \<times> nat) list" where
  "fusb_igr4_rx0 =
    [(''FUSB300_IGR4_EP15_RX0_INT'', 31),
     (''FUSB300_IGR4_EP14_RX0_INT'', 30),
     (''FUSB300_IGR4_EP13_RX0_INT'', 29),
     (''FUSB300_IGR4_EP12_RX0_INT'', 28),
     (''FUSB300_IGR4_EP11_RX0_INT'', 27),
     (''FUSB300_IGR4_EP10_RX0_INT'', 26),
     (''FUSB300_IGR4_EP9_RX0_INT'', 25),
     (''FUSB300_IGR4_EP8_RX0_INT'', 24),
     (''FUSB300_IGR4_EP7_RX0_INT'', 23),
     (''FUSB300_IGR4_EP6_RX0_INT'', 22),
     (''FUSB300_IGR4_EP5_RX0_INT'', 21),
     (''FUSB300_IGR4_EP4_RX0_INT'', 20),
     (''FUSB300_IGR4_EP3_RX0_INT'', 19),
     (''FUSB300_IGR4_EP2_RX0_INT'', 18),
     (''FUSB300_IGR4_EP1_RX0_INT'', 17)]"

definition fusb_igr4_str :: "(string \<times> nat) list" where
  "fusb_igr4_str =
    [(''FUSB300_IGR4_EP15_STR_ACCEPT_INT'', 14),
     (''FUSB300_IGR4_EP15_STR_RESUME_INT'', 13),
     (''FUSB300_IGR4_EP15_STR_REQ_INT'', 12),
     (''FUSB300_IGR4_EP15_STR_NOTRDY_INT'', 11),
     (''FUSB300_IGR4_EP15_STR_PRIME_INT'', 10),
     (''FUSB300_IGR4_EP14_STR_ACCEPT_INT'', 9),
     (''FUSB300_IGR4_EP14_STR_RESUME_INT'', 8),
     (''FUSB300_IGR4_EP14_STR_REQ_INT'', 7),
     (''FUSB300_IGR4_EP14_STR_NOTRDY_INT'', 6),
     (''FUSB300_IGR4_EP14_STR_PRIME_INT'', 5),
     (''FUSB300_IGR4_EP13_STR_ACCEPT_INT'', 4),
     (''FUSB300_IGR4_EP13_STR_RESUME_INT'', 3),
     (''FUSB300_IGR4_EP13_STR_REQ_INT'', 2),
     (''FUSB300_IGR4_EP13_STR_NOTRDY_INT'', 1),
     (''FUSB300_IGR4_EP13_STR_PRIME_INT'', 0)]"

definition fusb_iger0_prd :: "(string \<times> nat) list" where
  "fusb_iger0_prd =
    [(''FUSB300_IGER0_EEP15_PRD_INT'', 31),
     (''FUSB300_IGER0_EEP14_PRD_INT'', 30),
     (''FUSB300_IGER0_EEP13_PRD_INT'', 29),
     (''FUSB300_IGER0_EEP12_PRD_INT'', 28),
     (''FUSB300_IGER0_EEP11_PRD_INT'', 27),
     (''FUSB300_IGER0_EEP10_PRD_INT'', 26),
     (''FUSB300_IGER0_EEP9_PRD_INT'', 25),
     (''FUSB300_IGER0_EP8_PRD_INT'', 24),
     (''FUSB300_IGER0_EEP7_PRD_INT'', 23),
     (''FUSB300_IGER0_EEP6_PRD_INT'', 22),
     (''FUSB300_IGER0_EEP5_PRD_INT'', 21),
     (''FUSB300_IGER0_EEP4_PRD_INT'', 20),
     (''FUSB300_IGER0_EEP3_PRD_INT'', 19),
     (''FUSB300_IGER0_EEP2_PRD_INT'', 18),
     (''FUSB300_IGER0_EEP1_PRD_INT'', 17)]"

definition fusb_iger0_fifo :: "(string \<times> nat) list" where
  "fusb_iger0_fifo =
    [(''FUSB300_IGER0_EEP15_FIFO_INT'', 15),
     (''FUSB300_IGER0_EEP14_FIFO_INT'', 14),
     (''FUSB300_IGER0_EEP13_FIFO_INT'', 13),
     (''FUSB300_IGER0_EEP12_FIFO_INT'', 12),
     (''FUSB300_IGER0_EEP11_FIFO_INT'', 11),
     (''FUSB300_IGER0_EEP10_FIFO_INT'', 10),
     (''FUSB300_IGER0_EEP9_FIFO_INT'', 9),
     (''FUSB300_IGER0_EEP8_FIFO_INT'', 8),
     (''FUSB300_IGER0_EEP7_FIFO_INT'', 7),
     (''FUSB300_IGER0_EEP6_FIFO_INT'', 6),
     (''FUSB300_IGER0_EEP5_FIFO_INT'', 5),
     (''FUSB300_IGER0_EEP4_FIFO_INT'', 4),
     (''FUSB300_IGER0_EEP3_FIFO_INT'', 3),
     (''FUSB300_IGER0_EEP2_FIFO_INT'', 2),
     (''FUSB300_IGER0_EEP1_FIFO_INT'', 1)]"

definition fusb_iger1 :: "(string \<times> nat) list" where
  "fusb_iger1 =
    [(''FUSB300_IGER1_EINT_GRP5'', 31),
     (''FUSB300_IGER1_VBUS_CHG_INT'', 30),
     (''FUSB300_IGER1_SYNF1_EMPTY_INT'', 29),
     (''FUSB300_IGER1_SYNF0_EMPTY_INT'', 28),
     (''FUSB300_IGER1_U3_EXIT_FAIL_INT'', 27),
     (''FUSB300_IGER1_U2_EXIT_FAIL_INT'', 26),
     (''FUSB300_IGER1_U1_EXIT_FAIL_INT'', 25),
     (''FUSB300_IGER1_U2_ENTRY_FAIL_INT'', 24),
     (''FUSB300_IGER1_U1_ENTRY_FAIL_INT'', 23),
     (''FUSB300_IGER1_U3_EXIT_INT'', 22),
     (''FUSB300_IGER1_U2_EXIT_INT'', 21),
     (''FUSB300_IGER1_U1_EXIT_INT'', 20),
     (''FUSB300_IGER1_U3_ENTRY_INT'', 19),
     (''FUSB300_IGER1_U2_ENTRY_INT'', 18),
     (''FUSB300_IGER1_U1_ENTRY_INT'', 17),
     (''FUSB300_IGER1_HOT_RST_INT'', 16),
     (''FUSB300_IGER1_WARM_RST_INT'', 15),
     (''FUSB300_IGER1_RESM_INT'', 14),
     (''FUSB300_IGER1_SUSP_INT'', 13),
     (''FUSB300_IGER1_LPM_INT'', 12),
     (''FUSB300_IGER1_HS_RST_INT'', 11),
     (''FUSB300_IGER1_EDEV_MODE_CHG_INT'', 9),
     (''FUSB300_IGER1_CX_COMABT_INT'', 8),
     (''FUSB300_IGER1_CX_COMFAIL_INT'', 7),
     (''FUSB300_IGER1_CX_CMDEND_INT'', 6),
     (''FUSB300_IGER1_CX_OUT_INT'', 5),
     (''FUSB300_IGER1_CX_IN_INT'', 4),
     (''FUSB300_IGER1_CX_SETUP_INT'', 3),
     (''FUSB300_IGER1_INTGRP4'', 2),
     (''FUSB300_IGER1_INTGRP3'', 1),
     (''FUSB300_IGER1_INTGRP2'', 0)]"

definition fusb_epprdr :: "(string \<times> nat) list" where
  "fusb_epprdr =
    [(''FUSB300_EPPRDR_EP15_PRD_RDY'', 15),
     (''FUSB300_EPPRDR_EP14_PRD_RDY'', 14),
     (''FUSB300_EPPRDR_EP13_PRD_RDY'', 13),
     (''FUSB300_EPPRDR_EP12_PRD_RDY'', 12),
     (''FUSB300_EPPRDR_EP11_PRD_RDY'', 11),
     (''FUSB300_EPPRDR_EP10_PRD_RDY'', 10),
     (''FUSB300_EPPRDR_EP9_PRD_RDY'', 9),
     (''FUSB300_EPPRDR_EP8_PRD_RDY'', 8),
     (''FUSB300_EPPRDR_EP7_PRD_RDY'', 7),
     (''FUSB300_EPPRDR_EP6_PRD_RDY'', 6),
     (''FUSB300_EPPRDR_EP5_PRD_RDY'', 5),
     (''FUSB300_EPPRDR_EP4_PRD_RDY'', 4),
     (''FUSB300_EPPRDR_EP3_PRD_RDY'', 3),
     (''FUSB300_EPPRDR_EP2_PRD_RDY'', 2),
     (''FUSB300_EPPRDR_EP1_PRD_RDY'', 1)]"

definition fusb_epprd0 :: "(string \<times> nat) list" where
  "fusb_epprd0 =
    [(''FUSB300_EPPRD0_M'', 30),
     (''FUSB300_EPPRD0_O'', 29),
     (''FUSB300_EPPRD0_F'', 28),
     (''FUSB300_EPPRD0_I'', 27),
     (''FUSB300_EPPRD0_A'', 26),
     (''FUSB300_EPPRD0_L'', 25),
     (''FUSB300_EPPRD0_H'', 24)]"

text \<open>A bit at a computed place.\<close>

definition shl1 :: "int \<Rightarrow> u32 option" where
  "shl1 k = (if 0 \<le> k \<and> k < 32 then Some (push_bit (nat k) 1) else None)"

definition FUSB300_IGR0_EPn_PRD_INT :: "int \<Rightarrow> u32 option" where "FUSB300_IGR0_EPn_PRD_INT n = shl1 (n + 16)"
definition FUSB300_IGR0_EPn_FIFO_INT :: "int \<Rightarrow> u32 option" where "FUSB300_IGR0_EPn_FIFO_INT n = shl1 n"
definition FUSB300_IGR4_EP_RX0_INT :: "int \<Rightarrow> u32 option" where "FUSB300_IGR4_EP_RX0_INT x = shl1 (x + 16)"
definition FUSB300_IGR5_EP_STL_INT :: "int \<Rightarrow> u32 option" where "FUSB300_IGR5_EP_STL_INT n = shl1 n"
definition FUSB300_IGER0_EEPn_PRD_INT :: "int \<Rightarrow> u32 option" where "FUSB300_IGER0_EEPn_PRD_INT n = shl1 (n + 16)"
definition FUSB300_IGER0_EEPn_FIFO_INT :: "int \<Rightarrow> u32 option" where "FUSB300_IGER0_EEPn_FIFO_INT n = shl1 n"
definition FUSB300_IGER4_EEP_RX0_INT :: "int \<Rightarrow> u32 option" where "FUSB300_IGER4_EEP_RX0_INT n = shl1 (n + 16)"
definition FUSB300_IGER5_EEP_STL_INT :: "int \<Rightarrow> u32 option" where "FUSB300_IGER5_EEP_STL_INT n = shl1 n"
definition FUSB300_EPPRDR_EP_PRD_RDY :: "int \<Rightarrow> u32 option" where "FUSB300_EPPRDR_EP_PRD_RDY n = shl1 n"

text \<open>The events of a stream: in each group of five bits they are counted from the top.\<close>

datatype str_event = STR_ACCEPT | STR_RESUME | STR_REQ | STR_NOTRDY | STR_PRIME

fun str_place :: "str_event \<Rightarrow> int" where
  "str_place STR_ACCEPT = 1"
| "str_place STR_RESUME = 2"
| "str_place STR_REQ = 3"
| "str_place STR_NOTRDY = 4"
| "str_place STR_PRIME = 5"

definition str_events :: "str_event list" where
  "str_events = [STR_ACCEPT, STR_RESUME, STR_REQ, STR_NOTRDY, STR_PRIME]"

definition FUSB300_IGR2_EP_STR :: "str_event \<Rightarrow> int \<Rightarrow> u32 option" where "FUSB300_IGR2_EP_STR ev n = shl1 (5 * n - str_place ev)"
definition FUSB300_IGR3_EP_STR :: "str_event \<Rightarrow> int \<Rightarrow> u32 option" where "FUSB300_IGR3_EP_STR ev n = shl1 (5 * (n - 6) - str_place ev)"
definition FUSB300_IGR4_EP_STR :: "str_event \<Rightarrow> int \<Rightarrow> u32 option" where "FUSB300_IGR4_EP_STR ev n = shl1 (5 * (n - 12) - str_place ev)"
definition FUSB300_IGER2_EEP_STR :: "str_event \<Rightarrow> int \<Rightarrow> u32 option" where "FUSB300_IGER2_EEP_STR ev n = shl1 (5 * n - str_place ev)"
definition FUSB300_IGER3_EEP_STR :: "str_event \<Rightarrow> int \<Rightarrow> u32 option" where "FUSB300_IGER3_EEP_STR ev n = shl1 (5 * (n - 6) - str_place ev)"
definition FUSB300_IGER4_EEP_STR :: "str_event \<Rightarrow> int \<Rightarrow> u32 option" where "FUSB300_IGER4_EEP_STR ev n = shl1 (5 * (n - 6) - str_place ev)"

text \<open>The bits of a table as words, and the bits a macro gives for a list of endpoints.\<close>

definition table_bits :: "(string \<times> nat) list \<Rightarrow> u32 option list" where
  "table_bits t = map (\<lambda>(n, b). shl1 (int b)) t"

definition ep_bits :: "(int \<Rightarrow> u32 option) \<Rightarrow> u32 option list" where
  "ep_bits f = map f (rev [1..15])"

definition str_bits :: "(str_event \<Rightarrow> int \<Rightarrow> u32 option) \<Rightarrow> int list \<Rightarrow> u32 option list" where
  "str_bits f eps = concat (map (\<lambda>n. map (\<lambda>ev. f ev n) str_events) eps)"

text \<open>The macros give the bits that the header also lists by name, for all endpoints, and no register has two names for a bit.\<close>

lemma fusb_named_bits:
  "table_bits fusb_igr0_prd = ep_bits FUSB300_IGR0_EPn_PRD_INT" "table_bits fusb_igr0_fifo = ep_bits FUSB300_IGR0_EPn_FIFO_INT"
  "table_bits fusb_iger0_prd = ep_bits FUSB300_IGER0_EEPn_PRD_INT" "table_bits fusb_iger0_fifo = ep_bits FUSB300_IGER0_EEPn_FIFO_INT"
  "table_bits fusb_igr4_rx0 = ep_bits FUSB300_IGR4_EP_RX0_INT" "table_bits fusb_epprdr = ep_bits FUSB300_EPPRDR_EP_PRD_RDY"
  "table_bits fusb_igr2 = str_bits FUSB300_IGR2_EP_STR [6, 5, 4, 3, 2, 1]"
  "table_bits fusb_igr3 = str_bits FUSB300_IGR3_EP_STR [12, 11, 10, 9, 8, 7]"
  "table_bits fusb_igr4_str = str_bits FUSB300_IGR4_EP_STR [15, 14, 13]"
  by code_simp+

definition fusb_bit_tables :: "(string \<times> nat) list list" where
  "fusb_bit_tables =
    [fusb_gcr, fusb_csr, fusb_epset0, fusb_ffr, fusb_hsptm, fusb_hscr, fusb_sscr1, fusb_igr0_prd @ fusb_igr0_fifo, fusb_igr1, fusb_igr2, fusb_igr3,
     fusb_igr4_rx0 @ fusb_igr4_str, fusb_iger0_prd @ fusb_iger0_fifo, fusb_iger1, fusb_epprdr, fusb_epprd0]"

lemma fusb_bits_distinct: "list_all (\<lambda>t. sorted_wrt (>) (map snd t) \<and> list_all (\<lambda>b. b < 32) (map snd t)) fusb_bit_tables"
  by code_simp

section \<open>Status and enable registers\<close>

text \<open>Where the status of a stream's event shows for an endpoint and where it is enabled: the group of registers and the bit.\<close>

definition str_status :: "str_event \<Rightarrow> int \<Rightarrow> (nat \<times> u32 option)" where
  "str_status ev n = (if n \<le> 6 then (2, FUSB300_IGR2_EP_STR ev n) else if n \<le> 12 then (3, FUSB300_IGR3_EP_STR ev n) else (4, FUSB300_IGR4_EP_STR ev n))"

definition str_enable :: "str_event \<Rightarrow> int \<Rightarrow> (nat \<times> u32 option)" where
  "str_enable ev n = (if n \<le> 6 then (2, FUSB300_IGER2_EEP_STR ev n) else if n \<le> 12 then (3, FUSB300_IGER3_EEP_STR ev n) else (4, FUSB300_IGER4_EEP_STR ev n))"

text \<open>Enabling an interrupt of the controller sets the bit under which its status shows, for the interrupts of groups 0, 1 and 5 and of the
  streams of the endpoints 1 to 12. It does not for the endpoints 13 to 15: there the enabling macro subtracts the offset of the
  group before, so that no bit it gives is the status bit, and what it gives, if the shift stays inside the word at all, is the
  bit that enables the interrupt of endpoint 14 or 15 for empty packets.\<close>

theorem fusb300_enable_matches_status:
  assumes "1 \<le> n" and "n \<le> 15"
  shows "FUSB300_IGER0_EEPn_PRD_INT n = FUSB300_IGR0_EPn_PRD_INT n \<and> FUSB300_IGER0_EEPn_FIFO_INT n = FUSB300_IGR0_EPn_FIFO_INT n \<and>
     FUSB300_IGER5_EEP_STL_INT n = FUSB300_IGR5_EP_STL_INT n \<and> FUSB300_IGER4_EEP_RX0_INT n = FUSB300_IGR4_EP_RX0_INT n \<and>
     map snd fusb_iger1 = map snd fusb_igr1 \<and>
     (n \<le> 12 \<longrightarrow> str_enable ev n = str_status ev n \<and> snd (str_status ev n) \<noteq> None) \<and>
     (12 < n \<longrightarrow> snd (str_status ev n) \<noteq> None \<and> snd (str_enable ev n) \<noteq> snd (str_status ev n) \<and>
        snd (str_enable ev n) \<in> {None, FUSB300_IGER4_EEP_RX0_INT 14, FUSB300_IGER4_EEP_RX0_INT 15})"
proof (intro conjI impI)
  show "map snd fusb_iger1 = map snd fusb_igr1" by (simp add: fusb_iger1_def fusb_igr1_def)
  have place: "1 \<le> str_place ev" "str_place ev \<le> 5" by (cases ev; simp)+
  show "str_enable ev n = str_status ev n" if "n \<le> 12"
    using that by (simp add: str_enable_def str_status_def FUSB300_IGER2_EEP_STR_def FUSB300_IGR2_EP_STR_def FUSB300_IGER3_EEP_STR_def FUSB300_IGR3_EP_STR_def)
  show "snd (str_status ev n) \<noteq> None" if "n \<le> 12"
    using that place assms by (simp add: str_status_def FUSB300_IGR2_EP_STR_def FUSB300_IGR3_EP_STR_def shl1_def)
  show "snd (str_status ev n) \<noteq> None" if "12 < n"
    using that place assms by (simp add: str_status_def FUSB300_IGR4_EP_STR_def shl1_def)
  have wrong: "n = 13 \<or> n = 14 \<or> n = 15" if "12 < n" using that assms by linarith
  have "snd (str_enable ev n) \<noteq> snd (str_status ev n) \<and>
      snd (str_enable ev n) \<in> {None, FUSB300_IGER4_EEP_RX0_INT 14, FUSB300_IGER4_EEP_RX0_INT 15}" if "12 < n"
    using wrong [OF that]
    by (cases ev) (auto simp: str_enable_def str_status_def FUSB300_IGER4_EEP_STR_def FUSB300_IGR4_EP_STR_def FUSB300_IGER4_EEP_RX0_INT_def shl1_def)
  then show "snd (str_enable ev n) \<noteq> snd (str_status ev n)"
      "snd (str_enable ev n) \<in> {None, FUSB300_IGER4_EEP_RX0_INT 14, FUSB300_IGER4_EEP_RX0_INT 15}" if "12 < n"
    using that by blast+
qed (simp_all add: FUSB300_IGER0_EEPn_PRD_INT_def FUSB300_IGR0_EPn_PRD_INT_def FUSB300_IGER0_EEPn_FIFO_INT_def FUSB300_IGR0_EPn_FIFO_INT_def
  FUSB300_IGER5_EEP_STL_INT_def FUSB300_IGR5_EP_STL_INT_def FUSB300_IGER4_EEP_RX0_INT_def FUSB300_IGR4_EP_RX0_INT_def)

theorem fusb300_enable_matches_status_witness:
  "str_enable STR_REQ 7 = str_status STR_REQ 7 \<and> snd (str_enable STR_PRIME 13) \<noteq> snd (str_status STR_PRIME 13)"
  using fusb300_enable_matches_status [of 7 STR_REQ] fusb300_enable_matches_status [of 13 STR_PRIME] by simp

section \<open>Fields\<close>

text \<open>A field macro masks its argument and shifts it: the mask and the shift of each, register by register.\<close>

definition fusb_gtm_fields :: "(string \<times> u32 \<times> nat) list" where
  "fusb_gtm_fields =
    [(''FUSB300_GTM_TST_CUR_EP_ENTRY'', 0xf, 12),
     (''FUSB300_GTM_TST_EP_ENTRY'', 0xf, 8),
     (''FUSB300_GTM_TST_EP_NUM'', 0xf, 4)]"

definition fusb_epset1_fields :: "(string \<times> u32 \<times> nat) list" where
  "fusb_epset1_fields =
    [(''FUSB300_EPSET1_START_ENTRY'', 0xff, 24),
     (''FUSB300_EPSET1_FIFOENTRY'', 0x1f, 12),
     (''FUSB300_EPSET1_INTERVAL'', 0x7, 6),
     (''FUSB300_EPSET1_BWNUM'', 0x3, 4),
     (''FUSB300_EPSET1_TYPE'', 0x3, 2),
     (''FUSB300_EPSET1_DIR'', 0x1, 1)]"

definition fusb_epset2_fields :: "(string \<times> u32 \<times> nat) list" where
  "fusb_epset2_fields =
    [(''FUSB300_EPSET2_ADDROFS'', 0x7fff, 16),
     (''FUSB300_EPSET2_MPS'', 0x7ff, 0)]"

definition fusb_sscr2_fields :: "(string \<times> u32 \<times> nat) list" where
  "fusb_sscr2_fields =
    [(''FUSB300_SSCR2_U2_INACT_TIMEOUT'', 0xff, 16),
     (''FUSB300_SSCR2_U1TIMEOUT'', 0xff, 8),
     (''FUSB300_SSCR2_U2TIMEOUT'', 0xff, 0)]"

definition fusb_field :: "u32 \<times> nat \<Rightarrow> u32 \<Rightarrow> u32" where
  "fusb_field f x = push_bit (snd f) (x AND fst f)"

definition fusb_field_tables :: "(string \<times> u32 \<times> nat) list list" where
  "fusb_field_tables = [fusb_gtm_fields, fusb_epset1_fields, fusb_epset2_fields, fusb_sscr2_fields]"

text \<open>The fields of a register do not overlap, and a value that fits is in the word as it was given.\<close>

lemma fusb_fields_apart: "list_all (\<lambda>t. masks_apart 0 (map (\<lambda>(n, m, s). (push_bit s m, s)) t)) fusb_field_tables"
  by code_simp

lemma fusb_field_value: "drop_bit (snd f) (fusb_field f x) = take_bit (32 - snd f) (x AND fst f)"
  by (rule u32_eqI) (auto simp: fusb_field_def bit_simps)

end
