(* ===== verification/UdcMisc.thy ===== *)
theory UdcMisc
  imports RegField
begin

text \<open>
  Three more controllers: \<^verbatim>\<open>src/test_gadget/goku_udc.h\<close> with its structure over the registers and its interrupt bits,
  \<^verbatim>\<open>src/test_gadget/net2280.h\<close> with the small functions that write its response and GPIO registers, and
  \<^verbatim>\<open>src/test_gadget/pxa27x_udc.h\<close> with its registers, the interrupt bits of an endpoint and the macros that define endpoints.
\<close>

section \<open>Goku-S: the structure over the registers\<close>

definition goku_udc_regs :: "(string \<times> int \<times> int) list" where
  "goku_udc_regs =
    [(''int_status'', 4, 1), (''int_enable'', 4, 1), (''dma_master'', 4, 1), (''out_dma_start'', 4, 1), (''out_dma_end'', 4,
     1), (''out_dma_current'', 4, 1), (''in_dma_start'', 4, 1), (''in_dma_end'', 4, 1), (''in_dma_current'', 4, 1),
     (''power_detect'', 4, 1), (''_reserved0'', 1, 0x1d8), (''ep_fifo'', 4, 4), (''_reserved1'', 1, 0x10), (''ep_mode'', 4, 4),
     (''_reserved2'', 1, 0x10), (''ep_status'', 4, 4), (''_reserved3'', 1, 0x10), (''EPxSizeLA'', 4, 4), (''_reserved3a'', 1,
     0x10), (''EPxSizeLB'', 4, 4), (''_reserved3b'', 1, 0x10), (''EPxSizeHA'', 4, 4), (''_reserved3c'', 1, 0x10),
     (''EPxSizeHB'', 4, 4), (''_reserved4'', 1, 0x30), (''bRequestType'', 4, 1), (''bRequest'', 4, 1), (''wValueL'', 4, 1),
     (''wValueH'', 4, 1), (''wIndexL'', 4, 1), (''wIndexH'', 4, 1), (''wLengthL'', 4, 1), (''wLengthH'', 4, 1), (''SetupRecv'',
     4, 1), (''CurrConfig'', 4, 1), (''StdRequest'', 4, 1), (''Request'', 4, 1), (''DataSet'', 4, 1), (''_reserved5'', 1, 4),
     (''UsbState'', 4, 1), (''EOP'', 4, 1), (''Command'', 4, 1), (''EPxSingle'', 4, 1), (''_reserved6'', 1, 4), (''EPxBCS'', 4,
     1), (''_reserved7'', 1, 8), (''IntControl'', 4, 1), (''_reserved8'', 1, 4), (''reqmode'', 4, 1), (''ReqMode'', 4, 1),
     (''_reserved9'', 1, 0x18), (''PortStatus'', 4, 1), (''_reserved10'', 1, 8), (''address'', 4, 1), (''buff_test'', 4, 1),
     (''_reserved11'', 1, 4), (''UsbReady'', 4, 1), (''_reserved12'', 1, 4), (''SetDescStall'', 4, 1), (''_reserved13'', 1,
     0x45c), (''descriptors'', 4, 0x80), (''_reserved14'', 1, 0x600)]"

text \<open>The offsets the header's comments give.\<close>

definition goku_comments :: "(string \<times> int) list" where
  "goku_comments =
    [(''int_status'', 0x000), (''ep_fifo'', 0x200), (''bRequestType'', 0x300), (''SetupRecv'', 0x320), (''Command'', 0x340), (''reqmode'', 0x360),
     (''PortStatus'', 0x380), (''SetDescStall'', 0x3a0), (''descriptors'', 0x800)]"

text \<open>Every register that has a comment is where the comment says, and the block has 4096 bytes.\<close>

lemma goku_offsets:
  "list_all (\<lambda>(n, a). map_of (c_offsets 0 goku_udc_regs) n = Some a) goku_comments" "c_extent 0 goku_udc_regs = 0x1000"
  by code_simp+

section \<open>Goku-S: bits\<close>

definition goku_int :: "(string \<times> u32) list" where
  "goku_int =
    [(''INT_SUSPEND'', 0x1),
     (''INT_USBRESET'', 0x2),
     (''INT_ENDPOINT0'', 0x4),
     (''INT_SETUP'', 0x8),
     (''INT_STATUS'', 0x10),
     (''INT_STATUSNAK'', 0x20),
     (''INT_EP1DATASET'', 0x40),
     (''INT_EP2DATASET'', 0x80),
     (''INT_EP3DATASET'', 0x100),
     (''INT_EP1NAK'', 0x200),
     (''INT_EP2NAK'', 0x400),
     (''INT_EP3NAK'', 0x800),
     (''INT_SOF'', 0x1000),
     (''INT_ERR'', 0x2000),
     (''INT_MSTWRSET'', 0x4000),
     (''INT_MSTWREND'', 0x8000),
     (''INT_MSTWRTMOUT'', 0x10000),
     (''INT_MSTRDEND'', 0x20000),
     (''INT_SYSERROR'', 0x40000),
     (''INT_PWRDETECT'', 0x80000)]"

definition goku_mst :: "(string \<times> u32) list" where
  "goku_mst =
    [(''MST_EOPB_DIS'', 0x800),
     (''MST_EOPB_ENA'', 0x400),
     (''MST_TIMEOUT_DIS'', 0x200),
     (''MST_TIMEOUT_ENA'', 0x100),
     (''MST_RD_EOPB'', 0x80),
     (''MST_RD_RESET'', 0x40),
     (''MST_WR_RESET'', 0x20),
     (''MST_RD_ENA'', 0x4),
     (''MST_WR_ENA'', 0x2),
     (''MST_CONNECTION'', 0x1)]"

text \<open>The bits of an endpoint: the second macro compares where the first one shifts, and so yields a truth value.\<close>

definition INT_EPxDATASET :: "nat \<Rightarrow> u32" where "INT_EPxDATASET n = push_bit n 0x20"
definition INT_EPnNAK :: "nat \<Rightarrow> u32" where "INT_EPnNAK n = (if 0x100 < n then 1 else 0)"
definition INT_DEVWIDE :: u32 where "INT_DEVWIDE = 0x80000 OR 0x40000 OR 0x2 OR 0x1"
definition INT_EP0 :: u32 where "INT_EP0 = 0x8 OR 0x4 OR 0x20"
definition MST_R_BITS :: u32 where "MST_R_BITS = 0x800 OR 0x400 OR 0x4 OR 0x40"
definition MST_W_BITS :: u32 where "MST_W_BITS = 0x200 OR 0x100 OR 0x2 OR 0x20"
definition MST_RW_BITS :: u32 where "MST_RW_BITS = MST_R_BITS OR MST_W_BITS OR 0x1"
definition DATASET_A :: "nat \<Rightarrow> u32" where "DATASET_A epnum = push_bit (2 * epnum) 1"
definition DATASET_B :: "nat \<Rightarrow> u32" where "DATASET_B epnum = push_bit (2 * epnum) 2"
definition DATASET_AB :: "nat \<Rightarrow> u32" where "DATASET_AB epnum = push_bit (2 * epnum) 3"
definition COMMAND_EP :: "nat \<Rightarrow> u32" where "COMMAND_EP n = push_bit 4 (of_nat n)"

lemma goku_bits_apart:
  "masks_apart 0 (map (\<lambda>(n, m). (m, 0)) goku_int)" "masks_apart 0 (map (\<lambda>(n, m). (m, 0)) goku_mst)" "INT_DEVWIDE AND INT_EP0 = 0" "MST_R_BITS AND MST_W_BITS = 0"
  by code_simp+

lemma goku_dataset: "DATASET_AB n = DATASET_A n OR DATASET_B n"
proof -
  have "(3 :: u32) = 1 OR 2" by simp
  then show ?thesis unfolding DATASET_A_def DATASET_B_def DATASET_AB_def by (simp only: push_bit_or)
qed

text \<open>For each of the endpoints 1 to 3 the macro for the interrupt that data is ready gives the bit that the header also has by name, but the
  macro for the interrupt of a NAK gives no bit at all, where the header's name has one: a mask built from it enables nothing.\<close>

theorem goku_nak_macro_empty:
  assumes "0 < n" and "n < 4"
  shows "map_of goku_int (''INT_EP'' @ nat_dec n @ ''DATASET'') = Some (INT_EPxDATASET n) \<and>
     INT_EPnNAK n = 0 \<and> map_of goku_int (''INT_EP'' @ nat_dec n @ ''NAK'') = Some (push_bit n 0x100) \<and> push_bit n 0x100 \<noteq> (0 :: u32)"
proof -
  define ok where "ok n \<longleftrightarrow> map_of goku_int (''INT_EP'' @ nat_dec n @ ''DATASET'') = Some (INT_EPxDATASET n) \<and>
      INT_EPnNAK n = 0 \<and> map_of goku_int (''INT_EP'' @ nat_dec n @ ''NAK'') = Some (push_bit n 0x100) \<and> push_bit n 0x100 \<noteq> (0 :: u32)" for n
  have "ok 1" "ok 2" "ok 3" unfolding ok_def by code_simp+
  moreover have "n = 1 \<or> n = 2 \<or> n = 3" using assms by auto
  ultimately show ?thesis unfolding ok_def by blast
qed

theorem goku_nak_macro_empty_witness:
  "INT_EPnNAK 2 = 0 \<and> map_of goku_int ''INT_EP2NAK'' = Some 0x400"
proof -
  have "''INT_EP'' @ nat_dec 2 @ ''NAK'' = ''INT_EP2NAK''" by code_simp
  then show ?thesis using goku_nak_macro_empty [of 2] by simp
qed

section \<open>NetChip 2280\<close>

text \<open>The numbers of the bits are those of another header.\<close>

record net2280_bits =
  CLEAR_CONTROL_STATUS_PHASE_HANDSHAKE :: nat
  CLEAR_NAK_OUT_PACKETS :: nat
  CLEAR_NAK_OUT_PACKETS_MODE :: nat
  SET_NAK_OUT_PACKETS :: nat
  SET_ENDPOINT_HALT :: nat
  CLEAR_ENDPOINT_HALT :: nat
  CLEAR_ENDPOINT_TOGGLE :: nat
  NAK_OUT_PACKETS :: nat
  GPIO0_DATA :: nat
  GPIO1_DATA :: nat
  GPIO2_DATA :: nat

text \<open>The registers that are written, as far as the functions use them: what the response register of the endpoint got, write by
  write, the status register, the GPIO register and the indexed registers behind their address and data.\<close>

record net2280 =
  ep_rsp :: "u32 list"
  ep_stat :: u32
  ep_cfg2 :: u8
  stopped :: bool
  chiprev :: u16
  gpioctl :: u32
  idxaddr :: u32
  idxregs :: "u32 \<Rightarrow> u32"

definition CHIPREV_1 :: u16 where "CHIPREV_1 = 0x0100"

definition BIT1 :: "nat \<Rightarrow> u32" where "BIT1 n = push_bit n 1"

definition get_idx_reg :: "u32 \<Rightarrow> net2280 \<Rightarrow> u32 \<times> net2280" where
  "get_idx_reg index s = (let s = s\<lparr>idxaddr := index\<rparr> in (idxregs s (idxaddr s), s))"

definition set_idx_reg :: "u32 \<Rightarrow> u32 \<Rightarrow> net2280 \<Rightarrow> net2280" where
  "set_idx_reg index v s = (let s = s\<lparr>idxaddr := index\<rparr> in s\<lparr>idxregs := (idxregs s)(idxaddr s := v)\<rparr>)"

definition REG_EP_MAXPKT :: "bool \<Rightarrow> u32 \<Rightarrow> u32" where
  "REG_EP_MAXPKT high_speed num = (num + 1) * 0x10 + (if high_speed then 0 else 1)"

definition allow_status :: "net2280_bits \<Rightarrow> net2280 \<Rightarrow> net2280" where
  "allow_status b s =
     s\<lparr>ep_rsp := ep_rsp s @ [BIT1 (CLEAR_CONTROL_STATUS_PHASE_HANDSHAKE b) OR BIT1 (CLEAR_NAK_OUT_PACKETS b) OR BIT1 (CLEAR_NAK_OUT_PACKETS_MODE b)],
        stopped := True\<rparr>"

definition set_fifo_bytecount :: "u32 \<Rightarrow> net2280 \<Rightarrow> net2280" where
  "set_fifo_bytecount count s = s\<lparr>ep_cfg2 := ucast count\<rparr>"

definition set_halt :: "net2280_bits \<Rightarrow> net2280 \<Rightarrow> net2280" where
  "set_halt b s =
     s\<lparr>ep_rsp := ep_rsp s @ [BIT1 (CLEAR_CONTROL_STATUS_PHASE_HANDSHAKE b) OR
        push_bit (SET_NAK_OUT_PACKETS b) (of_bool (chiprev s = CHIPREV_1)) OR BIT1 (SET_ENDPOINT_HALT b)]\<rparr>"

definition clear_halt :: "net2280_bits \<Rightarrow> net2280 \<Rightarrow> net2280" where
  "clear_halt b s =
     s\<lparr>ep_rsp := ep_rsp s @ [BIT1 (CLEAR_ENDPOINT_HALT b) OR BIT1 (CLEAR_ENDPOINT_TOGGLE b) OR
        push_bit (CLEAR_NAK_OUT_PACKETS b) (of_bool (chiprev s = CHIPREV_1))]\<rparr>"

datatype led_speed = USB_SPEED_HIGH | USB_SPEED_FULL | USB_SPEED_OTHER

definition net2280_led_speed :: "net2280_bits \<Rightarrow> led_speed \<Rightarrow> net2280 \<Rightarrow> net2280" where
  "net2280_led_speed b speed s =
     (let val = gpioctl s;
          val = (case speed of
            USB_SPEED_HIGH \<Rightarrow> (val AND NOT (BIT1 (GPIO0_DATA b))) OR BIT1 (GPIO1_DATA b)
          | USB_SPEED_FULL \<Rightarrow> (val AND NOT (BIT1 (GPIO1_DATA b))) OR BIT1 (GPIO0_DATA b)
          | USB_SPEED_OTHER \<Rightarrow> val AND NOT (BIT1 (GPIO1_DATA b) OR BIT1 (GPIO0_DATA b)))
      in s\<lparr>gpioctl := val\<rparr>)"

text \<open>Here the number of the bit is used as a mask.\<close>

definition net2280_led_active :: "net2280_bits \<Rightarrow> bool \<Rightarrow> net2280 \<Rightarrow> net2280" where
  "net2280_led_active b is_active s =
     (let val = gpioctl s
      in s\<lparr>gpioctl := (if is_active then val OR of_nat (GPIO2_DATA b) else val AND NOT (of_nat (GPIO2_DATA b)))\<rparr>)"

definition net2280_led_shutdown :: "net2280 \<Rightarrow> net2280" where
  "net2280_led_shutdown s = s\<lparr>gpioctl := gpioctl s AND NOT 0x0f\<rparr>"

definition start_out_naking :: "net2280_bits \<Rightarrow> net2280 \<Rightarrow> net2280" where
  "start_out_naking b s = s\<lparr>ep_rsp := ep_rsp s @ [BIT1 (SET_NAK_OUT_PACKETS b)]\<rparr>"

definition assert_out_naking :: "net2280_bits \<Rightarrow> net2280 \<Rightarrow> net2280" where
  "assert_out_naking b s =
     (if ep_stat s AND BIT1 (NAK_OUT_PACKETS b) = 0 then s\<lparr>ep_rsp := ep_rsp s @ [BIT1 (SET_NAK_OUT_PACKETS b)]\<rparr> else s)"

definition stop_out_naking :: "net2280_bits \<Rightarrow> net2280 \<Rightarrow> net2280" where
  "stop_out_naking b s =
     (if ep_stat s AND BIT1 (NAK_OUT_PACKETS b) \<noteq> 0 then s\<lparr>ep_rsp := ep_rsp s @ [BIT1 (CLEAR_NAK_OUT_PACKETS b)]\<rparr> else s)"

lemma idx_reg_round_trip: "fst (get_idx_reg i (set_idx_reg i v s)) = v" "i \<noteq> j \<Longrightarrow> fst (get_idx_reg j (set_idx_reg i v s)) = fst (get_idx_reg j s)"
  by (simp_all add: get_idx_reg_def set_idx_reg_def Let_def)

lemma bit_BIT1: "bit (BIT1 n) k \<longleftrightarrow> k = n \<and> n < 32"
  by (auto simp: BIT1_def bit_simps)

lemma and_BIT1: "w AND BIT1 n = 0 \<longleftrightarrow> \<not> (bit w n \<and> n < 32)"
proof
  show "\<not> (bit w n \<and> n < 32)" if "w AND BIT1 n = 0"
    using arg_cong [OF that, of "\<lambda>x. bit x n"] by (simp add: bit_and_iff bit_BIT1)
  show "w AND BIT1 n = 0" if "\<not> (bit w n \<and> n < 32)"
    by (rule u32_eqI) (use that in \<open>auto simp: bit_and_iff bit_BIT1\<close>)
qed

text \<open>The response register is only written when it has to be: \<open>stop_out_naking\<close> exactly while the endpoint is naking, and the check
  of the debugging version exactly while it is not.\<close>

lemma naking_writes:
  assumes "NAK_OUT_PACKETS b < 32"
  shows "ep_rsp (stop_out_naking b s) = ep_rsp s @ (if bit (ep_stat s) (NAK_OUT_PACKETS b) then [BIT1 (CLEAR_NAK_OUT_PACKETS b)] else [])"
    "ep_rsp (assert_out_naking b s) = ep_rsp s @ (if bit (ep_stat s) (NAK_OUT_PACKETS b) then [] else [BIT1 (SET_NAK_OUT_PACKETS b)])"
  using assms by (simp_all add: stop_out_naking_def assert_out_naking_def and_BIT1)

text \<open>The speed LEDs show green, red or nothing.\<close>

lemma led_speed_shows:
  assumes "GPIO0_DATA b < 32" and "GPIO1_DATA b < 32" and "GPIO0_DATA b \<noteq> GPIO1_DATA b"
  shows "bit (gpioctl (net2280_led_speed b speed s)) (GPIO1_DATA b) \<longleftrightarrow> speed = USB_SPEED_HIGH"
    "bit (gpioctl (net2280_led_speed b speed s)) (GPIO0_DATA b) \<longleftrightarrow> speed = USB_SPEED_FULL"
  using assms by (cases speed; simp add: net2280_led_speed_def Let_def bit_simps bit_BIT1)+

text \<open>With the data bits of the four GPIOs in the lowest four bits, as the shutdown has them, the LED that is to show activity is never
  changed: switching it on or off changes the bit of GPIO 1 instead, one of the two LEDs that show the speed.\<close>

theorem net2280_led_active_wrong:
  assumes "GPIO1_DATA b = 1" and "GPIO2_DATA b = 2"
  shows "bit (gpioctl (net2280_led_active b on s)) (GPIO2_DATA b) = bit (gpioctl s) (GPIO2_DATA b) \<and>
     bit (gpioctl (net2280_led_active b on s)) (GPIO1_DATA b) = on"
  using assms by (simp add: net2280_led_active_def Let_def bit_simps)

theorem net2280_led_active_wrong_witness:
  "\<exists>s'. net2280_led_active \<lparr>CLEAR_CONTROL_STATUS_PHASE_HANDSHAKE = 3, CLEAR_NAK_OUT_PACKETS = 7, CLEAR_NAK_OUT_PACKETS_MODE = 6, SET_NAK_OUT_PACKETS = 15,
       SET_ENDPOINT_HALT = 8, CLEAR_ENDPOINT_HALT = 0, CLEAR_ENDPOINT_TOGGLE = 1, NAK_OUT_PACKETS = 17, GPIO0_DATA = 0, GPIO1_DATA = 1, GPIO2_DATA = 2\<rparr> True
     \<lparr>ep_rsp = [], ep_stat = 0, ep_cfg2 = 0, stopped = False, chiprev = CHIPREV_1, gpioctl = 0, idxaddr = 0, idxregs = (\<lambda>_. 0)\<rparr> = s' \<and>
     \<not> bit (gpioctl s') 2 \<and> bit (gpioctl s') 1"
  using net2280_led_active_wrong [of "\<lparr>CLEAR_CONTROL_STATUS_PHASE_HANDSHAKE = 3, CLEAR_NAK_OUT_PACKETS = 7, CLEAR_NAK_OUT_PACKETS_MODE = 6, SET_NAK_OUT_PACKETS = 15,
       SET_ENDPOINT_HALT = 8, CLEAR_ENDPOINT_HALT = 0, CLEAR_ENDPOINT_TOGGLE = 1, NAK_OUT_PACKETS = 17, GPIO0_DATA = 0, GPIO1_DATA = 1, GPIO2_DATA = 2\<rparr>" True
     "\<lparr>ep_rsp = [], ep_stat = 0, ep_cfg2 = 0, stopped = False, chiprev = CHIPREV_1, gpioctl = 0, idxaddr = 0, idxregs = (\<lambda>_. 0)\<rparr>"] by simp

section \<open>PXA27x\<close>

text \<open>The addresses of an endpoint's registers; there are 24 endpoints.\<close>

definition UDCCSRn :: "nat \<Rightarrow> nat" where "UDCCSRn x = 0x0100 + x * 2 ^ 2"
definition UDCBCRn :: "nat \<Rightarrow> nat" where "UDCBCRn x = 0x0200 + x * 2 ^ 2"
definition UDCDRn :: "nat \<Rightarrow> nat" where "UDCDRn x = 0x0300 + x * 2 ^ 2"
definition UDCCRn :: "nat \<Rightarrow> nat" where "UDCCRn x = 0x0400 + x * 2 ^ 2"

definition pxa_dev_offsets :: "nat list" where
  "pxa_dev_offsets = [0x0000, 0x0004, 0x0008, 0x000C, 0x0010, 0x0014, 0x0018, 0x0020, 0x0024]"

definition pxa_addresses :: "nat list" where
  "pxa_addresses = pxa_dev_offsets @ map UDCCSRn [0..<24] @ map UDCBCRn [0..<24] @ map UDCDRn [0..<24] @ map UDCCRn [0..<24]"

lemma pxa_addresses_distinct: "sorted_wrt (<) pxa_addresses"
  by (simp add: pxa_addresses_def pxa_dev_offsets_def UDCCSRn_def UDCBCRn_def UDCDRn_def UDCCRn_def upt_conv_Cons sorted_wrt2 sorted_wrt1
      del: sorted_wrt.simps)

definition pxa_udccr :: "(string \<times> u32 \<times> nat) list" where
  "pxa_udccr =
    [(''UDCCR_OEN'', push_bit 31 1, 31),
     (''UDCCR_AALTHNP'', push_bit 30 1, 30),
     (''UDCCR_AHNP'', push_bit 29 1, 29),
     (''UDCCR_BHNP'', push_bit 28 1, 28),
     (''UDCCR_DWRE'', push_bit 16 1, 16),
     (''UDCCR_ACN'', push_bit 11 0x03, 11),
     (''UDCCR_AIN'', push_bit 8 0x07, 8),
     (''UDCCR_AAISN'', push_bit 5 0x07, 5),
     (''UDCCR_SMAC'', push_bit 4 1, 4),
     (''UDCCR_EMCE'', push_bit 3 1, 3),
     (''UDCCR_UDR'', push_bit 2 1, 2),
     (''UDCCR_UDA'', push_bit 1 1, 1),
     (''UDCCR_UDE'', push_bit 0 1, 0)]"

definition pxa_udcconr :: "(string \<times> u32 \<times> nat) list" where
  "pxa_udcconr =
    [(''UDCCONR_CN'', push_bit 25 0x03, 25),
     (''UDCCONR_IN'', push_bit 22 0x07, 22),
     (''UDCCONR_AISN'', push_bit 19 0x07, 19),
     (''UDCCONR_EN'', push_bit 15 0x0f, 15),
     (''UDCCONR_ET'', push_bit 13 0x03, 13),
     (''UDCCONR_ED'', push_bit 12 1, 12),
     (''UDCCONR_MPS'', push_bit 2 0x3ff, 2),
     (''UDCCONR_DE'', push_bit 1 1, 1),
     (''UDCCONR_EE'', push_bit 0 1, 0)]"

definition pxa_up2ocr :: "(string \<times> nat) list" where
  "pxa_up2ocr =
    [(''UP2OCR_CPVEN'', 0),
     (''UP2OCR_CPVPE'', 1),
     (''UP2OCR_DPPDE'', 2),
     (''UP2OCR_DMPDE'', 3),
     (''UP2OCR_DPPUE'', 4),
     (''UP2OCR_DMPUE'', 5),
     (''UP2OCR_DPPUBE'', 6),
     (''UP2OCR_DMPUBE'', 7),
     (''UP2OCR_EXSP'', 8),
     (''UP2OCR_EXSUS'', 9),
     (''UP2OCR_IDON'', 10),
     (''UP2OCR_HXS'', 16),
     (''UP2OCR_HXOE'', 17),
     (''UP2OCR_SEOS'', 24)]"

definition pxa_udccsr0 :: "(string \<times> nat) list" where
  "pxa_udccsr0 =
    [(''UDCCSR0_ACM'', 9),
     (''UDCCSR0_AREN'', 8),
     (''UDCCSR0_SA'', 7),
     (''UDCCSR0_RNE'', 6),
     (''UDCCSR0_FST'', 5),
     (''UDCCSR0_SST'', 4),
     (''UDCCSR0_DME'', 3),
     (''UDCCSR0_FTF'', 2),
     (''UDCCSR0_IPR'', 1),
     (''UDCCSR0_OPC'', 0)]"

text \<open>The fields of the control register and of an endpoint's configuration have their masks at their shifts and do not overlap.\<close>

lemma pxa_fields_ok:
  "masks_apart 0 (map snd pxa_udccr) \<and> list_all mo_wf (map snd pxa_udccr)" "masks_apart 0 (map snd pxa_udcconr) \<and> list_all mo_wf (map snd pxa_udcconr)"
  by code_simp+

text \<open>The two interrupt bits of an endpoint; the same computation gives the bits of the enable and of the status registers. Endpoint \<open>n\<close>
  is in the first register below 16 and in the second one from 16 on.\<close>

definition UDCICR_INT :: "nat \<Rightarrow> u32 \<Rightarrow> u32" where
  "UDCICR_INT n intr = push_bit ((n AND 0x0F) * 2) (intr AND 0x03)"

definition UDCISR_INT :: "nat \<Rightarrow> u32 \<Rightarrow> u32" where
  "UDCISR_INT n intr = push_bit ((n AND 0x0F) * 2) (intr AND 0x03)"

lemma and_15_mod: "(n :: nat) AND 0x0F = n mod 16"
proof -
  have "(15 :: nat) = mask 4" by (simp add: mask_eq_exp_minus_1)
  then have "n AND 15 = take_bit 4 n" by (simp only: take_bit_eq_mask)
  then show ?thesis by (simp add: take_bit_eq_mod)
qed

lemma bit_and_3: "bit (x AND 3 :: u32) k \<longleftrightarrow> bit x k \<and> k < 2"
proof -
  have "(3 :: u32) = mask 2" by (simp add: mask_eq_exp_minus_1)
  then have "bit (x AND 3) k \<longleftrightarrow> bit (x AND mask 2) k" by (simp only:)
  then show ?thesis by (auto simp: bit_and_iff bit_mask_iff dest: bit_imp_le_length)
qed

lemma bit_UDCICR_INT:
  "bit (UDCICR_INT n intr) k \<longleftrightarrow> n mod 16 * 2 \<le> k \<and> k < n mod 16 * 2 + 2 \<and> bit intr (k - n mod 16 * 2)"
proof -
  have "n mod 16 * 2 + 2 \<le> 32" by simp
  then show ?thesis unfolding UDCICR_INT_def and_15_mod bit_push_bit_iff bit_and_3 by auto
qed

text \<open>The interrupt bits of the endpoints of one register do not overlap, they are the same in the enable and in the status register, and those
  of the second register, for the endpoints 16 to 23, are below the bits of the device's own interrupts.\<close>

theorem pxa_interrupt_bits:
  shows "UDCICR_INT n = UDCISR_INT n \<and> (n mod 16 \<noteq> k mod 16 \<longrightarrow> UDCICR_INT n x AND UDCICR_INT k y = 0) \<and>
     (16 \<le> n \<and> n < 24 \<longrightarrow> UDCICR_INT n x AND 0xF8000000 = 0)"
proof (intro conjI impI)
  show "UDCICR_INT n = UDCISR_INT n" by (simp add: fun_eq_iff UDCICR_INT_def UDCISR_INT_def)
  show "UDCICR_INT n x AND UDCICR_INT k y = 0" if "n mod 16 \<noteq> k mod 16"
    by (rule u32_eqI) (use that in \<open>auto simp: bit_and_iff bit_UDCICR_INT\<close>)
  show "UDCICR_INT n x AND 0xF8000000 = 0" if "16 \<le> n \<and> n < 24"
  proof -
    define d :: u32 where "d = 0xF8000000"
    have d: "d = push_bit 27 (mask 5)" by (simp add: d_def mask_eq_exp_minus_1)
    have "n mod 16 < 8" using that by presburger
    then have "UDCICR_INT n x AND d = 0" unfolding d by (intro u32_eqI) (auto simp: bit_simps bit_UDCICR_INT)
    then show ?thesis by (simp add: d_def)
  qed
qed

theorem pxa_interrupt_bits_witness:
  "UDCICR_INT 17 3 AND UDCICR_INT 18 3 = 0 \<and> UDCICR_INT 17 3 = 0xC"
proof -
  have "UDCICR_INT 17 3 = 0xC" by code_simp
  moreover have "17 mod 16 \<noteq> (18 mod 16 :: nat)" by simp
  then have "UDCICR_INT 17 3 AND UDCICR_INT 18 3 = 0" using pxa_interrupt_bits [of 17 18 3 3] by blast
  ultimately show ?thesis by blast
qed

text \<open>The endpoints of the driver. The members of \<^verbatim>\<open>pxa_ep\<close> are bit fields, so that what the macros put into them is cut to their width.\<close>

record pxa_ep =
  pe_idx :: nat
  pe_dir_in :: nat
  pe_addr :: nat
  pe_config :: nat
  pe_interface :: nat
  pe_alternate :: nat
  pe_type :: nat
  pe_fifo_size :: nat

definition PXA_EP_DEF :: "nat \<Rightarrow> nat \<Rightarrow> nat \<Rightarrow> nat \<Rightarrow> nat \<Rightarrow> nat \<Rightarrow> nat \<Rightarrow> nat \<Rightarrow> pxa_ep" where
  "PXA_EP_DEF idx addr dir type maxpkt config iface altset =
     \<lparr>pe_idx = idx mod 2 ^ 5, pe_dir_in = dir mod 2, pe_addr = addr mod 2 ^ 4, pe_config = config mod 2 ^ 2, pe_interface = iface mod 2 ^ 3,
      pe_alternate = altset mod 2 ^ 3, pe_type = type, pe_fifo_size = maxpkt\<rparr>"

text \<open>The transfer types of USB: isochronous 1, bulk 2, interrupt 3.\<close>

definition PXA_EP_BULK :: "nat \<Rightarrow> nat \<Rightarrow> nat \<Rightarrow> nat \<Rightarrow> nat \<Rightarrow> nat \<Rightarrow> pxa_ep" where
  "PXA_EP_BULK idx addr dir config iface alt = PXA_EP_DEF idx addr dir 2 64 config iface alt"
definition PXA_EP_ISO :: "nat \<Rightarrow> nat \<Rightarrow> nat \<Rightarrow> nat \<Rightarrow> nat \<Rightarrow> nat \<Rightarrow> pxa_ep" where
  "PXA_EP_ISO idx addr dir config iface alt = PXA_EP_DEF idx addr dir 1 256 config iface alt"
definition PXA_EP_INT :: "nat \<Rightarrow> nat \<Rightarrow> nat \<Rightarrow> nat \<Rightarrow> nat \<Rightarrow> nat \<Rightarrow> pxa_ep" where
  "PXA_EP_INT idx addr dir config iface alt = PXA_EP_DEF idx addr dir 3 16 config iface alt"
definition PXA_EP_CTRL :: pxa_ep where
  "PXA_EP_CTRL = PXA_EP_DEF 0 0 0 0 16 0 0 0"

text \<open>What the endpoint fields hold fits the fields of its configuration register, the maximal packet among it.\<close>

definition pxa_ep_fits :: "pxa_ep \<Rightarrow> bool" where
  "pxa_ep_fits e \<longleftrightarrow> pe_config e < 2 ^ ones (push_bit 25 0x03) \<and> pe_interface e < 2 ^ ones (push_bit 22 0x07) \<and>
     pe_alternate e < 2 ^ ones (push_bit 19 0x07) \<and> pe_addr e < 2 ^ ones (push_bit 15 0x0f) \<and> pe_type e < 2 ^ ones (push_bit 13 0x03) \<and>
     pe_dir_in e < 2 ^ ones (push_bit 12 1) \<and> pe_fifo_size e < 2 ^ ones (push_bit 2 0x3ff)"

lemma pxa_eps_fit:
  "pxa_ep_fits (PXA_EP_BULK i a d c f t)" "pxa_ep_fits (PXA_EP_ISO i a d c f t)" "pxa_ep_fits (PXA_EP_INT i a d c f t)" "pxa_ep_fits PXA_EP_CTRL"
proof -
  have "ones (push_bit 25 0x03) = 2" "ones (push_bit 22 0x07) = 3" "ones (push_bit 19 0x07) = 3" "ones (push_bit 15 0x0f) = 4"
    "ones (push_bit 13 0x03) = 2" "ones (push_bit 12 1) = 1" "ones (push_bit 2 0x3ff) = 10" by code_simp+
  then show "pxa_ep_fits (PXA_EP_BULK i a d c f t)" "pxa_ep_fits (PXA_EP_ISO i a d c f t)" "pxa_ep_fits (PXA_EP_INT i a d c f t)" "pxa_ep_fits PXA_EP_CTRL"
    by (simp_all add: pxa_ep_fits_def PXA_EP_BULK_def PXA_EP_ISO_def PXA_EP_INT_def PXA_EP_CTRL_def PXA_EP_DEF_def)
qed

end
