(* ===== verification/SysReg.thy ===== *)
theory SysReg
  imports RegField
begin

text \<open>
  \<^verbatim>\<open>src/uboot/app/boot/armv8/common/sysreg.h\<close>: the encoding of the system registers of ARMv8, the registers it names, the instructions that
  access them, and the fields of the identification registers; and \<^verbatim>\<open>src/uboot/app/boot/armv8/crash.c\<close>, the dump the bare-metal
  application prints for an exception, with the stubs of the C library in \<^verbatim>\<open>src/uboot/app/hello.c\<close> that only return a value.
\<close>

section \<open>The encoding\<close>

definition sys_reg :: "u32 \<Rightarrow> u32 \<Rightarrow> u32 \<Rightarrow> u32 \<Rightarrow> u32 \<Rightarrow> u32" where
  "sys_reg op0 op1 crn crm op2 = push_bit 19 op0 OR push_bit 16 op1 OR push_bit 12 crn OR push_bit 8 crm OR push_bit 5 op2"

definition sys_reg_Op0 :: "u32 \<Rightarrow> u32" where "sys_reg_Op0 i = drop_bit 19 i AND 0x3"
definition sys_reg_Op1 :: "u32 \<Rightarrow> u32" where "sys_reg_Op1 i = drop_bit 16 i AND 0x7"
definition sys_reg_CRn :: "u32 \<Rightarrow> u32" where "sys_reg_CRn i = drop_bit 12 i AND 0xf"
definition sys_reg_CRm :: "u32 \<Rightarrow> u32" where "sys_reg_CRm i = drop_bit 8 i AND 0xf"
definition sys_reg_Op2 :: "u32 \<Rightarrow> u32" where "sys_reg_Op2 i = drop_bit 5 i AND 0x7"

text \<open>The operands of an encoding, and those that fit.\<close>

definition operands :: "u32 \<Rightarrow> u32 \<times> u32 \<times> u32 \<times> u32 \<times> u32" where
  "operands i = (sys_reg_Op0 i, sys_reg_Op1 i, sys_reg_CRn i, sys_reg_CRm i, sys_reg_Op2 i)"

definition operands_ok :: "u32 \<Rightarrow> u32 \<Rightarrow> u32 \<Rightarrow> u32 \<Rightarrow> u32 \<Rightarrow> bool" where
  "operands_ok op0 op1 crn crm op2 \<longleftrightarrow> op0 < 2 ^ 2 \<and> op1 < 2 ^ 3 \<and> crn < 2 ^ 4 \<and> crm < 2 ^ 4 \<and> op2 < 2 ^ 3"

text \<open>The instructions that read a system register into a general register and write it from one.\<close>

definition mrs_s :: "u32 \<Rightarrow> u32 \<Rightarrow> u32" where "mrs_s rt sreg = 0xd5200000 OR sreg OR rt"
definition msr_s :: "u32 \<Rightarrow> u32 \<Rightarrow> u32" where "msr_s sreg rt = 0xd5000000 OR sreg OR rt"

definition REG_PSTATE_PAN_IMM :: u32 where "REG_PSTATE_PAN_IMM = sys_reg 0 0 4 0 4"
definition REG_PSTATE_UAO_IMM :: u32 where "REG_PSTATE_UAO_IMM = sys_reg 0 0 4 0 3"

definition SET_PSTATE_PAN :: "int \<Rightarrow> u32" where
  "SET_PSTATE_PAN x = 0xd5000000 OR REG_PSTATE_PAN_IMM OR push_bit 8 (of_bool (x \<noteq> 0)) OR 0x1f"
definition SET_PSTATE_UAO :: "int \<Rightarrow> u32" where
  "SET_PSTATE_UAO x = 0xd5000000 OR REG_PSTATE_UAO_IMM OR push_bit 8 (of_bool (x \<noteq> 0)) OR 0x1f"

text \<open>The byte order of an instruction on a big-endian processor.\<close>

definition INSTR_BSWAP :: "u32 \<Rightarrow> u32" where
  "INSTR_BSWAP x =
     (push_bit 24 x AND 0xff000000) OR (push_bit 8 x AND 0x00ff0000) OR (drop_bit 8 x AND 0x0000ff00) OR (drop_bit 24 x AND 0x000000ff)"

section \<open>Round trips\<close>

lemma small_bit:
  assumes "unat x < 2 ^ k" "bit (x :: u32) n"
  shows "n < k"
  using bit_high_False [of x k n] assms by (cases "n < k") auto

lemma operands_bits:
  assumes "operands_ok op0 op1 crn crm op2"
  shows "bit op0 n \<Longrightarrow> n < 2" "bit op1 n \<Longrightarrow> n < 3" "bit crn n \<Longrightarrow> n < 4" "bit crm n \<Longrightarrow> n < 4" "bit op2 n \<Longrightarrow> n < 3"
  using assms small_bit [of op0 2 n] small_bit [of op1 3 n] small_bit [of crn 4 n] small_bit [of crm 4 n] small_bit [of op2 3 n]
  by (simp_all add: operands_ok_def word_less_nat_alt)

lemma mask_consts: "(3 :: u32) = mask 2" "(7 :: u32) = mask 3" "(15 :: u32) = mask 4" "(31 :: u32) = mask 5"
  by (simp_all add: mask_eq_exp_minus_1)

text \<open>The operation code of an access has no bit among the operands and the general register.\<close>

lemma operands_or:
  assumes "\<And>k. bit c k \<Longrightarrow> k < 5 \<or> 20 < k"
  shows "operands (c OR i) = operands i"
proof -
  have "sys_reg_Op0 (c OR i) = sys_reg_Op0 i" "sys_reg_Op1 (c OR i) = sys_reg_Op1 i" "sys_reg_CRn (c OR i) = sys_reg_CRn i"
    "sys_reg_CRm (c OR i) = sys_reg_CRm i" "sys_reg_Op2 (c OR i) = sys_reg_Op2 i"
    unfolding sys_reg_Op0_def sys_reg_Op1_def sys_reg_CRn_def sys_reg_CRm_def sys_reg_Op2_def mask_consts
    by (rule u32_eqI; auto simp: bit_simps dest: assms)+
  then show ?thesis by (simp add: operands_def)
qed

lemma operands_sys_reg:
  assumes "operands_ok op0 op1 crn crm op2"
  shows "operands (sys_reg op0 op1 crn crm op2) = (op0, op1, crn, crm, op2)"
proof -
  have "sys_reg_Op0 (sys_reg op0 op1 crn crm op2) = op0" "sys_reg_Op1 (sys_reg op0 op1 crn crm op2) = op1"
    "sys_reg_CRn (sys_reg op0 op1 crn crm op2) = crn" "sys_reg_CRm (sys_reg op0 op1 crn crm op2) = crm"
    "sys_reg_Op2 (sys_reg op0 op1 crn crm op2) = op2"
    unfolding sys_reg_Op0_def sys_reg_Op1_def sys_reg_CRn_def sys_reg_CRm_def sys_reg_Op2_def sys_reg_def mask_consts
    by (rule u32_eqI; auto simp: bit_simps dest: operands_bits [OF assms])+
  then show ?thesis by (simp add: operands_def)
qed

lemma sys_reg_bit_range:
  assumes "operands_ok op0 op1 crn crm op2" "bit (sys_reg op0 op1 crn crm op2) n"
  shows "5 \<le> n \<and> n < 21"
  using assms(2) by (auto simp: sys_reg_def bit_simps dest: operands_bits [OF assms(1)])

lemma access_bits:
  "bit (0xd5000000 :: u32) n \<longleftrightarrow> n \<in> {24, 26, 28, 30, 31}" "bit (0xd5200000 :: u32) n \<longleftrightarrow> n \<in> {21, 24, 26, 28, 30, 31}"
proof -
  define z y where "z = (0xd5000000 :: u32)" and "y = (0xd5200000 :: u32)"
  have "z = 2 ^ 24 OR 2 ^ 26 OR 2 ^ 28 OR 2 ^ 30 OR 2 ^ 31" "y = 2 ^ 21 OR z" by (simp_all add: z_def y_def)
  then have "bit z n \<longleftrightarrow> n \<in> {24, 26, 28, 30, 31}" "bit y n \<longleftrightarrow> n \<in> {21, 24, 26, 28, 30, 31}"
    by (simp_all only: bit_or_iff bit_exp_iff possible_bit_word) auto
  then show "bit (0xd5000000 :: u32) n \<longleftrightarrow> n \<in> {24, 26, 28, 30, 31}" "bit (0xd5200000 :: u32) n \<longleftrightarrow> n \<in> {21, 24, 26, 28, 30, 31}"
    by (simp_all only: z_def y_def)
qed

text \<open>C38: The encoding of system registers loses nothing. The operands of an encoding are read back as they were given, from the
  encoding and from the instructions that read and write the register; the instruction also holds the number of the general
  register, and reading differs from writing in bit 21 only. So different operands have different encodings.\<close>

theorem sys_reg_round_trip:
  assumes "operands_ok op0 op1 crn crm op2" "rt < 32"
  defines "i \<equiv> sys_reg op0 op1 crn crm op2"
  shows "operands i = (op0, op1, crn, crm, op2) \<and> operands (mrs_s rt i) = (op0, op1, crn, crm, op2) \<and>
    operands (msr_s i rt) = (op0, op1, crn, crm, op2) \<and> mrs_s rt i AND 31 = rt \<and> msr_s i rt AND 31 = rt \<and>
    mrs_s rt i XOR msr_s i rt = 2 ^ 21"
proof -
  have rt: "bit rt n \<Longrightarrow> n < 5" for n using small_bit [of rt 5 n] assms(2) by (simp add: word_less_nat_alt)
  note i = sys_reg_bit_range [OF assms(1), folded i_def]
  define z y where "z = (0xd5000000 :: u32)" and "y = (0xd5200000 :: u32)"
  note zy = access_bits [folded z_def y_def]
  have "y OR i OR rt = (y OR rt) OR i" "z OR i OR rt = (z OR rt) OR i" by (simp_all add: ac_simps)
  moreover have "operands i = (op0, op1, crn, crm, op2)" using operands_sys_reg [OF assms(1)] by (simp add: i_def)
  ultimately have "operands (y OR i OR rt) = (op0, op1, crn, crm, op2)" "operands (z OR i OR rt) = (op0, op1, crn, crm, op2)"
    using operands_or [of "y OR rt" i] operands_or [of "z OR rt" i] by (force simp: bit_or_iff zy dest: rt)+
  moreover have "(y OR i OR rt) AND 31 = rt" "(z OR i OR rt) AND 31 = rt"
    unfolding mask_consts by (rule u32_eqI; auto simp: bit_and_iff bit_or_iff bit_mask_iff zy dest: rt i)+
  moreover have "(y OR i OR rt) XOR (z OR i OR rt) = 2 ^ 21"
    by (rule u32_eqI, simp only: bit_xor_iff bit_or_iff zy bit_exp_iff possible_bit_word, auto dest: rt i)
  ultimately show ?thesis using operands_sys_reg [OF assms(1)] by (simp add: mrs_s_def msr_s_def i_def flip: z_def y_def)
qed

theorem sys_reg_round_trip_witness:
  "operands (sys_reg 3 4 12 11 5) = (3, 4, 12, 11, 5) \<and> operands (mrs_s 7 (sys_reg 3 4 12 11 5)) = (3, 4, 12, 11, 5) \<and>
   operands (msr_s (sys_reg 3 4 12 11 5) 7) = (3, 4, 12, 11, 5) \<and> mrs_s 7 (sys_reg 3 4 12 11 5) AND 31 = 7 \<and>
   msr_s (sys_reg 3 4 12 11 5) 7 AND 31 = 7 \<and> mrs_s 7 (sys_reg 3 4 12 11 5) XOR msr_s (sys_reg 3 4 12 11 5) 7 = 2 ^ 21"
  by (rule sys_reg_round_trip) (simp_all add: operands_ok_def)

lemma INSTR_BSWAP_bit:
  "n < 32 \<Longrightarrow> bit (INSTR_BSWAP x) n =
     (if n < 8 then bit x (n + 24) else if n < 16 then bit x (n + 8) else if n < 24 then bit x (n - 8) else bit x (n - 24))"
proof -
  assume n: "n < 32"
  define a b c d where "a = (0xff000000 :: u32)" and "b = (0x00ff0000 :: u32)" and "c = (0x0000ff00 :: u32)" and "d = (0x000000ff :: u32)"
  have "a = push_bit 24 (mask 8)" "b = push_bit 16 (mask 8)" "c = push_bit 8 (mask 8)" "d = mask 8"
    by (simp_all add: a_def b_def c_def d_def mask_eq_exp_minus_1)
  then have bits: "bit a n \<longleftrightarrow> 24 \<le> n" "bit b n \<longleftrightarrow> 16 \<le> n \<and> n < 24" "bit c n \<longleftrightarrow> 8 \<le> n \<and> n < 16" "bit d n \<longleftrightarrow> n < 8"
    using n by (auto simp: bit_simps)
  show ?thesis using n
    unfolding INSTR_BSWAP_def a_def [symmetric] b_def [symmetric] c_def [symmetric] d_def [symmetric]
    by (simp add: bit_or_iff bit_and_iff bit_push_bit_iff bit_drop_bit_eq bits) (auto simp: add.commute)
qed

lemma INSTR_BSWAP_involution: "INSTR_BSWAP (INSTR_BSWAP x) = x"
  by (rule u32_eqI) (auto simp: INSTR_BSWAP_bit)

section \<open>The registers\<close>

text \<open>The registers that come in numbers.\<close>

definition SYS_DBGBVRn_EL1 :: "u32 \<Rightarrow> u32" where "SYS_DBGBVRn_EL1 n = sys_reg 2 0 0 n 4"
definition SYS_DBGBCRn_EL1 :: "u32 \<Rightarrow> u32" where "SYS_DBGBCRn_EL1 n = sys_reg 2 0 0 n 5"
definition SYS_DBGWVRn_EL1 :: "u32 \<Rightarrow> u32" where "SYS_DBGWVRn_EL1 n = sys_reg 2 0 0 n 6"
definition SYS_DBGWCRn_EL1 :: "u32 \<Rightarrow> u32" where "SYS_DBGWCRn_EL1 n = sys_reg 2 0 0 n 7"
definition SYS_ICC_AP0Rn_EL1 :: "u32 \<Rightarrow> u32" where "SYS_ICC_AP0Rn_EL1 n = sys_reg 3 0 12 8 (4 OR n)"
definition SYS_ICC_AP1Rn_EL1 :: "u32 \<Rightarrow> u32" where "SYS_ICC_AP1Rn_EL1 n = sys_reg 3 0 12 9 n"
definition SYS_AP0Rx_EL2 :: "u32 \<Rightarrow> u32" where "SYS_AP0Rx_EL2 x = sys_reg 3 4 12 8 x"
definition SYS_AP1Rx_EL2 :: "u32 \<Rightarrow> u32" where "SYS_AP1Rx_EL2 x = sys_reg 3 4 12 9 x"
definition SYS_LR0_EL2 :: "u32 \<Rightarrow> u32" where "SYS_LR0_EL2 x = sys_reg 3 4 12 12 x"
definition SYS_LR8_EL2 :: "u32 \<Rightarrow> u32" where "SYS_LR8_EL2 x = sys_reg 3 4 12 13 x"

definition PMEV_op2 :: "u32 \<Rightarrow> u32" where "PMEV_op2 n = n AND 0x7"
definition CNTR_CRm :: "u32 \<Rightarrow> u32" where "CNTR_CRm n = 0x8 OR (drop_bit 3 n AND 0x3)"
definition SYS_PMEVCNTRn_EL0 :: "u32 \<Rightarrow> u32" where "SYS_PMEVCNTRn_EL0 n = sys_reg 3 3 14 (CNTR_CRm n) (PMEV_op2 n)"
definition TYPER_CRm :: "u32 \<Rightarrow> u32" where "TYPER_CRm n = 0xc OR (drop_bit 3 n AND 0x3)"
definition SYS_PMEVTYPERn_EL0 :: "u32 \<Rightarrow> u32" where "SYS_PMEVTYPERn_EL0 n = sys_reg 3 3 14 (TYPER_CRm n) (PMEV_op2 n)"

text \<open>The registers with a name, in the order of the header.\<close>

definition sys_debug_regs :: "(string \<times> u32) list" where
  "sys_debug_regs =
    [(''SYS_DC_ISW'', sys_reg 1 0 7 6 2),
     (''SYS_DC_CSW'', sys_reg 1 0 7 10 2),
     (''SYS_DC_CISW'', sys_reg 1 0 7 14 2),
     (''SYS_OSDTRRX_EL1'', sys_reg 2 0 0 0 2),
     (''SYS_MDCCINT_EL1'', sys_reg 2 0 0 2 0),
     (''SYS_MDSCR_EL1'', sys_reg 2 0 0 2 2),
     (''SYS_OSDTRTX_EL1'', sys_reg 2 0 0 3 2),
     (''SYS_OSECCR_EL1'', sys_reg 2 0 0 6 2),
     (''SYS_MDRAR_EL1'', sys_reg 2 0 1 0 0),
     (''SYS_OSLAR_EL1'', sys_reg 2 0 1 0 4),
     (''SYS_OSLSR_EL1'', sys_reg 2 0 1 1 4),
     (''SYS_OSDLR_EL1'', sys_reg 2 0 1 3 4),
     (''SYS_DBGPRCR_EL1'', sys_reg 2 0 1 4 4),
     (''SYS_DBGCLAIMSET_EL1'', sys_reg 2 0 7 8 6),
     (''SYS_DBGCLAIMCLR_EL1'', sys_reg 2 0 7 9 6),
     (''SYS_DBGAUTHSTATUS_EL1'', sys_reg 2 0 7 14 6),
     (''SYS_MDCCSR_EL0'', sys_reg 2 3 0 1 0),
     (''SYS_DBGDTR_EL0'', sys_reg 2 3 0 4 0),
     (''SYS_DBGDTRRX_EL0'', sys_reg 2 3 0 5 0),
     (''SYS_DBGDTRTX_EL0'', sys_reg 2 3 0 5 0),
     (''SYS_DBGVCR32_EL2'', sys_reg 2 4 0 7 0)]"

definition sys_id_regs :: "(string \<times> u32) list" where
  "sys_id_regs =
    [(''SYS_MIDR_EL1'', sys_reg 3 0 0 0 0),
     (''SYS_MPIDR_EL1'', sys_reg 3 0 0 0 5),
     (''SYS_REVIDR_EL1'', sys_reg 3 0 0 0 6),
     (''SYS_ID_PFR0_EL1'', sys_reg 3 0 0 1 0),
     (''SYS_ID_PFR1_EL1'', sys_reg 3 0 0 1 1),
     (''SYS_ID_DFR0_EL1'', sys_reg 3 0 0 1 2),
     (''SYS_ID_AFR0_EL1'', sys_reg 3 0 0 1 3),
     (''SYS_ID_MMFR0_EL1'', sys_reg 3 0 0 1 4),
     (''SYS_ID_MMFR1_EL1'', sys_reg 3 0 0 1 5),
     (''SYS_ID_MMFR2_EL1'', sys_reg 3 0 0 1 6),
     (''SYS_ID_MMFR3_EL1'', sys_reg 3 0 0 1 7),
     (''SYS_ID_ISAR0_EL1'', sys_reg 3 0 0 2 0),
     (''SYS_ID_ISAR1_EL1'', sys_reg 3 0 0 2 1),
     (''SYS_ID_ISAR2_EL1'', sys_reg 3 0 0 2 2),
     (''SYS_ID_ISAR3_EL1'', sys_reg 3 0 0 2 3),
     (''SYS_ID_ISAR4_EL1'', sys_reg 3 0 0 2 4),
     (''SYS_ID_ISAR5_EL1'', sys_reg 3 0 0 2 5),
     (''SYS_ID_MMFR4_EL1'', sys_reg 3 0 0 2 6),
     (''SYS_MVFR0_EL1'', sys_reg 3 0 0 3 0),
     (''SYS_MVFR1_EL1'', sys_reg 3 0 0 3 1),
     (''SYS_MVFR2_EL1'', sys_reg 3 0 0 3 2),
     (''SYS_ID_AA64PFR0_EL1'', sys_reg 3 0 0 4 0),
     (''SYS_ID_AA64PFR1_EL1'', sys_reg 3 0 0 4 1),
     (''SYS_ID_AA64DFR0_EL1'', sys_reg 3 0 0 5 0),
     (''SYS_ID_AA64DFR1_EL1'', sys_reg 3 0 0 5 1),
     (''SYS_ID_AA64ISAR0_EL1'', sys_reg 3 0 0 6 0),
     (''SYS_ID_AA64ISAR1_EL1'', sys_reg 3 0 0 6 1),
     (''SYS_ID_AA64MMFR0_EL1'', sys_reg 3 0 0 7 0),
     (''SYS_ID_AA64MMFR1_EL1'', sys_reg 3 0 0 7 1),
     (''SYS_ID_AA64MMFR2_EL1'', sys_reg 3 0 0 7 2)]"

definition sys_control_regs :: "(string \<times> u32) list" where
  "sys_control_regs =
    [(''SYS_SCTLR_EL1'', sys_reg 3 0 1 0 0),
     (''SYS_ACTLR_EL1'', sys_reg 3 0 1 0 1),
     (''SYS_CPACR_EL1'', sys_reg 3 0 1 0 2),
     (''SYS_TTBR0_EL1'', sys_reg 3 0 2 0 0),
     (''SYS_TTBR1_EL1'', sys_reg 3 0 2 0 1),
     (''SYS_TCR_EL1'', sys_reg 3 0 2 0 2),
     (''SYS_ICC_PMR_EL1'', sys_reg 3 0 4 6 0),
     (''SYS_AFSR0_EL1'', sys_reg 3 0 5 1 0),
     (''SYS_AFSR1_EL1'', sys_reg 3 0 5 1 1),
     (''SYS_ESR_EL1'', sys_reg 3 0 5 2 0),
     (''SYS_FAR_EL1'', sys_reg 3 0 6 0 0),
     (''SYS_PAR_EL1'', sys_reg 3 0 7 4 0),
     (''SYS_PMINTENSET_EL1'', sys_reg 3 0 9 14 1),
     (''SYS_PMINTENCLR_EL1'', sys_reg 3 0 9 14 2),
     (''SYS_MAIR_EL1'', sys_reg 3 0 10 2 0),
     (''SYS_AMAIR_EL1'', sys_reg 3 0 10 3 0),
     (''SYS_VBAR_EL1'', sys_reg 3 0 12 0 0)]"

definition sys_gic_regs :: "(string \<times> u32) list" where
  "sys_gic_regs =
    [(''SYS_ICC_IAR0_EL1'', sys_reg 3 0 12 8 0),
     (''SYS_ICC_EOIR0_EL1'', sys_reg 3 0 12 8 1),
     (''SYS_ICC_HPPIR0_EL1'', sys_reg 3 0 12 8 2),
     (''SYS_ICC_BPR0_EL1'', sys_reg 3 0 12 8 3),
     (''SYS_ICC_AP0R0_EL1'', SYS_ICC_AP0Rn_EL1 0),
     (''SYS_ICC_AP0R1_EL1'', SYS_ICC_AP0Rn_EL1 1),
     (''SYS_ICC_AP0R2_EL1'', SYS_ICC_AP0Rn_EL1 2),
     (''SYS_ICC_AP0R3_EL1'', SYS_ICC_AP0Rn_EL1 3),
     (''SYS_ICC_AP1R0_EL1'', SYS_ICC_AP1Rn_EL1 0),
     (''SYS_ICC_AP1R1_EL1'', SYS_ICC_AP1Rn_EL1 1),
     (''SYS_ICC_AP1R2_EL1'', SYS_ICC_AP1Rn_EL1 2),
     (''SYS_ICC_AP1R3_EL1'', SYS_ICC_AP1Rn_EL1 3),
     (''SYS_ICC_DIR_EL1'', sys_reg 3 0 12 11 1),
     (''SYS_ICC_RPR_EL1'', sys_reg 3 0 12 11 3),
     (''SYS_ICC_SGI1R_EL1'', sys_reg 3 0 12 11 5),
     (''SYS_ICC_IAR1_EL1'', sys_reg 3 0 12 12 0),
     (''SYS_ICC_EOIR1_EL1'', sys_reg 3 0 12 12 1),
     (''SYS_ICC_HPPIR1_EL1'', sys_reg 3 0 12 12 2),
     (''SYS_ICC_BPR1_EL1'', sys_reg 3 0 12 12 3),
     (''SYS_ICC_CTLR_EL1'', sys_reg 3 0 12 12 4),
     (''SYS_ICC_SRE_EL1'', sys_reg 3 0 12 12 5),
     (''SYS_ICC_IGRPEN0_EL1'', sys_reg 3 0 12 12 6),
     (''SYS_ICC_IGRPEN1_EL1'', sys_reg 3 0 12 12 7),
     (''SYS_CONTEXTIDR_EL1'', sys_reg 3 0 13 0 1),
     (''SYS_TPIDR_EL1'', sys_reg 3 0 13 0 4),
     (''SYS_CNTKCTL_EL1'', sys_reg 3 0 14 1 0)]"

definition sys_el0_regs :: "(string \<times> u32) list" where
  "sys_el0_regs =
    [(''SYS_CLIDR_EL1'', sys_reg 3 1 0 0 1),
     (''SYS_AIDR_EL1'', sys_reg 3 1 0 0 7),
     (''SYS_CSSELR_EL1'', sys_reg 3 2 0 0 0),
     (''SYS_CTR_EL0'', sys_reg 3 3 0 0 1),
     (''SYS_DCZID_EL0'', sys_reg 3 3 0 0 7),
     (''SYS_PMCR_EL0'', sys_reg 3 3 9 12 0),
     (''SYS_PMCNTENSET_EL0'', sys_reg 3 3 9 12 1),
     (''SYS_PMCNTENCLR_EL0'', sys_reg 3 3 9 12 2),
     (''SYS_PMOVSCLR_EL0'', sys_reg 3 3 9 12 3),
     (''SYS_PMSWINC_EL0'', sys_reg 3 3 9 12 4),
     (''SYS_PMSELR_EL0'', sys_reg 3 3 9 12 5),
     (''SYS_PMCEID0_EL0'', sys_reg 3 3 9 12 6),
     (''SYS_PMCEID1_EL0'', sys_reg 3 3 9 12 7),
     (''SYS_PMCCNTR_EL0'', sys_reg 3 3 9 13 0),
     (''SYS_PMXEVTYPER_EL0'', sys_reg 3 3 9 13 1),
     (''SYS_PMXEVCNTR_EL0'', sys_reg 3 3 9 13 2),
     (''SYS_PMUSERENR_EL0'', sys_reg 3 3 9 14 0),
     (''SYS_PMOVSSET_EL0'', sys_reg 3 3 9 14 3),
     (''SYS_TPIDR_EL0'', sys_reg 3 3 13 0 2),
     (''SYS_TPIDRRO_EL0'', sys_reg 3 3 13 0 3),
     (''SYS_CNTFRQ_EL0'', sys_reg 3 3 14 0 0),
     (''SYS_CNTP_TVAL_EL0'', sys_reg 3 3 14 2 0),
     (''SYS_CNTP_CTL_EL0'', sys_reg 3 3 14 2 1),
     (''SYS_CNTP_CVAL_EL0'', sys_reg 3 3 14 2 2)]"

definition sys_el2_regs :: "(string \<times> u32) list" where
  "sys_el2_regs =
    [(''SYS_PMCCFILTR_EL0'', sys_reg 3 3 14 15 7),
     (''SYS_DACR32_EL2'', sys_reg 3 4 3 0 0),
     (''SYS_IFSR32_EL2'', sys_reg 3 4 5 0 1),
     (''SYS_FPEXC32_EL2'', sys_reg 3 4 5 3 0),
     (''SYS_ICH_AP0R0_EL2'', SYS_AP0Rx_EL2 0),
     (''SYS_ICH_AP0R1_EL2'', SYS_AP0Rx_EL2 1),
     (''SYS_ICH_AP0R2_EL2'', SYS_AP0Rx_EL2 2),
     (''SYS_ICH_AP0R3_EL2'', SYS_AP0Rx_EL2 3),
     (''SYS_ICH_AP1R0_EL2'', SYS_AP1Rx_EL2 0),
     (''SYS_ICH_AP1R1_EL2'', SYS_AP1Rx_EL2 1),
     (''SYS_ICH_AP1R2_EL2'', SYS_AP1Rx_EL2 2),
     (''SYS_ICH_AP1R3_EL2'', SYS_AP1Rx_EL2 3),
     (''SYS_ICH_VSEIR_EL2'', sys_reg 3 4 12 9 4),
     (''SYS_ICC_SRE_EL2'', sys_reg 3 4 12 9 5),
     (''SYS_ICH_HCR_EL2'', sys_reg 3 4 12 11 0),
     (''SYS_ICH_VTR_EL2'', sys_reg 3 4 12 11 1),
     (''SYS_ICH_MISR_EL2'', sys_reg 3 4 12 11 2),
     (''SYS_ICH_EISR_EL2'', sys_reg 3 4 12 11 3),
     (''SYS_ICH_ELSR_EL2'', sys_reg 3 4 12 11 5),
     (''SYS_ICH_VMCR_EL2'', sys_reg 3 4 12 11 7),
     (''SYS_ICH_LR0_EL2'', SYS_LR0_EL2 0),
     (''SYS_ICH_LR1_EL2'', SYS_LR0_EL2 1),
     (''SYS_ICH_LR2_EL2'', SYS_LR0_EL2 2),
     (''SYS_ICH_LR3_EL2'', SYS_LR0_EL2 3),
     (''SYS_ICH_LR4_EL2'', SYS_LR0_EL2 4),
     (''SYS_ICH_LR5_EL2'', SYS_LR0_EL2 5),
     (''SYS_ICH_LR6_EL2'', SYS_LR0_EL2 6),
     (''SYS_ICH_LR7_EL2'', SYS_LR0_EL2 7),
     (''SYS_ICH_LR8_EL2'', SYS_LR8_EL2 0),
     (''SYS_ICH_LR9_EL2'', SYS_LR8_EL2 1),
     (''SYS_ICH_LR10_EL2'', SYS_LR8_EL2 2),
     (''SYS_ICH_LR11_EL2'', SYS_LR8_EL2 3),
     (''SYS_ICH_LR12_EL2'', SYS_LR8_EL2 4),
     (''SYS_ICH_LR13_EL2'', SYS_LR8_EL2 5),
     (''SYS_ICH_LR14_EL2'', SYS_LR8_EL2 6),
     (''SYS_ICH_LR15_EL2'', SYS_LR8_EL2 7)]"

definition sys_regs :: "(string \<times> u32) list" where
  "sys_regs = sys_debug_regs @ sys_id_regs @ sys_control_regs @ sys_gic_regs @ sys_el0_regs @ sys_el2_regs"

text \<open>The encodings of the registers that come in numbers: breakpoints and watchpoints, event counters.\<close>

definition sys_numbered :: "u32 list" where
  "sys_numbered =
     concat (map (\<lambda>n. [SYS_DBGBVRn_EL1 n, SYS_DBGBCRn_EL1 n, SYS_DBGWVRn_EL1 n, SYS_DBGWCRn_EL1 n]) (map of_nat [0..<16])) @
     map SYS_PMEVCNTRn_EL0 (map of_nat [0..<31]) @ map SYS_PMEVTYPERn_EL0 (map of_nat [0..<31])"

text \<open>The encodings in order, without repetitions of the one before.\<close>

definition sys_codes :: "u32 list" where
  "sys_codes = remdups_adj (map snd sys_regs)"

fun ascending :: "u32 list \<Rightarrow> bool" where
  "ascending (x # y # xs) = (x < y \<and> ascending (y # xs))"
| "ascending _ = True"

lemma ascending_sorted: "ascending xs \<Longrightarrow> sorted_wrt (<) xs"
proof (induction xs rule: ascending.induct)
  case (1 x y xs)
  then have "sorted_wrt (<) (y # xs)" "x < y" by simp_all
  then show ?case by (auto intro: less_trans)
qed simp_all

lemma ascending_distinct: "ascending xs \<Longrightarrow> distinct xs"
  using ascending_sorted [of xs] by (simp add: strict_sorted_iff)

text \<open>Two ascending lists without a common element.\<close>

fun merge_apart :: "u32 list \<Rightarrow> u32 list \<Rightarrow> bool" where
  "merge_apart (x # xs) (y # ys) =
     (if x < y then merge_apart xs (y # ys) else if y < x then merge_apart (x # xs) ys else False)"
| "merge_apart _ _ = True"

lemma merge_apart_disjoint: "merge_apart xs ys \<Longrightarrow> sorted_wrt (<) xs \<Longrightarrow> sorted_wrt (<) ys \<Longrightarrow> set xs \<inter> set ys = {}"
  by (induction xs ys rule: merge_apart.induct) (auto split: if_splits)

lemmas sys_macros = SYS_ICC_AP0Rn_EL1_def SYS_ICC_AP1Rn_EL1_def SYS_AP0Rx_EL2_def SYS_AP1Rx_EL2_def SYS_LR0_EL2_def SYS_LR8_EL2_def

lemma sys_debug_regs_codes: "map snd sys_debug_regs =
    [554560, 555584, 556608, 1048640, 1049088, 1049152, 1049408, 1050176, 1052672, 1052800, 1053056, 1053568, 1053824,
     1079488, 1079744, 1081024, 1245440, 1246208, 1246464, 1246464, 1312512]"
  unfolding sys_debug_regs_def list.map snd_conv sys_macros sys_reg_def by simp

lemma sys_id_regs_codes: "map snd sys_id_regs =
    [1572864, 1573024, 1573056, 1573120, 1573152, 1573184, 1573216, 1573248, 1573280, 1573312, 1573344, 1573376, 1573408,
     1573440, 1573472, 1573504, 1573536, 1573568, 1573632, 1573664, 1573696, 1573888, 1573920, 1574144, 1574176, 1574400,
     1574432, 1574656, 1574688, 1574720]"
  unfolding sys_id_regs_def list.map snd_conv sys_macros sys_reg_def by simp

lemma sys_control_regs_codes: "map snd sys_control_regs =
    [1576960, 1576992, 1577024, 1581056, 1581088, 1581120, 1590784, 1593600, 1593632, 1593856, 1597440, 1602560, 1613344,
     1613376, 1614336, 1614592, 1622016]"
  unfolding sys_control_regs_def list.map snd_conv sys_macros sys_reg_def by simp

lemma sys_gic_regs_codes: "map snd sys_gic_regs =
    [1624064, 1624096, 1624128, 1624160, 1624192, 1624224, 1624256, 1624288, 1624320, 1624352, 1624384, 1624416, 1624864,
     1624928, 1624992, 1625088, 1625120, 1625152, 1625184, 1625216, 1625248, 1625280, 1625312, 1626144, 1626240, 1630464]"
  unfolding sys_gic_regs_def list.map snd_conv sys_macros sys_reg_def by simp

lemma sys_el0_regs_codes: "map snd sys_el0_regs =
    [1638432, 1638624, 1703936, 1769504, 1769696, 1809408, 1809440, 1809472, 1809504, 1809536, 1809568, 1809600, 1809632,
     1809664, 1809696, 1809728, 1809920, 1810016, 1822784, 1822816, 1826816, 1827328, 1827360, 1827392]"
  unfolding sys_el0_regs_def list.map snd_conv sys_macros sys_reg_def by simp

lemma sys_el2_regs_codes: "map snd sys_el2_regs =
    [1830880, 1847296, 1855520, 1856256, 1886208, 1886240, 1886272, 1886304, 1886464, 1886496, 1886528, 1886560, 1886592,
     1886624, 1886976, 1887008, 1887040, 1887072, 1887136, 1887200, 1887232, 1887264, 1887296, 1887328, 1887360, 1887392,
     1887424, 1887456, 1887488, 1887520, 1887552, 1887584, 1887616, 1887648, 1887680, 1887712]"
  unfolding sys_el2_regs_def list.map snd_conv sys_macros sys_reg_def by simp

lemmas sys_code_lists = sys_debug_regs_codes sys_id_regs_codes sys_control_regs_codes sys_gic_regs_codes sys_el0_regs_codes sys_el2_regs_codes

lemma sys_codes_eq: "sys_codes = remdups_adj ([554560, 555584, 556608, 1048640, 1049088, 1049152, 1049408, 1050176, 1052672, 1052800, 1053056, 1053568, 1053824,
     1079488, 1079744, 1081024, 1245440, 1246208, 1246464, 1246464, 1312512, 1572864, 1573024, 1573056, 1573120, 1573152,
     1573184, 1573216, 1573248, 1573280, 1573312, 1573344, 1573376, 1573408, 1573440, 1573472, 1573504, 1573536, 1573568,
     1573632, 1573664, 1573696, 1573888, 1573920, 1574144, 1574176, 1574400, 1574432, 1574656, 1574688, 1574720, 1576960,
     1576992, 1577024, 1581056, 1581088, 1581120, 1590784, 1593600, 1593632, 1593856, 1597440, 1602560, 1613344, 1613376,
     1614336, 1614592, 1622016, 1624064, 1624096, 1624128, 1624160, 1624192, 1624224, 1624256, 1624288, 1624320, 1624352,
     1624384, 1624416, 1624864, 1624928, 1624992, 1625088, 1625120, 1625152, 1625184, 1625216, 1625248, 1625280, 1625312,
     1626144, 1626240, 1630464, 1638432, 1638624, 1703936, 1769504, 1769696, 1809408, 1809440, 1809472, 1809504, 1809536,
     1809568, 1809600, 1809632, 1809664, 1809696, 1809728, 1809920, 1810016, 1822784, 1822816, 1826816, 1827328, 1827360,
     1827392, 1830880, 1847296, 1855520, 1856256, 1886208, 1886240, 1886272, 1886304, 1886464, 1886496, 1886528, 1886560,
     1886592, 1886624, 1886976, 1887008, 1887040, 1887072, 1887136, 1887200, 1887232, 1887264, 1887296, 1887328, 1887360,
     1887392, 1887424, 1887456, 1887488, 1887520, 1887552, 1887584, 1887616, 1887648, 1887680, 1887712])"
  by (simp only: sys_codes_def sys_regs_def map_append sys_code_lists append.simps)

lemma sys_numbered_eq: "sys_numbered = [1048704, 1048736, 1048768, 1048800, 1048960, 1048992, 1049024, 1049056, 1049216, 1049248, 1049280, 1049312, 1049472,
     1049504, 1049536, 1049568, 1049728, 1049760, 1049792, 1049824, 1049984, 1050016, 1050048, 1050080, 1050240, 1050272,
     1050304, 1050336, 1050496, 1050528, 1050560, 1050592, 1050752, 1050784, 1050816, 1050848, 1051008, 1051040, 1051072,
     1051104, 1051264, 1051296, 1051328, 1051360, 1051520, 1051552, 1051584, 1051616, 1051776, 1051808, 1051840, 1051872,
     1052032, 1052064, 1052096, 1052128, 1052288, 1052320, 1052352, 1052384, 1052544, 1052576, 1052608, 1052640, 1828864,
     1828896, 1828928, 1828960, 1828992, 1829024, 1829056, 1829088, 1829120, 1829152, 1829184, 1829216, 1829248, 1829280,
     1829312, 1829344, 1829376, 1829408, 1829440, 1829472, 1829504, 1829536, 1829568, 1829600, 1829632, 1829664, 1829696,
     1829728, 1829760, 1829792, 1829824, 1829888, 1829920, 1829952, 1829984, 1830016, 1830048, 1830080, 1830112, 1830144,
     1830176, 1830208, 1830240, 1830272, 1830304, 1830336, 1830368, 1830400, 1830432, 1830464, 1830496, 1830528, 1830560,
     1830592, 1830624, 1830656, 1830688, 1830720, 1830752, 1830784, 1830816, 1830848]"
  by code_simp

lemma sys_codes_ascending: "ascending sys_codes" "length sys_codes = 153"
  unfolding sys_codes_eq by code_simp+

lemma sys_numbered_ascending: "ascending sys_numbered"
  unfolding sys_numbered_eq by code_simp

lemma sys_merge_apart: "merge_apart sys_codes sys_numbered"
  unfolding sys_codes_eq sys_numbered_eq by code_simp

lemma length_sys_regs: "length sys_regs = 154"
  by (simp add: sys_regs_def flip: length_map [of snd] add: sys_code_lists)

text \<open>The header names each system register once. The encodings of the named registers and of the numbered ones (breakpoints,
  watchpoints, event counters and their types) are all different, with one exception, which the architecture has too: the two
  ends of the debug channel share an encoding, one for reading and one for writing. The filter of the cycle counter has the
  place that the type of an event counter 31 would have.\<close>

theorem sys_registers_distinct:
  "distinct sys_codes \<and> set sys_codes = snd ` set sys_regs \<and> length sys_regs = Suc (length sys_codes) \<and>
   {(''SYS_DBGDTRRX_EL0'', sys_reg 2 3 0 5 0), (''SYS_DBGDTRTX_EL0'', sys_reg 2 3 0 5 0)} \<subseteq> set sys_debug_regs \<and>
   distinct sys_numbered \<and> set sys_codes \<inter> set sys_numbered = {} \<and>
   (''SYS_PMCCFILTR_EL0'', SYS_PMEVTYPERn_EL0 31) \<in> set sys_el2_regs"
proof -
  have "SYS_PMEVTYPERn_EL0 31 = sys_reg 3 3 14 15 7"
    by (simp add: SYS_PMEVTYPERn_EL0_def TYPER_CRm_def PMEV_op2_def)
  then have "(''SYS_PMCCFILTR_EL0'', SYS_PMEVTYPERn_EL0 31) \<in> set sys_el2_regs" by (simp only: sys_el2_regs_def list.set insert_iff) simp
  moreover have "{(''SYS_DBGDTRRX_EL0'', sys_reg 2 3 0 5 0), (''SYS_DBGDTRTX_EL0'', sys_reg 2 3 0 5 0)} \<subseteq> set sys_debug_regs"
    by (simp only: sys_debug_regs_def list.set insert_subset insert_iff empty_subsetI simp_thms)
  moreover have "set sys_codes = snd ` set sys_regs" by (simp add: sys_codes_def)
  moreover have "set sys_codes \<inter> set sys_numbered = {}"
    by (rule merge_apart_disjoint [OF sys_merge_apart]) (simp_all add: ascending_sorted sys_codes_ascending sys_numbered_ascending)
  ultimately show ?thesis
    using sys_codes_ascending sys_numbered_ascending ascending_distinct by (simp add: length_sys_regs)
qed

text \<open>The instructions that set a bit of the processor state carry the new value where others have an operand.\<close>

lemma SET_PSTATE_operands:
  "operands (SET_PSTATE_PAN x) = (0, 0, 4, of_bool (x \<noteq> 0), 4)" "operands (SET_PSTATE_UAO x) = (0, 0, 4, of_bool (x \<noteq> 0), 3)"
  by (cases "x = 0"; simp add: operands_def SET_PSTATE_PAN_def SET_PSTATE_UAO_def REG_PSTATE_PAN_IMM_def REG_PSTATE_UAO_IMM_def
      sys_reg_def sys_reg_Op0_def sys_reg_Op1_def sys_reg_CRn_def sys_reg_CRm_def sys_reg_Op2_def)+

section \<open>Fields of the identification registers\<close>

text \<open>All of them have four bits; the tables have where they start.\<close>

definition id_aa64isar0_fields :: "(string \<times> nat) list" where
  "id_aa64isar0_fields =
    [(''ID_AA64ISAR0_RDM'', 28),
     (''ID_AA64ISAR0_ATOMICS'', 20),
     (''ID_AA64ISAR0_CRC32'', 16),
     (''ID_AA64ISAR0_SHA2'', 12),
     (''ID_AA64ISAR0_SHA1'', 8),
     (''ID_AA64ISAR0_AES'', 4)]"

definition id_aa64isar1_fields :: "(string \<times> nat) list" where
  "id_aa64isar1_fields =
    [(''ID_AA64ISAR1_LRCPC'', 20),
     (''ID_AA64ISAR1_FCMA'', 16),
     (''ID_AA64ISAR1_JSCVT'', 12),
     (''ID_AA64ISAR1_DPB'', 0)]"

definition id_aa64pfr0_fields :: "(string \<times> nat) list" where
  "id_aa64pfr0_fields =
    [(''ID_AA64PFR0_CSV3'', 60),
     (''ID_AA64PFR0_CSV2'', 56),
     (''ID_AA64PFR0_GIC'', 24),
     (''ID_AA64PFR0_ASIMD'', 20),
     (''ID_AA64PFR0_FP'', 16),
     (''ID_AA64PFR0_EL3'', 12),
     (''ID_AA64PFR0_EL2'', 8),
     (''ID_AA64PFR0_EL1'', 4),
     (''ID_AA64PFR0_EL0'', 0)]"

definition id_aa64mmfr0_fields :: "(string \<times> nat) list" where
  "id_aa64mmfr0_fields =
    [(''ID_AA64MMFR0_TGRAN4'', 28),
     (''ID_AA64MMFR0_TGRAN64'', 24),
     (''ID_AA64MMFR0_TGRAN16'', 20),
     (''ID_AA64MMFR0_BIGENDEL0'', 16),
     (''ID_AA64MMFR0_SNSMEM'', 12),
     (''ID_AA64MMFR0_BIGENDEL'', 8),
     (''ID_AA64MMFR0_ASID'', 4),
     (''ID_AA64MMFR0_PARANGE'', 0)]"

definition id_aa64mmfr1_fields :: "(string \<times> nat) list" where
  "id_aa64mmfr1_fields =
    [(''ID_AA64MMFR1_PAN'', 20),
     (''ID_AA64MMFR1_LOR'', 16),
     (''ID_AA64MMFR1_HPD'', 12),
     (''ID_AA64MMFR1_VHE'', 8),
     (''ID_AA64MMFR1_VMIDBITS'', 4),
     (''ID_AA64MMFR1_HADBS'', 0)]"

definition id_aa64mmfr2_fields :: "(string \<times> nat) list" where
  "id_aa64mmfr2_fields =
    [(''ID_AA64MMFR2_LVA'', 16),
     (''ID_AA64MMFR2_IESB'', 12),
     (''ID_AA64MMFR2_LSM'', 8),
     (''ID_AA64MMFR2_UAO'', 4),
     (''ID_AA64MMFR2_CNP'', 0)]"

definition id_aa64dfr0_fields :: "(string \<times> nat) list" where
  "id_aa64dfr0_fields =
    [(''ID_AA64DFR0_PMSVER'', 32),
     (''ID_AA64DFR0_CTX_CMPS'', 28),
     (''ID_AA64DFR0_WRPS'', 20),
     (''ID_AA64DFR0_BRPS'', 12),
     (''ID_AA64DFR0_PMUVER'', 8),
     (''ID_AA64DFR0_TRACEVER'', 4),
     (''ID_AA64DFR0_DEBUGVER'', 0)]"

definition id_isar5_fields :: "(string \<times> nat) list" where
  "id_isar5_fields =
    [(''ID_ISAR5_RDM'', 24),
     (''ID_ISAR5_CRC32'', 16),
     (''ID_ISAR5_SHA2'', 12),
     (''ID_ISAR5_SHA1'', 8),
     (''ID_ISAR5_AES'', 4),
     (''ID_ISAR5_SEVL'', 0)]"

definition mvfr0_fields :: "(string \<times> nat) list" where
  "mvfr0_fields =
    [(''MVFR0_FPROUND'', 28),
     (''MVFR0_FPSHVEC'', 24),
     (''MVFR0_FPSQRT'', 20),
     (''MVFR0_FPDIVIDE'', 16),
     (''MVFR0_FPTRAP'', 12),
     (''MVFR0_FPDP'', 8),
     (''MVFR0_FPSP'', 4),
     (''MVFR0_SIMD'', 0)]"

definition mvfr1_fields :: "(string \<times> nat) list" where
  "mvfr1_fields =
    [(''MVFR1_SIMDFMAC'', 28),
     (''MVFR1_FPHP'', 24),
     (''MVFR1_SIMDHP'', 20),
     (''MVFR1_SIMDSP'', 16),
     (''MVFR1_SIMDINT'', 12),
     (''MVFR1_SIMDLS'', 8),
     (''MVFR1_FPDNAN'', 4),
     (''MVFR1_FPFTZ'', 0)]"

datatype page_size = ARM64_4K_PAGES | ARM64_16K_PAGES | ARM64_64K_PAGES

definition ID_AA64MMFR0_TGRAN_SHIFT :: "page_size \<Rightarrow> nat" where
  "ID_AA64MMFR0_TGRAN_SHIFT p = (case p of ARM64_4K_PAGES \<Rightarrow> 28 | ARM64_16K_PAGES \<Rightarrow> 20 | ARM64_64K_PAGES \<Rightarrow> 24)"

definition ID_AA64MMFR0_TGRAN_SUPPORTED :: "page_size \<Rightarrow> nat" where
  "ID_AA64MMFR0_TGRAN_SUPPORTED p = (case p of ARM64_4K_PAGES \<Rightarrow> 0x0 | ARM64_16K_PAGES \<Rightarrow> 0x1 | ARM64_64K_PAGES \<Rightarrow> 0x0)"

definition SCTLR_ELx_FLAGS :: u32 where "SCTLR_ELx_FLAGS = 1 OR 2 ^ 1 OR 2 ^ 2 OR 2 ^ 3 OR 2 ^ 12"

definition SCTLR_EL2_RES1 :: u32 where
  "SCTLR_EL2_RES1 = 2 ^ 4 OR 2 ^ 5 OR 2 ^ 11 OR 2 ^ 16 OR 2 ^ 18 OR 2 ^ 22 OR 2 ^ 23 OR 2 ^ 28 OR 2 ^ 29"

definition id_field_tables :: "(string \<times> nat) list list" where
  "id_field_tables = [id_aa64isar0_fields, id_aa64isar1_fields, id_aa64pfr0_fields, id_aa64mmfr0_fields, id_aa64mmfr1_fields,
     id_aa64mmfr2_fields, id_aa64dfr0_fields, id_isar5_fields, mvfr0_fields, mvfr1_fields]"

text \<open>The fields of a register lie apart, from high to low, inside of the register.\<close>

lemma id_fields_apart:
  "list_all (\<lambda>t. sorted_wrt (\<lambda>a b. b + 4 \<le> a) (map snd t) \<and> list_all (\<lambda>s. s + 4 \<le> 64 \<and> s mod 4 = 0) (map snd t)) id_field_tables"
  by (simp add: id_field_tables_def id_aa64isar0_fields_def id_aa64isar1_fields_def id_aa64pfr0_fields_def id_aa64mmfr0_fields_def
      id_aa64mmfr1_fields_def id_aa64mmfr2_fields_def id_aa64dfr0_fields_def id_isar5_fields_def mvfr0_fields_def mvfr1_fields_def)

lemma granule_field: "ID_AA64MMFR0_TGRAN_SHIFT p \<in> snd ` set id_aa64mmfr0_fields"
  by (cases p) (simp_all add: ID_AA64MMFR0_TGRAN_SHIFT_def id_aa64mmfr0_fields_def)

lemma SCTLR_flags_free: "SCTLR_ELx_FLAGS AND SCTLR_EL2_RES1 = 0"
  by (simp add: SCTLR_ELx_FLAGS_def SCTLR_EL2_RES1_def)

section \<open>The dump of a crash\<close>

text \<open>
  \<open>hex2binarystr\<close> writes the lowest bits of a number as digits into a static buffer. The mask is \<^verbatim>\<open>1 << (len - 1)\<close> in the type
  \<^verbatim>\<open>int\<close>: a shift by a number outside of the word, one into the sign bit (\<open>len\<close> 32), and
  a digit behind the end of the buffer, have no value.
\<close>

definition MAX_BIN_PRINT :: nat where "MAX_BIN_PRINT = 64"

function binary_loop :: "u32 \<Rightarrow> u32 \<Rightarrow> nat \<Rightarrow> string \<Rightarrow> string option" where
  "binary_loop num m i buf =
     (if m = 0 then Some buf
      else if i < length buf
        then binary_loop num (drop_bit 1 m) (i + 1) (buf[i := if num AND m \<noteq> 0 then CHR ''1'' else CHR ''0''])
        else None)"
  by pat_completeness auto
termination
proof (relation "measure (\<lambda>(num, m, i, buf). length buf - i)")
qed auto

declare binary_loop.simps [simp del]

definition hex2binarystr :: "u32 \<Rightarrow> int \<Rightarrow> string option" where
  "hex2binarystr num len =
     (if 1 \<le> len \<and> len \<le> 31
      then binary_loop num (push_bit (nat (len - 1)) 1) 0 (replicate MAX_BIN_PRINT (CHR 0x00))
      else None)"

text \<open>The digits of the lowest \<open>k\<close> bits, the highest first.\<close>

definition bin_digits :: "u32 \<Rightarrow> nat \<Rightarrow> string" where
  "bin_digits num k = map (\<lambda>j. if bit num j then CHR ''1'' else CHR ''0'') (rev [0..<k])"

lemma bin_digits_Suc: "bin_digits num (Suc k) = (if bit num k then CHR ''1'' else CHR ''0'') # bin_digits num k"
  by (simp add: bin_digits_def)

lemma length_bin_digits [simp]: "length (bin_digits num k) = k"
  by (simp add: bin_digits_def)

lemma and_single_bit: "num AND push_bit k 1 \<noteq> 0 \<longleftrightarrow> k < 32 \<and> bit (num :: u32) k"
proof -
  have "bit (num AND push_bit k 1) n \<longleftrightarrow> n = k \<and> n < 32 \<and> bit num k" for n by (auto simp: bit_simps)
  then show ?thesis by (metis bit_0_eq bot_apply bot_bool_def bit_eq_iff)
qed

lemma push_bit_1_nonzero: "k < 32 \<Longrightarrow> push_bit k 1 \<noteq> (0 :: u32)"
  using and_single_bit [of "push_bit k 1" k] by (auto simp: bit_simps)

lemma drop_push_1: "Suc k < 32 \<Longrightarrow> drop_bit 1 (push_bit (Suc k) 1) = (push_bit k 1 :: u32)"
  by (rule u32_eqI) (auto simp: bit_simps)

lemma binary_loop_digits:
  "k < 32 \<Longrightarrow> i + k < length buf \<Longrightarrow>
   binary_loop num (push_bit k 1) i buf = Some (take i buf @ bin_digits num (Suc k) @ drop (i + Suc k) buf)"
proof (induction k arbitrary: i buf)
  case 0
  then show ?case
    by (simp add: binary_loop.simps [of num 1] binary_loop.simps [of num 0] and_single_bit [of num 0, simplified] bin_digits_def upd_conv_take_nth_drop)
next
  case (Suc k)
  let ?d = "if bit num (Suc k) then CHR ''1'' else CHR ''0''"
  have "binary_loop num (push_bit (Suc k) 1) i buf = binary_loop num (push_bit k 1) (Suc i) (buf[i := ?d])"
    using Suc.prems push_bit_1_nonzero [of "Suc k"] and_single_bit [of num "Suc k"] drop_push_1 [of k]
    by (subst binary_loop.simps) (simp del: push_bit_Suc)
  also have "\<dots> = Some (take (Suc i) (buf[i := ?d]) @ bin_digits num (Suc k) @ drop (Suc i + Suc k) (buf[i := ?d]))"
    using Suc.prems by (intro Suc.IH) simp_all
  also have "\<dots> = Some (take i buf @ bin_digits num (Suc (Suc k)) @ drop (i + Suc (Suc k)) buf)"
    using Suc.prems by (simp add: take_Suc_conv_app_nth bin_digits_Suc)
  finally show ?case .
qed

lemma hex2binarystr_digits:
  assumes "1 \<le> len" "len \<le> 31"
  shows "hex2binarystr num len = Some (bin_digits num (nat len) @ replicate (64 - nat len) (CHR 0x00))"
proof -
  have "Suc (nat (len - 1)) = nat len" using assms by linarith
  moreover have "nat (len - 1) < 32" using assms by linarith
  ultimately show ?thesis
    using assms binary_loop_digits [of "nat (len - 1)" 0 "replicate 64 (CHR 0x00)" num] by (simp add: hex2binarystr_def MAX_BIN_PRINT_def)
qed

text \<open>
  What the dump reads of the processor: the exception level, the syndrome and the return address of each level, the saved
  states, and two general registers.
\<close>

record cpu =
  CurrentEL :: "64 word"
  ESR_EL1 :: "64 word"
  ELR_EL1 :: "64 word"
  ESR_EL2 :: "64 word"
  ELR_EL2 :: "64 word"
  ESR_EL3 :: "64 word"
  ELR_EL3 :: "64 word"
  spsr_el1 :: "64 word"
  spsr_el3 :: "64 word"
  reg_x30 :: "64 word"
  reg_x23 :: "64 word"

definition get_elx :: "cpu \<Rightarrow> 64 word" where "get_elx c = drop_bit 2 (CurrentEL c) AND 0x3"
definition is_el3 :: "cpu \<Rightarrow> bool" where "is_el3 c \<longleftrightarrow> drop_bit 2 (CurrentEL c) AND 0x3 = 3"
definition in_isr_el1 :: "cpu \<Rightarrow> bool" where "in_isr_el1 c \<longleftrightarrow> drop_bit 5 (spsr_el1 c) AND 0x1 = 1"
definition in_isr_el3 :: "cpu \<Rightarrow> bool" where "in_isr_el3 c \<longleftrightarrow> drop_bit 5 (spsr_el3 c) AND 0x1 = 1"
definition in_isr :: "cpu \<Rightarrow> bool" where "in_isr c = in_isr_el1 c"

text \<open>The values that are printed. The processor then stops in an endless loop, so the dump is all that happens.\<close>

record crash_dump =
  dump_el :: "64 word"
  dump_elr :: "64 word"
  dump_x30 :: "64 word"
  dump_xuser :: "64 word"
  dump_esr :: "64 word"
  dump_ec :: "64 word"
  dump_ec_bits :: string

text \<open>The local variables are not initialised, and at level 0 no case of the switch sets them: reading them has no value.\<close>

definition crash_regs :: "cpu \<Rightarrow> (64 word \<times> 64 word) option" where
  "crash_regs c =
     (if get_elx c = 1 then Some (ESR_EL1 c, ELR_EL1 c)
      else if get_elx c = 2 then Some (ESR_EL2 c, ELR_EL2 c)
      else if get_elx c = 3 then Some (ESR_EL3 c, ELR_EL3 c)
      else None)"

definition c_text :: "string \<Rightarrow> string" where
  "c_text s = takeWhile (\<lambda>x. x \<noteq> CHR 0x00) s"

definition do_crash :: "cpu \<Rightarrow> crash_dump option" where
  "do_crash c =
     (case crash_regs c of
        None \<Rightarrow> None
      | Some (esr, elr) \<Rightarrow>
          let ec = drop_bit 26 esr AND 0x3f in
          (case hex2binarystr (ucast ec) 6 of
            None \<Rightarrow> None
          | Some s \<Rightarrow> Some \<lparr>dump_el = get_elx c, dump_elr = elr, dump_x30 = reg_x30 c, dump_xuser = reg_x23 c,
                            dump_esr = esr, dump_ec = ec, dump_ec_bits = c_text s\<rparr>))"

lemma get_elx_range: "get_elx c \<in> {0, 1, 2, 3}"
proof -
  have "get_elx c = take_bit 2 (drop_bit 2 (CurrentEL c))"
    by (simp add: get_elx_def take_bit_eq_mask mask_eq_exp_minus_1)
  then have "unat (get_elx c) < 2 ^ 2" using take_bit_nat_less_exp [of 2] by (simp only: unsigned_take_bit_eq)
  then have "unat (get_elx c) \<in> {0, 1, 2, 3}" by auto
  then show ?thesis by (auto simp: word_unat_eq_iff)
qed

lemma c_text_digits: "c_text (bin_digits num k @ replicate n (CHR 0x00)) = bin_digits num k"
  by (induction k) (auto simp: c_text_def bin_digits_Suc bin_digits_def)

lemma class_bits:
  "bin_digits (ucast (drop_bit 26 (esr :: 64 word) AND 0x3f)) 6 =
     map (\<lambda>j. if bit esr j then CHR ''1'' else CHR ''0'') [31, 30, 29, 28, 27, 26]"
proof -
  have "(0x3f :: 64 word) = mask 6" by (simp add: mask_eq_exp_minus_1)
  then have b: "bit (ucast (drop_bit 26 esr AND 0x3f) :: u32) j \<longleftrightarrow> bit esr (26 + j)" if "j < 6" for j
    using that by (simp only: bit_unsigned_iff bit_and_iff bit_drop_bit_eq bit_mask_iff) (auto simp: bit_drop_bit_eq)
  have "rev [0..<6] = [5, 4, 3, 2, 1, 0 :: nat]" by (simp add: upt_rec)
  then show ?thesis by (simp add: bin_digits_def b)
qed

text \<open>C17: A crash at the levels 1 to 3 is always dumped, with the syndrome and the return address of the level the processor is at, and the
  class of the exception, the bits 31 to 26 of the syndrome, spelt in binary. At level 0 the dump reads variables that were
  never set.\<close>

theorem crash_dump_reports:
  assumes "(get_elx c, esr, elr) \<in> {(1, ESR_EL1 c, ELR_EL1 c), (2, ESR_EL2 c, ELR_EL2 c), (3, ESR_EL3 c, ELR_EL3 c)}"
  shows "do_crash c = Some \<lparr>dump_el = get_elx c, dump_elr = elr, dump_x30 = reg_x30 c, dump_xuser = reg_x23 c, dump_esr = esr,
      dump_ec = drop_bit 26 esr AND 0x3f,
      dump_ec_bits = map (\<lambda>j. if bit esr j then CHR ''1'' else CHR ''0'') [31, 30, 29, 28, 27, 26]\<rparr> \<and>
    (do_crash d = None \<longleftrightarrow> get_elx d = 0)"
proof
  have spelt: "hex2binarystr (ucast (drop_bit 26 e AND 0x3f)) 6 = Some (bin_digits (ucast (drop_bit 26 e AND 0x3f)) 6 @ replicate 58 (CHR 0x00))"
    for e :: "64 word" using hex2binarystr_digits [of 6] by simp
  have "crash_regs c = Some (esr, elr)" using assms by (auto simp: crash_regs_def)
  then show "do_crash c = Some \<lparr>dump_el = get_elx c, dump_elr = elr, dump_x30 = reg_x30 c, dump_xuser = reg_x23 c, dump_esr = esr,
      dump_ec = drop_bit 26 esr AND 0x3f,
      dump_ec_bits = map (\<lambda>j. if bit esr j then CHR ''1'' else CHR ''0'') [31, 30, 29, 28, 27, 26]\<rparr>"
    by (simp only: do_crash_def option.case prod.case Let_def spelt c_text_digits) (simp only: class_bits)
  have "crash_regs d = None \<longleftrightarrow> get_elx d = 0" using get_elx_range [of d] by (auto simp: crash_regs_def)
  then show "do_crash d = None \<longleftrightarrow> get_elx d = 0"
    by (cases "crash_regs d") (simp_all only: do_crash_def option.case prod.case_eq_if Let_def spelt option.simps simp_thms)
qed

definition crashed :: cpu where
  "crashed = \<lparr>CurrentEL = 0x8, ESR_EL1 = 0, ELR_EL1 = 0, ESR_EL2 = 0x96000045, ELR_EL2 = 0x80000, ESR_EL3 = 0, ELR_EL3 = 0,
     spsr_el1 = 0, spsr_el3 = 0, reg_x30 = 0x80010, reg_x23 = 7\<rparr>"

theorem crash_dump_reports_witness:
  "do_crash crashed = Some \<lparr>dump_el = 2, dump_elr = 0x80000, dump_x30 = 0x80010, dump_xuser = 7, dump_esr = 0x96000045,
      dump_ec = 0x25, dump_ec_bits = ''100101''\<rparr> \<and> do_crash (crashed\<lparr>CurrentEL := 0\<rparr>) = None"
  using crash_dump_reports [of crashed "0x96000045" "0x80000" "crashed\<lparr>CurrentEL := 0\<rparr>"]
  by (simp add: crashed_def get_elx_def bit_numeral_rec)

section \<open>Stubs of the C library\<close>

text \<open>What the library calls for the files of the application. The read has no return statement: its result has no value.\<close>

definition uboot_lseek :: "int \<Rightarrow> int \<Rightarrow> int \<Rightarrow> int option" where "uboot_lseek file ptr dir = Some (-1)"
definition uboot_read :: "int \<Rightarrow> int \<Rightarrow> int \<Rightarrow> int option" where "uboot_read file ptr len = None"
definition uboot_fstat :: "int \<Rightarrow> int option" where "uboot_fstat file = Some 0"
definition uboot_isatty :: "int \<Rightarrow> int option" where "uboot_isatty fd = Some 0"
definition uboot_close :: "int \<Rightarrow> int option" where "uboot_close file = Some (-1)"
definition uboot_getpid :: "int option" where "uboot_getpid = Some 1"
definition uboot_kill :: "int \<Rightarrow> int \<Rightarrow> int option" where "uboot_kill pid sig = Some (-1)"

end
