(* ===== verification/ImxUdc.thy ===== *)
theory ImxUdc
  imports FslUdc
begin

text \<open>
  Three more headers: \<^verbatim>\<open>src/test_gadget/imx_udc.h\<close> with the registers of the i.MX1 controller, \<^verbatim>\<open>src/test_gadget/mv_udc.h\<close>, which
  describes the controller of \<open>FslUdc\<close> in the chips of another maker, and \<^verbatim>\<open>src/test_gadget/imx_usb_charger.h\<close> with the registers
  that detect a charger.
\<close>

section \<open>The controller of the i.MX1\<close>

text \<open>The number and the direction of an endpoint's address.\<close>

definition imx_EP_NO :: "u8 \<Rightarrow> u8" where "imx_EP_NO a = a AND NOT 0x80"
definition imx_EP_DIR :: "u8 \<Rightarrow> nat" where "imx_EP_DIR a = (if a AND 0x80 \<noteq> 0 then 1 else 0)"

lemma imx_ep_round_trip: "imx_EP_NO a OR push_bit 7 (of_nat (imx_EP_DIR a)) = a"
proof -
  have "a AND 0x80 \<noteq> 0 \<longleftrightarrow> bit a 7"
  proof -
    have "a AND 0x80 = (if bit a 7 then 0x80 else 0)" by (rule u8_eqI) (simp add: bitwise)
    then show ?thesis by simp
  qed
  then show ?thesis unfolding imx_EP_NO_def imx_EP_DIR_def by (cases "bit a 7"; simp; intro u8_eqI; simp add: bitwise)
qed

text \<open>The addresses of the device's registers and, by the number of an endpoint, of the endpoint's.\<close>

definition imx_dev_offsets :: "(string \<times> u32) list" where
  "imx_dev_offsets =
    [(''USB_FRAME'', 0x0),
     (''USB_SPEC'', 0x4),
     (''USB_STAT'', 0x8),
     (''USB_CTRL'', 0xc),
     (''USB_DADR'', 0x10),
     (''USB_DDAT'', 0x14),
     (''USB_INTR'', 0x18),
     (''USB_MASK'', 0x1c),
     (''USB_ENAB'', 0x24)]"

definition USB_EP_STAT :: "nat \<Rightarrow> nat" where "USB_EP_STAT x = 0x30 + x * 0x30"
definition USB_EP_INTR :: "nat \<Rightarrow> nat" where "USB_EP_INTR x = 0x34 + x * 0x30"
definition USB_EP_MASK :: "nat \<Rightarrow> nat" where "USB_EP_MASK x = 0x38 + x * 0x30"
definition USB_EP_FDAT :: "nat \<Rightarrow> nat" where "USB_EP_FDAT x = 0x3C + x * 0x30"
definition USB_EP_FDAT0 :: "nat \<Rightarrow> nat" where "USB_EP_FDAT0 x = 0x3C + x * 0x30"
definition USB_EP_FDAT1 :: "nat \<Rightarrow> nat" where "USB_EP_FDAT1 x = 0x3D + x * 0x30"
definition USB_EP_FDAT2 :: "nat \<Rightarrow> nat" where "USB_EP_FDAT2 x = 0x3E + x * 0x30"
definition USB_EP_FDAT3 :: "nat \<Rightarrow> nat" where "USB_EP_FDAT3 x = 0x3F + x * 0x30"
definition USB_EP_FSTAT :: "nat \<Rightarrow> nat" where "USB_EP_FSTAT x = 0x40 + x * 0x30"
definition USB_EP_FCTRL :: "nat \<Rightarrow> nat" where "USB_EP_FCTRL x = 0x44 + x * 0x30"
definition USB_EP_LRFP :: "nat \<Rightarrow> nat" where "USB_EP_LRFP x = 0x48 + x * 0x30"
definition USB_EP_LWFP :: "nat \<Rightarrow> nat" where "USB_EP_LWFP x = 0x4C + x * 0x30"
definition USB_EP_FALRM :: "nat \<Rightarrow> nat" where "USB_EP_FALRM x = 0x50 + x * 0x30"
definition USB_EP_FRDP :: "nat \<Rightarrow> nat" where "USB_EP_FRDP x = 0x54 + x * 0x30"
definition USB_EP_FWRP :: "nat \<Rightarrow> nat" where "USB_EP_FWRP x = 0x58 + x * 0x30"

definition IMX_USB_NB_EP :: nat where "IMX_USB_NB_EP = 6"

definition imx_ep_addresses :: "nat \<Rightarrow> nat list" where
  "imx_ep_addresses x =
    [USB_EP_STAT x, USB_EP_INTR x, USB_EP_MASK x, USB_EP_FDAT x, USB_EP_FDAT1 x, USB_EP_FDAT2 x, USB_EP_FDAT3 x, USB_EP_FSTAT x, USB_EP_FCTRL x, USB_EP_LRFP x, USB_EP_LWFP x, USB_EP_FALRM x, USB_EP_FRDP x, USB_EP_FWRP x]"

text \<open>No two registers of the device and its six endpoints have the same address; the first byte of the fifo is the fifo's address.\<close>

lemma imx_addresses_distinct:
  "distinct (map (unat \<circ> snd) imx_dev_offsets @ concat (map imx_ep_addresses [0..<IMX_USB_NB_EP]))" "USB_EP_FDAT0 x = USB_EP_FDAT x"
proof -
  have "sorted_wrt (<) (map (unat \<circ> snd) imx_dev_offsets @ concat (map imx_ep_addresses [0..<IMX_USB_NB_EP]))"
    by (simp add: imx_dev_offsets_def imx_ep_addresses_def IMX_USB_NB_EP_def upt_conv_Cons USB_EP_STAT_def USB_EP_INTR_def USB_EP_MASK_def USB_EP_FDAT_def USB_EP_FDAT0_def USB_EP_FDAT1_def USB_EP_FDAT2_def USB_EP_FDAT3_def USB_EP_FSTAT_def USB_EP_FCTRL_def USB_EP_LRFP_def USB_EP_LWFP_def USB_EP_FALRM_def USB_EP_FRDP_def USB_EP_FWRP_def sorted_wrt2 sorted_wrt1 del: sorted_wrt.simps)
  then show "distinct (map (unat \<circ> snd) imx_dev_offsets @ concat (map imx_ep_addresses [0..<IMX_USB_NB_EP]))" by (simp only: strict_sorted_iff)
qed (simp add: USB_EP_FDAT0_def USB_EP_FDAT_def)

text \<open>The bits and fields of the registers, which lie apart.\<close>

definition imx_ctrl :: "(string \<times> u32) list" where
  "imx_ctrl =
    [(''CTRL_CMDOVER'', push_bit 6 1),
     (''CTRL_CMDERROR'', push_bit 5 1),
     (''CTRL_FE_ENA'', push_bit 3 1),
     (''CTRL_UDC_RST'', push_bit 2 1),
     (''CTRL_AFE_ENA'', push_bit 1 1),
     (''CTRL_RESUME'', push_bit 0 1)]"

definition imx_stat :: "(string \<times> u32) list" where
  "imx_stat =
    [(''STAT_RST'', push_bit 8 1),
     (''STAT_SUSP'', push_bit 7 1),
     (''STAT_CFG'', push_bit 5 3),
     (''STAT_INTF'', push_bit 3 3),
     (''STAT_ALTSET'', push_bit 0 7)]"

definition imx_intr :: "(string \<times> u32) list" where
  "imx_intr =
    [(''INTR_WAKEUP'', push_bit 31 1),
     (''INTR_MSOF'', push_bit 7 1),
     (''INTR_SOF'', push_bit 6 1),
     (''INTR_RESET_STOP'', push_bit 5 1),
     (''INTR_RESET_START'', push_bit 4 1),
     (''INTR_RESUME'', push_bit 3 1),
     (''INTR_SUSPEND'', push_bit 2 1),
     (''INTR_FRAME_MATCH'', push_bit 1 1),
     (''INTR_CFG_CHG'', push_bit 0 1)]"

definition imx_enab :: "(string \<times> u32) list" where
  "imx_enab =
    [(''ENAB_RST'', push_bit 31 1),
     (''ENAB_ENAB'', push_bit 30 1),
     (''ENAB_SUSPEND'', push_bit 29 1),
     (''ENAB_ENDIAN'', push_bit 28 1),
     (''ENAB_PWRMD'', push_bit 0 1)]"

definition imx_dadr :: "(string \<times> u32) list" where
  "imx_dadr =
    [(''DADR_CFG'', push_bit 31 1),
     (''DADR_BSY'', push_bit 30 1),
     (''DADR_DADR'', 0x1ff)]"

definition imx_epstat :: "(string \<times> u32) list" where
  "imx_epstat =
    [(''EPSTAT_BCOUNT'', push_bit 16 0x7F),
     (''EPSTAT_SIP'', push_bit 8 1),
     (''EPSTAT_DIR'', push_bit 7 1),
     (''EPSTAT_MAX'', push_bit 5 3),
     (''EPSTAT_TYP'', push_bit 3 3),
     (''EPSTAT_ZLPS'', push_bit 2 1),
     (''EPSTAT_FLUSH'', push_bit 1 1),
     (''EPSTAT_STALL'', push_bit 0 1)]"

definition imx_fstat :: "(string \<times> u32) list" where
  "imx_fstat =
    [(''FSTAT_FRAME_STAT'', push_bit 24 0xF),
     (''FSTAT_ERR'', push_bit 22 1),
     (''FSTAT_UF'', push_bit 21 1),
     (''FSTAT_OF'', push_bit 20 1),
     (''FSTAT_FR'', push_bit 19 1),
     (''FSTAT_FULL'', push_bit 18 1),
     (''FSTAT_ALRM'', push_bit 17 1),
     (''FSTAT_EMPTY'', push_bit 16 1)]"

definition imx_epintr :: "(string \<times> u32) list" where
  "imx_epintr =
    [(''EPINTR_FIFO_FULL'', push_bit 8 1),
     (''EPINTR_FIFO_EMPTY'', push_bit 7 1),
     (''EPINTR_FIFO_ERROR'', push_bit 6 1),
     (''EPINTR_FIFO_HIGH'', push_bit 5 1),
     (''EPINTR_FIFO_LOW'', push_bit 4 1),
     (''EPINTR_MDEVREQ'', push_bit 3 1),
     (''EPINTR_EOT'', push_bit 2 1),
     (''EPINTR_DEVREQ'', push_bit 1 1),
     (''EPINTR_EOF'', push_bit 0 1)]"

lemma imx_fields_apart: "list_all table_apart [imx_ctrl, imx_stat, imx_intr, imx_enab, imx_dadr, imx_epstat, imx_fstat, imx_epintr]"
  by (simp add: table_apart_def imx_ctrl_def imx_stat_def imx_intr_def imx_enab_def imx_dadr_def imx_epstat_def imx_fstat_def imx_epintr_def)

section \<open>The controller under another name\<close>

definition mv_usbcmd :: "(string \<times> u32) list" where
  "mv_usbcmd =
    [(''USBCMD_RUN_STOP'', 0x1),
     (''USBCMD_CTRL_RESET'', 0x2),
     (''USBCMD_SETUP_TRIPWIRE_SET'', 0x2000),
     (''USBCMD_ATDTW_TRIPWIRE_SET'', 0x4000)]"

definition mv_frame_size :: "(string \<times> u32) list" where
  "mv_frame_size =
    [(''USBCMD_FRAME_SIZE_1024'', 0x0),
     (''USBCMD_FRAME_SIZE_512'', 0x4),
     (''USBCMD_FRAME_SIZE_256'', 0x8),
     (''USBCMD_FRAME_SIZE_128'', 0xc),
     (''USBCMD_FRAME_SIZE_64'', 0x8000),
     (''USBCMD_FRAME_SIZE_32'', 0x8004),
     (''USBCMD_FRAME_SIZE_16'', 0x8008),
     (''USBCMD_FRAME_SIZE_8'', 0x800c)]"

definition mv_epctrl :: "(string \<times> u32) list" where
  "mv_epctrl =
    [(''EPCTRL_TX_DATA_TOGGLE_RST'', 0x400000),
     (''EPCTRL_TX_EP_STALL'', 0x10000),
     (''EPCTRL_RX_EP_STALL'', 0x1),
     (''EPCTRL_RX_DATA_TOGGLE_RST'', 0x40),
     (''EPCTRL_RX_ENABLE'', 0x80),
     (''EPCTRL_TX_ENABLE'', 0x800000),
     (''EPCTRL_CONTROL'', 0x0),
     (''EPCTRL_ISOCHRONOUS'', 0x40000),
     (''EPCTRL_BULK'', 0x80000),
     (''EPCTRL_INT'', 0xc0000),
     (''EPCTRL_TX_TYPE'', 0xc0000),
     (''EPCTRL_RX_TYPE'', 0xc),
     (''EPCTRL_DATA_TOGGLE_INHIBIT'', 0x20)]"

definition mv_portsc :: "(string \<times> u32) list" where
  "mv_portsc =
    [(''PORTSCX_PORT_RESET'', 0x100),
     (''PORTSCX_PORT_POWER'', 0x1000),
     (''PORTSCX_FORCE_FULL_SPEED_CONNECT'', 0x1000000),
     (''PORTSCX_PAR_XCVR_SELECT'', 0xc0000000),
     (''PORTSCX_PORT_FORCE_RESUME'', 0x40),
     (''PORTSCX_PORT_SUSPEND'', 0x80)]"

definition mv_port_speed :: "(string \<times> u32) list" where
  "mv_port_speed =
    [(''PORTSCX_PORT_SPEED_FULL'', 0x0),
     (''PORTSCX_PORT_SPEED_LOW'', 0x4000000),
     (''PORTSCX_PORT_SPEED_HIGH'', 0x8000000)]"

definition mv_ctrl_mode :: "(string \<times> u32) list" where
  "mv_ctrl_mode =
    [(''USBMODE_CTRL_MODE_IDLE'', 0x0),
     (''USBMODE_CTRL_MODE_DEVICE'', 0x2),
     (''USBMODE_CTRL_MODE_HOST'', 0x3),
     (''USBMODE_CTRL_MODE_RSV'', 0x1)]"

definition mv_usbmode :: "(string \<times> u32) list" where
  "mv_usbmode =
    [(''USBMODE_SETUP_LOCK_OFF'', 0x8),
     (''USBMODE_STREAM_DISABLE'', 0x10)]"

definition mv_usbsts :: "(string \<times> u32) list" where
  "mv_usbsts =
    [(''USBSTS_INT'', 0x1),
     (''USBSTS_ERR'', 0x2),
     (''USBSTS_PORT_CHANGE'', 0x4),
     (''USBSTS_FRM_LST_ROLL'', 0x8),
     (''USBSTS_SYS_ERR'', 0x10),
     (''USBSTS_IAA'', 0x20),
     (''USBSTS_RESET'', 0x40),
     (''USBSTS_SOF'', 0x80),
     (''USBSTS_SUSPEND'', 0x100),
     (''USBSTS_HC_HALTED'', 0x1000),
     (''USBSTS_RCL'', 0x2000),
     (''USBSTS_PERIODIC_SCHEDULE'', 0x4000),
     (''USBSTS_ASYNC_SCHEDULE'', 0x8000)]"

definition mv_usbintr :: "(string \<times> u32) list" where
  "mv_usbintr =
    [(''USBINTR_INT_EN'', 0x1),
     (''USBINTR_ERR_INT_EN'', 0x2),
     (''USBINTR_PORT_CHANGE_DETECT_EN'', 0x4),
     (''USBINTR_ASYNC_ADV_AAE'', 0x20),
     (''USBINTR_RESET_EN'', 0x40),
     (''USBINTR_SOF_UFRAME_EN'', 0x80),
     (''USBINTR_DEVICE_SUSPEND'', 0x100)]"

definition mv_cap_regs :: "(string \<times> int \<times> int) list" where
  "mv_cap_regs =
    [(''caplength_hciversion'', 4, 1), (''hcsparams'', 4, 1), (''hccparams'', 4, 1), (''reserved'', 4, 5), (''dciversion'', 4,
     1), (''dccparams'', 4, 1)]"

definition mv_op_regs :: "(string \<times> int \<times> int) list" where
  "mv_op_regs =
    [(''usbcmd'', 4, 1), (''usbsts'', 4, 1), (''usbintr'', 4, 1), (''frindex'', 4, 1), (''reserved1'', 4, 1), (''deviceaddr'',
     4, 1), (''eplistaddr'', 4, 1), (''ttctrl'', 4, 1), (''burstsize'', 4, 1), (''txfilltuning'', 4, 1), (''reserved'', 4, 4),
     (''epnak'', 4, 1), (''epnaken'', 4, 1), (''configflag'', 4, 1), (''portsc'', 4, 8), (''otgsc'', 4, 1), (''usbmode'', 4,
     1), (''epsetupstat'', 4, 1), (''epprime'', 4, 1), (''epflush'', 4, 1), (''epstatus'', 4, 1), (''epcomplete'', 4, 1),
     (''epctrlx'', 4, 16), (''mcr'', 4, 1), (''isr'', 4, 1), (''ier'', 4, 1)]"

definition mv_dqh :: "(string \<times> int \<times> int) list" where
  "mv_dqh =
    [(''max_packet_length'', 4, 1), (''curr_dtd_ptr'', 4, 1), (''next_dtd_ptr'', 4, 1), (''size_ioc_int_sts'', 4, 1),
     (''buff_ptr0'', 4, 1), (''buff_ptr1'', 4, 1), (''buff_ptr2'', 4, 1), (''buff_ptr3'', 4, 1), (''buff_ptr4'', 4, 1),
     (''reserved1'', 4, 1), (''setup_buffer'', 1, 8), (''reserved2'', 4, 4)]"

text \<open>Two tables agree if they have no name with different values.\<close>

definition agree :: "(string \<times> u32) list \<Rightarrow> (string \<times> u32) list \<Rightarrow> bool" where
  "agree t u \<longleftrightarrow> list_all (\<lambda>(n, v). map_of u n = None \<or> map_of u n = Some v) t"

definition mv_names :: "(string \<times> string) list" where
  "mv_names =
    [(''usbcmd'', ''usbcmd''), (''usbsts'', ''usbsts''), (''usbintr'', ''usbintr''), (''frindex'', ''frindex''), (''deviceaddr'', ''deviceaddr''),
     (''eplistaddr'', ''endpointlistaddr''), (''burstsize'', ''burstsize''), (''txfilltuning'', ''txttfilltuning''), (''configflag'', ''configflag''),
     (''portsc'', ''portsc1''), (''otgsc'', ''otgsc''), (''usbmode'', ''usbmode''), (''epsetupstat'', ''endptsetupstat''),
     (''epprime'', ''endpointprime''), (''epflush'', ''endptflush''), (''epstatus'', ''endptstatus''), (''epcomplete'', ''endptcomplete''),
     (''epctrlx'', ''endptctrl'')]"

text \<open>The header describes the registers of the dual-role controller: the operational ones are 0x140 bytes into the block, in the order and
  with the distances of the other header, and bits and values agree, the names of the command, status and mode registers being spelt
  differently.\<close>

lemma mv_registers_agree:
  "list_all (\<lambda>(a, b). map_of (c_offsets 0x140 mv_op_regs) a = map_of (c_offsets 0 fsl_usb_dr_device) b \<and>
                        map_of (c_offsets 0x140 mv_op_regs) a \<noteq> None) mv_names"
  "map_of (c_offsets 0x100 mv_cap_regs) ''dccparams'' = map_of (c_offsets 0 fsl_usb_dr_device) ''dccparams''"
  "c_extent 0 mv_dqh = c_extent 0 fsl_ep_queue_head"
  by code_simp+

lemma mv_bits_agree:
  "agree mv_epctrl fsl_epctrl" "agree mv_portsc fsl_portsc" "agree mv_port_speed fsl_port_speed"
  "map snd mv_usbsts = map snd fsl_usbsts" "map snd mv_frame_size = map snd fsl_frame_size"
  "set (map snd mv_usbcmd) \<subseteq> set (map snd fsl_usbcmd)" "set (map snd mv_usbintr) \<subseteq> set (map snd fsl_usbintr)"
  "set (map snd mv_ctrl_mode) = set (map snd fsl_ctrl_mode)" "set (map snd mv_usbmode) \<subseteq> set (map snd fsl_usbmode)"
  by code_simp+

section \<open>The charger\<close>

text \<open>Each register has three more addresses, where bits that are written are set, cleared or toggled.\<close>

definition charger_offsets :: "(string \<times> int) list" where
  "charger_offsets =
    [(''HW_ANADIG_REG_3P0'', 0x120),
     (''HW_ANADIG_REG_3P0_SET'', 0x124),
     (''HW_ANADIG_REG_3P0_CLR'', 0x128),
     (''HW_ANADIG_REG_3P0_TOG'', 0x12c),
     (''HW_ANADIG_USB1_VBUS_DETECT'', 0x1a0),
     (''HW_ANADIG_USB1_VBUS_DETECT_SET'', 0x1a4),
     (''HW_ANADIG_USB1_VBUS_DETECT_CLR'', 0x1a8),
     (''HW_ANADIG_USB1_VBUS_DETECT_TOG'', 0x1ac),
     (''HW_ANADIG_USB1_CHRG_DETECT'', 0x1b0),
     (''HW_ANADIG_USB1_CHRG_DETECT_SET'', 0x1b4),
     (''HW_ANADIG_USB1_CHRG_DETECT_CLR'', 0x1b8),
     (''HW_ANADIG_USB1_CHRG_DETECT_TOG'', 0x1bc),
     (''HW_ANADIG_USB1_VBUS_DET_STAT'', 0x1c0),
     (''HW_ANADIG_USB1_VBUS_DET_STAT_SET'', 0x1c4),
     (''HW_ANADIG_USB1_VBUS_DET_STAT_CLR'', 0x1c8),
     (''HW_ANADIG_USB1_VBUS_DET_STAT_TOG'', 0x1cc),
     (''HW_ANADIG_USB1_CHRG_DET_STAT'', 0x1d0),
     (''HW_ANADIG_USB1_CHRG_DET_STAT_SET'', 0x1d4),
     (''HW_ANADIG_USB1_CHRG_DET_STAT_CLR'', 0x1d8),
     (''HW_ANADIG_USB1_CHRG_DET_STAT_TOG'', 0x1dc),
     (''HW_ANADIG_USB1_LOOPBACK'', 0x1e0),
     (''HW_ANADIG_USB1_LOOPBACK_SET'', 0x1e4),
     (''HW_ANADIG_USB1_LOOPBACK_CLR'', 0x1e8),
     (''HW_ANADIG_USB1_LOOPBACK_TOG'', 0x1ec),
     (''HW_ANADIG_USB1_MISC'', 0x1f0),
     (''HW_ANADIG_USB1_MISC_SET'', 0x1f4),
     (''HW_ANADIG_USB1_MISC_CLR'', 0x1f8),
     (''HW_ANADIG_USB1_MISC_TOG'', 0x1fc)]"

definition charger_vbus_detect :: "(string \<times> u32) list" where
  "charger_vbus_detect =
    [(''BM_ANADIG_USB1_VBUS_DETECT_EN_CHARGER_RESISTOR'', 0x80000000),
     (''BM_ANADIG_USB1_VBUS_DETECT_RSVD2'', 0x70000000),
     (''BM_ANADIG_USB1_VBUS_DETECT_CHARGE_VBUS'', 0x8000000),
     (''BM_ANADIG_USB1_VBUS_DETECT_DISCHARGE_VBUS'', 0x4000000),
     (''BM_ANADIG_USB1_VBUS_DETECT_RSVD1'', 0x3e00000),
     (''BM_ANADIG_USB1_VBUS_DETECT_VBUSVALID_PWRUP_CMPS'', 0x100000),
     (''BM_ANADIG_USB1_VBUS_DETECT_VBUSVALID_5VDETECT'', 0x80000),
     (''BM_ANADIG_USB1_VBUS_DETECT_VBUSVALID_TO_B'', 0x40000),
     (''BM_ANADIG_USB1_VBUS_DETECT_RSVD0'', 0x3ff00),
     (''BM_ANADIG_USB1_VBUS_DETECT_VBUSVALID_OVERRIDE'', 0x80),
     (''BM_ANADIG_USB1_VBUS_DETECT_AVALID_OVERRIDE'', 0x40),
     (''BM_ANADIG_USB1_VBUS_DETECT_BVALID_OVERRIDE'', 0x20),
     (''BM_ANADIG_USB1_VBUS_DETECT_SESSEND_OVERRIDE'', 0x10),
     (''BM_ANADIG_USB1_VBUS_DETECT_VBUS_OVERRIDE_EN'', 0x8),
     (''BM_ANADIG_USB1_VBUS_DETECT_VBUSVALID_THRESH'', 0x7)]"

definition charger_chrg_detect :: "(string \<times> u32) list" where
  "charger_chrg_detect =
    [(''BM_ANADIG_USB1_CHRG_DETECT_RSVD2'', 0xff000000),
     (''BM_ANADIG_USB1_CHRG_DETECT_BGR_BIAS'', 0x800000),
     (''BM_ANADIG_USB1_CHRG_DETECT_RSVD1'', 0x600000),
     (''BM_ANADIG_USB1_CHRG_DETECT_EN_B'', 0x100000),
     (''BM_ANADIG_USB1_CHRG_DETECT_CHK_CHRG_B'', 0x80000),
     (''BM_ANADIG_USB1_CHRG_DETECT_CHK_CONTACT'', 0x40000),
     (''BM_ANADIG_USB1_CHRG_DETECT_RSVD0'', 0x3fffe),
     (''BM_ANADIG_USB1_CHRG_DETECT_FORCE_DETECT'', 0x1)]"

definition charger_vbus_stat :: "(string \<times> u32) list" where
  "charger_vbus_stat =
    [(''BM_ANADIG_USB1_VBUS_DET_STAT_RSVD0'', 0xfffffff0),
     (''BM_ANADIG_USB1_VBUS_DET_STAT_VBUS_VALID'', 0x8),
     (''BM_ANADIG_USB1_VBUS_DET_STAT_AVALID'', 0x4),
     (''BM_ANADIG_USB1_VBUS_DET_STAT_BVALID'', 0x2),
     (''BM_ANADIG_USB1_VBUS_DET_STAT_SESSEND'', 0x1)]"

definition charger_chrg_stat :: "(string \<times> u32) list" where
  "charger_chrg_stat =
    [(''BM_ANADIG_USB1_CHRG_DET_STAT_RSVD0'', 0xfffffff0),
     (''BM_ANADIG_USB1_CHRG_DET_STAT_DP_STATE'', 0x8),
     (''BM_ANADIG_USB1_CHRG_DET_STAT_DM_STATE'', 0x4),
     (''BM_ANADIG_USB1_CHRG_DET_STAT_CHRG_DETECTED'', 0x2),
     (''BM_ANADIG_USB1_CHRG_DET_STAT_PLUG_CONTACT'', 0x1)]"

definition charger_loopback :: "(string \<times> u32) list" where
  "charger_loopback =
    [(''BM_ANADIG_USB1_LOOPBACK_RSVD0'', 0xfffffe00),
     (''BM_ANADIG_USB1_LOOPBACK_UTMO_DIG_TST1'', 0x100),
     (''BM_ANADIG_USB1_LOOPBACK_UTMO_DIG_TST0'', 0x80),
     (''BM_ANADIG_USB1_LOOPBACK_TSTI_TX_HIZ'', 0x40),
     (''BM_ANADIG_USB1_LOOPBACK_TSTI_TX_EN'', 0x20),
     (''BM_ANADIG_USB1_LOOPBACK_TSTI_TX_LS_MODE'', 0x10),
     (''BM_ANADIG_USB1_LOOPBACK_TSTI_TX_HS_MODE'', 0x8),
     (''BM_ANADIG_USB1_LOOPBACK_UTMI_DIG_TST1'', 0x4),
     (''BM_ANADIG_USB1_LOOPBACK_UTMI_DIG_TST0'', 0x2),
     (''BM_ANADIG_USB1_LOOPBACK_UTMI_TESTSTART'', 0x1)]"

definition charger_misc :: "(string \<times> u32) list" where
  "charger_misc =
    [(''BM_ANADIG_USB1_MISC_RSVD1'', 0x80000000),
     (''BM_ANADIG_USB1_MISC_EN_CLK_UTMI'', 0x40000000),
     (''BM_ANADIG_USB1_MISC_RX_VPIN_FS'', 0x20000000),
     (''BM_ANADIG_USB1_MISC_RX_VMIN_FS'', 0x10000000),
     (''BM_ANADIG_USB1_MISC_RX_RXD_FS'', 0x8000000),
     (''BM_ANADIG_USB1_MISC_RX_SQUELCH'', 0x4000000),
     (''BM_ANADIG_USB1_MISC_RX_DISCON_DET'', 0x2000000),
     (''BM_ANADIG_USB1_MISC_RX_HS_DATA'', 0x1000000),
     (''BM_ANADIG_USB1_MISC_RSVD0'', 0xfffffc),
     (''BM_ANADIG_USB1_MISC_EN_DEGLITCH'', 0x2),
     (''BM_ANADIG_USB1_MISC_HS_USE_EXTERNAL_R'', 0x1)]"

definition BF_ANADIG_USB1_VBUS_DETECT_RSVD2 :: "u32 \<Rightarrow> u32" where
  "BF_ANADIG_USB1_VBUS_DETECT_RSVD2 v = push_bit 28 v AND 0x70000000"
definition BF_ANADIG_USB1_VBUS_DETECT_RSVD1 :: "u32 \<Rightarrow> u32" where
  "BF_ANADIG_USB1_VBUS_DETECT_RSVD1 v = push_bit 21 v AND 0x3e00000"
definition BF_ANADIG_USB1_VBUS_DETECT_RSVD0 :: "u32 \<Rightarrow> u32" where
  "BF_ANADIG_USB1_VBUS_DETECT_RSVD0 v = push_bit 8 v AND 0x3ff00"
definition BF_ANADIG_USB1_VBUS_DETECT_VBUSVALID_THRESH :: "u32 \<Rightarrow> u32" where
  "BF_ANADIG_USB1_VBUS_DETECT_VBUSVALID_THRESH v = push_bit 0 v AND 0x7"
definition BF_ANADIG_USB1_CHRG_DETECT_RSVD2 :: "u32 \<Rightarrow> u32" where
  "BF_ANADIG_USB1_CHRG_DETECT_RSVD2 v = push_bit 24 v AND 0xff000000"
definition BF_ANADIG_USB1_CHRG_DETECT_RSVD1 :: "u32 \<Rightarrow> u32" where
  "BF_ANADIG_USB1_CHRG_DETECT_RSVD1 v = push_bit 21 v AND 0x600000"
definition BF_ANADIG_USB1_CHRG_DETECT_RSVD0 :: "u32 \<Rightarrow> u32" where
  "BF_ANADIG_USB1_CHRG_DETECT_RSVD0 v = push_bit 1 v AND 0x3fffe"
definition BF_ANADIG_USB1_VBUS_DET_STAT_RSVD0 :: "u32 \<Rightarrow> u32" where
  "BF_ANADIG_USB1_VBUS_DET_STAT_RSVD0 v = push_bit 4 v AND 0xfffffff0"
definition BF_ANADIG_USB1_CHRG_DET_STAT_RSVD0 :: "u32 \<Rightarrow> u32" where
  "BF_ANADIG_USB1_CHRG_DET_STAT_RSVD0 v = push_bit 4 v AND 0xfffffff0"
definition BF_ANADIG_USB1_LOOPBACK_RSVD0 :: "u32 \<Rightarrow> u32" where
  "BF_ANADIG_USB1_LOOPBACK_RSVD0 v = push_bit 9 v AND 0xfffffe00"
definition BF_ANADIG_USB1_MISC_RSVD0 :: "u32 \<Rightarrow> u32" where
  "BF_ANADIG_USB1_MISC_RSVD0 v = push_bit 2 v AND 0xfffffc"

text \<open>The macros that build a field, each with the mask and the position of the field.\<close>

definition charger_fields :: "((u32 \<Rightarrow> u32) \<times> u32 \<times> nat) list" where
  "charger_fields =
    [(BF_ANADIG_USB1_VBUS_DETECT_RSVD2, 0x70000000, 28),
     (BF_ANADIG_USB1_VBUS_DETECT_RSVD1, 0x3e00000, 21),
     (BF_ANADIG_USB1_VBUS_DETECT_RSVD0, 0x3ff00, 8),
     (BF_ANADIG_USB1_VBUS_DETECT_VBUSVALID_THRESH, 0x7, 0),
     (BF_ANADIG_USB1_CHRG_DETECT_RSVD2, 0xff000000, 24),
     (BF_ANADIG_USB1_CHRG_DETECT_RSVD1, 0x600000, 21),
     (BF_ANADIG_USB1_CHRG_DETECT_RSVD0, 0x3fffe, 1),
     (BF_ANADIG_USB1_VBUS_DET_STAT_RSVD0, 0xfffffff0, 4),
     (BF_ANADIG_USB1_CHRG_DET_STAT_RSVD0, 0xfffffff0, 4),
     (BF_ANADIG_USB1_LOOPBACK_RSVD0, 0xfffffe00, 9),
     (BF_ANADIG_USB1_MISC_RSVD0, 0xfffffc, 2)]"

definition charger_tables :: "(string \<times> u32) list list" where
  "charger_tables = [charger_vbus_detect, charger_chrg_detect, charger_vbus_stat, charger_chrg_stat, charger_loopback, charger_misc]"

text \<open>The fields of each register, with the reserved ones, are all of its bits, each once.\<close>

lemma charger_partition:
  "list_all (\<lambda>t. table_apart t \<and> fold (\<lambda>(n, m) x. m OR x) t 0 = NOT 0) charger_tables"
  by code_simp

lemma charger_addresses:
  "map snd charger_offsets = concat (map (\<lambda>b. [b, b + 4, b + 8, b + 12]) [0x120, 0x1a0, 0x1b0, 0x1c0, 0x1d0, 0x1e0, 0x1f0])"
  by (simp add: charger_offsets_def)

lemma mo_wf_build:
  assumes "mo_wf (m, p)"
  shows "drop_bit p (push_bit p v AND m) = take_bit (ones m) v"
proof -
  have b: "bit m n \<longleftrightarrow> p \<le> n \<and> n < p + ones m" "p + ones m \<le> 32" for n
    using mo_wf_bit [OF assms] mo_wf_32 [OF assms] by simp_all
  show ?thesis by (rule u32_eqI) (use b(2) in \<open>auto simp: bit_simps b(1)\<close>)
qed

text \<open>A macro puts a value, cut to the field's width, into its field and touches no other bit.\<close>

lemma charger_field_build:
  assumes "(f, m, p) \<in> set charger_fields"
  shows "drop_bit p (f v) = take_bit (ones m) v \<and> f v AND NOT m = 0"
proof -
  have "list_all (\<lambda>f. mo_wf (snd f)) charger_fields" by code_simp
  with assms have "mo_wf (m, p)" by (auto simp: list_all_iff)
  moreover have "f v = push_bit p v AND m" using assms unfolding charger_fields_def
    by (simp only: list.set insert_iff empty_iff prod.inject) (elim disjE; simp add:
      BF_ANADIG_USB1_VBUS_DETECT_RSVD2_def BF_ANADIG_USB1_VBUS_DETECT_RSVD1_def BF_ANADIG_USB1_VBUS_DETECT_RSVD0_def
      BF_ANADIG_USB1_VBUS_DETECT_VBUSVALID_THRESH_def BF_ANADIG_USB1_CHRG_DETECT_RSVD2_def
      BF_ANADIG_USB1_CHRG_DETECT_RSVD1_def BF_ANADIG_USB1_CHRG_DETECT_RSVD0_def BF_ANADIG_USB1_VBUS_DET_STAT_RSVD0_def
      BF_ANADIG_USB1_CHRG_DET_STAT_RSVD0_def BF_ANADIG_USB1_LOOPBACK_RSVD0_def BF_ANADIG_USB1_MISC_RSVD0_def)
  moreover have "(x AND m) AND NOT m = 0" for x by (rule u32_eqI) (simp add: bit_simps)
  ultimately show ?thesis by (simp only: mo_wf_build simp_thms)
qed

end
