(* ===== verification/UserDemo.thy ===== *)
theory UserDemo
  imports Fbgrab CharDev
begin

text \<open>
  The smaller programs: sending and reading input events (\<^verbatim>\<open>src/test_input/sendevent.c\<close>, \<^verbatim>\<open>test_input_app_write.c\<close>,
  \<^verbatim>\<open>test_input_app.c\<close>), the watchdog program with the timeout function it quotes (\<^verbatim>\<open>src/test_watchdog/watchdog_app.c\<close>), the probe
  of the GPIO demo (\<^verbatim>\<open>src/test_gpio/test_gpio.c\<close>), the mapping of the mmap demo (\<^verbatim>\<open>src/test_mmap/test_mmap.c\<close>), and the readers
  of the two spinlock demos (\<^verbatim>\<open>src/test_spinlock\<close>), which never return. System calls are parameters, by their results;
  \<open>None\<close> is undefined behaviour.
\<close>

section \<open>Input events\<close>

text \<open>The fields of the structure of \<^verbatim>\<open>linux/input.h\<close>; the copy in \<^verbatim>\<open>sendevent.c\<close> is under \<^verbatim>\<open>#if 0\<close>.\<close>

record input_event =
  ev_time :: int
  ev_type :: "16 word"
  ev_code :: "16 word"
  ev_value :: "32 word"

text \<open>What the system answers: the file descriptor, the result of the version request, the result of the write.\<close>

record send_env =
  se_open :: "string \<Rightarrow> int"
  se_version :: int
  se_write :: int
  se_size :: nat

text \<open>\<^verbatim>\<open>ret < sizeof(event)\<close> compares an \<^verbatim>\<open>int\<close> with a \<^verbatim>\<open>size_t\<close>: the \<^verbatim>\<open>int\<close> is converted.\<close>

definition sendevent_main :: "send_env \<Rightarrow> string list \<Rightarrow> int \<times> input_event list" where
  "sendevent_main e argv =
     (if length argv \<noteq> 5 then (1, [])
      else if se_open e (argv ! 1) < 0 then (1, [])
      else if se_version e \<noteq> 0 then (1, [])
      else
        let event = \<lparr>ev_time = 0, ev_type = word_of_int (atoi (argv ! 2)), ev_code = word_of_int (atoi (argv ! 3)),
                     ev_value = word_of_int (atoi (argv ! 4))\<rparr>
        in if (word_of_int (se_write e) :: 64 word) < of_nat (se_size e) then (-1, [event]) else (0, [event]))"

definition sendevent_program :: "send_env \<Rightarrow> string list \<Rightarrow> int \<times> input_event list" where
  "sendevent_program e argv = (0, snd (sendevent_main e argv))"

lemma unsigned_compare:
  assumes "- (2 ^ 31) \<le> r" "r < 2 ^ 31" "n < 2 ^ 31"
  shows "(word_of_int r :: 64 word) < of_nat n \<longleftrightarrow> 0 \<le> r \<and> r < int n"
proof -
  have n: "uint (of_nat n :: 64 word) = int n" using assms(3) by (simp add: uint_nat unat_of_nat)
  show ?thesis
  proof (cases "0 \<le> r")
    case True
    then have "uint (word_of_int r :: 64 word) = r" using assms(2) by (simp add: uint_word_of_int)
    then show ?thesis using True n by (simp add: word_less_def)
  next
    case False
    then have "uint (word_of_int r :: 64 word) = 2 ^ 64 + r"
      using assms(1) mod_pos_pos_trivial [of "2 ^ 64 + r" "2 ^ 64"] by (simp add: uint_word_of_int)
    then show ?thesis using False n assms by (simp add: word_less_def)
  qed
qed

text \<open>C37: The program that sends an input event writes the three numbers of its arguments, cut to the sizes of the event's members. It
  reports a write that was too short, but never one that failed: the negative result is converted to a large unsigned number
  before it is compared with the size. Its main function reports no failure at all.\<close>

theorem sendevent_hides_failure:
  assumes "length argv = 5" "0 \<le> se_open e (argv ! 1)" "se_version e = 0"
    and "se_size e < 2 ^ 31" "- (2 ^ 31) \<le> se_write e" "se_write e < 2 ^ 31"
  shows "sendevent_main e argv =
      (if 0 \<le> se_write e \<and> se_write e < int (se_size e) then -1 else 0,
       [\<lparr>ev_time = 0, ev_type = word_of_int (atoi (argv ! 2)), ev_code = word_of_int (atoi (argv ! 3)),
         ev_value = word_of_int (atoi (argv ! 4))\<rparr>]) \<and>
    fst (sendevent_program e argv) = 0"
  using assms unsigned_compare [of "se_write e" "se_size e"] by (simp add: sendevent_main_def sendevent_program_def Let_def)

definition demo_send :: send_env where
  "demo_send = \<lparr>se_open = (\<lambda>_. 3), se_version = 0, se_write = -1, se_size = 24\<rparr>"

theorem sendevent_hides_failure_witness:
  "sendevent_main demo_send [''sendevent'', ''event0'', ''1'', ''57'', ''-1''] =
     (0, [\<lparr>ev_time = 0, ev_type = 1, ev_code = 57, ev_value = -1\<rparr>])"
  using sendevent_hides_failure [of "[''sendevent'', ''event0'', ''1'', ''57'', ''-1'']" demo_send]
  by (simp add: demo_send_def atoi_def isspace_def c_digits_def isdigit_def signed32_def)

text \<open>The writer: a static counter is sent every three seconds, unless the descriptor is one of the three standard ones. The
  counter must not overflow.\<close>

definition event_sync :: "int \<Rightarrow> int \<Rightarrow> int \<times> input_event list \<Rightarrow> (int \<times> input_event list) option" where
  "event_sync fd now st =
     (case st of (i, sent) \<Rightarrow>
        if fd \<le> 2 then Some (i, sent)
        else if i = 2 ^ 31 - 1 then None
        else Some (i + 1, sent @ [\<lparr>ev_time = now, ev_type = 0, ev_code = 1, ev_value = word_of_int i\<rparr>]))"

definition send_event :: "int \<Rightarrow> 16 word \<Rightarrow> 16 word \<Rightarrow> 32 word \<Rightarrow> int \<Rightarrow> input_event list \<Rightarrow> input_event list" where
  "send_event fd type code value now sent =
     (if fd \<le> 2 then sent else sent @ [\<lparr>ev_time = now, ev_type = type, ev_code = code, ev_value = value\<rparr>])"

primrec writer_loop :: "int \<Rightarrow> int list \<Rightarrow> int \<times> input_event list \<Rightarrow> (int \<times> input_event list) option" where
  "writer_loop fd [] st = Some st"
| "writer_loop fd (now # ts) st = Option.bind (event_sync fd now st) (writer_loop fd ts)"

definition writer_main :: "int \<Rightarrow> int list \<Rightarrow> input_event list option" where
  "writer_main fd ts = (if fd < 0 then Some [] else map_option snd (writer_loop fd ts (0, [])))"

lemma writer_loop_counts:
  "2 < fd \<Longrightarrow> 0 \<le> i \<Longrightarrow> i + int (length ts) < 2 ^ 31 \<Longrightarrow>
   writer_loop fd ts (i, sent) = Some (i + int (length ts),
     sent @ map (\<lambda>(k, now). \<lparr>ev_time = now, ev_type = 0, ev_code = 1, ev_value = word_of_int k\<rparr>)
              (zip (map (\<lambda>k. i + int k) [0..<length ts]) ts))"
proof (induction ts arbitrary: i sent)
  case (Cons now ts)
  have shift: "map (\<lambda>k. i + int k) [0..<Suc (length ts)] = i # map (\<lambda>k. (i + 1) + int k) [0..<length ts]"
    by (simp add: upt_conv_Cons map_Suc_upt [symmetric] del: upt_Suc)
  show ?case using Cons.prems
    by (simp add: event_sync_def Cons.IH shift del: upt_Suc)
qed simp

text \<open>The events carry the numbers from 0 on, in order and without a gap.\<close>

lemma writer_main_counts:
  assumes "2 < fd" "int (length ts) < 2 ^ 31"
  shows "writer_main fd ts = Some (map (\<lambda>(k, now). \<lparr>ev_time = now, ev_type = 0, ev_code = 1, ev_value = word_of_int k\<rparr>)
           (zip (map int [0..<length ts]) ts))"
  using writer_loop_counts [OF assms(1), of 0 ts "[]"] assms by (simp add: writer_main_def)

text \<open>
  The reader prints its event after every read that is not an error. A read that returns 0 leaves the event as it was, and at
  first the event is not initialised. The result is what was printed and whether the program ended.
\<close>

fun input_reader :: "(int \<times> input_event) list \<Rightarrow> input_event option \<Rightarrow> (input_event list \<times> bool) option" where
  "input_reader [] ev = Some ([], False)"
| "input_reader ((ret, new) # rs) ev =
     (if ret < 0 then Some ([], True)
      else case (if ret = 0 then ev else Some new) of
             None \<Rightarrow> None
           | Some x \<Rightarrow> map_option (\<lambda>(out, ended). (x # out, ended)) (input_reader rs (Some x)))"

lemma input_reader_prints:
  "list_all (\<lambda>r. 0 < fst r) rs \<Longrightarrow> ret < 0 \<Longrightarrow> input_reader (rs @ (ret, x) # rest) ev = Some (map snd rs, True)"
  by (induction rs arbitrary: ev) auto

lemma input_reader_uninitialised: "input_reader ((0, x) # rs) None = None"
  by simp

section \<open>The watchdog\<close>

text \<open>Ten pings and then none: the counter goes on, and must not underflow. The state is the counter and the pings so far.\<close>

primrec watchdog_loop :: "nat \<Rightarrow> int \<times> nat \<Rightarrow> (int \<times> nat) option" where
  "watchdog_loop 0 st = Some st"
| "watchdog_loop (Suc n) st =
     (case st of (ii, pings) \<Rightarrow>
        if ii = - (2 ^ 31) then None else watchdog_loop n (ii - 1, if ii > 0 then pings + 1 else pings))"

lemma watchdog_loop_counts:
  "- (2 ^ 31) \<le> ii - int n \<Longrightarrow> watchdog_loop n (ii, p) = Some (ii - int n, p + min n (nat ii))"
proof (induction n arbitrary: ii p)
  case (Suc n)
  then have "ii \<noteq> - (2 ^ 31)" by simp
  with Suc show ?case by (auto simp: min_def)
qed simp

lemma watchdog_pings_ten_times: "n < 2 ^ 31 \<Longrightarrow> watchdog_loop n (10, 0) = Some (10 - int n, min n 10)"
  using watchdog_loop_counts [of 10 n 0] by simp

text \<open>The timeout function: the mask of the interval is the register's; \<open>v\<close> is the register.\<close>

definition nuc970wdt_set_timeout :: "u32 \<Rightarrow> u32 \<Rightarrow> u32 \<Rightarrow> int \<times> u32" where
  "nuc970wdt_set_timeout WTIS timeout v =
     (let v = v AND NOT WTIS;
          v = (if timeout < 2 then v OR push_bit 8 0x5 else if timeout < 8 then v OR push_bit 8 0x6 else v OR push_bit 8 0x7)
      in (0, v))"

text \<open>The interval of a register value, in periods of the crystal with 32768 Hz, as the comment has it.\<close>

definition wdt_periods :: "u32 \<Rightarrow> nat" where
  "wdt_periods v = 2 ^ (4 + 2 * unat (drop_bit 8 v AND 7)) + 1024"

lemma wdt_field:
  "drop_bit 8 (snd (nuc970wdt_set_timeout 0x700 timeout v)) AND 7 = (if timeout < 2 then 5 else if timeout < 8 then 6 else 7)"
proof -
  define W S where "W = (0x700 :: u32)" and "S = (7 :: u32)"
  have m: "W = push_bit 8 (mask 3)" "S = mask 3" by (simp_all add: W_def S_def mask_eq_exp_minus_1)
  have "drop_bit 8 ((v AND NOT W) OR push_bit 8 k) AND S = k AND S" for k :: u32
    unfolding m by (rule bit_word_eqI) (auto simp: bit_simps)
  then have "drop_bit 8 ((v AND NOT 0x700) OR push_bit 8 k) AND 7 = k AND 7" for k :: u32 by (simp only: W_def S_def)
  from this [of 5] this [of 6] this [of 7] show ?thesis by (simp add: nuc970wdt_set_timeout_def Let_def)
qed

text \<open>The watchdog bites before the time that was asked for, unless that is 0, 2 or 8 seconds.\<close>

lemma wdt_bites_early:
  "wdt_periods (snd (nuc970wdt_set_timeout 0x700 timeout v)) < unat timeout * 32768 \<longleftrightarrow> timeout \<notin> {0, 2, 8}"
proof -
  have lt: "timeout < 2 \<longleftrightarrow> unat timeout < 2" "timeout < 8 \<longleftrightarrow> unat timeout < 8" by (simp_all add: word_less_nat_alt)
  have eq: "timeout = 0 \<longleftrightarrow> unat timeout = 0" "timeout = 2 \<longleftrightarrow> unat timeout = 2" "timeout = 8 \<longleftrightarrow> unat timeout = 8"
    by (simp_all add: word_unat_eq_iff)
  show ?thesis unfolding wdt_periods_def wdt_field insert_iff empty_iff lt eq by auto
qed

section \<open>The GPIO demo\<close>

datatype gpio_ptr = GNull | GErr int | GDesc nat

text \<open>What the GPIO library answers; the interrupt is requested for what the second status line gives.\<close>

record gpio_env =
  ge_status0 :: gpio_ptr
  ge_reset :: gpio_ptr
  ge_status1 :: gpio_ptr
  ge_direction :: int
  ge_irq :: "gpio_ptr \<Rightarrow> int"

definition gpio_demo_probe :: "gpio_env \<Rightarrow> int \<times> (gpio_ptr \<times> bool) list" where
  "gpio_demo_probe e =
     (let s0 = ge_status0 e;
          ops = (case s0 of GErr _ \<Rightarrow> [] | _ \<Rightarrow> [(s0, False)]);
          (ret, ops) = (case ge_reset e of GErr _ \<Rightarrow> (0, ops) | r \<Rightarrow> (ge_direction e, ops @ [(r, True)]))
      in case ge_status1 e of
           GErr err \<Rightarrow> (err, ops)
         | s1 \<Rightarrow> (ge_irq e s1, ops))"

text \<open>The result is that of the second status line alone: a reset line that is missing or cannot be switched is not reported.\<close>

lemma gpio_demo_probe_result:
  "fst (gpio_demo_probe e) = (case ge_status1 e of GErr err \<Rightarrow> err | s1 \<Rightarrow> ge_irq e s1)"
  by (simp add: gpio_demo_probe_def Let_def split: gpio_ptr.splits)

section \<open>The mapping of the mmap demo\<close>

text \<open>The pages from the buffer's on are mapped for the whole length that the user asks for. A mapping is its start, its first page
  and its length.\<close>

definition mmap_buffer_size :: nat where "mmap_buffer_size = 32 * 1024 * 1024"

definition mmap_map :: "int \<Rightarrow> nat \<Rightarrow> nat \<Rightarrow> nat \<Rightarrow> nat \<Rightarrow> int \<times> (nat \<times> nat \<times> nat) option" where
  "mmap_map remap PAGE_SHIFT phys vm_start vm_end =
     (if remap < 0 then (-1, None) else (0, Some (vm_start, phys div 2 ^ PAGE_SHIFT, vm_end - vm_start)))"

text \<open>The physical address behind a user address.\<close>

definition translate :: "nat \<Rightarrow> nat \<times> nat \<times> nat \<Rightarrow> nat \<Rightarrow> nat option" where
  "translate PAGE_SHIFT m va =
     (case m of (start, pfn, len) \<Rightarrow> if start \<le> va \<and> va < start + len then Some (pfn * 2 ^ PAGE_SHIFT + (va - start)) else None)"

lemma mmap_exceeds_buffer:
  assumes "2 ^ PAGE_SHIFT dvd phys" "vm_start \<le> vm_end" "mmap_map remap PAGE_SHIFT phys vm_start vm_end = (0, Some m)"
  shows "(\<forall>va pa. translate PAGE_SHIFT m va = Some pa \<longrightarrow> phys \<le> pa \<and> pa < phys + mmap_buffer_size) \<longleftrightarrow>
    vm_end - vm_start \<le> mmap_buffer_size"
proof -
  have "m = (vm_start, phys div 2 ^ PAGE_SHIFT, vm_end - vm_start)" using assms(3) by (auto simp: mmap_map_def split: if_splits)
  then have t: "translate PAGE_SHIFT m va = (if vm_start \<le> va \<and> va < vm_end then Some (phys + (va - vm_start)) else None)" for va
    using assms(1,2) by (simp add: translate_def)
  show ?thesis
  proof
    assume all: "\<forall>va pa. translate PAGE_SHIFT m va = Some pa \<longrightarrow> phys \<le> pa \<and> pa < phys + mmap_buffer_size"
    show "vm_end - vm_start \<le> mmap_buffer_size"
    proof (cases "vm_start < vm_end")
      case True
      then obtain k where k: "vm_end = Suc (vm_start + k)" using less_imp_Suc_add by blast
      then have "translate PAGE_SHIFT m (vm_start + k) = Some (phys + k)" by (simp add: t)
      with all have "phys + k < phys + mmap_buffer_size" by blast
      then show ?thesis by (simp add: k)
    qed simp
  qed (auto simp: t)
qed

section \<open>The spinlock demos\<close>

text \<open>The module with the attribute has the same functions as the sysfs example, and initialises its lock besides.\<close>

definition spinlock_example_init :: "chr_env \<Rightarrow> chr_state \<Rightarrow> (int \<times> chr_state) option" where
  "spinlock_example_init e s = sysfs_example_init e s"

definition spinlock_example_exit :: "chr_state \<Rightarrow> chr_state" where
  "spinlock_example_exit s = sysfs_example_exit s"

text \<open>A reader takes the lock, loops while a condition holds, and gives the lock back. The condition is the constant 1.\<close>

datatype spin_pc = Calling | Looping | Returned

record spin_state =
  spin_holder :: "nat option"
  spin_at :: "nat \<Rightarrow> spin_pc"

definition spin_read :: "bool \<Rightarrow> nat \<Rightarrow> spin_state \<Rightarrow> spin_state" where
  "spin_read again i s =
     (case spin_at s i of
        Calling \<Rightarrow> if spin_holder s = None then s\<lparr>spin_holder := Some i, spin_at := (spin_at s)(i := Looping)\<rparr> else s
      | Looping \<Rightarrow> if again then s else s\<lparr>spin_holder := None, spin_at := (spin_at s)(i := Returned)\<rparr>
      | Returned \<Rightarrow> s)"

lemma spin_never_returns:
  assumes "\<forall>i. spin_at s i \<noteq> Returned"
  shows "\<forall>i. spin_at (fold (spin_read True) is s) i \<noteq> Returned"
  using assms by (induction "is" arbitrary: s) (auto simp: spin_read_def split: spin_pc.splits)

lemma spin_keeps_lock: "spin_holder s = Some i \<Longrightarrow> spin_holder (fold (spin_read True) is s) = Some i"
  by (induction "is" arbitrary: s) (auto simp: spin_read_def split: spin_pc.splits)

end
