(* ===== verification/Spec2Isabelle.thy ===== *)
theory Spec2Isabelle
  imports ScaleBind UsbString UsbConfig EpAutoconf CompositeIds CompositeReqs C2duramar C2efm Spi2apb QfpFuse
    TimedGpio Mirror ListHead Bmp Drm Tap SyncDemo Demos PlatDemo
    AmdUdc AtmelUsba FslUdc Renesas Fusb300 UdcMisc SysReg CompositeDemo ImxUdc UserDemo
begin

text \<open>
  A verification library for the driver examples of this repository.

  \<^bold>\<open>The program.\<close> The repository is a collection of Linux kernel modules. Most of its code is a USB gadget in
  \<^verbatim>\<open>src/test_gadget\<close>: the function driver \<^verbatim>\<open>scale_usb.c\<close> (a character device on six bulk endpoints) on top of
  the composite framework \<^verbatim>\<open>composite.c\<close>, with the helpers \<^verbatim>\<open>usbstring.c\<close> (string descriptors), \<^verbatim>\<open>config.c\<close>
  (descriptor buffers) and \<^verbatim>\<open>epautoconf.c\<close> (choice of endpoints, with the controller table of
  \<^verbatim>\<open>gadget_chips.h\<close>). The other drivers stand alone: a bit-banged programmer for the C2 interface in
  \<^verbatim>\<open>src/test_c2port\<close> with two boards, an SPI-to-APB bridge in \<^verbatim>\<open>src/test_spi\<close>, a fuse programmer in
  \<^verbatim>\<open>src/test_qfp_fuse\<close>, timed GPIO outputs in \<^verbatim>\<open>src/test_timedgpio\<close>, a blocking counter with many readers in
  \<^verbatim>\<open>src/test_list_head\<close> and a port mirror in \<^verbatim>\<open>src/net\<close>. Then there are programs for the screen (a framebuffer
  grabber, two bitmap programs and a DRM demo in \<^verbatim>\<open>src/test_framebuffer\<close> and \<^verbatim>\<open>src/test_drm\<close>), for TAP devices
  (\<^verbatim>\<open>src/test_tap\<close>), and some twenty small modules that show one kernel interface each, most of them behind a character
  device. Beside the gadget are the headers of other USB controllers, and \<^verbatim>\<open>src/uboot\<close> has a bare-metal application.

  \<^bold>\<open>Conventions.\<close> A C structure is a record, a function is a definition of the same name, and global or device
  state is passed and returned. Error numbers are negative integers, as in the kernel. Undefined behaviour
  (an access outside an object or through a null or error pointer) is \<open>None\<close>, so that a theorem that a function
  returns \<open>Some\<close> is a memory-safety theorem. Where a driver only hands a buffer and a length to a controller, the call is
  recorded with both, and whether the length fits is a statement about the record. Integers keep their width where overflow can be reached. What the
  kernel does (allocation, registration, controller, user copies, SPI transfers, GPIOs) is a parameter; what is
  relied on is a hypothesis of the theorem, with a witness on a concrete parameter.

  \<^bold>\<open>Theories.\<close>

  \<^item> \<open>Prelude\<close>: machine integers, error numbers, byte buffers, kernel pointers, decimal output, shared lemmas.

  \<^item> \<open>UsbString\<close> (\<^verbatim>\<open>usbstring.c\<close>): \<open>utf8_to_utf16le\<close> and \<open>usb_gadget_get_string\<close>. The conversion is the inverse of
    UTF-8 encoding on the basic plane, the descriptor decodes to the string and stays in its buffer.

  \<^item> \<open>UsbConfig\<close> (\<^verbatim>\<open>config.c\<close>): \<open>usb_descriptor_fillbuf\<close>, \<open>usb_gadget_config_buf\<close>, \<open>usb_copy_descriptors\<close>,
    \<open>usb_find_endpoint\<close>. A host parses the buffer back into the descriptors.

  \<^item> \<open>EpAutoconf\<close> (\<^verbatim>\<open>epautoconf.c\<close>, \<^verbatim>\<open>gadget_chips.h\<close>): \<open>ep_matches\<close>, \<open>usb_ep_autoconfig\<close>. The chosen endpoint fits the
    request in direction, transfer type and packet size, of which the first two are read off its name; none is chosen only if none matches.

  \<^item> \<open>Composite\<close> (\<^verbatim>\<open>composite.c\<close>): all operations of the framework over two stores of functions and configurations.
    \<open>CompositeIds\<close> shows that identifiers are unique; \<open>CompositeDesc\<close> that descriptors parse and are
    counted right; \<open>CompositeConf\<close> what selecting a configuration does and which function gets a request;
    \<open>CompositeReqs\<close> that after any sequence of bus events the one kind of control request that leaves its
    objects is a request to an endpoint without a configuration, that no other answers with more than was asked
    for, and that activations are counted. \<open>CompositeDemo\<close> is the device of the
    witnesses. What a host reads as a configuration is put together from these at the end of this theory.

  \<^item> \<open>ScaleIo\<close> (\<^verbatim>\<open>scale_usb.c\<close>): request pools, \<open>rx_complete\<close>, \<open>tx_complete\<close> and the file operations; \<open>ScaleStream\<close> and
    \<open>ScaleWrite\<close> prove the loops of \<open>scale_read\<close> and \<open>scale_write\<close>; \<open>ScaleOps\<close> puts file operations and
    interrupts in any order. The locale \<open>stream_machine\<close> is the contract of a machine that delivers a
    stream: a step keeps the invariant and the objects, and extends what has arrived. It is interpreted on
    \<open>scale_step\<close>; from it follows that the device refines a queue of bytes and loses no request.
    \<open>ScaleSetup\<close> and \<open>ScaleCtl\<close> are the control requests, with the exact condition under which one leaves its
    objects: a soft reset, an overlong vendor request, or a reply longer than the buffer. \<open>ScaleBind\<close> is \<open>scale_bind\<close> and \<open>scale_unbind\<close> on top
    of \<open>EpAutoconf\<close> and the string numbers of \<open>Composite\<close>, and the whole device after binding.

  \<^item> \<open>C2port\<close> (\<^verbatim>\<open>core.c\<close>): register frames, polling, sysfs handlers, registration, in a state monad over the pins.
    \<open>C2link\<close> has the contract of a board, the locale \<open>c2_link\<close>, and proves inside it that the frames are
    the commands they should be; \<open>C2sysfs\<close> has the sequences of requests. \<open>C2duramar\<close>
    (\<^verbatim>\<open>c2port-duramar2150.c\<close>) interprets \<open>c2_link\<close> on its two port registers; \<open>C2efm\<close> (\<^verbatim>\<open>c2port-client.c\<close>) states
    the behaviour of GPIOs as the locale \<open>gpio_lib\<close>, makes it a sublocale of \<open>c2_link\<close> and interprets it on
    a bank of GPIOs.

  \<^item> \<open>Spi2apb\<close> (\<^verbatim>\<open>spi2apb.c\<close>): messages to the bridge, checked transfers with retries. A checked write that succeeds has
    stored every byte, on every bus that executes the messages.

  \<^item> \<open>QfpFuse\<close> (\<^verbatim>\<open>qfp_fuse.c\<close>): open, release, ioctl. Fuses are blown word by word, verified, with the regulator on
    only meanwhile; accesses stay in bounds unless a 32-bit sum wraps, and what a size that wraps leads to is said too.

  \<^item> \<open>TimedGpio\<close> (\<^verbatim>\<open>timed_gpio.c\<close>, \<^verbatim>\<open>timed_output.c\<close>, \<^verbatim>\<open>timed_gpiodev.c\<close>): one output over time, the class, probe and
    remove. The output follows the last command; a failed probe leaves nothing behind.

  \<^item> \<open>Mirror\<close> (\<^verbatim>\<open>mirror.c\<close>): the module parameter, the packet handler and the references to devices. The packets of the
    listed ports, and no others, are forwarded, for devices with an index below 32; a higher index is an undefined shift.

  \<^item> \<open>ListHead\<close> (\<^verbatim>\<open>test_list_head.c\<close>): an interleaving machine of readers, timer callback, signals and attribute
    files. No wake-up is lost: a reader that sleeps has fetched the present counter or opened the file at it. A blocked reader is
    served after the next callback whatever the others do, as long as the counter has at most eight digits.

  \<^item> \<open>Fbgrab\<close> (\<^verbatim>\<open>fbgrab.c\<close>): options, terminals, the framebuffer, the four conversions and the image handed to libpng. A grab
    writes the picture of the screen, for the sizes whose offsets fit an \<^verbatim>\<open>int\<close> and libpng accepts; depth 15 reads out of
    bounds. \<open>Bmp\<close> (\<^verbatim>\<open>test_fd_app1.c\<close>, \<^verbatim>\<open>test_fb_app.c\<close>) saves the screen as a bitmap and has \<open>show_bmp\<close>, whose call in the
    program is under \<^verbatim>\<open>#if 0\<close>. With a \<^verbatim>\<open>long\<close> of four bytes showing a saved file restores a screen of the same size; with
    one of eight bytes the header has another layout and showing the file fails.

  \<^item> \<open>Drm\<close> (\<^verbatim>\<open>testdrm.c\<close>): timings, dumb buffers, the conversion of the files and the endless loop, unrolled any number
    of times. The first file is shown, the others never; a small mapping is overrun.

  \<^item> \<open>Tap\<close> (\<^verbatim>\<open>test_tap_tcp_udp_file.c\<close>, \<^verbatim>\<open>test_tap_file.c\<close>, \<^verbatim>\<open>test_tap_socket.c\<close>): one buffer and a list of frames. What is sent
    for an ARP request, for an ICMP request and by the raw socket. The answer to ICMP takes its offsets from an IP packet without
    Ethernet header, although the device is opened for Ethernet frames, which it garbles. The only
    frames that are read out of bounds are UDP packets with a long length field.

  \<^item> \<open>CharDev\<close>: loading and unloading of the modules with a character device or a class, and of the scale gadget, over a
    ledger of what the kernel handed out. The locale \<open>kernel_module\<close> is the contract of a module: unloading gives back
    what loading took. It is interpreted on thirteen modules here and on five in \<open>PlatDemo\<close> (platform, key, input,
    firmware and regulator demos); in it any number of reloads is proved balanced. The mmap demo and the scale
    gadget do not satisfy it, which is shown instead.

  \<^item> \<open>SyncDemo\<close>: the completion and wait-queue demos as interleaving readers and writers, the sleeping loops with the
    locale \<open>sleep_loop\<close> (a loop returns at the first turn that gives a reason), tasklets and work items with the
    locale \<open>deferred_item\<close> (one run at most for each request, requests in between coalesce).

  \<^item> \<open>Demos\<close>: the proc file, the sysfs attribute, the timer, the misc device, the netlink echo, the register echo and the
    output function of the bare-metal application \<^verbatim>\<open>uboot/app/hello.c\<close>.

  \<^item> \<open>RegField\<close>: what the field macros of a register header have to do, as the locale \<open>register_fields\<close>: reading a field after a
    write gives the value cut to its width, and a write leaves the fields apart from it alone. In it a register is proved to
    refine the collection of its fields, over any sequence of writes. It also has masks, and the layout of C structures.

  \<^item> \<open>AmdUdc\<close> (\<^verbatim>\<open>amd5536udc.h\<close>) and \<open>AtmelUsba\<close> (\<^verbatim>\<open>atmel_usba_udc.h\<close>) have the tables of fields of two controllers and interpret
    \<open>register_fields\<close> on the macros of each, one with masks and offsets, the other with offsets and sizes. The fields of a
    register do not overlap and their values fit; the exceptions are named.

  \<^item> \<open>FslUdc\<close> (\<^verbatim>\<open>fsl_usb2_udc.h\<close>, \<^verbatim>\<open>arcotg_udc.h\<close>, \<^verbatim>\<open>fsl_qe_udc.h\<close>): two headers of one controller are compared register by
    register, pipes are shown to number the endpoints, and the frames of a third controller are cleared and set up.

  \<^item> \<open>Renesas\<close> (\<^verbatim>\<open>m66592-udc.h\<close>, \<^verbatim>\<open>r8a66597-udc.h\<close>): the accessors of registers and fifos. The bytes that cross a fifo are exactly
    the bytes of the buffer, in order and on the byte lanes of the chosen byte order, for every alignment, width and length, except for reads of the first controller, which
    store whole words. All masks of the first are compared with the bits that their comments name.

  \<^item> \<open>Fusb300\<close> (\<^verbatim>\<open>fusb300_udc.h\<close>) and \<open>UdcMisc\<close> (\<^verbatim>\<open>goku_udc.h\<close>, \<^verbatim>\<open>net2280.h\<close>, \<^verbatim>\<open>pxa27x_udc.h\<close>): addresses, bits and the macros that compute
    them from the endpoint, and the small functions of the headers. A macro that shifts by a bad amount has no value.

  \<^item> \<open>ImxUdc\<close> (\<^verbatim>\<open>imx_udc.h\<close>, \<^verbatim>\<open>mv_udc.h\<close>, \<^verbatim>\<open>imx_usb_charger.h\<close>): addresses and fields; the second header is compared with that of \<open>FslUdc\<close>,
    the fields of the third are all the bits of their registers.

  \<^item> \<open>UserDemo\<close>: the programs for input events and the watchdog, the probe of the GPIO demo, the mapping of the mmap demo and the
    readers of the spinlock demos, of which it is shown that none returns and that the lock stays taken.

  \<^item> \<open>SysReg\<close> (\<^verbatim>\<open>sysreg.h\<close>, \<^verbatim>\<open>crash.c\<close>, \<^verbatim>\<open>hello.c\<close> under \<^verbatim>\<open>uboot/app\<close>): the encoding of system registers and of the instructions that
    access them, which can be read back, all registers the header names, and the dump of a crash.

  \<^bold>\<open>Bounds.\<close> Loops are structural or have a measure; the only bounds are those of the code (numbers of tries, 20
  requests, 512 and 256 byte buffers, 32 ports). A file operation of the scale gadget takes a list of windows,
  the places where interrupts may arrive; after the last one nothing arrives. The list is universally
  quantified in the theorems, so every finite number of interruptions is covered. The list also bounds how often a copy to the
  user fails, so that \<open>scale_read\<close> returns is no theorem: a copy that fails forever keeps the loop of the source running.
  Runs of the machines are finite lists of events of any length. The endless loops of the screen
  and TAP programs run over a list of reads or a number of turns, for every list and number; a loop that polls hardware or
  sleeps runs over the list of what each turn sees and is \<open>None\<close> while it has not ended, and when it ends is a theorem.

  \<^bold>\<open>Findings.\<close> Some theorems show what the code does not do: a request of the fuse driver that wraps and overruns its
  buffer (\<open>qfp_limit_wraps\<close>), a delayed status that survives a disconnect, requests leaked by \<open>scale_unbind\<close>, a
  reader of the counter that never reports an error, references kept by a mirror that was not loaded, device numbers
  that the scale gadget never gives back (\<open>scale_module_leaks_region\<close>), a wait queue whose first write wakes nobody and
  whose second can release every reader, a timer that repeats a thousand times too fast, an attribute that does not
  return what was written, flags of an interface taken from its hardware address, and buffers of 100, 4096 and 10240
  bytes that input of the user or the network overruns. The scale gadget queues
  replies beyond its buffer (\<open>scale_device_in_order\<close>), \<open>composite_setup\<close> uses a null configuration
  (\<open>composite_setup_safe\<close>), the ICMP answer garbles Ethernet frames (\<open>icmp_tap_garbles_frames\<close>), the bitmap header depends on the
  size of \<^verbatim>\<open>long\<close> (\<open>bmp_round_trip\<close>), and the mirror shifts by an interface index that may be 32 or more
  (\<open>mirror_forwards\<close>). In the headers: a frame number that is lost (\<open>amd_frame_number_lost\<close>), a read that overruns its buffer
  (\<open>m66592_read_fifo_rounds_up\<close>), interrupts that are enabled under another bit (\<open>fusb300_enable_matches_status\<close>) or under none
  (\<open>goku_nak_macro_empty\<close>), exchanged line states (\<open>fsl_headers_agree\<close>), an LED that is never switched
  (\<open>net2280_led_active_wrong\<close>), a failed write that is not reported (\<open>sendevent_hides_failure\<close>), a mapping that is longer than
  its buffer (\<open>mmap_exceeds_buffer\<close>), and a dump that reads unset variables (\<open>crash_dump_reports\<close>).

  \<^bold>\<open>Not modelled.\<close> Locks and disabled interrupts have a counterpart only where operations interleave (\<open>ScaleIo\<close>,
  \<open>ListHead\<close>, \<open>SyncDemo\<close>); elsewhere a handler runs to its end. Two effects of
  locks are therefore outside the model: \<open>scale_disconnect\<close> holds a lock that a completion inside it takes, which is a deadlock on
  several processors, and \<open>rx_complete\<close> has its lock commented out, so that it may overlap with a reader there. Packets of the
  mirror are linear buffers. What is printed for diagnosis is left out. Of the headers of USB
  controllers beside the gadget, which none of its files uses, the software structures, debugging macros and the smaller
  headers are left out, as are those of USB classes. Asynchronous I/O and the
  programs that test the netlink and mmap demos are sequences of system calls without state of their own; scripts, device trees,
  linker scripts and start-up code are not C.
\<close>

section \<open>Reading a configuration through the framework\<close>

lemma clip_nat: "n \<le> 1024 \<Longrightarrow> clip w (int n) = int (min (unat w) n)"
proof -
  assume n: "n \<le> 1024"
  have "unat (word_of_int (int n) :: u16) = n" using n by (simp add: unat_of_nat)
  then show ?thesis
    unfolding clip_def by (simp add: min_def word_le_nat_alt) (simp add: uint_nat)
qed

text \<open>
  C20: What a host reads when it asks for a configuration descriptor, end to end. On a properly bound
  device after any sequence of bus events, let \<open>c\<close> be the configuration with the index of the request
  among those that work at the present speed, with exact descriptors that fit into 1024 bytes. The
  request succeeds or fails as the controller accepts the reply, and exactly one reply is queued: the
  first \<^verbatim>\<open>wLength\<close> bytes of the header and the descriptors of the configuration and its functions, with
  the zero flag exactly when the host asked for more than there is. The whole is as long as its header
  says and is parsed back into the parts, so a host that reads nine bytes first and then the total
  length gets the configuration. Nothing but the reply buffer and its bookkeeping changes.
\<close>

theorem composite_config_read:
  assumes dev: "comp_inv e s0" "drivers_ok e s0" "1024 < DELAYED_STATUS e" "set_alt_contract e" "(bus_step e)\<^sup>*\<^sup>* s0 s"
    and ctrl: "bRequestType ctrl = 0x80" "bRequest ctrl = 6" "ucast (drop_bit 8 (wValue ctrl)) = USB_DT_CONFIG"
    and hs: "hs \<longleftrightarrow> is_dual e \<and> gspeed s = SPEED_HIGH" "sp = (if hs then SPEED_HIGH else SPEED_UNKNOWN)"
    and conf: "works = filter (\<lambda>c. works_at hs (confs s c)) (configs s)" "unat (wValue ctrl AND 0xff) < length works"
      "c = works ! unat (wValue ctrl AND 0xff)"
    and descs: "\<forall>d\<in>set (config_descs s c sp). exact_desc d" "n = 9 + descs_total (config_descs s c sp)" "n \<le> 1024"
    and read: "parts = config_header e (confs s c) USB_DT_CONFIG n # config_descs s c sp"
      "d = take (unat (wLength ctrl)) (concat parts)"
  shows "\<exists>s'. composite_setup e ctrl s = Some (ext e (EpQueue d (n < unat (wLength ctrl))) (calls s), s') \<and>
           calls s' = calls s @ [EpQueue d (n < unat (wLength ctrl))] \<and> quiet s s' \<and>
           length (concat parts) = n \<and> parse_descs (concat parts) = Some parts"
proof -
  let ?k = "unat (wValue ctrl AND 0xff)" and ?w = "unat (wLength ctrl)"
  have inv: "comp_inv e s" "drivers_ok e s" using bus_reach_inv [OF dev(5,1,2) _ dev(4)] dev(3) by simp_all
  define t where "t = s\<lparr>req_zero := False, req_length := 0\<rparr>"
  have wf: "\<forall>d\<in>set (config_descs t c sp). wf_desc d" and cp: "map desc_copy (config_descs s c sp) = config_descs s c sp"
    using descs(1) exact_desc_wf by (auto simp: t_def config_descs_def intro!: map_idI)
  have t: "config_descs t c sp = config_descs s c sp" by (simp add: t_def config_descs_def)
  have big: "1024 \<le> length (req_buf t)" using inv(1) by (simp add: comp_inv_def t_def)
  have len: "length (concat parts) = n"
    using length_concat_desc_copy [OF wf] cp descs(2) by (simp add: t read config_header_def)
  define m where "m = concat parts @ drop n (req_buf s)"
  have buf: "config_buf e t c sp USB_DT_CONFIG = Some (int n, m)"
    using config_buf_cases [OF wf big, of e USB_DT_CONFIG] descs(2,3) cp by (simp add: t m_def read) (simp add: t_def)
  have lm: "length m = length (req_buf s)" using len descs(3) big by (simp add: m_def t_def)
  have pick: "nth_config (confs t) hs (configs t) ?k = Some c"
    using conf by (simp add: nth_config_filter t_def Let_def)
  have "config_desc e (wValue ctrl) t = Some (int n, t\<lparr>req_buf := m\<rparr>)"
    using pick buf hs ctrl(3) by (simp add: config_desc_def Let_def t_def)
  then have gd: "get_descriptor e ctrl t = Some (int (min ?w n), t\<lparr>req_buf := m\<rparr>)"
    using ctrl(3) descs(3) by (simp add: get_descriptor_def Let_def clip_nat)
  have lt: "int (min ?w n) < uint (wLength ctrl) \<longleftrightarrow> n < ?w"
  proof -
    have "uint (wLength ctrl) = int ?w" by simp
    then show ?thesis by (simp only: of_nat_less_iff) auto
  qed
  have d: "take (min ?w n) m = d" using len by (simp add: m_def read min_def)
  have ok: "\<not> int (length m) < int (min ?w n)" "int (min ?w n) \<noteq> DELAYED_STATUS e"
    using lm big descs(3) dev(3) by (simp_all add: t_def)
  have "composite_setup e ctrl s = respond e (wLength ctrl) (int (min ?w n)) (t\<lparr>req_buf := m\<rparr>)"
    using ctrl gd by (simp add: composite_setup_def standard_request_def t_def [symmetric])
  then show ?thesis
    using ok lt d len lm parse_descs_concat [of parts] descs(1)
    by (simp add: respond_def Let_def do_ext_def quiet_def t_def read exact_desc_def config_header_def)
qed

theorem composite_config_read_witness:
  "\<exists>s'. composite_setup CompositeDemo.demo_env
           \<lparr>bRequestType = 0x80, bRequest = 6, wValue = 0x0200, wIndex = 0, wLength = 255\<rparr> demo_dev = Some (0, s') \<and>
     calls s' = [EpQueue ([9, 2, 25, 0, 1, 1, 0, 0x80, 50] @ concat demo_descs) True] \<and>
     parse_descs ([9, 2, 25, 0, 1, 1, 0, 0x80, 50] @ concat demo_descs) =
       Some ([9, 2, 25, 0, 1, 1, 0, 0x80, 50] # demo_descs)"
proof -
  let ?c = "\<lparr>bRequestType = 0x80, bRequest = 6, wValue = 0x0200, wIndex = 0, wLength = 255\<rparr>"
  have d: "config_descs demo_dev 0 SPEED_UNKNOWN = demo_descs"
    by (simp add: demo_defs config_descs_def function_descs_def opt_list_def descriptors_at_def)
  have h: "config_header CompositeDemo.demo_env (confs demo_dev 0) 2 25 = [9, 2, 25, 0, 1, 1, 0, 0x80, 50]"
    by (simp add: demo_defs config_header_def le16_bytes_def)
  have f: "filter (\<lambda>c. works_at False (confs demo_dev c)) (configs demo_dev) = [0]"
    by (simp add: works_at_def demo_defs)
  have l: "length (concat demo_descs) = 16" by (simp add: demo_defs)
  let ?parts = "[9, 2, 25, 0, 1, 1, 0, 0x80, 50] # demo_descs" and ?n = "25 < unat (wLength ?c)"
  have "\<exists>s'. composite_setup CompositeDemo.demo_env ?c demo_dev =
         Some (ext CompositeDemo.demo_env (EpQueue (concat ?parts) ?n) (calls demo_dev), s') \<and>
       calls s' = calls demo_dev @ [EpQueue (concat ?parts) ?n] \<and> quiet demo_dev s' \<and>
       length (concat ?parts) = 25 \<and> parse_descs (concat ?parts) = Some ?parts"
  proof (rule composite_config_read [OF demo_inv demo_drivers_ok, where hs = False and sp = SPEED_UNKNOWN and works = "[0]" and c = 0])
    show "1024 < DELAYED_STATUS CompositeDemo.demo_env" "set_alt_contract CompositeDemo.demo_env"
      by (simp_all add: CompositeDemo.demo_env_def set_alt_contract_def alt_value_def)
    show "False \<longleftrightarrow> is_dual CompositeDemo.demo_env \<and> gspeed demo_dev = SPEED_HIGH" by (simp add: demo_dev_def)
    show "[0] = filter (\<lambda>c. works_at False (confs demo_dev c)) (configs demo_dev)" by (simp only: f)
    show "\<forall>d\<in>set (config_descs demo_dev 0 SPEED_UNKNOWN). exact_desc d" "25 = 9 + descs_total (config_descs demo_dev 0 SPEED_UNKNOWN)"
      unfolding d by (simp_all add: demo_descs_def exact_desc_def)
    show "?parts = config_header CompositeDemo.demo_env (confs demo_dev 0) 2 25 # config_descs demo_dev 0 SPEED_UNKNOWN"
      by (simp only: d h)
    show "concat ?parts = take (unat (wLength ?c)) (concat ?parts)" using l by simp
  qed simp_all
  moreover have "ext CompositeDemo.demo_env x h = 0" "calls demo_dev = []" for x h by (simp_all add: CompositeDemo.demo_env_def demo_dev_def)
  ultimately show ?thesis by auto
qed

end
